(* ===== verification/Prelude.thy ===== *)
theory Prelude
  imports "HOL-Library.Word" "HOL-Library.Signed_Division" "HOL-Library.Sublist"
begin

text \<open>
  Shared vocabulary of the development: the machine types of the driver, the
  bit tests and little-endian byte accesses its encoders use, arrays that are
  updated in place, and the ring-buffer arithmetic
  (\<^theory_text>\<open>(head + count) % capacity\<close>) every bounded queue of the driver is
  written with.
\<close>

unbundle bit_operations_syntax

type_synonym byte = "8 word"
type_synonym u16 = "16 word"
type_synonym u32 = "32 word"
type_synonym u64 = "64 word"
type_synonym i16 = int

named_theorems queue_simps "what the operations of a queue do to its contents"
named_theorems layout_simps "lengths and positions of encoded byte strings"

section \<open>Words\<close>

definition has :: "u32 \<Rightarrow> u32 \<Rightarrow> bool"
  where "has w m \<longleftrightarrow> w AND m \<noteq> 0"

lemma has_0 [simp]: "\<not> has 0 m"
  by (simp add: has_def)

lemma has_or: "has (v OR w) m \<longleftrightarrow> has v m \<or> has w m"
proof -
  have "(v OR w) AND m = (v AND m) OR (w AND m)"
    by (simp add: bit.conj_disj_distrib2)
  then show ?thesis by (simp add: has_def or_eq_0_iff)
qed

text \<open>A C conversion of an integer expression to an unsigned type keeps the
  low bits; a conversion of an unsigned value to a signed 16-bit one reads the
  two's complement value.\<close>

definition byte_of_int :: "int \<Rightarrow> byte"
  where "byte_of_int i = word_of_int i"

definition u16_of_int :: "int \<Rightarrow> u16"
  where "u16_of_int i = word_of_int i"

definition lo8 :: "u16 \<Rightarrow> byte"
  where "lo8 w = ucast w"

definition hi8 :: "u16 \<Rightarrow> byte"
  where "hi8 w = ucast (drop_bit 8 w)"

definition le16_bytes :: "u16 \<Rightarrow> byte list"
  where "le16_bytes w = [lo8 w, hi8 w]"

definition le16_of :: "byte \<Rightarrow> byte \<Rightarrow> u16"
  where "le16_of l h = ucast l OR push_bit 8 (ucast h)"

definition le32_bytes :: "u32 \<Rightarrow> byte list"
  where "le32_bytes w =
    [ucast w, ucast (drop_bit 8 w), ucast (drop_bit 16 w), ucast (drop_bit 24 w)]"

definition le32_of :: "byte \<Rightarrow> byte \<Rightarrow> byte \<Rightarrow> byte \<Rightarrow> u32"
  where "le32_of a b c d =
    ucast a OR push_bit 8 (ucast b) OR push_bit 16 (ucast c) OR push_bit 24 (ucast d)"

lemma length_le16_bytes [simp, layout_simps]: "length (le16_bytes w) = 2"
  by (simp add: le16_bytes_def)

lemma length_le32_bytes [simp, layout_simps]: "length (le32_bytes w) = 4"
  by (simp add: le32_bytes_def)

lemma le16_of_bytes [simp]: "le16_of (lo8 w) (hi8 w) = w"
  by (rule bit_word_eqI)
     (auto simp: le16_of_def lo8_def hi8_def bit_simps)

lemma lo8_le16_of [simp]: "lo8 (le16_of l h) = l"
  by (rule bit_word_eqI) (auto simp: le16_of_def lo8_def bit_simps)

lemma hi8_le16_of [simp]: "hi8 (le16_of l h) = h"
  by (rule bit_word_eqI) (auto simp: le16_of_def hi8_def bit_simps dest: bit_imp_le_length)

lemma le16_bytes_inject [simp]: "le16_bytes v = le16_bytes w \<longleftrightarrow> v = w"
proof
  assume "le16_bytes v = le16_bytes w"
  then have "lo8 v = lo8 w" "hi8 v = hi8 w"
    by (simp_all add: le16_bytes_def)
  then show "v = w" by (metis le16_of_bytes)
qed simp

lemma le32_of_bytes [simp]:
  "le32_of (ucast w) (ucast (drop_bit 8 w)) (ucast (drop_bit 16 w)) (ucast (drop_bit 24 w)) = w"
proof (rule bit_word_eqI)
  fix n assume "n < LENGTH(32)"
  then have "n < 32" by simp
  then consider "n < 8" | "8 \<le> n" "n < 16" | "16 \<le> n" "n < 24" | "24 \<le> n" "n < 32"
    by linarith
  then show "bit (le32_of (ucast w) (ucast (drop_bit 8 w)) (ucast (drop_bit 16 w))
      (ucast (drop_bit 24 w))) n = bit w n"
    by cases (simp_all add: le32_of_def bit_simps, auto)
qed

text \<open>Widening keeps values, and a sum below the width does not wrap.\<close>

lemma uint_u16_bound: "0 \<le> uint (w :: u16) \<and> uint w < 65536"
  using uint_lt2p [of w] by simp

lemma uint_byte_bound: "0 \<le> uint (w :: byte) \<and> uint w < 256"
  using uint_lt2p [of w] by simp

lemma unat_byte_bound: "unat (b :: byte) < 256"
  using unsigned_less [of b, where 'a=nat] by simp

lemma unat_u16_bound: "unat (w :: u16) < 65536"
  using unsigned_less [of w, where 'a=nat] by simp

lemma unat_u16_u32 [simp]: "unat (ucast (w :: u16) :: u32) = unat w"
  by (simp add: unsigned_ucast_eq take_bit_nat_eq_self_iff less_trans [OF unat_u16_bound])

lemma unat_byte_u16 [simp]: "unat (ucast (w :: byte) :: u16) = unat w"
  by (simp add: unsigned_ucast_eq take_bit_nat_eq_self_iff less_trans [OF unat_byte_bound])

lemma unat_byte_u32 [simp]: "unat (ucast (w :: byte) :: u32) = unat w"
  by (simp add: unsigned_ucast_eq take_bit_nat_eq_self_iff less_trans [OF unat_byte_bound])

lemma unat_of_nat_u16: "n < 65536 \<Longrightarrow> unat (of_nat n :: u16) = n"
  by (simp add: unat_of_nat take_bit_nat_eq_self_iff)

lemma unat_of_nat_byte: "n < 256 \<Longrightarrow> unat (of_nat n :: byte) = n"
  by (simp add: unat_of_nat take_bit_nat_eq_self_iff)

lemma unat_add_u32: "unat v + unat w < 4294967296 \<Longrightarrow> unat (v + w :: u32) = unat v + unat w"
  by (simp add: unat_word_ariths)

section \<open>Integer expressions of the source\<close>

text \<open>\<^term>\<open>(sdiv)\<close> is C's division on \<^typ>\<open>int\<close>: it truncates toward zero.\<close>

definition clamp :: "int \<Rightarrow> int \<Rightarrow> int \<Rightarrow> int"
  where "clamp lo hi v = (if v < lo then lo else if v > hi then hi else v)"

lemma clamp_bounds: "lo \<le> hi \<Longrightarrow> lo \<le> clamp lo hi v \<and> clamp lo hi v \<le> hi"
  by (simp add: clamp_def)

lemma clamp_id [simp]: "lo \<le> v \<Longrightarrow> v \<le> hi \<Longrightarrow> clamp lo hi v = v"
  by (simp add: clamp_def)

lemma clamp_mono: "lo \<le> hi \<Longrightarrow> v \<le> w \<Longrightarrow> clamp lo hi v \<le> clamp lo hi w"
  by (auto simp: clamp_def)

definition i16_ok :: "i16 \<Rightarrow> bool"
  where "i16_ok v \<longleftrightarrow> - 32768 \<le> v \<and> v \<le> 32767"

section \<open>Arrays updated in place\<close>

text \<open>\<^theory_text>\<open>memcpy(dst + at, src, length src)\<close>.\<close>

definition overwrite :: "nat \<Rightarrow> 'a list \<Rightarrow> 'a list \<Rightarrow> 'a list"
  where "overwrite at src dst = take at dst @ src @ drop (at + length src) dst"

lemma length_overwrite [simp, layout_simps]:
  "at + length src \<le> length dst \<Longrightarrow> length (overwrite at src dst) = length dst"
  by (simp add: overwrite_def)

lemma take_overwrite_0 [simp]:
  "length src = n \<Longrightarrow> take n (overwrite 0 src dst) = src"
  by (simp add: overwrite_def)

lemma overwrite_all [simp]: "length dst \<le> length src \<Longrightarrow> overwrite 0 src dst = src"
  by (simp add: overwrite_def)

lemma filter_update_drops:
  "i < length xs \<Longrightarrow> P (xs ! i) \<Longrightarrow> \<not> P y \<Longrightarrow>
    length (filter P (xs[i := y])) = length (filter P xs) - 1"
proof (induction xs arbitrary: i)
  case (Cons x xs)
  show ?case
  proof (cases i)
    case 0
    with Cons.prems show ?thesis by simp
  next
    case (Suc j)
    then have "xs ! j \<in> set (filter P xs)" using Cons.prems by simp
    then have "0 < length (filter P xs)" by (rule length_pos_if_in_set)
    with Suc Cons show ?thesis by auto
  qed
qed simp

text \<open>The loop \<^theory_text>\<open>for (i = 1; i < n; ++i) a[i - 1] = a[i]\<close>.\<close>

definition shift_down :: "nat \<Rightarrow> 'a list \<Rightarrow> 'a list"
  where "shift_down n a = foldl (\<lambda>b i. b[i - 1 := b ! i]) a [1..<n]"

lemma shift_down_Suc:
  "1 \<le> n \<Longrightarrow> shift_down (Suc n) a = (shift_down n a)[n - 1 := shift_down n a ! n]"
  by (simp add: shift_down_def)

lemma shift_down_spec:
  assumes "1 \<le> n" "n \<le> length a"
  shows "length (shift_down n a) = length a \<and>
    (\<forall>i < length a. shift_down n a ! i = (if Suc i < n then a ! Suc i else a ! i))"
  using assms
proof (induction n)
  case 0 then show ?case by simp
next
  case (Suc n)
  show ?case
  proof (cases "n = 0")
    case True then show ?thesis by (simp add: shift_down_def)
  next
    case False
    then have n: "1 \<le> n" "n \<le> length a" using Suc.prems by auto
    show ?thesis
      using Suc.IH [OF n] n Suc.prems
      by (auto simp: shift_down_Suc nth_list_update split: if_splits)
  qed
qed

lemma length_shift_down [simp]: "length (shift_down n a) = length a"
proof -
  have "length (foldl (\<lambda>b i. b[i - 1 := b ! i]) a xs) = length a" for xs
    by (induction xs arbitrary: a) auto
  then show ?thesis by (simp add: shift_down_def)
qed

lemma take_shift_down:
  assumes "0 < n" "n \<le> length a"
  shows "take (n - 1) (shift_down n a) = tl (take n a)"
proof (rule nth_equalityI)
  show "length (take (n - 1) (shift_down n a)) = length (tl (take n a))"
    using assms by simp
next
  fix i assume i: "i < length (take (n - 1) (shift_down n a))"
  then have "i < n - 1" by simp
  then have "Suc i < n" "i < length a" using assms by auto
  then show "take (n - 1) (shift_down n a) ! i = tl (take n a) ! i"
    using assms shift_down_spec [of n a] by (simp add: nth_tl)
qed

section \<open>Ring buffers\<close>

text \<open>The entries of a ring of capacity \<^term>\<open>length a\<close>, oldest first, and the
  two things the code does to one: write at the tail, advance the head.\<close>

definition ring :: "'a list \<Rightarrow> nat \<Rightarrow> nat \<Rightarrow> 'a list"
  where "ring a head count = map (\<lambda>i. a ! ((head + i) mod length a)) [0..<count]"

lemma length_ring [simp]: "length (ring a h n) = n"
  by (simp add: ring_def)

lemma ring_0 [simp]: "ring a h 0 = []"
  by (simp add: ring_def)

lemma ring_eq_Nil [simp]: "ring a h n = [] \<longleftrightarrow> n = 0"
  by (simp add: ring_def)

lemma nth_ring: "i < n \<Longrightarrow> ring a h n ! i = a ! ((h + i) mod length a)"
  by (simp add: ring_def)

lemma ring_hd: "0 < n \<Longrightarrow> h < length a \<Longrightarrow> hd (ring a h n) = a ! h"
  by (simp add: ring_def hd_map)

lemma ring_Suc:
  "h < length a \<Longrightarrow> ring a h (Suc n) = a ! h # ring a (Suc h mod length a) n"
  by (rule nth_equalityI)
     (auto simp: nth_ring nth_Cons mod_Suc_eq mod_add_left_eq mod_simps split: nat.split)

lemma ring_pop:
  "0 < n \<Longrightarrow> h < length a \<Longrightarrow> ring a (Suc h mod length a) (n - 1) = tl (ring a h n)"
  by (cases n) (simp_all add: ring_Suc)

lemma ring_tail_fresh:
  assumes "n < length a" "i < n"
  shows "(h + i) mod length a \<noteq> (h + n) mod length a"
proof
  assume eq: "(h + i) mod length a = (h + n) mod length a"
  then have "length a dvd (h + n) - (h + i)"
    using assms by (metis mod_eq_dvd_iff_nat nat_add_left_cancel_le less_imp_le)
  then have "length a dvd n - i" by simp
  with assms show False by (auto dest: dvd_imp_le)
qed

lemma ring_push:
  assumes "n < length a"
  shows "ring (a[(h + n) mod length a := x]) h (Suc n) = ring a h n @ [x]"
proof (rule nth_equalityI)
  fix i assume "i < length (ring (a[(h + n) mod length a := x]) h (Suc n))"
  then have i: "i < Suc n" by simp
  have pos: "0 < length a" using assms by linarith
  show "ring (a[(h + n) mod length a := x]) h (Suc n) ! i = (ring a h n @ [x]) ! i"
  proof (cases "i = n")
    case True then show ?thesis using pos by (simp add: nth_ring nth_append del: length_greater_0_conv)
  next
    case False
    then have "i < n" using i by simp
    then show ?thesis
      using ring_tail_fresh [OF assms, of i h] i by (simp add: nth_ring nth_append)
  qed
qed simp

lemma ring_map: "0 < length a \<Longrightarrow> ring (map f a) h n = map f (ring a h n)"
  by (simp add: ring_def)

lemma ring_index_inj:
  assumes "i < (c::nat)" "j < c" "(h + i) mod c = (h + j) mod c"
  shows "i = j"
proof -
  have "i = j" if "i \<le> j" "j < c" "(h + i) mod c = (h + j) mod c" for i j
  proof -
    from that have "c dvd (h + j) - (h + i)" by (metis mod_eq_dvd_iff_nat nat_add_left_cancel_le)
    then have "c dvd j - i" by simp
    with that show ?thesis by (auto dest: dvd_imp_le)
  qed
  with assms show ?thesis by (metis nat_le_linear)
qed

text \<open>Closing the gap left by the entry at position \<open>v\<close>: the loop
  \<^theory_text>\<open>for (i = v; i + 1 < n; ++i) q[(h + i) % c] = q[(h + i + 1) % c]\<close>.\<close>

definition ring_close :: "nat \<Rightarrow> 'a list \<Rightarrow> nat \<Rightarrow> nat \<Rightarrow> 'a list"
  where "ring_close v a h n =
    foldl (\<lambda>b i. b[(h + i) mod length a := b ! ((h + i + 1) mod length a)]) a [v..<n - 1]"

lemma ring_close_upto:
  fixes h v :: nat
  assumes "n \<le> length a" "m < n"
  defines "b \<equiv> foldl (\<lambda>b i. b[(h + i) mod length a := b ! ((h + i + 1) mod length a)]) a [v..<m]"
  shows "length b = length a \<and> (\<forall>i < n. b ! ((h + i) mod length a) =
    (if v \<le> i \<and> i < m then a ! ((h + i + 1) mod length a) else a ! ((h + i) mod length a)))"
  using assms(2) unfolding b_def
proof (induction m)
  case (Suc m)
  let ?b = "foldl (\<lambda>b i. b[(h + i) mod length a := b ! ((h + i + 1) mod length a)]) a [v..<m]"
  have IH: "length ?b = length a"
    "\<And>i. i < n \<Longrightarrow> ?b ! ((h + i) mod length a) =
      (if v \<le> i \<and> i < m then a ! ((h + i + 1) mod length a) else a ! ((h + i) mod length a))"
    using Suc by auto
  show ?case
  proof (cases "v \<le> m")
    case False
    with IH show ?thesis by auto
  next
    case True
    let ?x = "?b ! ((h + m + 1) mod length a)"
    have x: "?x = a ! ((h + m + 1) mod length a)"
      using IH(2) [of "m + 1"] Suc.prems by (simp add: add.assoc)
    have upd: "?b[(h + m) mod length a := ?x] ! ((h + i) mod length a) =
        (if i = m then ?x else ?b ! ((h + i) mod length a))" if "i < n" for i
    proof -
      have "(h + i) mod length a < length a"
        by (rule mod_less_divisor) (use that assms(1) in linarith)
      moreover have "(h + m) mod length a = (h + i) mod length a \<longleftrightarrow> m = i"
        using ring_index_inj [of m "length a" i h] that Suc.prems assms(1) by auto
      ultimately show ?thesis using IH(1) by (auto simp: nth_list_update)
    qed
    from True IH x upd show ?thesis by (auto simp: less_Suc_eq)
  qed
qed simp

lemma length_ring_close [simp]: "n \<le> length a \<Longrightarrow> length (ring_close v a h n) = length a"
  using ring_close_upto [of n a "n - 1" h v]
  by (cases "n = 0") (auto simp: ring_close_def)

lemma ring_close:
  assumes "n \<le> length a" "v < n"
  shows "ring (ring_close v a h n) h (n - 1) = take v (ring a h n) @ drop (Suc v) (ring a h n)"
proof (rule nth_equalityI)
  show len: "length (ring (ring_close v a h n) h (n - 1)) =
      length (take v (ring a h n) @ drop (Suc v) (ring a h n))"
    using assms by simp
  fix i assume "i < length (ring (ring_close v a h n) h (n - 1))"
  then have i: "i < n - 1" by simp
  have "ring_close v a h n ! ((h + i) mod length a) =
      (if v \<le> i then a ! ((h + i + 1) mod length a) else a ! ((h + i) mod length a))"
    using ring_close_upto [of n a "n - 1" h v] assms i by (auto simp: ring_close_def)
  then show "ring (ring_close v a h n) h (n - 1) ! i =
      (take v (ring a h n) @ drop (Suc v) (ring a h n)) ! i"
    using assms i by (auto simp: nth_ring nth_append min_def)
qed

section \<open>Filtering a history\<close>

text \<open>\<open>xs\<close> is \<open>off\<close> with some entries skipped, none
  repeated or reordered, and the newest entry kept.\<close>

definition tracks :: "'a list \<Rightarrow> 'a list \<Rightarrow> bool"
  where "tracks xs off \<longleftrightarrow> subseq xs off \<and> (off \<noteq> [] \<longrightarrow> xs \<noteq> [] \<and> last xs = last off)"

lemma tracks_Nil [simp]: "tracks [] []"
  by (simp add: tracks_def)

lemma tracks_snoc: "tracks xs off \<Longrightarrow> subseq ys xs \<Longrightarrow> tracks (ys @ [s]) (off @ [s])"
  unfolding tracks_def
  by (metis append_is_Nil_conv last_snoc list.distinct(1) list_emb_append_mono
      subseq_order.trans subseq_order.order_refl)

lemma subseq_left: "subseq ys xs \<Longrightarrow> subseq (pre @ ys) (pre @ xs)"
  by (simp add: list_emb_append_mono)

end
