(* ===== verification/BoundedQueue.thy ===== *)
theory BoundedQueue
  imports Prelude
begin

text \<open>
  The interface every bounded queue of the driver shares: contents oldest
  first, an append below capacity, a removal of the oldest entry. The driver
  has two policies on top of it -- make room by discarding the oldest
  (\<^theory_text>\<open>force\<close>) and refuse the newcomer (\<^theory_text>\<open>offer\<close>) -- and their
  laws are proved once here. The report pump, the Steam haptic and settings rings
  and the keyboard/mouse endpoint interpret it.
\<close>

definition newest :: "nat \<Rightarrow> 'a list \<Rightarrow> 'a list"
  where "newest cap xs = drop (length xs - cap) xs"

lemma length_newest [simp]: "length (newest cap xs) = min (length xs) cap"
  by (simp add: newest_def)

lemma newest_id [simp]: "length xs \<le> cap \<Longrightarrow> newest cap xs = xs"
  by (simp add: newest_def)

lemma newest_newest_append: "newest cap (newest cap xs @ ys) = newest cap (xs @ ys)"
  by (cases "length xs \<le> cap") (simp_all add: newest_def add.commute)

lemma subseq_newest: "subseq (newest cap xs) xs"
  unfolding newest_def by (metis append_take_drop_id list_emb_append2 subseq_order.order_refl)

lemma newest_suffix: "\<exists>zs. xs = zs @ newest cap xs"
  by (metis append_take_drop_id newest_def)

locale bounded_queue =
  fixes contents :: "'q \<Rightarrow> 'a list"
    and ok :: "'q \<Rightarrow> bool"
    and cap :: nat
    and push :: "'a \<Rightarrow> 'q \<Rightarrow> 'q"
    and pop :: "'q \<Rightarrow> 'q"
  assumes cap_pos: "0 < cap"
    and length_contents: "ok q \<Longrightarrow> length (contents q) \<le> cap"
    and push_law: "ok q \<Longrightarrow> length (contents q) < cap \<Longrightarrow>
      ok (push x q) \<and> contents (push x q) = contents q @ [x]"
    and pop_law: "ok q \<Longrightarrow> contents q \<noteq> [] \<Longrightarrow>
      ok (pop q) \<and> contents (pop q) = tl (contents q)"
begin

definition force :: "'a \<Rightarrow> 'q \<Rightarrow> 'q"
  where "force x q = push x (if length (contents q) = cap then pop q else q)"

definition offer :: "'a \<Rightarrow> 'q \<Rightarrow> 'q"
  where "offer x q = (if length (contents q) = cap then q else push x q)"

lemma room: "ok q \<Longrightarrow> length (contents q) \<noteq> cap \<Longrightarrow> length (contents q) < cap"
  using length_contents by (meson le_neq_implies_less)

lemma force_ok: "ok q \<Longrightarrow> ok (force x q)"
  and force_contents: "ok q \<Longrightarrow> contents (force x q) = newest cap (contents q @ [x])"
proof -
  assume q: "ok q"
  have "ok (force x q) \<and> contents (force x q) = newest cap (contents q @ [x])"
  proof (cases "length (contents q) = cap")
    case True
    then have ne: "contents q \<noteq> []" using cap_pos by auto
    have p: "ok (pop q)" "contents (pop q) = tl (contents q)"
      using pop_law [OF q ne] by auto
    have "length (contents (pop q)) < cap" using p True cap_pos by simp
    from push_law [OF p(1) this, of x] show ?thesis
      using True p ne cap_pos by (simp add: force_def newest_def drop_Suc)
  next
    case False
    from push_law [OF q room [OF q False], of x] room [OF q False] show ?thesis
      using False by (simp add: force_def)
  qed
  then show "ok (force x q)" "contents (force x q) = newest cap (contents q @ [x])"
    by auto
qed

lemma offer_ok: "ok q \<Longrightarrow> ok (offer x q)"
  using push_law room by (simp add: offer_def)

lemma offer_contents:
  "ok q \<Longrightarrow> contents (offer x q) =
    (if length (contents q) = cap then contents q else contents q @ [x])"
  using push_law room by (simp add: offer_def)

lemma force_all:
  "ok q \<Longrightarrow> ok (fold force xs q) \<and> contents (fold force xs q) = newest cap (contents q @ xs)"
proof (induction xs arbitrary: q)
  case Nil
  then show ?case using length_contents by simp
next
  case (Cons x xs)
  have "newest cap (newest cap (contents q @ [x]) @ xs) = newest cap (contents q @ x # xs)"
    using newest_newest_append [of cap "contents q @ [x]" xs] by simp
  with Cons.IH [OF force_ok [OF Cons.prems, of x]] show ?case
    by (simp add: force_contents [OF Cons.prems])
qed

lemma newest_kept: "ok q \<Longrightarrow> last (contents (force x q)) = x \<and> contents (force x q) \<noteq> []"
  using cap_pos by (simp add: force_contents newest_def)

lemma drain:
  "ok q \<Longrightarrow> n \<le> length (contents q) \<Longrightarrow>
    ok ((pop ^^ n) q) \<and> contents ((pop ^^ n) q) = drop n (contents q)"
proof (induction n)
  case 0 then show ?case by simp
next
  case (Suc n)
  then have IH: "ok ((pop ^^ n) q)" "contents ((pop ^^ n) q) = drop n (contents q)" by auto
  have "contents ((pop ^^ n) q) \<noteq> []" using IH Suc.prems by simp
  from pop_law [OF IH(1) this] show ?case
    using IH by (simp add: drop_Suc tl_drop)
qed

end

section \<open>The in-place ring\<close>

text \<open>The representation the code uses each time: an array, the index of the
  oldest entry and the number of entries.\<close>

type_synonym 'a ring_state = "'a list \<times> nat \<times> nat"

definition ring_contents :: "'a ring_state \<Rightarrow> 'a list"
  where "ring_contents r = (case r of (a, h, n) \<Rightarrow> ring a h n)"

definition ring_ok :: "nat \<Rightarrow> 'a ring_state \<Rightarrow> bool"
  where "ring_ok cap r = (case r of (a, h, n) \<Rightarrow> length a = cap \<and> h < cap \<and> n \<le> cap)"

definition ring_put :: "nat \<Rightarrow> 'a \<Rightarrow> 'a ring_state \<Rightarrow> 'a ring_state"
  where "ring_put cap x r = (case r of (a, h, n) \<Rightarrow> (a[(h + n) mod cap := x], h, Suc n))"

definition ring_drop :: "nat \<Rightarrow> 'a ring_state \<Rightarrow> 'a ring_state"
  where "ring_drop cap r = (case r of (a, h, n) \<Rightarrow> (a, Suc h mod cap, n - 1))"

lemma ring_is_bounded_queue:
  assumes "0 < cap"
  shows "bounded_queue ring_contents (ring_ok cap) cap (ring_put cap) (ring_drop cap)"
proof
  show "0 < cap" by fact
next
  fix q :: "'a ring_state" and x :: 'a
  obtain a h n where q: "q = (a, h, n)" by (cases q)
  { assume "ring_ok cap q"
    then show "length (ring_contents q) \<le> cap"
      by (simp add: q ring_ok_def ring_contents_def) }
  { assume "ring_ok cap q" "length (ring_contents q) < cap"
    then show "ring_ok cap (ring_put cap x q) \<and>
        ring_contents (ring_put cap x q) = ring_contents q @ [x]"
      using ring_push [of n a h x]
      by (simp add: q ring_ok_def ring_contents_def ring_put_def) }
  { assume ok: "ring_ok cap q" and ne: "ring_contents q \<noteq> []"
    then show "ring_ok cap (ring_drop cap q) \<and>
        ring_contents (ring_drop cap q) = tl (ring_contents q)"
      using ring_pop [of n h a] assms
      by (auto simp: q ring_ok_def ring_contents_def ring_drop_def) }
qed

end
