(* ===== verification/ReportPump.thy ===== *)
theory ReportPump
  imports BoundedQueue
begin

text \<open>
  Input report pacing: \<^theory_text>\<open>driver/src/report_pump.h\<close> and
  \<^theory_text>\<open>report_pump.cpp\<close>. The state is the class's members, arrays at their
  capacity and the ring by head and count, exactly as declared; a data pointer is
  an optional byte list. Below it stands the abstract pump -- a priority list, a
  transition list and at most one snapshot -- that the class implements, and the
  delivery guarantees proved over arbitrary runs of operations.
\<close>

section \<open>State\<close>

definition k_max_report_bytes :: nat
  where "k_max_report_bytes = 64"

definition k_transition_capacity :: nat
  where "k_transition_capacity = 16"

definition k_priority_capacity :: nat
  where "k_priority_capacity = 4"

lemmas pump_capacities = k_max_report_bytes_def k_transition_capacity_def k_priority_capacity_def

record report_buffer =
  rb_data :: "byte list"
  rb_length :: u32
  rb_report_id :: byte

datatype report_kind = Continuous | Transition | Priority | Aside

record report_pump =
  ready :: bool
  in_flight :: report_buffer
  priority :: "report_buffer list"
  priority_count :: nat
  transitions :: "report_buffer list"
  transition_aside :: "bool list"
  transition_head :: nat
  transition_count :: nat
  latest :: report_buffer
  have_latest :: bool
  dropped :: u32
  have_signature :: bool
  last_buttons :: u32
  last_left_trigger :: bool
  last_right_trigger :: bool

definition blank_report :: report_buffer
  where "blank_report = \<lparr>rb_data = replicate k_max_report_bytes 0, rb_length = 0, rb_report_id = 0\<rparr>"

text \<open>The value-initialised members of a fresh object.\<close>

definition new_pump :: report_pump
  where "new_pump = \<lparr>ready = False, in_flight = blank_report,
    priority = replicate k_priority_capacity blank_report, priority_count = 0,
    transitions = replicate k_transition_capacity blank_report,
    transition_aside = replicate k_transition_capacity False,
    transition_head = 0, transition_count = 0, latest = blank_report, have_latest = False,
    dropped = 0, have_signature = False, last_buttons = 0,
    last_left_trigger = False, last_right_trigger = False\<rparr>"

definition pump_empty :: "report_pump \<Rightarrow> bool"
  where "pump_empty p \<longleftrightarrow> priority_count p = 0 \<and> transition_count p = 0 \<and> \<not> have_latest p"

section \<open>Operations\<close>

definition pump_store :: "report_buffer \<Rightarrow> byte list \<Rightarrow> u32 \<Rightarrow> byte \<Rightarrow> report_buffer"
  where "pump_store slot dat len report_id =
    (let copied = (if unat len > k_max_report_bytes then of_nat k_max_report_bytes else len)
     in slot\<lparr>rb_data := overwrite 0 (take (unat copied) dat) (rb_data slot),
             rb_length := copied, rb_report_id := report_id\<rparr>)"

definition pump_reset :: "report_pump \<Rightarrow> report_pump"
  where "pump_reset p = p\<lparr>ready := False, priority_count := 0,
    transition_head := 0, transition_count := 0,
    transition_aside := map (\<lambda>_. False) (transition_aside p),
    have_latest := False, dropped := 0, have_signature := False, last_buttons := 0,
    last_left_trigger := False, last_right_trigger := False\<rparr>"

definition classify :: "u32 \<Rightarrow> byte \<Rightarrow> byte \<Rightarrow> report_pump \<Rightarrow> report_kind \<times> report_pump"
  where "classify buttons left_trigger right_trigger p =
    (let left_pressed = 0 < left_trigger;
         right_pressed = 0 < right_trigger;
         discrete_change = (\<not> have_signature p \<or> buttons \<noteq> last_buttons p \<or>
           left_pressed \<noteq> last_left_trigger p \<or> right_pressed \<noteq> last_right_trigger p)
     in (if discrete_change then Transition else Continuous,
         p\<lparr>have_signature := True, last_buttons := buttons,
           last_left_trigger := left_pressed, last_right_trigger := right_pressed\<rparr>))"

text \<open>The head step that removes the oldest queued entry, used by
  \<^theory_text>\<open>enqueue\<close> to evict and by \<^theory_text>\<open>take\<close> to consume.\<close>

definition advance_head :: "report_pump \<Rightarrow> report_pump"
  where "advance_head p =
    p\<lparr>transition_head := (transition_head p + 1) mod k_transition_capacity,
      transition_count := transition_count p - 1\<rparr>"

definition append_ordered :: "byte list \<Rightarrow> u32 \<Rightarrow> byte \<Rightarrow> bool \<Rightarrow> report_pump \<Rightarrow> report_pump"
  where "append_ordered dat len report_id is_aside p =
    (let tail = (transition_head p + transition_count p) mod k_transition_capacity
     in p\<lparr>transitions := (transitions p)
            [tail := pump_store (transitions p ! tail) dat len report_id],
          transition_aside := (transition_aside p)[tail := is_aside],
          transition_count := transition_count p + 1\<rparr>)"

definition enqueue ::
  "byte list option \<Rightarrow> u32 \<Rightarrow> byte \<Rightarrow> report_kind \<Rightarrow> report_pump \<Rightarrow> bool \<times> report_pump"
  where "enqueue data len report_id kind p =
    (case data of
       None \<Rightarrow> (True, p)
     | Some dat \<Rightarrow>
        if len = 0 then (True, p)
        else case kind of
          Priority \<Rightarrow>
            if priority_count p \<ge> k_priority_capacity then (False, p)
            else (True, p\<lparr>priority := (priority p)[priority_count p :=
                            pump_store (priority p ! priority_count p) dat len report_id],
                          priority_count := priority_count p + 1\<rparr>)
        | Continuous \<Rightarrow>
            (True, p\<lparr>latest := pump_store (latest p) dat len report_id, have_latest := True\<rparr>)
        | _ \<Rightarrow>
            let is_aside = (kind = Aside);
                p = (if is_aside then p else p\<lparr>have_latest := False\<rparr>)
            in if transition_count p = k_transition_capacity then
                 if is_aside then (False, p)
                 else
                   let victim_was_aside = transition_aside p ! transition_head p;
                       p = advance_head p;
                       p = (if victim_was_aside then p else p\<lparr>dropped := dropped p + 1\<rparr>)
                   in (False, append_ordered dat len report_id is_aside p)
               else (True, append_ordered dat len report_id is_aside p))"

definition set_ready :: "report_pump \<Rightarrow> report_pump"
  where "set_ready p = p\<lparr>ready := True\<rparr>"

definition pump_take :: "report_pump \<Rightarrow> report_buffer option \<times> report_pump"
  where "pump_take p =
    (if \<not> ready p then (None, p)
     else if priority_count p > 0 then
       let p = p\<lparr>in_flight := priority p ! 0,
                priority := shift_down (priority_count p) (priority p),
                priority_count := priority_count p - 1, ready := False\<rparr>
       in (Some (in_flight p), p)
     else if transition_count p > 0 then
       let p = (advance_head (p\<lparr>in_flight := transitions p ! transition_head p\<rparr>))
                 \<lparr>ready := False\<rparr>
       in (Some (in_flight p), p)
     else if have_latest p then
       let p = p\<lparr>in_flight := latest p, have_latest := False, ready := False\<rparr>
       in (Some (in_flight p), p)
     else (None, p))"

section \<open>The ordered ring as a bounded queue\<close>

definition ordered_put :: "report_buffer \<times> bool \<Rightarrow> report_pump \<Rightarrow> report_pump"
  where "ordered_put x p =
    (let tail = (transition_head p + transition_count p) mod k_transition_capacity
     in p\<lparr>transitions := (transitions p)[tail := fst x],
          transition_aside := (transition_aside p)[tail := snd x],
          transition_count := transition_count p + 1\<rparr>)"

definition ordered :: "report_pump \<Rightarrow> (report_buffer \<times> bool) list"
  where "ordered p = zip (ring (transitions p) (transition_head p) (transition_count p))
                         (ring (transition_aside p) (transition_head p) (transition_count p))"

definition ring_shape :: "report_pump \<Rightarrow> bool"
  where "ring_shape p \<longleftrightarrow> length (transitions p) = k_transition_capacity \<and>
    length (transition_aside p) = k_transition_capacity \<and>
    transition_head p < k_transition_capacity \<and> transition_count p \<le> k_transition_capacity"

lemma length_ordered [simp]: "length (ordered p) = transition_count p"
  by (simp add: ordered_def)

lemma ordered_eq_Nil [simp]: "ordered p = [] \<longleftrightarrow> transition_count p = 0"
  using length_ordered [of p] by (metis length_0_conv)

interpretation rp: bounded_queue ordered ring_shape k_transition_capacity ordered_put advance_head
proof
  show "0 < k_transition_capacity" by (simp add: k_transition_capacity_def)
next
  fix p assume "ring_shape p"
  then show "length (ordered p) \<le> k_transition_capacity" by (simp add: ring_shape_def)
next
  fix p x assume p: "ring_shape p" and room: "length (ordered p) < k_transition_capacity"
  show "ring_shape (ordered_put x p) \<and> ordered (ordered_put x p) = ordered p @ [x]"
    using p room ring_push [of "transition_count p" "transitions p" "transition_head p" "fst x"]
      ring_push [of "transition_count p" "transition_aside p" "transition_head p" "snd x"]
    by (simp add: ring_shape_def ordered_def ordered_put_def Let_def)
next
  fix p assume p: "ring_shape p" and ne: "ordered p \<noteq> []"
  then have n: "0 < transition_count p" by simp
  have "ordered (advance_head p) = tl (ordered p)"
    using p n ring_pop [of "transition_count p" "transition_head p" "transitions p"]
      ring_pop [of "transition_count p" "transition_head p" "transition_aside p"]
    by (cases "ring (transitions p) (transition_head p) (transition_count p)";
        cases "ring (transition_aside p) (transition_head p) (transition_count p)")
       (simp_all add: ring_shape_def ordered_def advance_head_def)
  with p show "ring_shape (advance_head p) \<and> ordered (advance_head p) = tl (ordered p)"
    by (auto simp: ring_shape_def advance_head_def k_transition_capacity_def)
qed

lemma hd_ordered:
  assumes "ring_shape p" "0 < transition_count p"
  shows "hd (ordered p) = (transitions p ! transition_head p, transition_aside p ! transition_head p)"
  using assms ring_hd [of "transition_count p" "transition_head p" "transitions p"]
    ring_hd [of "transition_count p" "transition_head p" "transition_aside p"]
  by (cases "ring (transitions p) (transition_head p) (transition_count p)";
      cases "ring (transition_aside p) (transition_head p) (transition_count p)")
     (auto simp: ring_shape_def ordered_def dest: arg_cong [where f = length])

section \<open>Well-formed pumps\<close>

definition buffer_ok :: "report_buffer \<Rightarrow> bool"
  where "buffer_ok b \<longleftrightarrow> length (rb_data b) = k_max_report_bytes \<and>
    unat (rb_length b) \<le> k_max_report_bytes"

definition pump_ok :: "report_pump \<Rightarrow> bool"
  where "pump_ok p \<longleftrightarrow> ring_shape p \<and> length (priority p) = k_priority_capacity \<and>
    priority_count p \<le> k_priority_capacity \<and> buffer_ok (in_flight p) \<and> buffer_ok (latest p) \<and>
    list_all buffer_ok (priority p) \<and> list_all buffer_ok (transitions p)"

text \<open>What \<^theory_text>\<open>memcpy\<close> may read: the caller's buffer holds the bytes copied.\<close>

definition source_ok :: "byte list option \<Rightarrow> u32 \<Rightarrow> bool"
  where "source_ok data len \<longleftrightarrow>
    (case data of None \<Rightarrow> True | Some dat \<Rightarrow> min (unat len) k_max_report_bytes \<le> length dat)"

text \<open>A report as its receiver sees it: the valid bytes and the report id.\<close>

type_synonym snapshot = "byte list \<times> byte"

definition snap :: "report_buffer \<Rightarrow> snapshot"
  where "snap b = (take (unat (rb_length b)) (rb_data b), rb_report_id b)"

definition snap_of :: "byte list \<Rightarrow> u32 \<Rightarrow> byte \<Rightarrow> snapshot"
  where "snap_of dat len report_id = (take (min (unat len) k_max_report_bytes) dat, report_id)"

lemma store_ok:
  assumes "buffer_ok b" "source_ok (Some dat) len"
  shows "buffer_ok (pump_store b dat len i) \<and> snap (pump_store b dat len i) = snap_of dat len i"
proof (cases "unat len > k_max_report_bytes")
  case True
  then show ?thesis using assms
    by (simp add: buffer_ok_def pump_store_def snap_def snap_of_def source_ok_def min_def
        k_max_report_bytes_def)
next
  case False
  then show ?thesis using assms
    by (simp add: buffer_ok_def pump_store_def snap_def snap_of_def source_ok_def min_def
        k_max_report_bytes_def)
qed

lemma new_pump_ok: "pump_ok new_pump"
  by (simp add: pump_ok_def ring_shape_def buffer_ok_def new_pump_def blank_report_def
      pump_capacities list_all_iff)

lemma append_ordered_put:
  "append_ordered dat len i a p = ordered_put
    (pump_store (transitions p ! ((transition_head p + transition_count p) mod k_transition_capacity))
       dat len i, a) p"
  by (simp add: append_ordered_def ordered_put_def Let_def)

lemma list_all_update: "list_all P xs \<Longrightarrow> P x \<Longrightarrow> list_all P (xs[i := x])"
  by (induction xs arbitrary: i) (auto split: nat.split)

lemma set_shift_down: "set (shift_down n a) \<subseteq> set a" if "n \<le> length a"
proof -
  have "set (foldl (\<lambda>b i. b[i - 1 := b ! i]) b xs) \<subseteq> set a"
    if "set b \<subseteq> set a" "length b = length a" "\<forall>i\<in>set xs. i < length a" for b xs
    using that
  proof (induction xs arbitrary: b)
    case (Cons x xs)
    have "b ! x \<in> set a" using Cons.prems nth_mem [of x b] by auto
    then have "set (b[x - 1 := b ! x]) \<subseteq> set a"
      using Cons.prems set_update_subset_insert [of b "x - 1" "b ! x"] by blast
    with Cons show ?case by simp
  qed simp
  from this [of a "[1..<n]"] \<open>n \<le> length a\<close> show ?thesis by (simp add: shift_down_def)
qed

lemma shift_down_all: "list_all P a \<Longrightarrow> n \<le> length a \<Longrightarrow> list_all P (shift_down n a)"
  using set_shift_down by (metis list_all_iff subset_iff)

text \<open>Field-level effects of the two ring steps.\<close>

lemma ring_step_fields [simp]:
  "priority (append_ordered d l i a p) = priority p"
  "priority_count (append_ordered d l i a p) = priority_count p"
  "latest (append_ordered d l i a p) = latest p"
  "have_latest (append_ordered d l i a p) = have_latest p"
  "in_flight (append_ordered d l i a p) = in_flight p"
  "ready (append_ordered d l i a p) = ready p"
  "dropped (append_ordered d l i a p) = dropped p"
  "have_signature (append_ordered d l i a p) = have_signature p"
  "last_buttons (append_ordered d l i a p) = last_buttons p"
  "last_left_trigger (append_ordered d l i a p) = last_left_trigger p"
  "last_right_trigger (append_ordered d l i a p) = last_right_trigger p"
  "priority (advance_head p) = priority p"
  "priority_count (advance_head p) = priority_count p"
  "latest (advance_head p) = latest p"
  "have_latest (advance_head p) = have_latest p"
  "in_flight (advance_head p) = in_flight p"
  "ready (advance_head p) = ready p"
  "dropped (advance_head p) = dropped p"
  "have_signature (advance_head p) = have_signature p"
  "last_buttons (advance_head p) = last_buttons p"
  "last_left_trigger (advance_head p) = last_left_trigger p"
  "last_right_trigger (advance_head p) = last_right_trigger p"
  "transitions (advance_head p) = transitions p"
  by (simp_all add: append_ordered_def advance_head_def Let_def)

section \<open>Every operation keeps a pump well formed\<close>

lemma append_ordered_ok:
  assumes "pump_ok p" "transition_count p < k_transition_capacity" "source_ok (Some dat) len"
  shows "pump_ok (append_ordered dat len i a p)"
    and "map (\<lambda>(b, a). (snap b, a)) (ordered (append_ordered dat len i a p)) =
      map (\<lambda>(b, a). (snap b, a)) (ordered p) @ [(snap_of dat len i, a)]"
proof -
  let ?t = "(transition_head p + transition_count p) mod k_transition_capacity"
  let ?b = "pump_store (transitions p ! ?t) dat len i"
  have shape: "ring_shape p" and room: "length (ordered p) < k_transition_capacity"
    using assms by (simp_all add: pump_ok_def)
  have "buffer_ok (transitions p ! ?t)"
    using assms(1) by (simp add: pump_ok_def ring_shape_def list_all_length k_transition_capacity_def)
  then have b: "buffer_ok ?b" "snap ?b = snap_of dat len i"
    using store_ok assms(3) by auto
  have law: "ring_shape (append_ordered dat len i a p)"
    "ordered (append_ordered dat len i a p) = ordered p @ [(?b, a)]"
    using rp.push_law [OF shape room, of "(?b, a)"] by (simp_all add: append_ordered_put)
  have "list_all buffer_ok (transitions (append_ordered dat len i a p))"
    using assms(1) b(1) by (simp add: append_ordered_def Let_def pump_ok_def list_all_update)
  with law(1) assms(1) show "pump_ok (append_ordered dat len i a p)"
    by (simp add: pump_ok_def)
  show "map (\<lambda>(b, a). (snap b, a)) (ordered (append_ordered dat len i a p)) =
      map (\<lambda>(b, a). (snap b, a)) (ordered p) @ [(snap_of dat len i, a)]"
    by (simp add: law(2) b(2))
qed

lemma advance_head_ok:
  assumes "pump_ok p" "0 < transition_count p"
  shows "pump_ok (advance_head p)" "ordered (advance_head p) = tl (ordered p)"
  using assms rp.pop_law [of p] by (simp_all add: pump_ok_def)

lemma ready_fields [simp]:
  "ordered (p\<lparr>have_latest := b\<rparr>) = ordered p" "pump_ok (p\<lparr>have_latest := b\<rparr>) = pump_ok p"
  "ordered (p\<lparr>dropped := d\<rparr>) = ordered p" "pump_ok (p\<lparr>dropped := d\<rparr>) = pump_ok p"
  "ordered (p\<lparr>ready := b\<rparr>) = ordered p" "pump_ok (p\<lparr>ready := b\<rparr>) = pump_ok p"
  "ordered (p\<lparr>in_flight := f\<rparr>) = ordered p"
  "ordered (p\<lparr>latest := f\<rparr>) = ordered p"
  "ordered (p\<lparr>priority := ps\<rparr>) = ordered p" "ordered (p\<lparr>priority_count := n\<rparr>) = ordered p"
  by (simp_all add: ordered_def pump_ok_def ring_shape_def)

section \<open>The abstract pump\<close>

record abstract_pump =
  a_ready :: bool
  a_priority :: "snapshot list"
  a_ordered :: "(snapshot \<times> bool) list"
  a_latest :: "snapshot option"
  a_dropped :: u32

definition abs_pump :: "report_pump \<Rightarrow> abstract_pump"
  where "abs_pump p = \<lparr>a_ready = ready p,
    a_priority = map snap (take (priority_count p) (priority p)),
    a_ordered = map (\<lambda>(b, a). (snap b, a)) (ordered p),
    a_latest = (if have_latest p then Some (snap (latest p)) else None),
    a_dropped = dropped p\<rparr>"

definition a_full :: "abstract_pump \<Rightarrow> bool"
  where "a_full a \<longleftrightarrow> length (a_ordered a) = k_transition_capacity"

definition a_enqueue :: "snapshot \<Rightarrow> report_kind \<Rightarrow> abstract_pump \<Rightarrow> bool \<times> abstract_pump"
  where "a_enqueue s kind a =
    (case kind of
       Priority \<Rightarrow> if length (a_priority a) < k_priority_capacity
         then (True, a\<lparr>a_priority := a_priority a @ [s]\<rparr>) else (False, a)
     | Continuous \<Rightarrow> (True, a\<lparr>a_latest := Some s\<rparr>)
     | Transition \<Rightarrow> (\<not> a_full a,
         a\<lparr>a_latest := None,
           a_ordered := newest k_transition_capacity (a_ordered a @ [(s, False)]),
           a_dropped := a_dropped a +
             (if a_full a \<and> \<not> snd (hd (a_ordered a)) then 1 else 0)\<rparr>)
     | Aside \<Rightarrow> if a_full a then (False, a)
         else (True, a\<lparr>a_ordered := a_ordered a @ [(s, True)]\<rparr>))"

definition a_next :: "abstract_pump \<Rightarrow> (report_kind \<times> snapshot) option"
  where "a_next a =
    (if \<not> a_ready a then None
     else case a_priority a of s # _ \<Rightarrow> Some (Priority, s)
     | [] \<Rightarrow> (case a_ordered a of
           (s, aside) # _ \<Rightarrow> Some (if aside then Aside else Transition, s)
         | [] \<Rightarrow> map_option (Pair Continuous) (a_latest a)))"

definition a_take :: "abstract_pump \<Rightarrow> snapshot option \<times> abstract_pump"
  where "a_take a = (map_option snd (a_next a),
    case a_next a of
      None \<Rightarrow> a
    | Some (Priority, _) \<Rightarrow> a\<lparr>a_ready := False, a_priority := tl (a_priority a)\<rparr>
    | Some (Continuous, _) \<Rightarrow> a\<lparr>a_ready := False, a_latest := None\<rparr>
    | Some _ \<Rightarrow> a\<lparr>a_ready := False, a_ordered := tl (a_ordered a)\<rparr>)"

subsection \<open>Refinement, operation by operation\<close>

lemma take_update_snoc:
  "n < length xs \<Longrightarrow> take (Suc n) (xs[n := x]) = take n xs @ [x]"
  by (simp add: take_Suc_conv_app_nth)

lemma enqueue_none [simp]: "enqueue None len i k p = (True, p)"
  and enqueue_empty [simp]: "enqueue data 0 i k p = (True, p)"
  by (simp_all add: enqueue_def split: option.split)

lemma enqueue_priority:
  fixes i :: byte
  assumes "pump_ok p" "source_ok (Some dat) len" "len \<noteq> 0"
  defines "r \<equiv> enqueue (Some dat) len i Priority p"
  shows "pump_ok (snd r) \<and> (fst r, abs_pump (snd r)) = a_enqueue (snap_of dat len i) Priority (abs_pump p)"
proof (cases "priority_count p \<ge> k_priority_capacity")
  case True
  with assms show ?thesis
    by (auto simp: enqueue_def a_enqueue_def abs_pump_def pump_ok_def)
next
  case False
  let ?n = "priority_count p"
  let ?b = "pump_store (priority p ! ?n) dat len i"
  have n: "?n < length (priority p)" using assms(1) False by (simp add: pump_ok_def)
  have "buffer_ok (priority p ! ?n)"
    using assms(1) n by (simp add: pump_ok_def list_all_length)
  then have b: "buffer_ok ?b" "snap ?b = snap_of dat len i"
    using store_ok assms(2) by auto
  have r: "r = (True, p\<lparr>priority := (priority p)[?n := ?b], priority_count := ?n + 1\<rparr>)"
    using False assms(3) by (simp add: r_def enqueue_def)
  have "ordered (snd r) = ordered p" by (simp add: r)
  then have "abs_pump (snd r) =
      (abs_pump p)\<lparr>a_priority := a_priority (abs_pump p) @ [snap_of dat len i]\<rparr>"
    using n b by (simp add: r abs_pump_def take_update_snoc)
  moreover have "pump_ok (snd r)"
    using assms(1) b False by (simp add: r pump_ok_def ring_shape_def list_all_update)
  moreover have "length (a_priority (abs_pump p)) < k_priority_capacity"
    using False n by (simp add: abs_pump_def)
  ultimately show ?thesis by (simp add: a_enqueue_def r)
qed

lemma enqueue_continuous:
  fixes i :: byte
  assumes "pump_ok p" "source_ok (Some dat) len" "len \<noteq> 0"
  defines "r \<equiv> enqueue (Some dat) len i Continuous p"
  shows "pump_ok (snd r) \<and>
    (fst r, abs_pump (snd r)) = a_enqueue (snap_of dat len i) Continuous (abs_pump p)"
proof -
  have b: "buffer_ok (pump_store (latest p) dat len i)"
    "snap (pump_store (latest p) dat len i) = snap_of dat len i"
    using store_ok assms(1,2) by (auto simp: pump_ok_def)
  have r: "r = (True, p\<lparr>latest := pump_store (latest p) dat len i, have_latest := True\<rparr>)"
    using assms(3) by (simp add: r_def enqueue_def)
  from assms(1) b show ?thesis
    by (simp add: r abs_pump_def a_enqueue_def pump_ok_def ring_shape_def ordered_def)
qed

lemma a_full_abs: "a_full (abs_pump p) \<longleftrightarrow> transition_count p = k_transition_capacity"
  by (simp add: a_full_def abs_pump_def)

lemma enqueue_aside:
  fixes i :: byte
  assumes "pump_ok p" "source_ok (Some dat) len" "len \<noteq> 0"
  defines "r \<equiv> enqueue (Some dat) len i Aside p"
  shows "pump_ok (snd r) \<and> (fst r, abs_pump (snd r)) = a_enqueue (snap_of dat len i) Aside (abs_pump p)"
proof (cases "transition_count p = k_transition_capacity")
  case True
  with assms show ?thesis by (simp add: enqueue_def a_enqueue_def a_full_abs)
next
  case False
  then have room: "transition_count p < k_transition_capacity"
    using assms(1) by (simp add: pump_ok_def ring_shape_def)
  have r: "r = (True, append_ordered dat len i True p)"
    using False assms(3) by (simp add: r_def enqueue_def)
  from append_ordered_ok [OF assms(1) room assms(2), of i True] False show ?thesis
    by (simp add: r a_enqueue_def a_full_abs) (simp add: abs_pump_def)
qed

lemma enqueue_transition:
  fixes i :: byte
  assumes "pump_ok p" "source_ok (Some dat) len" "len \<noteq> 0"
  defines "r \<equiv> enqueue (Some dat) len i Transition p"
  shows "pump_ok (snd r) \<and>
    (fst r, abs_pump (snd r)) = a_enqueue (snap_of dat len i) Transition (abs_pump p)"
proof (cases "transition_count p = k_transition_capacity")
  case False
  let ?p = "p\<lparr>have_latest := False\<rparr>"
  have ok: "pump_ok ?p" using assms(1) by simp
  have room: "transition_count ?p < k_transition_capacity"
    using assms(1) False by (simp add: pump_ok_def ring_shape_def)
  have r: "r = (True, append_ordered dat len i False ?p)"
    using False assms(3) by (simp add: r_def enqueue_def)
  from append_ordered_ok [OF ok room assms(2), of i False] room show ?thesis
    by (simp add: r a_enqueue_def a_full_abs) (simp add: abs_pump_def)
next
  case True
  let ?p = "p\<lparr>have_latest := False\<rparr>"
  let ?v = "transition_aside p ! transition_head p"
  let ?q = "advance_head ?p"
  let ?q' = "if ?v then ?q else ?q\<lparr>dropped := dropped ?q + 1\<rparr>"
  have pos: "0 < transition_count ?p" using True by (simp add: k_transition_capacity_def)
  have q: "pump_ok ?q" "ordered ?q = tl (ordered p)"
    using advance_head_ok [OF _ pos] assms(1) by simp_all
  then have q': "pump_ok ?q'" "ordered ?q' = tl (ordered p)" by (simp_all)
  have room: "transition_count ?q' < k_transition_capacity"
    using True by (simp add: advance_head_def k_transition_capacity_def)
  have r: "r = (False, append_ordered dat len i False ?q')"
    using True assms(3) by (simp add: r_def enqueue_def Let_def advance_head_def)
  have hd: "snd (hd (map (\<lambda>(b, a). (snap b, a)) (ordered p))) = ?v"
    using hd_ordered [of p] pos assms(1) by (cases "ordered p") (auto simp: pump_ok_def)
  have ev: "newest k_transition_capacity (xs @ [x]) = tl xs @ [x]"
    if "length xs = k_transition_capacity" for xs and x :: "snapshot \<times> bool"
    using that by (cases xs) (auto simp: newest_def k_transition_capacity_def)
  from append_ordered_ok [OF q'(1) room assms(2), of i False] True hd q'(2) show ?thesis
    by (cases "?v") (simp_all add: r a_enqueue_def a_full_abs, simp_all add: abs_pump_def ev map_tl)
qed

lemma enqueue_abs:
  assumes "pump_ok p" "source_ok (Some dat) len" "len \<noteq> 0"
  shows "pump_ok (snd (enqueue (Some dat) len i kind p)) \<and>
    (fst (enqueue (Some dat) len i kind p), abs_pump (snd (enqueue (Some dat) len i kind p)))
      = a_enqueue (snap_of dat len i) kind (abs_pump p)"
  using assms enqueue_priority enqueue_continuous enqueue_aside enqueue_transition
  by (cases kind) blast+

lemma take_abs:
  assumes "pump_ok p"
  shows "pump_ok (snd (pump_take p)) \<and>
    (map_option snap (fst (pump_take p)), abs_pump (snd (pump_take p))) = a_take (abs_pump p)"
proof -
  consider "\<not> ready p" | "ready p" "priority_count p > 0"
    | "ready p" "priority_count p = 0" "transition_count p > 0"
    | "ready p" "priority_count p = 0" "transition_count p = 0" by auto
  then show ?thesis
  proof cases
    case 1 then show ?thesis
      using assms by (simp add: pump_take_def a_take_def a_next_def abs_pump_def)
  next
    case 2
    let ?n = "priority_count p"
    have n: "?n \<le> length (priority p)" using assms by (simp add: pump_ok_def)
    obtain b bs where bs: "take ?n (priority p) = b # bs"
      using 2 n by (cases "take ?n (priority p)") auto
    then have b: "priority p ! 0 = b"
      by (metis 2(2) nth_Cons_0 nth_take)
    have "buffer_ok (priority p ! 0)"
      using assms 2 by (simp add: pump_ok_def list_all_length k_priority_capacity_def)
    then have "pump_ok (snd (pump_take p))"
      using assms 2 by (auto simp: pump_take_def Let_def pump_ok_def ring_shape_def shift_down_all)
    moreover have "take (?n - Suc 0) (shift_down ?n (priority p)) = bs"
      using take_shift_down [OF 2(2) n] bs by simp
    ultimately show ?thesis
      using 2 bs b by (simp add: pump_take_def Let_def a_take_def a_next_def abs_pump_def)
  next
    case 3
    let ?f = "transitions p ! transition_head p"
    have f: "buffer_ok ?f"
      using assms by (simp add: pump_ok_def ring_shape_def list_all_length)
    have p': "pump_ok (p\<lparr>in_flight := ?f\<rparr>)"
      using assms f by (simp add: pump_ok_def ring_shape_def)
    from hd_ordered [of p] 3 assms
    obtain rest where o: "ordered p = (?f, transition_aside p ! transition_head p) # rest"
      by (cases "ordered p") (auto simp: pump_ok_def)
    from advance_head_ok [OF p'] 3 o
    show ?thesis
      by (simp add: pump_take_def Let_def a_take_def a_next_def abs_pump_def)
  next
    case 4
    then have o: "ordered p = []" by simp
    with 4 assms show ?thesis
      by (cases "have_latest p")
         (simp_all add: pump_take_def Let_def a_take_def a_next_def abs_pump_def o
           pump_ok_def ring_shape_def del: ordered_eq_Nil)
  qed
qed

section \<open>Runs\<close>

text \<open>The calls the driver makes between two resets, in the order the slot lock
  serialises them. A run collects what \<^theory_text>\<open>take\<close> handed out, tagged with the
  group it came from.\<close>

datatype pump_event =
    Enqueue "byte list option" u32 byte report_kind
  | Set_Ready
  | Take

definition source_kind :: "report_pump \<Rightarrow> report_kind"
  where "source_kind p =
    (if priority_count p > 0 then Priority
     else if transition_count p > 0 then
       (if transition_aside p ! transition_head p then Aside else Transition)
     else Continuous)"

fun pump_step :: "pump_event \<Rightarrow> report_pump \<Rightarrow> (report_kind \<times> snapshot) list \<times> report_pump"
  where
    "pump_step (Enqueue data len i kind) p = ([], snd (enqueue data len i kind p))"
  | "pump_step Set_Ready p = ([], set_ready p)"
  | "pump_step Take p =
      (case pump_take p of
         (None, p') \<Rightarrow> ([], p')
       | (Some b, p') \<Rightarrow> ([(source_kind p, snap b)], p'))"

fun pump_run :: "pump_event list \<Rightarrow> report_pump \<Rightarrow> (report_kind \<times> snapshot) list \<times> report_pump"
  where
    "pump_run [] p = ([], p)"
  | "pump_run (e # es) p =
      (let (d, p) = pump_step e p; (ds, p) = pump_run es p in (d @ ds, p))"

fun event_ok :: "pump_event \<Rightarrow> bool"
  where
    "event_ok (Enqueue data len i kind) = source_ok data len"
  | "event_ok _ = True"

text \<open>What the callers submitted, and what the code records of it.\<close>

fun offered :: "pump_event \<Rightarrow> (report_kind \<times> snapshot) list"
  where
    "offered (Enqueue (Some dat) len i kind) =
      (if len = 0 then [] else [(kind, snap_of dat len i)])"
  | "offered _ = []"

definition of_kind :: "report_kind \<Rightarrow> (report_kind \<times> snapshot) list \<Rightarrow> snapshot list"
  where "of_kind k rs = map snd (filter (\<lambda>r. fst r = k) rs)"

definition states :: "(report_kind \<times> snapshot) list \<Rightarrow> snapshot list"
  where "states rs = map snd (filter (\<lambda>r. fst r = Transition \<or> fst r = Continuous) rs)"

lemma of_kind_simps [simp]:
  "of_kind k [] = []" "of_kind k (rs @ qs) = of_kind k rs @ of_kind k qs"
  "of_kind k ((k', s) # rs) = (if k' = k then [s] else []) @ of_kind k rs"
  by (simp_all add: of_kind_def)

lemma states_simps [simp]:
  "states [] = []" "states (rs @ qs) = states rs @ states qs"
  "states ((k, s) # rs) = (if k = Transition \<or> k = Continuous then [s] else []) @ states rs"
  by (simp_all add: states_def)

fun a_step :: "pump_event \<Rightarrow> abstract_pump \<Rightarrow> (report_kind \<times> snapshot) list \<times> abstract_pump"
  where
    "a_step (Enqueue data len i kind) a =
      ([], foldl (\<lambda>a (k, s). snd (a_enqueue s k a)) a (offered (Enqueue data len i kind)))"
  | "a_step Set_Ready a = ([], a\<lparr>a_ready := True\<rparr>)"
  | "a_step Take a =
      ((case a_next a of None \<Rightarrow> [] | Some r \<Rightarrow> [r]), snd (a_take a))"

fun a_run :: "pump_event list \<Rightarrow> abstract_pump \<Rightarrow> (report_kind \<times> snapshot) list \<times> abstract_pump"
  where
    "a_run [] a = ([], a)"
  | "a_run (e # es) a = (let (d, a) = a_step e a; (ds, a) = a_run es a in (d @ ds, a))"

lemma source_kind_abs:
  assumes "pump_ok p" "fst (pump_take p) = Some b"
  shows "a_next (abs_pump p) = Some (source_kind p, snap b)"
proof -
  have snd: "map_option snd (a_next (abs_pump p)) = Some (snap b)"
    using take_abs [OF assms(1)] assms(2) by (simp add: a_take_def)
  have "fst (the (a_next (abs_pump p))) = source_kind p"
  proof (cases "priority_count p > 0")
    case True
    then have "map snap (take (priority_count p) (priority p)) \<noteq> []"
      using assms(1) by (auto simp: pump_ok_def k_priority_capacity_def)
    with snd True show ?thesis
      by (auto simp: a_next_def abs_pump_def source_kind_def split: list.splits if_splits)
  next
    case False
    show ?thesis
    proof (cases "transition_count p > 0")
      case True
      with hd_ordered [of p] assms(1)
      obtain b' rest where "ordered p = (b', transition_aside p ! transition_head p) # rest"
        by (cases "ordered p") (auto simp: pump_ok_def)
      with snd False True show ?thesis
        by (simp add: a_next_def abs_pump_def source_kind_def split: if_splits)
    next
      case none: False
      then have "ordered p = []" by simp
      with snd False none show ?thesis
        by (auto simp add: a_next_def abs_pump_def source_kind_def simp del: ordered_eq_Nil
            split: if_splits)
    qed
  qed
  with snd show ?thesis by (cases "a_next (abs_pump p)") auto
qed

lemma step_abs:
  assumes "pump_ok p" "event_ok e"
  shows "pump_ok (snd (pump_step e p)) \<and>
    (fst (pump_step e p), abs_pump (snd (pump_step e p))) = a_step e (abs_pump p)"
proof (cases e)
  case (Enqueue data len i kind)
  show ?thesis
  proof (cases data)
    case (Some dat)
    then show ?thesis
      using enqueue_abs [OF assms(1), of dat len i kind] assms Enqueue
      by (cases "len = 0") (auto simp: prod_eq_iff)
  qed (use assms Enqueue in simp)
next
  case Set_Ready
  then show ?thesis using assms(1) by (simp add: set_ready_def abs_pump_def)
next
  case Take
  obtain r p' where t: "pump_take p = (r, p')" by (cases "pump_take p")
  then have p': "pump_ok p'" "abs_pump p' = snd (a_take (abs_pump p))"
    "map_option snap r = map_option snd (a_next (abs_pump p))"
    using take_abs [OF assms(1)] by (simp_all add: a_take_def)
  show ?thesis
  proof (cases r)
    case None
    with p' show ?thesis by (simp add: Take t)
  next
    case (Some b)
    with p' source_kind_abs [OF assms(1), of b] show ?thesis by (simp add: Take t)
  qed
qed

lemma run_abs:
  assumes "pump_ok p" "list_all event_ok es"
  shows "pump_ok (snd (pump_run es p)) \<and>
    (fst (pump_run es p), abs_pump (snd (pump_run es p))) = a_run es (abs_pump p)"
  using assms
proof (induction es arbitrary: p)
  case (Cons e es)
  from Cons.prems step_abs [of p e] Cons.IH [of "snd (pump_step e p)"]
  show ?case by (auto simp: case_prod_beta prod_eq_iff Let_def)
qed simp

section \<open>Delivery guarantees\<close>

text \<open>State reports still owed to the host: queued transitions, then the
  snapshot, which is always younger than every queued transition.\<close>

definition waiting :: "abstract_pump \<Rightarrow> snapshot list"
  where "waiting a = map fst (filter (\<lambda>x. \<not> snd x) (a_ordered a)) @
    (case a_latest a of None \<Rightarrow> [] | Some s \<Rightarrow> [s])"

lemma waiting_transition:
  "\<exists>ys. subseq ys (waiting a) \<and>
    waiting (snd (a_enqueue s Transition a)) = ys @ [s]"
proof -
  let ?q = "newest k_transition_capacity (a_ordered a @ [(s, False)])"
  let ?f = "map fst \<circ> filter (\<lambda>x. \<not> snd x)"
  obtain zs where zs: "a_ordered a @ [(s, False)] = zs @ ?q" using newest_suffix by blast
  have ne: "?q \<noteq> []" by (simp add: newest_def k_transition_capacity_def)
  with zs have "last ?q = (s, False)" by (metis last_appendR last_snoc)
  with ne obtain q where q: "?q = q @ [(s, False)]" by (metis append_butlast_last_id)
  with zs have "a_ordered a = zs @ q" by simp
  then have "subseq (?f q) (waiting a)"
    by (simp add: waiting_def subseq_drop_many subseq_rev_drop_many)
  with q show ?thesis by (auto simp: a_enqueue_def waiting_def)
qed

lemma step_tracks:
  assumes "tracks (pre @ waiting a) off"
  shows "tracks (pre @ states (fst (a_step e a)) @ waiting (snd (a_step e a)))
    (off @ states (offered e))"
proof (cases e)
  case (Enqueue data len i kind)
  show ?thesis
  proof (cases "data = None \<or> len = 0")
    case True
    with assms Enqueue show ?thesis by (cases data) auto
  next
    case False
    then obtain dat where d: "data = Some dat" "len \<noteq> 0" by auto
    let ?s = "snap_of dat len i"
    show ?thesis
    proof (cases kind)
      case Continuous
      have "subseq (pre @ map fst (filter (\<lambda>x. \<not> snd x) (a_ordered a))) (pre @ waiting a)"
        by (rule subseq_left) (simp add: waiting_def subseq_rev_drop_many)
      from tracks_snoc [OF assms this] show ?thesis
        using d Enqueue Continuous by (simp add: a_enqueue_def waiting_def)
    next
      case Transition
      obtain ys where ys: "subseq ys (waiting a)"
        "waiting (snd (a_enqueue ?s Transition a)) = ys @ [?s]"
        using waiting_transition by blast
      from tracks_snoc [OF assms subseq_left [OF ys(1)]] show ?thesis
        using d Enqueue Transition ys(2) by simp
    next
      case Priority
      with assms d Enqueue show ?thesis by (simp add: a_enqueue_def waiting_def)
    next
      case Aside
      with assms d Enqueue show ?thesis by (simp add: a_enqueue_def waiting_def)
    qed
  qed
next
  case Set_Ready
  with assms show ?thesis by (simp add: waiting_def)
next
  case Take
  with assms show ?thesis
    by (auto simp: a_take_def a_next_def waiting_def split: list.splits option.splits if_splits)
qed

lemma run_tracks:
  "tracks (pre @ waiting a) off \<Longrightarrow>
    tracks (pre @ states (fst (a_run es a)) @ waiting (snd (a_run es a)))
      (off @ states (concat (map offered es)))"
proof (induction es arbitrary: a pre off)
  case (Cons e es)
  from step_tracks [OF Cons.prems, of e]
    Cons.IH [of "pre @ states (fst (a_step e a))" "snd (a_step e a)" "off @ states (offered e)"]
  show ?case by (simp add: case_prod_beta Let_def)
qed simp

definition owed :: "abstract_pump \<Rightarrow> u32"
  where "owed a = of_nat (length (filter (\<lambda>x. \<not> snd x) (a_ordered a))) + a_dropped a"

lemma step_owed:
  assumes "length (a_ordered a) \<le> k_transition_capacity"
  shows "of_nat (length (of_kind Transition (fst (a_step e a)))) + owed (snd (a_step e a)) =
    owed a + of_nat (length (of_kind Transition (offered e)))"
proof (cases e)
  case (Enqueue data len i kind)
  show ?thesis
  proof (cases "data = None \<or> len = 0")
    case True
    with Enqueue show ?thesis by (cases data) auto
  next
    case False
    then obtain dat where d: "data = Some dat" "len \<noteq> 0" by auto
    show ?thesis
    proof (cases "kind = Transition \<and> a_full a")
      case True
      then obtain x xs where o: "a_ordered a = x # xs"
        by (cases "a_ordered a") (auto simp: a_full_def k_transition_capacity_def)
      then have "newest k_transition_capacity ((x # xs) @ [(snap_of dat len i, False)]) =
          xs @ [(snap_of dat len i, False)]"
        using True by (simp add: a_full_def newest_def)
      with True d Enqueue o show ?thesis by (simp add: a_enqueue_def owed_def)
    next
      case False
      then show ?thesis using d Enqueue assms
        by (cases kind) (auto simp: a_enqueue_def owed_def a_full_def)
    qed
  qed
next
  case Take
  then show ?thesis
    by (auto simp: a_take_def a_next_def owed_def split: list.splits option.splits)
qed (simp add: owed_def)

lemma abs_ordered_bound: "pump_ok p \<Longrightarrow> length (a_ordered (abs_pump p)) \<le> k_transition_capacity"
  by (simp add: abs_pump_def pump_ok_def ring_shape_def)

lemma run_owed:
  "pump_ok p \<Longrightarrow> list_all event_ok es \<Longrightarrow>
    of_nat (length (of_kind Transition (fst (pump_run es p)))) + owed (abs_pump (snd (pump_run es p))) =
    owed (abs_pump p) + of_nat (length (of_kind Transition (concat (map offered es))))"
proof (induction es arbitrary: p)
  case (Cons e es)
  let ?q = "snd (pump_step e p)"
  have st: "pump_ok ?q" "fst (pump_step e p) = fst (a_step e (abs_pump p))"
    "abs_pump ?q = snd (a_step e (abs_pump p))"
    using step_abs [of p e] Cons.prems by (auto simp: prod_eq_iff)
  from Cons.IH [OF st(1)] Cons.prems(2)
    step_owed [OF abs_ordered_bound [OF Cons.prems(1)], of e]
  show ?case by (simp add: case_prod_beta Let_def st(2,3) algebra_simps)
qed simp

lemma reset_ok: "pump_ok p \<Longrightarrow> pump_ok (pump_reset p)"
  by (simp add: pump_ok_def pump_reset_def ring_shape_def k_transition_capacity_def)

lemma abs_reset: "abs_pump (pump_reset p) =
    \<lparr>a_ready = False, a_priority = [], a_ordered = [], a_latest = None, a_dropped = 0\<rparr>"
  by (simp add: abs_pump_def pump_reset_def ordered_def)

lemma not_ready_stays:
  "\<not> ready p \<Longrightarrow> e \<noteq> Set_Ready \<Longrightarrow>
    fst (pump_step e p) = [] \<and> \<not> ready (snd (pump_step e p)) \<and>
    in_flight (snd (pump_step e p)) = in_flight p"
  by (cases e) (auto simp: pump_take_def enqueue_def Let_def split: option.split report_kind.split)

section \<open>Properties\<close>

text \<open>Property C26. The pump of the code is the abstract pump: over every run of
  calls from a well-formed pump, what \<^theory_text>\<open>take\<close> delivers and the state
  left behind are those of the specification with a priority list, an ordered list of
  at most sixteen reports and one snapshot, whatever the ring offsets, the stale array
  cells and the order of the calls.\<close>

theorem pump_refines_abstract_pump:
  assumes "pump_ok p" "list_all event_ok es"
  shows "(fst (pump_run es p), abs_pump (snd (pump_run es p))) = a_run es (abs_pump p)"
  using run_abs [OF assms] by simp

lemma pump_refines_abstract_pump_witness:
  "(fst (pump_run [Enqueue (Some [1, 2]) 2 5 Transition, Set_Ready, Take] new_pump),
    abs_pump (snd (pump_run [Enqueue (Some [1, 2]) 2 5 Transition, Set_Ready, Take] new_pump))) =
   a_run [Enqueue (Some [1, 2]) 2 5 Transition, Set_Ready, Take] (abs_pump new_pump)"
  by (rule pump_refines_abstract_pump [OF new_pump_ok])
     (simp add: source_ok_def k_max_report_bytes_def)

text \<open>Property C25. Delivery of controller state: in every run after a reset the
  state reports handed to VHF, followed by those still waiting, are the reports that were
  enqueued with some skipped, none repeated, none reordered, and the newest one always
  kept -- so a snapshot never overtakes or follows a transition it precedes, and a
  drained pump has told the host the latest state.\<close>

theorem pump_delivers_state_in_order:
  assumes "pump_ok p" "list_all event_ok es"
  defines "r \<equiv> pump_run es (pump_reset p)"
  shows "tracks (states (fst r) @ waiting (abs_pump (snd r))) (states (concat (map offered es)))"
proof -
  have "tracks ([] @ waiting (abs_pump (pump_reset p))) []"
    by (simp add: abs_reset waiting_def tracks_def)
  from run_tracks [OF this, of es] run_abs [OF reset_ok [OF assms(1)] assms(2)]
  show ?thesis by (simp add: r_def flip: fst_conv snd_conv) (metis fst_conv snd_conv)
qed

lemma pump_delivers_state_in_order_witness:
  "tracks (states (fst (pump_run [Enqueue (Some [1]) 1 5 Continuous, Set_Ready,
       Enqueue (Some [2]) 1 5 Transition, Take] (pump_reset new_pump))) @
     waiting (abs_pump (snd (pump_run [Enqueue (Some [1]) 1 5 Continuous, Set_Ready,
       Enqueue (Some [2]) 1 5 Transition, Take] (pump_reset new_pump)))))
   (states (concat (map offered [Enqueue (Some [1]) 1 5 Continuous, Set_Ready,
       Enqueue (Some [2]) 1 5 Transition, Take])))"
  by (rule pump_delivers_state_in_order [OF new_pump_ok])
     (simp add: source_ok_def k_max_report_bytes_def)

text \<open>No transition vanishes unaccounted: after any run from a reset,
  the transitions enqueued are exactly those delivered, those still queued and those the
  dropped counter has counted (a 32-bit counter, so modulo its wrap); asides never enter
  the balance, whether refused or evicted.\<close>

theorem pump_transitions_accounted:
  assumes "pump_ok p" "list_all event_ok es"
  defines "r \<equiv> pump_run es (pump_reset p)"
  shows "of_nat (length (of_kind Transition (concat (map offered es)))) =
    of_nat (length (of_kind Transition (fst r)))
    + of_nat (length (filter (\<lambda>x. \<not> snd x) (ordered (snd r)))) + dropped (snd r)"
proof -
  have "length (filter (\<lambda>x. \<not> snd x) (a_ordered (abs_pump (snd r)))) =
      length (filter (\<lambda>x. \<not> snd x) (ordered (snd r)))"
    by (simp add: abs_pump_def filter_map comp_def case_prod_beta)
  with run_owed [OF reset_ok [OF assms(1)] assms(2)] show ?thesis
    by (simp add: r_def owed_def abs_reset algebra_simps) (simp add: abs_pump_def)
qed

lemma pump_transitions_accounted_witness:
  "of_nat (length (of_kind Transition (concat (map offered
      (replicate 17 (Enqueue (Some [2]) 1 5 Transition)))))) =
    of_nat (length (of_kind Transition (fst
      (pump_run (replicate 17 (Enqueue (Some [2]) 1 5 Transition)) (pump_reset new_pump)))))
    + of_nat (length (filter (\<lambda>x. \<not> snd x) (ordered (snd
      (pump_run (replicate 17 (Enqueue (Some [2]) 1 5 Transition)) (pump_reset new_pump))))))
    + dropped (snd (pump_run (replicate 17 (Enqueue (Some [2]) 1 5 Transition)) (pump_reset new_pump)))"
  by (rule pump_transitions_accounted [OF new_pump_ok])
     (simp add: source_ok_def k_max_report_bytes_def list_all_iff)

text \<open>Flow control and buffer stability: once \<^theory_text>\<open>take\<close>
  has handed a report out, no sequence of calls without a new readiness callback hands out
  another, and the buffer VHF holds still contains that report.\<close>

theorem pump_holds_buffer_until_ready:
  assumes "pump_take p = (Some b, q)" "Set_Ready \<notin> set es"
  shows "fst (pump_run es q) = [] \<and> in_flight (snd (pump_run es q)) = b"
proof -
  have q: "\<not> ready q" "in_flight q = b"
    using assms(1) by (auto simp: pump_take_def Let_def split: if_splits)
  have "fst (pump_run es q) = [] \<and> in_flight (snd (pump_run es q)) = in_flight q"
    using q(1) assms(2)
  proof (induction es arbitrary: q)
    case (Cons e es)
    with not_ready_stays [of q e] show ?case by (auto simp: case_prod_beta Let_def)
  qed simp
  with q(2) show ?thesis by simp
qed

lemma pump_holds_buffer_until_ready_witness:
  "\<exists>b q. pump_take (snd (pump_run [Enqueue (Some [7]) 1 5 Continuous, Set_Ready] new_pump)) = (Some b, q) \<and>
     fst (pump_run [Enqueue (Some [8]) 1 5 Continuous, Take] q) = [] \<and>
     in_flight (snd (pump_run [Enqueue (Some [8]) 1 5 Continuous, Take] q)) = b"
proof -
  let ?p = "snd (pump_run [Enqueue (Some [7]) 1 5 Continuous, Set_Ready] new_pump)"
  obtain b q where t: "pump_take ?p = (Some b, q)"
    by (cases "pump_take ?p")
       (auto simp: pump_take_def new_pump_def enqueue_def set_ready_def Let_def)
  from pump_holds_buffer_until_ready [OF t, of "[Enqueue (Some [8]) 1 5 Continuous, Take]"] t
  show ?thesis by auto
qed

end
