(* ===== verification/Protocol.thy ===== *)
theory Protocol
  imports Prelude
begin

text \<open>
  The control-device ABI, \<^theory_text>\<open>include/libvirtualgamepad/protocol.h\<close>: the
  profile and feedback enumerations, the button masks, the packed requests and
  responses as records, the header check every request passes, and the byte layout of
  the feedback payloads the driver copies into an event.
\<close>

section \<open>Enumerations and masks\<close>

definition k_protocol_version :: u16
  where "k_protocol_version = 2"

definition k_max_controllers :: nat
  where "k_max_controllers = 16"

datatype profile = Generic_Hid | Xbox_360 | Xbox_One | Xbox_Series | Dualshock_4
  | Dualsense | Switch_Pro | Generic_Pid | Steam_Controller

fun profile_code :: "profile \<Rightarrow> u16"
  where
    "profile_code Generic_Hid = 1"
  | "profile_code Xbox_360 = 2"
  | "profile_code Xbox_One = 3"
  | "profile_code Xbox_Series = 4"
  | "profile_code Dualshock_4 = 5"
  | "profile_code Dualsense = 6"
  | "profile_code Switch_Pro = 7"
  | "profile_code Generic_Pid = 8"
  | "profile_code Steam_Controller = 9"

definition all_profiles :: "profile list"
  where "all_profiles = [Generic_Hid, Xbox_360, Xbox_One, Xbox_Series, Dualshock_4,
    Dualsense, Switch_Pro, Generic_Pid, Steam_Controller]"

text \<open>The enumerator a wire value names, if any.\<close>

definition profile_of :: "u16 \<Rightarrow> profile option"
  where "profile_of w = List.find (\<lambda>p. profile_code p = w) all_profiles"

lemma profile_of_code [simp]: "profile_of (profile_code p) = Some p"
  by (cases p) (simp_all add: profile_of_def all_profiles_def)

lemma profile_code_of: "profile_of w = Some p \<Longrightarrow> profile_code p = w"
  by (auto simp: profile_of_def find_Some_iff)

definition profile_bit :: "u16 \<Rightarrow> u32"
  where "profile_bit index = (if index = 0 \<or> index > 32 then 0 else push_bit (unat (index - 1)) 1)"

datatype feedback_type = FB_None | FB_Generic_Rumble_Rgb | FB_Raw_Output_Report
  | FB_Generic_Rumble | FB_Xbox_Rumble | FB_Playstation_Output | FB_Steam_Haptic
  | FB_Steam_Settings

fun feedback_code :: "feedback_type \<Rightarrow> u16"
  where
    "feedback_code FB_None = 0"
  | "feedback_code FB_Generic_Rumble_Rgb = 1"
  | "feedback_code FB_Raw_Output_Report = 2"
  | "feedback_code FB_Generic_Rumble = 3"
  | "feedback_code FB_Xbox_Rumble = 4"
  | "feedback_code FB_Playstation_Output = 5"
  | "feedback_code FB_Steam_Haptic = 6"
  | "feedback_code FB_Steam_Settings = 7"

definition all_feedback_types :: "feedback_type list"
  where "all_feedback_types = [FB_None, FB_Generic_Rumble_Rgb, FB_Raw_Output_Report,
    FB_Generic_Rumble, FB_Xbox_Rumble, FB_Playstation_Output, FB_Steam_Haptic, FB_Steam_Settings]"

definition feedback_type_of :: "u16 \<Rightarrow> feedback_type option"
  where "feedback_type_of w = List.find (\<lambda>t. feedback_code t = w) all_feedback_types"

lemma feedback_type_of_code [simp]: "feedback_type_of (feedback_code t) = Some t"
  by (cases t) (simp_all add: feedback_type_of_def all_feedback_types_def)

text \<open>The button masks of \<^theory_text>\<open>enum button_mask\<close>.\<close>

definition button_dpad_up :: u32
  where "button_dpad_up = 0x1"

definition button_dpad_down :: u32
  where "button_dpad_down = 0x2"

definition button_dpad_left :: u32
  where "button_dpad_left = 0x4"

definition button_dpad_right :: u32
  where "button_dpad_right = 0x8"

definition button_start :: u32
  where "button_start = 0x10"

definition button_back :: u32
  where "button_back = 0x20"

definition button_left_stick :: u32
  where "button_left_stick = 0x40"

definition button_right_stick :: u32
  where "button_right_stick = 0x80"

definition button_left_shoulder :: u32
  where "button_left_shoulder = 0x100"

definition button_right_shoulder :: u32
  where "button_right_shoulder = 0x200"

definition button_home :: u32
  where "button_home = 0x400"

definition button_south :: u32
  where "button_south = 0x1000"

definition button_east :: u32
  where "button_east = 0x2000"

definition button_west :: u32
  where "button_west = 0x4000"

definition button_north :: u32
  where "button_north = 0x8000"

definition button_paddle_1 :: u32
  where "button_paddle_1 = 0x10000"

definition button_paddle_2 :: u32
  where "button_paddle_2 = 0x20000"

definition button_paddle_3 :: u32
  where "button_paddle_3 = 0x40000"

definition button_paddle_4 :: u32
  where "button_paddle_4 = 0x80000"

definition button_touchpad :: u32
  where "button_touchpad = 0x100000"

definition button_misc :: u32
  where "button_misc = 0x200000"

definition button_left_grip_touch :: u32
  where "button_left_grip_touch = 0x400000"

definition button_right_grip_touch :: u32
  where "button_right_grip_touch = 0x800000"

definition button_left_stick_touch :: u32
  where "button_left_stick_touch = 0x1000000"

definition button_right_stick_touch :: u32
  where "button_right_stick_touch = 0x2000000"

definition button_left_pad_click :: u32
  where "button_left_pad_click = 0x4000000"

definition button_right_pad_click :: u32
  where "button_right_pad_click = 0x8000000"

definition button_left_trigger_click :: u32
  where "button_left_trigger_click = 0x10000000"

definition button_right_trigger_click :: u32
  where "button_right_trigger_click = 0x20000000"

definition button_sc26_buttons_explicit :: u32
  where "button_sc26_buttons_explicit = 0x40000000"

lemmas button_masks =
  button_dpad_up_def button_dpad_down_def button_dpad_left_def button_dpad_right_def button_start_def button_back_def button_left_stick_def button_right_stick_def button_left_shoulder_def button_right_shoulder_def button_home_def button_south_def button_east_def button_west_def button_north_def
  button_paddle_1_def button_paddle_2_def button_paddle_3_def button_paddle_4_def button_touchpad_def button_misc_def button_left_grip_touch_def button_right_grip_touch_def button_left_stick_touch_def button_right_stick_touch_def button_left_pad_click_def button_right_pad_click_def button_left_trigger_click_def button_right_trigger_click_def button_sc26_buttons_explicit_def

definition feature_input_state :: u32
  where "feature_input_state = 0x01"

definition feature_feedback :: u32
  where "feature_feedback = 0x02"

definition feature_touch :: u32
  where "feature_touch = 0x04"

definition feature_motion :: u32
  where "feature_motion = 0x08"

definition feature_battery :: u32
  where "feature_battery = 0x10"

definition feature_hid_feature_reports :: u32
  where "feature_hid_feature_reports = 0x20"

section \<open>Requests and responses\<close>

text \<open>Packed structs, field by field; a signed field is an integer of its range.\<close>

record request_header =
  rh_size :: u32
  rh_version :: u16
  rh_reserved :: u16

record create_controller_request =
  cc_header :: request_header
  cc_controller_id :: u32
  cc_profile :: u16
  cc_reserved :: u16

record feedback_counters =
  fc_haptic_evicted :: byte
  fc_settings_evicted :: byte
  fc_transitions_dropped :: byte
  fc_unknown_commands :: byte

definition saturate_counter :: "u32 \<Rightarrow> byte"
  where "saturate_counter v = (if v > 0xFF then 0xFF else ucast v)"

record query_info_response =
  qi_header :: request_header
  qi_minimum_version :: u16
  qi_maximum_version :: u16
  qi_available_profiles :: u32
  qi_available_features :: u32
  qi_maximum_controllers :: u32
  qi_counters :: feedback_counters

record controller_id_request =
  ci_header :: request_header
  ci_controller_id :: u32

record input_state_request =
  is_header :: request_header
  is_controller_id :: u32
  is_buttons :: u32
  is_left_x :: i16
  is_left_y :: i16
  is_right_x :: i16
  is_right_y :: i16
  is_left_trigger :: byte
  is_right_trigger :: byte
  is_reserved :: u16

record touch_state_request =
  ts_header :: request_header
  ts_controller_id :: u32
  ts_contact_index :: byte
  ts_event_type :: byte
  ts_x :: u16
  ts_y :: u16
  ts_pressure :: u16
  ts_reserved :: u16

record motion_state_request =
  ms_header :: request_header
  ms_controller_id :: u32
  ms_motion_type :: byte
  ms_reserved0 :: "byte list"
  ms_x_milli :: int
  ms_y_milli :: int
  ms_z_milli :: int

record battery_state_request =
  bs_header :: request_header
  bs_controller_id :: u32
  bs_percent :: byte
  bs_flags :: byte
  bs_reserved :: u16

record steam_controller_attributes_request =
  sa_header :: request_header
  sa_controller_id :: u32
  sa_flags :: u32
  sa_firmware_build_time :: u32
  sa_bootloader_build_time :: u32
  sa_board_revision :: u32
  sa_capabilities :: u32
  sa_build_id :: "byte list"
  sa_unit_serial :: "byte list"
  sa_board_serial :: "byte list"

text \<open>\<^theory_text>\<open>enum class touch_event\<close>, \<^theory_text>\<open>motion_kind\<close> and
  \<^theory_text>\<open>battery_state\<close>, by their wire values.\<close>

abbreviation (input) "touch_hover \<equiv> (0 :: byte)"
abbreviation (input) "touch_down \<equiv> (1 :: byte)"
abbreviation (input) "touch_up \<equiv> (2 :: byte)"
abbreviation (input) "touch_move \<equiv> (3 :: byte)"
abbreviation (input) "touch_cancel \<equiv> (4 :: byte)"
abbreviation (input) "touch_cancel_all \<equiv> (5 :: byte)"

abbreviation (input) "motion_accelerometer \<equiv> (1 :: byte)"
abbreviation (input) "motion_gyroscope \<equiv> (2 :: byte)"

abbreviation (input) "battery_unknown \<equiv> (0 :: byte)"
abbreviation (input) "battery_not_present \<equiv> (1 :: byte)"
abbreviation (input) "battery_discharging \<equiv> (2 :: byte)"
abbreviation (input) "battery_charging \<equiv> (3 :: byte)"
abbreviation (input) "battery_full \<equiv> (4 :: byte)"
abbreviation (input) "battery_not_charging \<equiv> (5 :: byte)"

text \<open>\<^theory_text>\<open>valid_request\<close>: \<open>bytes\<close> is the buffer's length,
  \<open>sz\<close> the size of the request type.\<close>

definition valid_header :: "nat \<Rightarrow> nat \<Rightarrow> request_header \<Rightarrow> bool"
  where "valid_header sz bytes h \<longleftrightarrow>
    bytes = sz \<and> unat (rh_size h) = sz \<and> rh_version h = k_protocol_version \<and> rh_reserved h = 0"

definition valid_request :: "('r \<Rightarrow> request_header) \<Rightarrow> nat \<Rightarrow> 'r option \<Rightarrow> nat \<Rightarrow> bool"
  where "valid_request hdr sz request bytes =
    (case request of None \<Rightarrow> False | Some r \<Rightarrow> valid_header sz bytes (hdr r))"

section \<open>Feedback payloads\<close>

record generic_rumble_rgb_feedback =
  gr_low_frequency :: u16
  gr_high_frequency :: u16
  gr_red :: byte
  gr_green :: byte
  gr_blue :: byte
  gr_reserved :: byte

record xbox_rumble_feedback =
  xr_low_frequency :: u16
  xr_high_frequency :: u16
  xr_left_trigger :: u16
  xr_right_trigger :: u16

record trigger_effect_feedback =
  te_mode :: byte
  te_parameters :: "byte list"

record playstation_output_feedback =
  po_low_frequency :: u16
  po_high_frequency :: u16
  po_red :: byte
  po_green :: byte
  po_blue :: byte
  po_valid :: byte
  po_player_leds :: byte
  po_microphone_led :: byte
  po_left_trigger :: trigger_effect_feedback
  po_right_trigger :: trigger_effect_feedback

definition ps_output_lightbar_valid :: byte
  where "ps_output_lightbar_valid = 0x01"

definition ps_output_triggers_valid :: byte
  where "ps_output_triggers_valid = 0x02"

definition ps_output_player_leds_valid :: byte
  where "ps_output_player_leds_valid = 0x04"

definition ps_output_microphone_led_valid :: byte
  where "ps_output_microphone_led_valid = 0x08"

record steam_haptic_feedback =
  sh_length :: byte
  sh_reserved :: "byte list"
  sh_report :: "byte list"

definition k_steam_settings_triples_max :: nat
  where "k_steam_settings_triples_max = 9"

record steam_settings_feedback =
  ss_command :: byte
  ss_count :: byte
  ss_reserved :: "byte list"
  ss_triples :: "byte list"

record raw_hid_report_feedback =
  rw_operation :: byte
  rw_report_id :: byte
  rw_data_size :: byte
  rw_reserved :: byte
  rw_data :: "byte list"

record feedback_event =
  fe_header :: request_header
  fe_controller_id :: u32
  fe_type :: feedback_type
  fe_payload_size :: u16
  fe_payload :: "byte list"

fun feedback_payload_size :: "feedback_type \<Rightarrow> u16"
  where
    "feedback_payload_size FB_None = 0"
  | "feedback_payload_size FB_Generic_Rumble_Rgb = 8"
  | "feedback_payload_size FB_Generic_Rumble = 8"
  | "feedback_payload_size FB_Raw_Output_Report = 16"
  | "feedback_payload_size FB_Xbox_Rumble = 8"
  | "feedback_payload_size FB_Playstation_Output = 32"
  | "feedback_payload_size FB_Steam_Haptic = 16"
  | "feedback_payload_size FB_Steam_Settings = 32"

definition k_feedback_payload_unknown :: u16
  where "k_feedback_payload_unknown = 0xFFFF"

text \<open>\<^theory_text>\<open>memcpy(event.payload, &payload, sizeof payload)\<close>: the packed
  bytes of each payload struct.\<close>

definition generic_rumble_bytes :: "generic_rumble_rgb_feedback \<Rightarrow> byte list"
  where "generic_rumble_bytes f =
    le16_bytes (gr_low_frequency f) @ le16_bytes (gr_high_frequency f) @
    [gr_red f, gr_green f, gr_blue f, gr_reserved f]"

definition xbox_rumble_bytes :: "xbox_rumble_feedback \<Rightarrow> byte list"
  where "xbox_rumble_bytes f =
    le16_bytes (xr_low_frequency f) @ le16_bytes (xr_high_frequency f) @
    le16_bytes (xr_left_trigger f) @ le16_bytes (xr_right_trigger f)"

definition trigger_effect_bytes :: "trigger_effect_feedback \<Rightarrow> byte list"
  where "trigger_effect_bytes t = te_mode t # te_parameters t"

definition playstation_output_bytes :: "playstation_output_feedback \<Rightarrow> byte list"
  where "playstation_output_bytes f =
    le16_bytes (po_low_frequency f) @ le16_bytes (po_high_frequency f) @
    [po_red f, po_green f, po_blue f, po_valid f, po_player_leds f, po_microphone_led f] @
    trigger_effect_bytes (po_left_trigger f) @ trigger_effect_bytes (po_right_trigger f)"

definition steam_haptic_bytes :: "steam_haptic_feedback \<Rightarrow> byte list"
  where "steam_haptic_bytes f = sh_length f # sh_reserved f @ sh_report f"

definition steam_settings_bytes :: "steam_settings_feedback \<Rightarrow> byte list"
  where "steam_settings_bytes f = [ss_command f, ss_count f] @ ss_reserved f @ ss_triples f"

definition raw_hid_report_bytes :: "raw_hid_report_feedback \<Rightarrow> byte list"
  where "raw_hid_report_bytes f =
    [rw_operation f, rw_report_id f, rw_data_size f, rw_reserved f] @ rw_data f"

text \<open>A freshly value-initialised event (\<^theory_text>\<open>feedback_event event {}\<close>) with its
  header, type and payload filled in, as every producer in the driver does.\<close>

definition event_header :: request_header
  where "event_header = \<lparr>rh_size = 48, rh_version = k_protocol_version, rh_reserved = 0\<rparr>"

definition make_event :: "u32 \<Rightarrow> feedback_type \<Rightarrow> byte list \<Rightarrow> feedback_event"
  where "make_event controller_id t payload = \<lparr>fe_header = event_header,
    fe_controller_id = controller_id, fe_type = t, fe_payload_size = of_nat (length payload),
    fe_payload = overwrite 0 payload (replicate 32 0)\<rparr>"

definition empty_event :: feedback_event
  where "empty_event = \<lparr>fe_header = \<lparr>rh_size = 0, rh_version = 0, rh_reserved = 0\<rparr>,
    fe_controller_id = 0, fe_type = FB_None, fe_payload_size = 0, fe_payload = replicate 32 0\<rparr>"

text \<open>The control codes (\<^theory_text>\<open>CTL_CODE(FILE_DEVICE_UNKNOWN, function,
  METHOD_BUFFERED, FILE_READ_DATA | FILE_WRITE_DATA)\<close>).\<close>

definition ctl_code :: "u32 \<Rightarrow> u32"
  where "ctl_code function = push_bit 16 0x22 OR push_bit 14 3 OR push_bit 2 function OR 0"

datatype ioctl = Ioctl_Query_Info | Ioctl_Create_Controller | Ioctl_Destroy_Controller
  | Ioctl_Submit_Input_State | Ioctl_Poll_Feedback | Ioctl_Submit_Touch_State
  | Ioctl_Submit_Motion_State | Ioctl_Submit_Battery_State | Ioctl_Set_Steam_Attributes

fun ioctl_code :: "ioctl \<Rightarrow> u32"
  where
    "ioctl_code Ioctl_Query_Info = ctl_code 0x800"
  | "ioctl_code Ioctl_Create_Controller = ctl_code 0x801"
  | "ioctl_code Ioctl_Destroy_Controller = ctl_code 0x802"
  | "ioctl_code Ioctl_Submit_Input_State = ctl_code 0x803"
  | "ioctl_code Ioctl_Poll_Feedback = ctl_code 0x804"
  | "ioctl_code Ioctl_Submit_Touch_State = ctl_code 0x805"
  | "ioctl_code Ioctl_Submit_Motion_State = ctl_code 0x806"
  | "ioctl_code Ioctl_Submit_Battery_State = ctl_code 0x807"
  | "ioctl_code Ioctl_Set_Steam_Attributes = ctl_code 0x808"

section \<open>Statuses and transfers of the host\<close>

text \<open>The NTSTATUS values the driver returns itself; \<^theory_text>\<open>Status_Other\<close>
  carries a status a Windows routine returned.\<close>

datatype ntstatus = Status_Success | Status_Invalid_Parameter | Status_Invalid_Device_Request
  | Status_Not_Found | Status_Access_Denied | Status_No_More_Entries | Status_Device_Not_Ready
  | Status_Device_Removed | Status_Device_Not_Connected | Status_Not_Supported
  | Status_Object_Name_Collision | Status_Device_Busy | Status_Insufficient_Resources
  | Status_Invalid_Buffer_Size | Status_Buffer_Too_Small | Status_Revision_Mismatch
  | Status_Delete_Pending | Status_Invalid_Device_State | Status_Unsuccessful
  | Status_Invalid_Handle | Status_Cancelled | Status_Device_Powered_Off
  | Status_Other u32

text \<open>\<^theory_text>\<open>HID_XFER_PACKET\<close>: a null buffer is \<^const>\<open>None\<close>,
  and \<^theory_text>\<open>reportBufferLen\<close> the length of the list.\<close>

record hid_transfer =
  xf_report_id :: byte
  xf_buffer :: "byte list option"

section \<open>Layout facts\<close>

text \<open>The array members have their declared sizes.\<close>

definition trigger_effect_ok :: "trigger_effect_feedback \<Rightarrow> bool"
  where "trigger_effect_ok t \<longleftrightarrow> length (te_parameters t) = 10"

definition playstation_output_ok :: "playstation_output_feedback \<Rightarrow> bool"
  where "playstation_output_ok f \<longleftrightarrow>
    trigger_effect_ok (po_left_trigger f) \<and> trigger_effect_ok (po_right_trigger f)"

definition steam_haptic_ok :: "steam_haptic_feedback \<Rightarrow> bool"
  where "steam_haptic_ok f \<longleftrightarrow> length (sh_reserved f) = 3 \<and> length (sh_report f) = 12"

definition steam_settings_ok :: "steam_settings_feedback \<Rightarrow> bool"
  where "steam_settings_ok f \<longleftrightarrow> length (ss_reserved f) = 3 \<and>
    length (ss_triples f) = k_steam_settings_triples_max * 3"

definition event_size_ok :: "feedback_event \<Rightarrow> bool"
  where "event_size_ok e \<longleftrightarrow> length (fe_payload e) = 32 \<and>
    fe_payload_size e = feedback_payload_size (fe_type e)"

lemma payload_lengths [layout_simps]:
  "length (generic_rumble_bytes g) = 8"
  "length (xbox_rumble_bytes x) = 8"
  "playstation_output_ok p \<Longrightarrow> length (playstation_output_bytes p) = 32"
  "steam_haptic_ok h \<Longrightarrow> length (steam_haptic_bytes h) = 16"
  "steam_settings_ok s \<Longrightarrow> length (steam_settings_bytes s) = 32"
  by (simp_all add: generic_rumble_bytes_def xbox_rumble_bytes_def playstation_output_bytes_def
      playstation_output_ok_def trigger_effect_ok_def trigger_effect_bytes_def
      steam_haptic_bytes_def steam_haptic_ok_def steam_settings_bytes_def steam_settings_ok_def
      k_steam_settings_triples_max_def)

lemma make_event_size_ok:
  "length payload = unat (feedback_payload_size t) \<Longrightarrow> event_size_ok (make_event cid t payload)"
  by (cases t) (simp_all add: event_size_ok_def make_event_def)

end
