(* ===== verification/HapticQueue.thy ===== *)
theory HapticQueue
  imports Protocol BoundedQueue
begin

text \<open>
  The two feedback rings of a Steam Controller slot,
  \<^theory_text>\<open>driver/src/steam_haptic_queue.h\<close>: haptic reports, where a stop pulse
  coalesces with an older equivalent stop and a full ring discards its oldest ordinary
  effect, and settings writes, which travel whole and in order. A ring is the triple
  array, head, count the code passes by reference, at the template's capacity.
\<close>

section \<open>Stop keys\<close>

text \<open>\<open>0\<close> is "not a stop". \<open>report\<close> is only read below \<open>len\<close>.\<close>

definition steam_haptic_stop_key :: "byte list \<Rightarrow> nat \<Rightarrow> nat"
  where "steam_haptic_stop_key report len =
    (if len \<ge> 10 \<and> report ! 0 = 0x80 \<and>
        report ! 4 = 0 \<and> report ! 5 = 0 \<and> report ! 7 = 0 \<and> report ! 8 = 0
     then 0x80 * 4 + 3
     else if len < 2 \<or> report ! 1 > 2 then 0
     else if (len \<ge> 8 \<and> report ! 0 = 0x81 \<and>
          ((report ! 2 = 0 \<and> report ! 3 = 0) \<or> (report ! 6 = 0 \<and> report ! 7 = 0))) \<or>
        (len \<ge> 4 \<and> report ! 0 = 0x82 \<and> report ! 2 = 0)
     then unat (report ! 0) * 4 + (if report ! 1 = 2 then 3 else 2 ^ unat (report ! 1))
     else 0)"

text \<open>\<^theory_text>\<open>memcpy(&haptic, event.payload, sizeof(haptic))\<close>.\<close>

definition haptic_of_payload :: "byte list \<Rightarrow> steam_haptic_feedback"
  where "haptic_of_payload p = \<lparr>sh_length = p ! 0, sh_reserved = take 3 (drop 1 p),
    sh_report = take 12 (drop 4 p)\<rparr>"

definition haptic_stop_key :: "feedback_event \<Rightarrow> nat"
  where "haptic_stop_key e =
    (if fe_type e \<noteq> FB_Steam_Haptic \<or> fe_payload_size e \<noteq> 16 then 0
     else let haptic = haptic_of_payload (fe_payload e)
          in steam_haptic_stop_key (sh_report haptic) (unat (sh_length haptic)))"

definition stop_keys :: "nat set"
  where "stop_keys = {515, 517, 518, 519, 521, 522, 523}"

lemma steam_haptic_stop_key_range:
  "steam_haptic_stop_key r n \<noteq> 0 \<Longrightarrow> steam_haptic_stop_key r n \<in> stop_keys"
proof -
  assume nz: "steam_haptic_stop_key r n \<noteq> 0"
  have side: "b = 0 \<or> b = 1 \<or> b = 2" if "\<not> b > 2" for b :: byte
  proof -
    have "unat b \<le> 2" using that by (simp add: word_less_nat_alt)
    then have "unat b = unat (0 :: byte) \<or> unat b = unat (1 :: byte) \<or> unat b = unat (2 :: byte)"
      by simp linarith
    then show ?thesis by (simp only: word_unat_eq_iff)
  qed
  show ?thesis
    using nz side [of "r ! 1"]
    by (auto simp: steam_haptic_stop_key_def stop_keys_def split: if_splits)
qed

lemma haptic_stop_key_range: "haptic_stop_key e \<noteq> 0 \<Longrightarrow> haptic_stop_key e \<in> stop_keys"
  using steam_haptic_stop_key_range by (auto simp: haptic_stop_key_def Let_def split: if_splits)

section \<open>The rings\<close>

type_synonym event_ring = "feedback_event ring_state"

text \<open>The first position from the head whose event has the key.\<close>

definition first_with_key :: "nat \<Rightarrow> event_ring \<Rightarrow> nat \<Rightarrow> nat option"
  where "first_with_key cap r k = (case r of (queue, head, count) \<Rightarrow>
    List.find (\<lambda>i. haptic_stop_key (queue ! ((head + i) mod cap)) = k) [0..<count])"

text \<open>Close the gap at \<open>victim\<close> if it names an entry, then write the
  event behind the last one.\<close>

definition replace_victim :: "nat \<Rightarrow> event_ring \<Rightarrow> nat \<Rightarrow> feedback_event \<Rightarrow> event_ring"
  where "replace_victim cap r victim event = (case r of (queue, head, count) \<Rightarrow>
    let (queue, count) = (if victim < count then (ring_close victim queue head count, count - 1)
                          else (queue, count))
    in (queue[(head + count) mod cap := event], head, count + 1))"

definition enqueue_haptic ::
  "nat \<Rightarrow> event_ring \<Rightarrow> feedback_event \<Rightarrow> u32 \<Rightarrow> bool \<times> event_ring \<times> u32"
  where "enqueue_haptic cap r event evicted =
    (let stop = haptic_stop_key event;
         count = snd (snd r);
         victim = (if stop \<noteq> 0 then
                     (case first_with_key cap r stop of Some i \<Rightarrow> i | None \<Rightarrow> count)
                   else count)
     in if victim = count \<and> count = cap then
          (case first_with_key cap r 0 of
             None \<Rightarrow> (False, r, evicted)
           | Some v \<Rightarrow> (True, replace_victim cap r v event, evicted + 1))
        else (True, replace_victim cap r victim event, evicted))"

definition enqueue_settings :: "nat \<Rightarrow> event_ring \<Rightarrow> feedback_event \<Rightarrow> u32 \<Rightarrow> event_ring \<times> u32"
  where "enqueue_settings cap r event evicted =
    (case r of (queue, head, count) \<Rightarrow>
      let (head, count, evicted) =
        (if count = cap then ((head + 1) mod cap, count - 1, evicted + 1) else (head, count, evicted))
      in ((queue[(head + count) mod cap := event], head, count + 1), evicted))"

text \<open>The drain of \<^theory_text>\<open>poll_feedback\<close>: hand out the event at the head.\<close>

definition ring_poll :: "nat \<Rightarrow> event_ring \<Rightarrow> feedback_event option \<times> event_ring"
  where "ring_poll cap r = (case r of (queue, head, count) \<Rightarrow>
    if count \<noteq> 0 then (Some (queue ! head), (queue, (head + 1) mod cap, count - 1))
    else (None, r))"

definition k_haptic_queue_capacity :: nat
  where "k_haptic_queue_capacity = 8"

definition k_settings_queue_capacity :: nat
  where "k_settings_queue_capacity = 8"

definition empty_ring :: "nat \<Rightarrow> event_ring"
  where "empty_ring cap = (replicate cap empty_event, 0, 0)"

interpretation sr: bounded_queue
  "ring_contents :: event_ring \<Rightarrow> feedback_event list" "ring_ok k_settings_queue_capacity"
  k_settings_queue_capacity "ring_put k_settings_queue_capacity" "ring_drop k_settings_queue_capacity"
  by (rule ring_is_bounded_queue) (simp add: k_settings_queue_capacity_def)

interpretation hr: bounded_queue
  "ring_contents :: event_ring \<Rightarrow> feedback_event list" "ring_ok k_haptic_queue_capacity"
  k_haptic_queue_capacity "ring_put k_haptic_queue_capacity" "ring_drop k_haptic_queue_capacity"
  by (rule ring_is_bounded_queue) (simp add: k_haptic_queue_capacity_def)

lemma empty_ring_ok: "0 < cap \<Longrightarrow> ring_ok cap (empty_ring cap) \<and> ring_contents (empty_ring cap) = []"
  by (simp add: empty_ring_def ring_ok_def ring_contents_def)

section \<open>Contents of the haptic ring\<close>

definition remove_at :: "nat \<Rightarrow> 'a list \<Rightarrow> 'a list"
  where "remove_at v xs = take v xs @ drop (Suc v) xs"

definition key_index :: "nat \<Rightarrow> feedback_event list \<Rightarrow> nat option"
  where "key_index k xs = List.find (\<lambda>i. haptic_stop_key (xs ! i) = k) [0..<length xs]"

text \<open>The specification of one enqueue on the contents, oldest first.\<close>

definition haptic_spec ::
  "nat \<Rightarrow> feedback_event \<Rightarrow> feedback_event list \<Rightarrow> (feedback_event list \<times> u32) option"
  where "haptic_spec cap e xs =
    (case (if haptic_stop_key e \<noteq> 0 then key_index (haptic_stop_key e) xs else None) of
       Some v \<Rightarrow> Some (remove_at v xs @ [e], 0)
     | None \<Rightarrow> if length xs < cap then Some (xs @ [e], 0)
         else map_option (\<lambda>v. (remove_at v xs @ [e], 1)) (key_index 0 xs))"

lemma find_cong_upt: "(\<And>i. i < n \<Longrightarrow> P i = Q i) \<Longrightarrow> List.find P [0..<n] = List.find Q [0..<n]"
  by (rule find_cong) auto

lemma first_with_key_contents:
  assumes "ring_ok cap r"
  shows "first_with_key cap r k = key_index k (ring_contents r)"
proof -
  obtain queue head count where r: "r = (queue, head, count)" by (cases r)
  have "List.find (\<lambda>i. haptic_stop_key (queue ! ((head + i) mod cap)) = k) [0..<count] =
      List.find (\<lambda>i. haptic_stop_key (ring queue head count ! i) = k) [0..<count]"
    by (rule find_cong_upt) (use assms r in \<open>simp add: nth_ring ring_ok_def\<close>)
  then show ?thesis by (simp add: r first_with_key_def key_index_def ring_contents_def)
qed

lemma key_index_None: "key_index k xs = None \<longleftrightarrow> k \<notin> haptic_stop_key ` set xs"
  by (auto simp: key_index_def find_None_iff set_conv_nth)

lemma key_index_Some:
  assumes "key_index k xs = Some v"
  obtains ys x zs where "xs = ys @ x # zs" "length ys = v" "haptic_stop_key x = k"
    "k \<notin> haptic_stop_key ` set ys" "remove_at v xs = ys @ zs" "v < length xs"
proof -
  from assms have v: "v < length xs" "haptic_stop_key (xs ! v) = k"
    "\<And>j. j < v \<Longrightarrow> haptic_stop_key (xs ! j) \<noteq> k"
    by (auto simp: key_index_def find_Some_iff)
  show thesis
    by (rule that [of "take v xs" "xs ! v" "drop (Suc v) xs"])
       (use v in \<open>force simp: remove_at_def id_take_nth_drop [symmetric] in_set_conv_nth\<close>)+
qed

lemma replace_victim_contents:
  assumes ok: "ring_ok cap r" and room: "snd (snd r) < cap \<or> v < snd (snd r)"
  shows "ring_ok cap (replace_victim cap r v e) \<and> ring_contents (replace_victim cap r v e) =
    (if v < snd (snd r) then remove_at v (ring_contents r) else ring_contents r) @ [e]"
proof -
  obtain q h n where r: "r = (q, h, n)" by (cases r)
  from ok r have q: "length q = cap" "h < cap" "n \<le> cap" by (auto simp: ring_ok_def)
  show ?thesis
  proof (cases "v < n")
    case True
    let ?q = "ring_close v q h n"
    have "n - 1 < length ?q" using True q by simp
    from ring_push [OF this, of h e] ring_close [of n q v h] True q show ?thesis
      by (auto simp: r replace_victim_def ring_ok_def ring_contents_def remove_at_def)
  next
    case False
    then have "n < length q" using room r q by simp
    from ring_push [OF this, of h e] False q this show ?thesis
      by (auto simp: r replace_victim_def ring_ok_def ring_contents_def)
  qed
qed

lemma enqueue_haptic_spec:
  assumes ok: "ring_ok cap r"
  shows "case haptic_spec cap e (ring_contents r) of
      None \<Rightarrow> enqueue_haptic cap r e ev = (False, r, ev)
    | Some (xs, n) \<Rightarrow> \<exists>r'. enqueue_haptic cap r e ev = (True, r', ev + n) \<and>
        ring_ok cap r' \<and> ring_contents r' = xs"
proof -
  let ?xs = "ring_contents r"
  have len: "length ?xs = snd (snd r)" "snd (snd r) \<le> cap"
    using ok by (auto simp: ring_contents_def ring_ok_def split: prod.splits)
  note fk = first_with_key_contents [OF ok]
  let ?s = "if haptic_stop_key e \<noteq> 0 then key_index (haptic_stop_key e) ?xs else None"
  show ?thesis
  proof (cases ?s)
    case (Some v)
    then have k: "haptic_stop_key e \<noteq> 0" "key_index (haptic_stop_key e) ?xs = Some v"
      by (auto split: if_splits)
    then have v: "v < snd (snd r)" using len by (metis key_index_Some)
    from replace_victim_contents [OF ok, of v e] v k Some show ?thesis
      by (auto simp: haptic_spec_def enqueue_haptic_def fk Let_def)
  next
    case None
    then have victim: "(if haptic_stop_key e \<noteq> 0 then
        (case first_with_key cap r (haptic_stop_key e) of Some i \<Rightarrow> i | None \<Rightarrow> snd (snd r))
        else snd (snd r)) = snd (snd r)"
      by (auto simp: fk split: if_splits)
    show ?thesis
    proof (cases "snd (snd r) < cap")
      case True
      from replace_victim_contents [OF ok, of "snd (snd r)" e] True None victim len show ?thesis
        by (auto simp: haptic_spec_def enqueue_haptic_def Let_def)
    next
      case False
      then have full: "snd (snd r) = cap" using len by simp
      show ?thesis
      proof (cases "key_index 0 ?xs")
        case None': None
        with None victim full len show ?thesis
          by (auto simp: haptic_spec_def enqueue_haptic_def fk Let_def)
      next
        case (Some v)
        then have v: "v < snd (snd r)" using len by (metis key_index_Some)
        have "enqueue_haptic cap r e ev = (True, replace_victim cap r v e, ev + 1)"
          unfolding enqueue_haptic_def Let_def victim using Some full by (simp add: fk)
        with replace_victim_contents [OF ok, of v e] v Some None full len show ?thesis
          by (auto simp: haptic_spec_def)
      qed
    qed
  qed
qed

section \<open>Invariant: pending stops are pairwise different\<close>

definition stops_distinct :: "feedback_event list \<Rightarrow> bool"
  where "stops_distinct xs \<longleftrightarrow> distinct (filter (\<lambda>k. k \<noteq> 0) (map haptic_stop_key xs))"

lemma stops_distinct_split [simp]:
  "stops_distinct (ys @ x # zs) \<longleftrightarrow> stops_distinct (ys @ zs) \<and>
    (haptic_stop_key x = 0 \<or> haptic_stop_key x \<notin> haptic_stop_key ` set (ys @ zs))"
  by (auto simp: stops_distinct_def)

lemma stops_distinct_snoc [simp]:
  "stops_distinct (ys @ [x]) \<longleftrightarrow> stops_distinct ys \<and>
    (haptic_stop_key x = 0 \<or> haptic_stop_key x \<notin> haptic_stop_key ` set ys)"
  by (auto simp: stops_distinct_def)

lemma stops_distinct_tl: "stops_distinct xs \<Longrightarrow> stops_distinct (tl xs)"
  by (cases xs) (auto simp: stops_distinct_def split: if_splits)

lemma stops_below_eight:
  assumes "stops_distinct xs" "0 \<notin> haptic_stop_key ` set xs"
  shows "length xs < 8"
proof -
  have "filter (\<lambda>k. k \<noteq> 0) (map haptic_stop_key xs) = map haptic_stop_key xs"
    using assms(2) by (induction xs) auto
  then have "length xs = card (set (map haptic_stop_key xs))"
    using assms(1) distinct_card [of "map haptic_stop_key xs"] by (simp add: stops_distinct_def)
  also have "... \<le> card stop_keys"
    by (rule card_mono) (use assms(2) haptic_stop_key_range in \<open>force simp: stop_keys_def\<close>)+
  finally show ?thesis by (simp add: stop_keys_def)
qed

text \<open>A stop that finds the ring full of other things finds two ordinary
  events: at most six other stops can be pending.\<close>

lemma two_ordinary:
  assumes "stops_distinct xs" "8 \<le> length xs" "haptic_stop_key e \<noteq> 0"
    "haptic_stop_key e \<notin> haptic_stop_key ` set xs"
  shows "2 \<le> length (filter (\<lambda>x. haptic_stop_key x = 0) xs)"
proof -
  let ?s = "filter (\<lambda>k. k \<noteq> 0) (map haptic_stop_key xs)"
  have "length ?s = card (set ?s)"
    using assms(1) distinct_card [of ?s] by (simp add: stops_distinct_def)
  also have "... \<le> card (stop_keys - {haptic_stop_key e})"
    by (rule card_mono) (use assms(4) haptic_stop_key_range in
        \<open>auto simp: stop_keys_def image_iff\<close>)
  also have "... = 6"
    using haptic_stop_key_range [OF assms(3)] by (simp add: stop_keys_def)
  finally have "length (filter (\<lambda>x. haptic_stop_key x \<noteq> 0) xs) \<le> 6"
    by (simp add: filter_map comp_def)
  with sum_length_filter_compl [of "\<lambda>x. haptic_stop_key x = 0" xs] assms(2) show ?thesis by simp
qed

text \<open>The four outcomes of one enqueue, for the inductions below.\<close>

lemma haptic_spec_cases:
  assumes "stops_distinct xs" "8 \<le> cap" "length xs \<le> cap"
  obtains
    (coalesce) ys x zs where "haptic_spec cap e xs = Some (ys @ zs @ [e], 0)" "xs = ys @ x # zs"
      "haptic_stop_key e \<noteq> 0" "haptic_stop_key x = haptic_stop_key e"
  | (append) "haptic_spec cap e xs = Some (xs @ [e], 0)" "length xs < cap"
      "haptic_stop_key e = 0 \<or> haptic_stop_key e \<notin> haptic_stop_key ` set xs"
  | (evict) ys x zs where "haptic_spec cap e xs = Some (ys @ zs @ [e], 1)" "xs = ys @ x # zs"
      "haptic_stop_key x = 0" "0 \<notin> haptic_stop_key ` set ys" "length xs = cap"
      "haptic_stop_key e = 0 \<or> haptic_stop_key e \<notin> haptic_stop_key ` set xs"
proof (cases "if haptic_stop_key e \<noteq> 0 then key_index (haptic_stop_key e) xs else None")
  case (Some v)
  then have k: "haptic_stop_key e \<noteq> 0" "key_index (haptic_stop_key e) xs = Some v"
    by (auto split: if_splits)
  from k(2) obtain ys x zs where "xs = ys @ x # zs" "haptic_stop_key x = haptic_stop_key e"
    "remove_at v xs = ys @ zs" by (rule key_index_Some)
  with Some k show thesis by (intro coalesce [of ys zs x]) (auto simp: haptic_spec_def)
next
  case None
  then have fresh: "haptic_stop_key e = 0 \<or> haptic_stop_key e \<notin> haptic_stop_key ` set xs"
    using key_index_None by (auto split: if_splits)
  show thesis
  proof (cases "length xs < cap")
    case True
    with None fresh show thesis by (intro append) (auto simp: haptic_spec_def)
  next
    case False
    then have "0 \<in> haptic_stop_key ` set xs"
      using stops_below_eight [OF assms(1)] assms(2) by linarith
    then obtain v where v: "key_index 0 xs = Some v"
      using key_index_None [of 0 xs] by auto
    then obtain ys x zs where "xs = ys @ x # zs" "haptic_stop_key x = 0"
      "0 \<notin> haptic_stop_key ` set ys" "remove_at v xs = ys @ zs" by (rule key_index_Some)
    with None v fresh False assms(3) show thesis
      by (intro evict [of ys zs x]) (auto simp: haptic_spec_def)
  qed
qed

definition haptic_ok :: "nat \<Rightarrow> event_ring \<Rightarrow> bool"
  where "haptic_ok cap r \<longleftrightarrow> ring_ok cap r \<and> stops_distinct (ring_contents r)"

lemma ring_ok_length: "ring_ok cap r \<Longrightarrow> length (ring_contents r) \<le> cap"
  by (auto simp: ring_ok_def ring_contents_def split: prod.splits)

lemma haptic_put_ok:
  assumes "haptic_ok cap r" "8 \<le> cap"
  obtains r' n xs where "enqueue_haptic cap r e ev = (True, r', ev + n)" "haptic_ok cap r'"
    "haptic_spec cap e (ring_contents r) = Some (xs, n)" "ring_contents r' = xs"
proof -
  have r: "ring_ok cap r" "stops_distinct (ring_contents r)" "length (ring_contents r) \<le> cap"
    using assms(1) by (simp_all add: haptic_ok_def ring_ok_length)
  obtain xs n where spec: "haptic_spec cap e (ring_contents r) = Some (xs, n)" "stops_distinct xs"
  proof (rule haptic_spec_cases [OF r(2) assms(2) r(3), of e])
    fix ys x zs
    assume "haptic_spec cap e (ring_contents r) = Some (ys @ zs @ [e], 0)"
      "ring_contents r = ys @ x # zs" "haptic_stop_key e \<noteq> 0" "haptic_stop_key x = haptic_stop_key e"
    moreover from this r(2) have "stops_distinct ((ys @ zs) @ [e])"
      by (subst stops_distinct_snoc) auto
    ultimately show thesis using that by auto
  next
    assume "haptic_spec cap e (ring_contents r) = Some (ring_contents r @ [e], 0)"
      "haptic_stop_key e = 0 \<or> haptic_stop_key e \<notin> haptic_stop_key ` set (ring_contents r)"
    with that r(2) show thesis by auto
  next
    fix ys x zs
    assume "haptic_spec cap e (ring_contents r) = Some (ys @ zs @ [e], 1)"
      "ring_contents r = ys @ x # zs"
      "haptic_stop_key e = 0 \<or> haptic_stop_key e \<notin> haptic_stop_key ` set (ring_contents r)"
    moreover from this r(2) have "stops_distinct ((ys @ zs) @ [e])"
      by (subst stops_distinct_snoc) auto
    ultimately show thesis using that by auto
  qed
  with enqueue_haptic_spec [OF r(1), of e ev] that show thesis
    by (auto simp: haptic_ok_def)
qed

lemma ring_poll_contents:
  assumes "ring_ok cap r"
  shows "ring_ok cap (snd (ring_poll cap r)) \<and>
    (case fst (ring_poll cap r) of
       None \<Rightarrow> ring_contents r = [] \<and> snd (ring_poll cap r) = r
     | Some e \<Rightarrow> ring_contents r = e # ring_contents (snd (ring_poll cap r)))"
proof -
  obtain q h n where r: "r = (q, h, n)" by (cases r)
  show ?thesis
  proof (cases n)
    case 0 with r assms show ?thesis by (simp add: ring_poll_def ring_contents_def)
  next
    case (Suc m)
    then have "0 < cap" using assms r by (auto simp: ring_ok_def)
    with Suc r assms show ?thesis
      by (simp add: ring_poll_def ring_contents_def ring_ok_def ring_Suc)
  qed
qed

section \<open>Runs of the haptic ring\<close>

datatype haptic_op = Put feedback_event | Poll

type_synonym haptic_state = "feedback_event list \<times> event_ring \<times> u32"

text \<open>The state carries what polls have handed out so far.\<close>

fun haptic_step :: "nat \<Rightarrow> haptic_op \<Rightarrow> haptic_state \<Rightarrow> haptic_state"
  where
    "haptic_step cap (Put e) (out, r, ev) =
      (let (_, r, ev) = enqueue_haptic cap r e ev in (out, r, ev))"
  | "haptic_step cap Poll (out, r, ev) =
      (case ring_poll cap r of
         (None, r) \<Rightarrow> (out, r, ev)
       | (Some e, r) \<Rightarrow> (out @ [e], r, ev))"

definition haptic_run :: "nat \<Rightarrow> haptic_op list \<Rightarrow> haptic_state"
  where "haptic_run cap ops = foldl (\<lambda>s op. haptic_step cap op s) ([], empty_ring cap, 0) ops"

fun put_of :: "haptic_op \<Rightarrow> feedback_event list"
  where "put_of (Put e) = [e]" | "put_of Poll = []"

definition with_key :: "nat \<Rightarrow> feedback_event list \<Rightarrow> feedback_event list"
  where "with_key k es = filter (\<lambda>e. haptic_stop_key e = k) es"

lemma with_key_simps [simp]:
  "with_key k [] = []" "with_key k (es @ fs) = with_key k es @ with_key k fs"
  "with_key k (e # es) = (if haptic_stop_key e = k then [e] else []) @ with_key k es"
  by (simp_all add: with_key_def)

definition ring_history :: "nat \<Rightarrow> feedback_event list \<Rightarrow> haptic_state \<Rightarrow> bool"
  where "ring_history cap off s = (case s of (out, r, ev) \<Rightarrow>
    haptic_ok cap r \<and> subseq (out @ ring_contents r) off \<and>
    (\<forall>k. tracks (with_key k (out @ ring_contents r)) (with_key k off)) \<and>
    of_nat (length (with_key 0 off)) = of_nat (length (with_key 0 (out @ ring_contents r))) + ev)"

lemma tracks_drop_mid: "tracks (xs @ x # zs) off \<Longrightarrow> zs \<noteq> [] \<Longrightarrow> tracks (xs @ zs) off"
  unfolding tracks_def
  by (metis append_is_Nil_conv last.simps last_append list.distinct(1) list_emb_Cons list_emb_append_mono
      subseq_order.order_refl subseq_order.trans)

lemma with_key_none: "k \<notin> haptic_stop_key ` set ys \<Longrightarrow> with_key k ys = []"
  by (induction ys) auto

lemma subseq_snoc_mono: "subseq ys xs \<Longrightarrow> subseq (ys @ [e]) (xs @ [e])"
  by (simp add: list_emb_append_mono)

lemma history_put:
  assumes "ring_history cap off (out, r, ev)" "8 \<le> cap"
  shows "ring_history cap (off @ [e]) (haptic_step cap (Put e) (out, r, ev))"
proof -
  have h: "haptic_ok cap r" "subseq (out @ ring_contents r) off"
    "\<And>k. tracks (with_key k (out @ ring_contents r)) (with_key k off)"
    "of_nat (length (with_key 0 off)) = of_nat (length (with_key 0 (out @ ring_contents r))) + ev"
    using assms(1) by (auto simp: ring_history_def)
  have r: "stops_distinct (ring_contents r)" "length (ring_contents r) \<le> cap"
    using h(1) by (simp_all add: haptic_ok_def ring_ok_length)
  obtain r' n xs where put: "enqueue_haptic cap r e ev = (True, r', ev + n)" "haptic_ok cap r'"
    "haptic_spec cap e (ring_contents r) = Some (xs, n)" "ring_contents r' = xs"
    using haptic_put_ok [OF h(1) assms(2)] .
  from r(1) assms(2) r(2) show ?thesis
  proof (cases rule: haptic_spec_cases [where e = e])
    case (coalesce ys x zs)
    have sub: "subseq (out @ ys @ zs) (out @ ring_contents r)"
      unfolding coalesce(2) by (intro subseq_left list_emb_Cons subseq_order.order_refl)
    have "tracks (with_key k ((out @ ys @ zs) @ [e])) (with_key k (off @ [e]))" for k
    proof (cases "haptic_stop_key e = k")
      case True
      have "subseq (with_key k (out @ ys @ zs)) (with_key k (out @ ring_contents r))"
        using sub unfolding with_key_def by (rule subseq_filter)
      from tracks_snoc [OF h(3) this] True show ?thesis by simp
    next
      case False
      then show ?thesis using h(3) [of k] coalesce by simp
    qed
    with put coalesce h(4) subseq_snoc_mono [OF subseq_order.trans [OF sub h(2)], of e] show ?thesis
      by (auto simp: ring_history_def)
  next
    case append
    have "tracks (with_key k ((out @ ring_contents r) @ [e])) (with_key k (off @ [e]))" for k
      using h(3) [of k] tracks_snoc [OF h(3) subseq_order.order_refl] by simp
    moreover have rc: "ring_contents r' = ring_contents r @ [e]" and n: "n = 0"
      using put append by simp_all
    ultimately show ?thesis
      using put(1,2) h(4) subseq_snoc_mono [OF h(2), of e] by (auto simp: ring_history_def rc n)
  next
    case (evict ys x zs)
    have sub: "subseq (out @ ys @ zs) (out @ ring_contents r)"
      unfolding evict(2) by (intro subseq_left list_emb_Cons subseq_order.order_refl)
    have tr: "tracks (with_key k ((out @ ys @ zs) @ [e])) (with_key k (off @ [e]))" for k
    proof (cases "haptic_stop_key e = k")
      case True
      have "subseq (with_key k (out @ ys @ zs)) (with_key k (out @ ring_contents r))"
        using sub unfolding with_key_def by (rule subseq_filter)
      from tracks_snoc [OF h(3) this] True show ?thesis by simp
    next
      case other: False
      show ?thesis
      proof (cases "k = 0")
        case True
        then have "haptic_stop_key e \<noteq> 0" using other by simp
        then have "2 \<le> length (with_key 0 (ring_contents r))"
          using two_ordinary [OF r(1), of e] evict assms(2) by (auto simp: with_key_def)
        then have "with_key 0 zs \<noteq> []" using evict by (auto simp: with_key_none)
        with h(3) [of 0] tracks_drop_mid [of "with_key 0 (out @ ys)" x "with_key 0 zs"] True other evict
        show ?thesis by simp
      next
        case False
        then show ?thesis using h(3) [of k] evict other by simp
      qed
    qed
    with put evict h(4) subseq_snoc_mono [OF subseq_order.trans [OF sub h(2)], of e] show ?thesis
      by (auto simp: ring_history_def)
  qed
qed

lemma history_poll:
  assumes "ring_history cap off (out, r, ev)"
  shows "ring_history cap off (haptic_step cap Poll (out, r, ev))"
proof -
  have r: "ring_ok cap r" using assms by (simp add: ring_history_def haptic_ok_def)
  obtain e r' where p: "ring_poll cap r = (e, r')" by (cases "ring_poll cap r")
  with ring_poll_contents [OF r] assms show ?thesis
    by (cases e) (auto simp: ring_history_def haptic_ok_def dest: stops_distinct_tl)
qed

lemma history_run:
  assumes "8 \<le> cap"
  shows "ring_history cap (concat (map put_of ops)) (haptic_run cap ops)"
proof (induction ops rule: rev_induct)
  case Nil
  have "0 < cap" using assms by simp
  from empty_ring_ok [OF this] show ?case
    by (simp add: haptic_run_def ring_history_def haptic_ok_def stops_distinct_def)
next
  case (snoc op ops)
  obtain out r ev where s: "haptic_run cap ops = (out, r, ev)" by (cases "haptic_run cap ops")
  have "haptic_run cap (ops @ [op]) = haptic_step cap op (out, r, ev)"
    using s by (simp add: haptic_run_def)
  with snoc s history_put [OF _ assms] history_poll show ?case by (cases op) auto
qed

section \<open>Properties\<close>

text \<open>A haptic event is never refused: with the seven different stop
  keys a ring of at least eight slots always has room or an ordinary effect to give way, so
  after any interleaving of writes and polls enqueueing succeeds, and the pending stops
  are pairwise different.\<close>

lemma haptic_enqueue_never_refuses:
  assumes "8 \<le> cap" "haptic_run cap ops = (out, r, ev)"
  shows "fst (enqueue_haptic cap r event n) \<and> stops_distinct (ring_contents r) \<and>
    length (ring_contents r) \<le> cap"
proof -
  have r: "haptic_ok cap r"
    using history_run [OF assms(1), of ops] assms(2) by (simp add: ring_history_def)
  obtain r' n' xs where "enqueue_haptic cap r event n = (True, r', n + n')"
    using haptic_put_ok [OF r assms(1)] .
  with r show ?thesis by (simp add: haptic_ok_def ring_ok_length)
qed

lemma haptic_enqueue_never_refuses_witness:
  "\<exists>out r ev. haptic_run k_haptic_queue_capacity (replicate 9 (Put empty_event)) = (out, r, ev) \<and>
    fst (enqueue_haptic k_haptic_queue_capacity r empty_event 0) \<and>
    stops_distinct (ring_contents r) \<and> length (ring_contents r) \<le> k_haptic_queue_capacity"
proof -
  obtain out r ev where
    s: "haptic_run k_haptic_queue_capacity (replicate 9 (Put empty_event)) = (out, r, ev)"
    by (metis prod_cases3)
  have "8 \<le> k_haptic_queue_capacity" by (simp add: k_haptic_queue_capacity_def)
  from haptic_enqueue_never_refuses [OF this s] s show ?thesis by blast
qed

text \<open>Property C27. What a host sees of the haptic writes: after any interleaving of
  writes and polls, the events polled followed by those pending are the writes with
  some left out and none reordered; for every stop key the newest stop is never lost,
  nor is the newest ordinary effect; and the ordinary effects left out are exactly
  those the evicted counter has counted (modulo its 32-bit wrap).\<close>

theorem haptic_ring_history:
  assumes "8 \<le> cap" "haptic_run cap ops = (out, r, ev)"
  defines "writes \<equiv> concat (map put_of ops)"
  shows "subseq (out @ ring_contents r) writes \<and>
    (\<forall>k. tracks (with_key k (out @ ring_contents r)) (with_key k writes)) \<and>
    of_nat (length (with_key 0 writes)) = of_nat (length (with_key 0 (out @ ring_contents r))) + ev"
  using history_run [OF assms(1), of ops] assms(2) by (simp add: ring_history_def writes_def)

lemma haptic_ring_history_witness:
  "\<exists>out r ev. haptic_run k_haptic_queue_capacity [Put empty_event, Poll] = (out, r, ev) \<and>
    subseq (out @ ring_contents r) (concat (map put_of [Put empty_event, Poll])) \<and>
    (\<forall>k. tracks (with_key k (out @ ring_contents r))
      (with_key k (concat (map put_of [Put empty_event, Poll])))) \<and>
    of_nat (length (with_key 0 (concat (map put_of [Put empty_event, Poll])))) =
      of_nat (length (with_key 0 (out @ ring_contents r))) + ev"
proof -
  obtain out r ev where
    s: "haptic_run k_haptic_queue_capacity [Put empty_event, Poll] = (out, r, ev)"
    by (metis prod_cases3)
  have "8 \<le> k_haptic_queue_capacity" by (simp add: k_haptic_queue_capacity_def)
  from haptic_ring_history [OF this s] s show ?thesis by blast
qed

text \<open>The settings ring is the shared discard-oldest queue with a counter.\<close>

lemma enqueue_settings_force:
  "ring_ok k_settings_queue_capacity r \<Longrightarrow>
    enqueue_settings k_settings_queue_capacity r e ev =
      (sr.force e r, ev + (if length (ring_contents r) = k_settings_queue_capacity then 1 else 0))"
  by (auto simp: enqueue_settings_def sr.force_def ring_put_def ring_drop_def ring_contents_def
      split: prod.split)

definition enqueue_all_settings :: "feedback_event list \<Rightarrow> event_ring \<times> u32 \<Rightarrow> event_ring \<times> u32"
  where "enqueue_all_settings es s =
    foldl (\<lambda>(r, ev) e. enqueue_settings k_settings_queue_capacity r e ev) s es"

lemma enqueue_all_settings_force:
  "ring_ok k_settings_queue_capacity r \<Longrightarrow>
    fst (enqueue_all_settings es (r, ev)) = fold sr.force es r"
  by (induction es arbitrary: r ev)
     (simp_all add: enqueue_all_settings_def enqueue_settings_force sr.force_ok)

lemma enqueue_all_settings_count:
  "ring_ok k_settings_queue_capacity r \<Longrightarrow>
    snd (enqueue_all_settings es (r, ev)) = ev + of_nat
      (length (ring_contents r) + length es - k_settings_queue_capacity)"
proof (induction es arbitrary: r ev)
  case (Cons e es)
  have "length (ring_contents r) \<le> k_settings_queue_capacity" using Cons.prems by (rule ring_ok_length)
  with Cons.IH [OF sr.force_ok [OF Cons.prems, of e]] Cons.prems show ?case
    by (auto simp: enqueue_all_settings_def enqueue_settings_force sr.force_contents min_def
        Suc_diff_le)
qed (simp add: enqueue_all_settings_def ring_ok_length min_def)

text \<open>Settings writes keep their order and the newest eight survive:
  enqueueing any series of events onto a ring leaves exactly the newest events that fit, in
  order, and the counter has grown by the number that no longer do.\<close>

lemma settings_ring_keeps_newest:
  assumes "ring_ok k_settings_queue_capacity r"
  shows "ring_contents (fst (enqueue_all_settings es (r, ev))) =
      newest k_settings_queue_capacity (ring_contents r @ es) \<and>
    snd (enqueue_all_settings es (r, ev)) = ev + of_nat
      (length (ring_contents r) + length es - k_settings_queue_capacity)"
  using enqueue_all_settings_count [OF assms, of es ev] sr.force_all [OF assms, of es]
    enqueue_all_settings_force [OF assms, of es ev] by simp

lemma settings_ring_keeps_newest_witness:
  "ring_contents (fst (enqueue_all_settings (replicate 9 empty_event) (empty_ring 8, 0))) =
      newest k_settings_queue_capacity (ring_contents (empty_ring 8) @ replicate 9 empty_event) \<and>
    snd (enqueue_all_settings (replicate 9 empty_event) (empty_ring 8, 0)) = 0 + of_nat
      (length (ring_contents (empty_ring 8)) + length (replicate 9 empty_event)
        - k_settings_queue_capacity)"
  by (rule settings_ring_keeps_newest)
     (simp add: empty_ring_def ring_ok_def k_settings_queue_capacity_def)

end
