(* ===== verification/PidEngine.thy ===== *)
theory PidEngine
  imports Protocol
begin

text \<open>
  The force-feedback engine, \<^theory_text>\<open>driver/src/pid_ff.h\<close> and the engine
  half of \<^theory_text>\<open>pid_ff.cpp\<close>: the packed PID reports with the bytes they are
  read from, the sixteen effect blocks, every output and feature report handler, the
  clock and the reduction of the playing effects to one rumble value. Loops over the
  blocks are maps and folds over the list of blocks; the signed arithmetic of the
  magnitudes is integer arithmetic with C's truncating division, and the elapsed time a
  32-bit word.
\<close>

section \<open>Reports\<close>

definition k_pid_state_report_id :: byte
  where "k_pid_state_report_id = 3"

definition k_pid_block_load_report_id :: byte
  where "k_pid_block_load_report_id = 0x1C"

definition k_pid_pool_report_id :: byte
  where "k_pid_pool_report_id = 0x1D"

definition k_pid_nominal_max :: int
  where "k_pid_nominal_max = 10000"

definition k_pid_max_effects :: nat
  where "k_pid_max_effects = 16"

definition k_pid_ram_pool_size :: u16
  where "k_pid_ram_pool_size = 1024"

definition k_pid_bytes_per_effect :: u16
  where "k_pid_bytes_per_effect = 64"

datatype pid_effect_type = PE_None | PE_Constant_Force | PE_Ramp | PE_Square | PE_Sine
  | PE_Triangle | PE_Sawtooth_Up | PE_Sawtooth_Down | PE_Spring | PE_Damper | PE_Inertia
  | PE_Friction | PE_Custom_Force_Data

definition pid_effect_types :: "pid_effect_type list"
  where "pid_effect_types = [PE_None, PE_Constant_Force, PE_Ramp, PE_Square, PE_Sine,
    PE_Triangle, PE_Sawtooth_Up, PE_Sawtooth_Down, PE_Spring, PE_Damper, PE_Inertia,
    PE_Friction, PE_Custom_Force_Data]"

text \<open>The guard of \<^theory_text>\<open>create_new_effect\<close> and \<^theory_text>\<open>set_effect\<close>
  with the cast behind it: 1 to 12 are effects.\<close>

definition pid_effect_type_of :: "byte \<Rightarrow> pid_effect_type option"
  where "pid_effect_type_of b =
    (if b = 0 \<or> b > 12 then None else Some (pid_effect_types ! unat b))"

record pid_state_report =
  ps_report_id :: byte
  ps_flags :: byte
  ps_playing_and_index :: byte

record pid_set_effect_report =
  se_effect_block_index :: byte
  se_effect_type :: byte
  se_duration_ms :: u16
  se_trigger_repeat_interval_ms :: u16
  se_sample_period_ms :: u16
  se_gain :: byte
  se_trigger_button :: byte
  se_axes_and_direction_enable :: byte
  se_direction_x :: byte
  se_direction_y :: byte
  se_start_delay_ms :: u16

record pid_set_envelope_report =
  sv_effect_block_index :: byte
  sv_attack_level :: u16
  sv_fade_level :: u16
  sv_attack_time_ms :: u16
  sv_fade_time_ms :: u16

record pid_set_condition_report =
  sc_effect_block_index :: byte
  sc_parameter_block_offset :: byte
  sc_cp_offset :: i16
  sc_positive_coefficient :: i16
  sc_negative_coefficient :: i16
  sc_positive_saturation :: u16
  sc_negative_saturation :: u16
  sc_dead_band :: u16

record pid_set_periodic_report =
  sp_effect_block_index :: byte
  sp_magnitude :: u16
  sp_offset :: i16
  sp_phase :: u16
  sp_period_ms :: u16

record pid_set_constant_force_report =
  sf_effect_block_index :: byte
  sf_magnitude :: i16

record pid_set_ramp_force_report =
  sm_effect_block_index :: byte
  sm_ramp_start :: i16
  sm_ramp_end :: i16

record pid_effect_operation_report =
  eo_effect_block_index :: byte
  eo_operation :: byte
  eo_loop_count :: byte

record pid_create_new_effect_report =
  cn_effect_type :: byte
  cn_byte_count :: u16

record pid_block_load_report =
  bl_report_id :: byte
  bl_effect_block_index :: byte
  bl_block_load_status :: byte
  bl_ram_pool_available :: u16

record pid_pool_report =
  pl_report_id :: byte
  pl_ram_pool_size :: u16
  pl_simultaneous_effects_max :: byte
  pl_pool_flags :: byte

text \<open>The packed layouts (\<^theory_text>\<open>#pragma pack(push, 1)\<close>): byte 0 is the report
  id, the fields follow without padding.\<close>

definition u16_at :: "byte list \<Rightarrow> nat \<Rightarrow> u16"
  where "u16_at b i = le16_of (b ! i) (b ! (i + 1))"

definition i16_at :: "byte list \<Rightarrow> nat \<Rightarrow> i16"
  where "i16_at b i = sint (u16_at b i)"

definition parse_set_effect :: "byte list \<Rightarrow> pid_set_effect_report"
  where "parse_set_effect b = \<lparr>se_effect_block_index = b ! 1, se_effect_type = b ! 2,
    se_duration_ms = u16_at b 3, se_trigger_repeat_interval_ms = u16_at b 5,
    se_sample_period_ms = u16_at b 7, se_gain = b ! 9, se_trigger_button = b ! 10,
    se_axes_and_direction_enable = b ! 11, se_direction_x = b ! 12, se_direction_y = b ! 13,
    se_start_delay_ms = u16_at b 14\<rparr>"

definition parse_set_envelope :: "byte list \<Rightarrow> pid_set_envelope_report"
  where "parse_set_envelope b = \<lparr>sv_effect_block_index = b ! 1, sv_attack_level = u16_at b 2,
    sv_fade_level = u16_at b 4, sv_attack_time_ms = u16_at b 6, sv_fade_time_ms = u16_at b 8\<rparr>"

definition parse_set_condition :: "byte list \<Rightarrow> pid_set_condition_report"
  where "parse_set_condition b =
    \<lparr>sc_effect_block_index = b ! 1, sc_parameter_block_offset = b ! 2,
     sc_cp_offset = i16_at b 3, sc_positive_coefficient = i16_at b 5,
     sc_negative_coefficient = i16_at b 7, sc_positive_saturation = u16_at b 9,
     sc_negative_saturation = u16_at b 11, sc_dead_band = u16_at b 13\<rparr>"

definition parse_set_periodic :: "byte list \<Rightarrow> pid_set_periodic_report"
  where "parse_set_periodic b = \<lparr>sp_effect_block_index = b ! 1, sp_magnitude = u16_at b 2,
    sp_offset = i16_at b 4, sp_phase = u16_at b 6, sp_period_ms = u16_at b 8\<rparr>"

definition parse_set_constant_force :: "byte list \<Rightarrow> pid_set_constant_force_report"
  where "parse_set_constant_force b =
    \<lparr>sf_effect_block_index = b ! 1, sf_magnitude = i16_at b 2\<rparr>"

definition parse_set_ramp_force :: "byte list \<Rightarrow> pid_set_ramp_force_report"
  where "parse_set_ramp_force b =
    \<lparr>sm_effect_block_index = b ! 1, sm_ramp_start = i16_at b 2, sm_ramp_end = i16_at b 4\<rparr>"

definition parse_effect_operation :: "byte list \<Rightarrow> pid_effect_operation_report"
  where "parse_effect_operation b =
    \<lparr>eo_effect_block_index = b ! 1, eo_operation = b ! 2, eo_loop_count = b ! 3\<rparr>"

definition parse_create_new_effect :: "byte list \<Rightarrow> pid_create_new_effect_report"
  where "parse_create_new_effect b = \<lparr>cn_effect_type = b ! 1, cn_byte_count = u16_at b 2\<rparr>"

definition block_load_bytes :: "pid_block_load_report \<Rightarrow> byte list"
  where "block_load_bytes r = [bl_report_id r, bl_effect_block_index r, bl_block_load_status r] @
    le16_bytes (bl_ram_pool_available r)"

definition pool_bytes :: "pid_pool_report \<Rightarrow> byte list"
  where "pool_bytes r = pl_report_id r # le16_bytes (pl_ram_pool_size r) @
    [pl_simultaneous_effects_max r, pl_pool_flags r]"

definition pid_state_bytes :: "pid_state_report \<Rightarrow> byte list"
  where "pid_state_bytes r = [ps_report_id r, ps_flags r, ps_playing_and_index r]"

section \<open>State\<close>

record pid_effect =
  allocated :: bool
  playing :: bool
  effect_type :: pid_effect_type
  duration_ms :: u16
  start_delay_ms :: u16
  gain :: byte
  loop_count :: byte
  constant_magnitude :: i16
  periodic_magnitude :: u16
  ramp_start :: i16
  ramp_end :: i16
  envelope_attack_level :: u16
  envelope_fade_level :: u16
  envelope_attack_ms :: u16
  envelope_fade_ms :: u16
  elapsed_ms :: u32

definition blank_effect :: pid_effect
  where "blank_effect = \<lparr>allocated = False, playing = False, effect_type = PE_None,
    duration_ms = 0, start_delay_ms = 0, gain = 0, loop_count = 0, constant_magnitude = 0,
    periodic_magnitude = 0, ramp_start = 0, ramp_end = 0, envelope_attack_level = 0,
    envelope_fade_level = 0, envelope_attack_ms = 0, envelope_fade_ms = 0, elapsed_ms = 0\<rparr>"

record pid_engine =
  effects :: "pid_effect list"
  last_allocated :: byte
  last_load_status :: byte
  device_gain :: byte
  actuators_enabled :: bool
  paused :: bool

record pid_rumble =
  low_frequency :: u16
  high_frequency :: u16

section \<open>Operations\<close>

definition clamp_magnitude :: "int \<Rightarrow> int"
  where "clamp_magnitude v = (if v < 0 then 0 else if v > k_pid_nominal_max then k_pid_nominal_max else v)"

definition to_rumble :: "int \<Rightarrow> u16"
  where "to_rumble magnitude =
    u16_of_int ((clamp_magnitude magnitude * 65535) sdiv k_pid_nominal_max)"

text \<open>\<^theory_text>\<open>static_cast<std::int32_t>\<close> of a 64-bit value.\<close>

definition to_i32 :: "int \<Rightarrow> int"
  where "to_i32 v = sint (word_of_int v :: u32)"

definition apply_envelope :: "pid_effect \<Rightarrow> u32 \<Rightarrow> int \<Rightarrow> int"
  where "apply_envelope eff active_ms magnitude =
    (let attack = uint (envelope_attack_ms eff); active = uint active_ms;
         result = (if envelope_attack_ms eff \<noteq> 0 \<and> active < attack then
             let start = uint (envelope_attack_level eff); span = magnitude - start
             in start + to_i32 ((span * active) sdiv attack)
           else magnitude);
         duration = uint (duration_ms eff); fade = uint (envelope_fade_ms eff);
         result = (if duration_ms eff \<noteq> 0 \<and> envelope_fade_ms eff \<noteq> 0 then
             let fade_start = (if duration > fade then duration - fade else 0)
             in if active \<ge> fade_start then
                  let into_fade = active - fade_start; fade_span = duration - fade_start
                  in if fade_span \<noteq> 0 then
                       let end = uint (envelope_fade_level eff); span = end - magnitude;
                           faded = magnitude + to_i32 ((span * into_fade) sdiv fade_span)
                       in if result < faded then result else faded
                     else result
                else result
           else result)
     in clamp_magnitude result)"

text \<open>\<^theory_text>\<open>effect(block_index)\<close> returns the index of the block the pointer
  designates, \<^const>\<open>None\<close> for \<^theory_text>\<open>nullptr\<close>.\<close>

definition effect_at :: "byte \<Rightarrow> nat option"
  where "effect_at block_index =
    (if block_index = 0 \<or> unat block_index > k_pid_max_effects then None
     else Some (unat block_index - 1))"

definition pid_reset :: "pid_engine \<Rightarrow> pid_engine"
  where "pid_reset e = \<lparr>effects = map (\<lambda>_. blank_effect) (effects e), last_allocated = 0,
    last_load_status = 1, device_gain = 255, actuators_enabled = True, paused = False\<rparr>"

definition stop_all :: "pid_engine \<Rightarrow> pid_engine"
  where "stop_all e = e\<lparr>effects :=
    map (\<lambda>s. s\<lparr>playing := False, elapsed_ms := 0\<rparr>) (effects e)\<rparr>"

definition create_new_effect :: "pid_create_new_effect_report \<Rightarrow> pid_engine \<Rightarrow> bool \<times> pid_engine"
  where "create_new_effect request e =
    (case pid_effect_type_of (cn_effect_type request) of
       None \<Rightarrow> (False, e\<lparr>last_load_status := 3\<rparr>)
     | Some t \<Rightarrow>
        (case List.find (\<lambda>i. \<not> allocated (effects e ! i)) [0..<k_pid_max_effects] of
           None \<Rightarrow> (False, e\<lparr>last_load_status := 2\<rparr>)
         | Some i \<Rightarrow> (True, e\<lparr>effects := (effects e)[i :=
                blank_effect\<lparr>allocated := True, effect_type := t, gain := 255\<rparr>],
              last_allocated := of_nat (i + 1), last_load_status := 1\<rparr>)))"

definition block_load :: "pid_engine \<Rightarrow> pid_block_load_report"
  where "block_load e =
    (let used = foldl (\<lambda>u s. if allocated s then u + k_pid_bytes_per_effect else u) 0 (effects e)
     in \<lparr>bl_report_id = k_pid_block_load_report_id, bl_effect_block_index = last_allocated e,
         bl_block_load_status = last_load_status e,
         bl_ram_pool_available = k_pid_ram_pool_size - used\<rparr>)"

definition pool :: "pid_engine \<Rightarrow> pid_pool_report"
  where "pool e = \<lparr>pl_report_id = k_pid_pool_report_id, pl_ram_pool_size = k_pid_ram_pool_size,
    pl_simultaneous_effects_max = of_nat k_pid_max_effects, pl_pool_flags = 0x01\<rparr>"

definition pid_state :: "pid_engine \<Rightarrow> pid_state_report"
  where "pid_state e = \<lparr>ps_report_id = k_pid_state_report_id,
    ps_flags = (if paused e then 0x01 else 0) OR (if actuators_enabled e then 0x02 else 0) OR 0x10,
    ps_playing_and_index =
      (case List.find (\<lambda>i. playing (effects e ! i)) [0..<k_pid_max_effects] of
         None \<Rightarrow> 0 | Some i \<Rightarrow> 0x01 OR push_bit 1 (of_nat (i + 1)))\<rparr>"

text \<open>The frame every block handler shares: an unknown or unallocated block is
  rejected and nothing changes.\<close>

definition on_block :: "byte \<Rightarrow> (pid_effect \<Rightarrow> pid_effect) \<Rightarrow> pid_engine \<Rightarrow> bool \<times> pid_engine"
  where "on_block block_index f e =
    (case effect_at block_index of
       None \<Rightarrow> (False, e)
     | Some i \<Rightarrow> if \<not> allocated (effects e ! i) then (False, e)
         else (True, e\<lparr>effects := (effects e)[i := f (effects e ! i)]\<rparr>))"

definition set_effect :: "pid_set_effect_report \<Rightarrow> pid_engine \<Rightarrow> bool \<times> pid_engine"
  where "set_effect r = on_block (se_effect_block_index r) (\<lambda>s.
    s\<lparr>effect_type := (case pid_effect_type_of (se_effect_type r) of
          Some t \<Rightarrow> t | None \<Rightarrow> effect_type s),
      duration_ms := se_duration_ms r, start_delay_ms := se_start_delay_ms r, gain := se_gain r\<rparr>)"

definition set_envelope :: "pid_set_envelope_report \<Rightarrow> pid_engine \<Rightarrow> bool \<times> pid_engine"
  where "set_envelope r = on_block (sv_effect_block_index r) (\<lambda>s.
    s\<lparr>envelope_attack_level := sv_attack_level r, envelope_fade_level := sv_fade_level r,
      envelope_attack_ms := sv_attack_time_ms r, envelope_fade_ms := sv_fade_time_ms r\<rparr>)"

definition set_condition :: "pid_set_condition_report \<Rightarrow> pid_engine \<Rightarrow> bool \<times> pid_engine"
  where "set_condition r = on_block (sc_effect_block_index r) (\<lambda>s. s)"

definition set_periodic :: "pid_set_periodic_report \<Rightarrow> pid_engine \<Rightarrow> bool \<times> pid_engine"
  where "set_periodic r = on_block (sp_effect_block_index r)
    (\<lambda>s. s\<lparr>periodic_magnitude := sp_magnitude r\<rparr>)"

definition set_constant_force :: "pid_set_constant_force_report \<Rightarrow> pid_engine \<Rightarrow> bool \<times> pid_engine"
  where "set_constant_force r = on_block (sf_effect_block_index r)
    (\<lambda>s. s\<lparr>constant_magnitude := sf_magnitude r\<rparr>)"

definition set_ramp_force :: "pid_set_ramp_force_report \<Rightarrow> pid_engine \<Rightarrow> bool \<times> pid_engine"
  where "set_ramp_force r = on_block (sm_effect_block_index r)
    (\<lambda>s. s\<lparr>ramp_start := sm_ramp_start r, ramp_end := sm_ramp_end r\<rparr>)"

definition effect_operation :: "pid_effect_operation_report \<Rightarrow> pid_engine \<Rightarrow> bool \<times> pid_engine"
  where "effect_operation r e =
    (case effect_at (eo_effect_block_index r) of
       None \<Rightarrow> (False, e)
     | Some i \<Rightarrow>
        if \<not> allocated (effects e ! i) then (False, e)
        else let start = (\<lambda>e. (True, e\<lparr>effects := (effects e)[i := (effects e ! i)
                  \<lparr>playing := True, elapsed_ms := 0, loop_count := eo_loop_count r\<rparr>]\<rparr>))
          in if eo_operation r = 2 then start (stop_all e)
             else if eo_operation r = 1 then start e
             else if eo_operation r = 3 then
               (True, e\<lparr>effects := (effects e)[i :=
                 (effects e ! i)\<lparr>playing := False, elapsed_ms := 0\<rparr>]\<rparr>)
             else (False, e))"

definition block_free :: "byte \<Rightarrow> pid_engine \<Rightarrow> bool \<times> pid_engine"
  where "block_free block_index = on_block block_index (\<lambda>_. blank_effect)"

definition device_control :: "byte \<Rightarrow> pid_engine \<Rightarrow> bool \<times> pid_engine"
  where "device_control control e =
    (if control = 1 then (True, e\<lparr>actuators_enabled := True\<rparr>)
     else if control = 2 then (True, e\<lparr>actuators_enabled := False\<rparr>)
     else if control = 3 then (True, stop_all e)
     else if control = 4 then (True, pid_reset e)
     else if control = 5 then (True, e\<lparr>paused := True\<rparr>)
     else if control = 6 then (True, e\<lparr>paused := False\<rparr>)
     else (False, e))"

definition set_device_gain :: "byte \<Rightarrow> pid_engine \<Rightarrow> bool \<times> pid_engine"
  where "set_device_gain g e = (True, e\<lparr>device_gain := g\<rparr>)"

definition advance_effect :: "u32 \<Rightarrow> pid_effect \<Rightarrow> pid_effect"
  where "advance_effect dt s =
    (if \<not> allocated s \<or> \<not> playing s then s
     else
       let s = s\<lparr>elapsed_ms := elapsed_ms s + dt\<rparr>
       in if duration_ms s = 0 then s
          else
            let total = ucast (start_delay_ms s) + ucast (duration_ms s)
            in if elapsed_ms s < total then s
               else if loop_count s = 0xFF then s\<lparr>elapsed_ms := ucast (start_delay_ms s)\<rparr>
               else if loop_count s > 1 then
                 s\<lparr>loop_count := loop_count s - 1, elapsed_ms := ucast (start_delay_ms s)\<rparr>
               else s\<lparr>playing := False, elapsed_ms := 0\<rparr>)"

definition pid_advance :: "u32 \<Rightarrow> pid_engine \<Rightarrow> pid_engine"
  where "pid_advance dt e =
    (if paused e then e else e\<lparr>effects := map (advance_effect dt) (effects e)\<rparr>)"

definition needs_tick :: "pid_engine \<Rightarrow> bool"
  where "needs_tick e \<longleftrightarrow> list_ex (\<lambda>s. allocated s \<and> playing s) (effects e)"

text \<open>The contribution of one block: \<^const>\<open>None\<close> where the loop continues,
  otherwise whether it is periodic and its magnitude.\<close>

definition effect_magnitude :: "pid_effect \<Rightarrow> u32 \<Rightarrow> (bool \<times> int) option"
  where "effect_magnitude s active_ms =
    (case effect_type s of
       PE_Constant_Force \<Rightarrow> Some (False, \<bar>constant_magnitude s\<bar>)
     | PE_Ramp \<Rightarrow>
         let v = (if duration_ms s \<noteq> 0 then
               let span = uint (duration_ms s);
                   position = (if uint active_ms > span then span else uint active_ms);
                   delta = ramp_end s - ramp_start s
               in ramp_start s + to_i32 ((delta * position) sdiv span)
             else ramp_start s)
         in Some (False, \<bar>v\<bar>)
     | t \<Rightarrow> if t \<in> {PE_Square, PE_Sine, PE_Triangle, PE_Sawtooth_Up, PE_Sawtooth_Down}
         then Some (True, uint (periodic_magnitude s)) else None)"

definition effect_rumble :: "byte \<Rightarrow> pid_effect \<Rightarrow> (bool \<times> int) option"
  where "effect_rumble dev_gain s =
    (if \<not> allocated s \<or> \<not> playing s \<or> elapsed_ms s < ucast (start_delay_ms s) then None
     else
       let active_ms = elapsed_ms s - ucast (start_delay_ms s)
       in map_option (\<lambda>(periodic, magnitude).
            let magnitude = apply_envelope s active_ms magnitude;
                magnitude = (magnitude * uint (gain s)) sdiv 255;
                magnitude = (magnitude * uint dev_gain) sdiv 255
            in (periodic, clamp_magnitude magnitude))
          (effect_magnitude s active_ms))"

definition rumble_step :: "byte \<Rightarrow> int \<times> int \<Rightarrow> pid_effect \<Rightarrow> int \<times> int"
  where "rumble_step dev_gain lh s =
    (case effect_rumble dev_gain s of
       None \<Rightarrow> lh
     | Some (periodic, magnitude) \<Rightarrow>
         if periodic then (fst lh, if snd lh > magnitude then snd lh else magnitude)
         else (if fst lh > magnitude then fst lh else magnitude, snd lh))"

definition rumble :: "pid_engine \<Rightarrow> pid_rumble"
  where "rumble e =
    (if \<not> actuators_enabled e \<or> paused e then \<lparr>low_frequency = 0, high_frequency = 0\<rparr>
     else let (low, high) = foldl (rumble_step (device_gain e)) (0, 0) (effects e)
          in \<lparr>low_frequency = to_rumble low, high_frequency = to_rumble high\<rparr>)"

section \<open>Finite effects end\<close>

definition effect_live :: "pid_effect \<Rightarrow> bool"
  where "effect_live s \<longleftrightarrow> allocated s \<and> playing s"

definition effect_finite :: "pid_effect \<Rightarrow> bool"
  where "effect_finite s \<longleftrightarrow>
    (effect_live s \<longrightarrow> duration_ms s \<noteq> 0 \<and> loop_count s \<noteq> 0xFF \<and> unat (elapsed_ms s) < 2147483648)"

text \<open>Clock ticks after which the effect has certainly stopped: one per
  millisecond left of this play and of every further one.\<close>

definition effect_budget :: "pid_effect \<Rightarrow> nat"
  where "effect_budget s =
    (if effect_live s then
       (unat (loop_count s) - 1) * unat (duration_ms s) +
       max 1 (unat (start_delay_ms s) + unat (duration_ms s) - unat (elapsed_ms s))
     else 0)"

lemma total_unat: "unat (ucast (d :: u16) + ucast (w :: u16) :: u32) = unat d + unat w"
  using unat_u16_bound [of d] unat_u16_bound [of w] by (subst unat_add_u32) simp_all

lemma loop_count_pred:
  fixes b :: byte
  assumes "b > 1"
  shows "unat (b - 1) = unat b - 1"
proof -
  have "b \<noteq> 0" using assms by auto
  then show ?thesis by (metis unat_minus_one)
qed

lemma effect_live_bounds:
  assumes "effect_live s" "effect_finite s" "1 \<le> unat dt" "unat dt < 2147483648"
  shows "unat (elapsed_ms s + dt) = unat (elapsed_ms s) + unat dt" "0 < unat (duration_ms s)"
  using assms unat_add_u32 [of "elapsed_ms s" dt]
  by (auto simp: effect_finite_def unat_gt_0)

lemma advance_effect_budget:
  assumes "effect_finite s" "1 \<le> unat dt" "unat dt < 2147483648"
  shows "effect_finite (advance_effect dt s) \<and>
    effect_budget (advance_effect dt s) \<le> effect_budget s - 1"
proof (cases "effect_live s")
  case False
  then have "advance_effect dt s = s" by (simp add: advance_effect_def effect_live_def)
  then show ?thesis using assms False by (simp add: effect_budget_def)
next
  case True
  note b = effect_live_bounds [OF True assms]
  let ?total = "ucast (start_delay_ms s) + ucast (duration_ms s) :: u32"
  let ?d = "unat (start_delay_ms s)" and ?w = "unat (duration_ms s)" and ?e = "unat (elapsed_ms s)"
  have t: "unat ?total = ?d + ?w" by (rule total_unat)
  have d: "duration_ms s \<noteq> 0" "loop_count s \<noteq> 0xFF" "?e < 2147483648" "allocated s" "playing s"
    using True assms(1) by (auto simp: effect_finite_def effect_live_def)
  have small: "?d < 65536" "?w < 65536" by (rule unat_u16_bound)+
  have budget: "effect_budget s = (unat (loop_count s) - 1) * ?w + max 1 (?d + ?w - ?e)"
    using True by (simp add: effect_budget_def)
  consider (run) "elapsed_ms s + dt < ?total"
    | (again) "\<not> elapsed_ms s + dt < ?total" "loop_count s > 1"
    | (stop) "\<not> elapsed_ms s + dt < ?total" "\<not> loop_count s > 1" by blast
  then show ?thesis
  proof cases
    case run
    then have lt: "?e + unat dt < ?d + ?w" using b(1) t by (simp add: word_less_nat_alt)
    have adv: "advance_effect dt s = s\<lparr>elapsed_ms := elapsed_ms s + dt\<rparr>"
      using d run by (simp add: advance_effect_def Let_def)
    have "max 1 (?d + ?w - (?e + unat dt)) \<le> max 1 (?d + ?w - ?e) - 1"
      using lt assms(2) by linarith
    then have "p + max 1 (?d + ?w - (?e + unat dt)) \<le> p + max 1 (?d + ?w - ?e) - 1" for p
      by linarith
    moreover have "effect_budget (advance_effect dt s) =
        (unat (loop_count s) - 1) * ?w + max 1 (?d + ?w - (?e + unat dt))"
      using d by (simp add: adv effect_live_def effect_budget_def b(1))
    ultimately have "effect_budget (advance_effect dt s) \<le> effect_budget s - 1"
      by (simp only: budget)
    moreover have "?e + unat dt < 2147483648" using lt small by linarith
    ultimately show ?thesis using d by (simp add: adv effect_finite_def effect_live_def b(1))
  next
    case again
    then have l: "unat (loop_count s) > 1" by (simp add: word_less_nat_alt)
    have l': "unat (loop_count s - 1) = unat (loop_count s) - 1"
      by (rule loop_count_pred) (rule again(2))
    have nf: "loop_count s - 1 \<noteq> 0xFF"
    proof
      assume "loop_count s - 1 = 0xFF"
      then have "unat (loop_count s - 1) = 255" by simp
      then show False using l l' unat_byte_bound [of "loop_count s"] by linarith
    qed
    have adv: "advance_effect dt s =
        s\<lparr>elapsed_ms := ucast (start_delay_ms s), loop_count := loop_count s - 1\<rparr>"
      using d again by (simp add: advance_effect_def Let_def)
    obtain k where k: "unat (loop_count s) = Suc (Suc k)"
      using l less_imp_Suc_add [of 1 "unat (loop_count s)"] by auto
    have "effect_budget (advance_effect dt s) = k * ?w + max 1 ?w"
      using d by (simp add: adv effect_budget_def effect_live_def l' k)
    moreover have "effect_budget s = Suc k * ?w + max 1 (?d + ?w - ?e)"
      by (simp add: budget k)
    moreover have "effect_finite (advance_effect dt s)"
      using d nf small by (simp add: adv effect_finite_def effect_live_def)
    moreover have "k * ?w + max 1 ?w \<le> Suc k * ?w + max 1 (?d + ?w - ?e) - 1"
    proof -
      have "max 1 ?w = ?w" using b(2) by linarith
      then show ?thesis unfolding mult_Suc by linarith
    qed
    ultimately show ?thesis by (simp only: simp_thms)
  next
    case stop
    have "advance_effect dt s = s\<lparr>elapsed_ms := 0, playing := False\<rparr>"
      using d stop by (simp add: advance_effect_def Let_def)
    then show ?thesis by (simp add: effect_finite_def effect_live_def effect_budget_def)
  qed
qed

lemma budget_0: "effect_budget s = 0 \<longleftrightarrow> \<not> effect_live s"
  by (simp add: effect_budget_def)

lemma advance_running: "\<not> paused e \<Longrightarrow> \<not> paused (pid_advance dt e) \<and>
    effects (pid_advance dt e) = map (advance_effect dt) (effects e)"
  by (simp add: pid_advance_def)

lemma advance_many:
  assumes "\<not> paused e" "1 \<le> unat dt" "unat dt < 2147483648"
    "\<forall>s \<in> set (effects e). effect_finite s \<and> effect_budget s \<le> n"
  shows "\<not> paused ((pid_advance dt ^^ n) e) \<and>
    (\<forall>s \<in> set (effects ((pid_advance dt ^^ n) e)). \<not> effect_live s)"
  using assms(1,4)
proof (induction n arbitrary: e)
  case 0
  then show ?case by (simp add: budget_0)
next
  case (Suc n)
  have "\<forall>s \<in> set (effects (pid_advance dt e)). effect_finite s \<and> effect_budget s \<le> n"
    using Suc.prems advance_effect_budget [OF _ assms(2,3)]
    by (fastforce simp: advance_running)
  from Suc.IH [OF _ this] Suc.prems(1) show ?case
    by (simp add: advance_running funpow_Suc_right del: funpow.simps)
qed

section \<open>Magnitudes\<close>

lemma clamp_magnitude_range: "0 \<le> clamp_magnitude v \<and> clamp_magnitude v \<le> 10000"
  by (simp add: clamp_magnitude_def k_pid_nominal_max_def)

lemma apply_envelope_range: "0 \<le> apply_envelope s a m \<and> apply_envelope s a m \<le> 10000"
  unfolding apply_envelope_def Let_def by (rule clamp_magnitude_range)

lemma sdiv_nonneg: "0 \<le> a \<Longrightarrow> 0 < b \<Longrightarrow> a sdiv b = a div (b :: int)"
  by (cases "a = 0") (simp_all add: signed_divide_int_def)

text \<open>A magnitude scaled by a gain byte never exceeds its share.\<close>

lemma gain_bound:
  assumes "0 \<le> m" "m \<le> 10000" "0 \<le> g" "g \<le> 255"
  shows "0 \<le> (m * g) sdiv 255 \<and> (m * g) sdiv 255 \<le> (10000 * g) div 255 \<and>
    (m * g) sdiv 255 \<le> (10000 :: int)"
proof -
  have "m * g \<le> 10000 * g" using assms by (simp add: mult_right_mono)
  then have "(m * g) div 255 \<le> (10000 * g) div 255" by (rule zdiv_mono1) simp
  moreover have "(10000 * g) div 255 \<le> (10000 * 255) div 255"
    using assms by (intro zdiv_mono1) auto
  moreover have "0 \<le> (m * g) div 255" using assms by (simp add: pos_imp_zdiv_nonneg_iff)
  ultimately show ?thesis using assms by (simp add: sdiv_nonneg)
qed

lemma effect_rumble_bound:
  assumes "effect_rumble g s = Some (periodic, m)"
  shows "0 \<le> m \<and> m \<le> (10000 * uint g) div 255"
proof -
  from assms obtain a v where m: "m = clamp_magnitude
      ((((apply_envelope s a v) * uint (gain s)) sdiv 255 * uint g) sdiv 255)"
    by (auto simp: effect_rumble_def Let_def split: if_splits)
  let ?x = "((apply_envelope s a v) * uint (gain s)) sdiv 255"
  have x: "0 \<le> ?x \<and> ?x \<le> 10000"
    using gain_bound [of "apply_envelope s a v" "uint (gain s)"] apply_envelope_range [of s a v]
      uint_byte_bound [of "gain s"] by simp
  then have "0 \<le> (?x * uint g) sdiv 255 \<and> (?x * uint g) sdiv 255 \<le> (10000 * uint g) div 255"
    using gain_bound [of ?x "uint g"] uint_byte_bound [of g] by simp
  with m show ?thesis by (auto simp: clamp_magnitude_def k_pid_nominal_max_def)
qed

lemma rumble_fold_bound:
  assumes "0 \<le> l \<and> l \<le> (10000 * uint g) div 255" "0 \<le> h \<and> h \<le> (10000 * uint g) div 255"
  shows "0 \<le> fst (foldl (rumble_step g) (l, h) ss) \<and>
    fst (foldl (rumble_step g) (l, h) ss) \<le> (10000 * uint g) div 255 \<and>
    0 \<le> snd (foldl (rumble_step g) (l, h) ss) \<and>
    snd (foldl (rumble_step g) (l, h) ss) \<le> (10000 * uint g) div 255"
  using assms
proof (induction ss arbitrary: l h)
  case (Cons s ss)
  show ?case
  proof (cases "effect_rumble g s")
    case None
    with Cons show ?thesis by (simp add: rumble_step_def)
  next
    case (Some r)
    obtain p m where r: "r = (p, m)" by (cases r)
    from effect_rumble_bound [of g s p m] Some r Cons show ?thesis
      by (simp add: rumble_step_def)
  qed
qed simp

lemma to_rumble_uint:
  "0 \<le> m \<Longrightarrow> m \<le> 10000 \<Longrightarrow> uint (to_rumble m) = m * 65535 div 10000"
proof -
  assume m: "0 \<le> m" "m \<le> 10000"
  have "m * 65535 div 10000 \<le> 65535" using m by linarith
  with m show ?thesis
    by (simp add: to_rumble_def clamp_magnitude_def k_pid_nominal_max_def sdiv_nonneg u16_of_int_def
        uint_word_of_int)
qed

lemma rumble_fold_idle:
  "\<forall>s \<in> set ss. \<not> effect_live s \<Longrightarrow> foldl (rumble_step g) lh ss = lh"
  by (induction ss) (auto simp: rumble_step_def effect_rumble_def effect_live_def)

lemma to_rumble_0 [simp]: "to_rumble 0 = 0"
  by (simp add: to_rumble_def clamp_magnitude_def k_pid_nominal_max_def u16_of_int_def)

section \<open>Report dispatch\<close>

text \<open>\<^theory_text>\<open>read_pid_report\<close> for a report of \<open>sz\<close> bytes:
  the bytes, when the buffer holds the report it is tagged with.\<close>

definition read_pid_report :: "nat \<Rightarrow> hid_transfer \<Rightarrow> byte list option"
  where "read_pid_report sz transfer =
    (case xf_buffer transfer of
       None \<Rightarrow> None
     | Some b \<Rightarrow> if length b < sz then None
         else if b ! 0 = xf_report_id transfer then Some (take sz b) else None)"

definition pid_output_handler ::
  "byte \<Rightarrow> (nat \<times> (byte list \<Rightarrow> pid_engine \<Rightarrow> bool \<times> pid_engine)) option"
  where "pid_output_handler report_id =
    (if report_id = 0x11 then Some (16, set_effect \<circ> parse_set_effect)
     else if report_id = 0x12 then Some (10, set_envelope \<circ> parse_set_envelope)
     else if report_id = 0x13 then Some (15, set_condition \<circ> parse_set_condition)
     else if report_id = 0x14 then Some (10, set_periodic \<circ> parse_set_periodic)
     else if report_id = 0x15 then Some (4, set_constant_force \<circ> parse_set_constant_force)
     else if report_id = 0x16 then Some (6, set_ramp_force \<circ> parse_set_ramp_force)
     else if report_id = 0x17 then Some (4, effect_operation \<circ> parse_effect_operation)
     else if report_id = 0x18 then Some (2, \<lambda>b. block_free (b ! 1))
     else if report_id = 0x19 then Some (2, \<lambda>b. device_control (b ! 1))
     else if report_id = 0x1A then Some (2, \<lambda>b. set_device_gain (b ! 1))
     else None)"

definition apply_pid_output :: "hid_transfer \<Rightarrow> pid_engine \<Rightarrow> ntstatus \<times> pid_engine"
  where "apply_pid_output transfer e =
    (case pid_output_handler (xf_report_id transfer) of
       None \<Rightarrow> (Status_Invalid_Device_Request, e)
     | Some (sz, handler) \<Rightarrow>
        (case read_pid_report sz transfer of
           None \<Rightarrow> (Status_Invalid_Parameter, e)
         | Some b \<Rightarrow>
            let (handled, e) = handler b e
            in (if handled then Status_Success else Status_Invalid_Parameter, e)))"

section \<open>Frame of the handlers\<close>

definition pid_shape :: "pid_engine \<Rightarrow> bool"
  where "pid_shape e \<longleftrightarrow> length (effects e) = k_pid_max_effects"

text \<open>What a handler did: nothing when it refused, otherwise at most the block
  of that index.\<close>

definition block_frame :: "nat option \<Rightarrow> pid_engine \<Rightarrow> bool \<times> pid_engine \<Rightarrow> bool"
  where "block_frame target e r \<longleftrightarrow>
    (if fst r then
       \<exists>i. target = Some i \<and> i < length (effects e) \<and> allocated (effects e ! i) \<and>
         (\<exists>s. snd r = e\<lparr>effects := (effects e)[i := s]\<rparr>)
     else snd r = e)"

lemma effect_at_range: "effect_at b = Some i \<Longrightarrow> i < k_pid_max_effects"
  by (auto simp: effect_at_def unat_gt_0 split: if_splits)
     (metis One_nat_def Suc_pred le_eq_less_or_eq less_SucI not_less_eq unat_gt_0)

lemma on_block_frame: "pid_shape e \<Longrightarrow> block_frame (effect_at b) e (on_block b f e)"
  using effect_at_range [of b]
  by (auto simp: on_block_def block_frame_def pid_shape_def split: option.split)

lemmas block_handlers = set_effect_def set_envelope_def set_condition_def set_periodic_def
  set_constant_force_def set_ramp_force_def block_free_def

lemma set_effect_frame: "pid_shape e \<Longrightarrow> block_frame (effect_at (se_effect_block_index r)) e (set_effect r e)"
  and set_envelope_frame:
    "pid_shape e \<Longrightarrow> block_frame (effect_at (sv_effect_block_index v)) e (set_envelope v e)"
  and set_condition_frame:
    "pid_shape e \<Longrightarrow> block_frame (effect_at (sc_effect_block_index c)) e (set_condition c e)"
  and set_periodic_frame:
    "pid_shape e \<Longrightarrow> block_frame (effect_at (sp_effect_block_index p)) e (set_periodic p e)"
  and set_constant_force_frame:
    "pid_shape e \<Longrightarrow> block_frame (effect_at (sf_effect_block_index f)) e (set_constant_force f e)"
  and set_ramp_force_frame:
    "pid_shape e \<Longrightarrow> block_frame (effect_at (sm_effect_block_index m)) e (set_ramp_force m e)"
  and block_free_frame: "pid_shape e \<Longrightarrow> block_frame (effect_at b) e (block_free b e)"
  by (simp_all add: block_handlers on_block_frame)

lemmas block_frames = set_effect_frame set_envelope_frame set_condition_frame set_periodic_frame
  set_constant_force_frame set_ramp_force_frame block_free_frame

text \<open>The same on the bytes of a report.\<close>

lemma parsed_frames:
  assumes "pid_shape e" "1 < n"
  shows "block_frame (effect_at (b ! 1)) e (set_effect (parse_set_effect (take n b)) e)"
    and "block_frame (effect_at (b ! 1)) e (set_envelope (parse_set_envelope (take n b)) e)"
    and "block_frame (effect_at (b ! 1)) e (set_condition (parse_set_condition (take n b)) e)"
    and "block_frame (effect_at (b ! 1)) e (set_periodic (parse_set_periodic (take n b)) e)"
    and "block_frame (effect_at (b ! 1)) e (set_constant_force (parse_set_constant_force (take n b)) e)"
    and "block_frame (effect_at (b ! 1)) e (set_ramp_force (parse_set_ramp_force (take n b)) e)"
    and "block_frame (effect_at (b ! 1)) e (block_free (take n b ! 1) e)"
  using block_frames(1) [OF assms(1), of "parse_set_effect (take n b)"]
    block_frames(2) [OF assms(1), of "parse_set_envelope (take n b)"]
    block_frames(3) [OF assms(1), of "parse_set_condition (take n b)"]
    block_frames(4) [OF assms(1), of "parse_set_periodic (take n b)"]
    block_frames(5) [OF assms(1), of "parse_set_constant_force (take n b)"]
    block_frames(6) [OF assms(1), of "parse_set_ramp_force (take n b)"]
    block_frames(7) [OF assms(1), of "b ! 1"] assms(2)
  by (simp_all add: parse_set_effect_def parse_set_envelope_def parse_set_condition_def
      parse_set_periodic_def parse_set_constant_force_def parse_set_ramp_force_def)

lemma effect_operation_refused: "\<not> fst (effect_operation r e) \<Longrightarrow> snd (effect_operation r e) = e"
  by (auto simp: effect_operation_def Let_def split: option.splits)

lemma device_control_refused: "\<not> fst (device_control c e) \<Longrightarrow> snd (device_control c e) = e"
  by (auto simp: device_control_def)

lemma effect_operation_frame:
  "pid_shape e \<Longrightarrow> eo_operation r \<noteq> 2 \<Longrightarrow>
    block_frame (effect_at (eo_effect_block_index r)) e (effect_operation r e)"
  using effect_at_range [of "eo_effect_block_index r"]
  by (auto simp: effect_operation_def block_frame_def pid_shape_def Let_def split: option.split)

lemma parsed_operation_frame:
  assumes "pid_shape e" "2 < n" "b ! 2 \<noteq> 2"
  shows "block_frame (effect_at (b ! 1)) e (effect_operation (parse_effect_operation (take n b)) e)"
  using effect_operation_frame [OF assms(1), of "parse_effect_operation (take n b)"] assms(2,3)
  by (simp add: parse_effect_operation_def)

lemma block_frame_shape: "block_frame t e r \<Longrightarrow> pid_shape e \<Longrightarrow> pid_shape (snd r)"
  by (auto simp: block_frame_def pid_shape_def split: if_splits)

section \<open>Allocation\<close>

definition free_blocks :: "pid_engine \<Rightarrow> nat"
  where "free_blocks e = length (filter (\<lambda>s. \<not> allocated s) (effects e))"

lemma used_fold:
  "foldl (\<lambda>u s. if allocated s then u + k_pid_bytes_per_effect else u) a ss =
    a + of_nat (64 * length (filter allocated ss))"
  by (induction ss arbitrary: a) (simp_all add: k_pid_bytes_per_effect_def algebra_simps)

lemma block_load_available:
  assumes "pid_shape e"
  shows "unat (bl_ram_pool_available (block_load e)) = 64 * free_blocks e"
proof -
  have sum: "length (filter allocated (effects e)) + free_blocks e = 16"
    using assms sum_length_filter_compl [of allocated "effects e"]
    by (simp add: free_blocks_def pid_shape_def k_pid_max_effects_def)
  then have "bl_ram_pool_available (block_load e) = of_nat (64 * free_blocks e)"
  proof -
    let ?a = "length (filter allocated (effects e))"
    have "of_nat (64 * ?a) + of_nat (64 * free_blocks e) = (of_nat (64 * (?a + free_blocks e)) :: u16)"
      by (simp add: algebra_simps)
    with sum show ?thesis
      by (simp add: block_load_def used_fold k_pid_ram_pool_size_def algebra_simps)
  qed
  moreover have "64 * free_blocks e < 65536" using sum by simp
  ultimately show ?thesis by (simp only: unat_of_nat_u16)
qed

lemma free_blocks_0: "pid_shape e \<Longrightarrow>
    List.find (\<lambda>i. \<not> allocated (effects e ! i)) [0..<k_pid_max_effects] = None \<longleftrightarrow> free_blocks e = 0"
  by (simp add: find_None_iff free_blocks_def pid_shape_def filter_empty_conv all_set_conv_all_nth)

lemma free_blocks_update:
  "i < length (effects e) \<Longrightarrow> \<not> allocated (effects e ! i) \<Longrightarrow> allocated s \<Longrightarrow>
    free_blocks (e\<lparr>effects := (effects e)[i := s]\<rparr>) = free_blocks e - 1"
  by (simp add: free_blocks_def filter_update_drops)

lemma create_new_effect_success:
  assumes "pid_shape e" "fst (create_new_effect r e)"
  obtains i t where "i < k_pid_max_effects" "\<not> allocated (effects e ! i)"
    "pid_effect_type_of (cn_effect_type r) = Some t"
    "snd (create_new_effect r e) = e\<lparr>effects := (effects e)[i :=
        blank_effect\<lparr>allocated := True, effect_type := t, gain := 255\<rparr>],
      last_allocated := of_nat (i + 1), last_load_status := 1\<rparr>"
  using assms that
  by (fastforce simp: create_new_effect_def find_Some_iff split: option.splits)

lemma create_new_effect_failure:
  "\<not> fst (create_new_effect r e) \<Longrightarrow> effects (snd (create_new_effect r e)) = effects e"
  by (auto simp: create_new_effect_def split: option.splits)

lemma effect_at_of_index: "i < k_pid_max_effects \<Longrightarrow> effect_at (of_nat (i + 1)) = Some i"
proof -
  assume i: "i < k_pid_max_effects"
  then have "unat (of_nat (i + 1) :: byte) = i + 1"
    by (intro unat_of_nat_byte) (simp add: k_pid_max_effects_def)
  moreover from this have "(of_nat (i + 1) :: byte) \<noteq> 0" by (metis Suc_eq_plus1 nat.distinct(1) unat_0)
  ultimately show ?thesis using i by (simp add: effect_at_def del: of_nat_add)
qed

section \<open>Properties\<close>


definition demo_engine :: pid_engine
  where "demo_engine = \<lparr>effects = replicate 16 (blank_effect\<lparr>allocated := True, playing := True,
      effect_type := PE_Constant_Force, gain := 255, constant_magnitude := 10000,
      duration_ms := 3, loop_count := 2\<rparr>),
    last_allocated = 1, last_load_status = 1, device_gain = 255,
    actuators_enabled = True, paused = False\<rparr>"


text \<open>Property C29. The device gain caps the output, whatever the host has
  programmed: each rumble channel is at most the full scale times the gain, no arithmetic
  on the way wraps into a larger value, and with the actuators disabled, the device paused
  or nothing playing both channels are zero.\<close>

theorem rumble_capped_by_gain:
  "uint (low_frequency (rumble e)) \<le> (10000 * uint (device_gain e)) div 255 * 65535 div 10000 \<and>
   uint (high_frequency (rumble e)) \<le> (10000 * uint (device_gain e)) div 255 * 65535 div 10000 \<and>
   (\<not> actuators_enabled e \<or> paused e \<or> \<not> needs_tick e \<longrightarrow>
     rumble e = \<lparr>low_frequency = 0, high_frequency = 0\<rparr>)"
proof -
  let ?g = "device_gain e" and ?lh = "foldl (rumble_step (device_gain e)) (0, 0) (effects e)"
  let ?cap = "(10000 * uint ?g) div 255"
  have g: "0 \<le> uint ?g" "uint ?g \<le> 255" using uint_byte_bound [of ?g] by auto
  then have "?cap \<le> (10000 * 255) div 255" by (intro zdiv_mono1) auto
  with g have cap: "0 \<le> ?cap" "?cap \<le> 10000" by (auto simp: pos_imp_zdiv_nonneg_iff)
  have lh: "0 \<le> fst ?lh" "fst ?lh \<le> ?cap" "0 \<le> snd ?lh" "snd ?lh \<le> ?cap"
    using rumble_fold_bound [of 0 ?g 0 "effects e"] cap by auto
  have mono: "m * 65535 div 10000 \<le> ?cap * 65535 div 10000" if "m \<le> ?cap" for m
    using that by (intro zdiv_mono1 mult_right_mono) auto
  have pos: "0 \<le> ?cap * 65535 div 10000" using cap by (simp add: pos_imp_zdiv_nonneg_iff)
  have idle: "rumble e = \<lparr>low_frequency = 0, high_frequency = 0\<rparr>" if "\<not> needs_tick e"
    using that rumble_fold_idle [of "effects e"]
    by (auto simp: rumble_def needs_tick_def list_ex_iff effect_live_def)
  from lh cap mono pos idle show ?thesis
    by (auto simp: rumble_def case_prod_beta to_rumble_uint)
qed

lemma rumble_capped_by_gain_witness:
  "rumble (demo_engine\<lparr>paused := True\<rparr>) = \<lparr>low_frequency = 0, high_frequency = 0\<rparr>"
  using rumble_capped_by_gain [of "demo_engine\<lparr>paused := True\<rparr>"] by simp

text \<open>The pool budget the device advertises is the truth: the bytes
  available are 64 per free block, a request for a known effect type succeeds exactly when
  a block is free, and it hands out the 1-based index of a block that was free, touches no
  other block and uses up 64 bytes; a refused request changes no block.\<close>

theorem effect_allocation:
  fixes request :: pid_create_new_effect_report
  assumes "pid_shape e"
  defines "r \<equiv> create_new_effect request e"
  shows "unat (bl_ram_pool_available (block_load e)) = 64 * free_blocks e \<and>
    (fst r \<longleftrightarrow> pid_effect_type_of (cn_effect_type request) \<noteq> None \<and> 0 < free_blocks e) \<and>
    (if fst r then
       \<exists>i. effect_at (bl_effect_block_index (block_load (snd r))) = Some i \<and>
         \<not> allocated (effects e ! i) \<and> allocated (effects (snd r) ! i) \<and>
         (\<forall>j. j \<noteq> i \<longrightarrow> effects (snd r) ! j = effects e ! j) \<and>
         unat (bl_ram_pool_available (block_load (snd r))) =
           unat (bl_ram_pool_available (block_load e)) - 64
     else effects (snd r) = effects e)"
proof -
  have iff: "fst r \<longleftrightarrow> pid_effect_type_of (cn_effect_type request) \<noteq> None \<and> 0 < free_blocks e"
    using free_blocks_0 [OF assms(1)]
    by (auto simp: r_def create_new_effect_def split: option.splits)
  show ?thesis
  proof (cases "fst r")
    case False
    then show ?thesis
      using iff create_new_effect_failure block_load_available [OF assms(1)] by (simp add: r_def)
  next
    case True
    then obtain i t where i: "i < k_pid_max_effects" "\<not> allocated (effects e ! i)"
      "snd r = e\<lparr>effects := (effects e)[i :=
        blank_effect\<lparr>allocated := True, effect_type := t, gain := 255\<rparr>],
        last_allocated := of_nat (i + 1), last_load_status := 1\<rparr>"
      using create_new_effect_success [OF assms(1)] unfolding r_def by metis
    have len: "i < length (effects e)" using i assms(1) by (simp add: pid_shape_def)
    have shape: "pid_shape (snd r)" using assms(1) i by (simp add: pid_shape_def)
    have "free_blocks (snd r) = free_blocks e - 1"
      using free_blocks_update [OF len i(2), of
          "blank_effect\<lparr>allocated := True, effect_type := t, gain := 255\<rparr>"] i(3)
      by (simp add: free_blocks_def)
    moreover have "effect_at (bl_effect_block_index (block_load (snd r))) = Some i"
      using effect_at_of_index [OF i(1)] by (simp add: block_load_def i(3))
    ultimately show ?thesis
      using True iff i len block_load_available [OF assms(1)] block_load_available [OF shape]
      by (auto simp: diff_mult_distrib2)
  qed
qed

lemma effect_allocation_witness:
  "unat (bl_ram_pool_available (block_load demo_engine)) = 64 * free_blocks demo_engine \<and>
    (fst (create_new_effect \<lparr>cn_effect_type = 1, cn_byte_count = 0\<rparr> demo_engine) \<longleftrightarrow>
      pid_effect_type_of 1 \<noteq> None \<and> 0 < free_blocks demo_engine)"
proof -
  have "pid_shape demo_engine" by (simp add: pid_shape_def demo_engine_def k_pid_max_effects_def)
  from effect_allocation [OF this, of "\<lparr>cn_effect_type = 1, cn_byte_count = 0\<rparr>"] show ?thesis by simp
qed



section \<open>The clock of an endless effect\<close>

text \<open>An infinite effect keeps counting in 32 bits. One tick before the wrap it plays;
  the tick that wraps puts it back before its start delay, so it falls silent again.\<close>

lemma infinite_effect_clock_wraps:
  "let s = blank_effect\<lparr>allocated := True, playing := True, effect_type := PE_Constant_Force,
      gain := 255, constant_magnitude := 10000, start_delay_ms := 20, elapsed_ms := 0xFFFFFFFF\<rparr>
   in effect_rumble 255 s = Some (False, 10000) \<and> effect_rumble 255 (advance_effect 10 s) = None"
  by (simp add: Let_def advance_effect_def effect_rumble_def effect_magnitude_def blank_effect_def
      apply_envelope_def clamp_magnitude_def k_pid_nominal_max_def signed_divide_int_def)

end
