(* ===== verification/Descriptors.thy ===== *)
theory Descriptors
  imports Prelude
begin

text \<open>
  The HID report descriptors the driver hands to VHF, byte for byte, one line of bytes
  per line of source (long arrays are cut at collection boundaries), and a reader of HID
  short items that adds up, for every report id, the input, output and feature bits the
  descriptor declares. The reader is the specification side: it follows the short-item
  encoding of the HID specification (the low two bits of the prefix give the data length,
  the rest the tag), and lets the packed structs and size tables of the code be checked
  against what a host will parse.
\<close>

section \<open>Short items\<close>

fun le_value :: "int list \<Rightarrow> int"
  where
    "le_value [] = 0"
  | "le_value (b # bs) = b + 256 * le_value bs"

definition item_length :: "int \<Rightarrow> nat"
  where "item_length b = (if b mod 4 = 0 then 0 else if b mod 4 = 1 then 1
    else if b mod 4 = 2 then 2 else 4)"

fun hid_items :: "int list \<Rightarrow> (int \<times> int) list"
  where
    "hid_items [] = []"
  | "hid_items (b # bs) =
      (b - b mod 4, le_value (take (item_length b) bs)) # hid_items (drop (item_length b) bs)"

record hid_scan =
  hs_size :: int
  hs_count :: int
  hs_id :: int
  hs_depth :: int
  hs_bits :: "(int \<times> (int \<times> int \<times> int)) list"

fun add_bits :: "int \<Rightarrow> (int \<times> int \<times> int) \<Rightarrow>
    (int \<times> (int \<times> int \<times> int)) list \<Rightarrow> (int \<times> (int \<times> int \<times> int)) list"
  where
    "add_bits rid b [] = [(rid, b)]"
  | "add_bits rid (i, ou, f) ((r, (i', ou', f')) # rs) =
      (if r = rid then (r, (i + i', ou + ou', f + f')) # rs
       else (r, (i', ou', f')) # add_bits rid (i, ou, f) rs)"

definition hid_item :: "hid_scan \<Rightarrow> int \<times> int \<Rightarrow> hid_scan"
  where "hid_item s item =
    (let tag = fst item; val = snd item; n = hs_size s * hs_count s
     in if tag = 0x74 then s\<lparr>hs_size := val\<rparr>
        else if tag = 0x94 then s\<lparr>hs_count := val\<rparr>
        else if tag = 0x84 then s\<lparr>hs_id := val\<rparr>
        else if tag = 0xA0 then s\<lparr>hs_depth := hs_depth s + 1\<rparr>
        else if tag = 0xC0 then s\<lparr>hs_depth := hs_depth s - 1\<rparr>
        else if tag = 0x80 then s\<lparr>hs_bits := add_bits (hs_id s) (n, 0, 0) (hs_bits s)\<rparr>
        else if tag = 0x90 then s\<lparr>hs_bits := add_bits (hs_id s) (0, n, 0) (hs_bits s)\<rparr>
        else if tag = 0xB0 then s\<lparr>hs_bits := add_bits (hs_id s) (0, 0, n) (hs_bits s)\<rparr>
        else s)"

definition hid_parse :: "byte list \<Rightarrow> hid_scan"
  where "hid_parse d = foldl hid_item
    \<lparr>hs_size = 0, hs_count = 0, hs_id = 0, hs_depth = 0, hs_bits = []\<rparr> (hid_items (map uint d))"

text \<open>The bits of every report, in order of first appearance, and whether every
  collection is closed.\<close>

definition report_bits :: "byte list \<Rightarrow> (int \<times> (int \<times> int \<times> int)) list"
  where "report_bits d = hs_bits (hid_parse d)"

definition collections_closed :: "byte list \<Rightarrow> bool"
  where "collections_closed d \<longleftrightarrow> hs_depth (hid_parse d) = 0"

section \<open>The descriptors\<close>

definition pid_descriptor_gamepad :: "byte list"
  where "pid_descriptor_gamepad = [
    0x05, 0x01,
    0x09, 0x05,
    0xa1, 0x01,
    0x85, 0x01,
    0x05, 0x09,
    0x19, 0x01,
    0x29, 0x20,
    0x15, 0x00,
    0x25, 0x01,
    0x75, 0x01,
    0x95, 0x20,
    0x81, 0x02,
    0x05, 0x01,
    0x09, 0x39,
    0x15, 0x00,
    0x25, 0x07,
    0x35, 0x00,
    0x46, 0x3b, 0x01,
    0x65, 0x14,
    0x75, 0x04,
    0x95, 0x01,
    0x81, 0x42,
    0x65, 0x00,
    0x75, 0x04,
    0x95, 0x01,
    0x81, 0x03,
    0x09, 0x30,
    0x09, 0x31,
    0x09, 0x33,
    0x09, 0x34,
    0x16, 0x00, 0x80,
    0x26, 0xff, 0x7f,
    0x75, 0x10,
    0x95, 0x04,
    0x81, 0x02,
    0x09, 0x32,
    0x09, 0x35,
    0x15, 0x00,
    0x26, 0xff, 0x00,
    0x75, 0x08,
    0x95, 0x02,
    0x81, 0x02,
    0x85, 0x02,
    0x06, 0x00, 0xff,
    0x09, 0x01,
    0x15, 0x00,
    0x26, 0xff, 0x00,
    0x75, 0x08,
    0x95, 0x05,
    0x91, 0x02,
    0xc0,
    0x05, 0x0f,
    0x09, 0x01,
    0xa1, 0x01,
    0x09, 0x92,
    0xa1, 0x02,
    0x85, 0x03,
    0x09, 0x9f,
    0x09, 0xa0,
    0x09, 0xa4,
    0x09, 0xa5,
    0x09, 0xa6,
    0x15, 0x00,
    0x25, 0x01,
    0x75, 0x01,
    0x95, 0x05,
    0x81, 0x02,
    0x75, 0x03,
    0x95, 0x01,
    0x81, 0x03,
    0x09, 0x94,
    0x15, 0x00,
    0x25, 0x01,
    0x75, 0x01,
    0x95, 0x01,
    0x81, 0x02,
    0x09, 0x22,
    0x15, 0x00,
    0x25, 0x10,
    0x75, 0x07,
    0x95, 0x01,
    0x81, 0x02,
    0xc0]"

definition pid_descriptor_set_effect :: "byte list"
  where "pid_descriptor_set_effect = [
    0x09, 0x21,
    0xa1, 0x02,
    0x85, 0x11,
    0x09, 0x22,
    0x15, 0x01,
    0x25, 0x10,
    0x75, 0x08,
    0x95, 0x01,
    0x91, 0x02,
    0x09, 0x25,
    0xa1, 0x02,
    0x09, 0x26,
    0x09, 0x27,
    0x09, 0x30,
    0x09, 0x31,
    0x09, 0x32,
    0x09, 0x33,
    0x09, 0x34,
    0x09, 0x40,
    0x09, 0x41,
    0x09, 0x42,
    0x09, 0x43,
    0x09, 0x28,
    0x15, 0x01,
    0x25, 0x0c,
    0x75, 0x08,
    0x95, 0x01,
    0x91, 0x00,
    0xc0,
    0x09, 0x50,
    0x09, 0x54,
    0x09, 0x51,
    0x15, 0x00,
    0x26, 0xff, 0x7f,
    0x66, 0x03, 0x10,
    0x55, 0xfd,
    0x75, 0x10,
    0x95, 0x03,
    0x91, 0x02,
    0x55, 0x00,
    0x65, 0x00,
    0x09, 0x52,
    0x15, 0x00,
    0x26, 0xff, 0x00,
    0x75, 0x08,
    0x95, 0x01,
    0x91, 0x02,
    0x09, 0x53,
    0x15, 0x00,
    0x25, 0x20,
    0x75, 0x08,
    0x95, 0x01,
    0x91, 0x02,
    0x09, 0x55,
    0xa1, 0x02,
    0x05, 0x01,
    0x09, 0x30,
    0x09, 0x31,
    0x15, 0x00,
    0x25, 0x01,
    0x75, 0x01,
    0x95, 0x02,
    0x91, 0x02,
    0xc0,
    0x05, 0x0f,
    0x09, 0x56,
    0x75, 0x01,
    0x95, 0x01,
    0x91, 0x02,
    0x75, 0x05,
    0x95, 0x01,
    0x91, 0x03,
    0x09, 0x57,
    0xa1, 0x02,
    0x0b, 0x01, 0x00, 0x0a, 0x00,
    0x0b, 0x02, 0x00, 0x0a, 0x00,
    0x66, 0x14, 0x00,
    0x55, 0xfe,
    0x15, 0x00,
    0x26, 0xff, 0x00,
    0x35, 0x00,
    0x47, 0xa0, 0x8c, 0x00, 0x00,
    0x75, 0x08,
    0x95, 0x02,
    0x91, 0x02,
    0x55, 0x00,
    0x65, 0x00,
    0x45, 0x00,
    0xc0,
    0x09, 0xa7,
    0x15, 0x00,
    0x26, 0xff, 0x7f,
    0x66, 0x03, 0x10,
    0x55, 0xfd,
    0x75, 0x10,
    0x95, 0x01,
    0x91, 0x02,
    0x55, 0x00,
    0x65, 0x00,
    0xc0]"

definition pid_descriptor_envelope_periodic :: "byte list"
  where "pid_descriptor_envelope_periodic = [
    0x09, 0x5a,
    0xa1, 0x02,
    0x85, 0x12,
    0x09, 0x22,
    0x15, 0x01,
    0x25, 0x10,
    0x75, 0x08,
    0x95, 0x01,
    0x91, 0x02,
    0x09, 0x5b,
    0x09, 0x5d,
    0x15, 0x00,
    0x26, 0x10, 0x27,
    0x75, 0x10,
    0x95, 0x02,
    0x91, 0x02,
    0x09, 0x5c,
    0x09, 0x5e,
    0x26, 0xff, 0x7f,
    0x66, 0x03, 0x10,
    0x55, 0xfd,
    0x75, 0x10,
    0x95, 0x02,
    0x91, 0x02,
    0x55, 0x00,
    0x65, 0x00,
    0xc0,
    0x09, 0x5f,
    0xa1, 0x02,
    0x85, 0x13,
    0x09, 0x22,
    0x15, 0x01,
    0x25, 0x10,
    0x75, 0x08,
    0x95, 0x01,
    0x91, 0x02,
    0x09, 0x23,
    0x15, 0x00,
    0x25, 0x0f,
    0x75, 0x04,
    0x95, 0x01,
    0x91, 0x02,
    0x75, 0x04,
    0x95, 0x01,
    0x91, 0x03,
    0x09, 0x60,
    0x09, 0x61,
    0x09, 0x62,
    0x16, 0xf0, 0xd8,
    0x26, 0x10, 0x27,
    0x75, 0x10,
    0x95, 0x03,
    0x91, 0x02,
    0x09, 0x63,
    0x09, 0x64,
    0x09, 0x65,
    0x15, 0x00,
    0x26, 0x10, 0x27,
    0x75, 0x10,
    0x95, 0x03,
    0x91, 0x02,
    0xc0,
    0x09, 0x6e,
    0xa1, 0x02,
    0x85, 0x14,
    0x09, 0x22,
    0x15, 0x01,
    0x25, 0x10,
    0x75, 0x08,
    0x95, 0x01,
    0x91, 0x02,
    0x09, 0x70,
    0x15, 0x00,
    0x26, 0x10, 0x27,
    0x75, 0x10,
    0x95, 0x01,
    0x91, 0x02,
    0x09, 0x6f,
    0x16, 0xf0, 0xd8,
    0x26, 0x10, 0x27,
    0x75, 0x10,
    0x95, 0x01,
    0x91, 0x02,
    0x09, 0x71,
    0x15, 0x00,
    0x27, 0x9f, 0x8c, 0x00, 0x00,
    0x66, 0x14, 0x00,
    0x55, 0xfe,
    0x75, 0x10,
    0x95, 0x01,
    0x91, 0x02,
    0x55, 0x00,
    0x65, 0x00,
    0x09, 0x72,
    0x15, 0x00,
    0x26, 0xff, 0x7f,
    0x66, 0x03, 0x10,
    0x55, 0xfd,
    0x75, 0x10,
    0x95, 0x01,
    0x91, 0x02,
    0x55, 0x00,
    0x65, 0x00,
    0xc0]"

definition pid_descriptor_forces_control :: "byte list"
  where "pid_descriptor_forces_control = [
    0x09, 0x73,
    0xa1, 0x02,
    0x85, 0x15,
    0x09, 0x22,
    0x15, 0x01,
    0x25, 0x10,
    0x75, 0x08,
    0x95, 0x01,
    0x91, 0x02,
    0x09, 0x70,
    0x16, 0xf0, 0xd8,
    0x26, 0x10, 0x27,
    0x75, 0x10,
    0x95, 0x01,
    0x91, 0x02,
    0xc0,
    0x09, 0x74,
    0xa1, 0x02,
    0x85, 0x16,
    0x09, 0x22,
    0x15, 0x01,
    0x25, 0x10,
    0x75, 0x08,
    0x95, 0x01,
    0x91, 0x02,
    0x09, 0x75,
    0x09, 0x76,
    0x16, 0xf0, 0xd8,
    0x26, 0x10, 0x27,
    0x75, 0x10,
    0x95, 0x02,
    0x91, 0x02,
    0xc0,
    0x09, 0x77,
    0xa1, 0x02,
    0x85, 0x17,
    0x09, 0x22,
    0x15, 0x01,
    0x25, 0x10,
    0x75, 0x08,
    0x95, 0x01,
    0x91, 0x02,
    0x09, 0x78,
    0xa1, 0x02,
    0x09, 0x79,
    0x09, 0x7a,
    0x09, 0x7b,
    0x15, 0x01,
    0x25, 0x03,
    0x75, 0x08,
    0x95, 0x01,
    0x91, 0x00,
    0xc0,
    0x09, 0x7c,
    0x15, 0x00,
    0x26, 0xff, 0x00,
    0x75, 0x08,
    0x95, 0x01,
    0x91, 0x02,
    0xc0,
    0x09, 0x90,
    0xa1, 0x02,
    0x85, 0x18,
    0x09, 0x22,
    0x15, 0x01,
    0x25, 0x10,
    0x75, 0x08,
    0x95, 0x01,
    0x91, 0x02,
    0xc0,
    0x09, 0x95,
    0xa1, 0x02,
    0x85, 0x19,
    0x09, 0x96,
    0xa1, 0x02,
    0x09, 0x97,
    0x09, 0x98,
    0x09, 0x99,
    0x09, 0x9a,
    0x09, 0x9b,
    0x09, 0x9c,
    0x15, 0x01,
    0x25, 0x06,
    0x75, 0x08,
    0x95, 0x01,
    0x91, 0x00,
    0xc0,
    0xc0,
    0x09, 0x7d,
    0xa1, 0x02,
    0x85, 0x1a,
    0x09, 0x7e,
    0x15, 0x00,
    0x26, 0xff, 0x00,
    0x75, 0x08,
    0x95, 0x01,
    0x91, 0x02,
    0xc0]"

definition pid_descriptor_features :: "byte list"
  where "pid_descriptor_features = [
    0x09, 0xab,
    0xa1, 0x02,
    0x85, 0x1b,
    0x09, 0x25,
    0xa1, 0x02,
    0x09, 0x26,
    0x09, 0x27,
    0x09, 0x30,
    0x09, 0x31,
    0x09, 0x32,
    0x09, 0x33,
    0x09, 0x34,
    0x09, 0x40,
    0x09, 0x41,
    0x09, 0x42,
    0x09, 0x43,
    0x09, 0x28,
    0x15, 0x01,
    0x25, 0x0c,
    0x75, 0x08,
    0x95, 0x01,
    0xb1, 0x00,
    0xc0,
    0x05, 0x01,
    0x09, 0x3b,
    0x15, 0x00,
    0x26, 0xff, 0x01,
    0x75, 0x10,
    0x95, 0x01,
    0xb1, 0x02,
    0xc0,
    0x05, 0x0f,
    0x09, 0x89,
    0xa1, 0x02,
    0x85, 0x1c,
    0x09, 0x22,
    0x15, 0x01,
    0x25, 0x10,
    0x75, 0x08,
    0x95, 0x01,
    0xb1, 0x02,
    0x09, 0x8b,
    0xa1, 0x02,
    0x09, 0x8c,
    0x09, 0x8d,
    0x09, 0x8e,
    0x15, 0x01,
    0x25, 0x03,
    0x75, 0x08,
    0x95, 0x01,
    0xb1, 0x00,
    0xc0,
    0x09, 0xac,
    0x15, 0x00,
    0x27, 0xff, 0xff, 0x00, 0x00,
    0x75, 0x10,
    0x95, 0x01,
    0xb1, 0x02,
    0xc0,
    0x09, 0x7f,
    0xa1, 0x02,
    0x85, 0x1d,
    0x09, 0x80,
    0x15, 0x00,
    0x27, 0xff, 0xff, 0x00, 0x00,
    0x75, 0x10,
    0x95, 0x01,
    0xb1, 0x02,
    0x09, 0x83,
    0x15, 0x00,
    0x26, 0xff, 0x00,
    0x75, 0x08,
    0x95, 0x01,
    0xb1, 0x02,
    0x09, 0xa9,
    0x09, 0xaa,
    0x15, 0x00,
    0x25, 0x01,
    0x75, 0x01,
    0x95, 0x02,
    0xb1, 0x02,
    0x75, 0x06,
    0x95, 0x01,
    0xb1, 0x03,
    0xc0,
    0xc0]"

definition pid_gamepad_descriptor :: "byte list"
  where "pid_gamepad_descriptor = pid_descriptor_gamepad @ pid_descriptor_set_effect @
    pid_descriptor_envelope_periodic @ pid_descriptor_forces_control @ pid_descriptor_features"

definition xbox_series_descriptor_input :: "byte list"
  where "xbox_series_descriptor_input = [
    0x05, 0x01,
    0x09, 0x05,
    0xa1, 0x01,
    0x85, 0x01,
    0x09, 0x01,
    0xa1, 0x00,
    0x09, 0x30,
    0x09, 0x31,
    0x15, 0x00,
    0x27, 0xff, 0xff, 0x00, 0x00,
    0x95, 0x02,
    0x75, 0x10,
    0x81, 0x02,
    0xc0,
    0x09, 0x01,
    0xa1, 0x00,
    0x09, 0x32,
    0x09, 0x35,
    0x15, 0x00,
    0x27, 0xff, 0xff, 0x00, 0x00,
    0x95, 0x02,
    0x75, 0x10,
    0x81, 0x02,
    0xc0,
    0x05, 0x02,
    0x09, 0xc5,
    0x15, 0x00,
    0x26, 0xff, 0x03,
    0x95, 0x01,
    0x75, 0x0a,
    0x81, 0x02,
    0x15, 0x00,
    0x25, 0x00,
    0x75, 0x06,
    0x95, 0x01,
    0x81, 0x03,
    0x05, 0x02,
    0x09, 0xc4,
    0x15, 0x00,
    0x26, 0xff, 0x03,
    0x95, 0x01,
    0x75, 0x0a,
    0x81, 0x02,
    0x15, 0x00,
    0x25, 0x00,
    0x75, 0x06,
    0x95, 0x01,
    0x81, 0x03,
    0x05, 0x01,
    0x09, 0x39,
    0x15, 0x01,
    0x25, 0x08,
    0x35, 0x00,
    0x46, 0x3b, 0x01,
    0x66, 0x14, 0x00,
    0x75, 0x04,
    0x95, 0x01,
    0x81, 0x42,
    0x75, 0x04,
    0x95, 0x01,
    0x15, 0x00,
    0x25, 0x00,
    0x35, 0x00,
    0x45, 0x00,
    0x65, 0x00,
    0x81, 0x03,
    0x05, 0x09,
    0x19, 0x01,
    0x29, 0x0f,
    0x15, 0x00,
    0x25, 0x01,
    0x75, 0x01,
    0x95, 0x0f,
    0x81, 0x02,
    0x15, 0x00,
    0x25, 0x00,
    0x75, 0x01,
    0x95, 0x01,
    0x81, 0x03]"

definition xbox_series_descriptor_share :: "byte list"
  where "xbox_series_descriptor_share = [
    0x05, 0x0c,
    0x0a, 0xb2, 0x00,
    0x15, 0x00,
    0x25, 0x01,
    0x95, 0x01,
    0x75, 0x01,
    0x81, 0x02,
    0x15, 0x00,
    0x25, 0x00,
    0x75, 0x07,
    0x95, 0x01,
    0x81, 0x03]"

definition xbox_series_descriptor_rumble :: "byte list"
  where "xbox_series_descriptor_rumble = [
    0x05, 0x0f,
    0x09, 0x21,
    0x85, 0x03,
    0xa1, 0x02,
    0x09, 0x97,
    0x15, 0x00,
    0x25, 0x01,
    0x75, 0x04,
    0x95, 0x01,
    0x91, 0x02,
    0x15, 0x00,
    0x25, 0x00,
    0x75, 0x04,
    0x95, 0x01,
    0x91, 0x03,
    0x09, 0x70,
    0x15, 0x00,
    0x25, 0x64,
    0x75, 0x08,
    0x95, 0x04,
    0x91, 0x02,
    0x09, 0x50,
    0x66, 0x01, 0x10,
    0x55, 0x0e,
    0x15, 0x00,
    0x26, 0xff, 0x00,
    0x75, 0x08,
    0x95, 0x01,
    0x91, 0x02,
    0x09, 0xa7,
    0x15, 0x00,
    0x26, 0xff, 0x00,
    0x75, 0x08,
    0x95, 0x01,
    0x91, 0x02,
    0x65, 0x00,
    0x55, 0x00,
    0x09, 0x7c,
    0x15, 0x00,
    0x26, 0xff, 0x00,
    0x75, 0x08,
    0x95, 0x01,
    0x91, 0x02,
    0xc0,
    0xc0]"

definition xbox_series_descriptor :: "byte list"
  where "xbox_series_descriptor =
    xbox_series_descriptor_input @ xbox_series_descriptor_share @ xbox_series_descriptor_rumble"

definition xbox_one_descriptor :: "byte list"
  where "xbox_one_descriptor = [
    0x05, 0x01,
    0x09, 0x05,
    0xa1, 0x01,
    0x85, 0x01,
    0x09, 0x01,
    0xa1, 0x00,
    0x09, 0x30,
    0x09, 0x31,
    0x15, 0x00,
    0x27, 0xff, 0xff, 0x00, 0x00,
    0x95, 0x02,
    0x75, 0x10,
    0x81, 0x02,
    0xc0,
    0x09, 0x01,
    0xa1, 0x00,
    0x09, 0x32,
    0x09, 0x35,
    0x15, 0x00,
    0x27, 0xff, 0xff, 0x00, 0x00,
    0x95, 0x02,
    0x75, 0x10,
    0x81, 0x02,
    0xc0,
    0x05, 0x02,
    0x09, 0xc5,
    0x15, 0x00,
    0x26, 0xff, 0x03,
    0x95, 0x01,
    0x75, 0x0a,
    0x81, 0x02,
    0x15, 0x00,
    0x25, 0x00,
    0x75, 0x06,
    0x95, 0x01,
    0x81, 0x03,
    0x05, 0x02,
    0x09, 0xc4,
    0x15, 0x00,
    0x26, 0xff, 0x03,
    0x95, 0x01,
    0x75, 0x0a,
    0x81, 0x02,
    0x15, 0x00,
    0x25, 0x00,
    0x75, 0x06,
    0x95, 0x01,
    0x81, 0x03,
    0x05, 0x01,
    0x09, 0x39,
    0x15, 0x01,
    0x25, 0x08,
    0x35, 0x00,
    0x46, 0x3b, 0x01,
    0x66, 0x14, 0x00,
    0x75, 0x04,
    0x95, 0x01,
    0x81, 0x42,
    0x75, 0x04,
    0x95, 0x01,
    0x15, 0x00,
    0x25, 0x00,
    0x35, 0x00,
    0x45, 0x00,
    0x65, 0x00,
    0x81, 0x03,
    0x05, 0x09,
    0x19, 0x01,
    0x29, 0x0f,
    0x15, 0x00,
    0x25, 0x01,
    0x75, 0x01,
    0x95, 0x0f,
    0x81, 0x02,
    0x15, 0x00,
    0x25, 0x00,
    0x75, 0x01,
    0x95, 0x01,
    0x81, 0x03,
    0x05, 0x0f,
    0x09, 0x21,
    0x85, 0x03,
    0xa1, 0x02,
    0x09, 0x97,
    0x15, 0x00,
    0x25, 0x01,
    0x75, 0x04,
    0x95, 0x01,
    0x91, 0x02,
    0x15, 0x00,
    0x25, 0x00,
    0x75, 0x04,
    0x95, 0x01,
    0x91, 0x03,
    0x09, 0x70,
    0x15, 0x00,
    0x25, 0x64,
    0x75, 0x08,
    0x95, 0x04,
    0x91, 0x02,
    0x09, 0x50,
    0x66, 0x01, 0x10,
    0x55, 0x0e,
    0x15, 0x00,
    0x26, 0xff, 0x00,
    0x75, 0x08,
    0x95, 0x01,
    0x91, 0x02,
    0x09, 0xa7,
    0x15, 0x00,
    0x26, 0xff, 0x00,
    0x75, 0x08,
    0x95, 0x01,
    0x91, 0x02,
    0x65, 0x00,
    0x55, 0x00,
    0x09, 0x7c,
    0x15, 0x00,
    0x26, 0xff, 0x00,
    0x75, 0x08,
    0x95, 0x01,
    0x91, 0x02,
    0xc0,
    0xc0]"

definition ds4_descriptor :: "byte list"
  where "ds4_descriptor = [
    0x05, 0x01, 0x09, 0x05, 0xa1, 0x01, 0x85, 0x01, 0x09, 0x30, 0x09, 0x31, 0x09, 0x32, 0x09, 0x35, 0x15, 0x00, 0x26, 0xff, 0x00, 0x75, 0x08, 0x95,
    0x04, 0x81, 0x02, 0x09, 0x39, 0x15, 0x00, 0x25, 0x07, 0x35, 0x00, 0x46, 0x3b, 0x01, 0x65, 0x14, 0x75, 0x04, 0x95, 0x01, 0x81, 0x42, 0x65, 0x00,
    0x05, 0x09, 0x19, 0x01, 0x29, 0x0e, 0x15, 0x00, 0x25, 0x01, 0x75, 0x01, 0x95, 0x0e, 0x81, 0x02, 0x06, 0x00, 0xff, 0x09, 0x20, 0x75, 0x06, 0x95,
    0x01, 0x15, 0x00, 0x25, 0x3f, 0x81, 0x02, 0x05, 0x01, 0x09, 0x33, 0x09, 0x34, 0x15, 0x00, 0x26, 0xff, 0x00, 0x75, 0x08, 0x95, 0x02, 0x81, 0x02,
    0x06, 0x00, 0xff, 0x09, 0x21, 0x95, 0x36, 0x81, 0x02, 0x85, 0x05, 0x09, 0x22, 0x95, 0x1f, 0x91, 0x02, 0x85, 0x04, 0x09, 0x23, 0x95, 0x24, 0xb1,
    0x02, 0x85, 0x02, 0x09, 0x24, 0x95, 0x24, 0xb1, 0x02, 0x85, 0x08, 0x09, 0x25, 0x95, 0x03, 0xb1, 0x02, 0x85, 0x10, 0x09, 0x26, 0x95, 0x04, 0xb1,
    0x02, 0x85, 0x11, 0x09, 0x27, 0x95, 0x02, 0xb1, 0x02, 0x85, 0x12, 0x06, 0x02, 0xff, 0x09, 0x21, 0x95, 0x0f, 0xb1, 0x02, 0x85, 0x13, 0x09, 0x22,
    0x95, 0x16, 0xb1, 0x02, 0x85, 0x14, 0x06, 0x05, 0xff, 0x09, 0x20, 0x95, 0x10, 0xb1, 0x02, 0x85, 0x15, 0x09, 0x21, 0x95, 0x2c, 0xb1, 0x02, 0x06,
    0x80, 0xff, 0x85, 0x80, 0x09, 0x20, 0x95, 0x06, 0xb1, 0x02, 0x85, 0x81, 0x09, 0x21, 0x95, 0x06, 0xb1, 0x02, 0x85, 0x82, 0x09, 0x22, 0x95, 0x05,
    0xb1, 0x02, 0x85, 0x83, 0x09, 0x23, 0x95, 0x01, 0xb1, 0x02, 0x85, 0x84, 0x09, 0x24, 0x95, 0x04, 0xb1, 0x02, 0x85, 0x85, 0x09, 0x25, 0x95, 0x06,
    0xb1, 0x02, 0x85, 0x86, 0x09, 0x26, 0x95, 0x06, 0xb1, 0x02, 0x85, 0x87, 0x09, 0x27, 0x95, 0x23, 0xb1, 0x02, 0x85, 0x88, 0x09, 0x28, 0x95, 0x3f,
    0xb1, 0x02, 0x85, 0x89, 0x09, 0x29, 0x95, 0x02, 0xb1, 0x02, 0x85, 0x90, 0x09, 0x30, 0x95, 0x05, 0xb1, 0x02, 0x85, 0x91, 0x09, 0x31, 0x95, 0x03,
    0xb1, 0x02, 0x85, 0x92, 0x09, 0x32, 0x95, 0x03, 0xb1, 0x02, 0x85, 0x93, 0x09, 0x33, 0x95, 0x0c, 0xb1, 0x02, 0x85, 0x94, 0x09, 0x34, 0x95, 0x3f,
    0xb1, 0x02, 0x85, 0xa0, 0x09, 0x40, 0x95, 0x06, 0xb1, 0x02, 0x85, 0xa1, 0x09, 0x41, 0x95, 0x01, 0xb1, 0x02, 0x85, 0xa2, 0x09, 0x42, 0x95, 0x01,
    0xb1, 0x02, 0x85, 0xa3, 0x09, 0x43, 0x95, 0x30, 0xb1, 0x02, 0x85, 0xa4, 0x09, 0x44, 0x95, 0x0d, 0xb1, 0x02, 0x85, 0xf0, 0x09, 0x47, 0x95, 0x3f,
    0xb1, 0x02, 0x85, 0xf1, 0x09, 0x48, 0x95, 0x3f, 0xb1, 0x02, 0x85, 0xf2, 0x09, 0x49, 0x95, 0x0f, 0xb1, 0x02, 0x85, 0xa7, 0x09, 0x4a, 0x95, 0x01,
    0xb1, 0x02, 0x85, 0xa8, 0x09, 0x4b, 0x95, 0x01, 0xb1, 0x02, 0x85, 0xa9, 0x09, 0x4c, 0x95, 0x08, 0xb1, 0x02, 0x85, 0xaa, 0x09, 0x4e, 0x95, 0x01,
    0xb1, 0x02, 0x85, 0xab, 0x09, 0x4f, 0x95, 0x39, 0xb1, 0x02, 0x85, 0xac, 0x09, 0x50, 0x95, 0x39, 0xb1, 0x02, 0x85, 0xad, 0x09, 0x51, 0x95, 0x0b,
    0xb1, 0x02, 0x85, 0xae, 0x09, 0x52, 0x95, 0x01, 0xb1, 0x02, 0x85, 0xaf, 0x09, 0x53, 0x95, 0x02, 0xb1, 0x02, 0x85, 0xb0, 0x09, 0x54, 0x95, 0x3f,
    0xb1, 0x02, 0x85, 0xe0, 0x09, 0x57, 0x95, 0x02, 0xb1, 0x02, 0x85, 0xb3, 0x09, 0x55, 0x95, 0x3f, 0xb1, 0x02, 0x85, 0xb4, 0x09, 0x55, 0x95, 0x3f,
    0xb1, 0x02, 0x85, 0xb5, 0x09, 0x56, 0x95, 0x3f, 0xb1, 0x02, 0x85, 0xd0, 0x09, 0x58, 0x95, 0x3f, 0xb1, 0x02, 0x85, 0xd4, 0x09, 0x59, 0x95, 0x3f,
    0xb1, 0x02, 0xc0]"

definition ds5_descriptor :: "byte list"
  where "ds5_descriptor = [
    0x05, 0x01, 0x09, 0x05, 0xa1, 0x01, 0x85, 0x01, 0x09, 0x30, 0x09, 0x31, 0x09, 0x32, 0x09, 0x35,
    0x09, 0x33, 0x09, 0x34, 0x15, 0x00, 0x26, 0xff, 0x00, 0x75, 0x08, 0x95, 0x06, 0x81, 0x02, 0x06,
    0x00, 0xff, 0x09, 0x20, 0x95, 0x01, 0x81, 0x02, 0x05, 0x01, 0x09, 0x39, 0x15, 0x00, 0x25, 0x07,
    0x35, 0x00, 0x46, 0x3b, 0x01, 0x65, 0x14, 0x75, 0x04, 0x95, 0x01, 0x81, 0x42, 0x65, 0x00, 0x05,
    0x09, 0x19, 0x01, 0x29, 0x0f, 0x15, 0x00, 0x25, 0x01, 0x75, 0x01, 0x95, 0x0f, 0x81, 0x02, 0x06,
    0x00, 0xff, 0x09, 0x21, 0x75, 0x01, 0x95, 0x0d, 0x81, 0x02, 0x09, 0x22, 0x15, 0x00, 0x26, 0xff,
    0x00, 0x75, 0x08, 0x95, 0x34, 0x81, 0x02, 0x85, 0x02, 0x09, 0x23, 0x95, 0x2f, 0x91, 0x02, 0x85,
    0x05, 0x09, 0x33, 0x95, 0x28, 0xb1, 0x02, 0x85, 0x08, 0x09, 0x34, 0x95, 0x2f, 0xb1, 0x02, 0x85,
    0x09, 0x09, 0x24, 0x95, 0x13, 0xb1, 0x02, 0x85, 0x0a, 0x09, 0x25, 0x95, 0x1a, 0xb1, 0x02, 0x85,
    0x20, 0x09, 0x26, 0x95, 0x3f, 0xb1, 0x02, 0x85, 0x21, 0x09, 0x27, 0x95, 0x04, 0xb1, 0x02, 0x85,
    0x22, 0x09, 0x40, 0x95, 0x3f, 0xb1, 0x02, 0x85, 0x80, 0x09, 0x28, 0x95, 0x3f, 0xb1, 0x02, 0x85,
    0x81, 0x09, 0x29, 0x95, 0x3f, 0xb1, 0x02, 0x85, 0x82, 0x09, 0x2a, 0x95, 0x09, 0xb1, 0x02, 0x85,
    0x83, 0x09, 0x2b, 0x95, 0x3f, 0xb1, 0x02, 0x85, 0x84, 0x09, 0x2c, 0x95, 0x3f, 0xb1, 0x02, 0x85,
    0x85, 0x09, 0x2d, 0x95, 0x02, 0xb1, 0x02, 0x85, 0xa0, 0x09, 0x2e, 0x95, 0x01, 0xb1, 0x02, 0x85,
    0xe0, 0x09, 0x2f, 0x95, 0x3f, 0xb1, 0x02, 0x85, 0xf0, 0x09, 0x30, 0x95, 0x3f, 0xb1, 0x02, 0x85,
    0xf1, 0x09, 0x31, 0x95, 0x3f, 0xb1, 0x02, 0x85, 0xf2, 0x09, 0x32, 0x95, 0x0f, 0xb1, 0x02, 0x85,
    0xf4, 0x09, 0x35, 0x95, 0x3f, 0xb1, 0x02, 0x85, 0xf5, 0x09, 0x36, 0x95, 0x03, 0xb1, 0x02, 0xc0]"

definition switch_descriptor :: "byte list"
  where "switch_descriptor = [
    0x05, 0x01,
    0x09, 0x05,
    0xa1, 0x01,
    0x06, 0x01, 0xff,
    0x85, 0x21,
    0x09, 0x21,
    0x75, 0x08,
    0x95, 0x3f,
    0x81, 0x02,
    0x85, 0x30,
    0x09, 0x30,
    0x75, 0x08,
    0x95, 0x3f,
    0x81, 0x02,
    0x85, 0x81,
    0x09, 0x81,
    0x75, 0x08,
    0x95, 0x3f,
    0x81, 0x02,
    0x85, 0x01,
    0x09, 0x01,
    0x75, 0x08,
    0x95, 0x3f,
    0x91, 0x02,
    0x85, 0x10,
    0x09, 0x10,
    0x75, 0x08,
    0x95, 0x3f,
    0x91, 0x02,
    0x85, 0x80,
    0x09, 0x80,
    0x75, 0x08,
    0x95, 0x3f,
    0x91, 0x02,
    0xc0]"

definition keyboard_mouse_descriptor :: "byte list"
  where "keyboard_mouse_descriptor = [
    0x05, 0x01, 0x09, 0x06, 0xa1, 0x01, 0x85, 0x01,
    0x05, 0x07, 0x19, 0x00, 0x29, 0xe7, 0x15, 0x00, 0x25, 0x01,
    0x75, 0x01, 0x95, 0xe8, 0x81, 0x02, 0xc0,
    0x05, 0x01, 0x09, 0x02, 0xa1, 0x01, 0x85, 0x02,
    0x09, 0x01, 0xa1, 0x00, 0x05, 0x09, 0x19, 0x01, 0x29, 0x05,
    0x15, 0x00, 0x25, 0x01, 0x75, 0x01, 0x95, 0x05, 0x81, 0x02,
    0x75, 0x03, 0x95, 0x01, 0x81, 0x03,
    0x05, 0x01, 0x09, 0x30, 0x09, 0x31, 0x16, 0x00, 0x80,
    0x26, 0xff, 0x7f, 0x75, 0x10, 0x95, 0x02, 0x81, 0x06,
    0x09, 0x38, 0x15, 0x81, 0x25, 0x7f, 0x75, 0x08, 0x95, 0x01, 0x81, 0x06,
    0x05, 0x0c, 0x0a, 0x38, 0x02, 0x81, 0x06, 0xc0, 0xc0,
    0x05, 0x01, 0x09, 0x02, 0xa1, 0x01,
    0x85, 0x03,
    0x05, 0x01, 0x09, 0x01, 0xa1, 0x00,
    0x75, 0x08, 0x95, 0x01, 0x81, 0x03,
    0x05, 0x01, 0x09, 0x30, 0x09, 0x31,
    0x15, 0x00, 0x26, 0xff, 0x7f,
    0x35, 0x00, 0x46, 0xff, 0x7f,
    0x75, 0x10, 0x95, 0x02, 0x81, 0x02, 0xc0, 0xc0,
    0x05, 0x0c, 0x09, 0x01, 0xa1, 0x01, 0x85, 0x04,
    0x09, 0xe2, 0x09, 0xe9, 0x09, 0xea, 0x09, 0xcd,
    0x09, 0xb5, 0x09, 0xb6, 0x09, 0xb7,
    0x15, 0x00, 0x25, 0x01, 0x75, 0x01, 0x95, 0x07, 0x81, 0x02,
    0x75, 0x01, 0x95, 0x01, 0x81, 0x03, 0xc0]"

definition sc26_descriptor_mouse_keyboard :: "byte list"
  where "sc26_descriptor_mouse_keyboard = [
    0x05, 0x01,
    0x09, 0x02,
    0xa1, 0x01,
    0x85, 0x40,
    0x09, 0x01,
    0xa1, 0x00,
    0x05, 0x09,
    0x19, 0x01,
    0x29, 0x02,
    0x15, 0x00,
    0x25, 0x01,
    0x75, 0x01,
    0x95, 0x02,
    0x81, 0x02,
    0x75, 0x06,
    0x95, 0x01,
    0x81, 0x01,
    0x05, 0x01,
    0x09, 0x30,
    0x09, 0x31,
    0x15, 0x81,
    0x25, 0x7f,
    0x75, 0x08,
    0x95, 0x02,
    0x81, 0x06,
    0x95, 0x01,
    0x09, 0x38,
    0x81, 0x06,
    0x05, 0x0c,
    0x0a, 0x38, 0x02,
    0x95, 0x01,
    0x81, 0x06,
    0xc0,
    0xc0,
    0x05, 0x01,
    0x09, 0x06,
    0xa1, 0x01,
    0x85, 0x41,
    0x05, 0x07,
    0x19, 0xe0,
    0x29, 0xe7,
    0x15, 0x00,
    0x25, 0x01,
    0x75, 0x01,
    0x95, 0x08,
    0x81, 0x02,
    0x81, 0x01,
    0x19, 0x00,
    0x29, 0x65,
    0x15, 0x00,
    0x25, 0x65,
    0x75, 0x08,
    0x95, 0x06,
    0x81, 0x00,
    0xc0]"

definition sc26_descriptor_vendor :: "byte list"
  where "sc26_descriptor_vendor = [
    0x06, 0x00, 0xff,
    0x09, 0x01,
    0xa1, 0x01,
    0x85, 0x42,
    0x15, 0x00,
    0x26, 0xff, 0x00,
    0x75, 0x08,
    0x95, 0x35,
    0x09, 0x42,
    0x81, 0x02,
    0x85, 0x44,
    0x15, 0x00,
    0x26, 0xff, 0x00,
    0x75, 0x08,
    0x95, 0x05,
    0x09, 0x44,
    0x81, 0x02,
    0x85, 0x79,
    0x15, 0x00,
    0x26, 0xff, 0x00,
    0x75, 0x08,
    0x95, 0x01,
    0x09, 0x79,
    0x81, 0x02,
    0x85, 0x43,
    0x15, 0x00,
    0x26, 0xff, 0x00,
    0x75, 0x08,
    0x95, 0x0e,
    0x09, 0x43,
    0x81, 0x02,
    0x85, 0x7b,
    0x15, 0x00,
    0x26, 0xff, 0x00,
    0x75, 0x08,
    0x95, 0x0c,
    0x09, 0x7b,
    0x81, 0x02,
    0x85, 0x45,
    0x15, 0x00,
    0x26, 0xff, 0x00,
    0x75, 0x08,
    0x95, 0x2d,
    0x09, 0x45,
    0x81, 0x02,
    0x85, 0x80,
    0x15, 0x00,
    0x26, 0xff, 0x00,
    0x75, 0x08,
    0x95, 0x09,
    0x09, 0x80,
    0x91, 0x02,
    0x85, 0x81,
    0x15, 0x00,
    0x26, 0xff, 0x00,
    0x75, 0x08,
    0x95, 0x07,
    0x09, 0x81,
    0x91, 0x02,
    0x85, 0x82,
    0x15, 0x00,
    0x26, 0xff, 0x00,
    0x75, 0x08,
    0x95, 0x03,
    0x09, 0x82,
    0x91, 0x02,
    0x85, 0x83,
    0x15, 0x00,
    0x26, 0xff, 0x00,
    0x75, 0x08,
    0x95, 0x09,
    0x09, 0x83,
    0x91, 0x02,
    0x85, 0x84,
    0x15, 0x00,
    0x26, 0xff, 0x00,
    0x75, 0x08,
    0x95, 0x08,
    0x09, 0x84,
    0x91, 0x02,
    0x85, 0x85,
    0x15, 0x00,
    0x26, 0xff, 0x00,
    0x75, 0x08,
    0x95, 0x03,
    0x09, 0x85,
    0x91, 0x02,
    0x85, 0x86,
    0x15, 0x00,
    0x26, 0xff, 0x00,
    0x75, 0x08,
    0x95, 0x03,
    0x09, 0x86,
    0x91, 0x02,
    0x85, 0x87,
    0x15, 0x00,
    0x26, 0xff, 0x00,
    0x75, 0x08,
    0x95, 0x3f,
    0x09, 0x87,
    0x91, 0x02,
    0x85, 0x89,
    0x15, 0x00,
    0x26, 0xff, 0x00,
    0x75, 0x08,
    0x95, 0x3f,
    0x09, 0x89,
    0x91, 0x02,
    0x85, 0x88,
    0x15, 0x00,
    0x26, 0xff, 0x00,
    0x75, 0x08,
    0x95, 0x3f,
    0x09, 0x88,
    0x91, 0x02,
    0x85, 0x01,
    0x95, 0x3f,
    0x09, 0x01,
    0xb1, 0x02,
    0x85, 0x02,
    0x95, 0x3f,
    0x09, 0x01,
    0xb1, 0x02,
    0xc0]"

definition sc26_report_descriptor :: "byte list"
  where "sc26_report_descriptor = sc26_descriptor_mouse_keyboard @ sc26_descriptor_vendor"

section \<open>Tables the code keeps beside the descriptors\<close>

text \<open>\<^theory_text>\<open>k_pid_report_bits\<close>: report id, then input, output and
  feature bits.\<close>

definition k_pid_report_bits :: "(int \<times> (int \<times> int \<times> int)) list"
  where "k_pid_report_bits = [
    (1, (32 + 4 + 4 + 64 + 16, 0, 0)), (2, (0, 40, 0)), (3, (16, 0, 0)),
    (0x11, (0, 120, 0)), (0x12, (0, 72, 0)), (0x13, (0, 112, 0)), (0x14, (0, 72, 0)),
    (0x15, (0, 24, 0)), (0x16, (0, 40, 0)), (0x17, (0, 24, 0)), (0x18, (0, 8, 0)),
    (0x19, (0, 8, 0)), (0x1A, (0, 8, 0)),
    (0x1B, (0, 0, 24)), (0x1C, (0, 0, 32)), (0x1D, (0, 0, 32))]"

definition sc26_report_size :: "byte \<Rightarrow> nat"
  where "sc26_report_size i =
    (if i = 0x01 \<or> i = 0x02 then 64
     else if i = 0x40 then 6
     else if i = 0x41 then 9
     else if i = 0x42 then 54
     else if i = 0x43 then 15
     else if i = 0x44 then 6
     else if i = 0x45 then 46
     else if i = 0x79 then 2
     else if i = 0x7B then 13
     else if i = 0x80 then 10
     else if i = 0x81 then 8
     else if i = 0x82 then 4
     else if i = 0x83 then 10
     else if i = 0x84 then 9
     else if i = 0x85 then 4
     else if i = 0x86 then 4
     else if i = 0x87 \<or> i = 0x88 \<or> i = 0x89 then 64
     else 0)"

definition is_output_report :: "byte \<Rightarrow> bool"
  where "is_output_report i \<longleftrightarrow> i \<ge> 0x80 \<and> i \<le> 0x89"

end
