(* ===== verification/DescriptorLayout.thy ===== *)
theory DescriptorLayout
  imports Descriptors
begin

text \<open>
  What a HID host reads out of the descriptors: the parses are evaluated once here and
  compared with the packed structs and size tables of the code.
\<close>

section \<open>What a host parses\<close>

lemma pid_bits: "report_bits pid_gamepad_descriptor = k_pid_report_bits \<and>
    collections_closed pid_gamepad_descriptor"
  by code_simp

lemma xbox_series_bits: "report_bits xbox_series_descriptor = [(1, (128, 0, 0)), (3, (0, 64, 0))] \<and>
    collections_closed xbox_series_descriptor"
  by code_simp

lemma xbox_one_bits: "report_bits xbox_one_descriptor = [(1, (120, 0, 0)), (3, (0, 64, 0))] \<and>
    collections_closed xbox_one_descriptor"
  by code_simp

lemma playstation_switch_bits:
  "take 2 (report_bits ds4_descriptor) = [(1, (504, 0, 0)), (5, (0, 248, 0))] \<and>
   take 2 (report_bits ds5_descriptor) = [(1, (504, 0, 0)), (2, (0, 376, 0))] \<and>
   report_bits switch_descriptor = [(0x21, (504, 0, 0)), (0x30, (504, 0, 0)), (0x81, (504, 0, 0)),
     (1, (0, 504, 0)), (0x10, (0, 504, 0)), (0x80, (0, 504, 0))] \<and>
   report_bits keyboard_mouse_descriptor =
     [(1, (232, 0, 0)), (2, (56, 0, 0)), (3, (40, 0, 0)), (4, (8, 0, 0))]"
  by code_simp

definition sc26_bits :: "(int \<times> (int \<times> int \<times> int)) list"
  where "sc26_bits = [(0x40, (40, 0, 0)), (0x41, (64, 0, 0)), (0x42, (424, 0, 0)),
    (0x44, (40, 0, 0)), (0x79, (8, 0, 0)), (0x43, (112, 0, 0)), (0x7B, (96, 0, 0)),
    (0x45, (360, 0, 0)), (0x80, (0, 72, 0)), (0x81, (0, 56, 0)), (0x82, (0, 24, 0)),
    (0x83, (0, 72, 0)), (0x84, (0, 64, 0)), (0x85, (0, 24, 0)), (0x86, (0, 24, 0)),
    (0x87, (0, 504, 0)), (0x89, (0, 504, 0)), (0x88, (0, 504, 0)),
    (0x01, (0, 0, 504)), (0x02, (0, 0, 504))]"

lemma sc26_parsed: "report_bits sc26_report_descriptor = sc26_bits"
  by code_simp

text \<open>The feature reports the PlayStation hosts ask for, with their sizes in bits.\<close>

lemma ds4_feature_bits:
  "map (\<lambda>i. map_of (report_bits ds4_descriptor) i) [0x02, 0xA3, 0x12] =
    [Some (0, 0, 288), Some (0, 0, 384), Some (0, 0, 120)]"
  by code_simp

lemma ds5_feature_bits:
  "map (\<lambda>i. map_of (report_bits ds5_descriptor) i) [0x05, 0x20, 0x09, 0x08] =
    [Some (0, 0, 320), Some (0, 0, 504), Some (0, 0, 152), Some (0, 0, 376)]"
  by code_simp

lemma all_collections_closed:
  "list_all collections_closed [ds4_descriptor, ds5_descriptor, switch_descriptor,
    keyboard_mouse_descriptor, sc26_report_descriptor]"
  by code_simp

lemma xbox_one_is_series_without_share:
  "xbox_one_descriptor = xbox_series_descriptor_input @ xbox_series_descriptor_rumble"
  by (simp add: xbox_one_descriptor_def xbox_series_descriptor_input_def
      xbox_series_descriptor_rumble_def)

section \<open>Properties\<close>


lemma output_ids:
  "is_output_report i \<longleftrightarrow> uint i \<in> {128, 129, 130, 131, 132, 133, 134, 135, 136, 137}"
proof -
  have "(128 \<le> k \<and> k \<le> 137) = (k \<in> {128, 129, 130, 131, 132, 133, 134, 135, 136, 137})"
    for k :: int by (simp only: insert_iff empty_iff) presburger
  then show ?thesis by (simp add: is_output_report_def word_le_def)
qed

text \<open>The Steam Controller's size table is the descriptor's: for every
  byte, the wire size the code returns for it as a report id is one byte more than the
  descriptor declares under that id, zero exactly when the descriptor does not know the
  id, and the ids accepted as output reports are those the descriptor gives output bits.\<close>

theorem sc26_report_sizes_match_descriptor:
  "sc26_report_size i = (case map_of (report_bits sc26_report_descriptor) (uint i) of
      None \<Rightarrow> 0 | Some (inp, outp, feat) \<Rightarrow> 1 + nat ((inp + outp + feat) div 8)) \<and>
   (is_output_report i \<longleftrightarrow>
     (\<exists>inp outp feat. map_of (report_bits sc26_report_descriptor) (uint i) = Some (inp, outp, feat)
       \<and> outp > 0))"
  unfolding sc26_parsed
  by (auto simp: sc26_bits_def sc26_report_size_def output_ids word_uint_eq_iff)

end
