(* ===== verification/Xbox.thy ===== *)
theory Xbox
  imports Protocol
begin

text \<open>
  The Xbox Series and Xbox One profiles, \<^theory_text>\<open>driver/src/xbox_series.cpp\<close> and
  \<^theory_text>\<open>xbox_one.cpp\<close>: the input encoder with its axis, trigger, hat and button
  conversions, the packed bytes of both reports, the rumble decoder and its feedback event.
  The general-purpose D-pad reading shared by the profiles (the four direction masks, with
  opposite directions cancelling) is stated here once.
\<close>

section \<open>Conversions\<close>

definition k_xbox_series_input_report_id :: byte
  where "k_xbox_series_input_report_id = 1"

definition k_xbox_series_output_report_id :: byte
  where "k_xbox_series_output_report_id = 3"

definition k_xbox_trigger_max :: nat
  where "k_xbox_trigger_max = 1023"

definition k_xbox_rumble_max :: byte
  where "k_xbox_rumble_max = 100"

definition xbox_encode_hat :: "u32 \<Rightarrow> byte"
  where "xbox_encode_hat buttons =
    (let up = has buttons button_dpad_up; down = has buttons button_dpad_down;
         left = has buttons button_dpad_left; right = has buttons button_dpad_right
     in if (up \<and> down) \<or> (left \<and> right) then 0
        else if up then (if right then 2 else if left then 8 else 1)
        else if down then (if right then 4 else if left then 6 else 5)
        else if right then 3 else if left then 7 else 0)"

definition u16_if :: "bool \<Rightarrow> u16 \<Rightarrow> u16"
  where "u16_if c w = (if c then w else 0)"

definition xbox_map_buttons :: "u32 \<Rightarrow> u16"
  where "xbox_map_buttons buttons =
    u16_if (has buttons button_south) 0x0001 OR
    u16_if (has buttons button_east) 0x0002 OR
    u16_if (has buttons button_west) 0x0008 OR
    u16_if (has buttons button_north) 0x0010 OR
    u16_if (has buttons button_left_shoulder) 0x0040 OR
    u16_if (has buttons button_right_shoulder) 0x0080 OR
    u16_if (has buttons button_back) 0x0400 OR
    u16_if (has buttons button_start) 0x0800 OR
    u16_if (has buttons button_home) 0x1000 OR
    u16_if (has buttons button_left_stick) 0x2000 OR
    u16_if (has buttons button_right_stick) 0x4000"

definition to_unsigned_axis :: "i16 \<Rightarrow> u16"
  where "to_unsigned_axis v = u16_of_int (v + 32768)"

definition to_unsigned_vertical_axis :: "i16 \<Rightarrow> u16"
  where "to_unsigned_vertical_axis v = u16_of_int (32767 - v)"

definition to_trigger :: "byte \<Rightarrow> u16"
  where "to_trigger v = of_nat (unat v * k_xbox_trigger_max div 255)"

definition from_rumble_percent :: "byte \<Rightarrow> u16"
  where "from_rumble_percent v =
    (let clamped = (if v > k_xbox_rumble_max then k_xbox_rumble_max else v)
     in of_nat (unat clamped * 65535 div unat k_xbox_rumble_max))"

section \<open>Reports\<close>

record xbox_series_input_report =
  xi_report_id :: byte
  xi_left_x :: u16
  xi_left_y :: u16
  xi_right_x :: u16
  xi_right_y :: u16
  xi_left_trigger :: u16
  xi_right_trigger :: u16
  xi_hat :: byte
  xi_buttons :: u16
  xi_share :: byte

record xbox_series_output_report =
  xo_report_id :: byte
  xo_enable_mask :: byte
  xo_left_trigger_motor :: byte
  xo_right_trigger_motor :: byte
  xo_left_motor :: byte
  xo_right_motor :: byte
  xo_duration :: byte
  xo_start_delay :: byte
  xo_loop_count :: byte

definition xbox_series_input_bytes :: "xbox_series_input_report \<Rightarrow> byte list"
  where "xbox_series_input_bytes r = xi_report_id r #
    le16_bytes (xi_left_x r) @ le16_bytes (xi_left_y r) @
    le16_bytes (xi_right_x r) @ le16_bytes (xi_right_y r) @
    le16_bytes (xi_left_trigger r) @ le16_bytes (xi_right_trigger r) @
    xi_hat r # le16_bytes (xi_buttons r) @ [xi_share r]"

definition xbox_output_of_bytes :: "byte list \<Rightarrow> xbox_series_output_report"
  where "xbox_output_of_bytes b = \<lparr>xo_report_id = b ! 0, xo_enable_mask = b ! 1,
    xo_left_trigger_motor = b ! 2, xo_right_trigger_motor = b ! 3, xo_left_motor = b ! 4,
    xo_right_motor = b ! 5, xo_duration = b ! 6, xo_start_delay = b ! 7, xo_loop_count = b ! 8\<rparr>"

definition encode_xbox_series_input :: "input_state_request \<Rightarrow> xbox_series_input_report"
  where "encode_xbox_series_input input = \<lparr>
    xi_report_id = k_xbox_series_input_report_id,
    xi_left_x = to_unsigned_axis (is_left_x input),
    xi_left_y = to_unsigned_vertical_axis (is_left_y input),
    xi_right_x = to_unsigned_axis (is_right_x input),
    xi_right_y = to_unsigned_vertical_axis (is_right_y input),
    xi_left_trigger = to_trigger (is_left_trigger input),
    xi_right_trigger = to_trigger (is_right_trigger input),
    xi_hat = xbox_encode_hat (is_buttons input),
    xi_buttons = xbox_map_buttons (is_buttons input),
    xi_share = (if has (is_buttons input) (button_misc OR button_touchpad) then 1 else 0)\<rparr>"

text \<open>The Xbox One report is the Series one truncated to its 16 bytes
  (\<^theory_text>\<open>memcpy(&report, &full, sizeof(report))\<close>), with its own, equal, report id.\<close>

definition encode_xbox_one_input :: "input_state_request \<Rightarrow> byte list"
  where "encode_xbox_one_input input =
    (take 16 (xbox_series_input_bytes (encode_xbox_series_input input)))
      [0 := k_xbox_series_input_report_id]"

definition decode_xbox_series_output ::
  "xbox_series_output_report \<Rightarrow> xbox_rumble_feedback option"
  where "decode_xbox_series_output output =
    (if xo_report_id output \<noteq> k_xbox_series_output_report_id then None
     else
       let mask = xo_enable_mask output;
           left_motor = (mask AND 0x08 \<noteq> 0); right_motor = (mask AND 0x04 \<noteq> 0);
           left_trigger = (mask AND 0x02 \<noteq> 0); right_trigger = (mask AND 0x01 \<noteq> 0)
       in Some \<lparr>
         xr_low_frequency = (if left_motor then from_rumble_percent (xo_left_motor output) else 0),
         xr_high_frequency = (if right_motor then from_rumble_percent (xo_right_motor output) else 0),
         xr_left_trigger =
           (if left_trigger then from_rumble_percent (xo_left_trigger_motor output) else 0),
         xr_right_trigger =
           (if right_trigger then from_rumble_percent (xo_right_trigger_motor output) else 0)\<rparr>)"

definition encode_xbox_series_feedback :: "u32 \<Rightarrow> xbox_rumble_feedback \<Rightarrow> feedback_event"
  where "encode_xbox_series_feedback controller_id rumble =
    make_event controller_id FB_Xbox_Rumble (xbox_rumble_bytes rumble)"

section \<open>Facts\<close>

text \<open>The eight compass points of a D-pad, opposite directions cancelling:
  \<^const>\<open>None\<close> is centred, \<open>0\<close> up, then clockwise.\<close>

definition dpad :: "u32 \<Rightarrow> nat option"
  where "dpad b =
    (let v = (if has b button_dpad_up then 1 else 0) - (if has b button_dpad_down then 1 else 0) :: int;
         h = (if has b button_dpad_right then 1 else 0) - (if has b button_dpad_left then 1 else 0) :: int;
         clash = (has b button_dpad_up \<and> has b button_dpad_down) \<or>
           (has b button_dpad_left \<and> has b button_dpad_right)
     in if clash then None
        else map_of [((1, 0), 0), ((1, 1), 1), ((0, 1), 2), ((- 1, 1), 3), ((- 1, 0), 4),
          ((- 1, - 1), 5), ((0, - 1), 6), ((1, - 1), 7)] (v, h))"

lemma xbox_hat_dpad:
  "xbox_encode_hat b = (case dpad b of None \<Rightarrow> 0 | Some n \<Rightarrow> of_nat n + 1)"
  by (cases "has b button_dpad_up"; cases "has b button_dpad_down"; cases "has b button_dpad_left";
      cases "has b button_dpad_right") (simp_all add: xbox_encode_hat_def dpad_def Let_def)

lemma length_xbox_series_input_bytes [layout_simps]: "length (xbox_series_input_bytes r) = 17"
  by (simp add: xbox_series_input_bytes_def)

lemma uint_u16_of_int: "0 \<le> i \<Longrightarrow> i < 65536 \<Longrightarrow> uint (u16_of_int i) = i"
  by (simp add: u16_of_int_def uint_word_of_int)

lemma uint_to_unsigned_axis: "i16_ok v \<Longrightarrow> uint (to_unsigned_axis v) = v + 32768"
  by (simp add: to_unsigned_axis_def i16_ok_def uint_u16_of_int)

lemma uint_to_unsigned_vertical_axis: "i16_ok v \<Longrightarrow> uint (to_unsigned_vertical_axis v) = 32767 - v"
  by (simp add: to_unsigned_vertical_axis_def i16_ok_def uint_u16_of_int)

lemma unat_to_trigger: "unat (to_trigger v) = unat v * 1023 div 255 \<and> unat v * 1023 div 255 \<le> 1023"
proof -
  have "unat v * 1023 \<le> 255 * 1023" using unat_byte_bound [of v] by simp
  then have "unat v * 1023 div 255 \<le> 1023" by (simp add: div_le_mono [of _ "255 * 1023" 255, simplified])
  then show ?thesis by (simp add: to_trigger_def k_xbox_trigger_max_def unat_of_nat_u16)
qed

lemma unat_from_rumble_percent:
  "unat (from_rumble_percent v) = min (unat v) 100 * 65535 div 100"
proof -
  have clamp: "unat (if v > 100 then 100 else v) = min (unat v) 100"
    by (simp add: word_less_nat_alt min_def)
  have "min (unat v) 100 * 65535 \<le> 100 * 65535" by simp
  then have "min (unat v) 100 * 65535 div 100 \<le> 65535"
    using div_le_mono by fastforce
  then show ?thesis
    unfolding from_rumble_percent_def k_xbox_rumble_max_def Let_def clamp
    by (simp add: unat_of_nat_u16 del: of_nat_mult)
qed

text \<open>Which bit of the report each button owns.\<close>

definition xbox_button_table :: "(u32 \<times> nat) list"
  where "xbox_button_table = [(button_south, 0), (button_east, 1), (button_west, 3),
    (button_north, 4), (button_left_shoulder, 6), (button_right_shoulder, 7), (button_back, 10),
    (button_start, 11), (button_home, 12), (button_left_stick, 13), (button_right_stick, 14)]"

lemma bit_u16_if: "bit (u16_if c w) n \<longleftrightarrow> c \<and> bit w n"
  by (simp add: u16_if_def)

lemma xbox_button_bits:
  "bit (xbox_map_buttons b) n \<longleftrightarrow> (\<exists>m. (m, n) \<in> set xbox_button_table \<and> has b m)"
proof -
  have lit: "bit w n \<longleftrightarrow> n = k" if "k < 16" "w = push_bit k 1" for k and w :: u16
    using that by (auto simp: bit_simps)
  have lits: "bit (0x0001 :: u16) n \<longleftrightarrow> n = 0"
    "bit (0x0002 :: u16) n \<longleftrightarrow> n = 1"
    "bit (0x0008 :: u16) n \<longleftrightarrow> n = 3"
    "bit (0x0010 :: u16) n \<longleftrightarrow> n = 4"
    "bit (0x0040 :: u16) n \<longleftrightarrow> n = 6"
    "bit (0x0080 :: u16) n \<longleftrightarrow> n = 7"
    "bit (0x0400 :: u16) n \<longleftrightarrow> n = 10"
    "bit (0x0800 :: u16) n \<longleftrightarrow> n = 11"
    "bit (0x1000 :: u16) n \<longleftrightarrow> n = 12"
    "bit (0x2000 :: u16) n \<longleftrightarrow> n = 13"
    "bit (0x4000 :: u16) n \<longleftrightarrow> n = 14"
    by (rule lit; simp)+
  show ?thesis
    unfolding xbox_map_buttons_def bit_or_iff bit_u16_if lits
    by (simp add: xbox_button_table_def) blast
qed

lemma length_encode_xbox_one_input [layout_simps]: "length (encode_xbox_one_input i) = 16"
  by (simp add: encode_xbox_one_input_def layout_simps)

lemma xbox_one_prefix:
  "xbox_series_input_bytes (encode_xbox_series_input i) =
    encode_xbox_one_input i @ [xi_share (encode_xbox_series_input i)]"
  by (simp add: encode_xbox_one_input_def xbox_series_input_bytes_def le16_bytes_def
      encode_xbox_series_input_def [of i])

section \<open>Properties\<close>

text \<open>The Xbox encoder loses nothing a pad reports: for any in-range
  input the sticks are the exact affine images of the protocol's axes (vertical ones turned
  over), the triggers fill 0 to 1023 without wrapping, the hat is the D-pad's compass point
  counted from one with zero as the null value, a button bit is set exactly when its button is
  held, and the Xbox One report is the Series report less its Share byte.\<close>

theorem xbox_input_faithful:
  assumes "i16_ok (is_left_x i)" "i16_ok (is_left_y i)" "i16_ok (is_right_x i)" "i16_ok (is_right_y i)"
  defines "r \<equiv> encode_xbox_series_input i"
  shows "uint (xi_left_x r) = is_left_x i + 32768 \<and> uint (xi_left_y r) = 32767 - is_left_y i \<and>
    uint (xi_right_x r) = is_right_x i + 32768 \<and> uint (xi_right_y r) = 32767 - is_right_y i \<and>
    unat (xi_left_trigger r) = unat (is_left_trigger i) * 1023 div 255 \<and>
    unat (xi_right_trigger r) = unat (is_right_trigger i) * 1023 div 255 \<and>
    xi_hat r = (case dpad (is_buttons i) of None \<Rightarrow> 0 | Some n \<Rightarrow> of_nat n + 1) \<and>
    (\<forall>n. bit (xi_buttons r) n \<longleftrightarrow>
      (\<exists>m. (m, n) \<in> set xbox_button_table \<and> has (is_buttons i) m)) \<and>
    length (xbox_series_input_bytes r) = 17 \<and>
    xbox_series_input_bytes r = encode_xbox_one_input i @ [xi_share r]"
  using assms(1-4) unat_to_trigger xbox_one_prefix [of i] length_encode_xbox_one_input [of i]
  unfolding r_def
  by (simp add: encode_xbox_series_input_def uint_to_unsigned_axis
      uint_to_unsigned_vertical_axis xbox_hat_dpad xbox_button_bits)

definition sample_input :: input_state_request
  where "sample_input = \<lparr>is_header = \<lparr>rh_size = 28, rh_version = 2, rh_reserved = 0\<rparr>,
    is_controller_id = 0, is_buttons = 0x1009, is_left_x = - 32768, is_left_y = 32767,
    is_right_x = 0, is_right_y = 0, is_left_trigger = 255, is_right_trigger = 0, is_reserved = 0\<rparr>"

lemma xbox_input_faithful_witness:
  "uint (xi_left_x (encode_xbox_series_input sample_input)) = 0 \<and>
   unat (xi_left_trigger (encode_xbox_series_input sample_input)) = 1023 \<and>
   xbox_series_input_bytes (encode_xbox_series_input sample_input) =
     encode_xbox_one_input sample_input @ [xi_share (encode_xbox_series_input sample_input)]"
  using xbox_input_faithful [of sample_input] by (simp add: sample_input_def i16_ok_def)

text \<open>A rumble write is decoded actuator by actuator: only report 3 is
  taken, a disabled actuator reads as zero, an enabled one as its percentage of full scale
  with anything above 100 clamped, and the event the host polls carries exactly these four
  values with the payload size its type announces.\<close>

theorem xbox_rumble_decoded:
  "(decode_xbox_series_output out = None \<longleftrightarrow> xo_report_id out \<noteq> 3) \<and>
   (case decode_xbox_series_output out of None \<Rightarrow> True | Some f \<Rightarrow>
      unat (xr_low_frequency f) =
        (if xo_enable_mask out AND 0x08 \<noteq> 0 then min (unat (xo_left_motor out)) 100 * 65535 div 100 else 0) \<and>
      unat (xr_high_frequency f) =
        (if xo_enable_mask out AND 0x04 \<noteq> 0 then min (unat (xo_right_motor out)) 100 * 65535 div 100 else 0) \<and>
      unat (xr_left_trigger f) =
        (if xo_enable_mask out AND 0x02 \<noteq> 0 then min (unat (xo_left_trigger_motor out)) 100 * 65535 div 100 else 0) \<and>
      unat (xr_right_trigger f) =
        (if xo_enable_mask out AND 0x01 \<noteq> 0 then min (unat (xo_right_trigger_motor out)) 100 * 65535 div 100 else 0) \<and>
      event_size_ok (encode_xbox_series_feedback c f) \<and>
      take 8 (fe_payload (encode_xbox_series_feedback c f)) = xbox_rumble_bytes f)"
proof -
  have ev: "event_size_ok (encode_xbox_series_feedback c f) \<and>
      take 8 (fe_payload (encode_xbox_series_feedback c f)) = xbox_rumble_bytes f" for f
    unfolding encode_xbox_series_feedback_def
    using make_event_size_ok [of "xbox_rumble_bytes f" FB_Xbox_Rumble c]
    by (simp add: layout_simps make_event_def)
  show ?thesis
    using ev by (simp add: decode_xbox_series_output_def k_xbox_series_output_report_id_def Let_def
        unat_from_rumble_percent)
qed

end
