(* ===== verification/Profile.thy ===== *)
theory Profile
  imports Descriptors Xbox
begin

text \<open>
  The profile table, \<^theory_text>\<open>driver/src/profile.h\<close> and \<^theory_text>\<open>profile.cpp\<close>:
  which controllers the driver will create, with the identity each child is stamped with, the
  availability mask, and the encoders of the generic profiles kept for development. The
  REG_MULTI_SZ hardware id lists are strings with their explicit NUL characters.
\<close>

section \<open>Identities\<close>

definition k_xbox_vendor_id :: u16
  where "k_xbox_vendor_id = 0x045E"

definition k_xbox_series_product_id :: u16
  where "k_xbox_series_product_id = 0x0B12"

definition k_xbox_series_version :: u16
  where "k_xbox_series_version = 0x0509"

definition k_xbox_one_product_id :: u16
  where "k_xbox_one_product_id = 0x02EA"

definition k_xbox_one_version :: u16
  where "k_xbox_one_version = 0x0408"

definition k_ds4_vendor_id :: u16
  where "k_ds4_vendor_id = 0x054C"

definition k_ds4_product_id :: u16
  where "k_ds4_product_id = 0x09CC"

definition k_ds4_version :: u16
  where "k_ds4_version = 0x0100"

definition k_ds5_vendor_id :: u16
  where "k_ds5_vendor_id = 0x054C"

definition k_ds5_product_id :: u16
  where "k_ds5_product_id = 0x0CE6"

definition k_ds5_version :: u16
  where "k_ds5_version = 0x0100"

definition k_switch_vendor_id :: u16
  where "k_switch_vendor_id = 0x057E"

definition k_switch_product_id :: u16
  where "k_switch_product_id = 0x2009"

definition k_switch_version :: u16
  where "k_switch_version = 0x0200"

definition k_sc26_vendor_id :: u16
  where "k_sc26_vendor_id = 0x28DE"

definition k_sc26_product_id :: u16
  where "k_sc26_product_id = 0x1302"

definition k_sc26_version :: u16
  where "k_sc26_version = 0x0307"

lemmas identity_defs = k_xbox_vendor_id_def k_xbox_series_product_id_def k_xbox_one_product_id_def
  k_ds4_vendor_id_def k_ds4_product_id_def k_ds5_vendor_id_def k_ds5_product_id_def
  k_switch_vendor_id_def k_switch_product_id_def k_sc26_vendor_id_def k_sc26_product_id_def

definition nul :: string
  where "nul = [CHR 0x00]"

definition hid_id :: "string \<Rightarrow> string"
  where "hid_id rest = ''HID'' @ [CHR 0x5C] @ rest"

definition k_xbox_series_hardware_ids :: string
  where "k_xbox_series_hardware_ids = hid_id ''VID_045E&PID_0B12&IG_00'' @ nul @
    hid_id ''VID_045E&PID_02FF&IG_00'' @ nul @ nul @ nul"

definition k_xbox_one_hardware_ids :: string
  where "k_xbox_one_hardware_ids = hid_id ''VID_045E&PID_02EA&IG_00'' @ nul @
    hid_id ''VID_045E&PID_02FF&IG_00'' @ nul @ nul @ nul"

definition k_ds4_hardware_ids :: string
  where "k_ds4_hardware_ids = hid_id ''VID_054C&PID_09CC'' @ nul @ nul"

definition k_ds5_hardware_ids :: string
  where "k_ds5_hardware_ids = hid_id ''VID_054C&PID_0CE6'' @ nul @ nul"

definition k_switch_hardware_ids :: string
  where "k_switch_hardware_ids = hid_id ''VID_057E&PID_2009'' @ nul @ nul"

definition k_sc26_hardware_ids :: string
  where "k_sc26_hardware_ids = hid_id ''VID_28DE&PID_1302'' @ nul @ nul"

lemmas hardware_ids_defs = k_xbox_series_hardware_ids_def k_xbox_one_hardware_ids_def
  k_ds4_hardware_ids_def k_ds5_hardware_ids_def k_switch_hardware_ids_def k_sc26_hardware_ids_def

section \<open>The table\<close>

record profile_definition =
  pd_id :: profile
  pd_report_descriptor :: "byte list"
  pd_vendor_id :: u16
  pd_product_id :: u16
  pd_version_number :: u16
  pd_force_feedback :: bool
  pd_hardware_ids :: string

definition xbox_series_profile :: profile_definition
  where "xbox_series_profile = \<lparr>pd_id = Xbox_Series, pd_report_descriptor = xbox_series_descriptor,
    pd_vendor_id = k_xbox_vendor_id, pd_product_id = k_xbox_series_product_id,
    pd_version_number = k_xbox_series_version, pd_force_feedback = False,
    pd_hardware_ids = k_xbox_series_hardware_ids\<rparr>"

definition xbox_one_profile :: profile_definition
  where "xbox_one_profile = \<lparr>pd_id = Xbox_One, pd_report_descriptor = xbox_one_descriptor,
    pd_vendor_id = k_xbox_vendor_id, pd_product_id = k_xbox_one_product_id,
    pd_version_number = k_xbox_one_version, pd_force_feedback = False,
    pd_hardware_ids = k_xbox_one_hardware_ids\<rparr>"

definition dualshock4_profile :: profile_definition
  where "dualshock4_profile = \<lparr>pd_id = Dualshock_4, pd_report_descriptor = ds4_descriptor,
    pd_vendor_id = k_ds4_vendor_id, pd_product_id = k_ds4_product_id,
    pd_version_number = k_ds4_version, pd_force_feedback = False,
    pd_hardware_ids = k_ds4_hardware_ids\<rparr>"

definition dualsense_profile :: profile_definition
  where "dualsense_profile = \<lparr>pd_id = Dualsense, pd_report_descriptor = ds5_descriptor,
    pd_vendor_id = k_ds5_vendor_id, pd_product_id = k_ds5_product_id,
    pd_version_number = k_ds5_version, pd_force_feedback = False,
    pd_hardware_ids = k_ds5_hardware_ids\<rparr>"

definition switch_pro_profile :: profile_definition
  where "switch_pro_profile = \<lparr>pd_id = Switch_Pro, pd_report_descriptor = switch_descriptor,
    pd_vendor_id = k_switch_vendor_id, pd_product_id = k_switch_product_id,
    pd_version_number = k_switch_version, pd_force_feedback = False,
    pd_hardware_ids = k_switch_hardware_ids\<rparr>"

definition steam_controller_profile :: profile_definition
  where "steam_controller_profile = \<lparr>pd_id = Steam_Controller,
    pd_report_descriptor = sc26_report_descriptor,
    pd_vendor_id = k_sc26_vendor_id, pd_product_id = k_sc26_product_id,
    pd_version_number = k_sc26_version, pd_force_feedback = False,
    pd_hardware_ids = k_sc26_hardware_ids\<rparr>"

definition report_descriptor_is_provisional :: bool
  where "report_descriptor_is_provisional = False"

fun find_profile :: "profile \<Rightarrow> profile_definition option"
  where
    "find_profile Generic_Hid = None"
  | "find_profile Generic_Pid = None"
  | "find_profile Xbox_Series = Some xbox_series_profile"
  | "find_profile Xbox_360 = None"
  | "find_profile Xbox_One = Some xbox_one_profile"
  | "find_profile Dualshock_4 = Some dualshock4_profile"
  | "find_profile Dualsense = Some dualsense_profile"
  | "find_profile Switch_Pro = Some switch_pro_profile"
  | "find_profile Steam_Controller =
      (if report_descriptor_is_provisional then None else Some steam_controller_profile)"

definition available_profiles :: u32
  where "available_profiles = foldl (\<lambda>mask candidate.
      if find_profile candidate \<noteq> None then mask OR profile_bit (profile_code candidate) else mask) 0
    [Generic_Hid, Generic_Pid, Xbox_360, Xbox_One, Xbox_Series, Dualshock_4, Dualsense,
     Switch_Pro, Steam_Controller]"

section \<open>The generic encoders\<close>

record generic_input_report =
  gi_report_id :: byte
  gi_buttons :: u32
  gi_hat_and_padding :: byte
  gi_left_x :: i16
  gi_left_y :: i16
  gi_right_x :: i16
  gi_right_y :: i16
  gi_left_trigger :: byte
  gi_right_trigger :: byte

record generic_output_report =
  go_report_id :: byte
  go_low_frequency_rumble :: byte
  go_high_frequency_rumble :: byte
  go_red :: byte
  go_green :: byte
  go_blue :: byte

definition generic_encode_hat :: "u32 \<Rightarrow> byte"
  where "generic_encode_hat buttons =
    (let up = has buttons button_dpad_up; down = has buttons button_dpad_down;
         left = has buttons button_dpad_left; right = has buttons button_dpad_right
     in if (up \<and> down) \<or> (left \<and> right) then 8
        else if up then (if right then 1 else if left then 7 else 0)
        else if down then (if right then 3 else if left then 5 else 4)
        else if right then 2 else if left then 6 else 8)"

definition k_source_buttons :: "u32 list"
  where "k_source_buttons = [button_south, button_east, button_west, button_north,
    button_left_shoulder, button_right_shoulder, button_back, button_start, button_left_stick,
    button_right_stick, button_home, button_paddle_1, button_paddle_2, button_paddle_3,
    button_paddle_4, button_touchpad, button_misc]"

definition generic_map_buttons :: "u32 \<Rightarrow> u32"
  where "generic_map_buttons buttons = foldl (\<lambda>mapped index.
      if has buttons (k_source_buttons ! index) then mapped OR push_bit index 1 else mapped)
    0 [0..<length k_source_buttons]"

definition to_hid_vertical_axis :: "i16 \<Rightarrow> i16"
  where "to_hid_vertical_axis v = (if v = - 32768 then 32767 else - v)"

definition encode_generic_input :: "input_state_request \<Rightarrow> generic_input_report"
  where "encode_generic_input input = \<lparr>gi_report_id = 1,
    gi_buttons = generic_map_buttons (is_buttons input),
    gi_hat_and_padding = generic_encode_hat (is_buttons input),
    gi_left_x = is_left_x input, gi_left_y = to_hid_vertical_axis (is_left_y input),
    gi_right_x = is_right_x input, gi_right_y = to_hid_vertical_axis (is_right_y input),
    gi_left_trigger = is_left_trigger input, gi_right_trigger = is_right_trigger input\<rparr>"

definition encode_generic_feedback :: "u32 \<Rightarrow> generic_output_report \<Rightarrow> feedback_event"
  where "encode_generic_feedback controller_id output =
    make_event controller_id FB_Generic_Rumble_Rgb (generic_rumble_bytes \<lparr>
      gr_low_frequency = push_bit 8 (ucast (go_low_frequency_rumble output)),
      gr_high_frequency = push_bit 8 (ucast (go_high_frequency_rumble output)),
      gr_red = go_red output, gr_green = go_green output, gr_blue = go_blue output,
      gr_reserved = 0\<rparr>)"

section \<open>Facts\<close>

text \<open>How PnP reads a REG_MULTI_SZ: NUL-terminated strings up to an empty one.\<close>

fun multi_sz :: "string \<Rightarrow> string \<Rightarrow> string list"
  where
    "multi_sz acc [] = []"
  | "multi_sz acc (c # cs) =
      (if c = CHR 0x00 then (if acc = [] then [] else rev acc # multi_sz [] cs)
       else multi_sz (c # acc) cs)"

definition hex_digit :: "nat \<Rightarrow> char"
  where "hex_digit n = ''0123456789ABCDEF'' ! n"

definition hex4 :: "u16 \<Rightarrow> string"
  where "hex4 w = map (\<lambda>k. hex_digit (unat (drop_bit k w AND 0xF))) [12, 8, 4, 0]"

definition identity_string :: "profile_definition \<Rightarrow> string"
  where "identity_string d = hid_id (''VID_'' @ hex4 (pd_vendor_id d) @ ''&PID_'' @ hex4 (pd_product_id d))"

definition names_identity :: "profile_definition \<Rightarrow> bool"
  where "names_identity d = (case multi_sz [] (pd_hardware_ids d) of
    [] \<Rightarrow> False
  | i # _ \<Rightarrow> take (length (identity_string d)) i = identity_string d)"

lemma names_identity_all:
  "list_all names_identity [xbox_series_profile, xbox_one_profile, dualshock4_profile,
    dualsense_profile, switch_pro_profile, steam_controller_profile]"
  by code_simp

lemma generic_hat_dpad:
  "generic_encode_hat b = (case dpad b of None \<Rightarrow> 8 | Some n \<Rightarrow> of_nat n)"
  by (cases "has b button_dpad_up"; cases "has b button_dpad_down"; cases "has b button_dpad_left";
      cases "has b button_dpad_right") (simp_all add: generic_encode_hat_def dpad_def Let_def)

lemma or_fold_bits:
  fixes c :: u32
  assumes "\<forall>i \<in> set is. i < 32" "n < 32"
  shows "bit (foldl (\<lambda>m i. if P i then m OR push_bit i 1 else m) c is) n \<longleftrightarrow>
    bit c n \<or> (n \<in> set is \<and> P n)"
  using assms
proof (induction "is" arbitrary: c)
  case (Cons i "is")
  have "bit (push_bit i 1 :: u32) n \<longleftrightarrow> n = i"
    using Cons.prems by (auto simp: bit_simps)
  with Cons show ?case by (auto simp: bit_simps)
qed simp

lemma source_button_count: "length k_source_buttons = 17"
  by (simp add: k_source_buttons_def)

lemma generic_button_bits:
  "n < 32 \<Longrightarrow> bit (generic_map_buttons b) n \<longleftrightarrow> n < 17 \<and> has b (k_source_buttons ! n)"
  unfolding generic_map_buttons_def source_button_count
  by (subst or_fold_bits) auto

section \<open>Properties\<close>

text \<open>The profile table is coherent: the availability mask advertises
  exactly the profiles a create request can obtain, a profile found is the one asked for, no
  force-feedback profile ships, and the first hardware id stamped on the child spells the very
  vendor and product id its HID attributes report.\<close>

theorem profile_table_coherent:
  "(bit available_profiles (unat (profile_code p) - 1) \<longleftrightarrow> find_profile p \<noteq> None) \<and>
   (case find_profile p of None \<Rightarrow> p \<in> {Generic_Hid, Generic_Pid, Xbox_360}
    | Some d \<Rightarrow> pd_id d = p \<and> \<not> pd_force_feedback d \<and> names_identity d)"
proof -
  have mask: "available_profiles = 0x17C" by code_simp
  show ?thesis
    unfolding mask using names_identity_all
    by (cases p) (simp_all add: report_descriptor_is_provisional_def xbox_series_profile_def
        xbox_one_profile_def dualshock4_profile_def dualsense_profile_def switch_pro_profile_def
        steam_controller_profile_def bit_simps)
qed

text \<open>The generic encoder and the Xbox one agree on the D-pad, and the
  generic encoder keeps the rest: a report bit is set exactly when its button is held, the hat is
  the compass point from zero (8 when centred, where the Xbox hat counts from one with 0), and
  the vertical axes are the exact negation except that the most negative value saturates.\<close>

lemma generic_input_faithful:
  assumes "i16_ok (is_left_y i)" "n < 32"
  shows "(bit (gi_buttons (encode_generic_input i)) n \<longleftrightarrow>
      n < 17 \<and> has (is_buttons i) (k_source_buttons ! n)) \<and>
    (case dpad (is_buttons i) of
       None \<Rightarrow> gi_hat_and_padding (encode_generic_input i) = 8 \<and> xbox_encode_hat (is_buttons i) = 0
     | Some d \<Rightarrow> gi_hat_and_padding (encode_generic_input i) = of_nat d \<and>
         xbox_encode_hat (is_buttons i) = of_nat d + 1) \<and>
    gi_left_y (encode_generic_input i) = min 32767 (- is_left_y i) \<and>
    i16_ok (gi_left_y (encode_generic_input i))"
  using assms by (auto simp: encode_generic_input_def generic_button_bits generic_hat_dpad
      xbox_hat_dpad to_hid_vertical_axis_def i16_ok_def split: option.split)

lemma generic_input_faithful_witness:
  "bit (gi_buttons (encode_generic_input sample_input)) 0 \<and>
    gi_left_y (encode_generic_input sample_input) = - 32767"
  using generic_input_faithful [of sample_input 0]
  by (simp add: sample_input_def i16_ok_def k_source_buttons_def button_south_def has_def)

end
