(* ===== verification/HidPath.thy ===== *)
theory HidPath
  imports Prelude
begin

text \<open>
  The identity of a virtual Steam Controller: the instance id the driver stamps on each child
  (\<^theory_text>\<open>format_instance_id\<close> in \<^theory_text>\<open>driver/src/driver.cpp\<close>) and the
  predicates by which a probe recognises it
  (\<^theory_text>\<open>include/libvirtualgamepad/hid_path.h\<close>). Wide strings are character lists.
\<close>

definition instance_prefix :: string
  where "instance_prefix = ''VibeshineGamepad''"

definition digit_char :: "nat \<Rightarrow> char"
  where "digit_char n = char_of (48 + n)"

text \<open>The string left in a buffer of \<open>cap\<close> characters.\<close>

definition format_instance_id :: "nat \<Rightarrow> nat \<Rightarrow> string"
  where "format_instance_id cap index =
    (if cap < length instance_prefix + 4 then []
     else instance_prefix @ (if index \<ge> 10 then [digit_char (index div 10 mod 10)] else []) @
       [digit_char (index mod 10)])"

fun starts_with :: "string \<Rightarrow> string \<Rightarrow> bool"
  where
    "starts_with [] s = True"
  | "starts_with (p # ps) [] = False"
  | "starts_with (p # ps) (c # cs) = (p = c \<and> starts_with ps cs)"

fun contains :: "string \<Rightarrow> string \<Rightarrow> bool"
  where
    "contains p [] = (p = [])"
  | "contains p (c # cs) = (starts_with p (c # cs) \<or> contains p cs)"

definition is_sc26_hid_path :: "string \<Rightarrow> bool"
  where "is_sc26_hid_path lower_path = contains ''vid_28de&pid_1302'' lower_path"

text \<open>The segment behind the last ampersand (\<^theory_text>\<open>rfind\<close>), if there is one.\<close>

fun last_segment :: "string \<Rightarrow> string option"
  where
    "last_segment [] = None"
  | "last_segment (c # cs) =
      (case last_segment cs of
         Some s \<Rightarrow> Some s
       | None \<Rightarrow> if c = CHR ''&'' then Some cs else None)"

definition child_prefix :: string
  where "child_prefix = ''vibeshinegamepad''"

definition is_digit :: "char \<Rightarrow> bool"
  where "is_digit c \<longleftrightarrow> 48 \<le> (of_char c :: nat) \<and> (of_char c :: nat) \<le> 57"

fun digits_value :: "nat \<Rightarrow> string \<Rightarrow> nat option"
  where
    "digits_value v [] = Some v"
  | "digits_value v (c # cs) =
      (if \<not> is_digit c then None else digits_value (v * 10 + (of_char c - 48)) cs)"

definition segment_slot :: "string \<Rightarrow> nat option"
  where "segment_slot segment =
    (if length segment \<le> length child_prefix \<or>
        take (length child_prefix) segment \<noteq> child_prefix then None
     else
       let digits = drop (length child_prefix) segment
       in if length digits > 3 \<or> (length digits > 1 \<and> digits ! 0 = CHR ''0'') then None
          else digits_value 0 digits)"

definition virtual_sc26_child_slot :: "string \<Rightarrow> nat option"
  where "virtual_sc26_child_slot lower_parent_instance_id =
    (case last_segment lower_parent_instance_id of
       None \<Rightarrow> None
     | Some segment \<Rightarrow> segment_slot segment)"

definition is_virtual_sc26_child_instance :: "string \<Rightarrow> nat \<Rightarrow> bool"
  where "is_virtual_sc26_child_instance lower_parent_instance_id slot \<longleftrightarrow>
    virtual_sc26_child_slot lower_parent_instance_id = Some slot"

text \<open>Windows' lower-casing of the characters the driver writes.\<close>

definition lower_char :: "char \<Rightarrow> char"
  where "lower_char c =
    (if 65 \<le> (of_char c :: nat) \<and> (of_char c :: nat) \<le> 90 then char_of ((of_char c :: nat) + 32) else c)"

lemma last_segment_snoc:
  "CHR ''&'' \<notin> set s \<Longrightarrow> last_segment (p @ CHR ''&'' # s) = Some s"
proof -
  assume s: "CHR ''&'' \<notin> set s"
  then have "last_segment s = None" by (induction s) auto
  then show ?thesis by (induction p) auto
qed

lemma last_segment_split: "last_segment s = Some t \<Longrightarrow> \<exists>p. s = p @ CHR ''&'' # t"
proof (induction s)
  case (Cons c cs)
  then show ?case
    by (cases "last_segment cs") (auto split: if_splits intro: exI [of _ "[]"] exI [of _ "c # p" for p])
qed simp

lemma digits_value_all: "digits_value v ds = Some n \<Longrightarrow> list_all is_digit ds"
  by (induction ds arbitrary: v) (auto split: if_splits)

lemma stamped_segments:
  "list_all (\<lambda>n. let s = map lower_char (format_instance_id 32 n)
      in CHR ''&'' \<notin> set s \<and> segment_slot s = Some n) [0..<100]"
  by code_simp

lemma stamped_segment:
  "n < 100 \<Longrightarrow> CHR ''&'' \<notin> set (map lower_char (format_instance_id 32 n)) \<and>
    segment_slot (map lower_char (format_instance_id 32 n)) = Some n"
  using stamped_segments by (auto simp: list_all_iff Let_def)

section \<open>Property\<close>

text \<open>The probe recognises exactly what the driver stamps: whatever the
  enumerator puts in front of the last ampersand, the instance id formatted for a slot below one
  hundred is read back as that slot, and any parent id that is accepted ends in the child's
  name followed by at most three plain decimal digits -- so a physical unit's USB parent never
  matches.\<close>

theorem instance_id_round_trip:
  "(n < 100 \<longrightarrow>
      virtual_sc26_child_slot (p @ ''&'' @ map lower_char (format_instance_id 32 n)) = Some n) \<and>
   (virtual_sc26_child_slot s = Some m \<longrightarrow>
      (\<exists>q ds. s = q @ ''&'' @ child_prefix @ ds \<and> ds \<noteq> [] \<and> length ds \<le> 3 \<and> list_all is_digit ds))"
proof -
  have fwd: "virtual_sc26_child_slot (p @ ''&'' @ map lower_char (format_instance_id 32 n)) = Some n"
    if "n < 100"
    using stamped_segment [OF that] last_segment_snoc [of "map lower_char (format_instance_id 32 n)" p]
    by (simp add: virtual_sc26_child_slot_def)
  have bwd: "\<exists>q ds. s = q @ ''&'' @ child_prefix @ ds \<and> ds \<noteq> [] \<and> length ds \<le> 3 \<and> list_all is_digit ds"
    if s: "virtual_sc26_child_slot s = Some m"
  proof -
    from s obtain t where t: "last_segment s = Some t" "length t > length child_prefix"
      "take (length child_prefix) t = child_prefix"
      "length (drop (length child_prefix) t) \<le> 3"
      "digits_value 0 (drop (length child_prefix) t) = Some m"
      by (auto simp: virtual_sc26_child_slot_def segment_slot_def Let_def split: option.splits if_splits)
    obtain q where "s = q @ CHR ''&'' # t" using last_segment_split [OF t(1)] ..
    moreover have "t = child_prefix @ drop (length child_prefix) t"
      using t(3) by (metis append_take_drop_id)
    ultimately show ?thesis using t(2,4) digits_value_all [OF t(5)]
      by (intro exI [of _ q] exI [of _ "drop (length child_prefix) t"]) auto
  qed
  from fwd bwd show ?thesis by blast
qed

lemma instance_id_round_trip_witness:
  "virtual_sc26_child_slot (''hid'' @ ''&'' @ map lower_char (format_instance_id 32 15)) = Some 15"
  using instance_id_round_trip [of 15 "''hid''"] by simp

end
