(* ===== verification/PlayStation.thy ===== *)
theory PlayStation
  imports Xbox
begin

text \<open>
  What \<^theory_text>\<open>driver/src/dualshock4.cpp\<close> and \<^theory_text>\<open>dualsense.cpp\<close>
  have in common, written out in both files with the same text: the stick and motion
  conversions, the packed touch point, and the two-contact touchpad with its tracking ids.
  The contact fields both state structs start from are the record
  \<^theory_text>\<open>touchpad\<close>, which the two states extend. The locale
  \<^theory_text>\<open>touch_surface\<close> states what a profile promises about its touchpad;
  both profiles interpret it.
\<close>

section \<open>Conversions\<close>

definition ps_encode_hat :: "u32 \<Rightarrow> byte"
  where "ps_encode_hat buttons =
    (let up = has buttons button_dpad_up; down = has buttons button_dpad_down;
         left = has buttons button_dpad_left; right = has buttons button_dpad_right
     in if (up \<and> down) \<or> (left \<and> right) then 8
        else if up then (if right then 1 else if left then 7 else 0)
        else if down then (if right then 3 else if left then 5 else 4)
        else if right then 2 else if left then 6 else 8)"

definition to_stick :: "i16 \<Rightarrow> byte"
  where "to_stick v = byte_of_int ((v + 32768) div 256)"

definition to_stick_inverted :: "i16 \<Rightarrow> byte"
  where "to_stick_inverted v =
    (let scaled = (32768 - v) div 256
     in byte_of_int (if scaled > 255 then 255 else if scaled < 0 then 0 else scaled))"

definition clamp_i16 :: "int \<Rightarrow> i16"
  where "clamp_i16 v = (if v > 32767 then 32767 else if v < - 32768 then - 32768 else v)"

definition k_ds4_accel_counts_per_g :: int
  where "k_ds4_accel_counts_per_g = 8192"

definition k_ds4_gyro_counts_per_dps :: int
  where "k_ds4_gyro_counts_per_dps = 16"

definition k_milli_g :: int
  where "k_milli_g = 9807"

definition convert_accel :: "int \<Rightarrow> i16"
  where "convert_accel milli =
    clamp_i16 (clamp (- 2147483648) 2147483647 ((milli * k_ds4_accel_counts_per_g) sdiv k_milli_g))"

definition convert_gyro :: "int \<Rightarrow> i16"
  where "convert_gyro milli =
    clamp_i16 (clamp (- 2147483648) 2147483647 ((milli * k_ds4_gyro_counts_per_dps) sdiv 1000))"

definition byte_if :: "bool \<Rightarrow> byte \<Rightarrow> byte"
  where "byte_if c b = (if c then b else 0)"

text \<open>A signed 16-bit field as its two wire bytes.\<close>

definition i16_bytes :: "i16 \<Rightarrow> byte list"
  where "i16_bytes v = le16_bytes (u16_of_int v)"

lemma length_i16_bytes [simp, layout_simps]: "length (i16_bytes v) = 2"
  by (simp add: i16_bytes_def)

lemma three: "length xs = 3 \<longleftrightarrow> (\<exists>a b c. xs = [a, b, c])"
  by (auto simp: length_Suc_conv numeral_3_eq_3)

section \<open>The touchpad\<close>

record touchpad =
  next_tracking_id :: byte
  contact_active :: "bool list"
  contact_tracking_id :: "byte list"
  contact_x :: "u16 list"
  contact_y :: "u16 list"

definition touch_contacts :: nat
  where "touch_contacts = 2"

text \<open>\<^theory_text>\<open>next_tracking_id = (next_tracking_id + 1) & 0x7F\<close>, with zero skipped.\<close>

definition bump_id :: "byte \<Rightarrow> byte"
  where "bump_id n = (let m = (n + 1) AND 0x7F in if m = 0 then 1 else m)"

lemma bump_id_neq: "bump_id n \<noteq> n"
proof -
  have "\<forall>k < 256. bump_id (of_nat k) \<noteq> of_nat k"
  proof -
    have "list_all (\<lambda>k. bump_id (of_int k) \<noteq> of_int k) [0..255]" by code_simp
    then have all: "bump_id (of_int k) \<noteq> of_int k" if "0 \<le> k" "k \<le> 255" for k
      using that by (simp add: list_all_iff)
    show ?thesis
    proof (intro allI impI)
      fix k :: nat assume "k < 256"
      then show "bump_id (of_nat k) \<noteq> of_nat k" using all [of "int k"] by simp
    qed
  qed
  then have "bump_id (of_nat (unat n)) \<noteq> of_nat (unat n)" using unat_byte_bound by blast
  then show ?thesis by simp
qed

lemma bump_id_range: "bump_id n \<noteq> 0 \<and> bump_id n AND 0x7F = bump_id n"
  by (simp add: bump_id_def Let_def and.assoc)

text \<open>The loop that hands out an id: take the next one, and again while the other
  finger, if it is down, holds it.\<close>

function allocate_id :: "byte option \<Rightarrow> byte \<Rightarrow> byte \<times> byte"
  where "allocate_id other n =
    (let i = n; n' = bump_id n in if other = Some i then allocate_id other n' else (i, n'))"
  by auto
termination
  by (relation "measure (\<lambda>(other, n). if other = Some n then 1 else 0)")
     (auto simp: bump_id_neq bump_id_neq [symmetric])

declare allocate_id.simps [simp del]

definition contact_down :: "nat \<Rightarrow> touch_state_request \<Rightarrow> 'a touchpad_scheme \<Rightarrow> 'a touchpad_scheme"
  where "contact_down index touch s =
    (let s = (if contact_active s ! index then s
              else let other = 1 - index;
                       (i, n) = allocate_id (if contact_active s ! other
                         then Some (contact_tracking_id s ! other) else None) (next_tracking_id s)
                   in s\<lparr>next_tracking_id := n,
                        contact_tracking_id := (contact_tracking_id s)[index := i]\<rparr>)
     in s\<lparr>contact_active := (contact_active s)[index := True],
          contact_x := (contact_x s)[index := ts_x touch],
          contact_y := (contact_y s)[index := ts_y touch]\<rparr>)"

definition apply_touch ::
  "touch_state_request \<Rightarrow> 'a touchpad_scheme \<Rightarrow> bool \<times> 'a touchpad_scheme"
  where "apply_touch touch s =
    (let event = ts_event_type touch
     in if event = touch_cancel_all then
          (True, s\<lparr>contact_active := map (\<lambda>_. False) (contact_active s)\<rparr>)
        else if unat (ts_contact_index touch) \<ge> touch_contacts then (False, s)
        else
          let index = unat (ts_contact_index touch)
          in if event = touch_down then (True, contact_down index touch s)
             else if event = touch_move \<or> event = touch_hover then
               (if \<not> contact_active s ! index then (False, s)
                else (True, s\<lparr>contact_x := (contact_x s)[index := ts_x touch],
                              contact_y := (contact_y s)[index := ts_y touch]\<rparr>))
             else if event = touch_up \<or> event = touch_cancel then
               (True, s\<lparr>contact_active := (contact_active s)[index := False]\<rparr>)
             else (False, s))"

definition pack_touch_point :: "bool \<Rightarrow> byte \<Rightarrow> u16 \<Rightarrow> u16 \<Rightarrow> byte list"
  where "pack_touch_point active tracking_id x y =
    [(if active then 0x00 else 0x80) OR (tracking_id AND 0x7F),
     ucast (x AND 0xFF),
     ucast ((drop_bit 8 x AND 0x0F) OR push_bit 4 (y AND 0x0F)),
     ucast (drop_bit 4 y AND 0xFF)]"

text \<open>\<^theory_text>\<open>to_touch_x\<close> and \<^theory_text>\<open>to_touch_y\<close>, by the surface size.\<close>

definition to_touch :: "nat \<Rightarrow> u16 \<Rightarrow> u16"
  where "to_touch extent v = of_nat (unat v * (extent - 1) div 65535)"

section \<open>Facts about tracking ids\<close>

lemma allocate_id_spec:
  assumes "allocate_id other n = (i, n')"
  shows "other \<noteq> Some i \<and> n' = bump_id i \<and> (i = n \<or> i = bump_id n)"
proof (cases "other = Some n")
  case True
  then have "allocate_id other n = allocate_id other (bump_id n)"
    by (subst allocate_id.simps) (simp add: Let_def)
  also have "... = (bump_id n, bump_id (bump_id n))"
    using True bump_id_neq [of n] by (subst allocate_id.simps) (simp add: Let_def)
  finally show ?thesis using assms True bump_id_neq [of n] by auto
next
  case False
  then have "allocate_id other n = (n, bump_id n)"
    by (subst allocate_id.simps) (simp add: Let_def)
  then show ?thesis using assms False by auto
qed

definition id_ok :: "byte \<Rightarrow> bool"
  where "id_ok i \<longleftrightarrow> i \<noteq> 0 \<and> i AND 0x7F = i"

text \<open>The invariant of a touchpad: two contacts, ids in use are seven-bit and not
  zero, and two fingers that are down have different ids.\<close>

definition touch_ok :: "'a touchpad_scheme \<Rightarrow> bool"
  where "touch_ok s \<longleftrightarrow> length (contact_active s) = 2 \<and> length (contact_tracking_id s) = 2 \<and>
    length (contact_x s) = 2 \<and> length (contact_y s) = 2 \<and> id_ok (next_tracking_id s) \<and>
    (\<forall>i < 2. contact_active s ! i \<longrightarrow> id_ok (contact_tracking_id s ! i)) \<and>
    (contact_active s ! 0 \<and> contact_active s ! 1 \<longrightarrow>
      contact_tracking_id s ! 0 \<noteq> contact_tracking_id s ! 1)"

lemma two: "(i :: nat) < 2 \<longleftrightarrow> i = 0 \<or> i = 1" by auto

lemma length_two: "length xs = 2 \<longleftrightarrow> (\<exists>a b. xs = [a, b])"
  by (auto simp: length_Suc_conv numeral_2_eq_2)

lemma id_ok_bump [simp]: "id_ok (bump_id n)"
  using bump_id_range by (simp add: id_ok_def)

lemma contact_down_ok:
  assumes "touch_ok s" "index < 2"
  shows "touch_ok (contact_down index touch s)"
proof (cases "contact_active s ! index")
  case True
  then show ?thesis using assms
    by (auto simp: touch_ok_def contact_down_def Let_def two nth_list_update)
next
  case False
  obtain i n where a: "allocate_id (if contact_active s ! (1 - index)
      then Some (contact_tracking_id s ! (1 - index)) else None) (next_tracking_id s) = (i, n)"
    by (metis surj_pair)
  have i: "id_ok i" "id_ok n"
    "contact_active s ! (1 - index) \<Longrightarrow> contact_tracking_id s ! (1 - index) \<noteq> i"
    using allocate_id_spec [OF a] assms(1) by (auto simp: touch_ok_def)
  from assms(2) consider "index = 0" | "index = 1" by (auto simp: two)
  then show ?thesis
    using assms(1) False a i
    by cases (auto simp: touch_ok_def contact_down_def Let_def two nth_list_update)
qed

lemma apply_touch_ok:
  assumes "touch_ok s"
  shows "touch_ok (snd (apply_touch touch s))"
proof -
  have idx: "unat (ts_contact_index touch) < 2" if "\<not> unat (ts_contact_index touch) \<ge> touch_contacts"
    using that by (simp add: touch_contacts_def)
  have move: "touch_ok (s\<lparr>contact_x := (contact_x s)[i := x], contact_y := (contact_y s)[i := y]\<rparr>)" for i x y
    using assms by (simp add: touch_ok_def)
  have held: "(contact_active s)[i := False] ! j \<Longrightarrow> contact_active s ! j" if "j < 2" for i j
    using assms that by (cases "i = j") (auto simp: touch_ok_def)
  have up: "touch_ok (s\<lparr>contact_active := (contact_active s)[i := False]\<rparr>)" for i
    using assms held [of 0 i] held [of 1 i] by (auto simp: touch_ok_def two)
  have cancel: "touch_ok (s\<lparr>contact_active := map (\<lambda>_. False) (contact_active s)\<rparr>)"
    using assms by (auto simp: touch_ok_def)
  show ?thesis
    using contact_down_ok [OF assms idx, of touch] assms move up cancel
    by (simp add: apply_touch_def Let_def)
qed

text \<open>A finger that stays down keeps its id.\<close>

lemma apply_touch_keeps_id:
  assumes "touch_ok s" "i < 2" "contact_active s ! i" "contact_active (snd (apply_touch touch s)) ! i"
  shows "contact_tracking_id (snd (apply_touch touch s)) ! i = contact_tracking_id s ! i"
proof -
  have down: "contact_tracking_id (contact_down k touch s) ! i = contact_tracking_id s ! i" if "k < 2" for k
    using assms(1-3) that
    by (cases "k = i") (auto simp: contact_down_def Let_def split: prod.split)
  show ?thesis
    using down by (simp add: apply_touch_def Let_def touch_contacts_def not_le)
qed

section \<open>The packed touch point\<close>

text \<open>How a host unpacks the four bytes: active, id, x, y.\<close>

definition unpack_touch_point :: "byte list \<Rightarrow> bool \<times> byte \<times> u16 \<times> u16"
  where "unpack_touch_point b =
    (b ! 0 AND 0x80 = 0, b ! 0 AND 0x7F,
     ucast (b ! 1) OR push_bit 8 (ucast (b ! 2 AND 0x0F)),
     ucast (drop_bit 4 (b ! 2)) OR push_bit 4 (ucast (b ! 3)))"

lemma length_pack_touch_point [simp, layout_simps]: "length (pack_touch_point a i x y) = 4"
  by (simp add: pack_touch_point_def)

lemma bit_0F: "bit (0x0F :: 'a :: len word) n \<longleftrightarrow> n < 4 \<and> n < LENGTH('a)"
proof -
  have "(0x0F :: 'a word) = mask 4" by (simp add: mask_eq_exp_minus_1)
  then show ?thesis by (simp only: bit_mask_iff possible_bit_word) blast
qed

lemma bit_FF: "bit (0xFF :: 'a :: len word) n \<longleftrightarrow> n < 8 \<and> n < LENGTH('a)"
proof -
  have "(0xFF :: 'a word) = mask 8" by (simp add: mask_eq_exp_minus_1)
  then show ?thesis by (simp only: bit_mask_iff possible_bit_word) blast
qed

lemma bit_7F: "bit (0x7F :: 'a :: len word) n \<longleftrightarrow> n < 7 \<and> n < LENGTH('a)"
proof -
  have "(0x7F :: 'a word) = mask 7" by (simp add: mask_eq_exp_minus_1)
  then show ?thesis by (simp only: bit_mask_iff possible_bit_word) blast
qed

lemma bit_80: "bit (0x80 :: byte) n \<longleftrightarrow> n = 7"
proof -
  have "(0x80 :: byte) = push_bit 7 1" by simp
  then show ?thesis by (simp only: bit_push_bit_iff bit_1_iff) auto
qed

lemma bit_F0: "bit (0xF0 :: u16) n \<longleftrightarrow> 4 \<le> n \<and> n < 8"
proof -
  have "(0xF0 :: u16) = push_bit 4 (mask 4)" by (simp add: mask_eq_exp_minus_1)
  then show ?thesis by (simp only: bit_push_bit_iff bit_mask_iff possible_bit_word) auto
qed

lemma below_4096: "unat (x :: u16) < 4096 \<Longrightarrow> bit x n \<Longrightarrow> n < 12"
proof (rule ccontr)
  assume x: "unat x < 4096" "bit x n" "\<not> n < 12"
  have "(2 :: nat) ^ 12 \<le> 2 ^ n" using x(3) by (intro power_increasing) auto
  then have "unat x div 2 ^ n = 0" using x(1) by simp
  moreover have "bit (unat x) n" using x(2) by (simp add: bit_unsigned_iff)
  ultimately show False by (simp add: bit_iff_odd)
qed

lemma unpack_pack:
  assumes "unat x < 4096" "unat y < 4096"
  shows "unpack_touch_point (pack_touch_point a i x y) = (a, i AND 0x7F, x, y)"
proof -
  have b0: "((if a then 0 else 0x80) OR (i AND 0x7F)) AND 0x80 = (0 :: byte) \<longleftrightarrow> a"
  proof
    assume "((if a then 0 else 0x80) OR (i AND 0x7F)) AND 0x80 = (0 :: byte)"
    then have "\<not> bit (((if a then 0 else 0x80) OR (i AND 0x7F)) AND 0x80) (7 :: nat)"
      by simp
    then show a by (auto simp: bit_simps bit_80 split: if_splits)
  next
    assume a
    then show "((if a then 0 else 0x80) OR (i AND 0x7F)) AND 0x80 = (0 :: byte)"
      by (simp add: and.assoc)
  qed
  have b1: "((if a then 0 else 0x80) OR (i AND 0x7F)) AND 0x7F = (i AND 0x7F :: byte)"
    by (rule bit_word_eqI) (auto simp: bit_simps bit_80 bit_7F simp del: bit_numeral_word_iff)
  have bx: "ucast (ucast (x AND 0xFF) :: byte) OR push_bit 8 (ucast
      (ucast ((drop_bit 8 x AND 0x0F) OR push_bit 4 (y AND 0x0F)) AND (0x0F :: byte))) = x"
  proof (rule bit_word_eqI)
    fix n assume "n < LENGTH(16)"
    then consider "n < 8" | "8 \<le> n" "n < 12" | "12 \<le> n" "n < 16" by fastforce
    then show "bit (ucast (ucast (x AND 0xFF) :: byte) OR push_bit 8 (ucast
        (ucast ((drop_bit 8 x AND 0x0F) OR push_bit 4 (y AND 0x0F)) AND (0x0F :: byte))) :: u16) n = bit x n"
      using below_4096 [OF assms(1), of n]
      by cases (auto simp: bit_simps bit_0F bit_FF bit_F0 simp del: bit_numeral_word_iff)
  qed
  have y: "ucast (drop_bit 4 (ucast ((drop_bit 8 x AND 0x0F) OR push_bit 4 (y AND 0x0F)) :: byte))
      OR push_bit 4 (ucast (ucast (drop_bit 4 y AND 0xFF) :: byte)) = y"
  proof (rule bit_word_eqI)
    fix n assume "n < LENGTH(16)"
    then consider "n < 4" | "4 \<le> n" "n < 12" | "12 \<le> n" "n < 16" by fastforce
    then show "bit (ucast (drop_bit 4 (ucast ((drop_bit 8 x AND 0x0F) OR push_bit 4 (y AND 0x0F)) :: byte))
        OR push_bit 4 (ucast (ucast (drop_bit 4 y AND 0xFF) :: byte)) :: u16) n = bit y n"
      using below_4096 [OF assms(2), of n]
      by cases (auto simp: bit_simps bit_0F bit_FF bit_F0 simp del: bit_numeral_word_iff)
  qed
  show ?thesis
    unfolding unpack_touch_point_def pack_touch_point_def
    using b0 b1 bx y by simp
qed

lemma to_touch_range:
  assumes "0 < extent" "extent \<le> 4096"
  shows "unat (to_touch extent v) = unat v * (extent - 1) div 65535 \<and> unat (to_touch extent v) < extent"
proof -
  have "unat v * (extent - 1) \<le> 65535 * (extent - 1)"
    using unat_u16_bound [of v] by (intro mult_right_mono) auto
  then have "unat v * (extent - 1) div 65535 \<le> extent - 1"
    by (metis div_le_mono nonzero_mult_div_cancel_left zero_neq_numeral)
  with assms show ?thesis by (simp add: to_touch_def unat_of_nat_u16 del: of_nat_mult)
qed

lemma length_concat_i16 [simp]: "length (concat (map i16_bytes xs)) = 2 * length xs"
  by (induction xs) simp_all

section \<open>Motion\<close>

lemma clamp_i16_ok: "i16_ok (clamp_i16 v)"
  by (simp add: clamp_i16_def i16_ok_def)

lemma i16_roundtrip: "i16_ok v \<Longrightarrow> sint (u16_of_int v) = v"
  by (simp add: i16_ok_def u16_of_int_def signed_of_int signed_take_bit_int_eq_self)

lemma convert_ok: "i16_ok (convert_accel v)" "i16_ok (convert_gyro v)"
  by (simp_all add: convert_accel_def convert_gyro_def clamp_i16_ok)

text \<open>How a host reads a signed field of a report.\<close>

definition read_i16 :: "byte list \<Rightarrow> nat \<Rightarrow> i16"
  where "read_i16 b k = sint (le16_of (b ! k) (b ! Suc k))"

lemma i16_bytes_nth:
  "i < length xs \<Longrightarrow> concat (map i16_bytes xs) ! (2 * i) = le16_bytes (u16_of_int (xs ! i)) ! 0 \<and>
    concat (map i16_bytes xs) ! Suc (2 * i) = le16_bytes (u16_of_int (xs ! i)) ! 1"
proof (induction xs arbitrary: i)
  case (Cons x xs)
  have x: "i16_bytes x = [le16_bytes (u16_of_int x) ! 0, le16_bytes (u16_of_int x) ! 1]"
    by (simp add: i16_bytes_def le16_bytes_def)
  show ?case
    using Cons.IH [of "i - 1"] Cons.prems x by (cases i) simp_all
qed simp

lemma read_i16_at:
  assumes "b = a @ concat (map i16_bytes xs) @ c" "i < length xs" "\<forall>v \<in> set xs. i16_ok v"
  shows "read_i16 b (length a + 2 * i) = xs ! i"
proof -
  have at: "b ! (length a + 2 * i) = concat (map i16_bytes xs) ! (2 * i)"
    "b ! Suc (length a + 2 * i) = concat (map i16_bytes xs) ! Suc (2 * i)"
    using assms(1,2) by (simp_all add: nth_append)
  show ?thesis
    unfolding read_i16_def at
    using i16_bytes_nth [OF assms(2)] assms(2,3) by (simp add: le16_bytes_def i16_roundtrip)
qed

definition axes_ok :: "i16 list \<Rightarrow> bool"
  where "axes_ok xs \<longleftrightarrow> length xs = 3 \<and> (\<forall>v \<in> set xs. i16_ok v)"

lemma axes_wire:
  assumes "b = h @ concat (map i16_bytes g) @ concat (map i16_bytes a) @ rest" "axes_ok g" "axes_ok a"
    "i < 3"
  shows "read_i16 b (length h + 2 * i) = g ! i \<and> read_i16 b (length h + 6 + 2 * i) = a ! i"
proof -
  have g: "length g = 3" "length a = 3" using assms(2,3) by (simp_all add: axes_ok_def)
  have "read_i16 b (length (h @ concat (map i16_bytes g)) + 2 * i) = a ! i"
    by (rule read_i16_at [where c = rest]) (use assms g in \<open>simp_all add: axes_ok_def\<close>)
  moreover have "read_i16 b (length h + 2 * i) = g ! i"
    by (rule read_i16_at [where c = "concat (map i16_bytes a) @ rest"])
       (use assms g in \<open>simp_all add: axes_ok_def\<close>)
  ultimately show ?thesis by (simp add: g add.assoc)
qed

section \<open>Output reports merge into what the client sees\<close>

definition blank_playstation_output :: playstation_output_feedback
  where "blank_playstation_output = \<lparr>po_low_frequency = 0, po_high_frequency = 0, po_red = 0,
    po_green = 0, po_blue = 0, po_valid = 0, po_player_leds = 0, po_microphone_led = 0,
    po_left_trigger = \<lparr>te_mode = 0, te_parameters = replicate 10 0\<rparr>,
    po_right_trigger = \<lparr>te_mode = 0, te_parameters = replicate 10 0\<rparr>\<rparr>"

text \<open>What a history of writes leaves in a field that only some of them set.\<close>

definition latest :: "('a \<Rightarrow> bool) \<Rightarrow> ('a \<Rightarrow> 'b) \<Rightarrow> 'b \<Rightarrow> 'a list \<Rightarrow> 'b"
  where "latest P v d xs = (case filter P xs of [] \<Rightarrow> d | _ # _ \<Rightarrow> v (last (filter P xs)))"

lemma latest_Nil [simp]: "latest P v d [] = d"
  by (simp add: latest_def)

lemma latest_snoc [simp]: "latest P v d (xs @ [x]) = (if P x then v x else latest P v d xs)"
  by (simp add: latest_def split: list.split)

text \<open>A write that is refused leaves the stored feedback as it was.\<close>

definition merge_all :: "('a \<Rightarrow> 'b \<Rightarrow> 'b option) \<Rightarrow> 'b \<Rightarrow> 'a list \<Rightarrow> 'b"
  where "merge_all apply = foldl (\<lambda>f out. case apply out f of None \<Rightarrow> f | Some g \<Rightarrow> g)"

lemma merge_all_simps [simp]:
  "merge_all apply f [] = f"
  "merge_all apply f (xs @ [x]) =
    (case apply x (merge_all apply f xs) of None \<Rightarrow> merge_all apply f xs | Some g \<Rightarrow> g)"
  unfolding merge_all_def by simp_all

section \<open>An event for examples\<close>

definition sample_touch :: "byte \<Rightarrow> byte \<Rightarrow> u16 \<Rightarrow> u16 \<Rightarrow> touch_state_request"
  where "sample_touch event contact x y = \<lparr>ts_header = \<lparr>rh_size = 22, rh_version = 2, rh_reserved = 0\<rparr>, ts_controller_id = 1,
    ts_contact_index = contact, ts_event_type = event, ts_x = x, ts_y = y, ts_pressure = 0,
    ts_reserved = 0\<rparr>"

section \<open>What a touch surface promises\<close>

locale touch_surface =
  fixes pad :: "'s \<Rightarrow> touchpad"
    and step :: "touch_state_request \<Rightarrow> 's \<Rightarrow> bool \<times> 's"
    and start :: 's
  assumes start_ok: "touch_ok (pad start)"
    and step_accepts: "fst (step t s) = fst (apply_touch t (pad s))"
    and step_pad: "pad (snd (step t s)) = snd (apply_touch t (pad s))"
begin

definition after :: "touch_state_request list \<Rightarrow> 's"
  where "after ts = foldl (\<lambda>s t. snd (step t s)) start ts"

lemma after_ok: "touch_ok (pad (after ts))"
  by (induction ts rule: rev_induct) (simp_all add: after_def start_ok step_pad apply_touch_ok)

lemma distinct_ids:
  "contact_active (pad (after ts)) ! 0 \<Longrightarrow> contact_active (pad (after ts)) ! 1 \<Longrightarrow>
    contact_tracking_id (pad (after ts)) ! 0 \<noteq> contact_tracking_id (pad (after ts)) ! 1"
  using after_ok [of ts] by (simp add: touch_ok_def)

lemma active_id_ok:
  "i < 2 \<Longrightarrow> contact_active (pad (after ts)) ! i \<Longrightarrow> id_ok (contact_tracking_id (pad (after ts)) ! i)"
  using after_ok [of ts] by (simp add: touch_ok_def)

lemma held_id:
  assumes "i < 2" "contact_active (pad (after ts)) ! i" "contact_active (pad (after (ts @ [t]))) ! i"
  shows "contact_tracking_id (pad (after (ts @ [t]))) ! i = contact_tracking_id (pad (after ts)) ! i"
  using apply_touch_keeps_id [OF after_ok assms(1,2), of t] assms(3)
  by (simp add: after_def step_pad)

lemma step_ok: "touch_ok (pad s) \<Longrightarrow> touch_ok (pad (snd (step t s)))"
  by (simp add: step_pad apply_touch_ok)

lemma step_keeps_id:
  "touch_ok (pad s) \<Longrightarrow> i < 2 \<Longrightarrow> contact_active (pad s) ! i \<Longrightarrow>
    contact_active (pad (snd (step t s))) ! i \<Longrightarrow>
    contact_tracking_id (pad (snd (step t s))) ! i = contact_tracking_id (pad s) ! i"
  by (simp add: step_pad apply_touch_keeps_id)

text \<open>The contract of the touchpad, in one statement.\<close>

lemma touch_identity:
  "(contact_active (pad (after ts)) ! 0 \<and> contact_active (pad (after ts)) ! 1 \<longrightarrow>
      contact_tracking_id (pad (after ts)) ! 0 \<noteq> contact_tracking_id (pad (after ts)) ! 1) \<and>
   (\<forall>i < 2. contact_active (pad (after ts)) ! i \<longrightarrow>
      id_ok (contact_tracking_id (pad (after ts)) ! i) \<and>
      (contact_active (pad (after (ts @ [t]))) ! i \<longrightarrow>
        contact_tracking_id (pad (after (ts @ [t]))) ! i = contact_tracking_id (pad (after ts)) ! i))"
  using distinct_ids active_id_ok held_id by blast

end

lemma touch_ok_truncate [simp]: "touch_ok (touchpad.truncate s) = touch_ok s"
  by (simp add: touch_ok_def touchpad.defs)

lemma truncate_contacts [simp]:
  "contact_active (touchpad.truncate s) = contact_active s"
  "contact_tracking_id (touchpad.truncate s) = contact_tracking_id s"
  by (simp_all add: touchpad.defs)

lemma truncate_apply_touch:
  "fst (apply_touch t s) = fst (apply_touch t (touchpad.truncate s)) \<and>
   touchpad.truncate (snd (apply_touch t s)) = snd (apply_touch t (touchpad.truncate s))"
  by (simp add: apply_touch_def contact_down_def Let_def touchpad.defs split: prod.split)

end
