(* ===== verification/DualShock4.thy ===== *)
theory DualShock4
  imports PlayStation
begin

text \<open>
  The DualShock 4 profile: \<^theory_text>\<open>driver/src/dualshock4.h\<close>,
  \<^theory_text>\<open>dualshock4.cpp\<close> and the USB feature contract of
  \<^theory_text>\<open>include/libvirtualgamepad/ds4_usb.h\<close>. A nullable state pointer is an
  option, a buffer of a feature request an optional byte list of its capacity.
\<close>

section \<open>USB feature reports\<close>

definition ds4_calibration_id :: byte
  where "ds4_calibration_id = 0x02"

definition ds4_pairing_id :: byte
  where "ds4_pairing_id = 0x12"

definition ds4_control_id :: byte
  where "ds4_control_id = 0x14"

definition ds4_firmware_id :: byte
  where "ds4_firmware_id = 0xA3"

definition ds4_calibration :: "byte list"
  where "ds4_calibration = [
    0x02, 0, 0, 0, 0, 0, 0,
    0x00, 0x20, 0x00, 0xE0,
    0x00, 0x20, 0x00, 0xE0,
    0x00, 0x20, 0x00, 0xE0,
    0x00, 0x02, 0x00, 0x02,
    0x00, 0x20, 0x00, 0xE0,
    0x00, 0x20, 0x00, 0xE0,
    0x00, 0x20, 0x00, 0xE0,
    0, 0]"

definition ds4_firmware :: "byte list"
  where "ds4_firmware = (replicate 49 0)
    [0 := ds4_firmware_id, 34 := 0x01, 36 := 0x43, 37 := 0x03, 41 := 0x51, 43 := 0x05,
     46 := 0x80, 47 := 0x03]"

record ds4_features =
  ds4_address :: "byte list"
  ds4_sensors_enabled :: bool

definition ds4_default_features :: ds4_features
  where "ds4_default_features =
    \<lparr>ds4_address = [0x44, 0x41, 0x50, 0x47, 0x56, 0x02], ds4_sensors_enabled = True\<rparr>"

definition ds4_fill_pairing :: "byte list \<Rightarrow> byte list \<Rightarrow> byte list"
  where "ds4_fill_pairing address buffer =
    (overwrite 1 address (buffer[0 := ds4_pairing_id]))[7 := 0x08, 8 := 0x25, 9 := 0x00]"

definition ds4_feature_length :: "byte \<Rightarrow> nat option"
  where "ds4_feature_length i =
    (if i = ds4_calibration_id then Some (length ds4_calibration)
     else if i = ds4_pairing_id then Some 16
     else if i = ds4_control_id then Some 17
     else if i = ds4_firmware_id then Some (length ds4_firmware)
     else None)"

text \<open>Bytes written, and the buffer after the call.\<close>

definition ds4_get_feature ::
  "byte \<Rightarrow> byte list option \<Rightarrow> ds4_features \<Rightarrow> nat \<times> byte list option"
  where "ds4_get_feature i buffer state =
    (case ds4_feature_length i of
       None \<Rightarrow> (0, buffer)
     | Some len \<Rightarrow>
        (case buffer of
           None \<Rightarrow> (0, buffer)
         | Some b \<Rightarrow>
            if length b < len then (0, buffer)
            else
              let b = (map (\<lambda>_. 0) b)[0 := i]
              in (len, Some
                (if i = ds4_calibration_id then overwrite 0 ds4_calibration b
                 else if i = ds4_firmware_id then overwrite 0 ds4_firmware b
                 else if i = ds4_pairing_id then ds4_fill_pairing (ds4_address state) b
                 else b[1 := (if ds4_sensors_enabled state then 0x02 else 0)]))))"

definition ds4_set_feature :: "byte \<Rightarrow> byte list option \<Rightarrow> ds4_features \<Rightarrow> bool \<times> ds4_features"
  where "ds4_set_feature i buffer state =
    (case buffer of
       None \<Rightarrow> (False, state)
     | Some b \<Rightarrow>
        if i \<noteq> ds4_control_id \<or> length b < 17 \<or> b ! 0 \<noteq> i \<or> b ! 1 \<noteq> 0x02 then (False, state)
        else if list_ex (\<lambda>k. b ! k \<noteq> 0) [2..<17] then (False, state)
        else (True, state\<lparr>ds4_sensors_enabled := True\<rparr>))"

section \<open>State and reports\<close>

definition k_ds4_touch_width :: nat
  where "k_ds4_touch_width = 1920"

definition k_ds4_touch_height :: nat
  where "k_ds4_touch_height = 942"

record ds4_state = touchpad +
  ds4_features :: ds4_features
  ds4_report_counter :: byte
  ds4_timestamp :: u16
  ds4_touch_timestamp :: byte
  ds4_battery_level :: byte
  ds4_cable_connected :: bool
  ds4_battery_full :: bool
  ds4_gyro :: "i16 list"
  ds4_accel :: "i16 list"

definition ds4_reset :: ds4_state
  where "ds4_reset = \<lparr>next_tracking_id = 1, contact_active = [False, False],
    contact_tracking_id = [0, 0], contact_x = [0, 0], contact_y = [0, 0],
    ds4_features = ds4_default_features, ds4_report_counter = 0, ds4_timestamp = 0,
    ds4_touch_timestamp = 0, ds4_battery_level = 8, ds4_cable_connected = False,
    ds4_battery_full = False, ds4_gyro = [0, 0, 0], ds4_accel = [0, k_ds4_accel_counts_per_g, 0]\<rparr>"

record ds4_input_report =
  d4_report_id :: byte
  d4_left_x :: byte
  d4_left_y :: byte
  d4_right_x :: byte
  d4_right_y :: byte
  d4_buttons0 :: byte
  d4_buttons1 :: byte
  d4_buttons2 :: byte
  d4_left_trigger :: byte
  d4_right_trigger :: byte
  d4_timestamp :: u16
  d4_battery :: byte
  d4_gyro :: "i16 list"
  d4_accel :: "i16 list"
  d4_battery_status :: byte
  d4_touch_packet_count :: byte
  d4_touch_timestamp :: byte
  d4_touch_points :: "byte list list"

text \<open>The 64 packed bytes; the second and third touch packets stay zero.\<close>

definition ds4_input_bytes :: "ds4_input_report \<Rightarrow> byte list"
  where "ds4_input_bytes r =
    [d4_report_id r, d4_left_x r, d4_left_y r, d4_right_x r, d4_right_y r,
     d4_buttons0 r, d4_buttons1 r, d4_buttons2 r, d4_left_trigger r, d4_right_trigger r] @
    le16_bytes (d4_timestamp r) @ [d4_battery r] @
    concat (map i16_bytes (d4_gyro r)) @ concat (map i16_bytes (d4_accel r)) @
    replicate 5 0 @ [d4_battery_status r] @ replicate 2 0 @
    [d4_touch_packet_count r, d4_touch_timestamp r] @ concat (d4_touch_points r) @
    replicate 18 0 @ replicate 3 0"

record ds4_output_report =
  o4_report_id :: byte
  o4_flags :: byte
  o4_right_rumble :: byte
  o4_left_rumble :: byte
  o4_red :: byte
  o4_green :: byte
  o4_blue :: byte

definition ds4_output_of_bytes :: "byte list \<Rightarrow> ds4_output_report"
  where "ds4_output_of_bytes b = \<lparr>o4_report_id = b ! 0, o4_flags = b ! 1, o4_right_rumble = b ! 4,
    o4_left_rumble = b ! 5, o4_red = b ! 6, o4_green = b ! 7, o4_blue = b ! 8\<rparr>"

section \<open>Operations\<close>

definition ds4_buttons0 :: "input_state_request \<Rightarrow> byte"
  where "ds4_buttons0 input =
    ps_encode_hat (is_buttons input) OR
    byte_if (has (is_buttons input) button_west) 0x10 OR
    byte_if (has (is_buttons input) button_south) 0x20 OR
    byte_if (has (is_buttons input) button_east) 0x40 OR
    byte_if (has (is_buttons input) button_north) 0x80"

definition ds4_buttons1 :: "input_state_request \<Rightarrow> byte"
  where "ds4_buttons1 input =
    byte_if (has (is_buttons input) button_left_shoulder) 0x01 OR
    byte_if (has (is_buttons input) button_right_shoulder) 0x02 OR
    byte_if (is_left_trigger input > 0) 0x04 OR
    byte_if (is_right_trigger input > 0) 0x08 OR
    byte_if (has (is_buttons input) button_back) 0x10 OR
    byte_if (has (is_buttons input) button_start) 0x20 OR
    byte_if (has (is_buttons input) button_left_stick) 0x40 OR
    byte_if (has (is_buttons input) button_right_stick) 0x80"

definition ds4_buttons2 :: "input_state_request \<Rightarrow> byte"
  where "ds4_buttons2 input =
    byte_if (has (is_buttons input) button_home) 0x01 OR
    byte_if (has (is_buttons input) (button_touchpad OR button_misc)) 0x02"

definition ds4_status :: "ds4_state \<Rightarrow> byte"
  where "ds4_status state =
    (let status = ds4_battery_level state AND 0x0F;
         status = (if ds4_cable_connected state then status OR 0x10 else status)
     in if ds4_battery_full state \<and> ds4_cable_connected state then 0x1B else status)"

definition ds4_touch_point :: "ds4_state \<Rightarrow> nat \<Rightarrow> byte list"
  where "ds4_touch_point state i = pack_touch_point (contact_active state ! i)
    (contact_tracking_id state ! i) (to_touch k_ds4_touch_width (contact_x state ! i))
    (to_touch k_ds4_touch_height (contact_y state ! i))"

text \<open>What every report counts up: the six-bit counter, the sensor clock and the touch
  packet clock.\<close>

definition ds4_advance :: "u64 \<Rightarrow> ds4_state \<Rightarrow> ds4_state"
  where "ds4_advance now_us s =
    s\<lparr>ds4_report_counter := (ds4_report_counter s + 1) AND 0x3F,
      ds4_timestamp := (if now_us \<noteq> 0 then ucast ((now_us * 3) div 16) else ds4_timestamp s + 188),
      ds4_touch_timestamp := ds4_touch_timestamp s + 1\<rparr>"

definition encode_ds4_input ::
  "input_state_request \<Rightarrow> ds4_state option \<Rightarrow> u64 \<Rightarrow> ds4_input_report \<times> ds4_state option"
  where "encode_ds4_input input state now_us =
    (let state' = map_option (ds4_advance now_us) state
     in (\<lparr>d4_report_id = 0x01,
       d4_left_x = to_stick (is_left_x input), d4_left_y = to_stick_inverted (is_left_y input),
       d4_right_x = to_stick (is_right_x input), d4_right_y = to_stick_inverted (is_right_y input),
       d4_buttons0 = ds4_buttons0 input, d4_buttons1 = ds4_buttons1 input,
       d4_buttons2 = ds4_buttons2 input OR
         (case state' of None \<Rightarrow> 0 | Some s \<Rightarrow> push_bit 2 (ds4_report_counter s)),
       d4_left_trigger = is_left_trigger input, d4_right_trigger = is_right_trigger input,
       d4_timestamp = (case state' of None \<Rightarrow> 0 | Some s \<Rightarrow> ds4_timestamp s),
       d4_battery = (case state' of None \<Rightarrow> 8 | Some s \<Rightarrow> ds4_battery_level s),
       d4_gyro = (case state' of None \<Rightarrow> [0, 0, 0] | Some s \<Rightarrow> ds4_gyro s),
       d4_accel = (case state' of None \<Rightarrow> [0, k_ds4_accel_counts_per_g, 0] | Some s \<Rightarrow> ds4_accel s),
       d4_battery_status = (case state' of None \<Rightarrow> 0x08 | Some s \<Rightarrow> ds4_status s),
       d4_touch_packet_count = (case state' of None \<Rightarrow> 0 | Some s \<Rightarrow> 1),
       d4_touch_timestamp = (case state' of None \<Rightarrow> 0 | Some s \<Rightarrow> ds4_touch_timestamp s),
       d4_touch_points = (case state' of
           None \<Rightarrow> [pack_touch_point False 0 0 0, pack_touch_point False 0 0 0]
         | Some s \<Rightarrow> [ds4_touch_point s 0, ds4_touch_point s 1])\<rparr>,
      state'))"

definition apply_ds4_touch :: "touch_state_request \<Rightarrow> ds4_state \<Rightarrow> bool \<times> ds4_state"
  where "apply_ds4_touch touch s = apply_touch touch s"

definition apply_ds4_motion :: "motion_state_request \<Rightarrow> ds4_state \<Rightarrow> bool \<times> ds4_state"
  where "apply_ds4_motion motion s =
    (if ms_motion_type motion = motion_accelerometer then
       (True, s\<lparr>ds4_accel := map convert_accel
         [ms_x_milli motion, ms_y_milli motion, ms_z_milli motion]\<rparr>)
     else if ms_motion_type motion = motion_gyroscope then
       (True, s\<lparr>ds4_gyro := map convert_gyro
         [ms_x_milli motion, ms_y_milli motion, ms_z_milli motion]\<rparr>)
     else (False, s))"

definition apply_ds4_battery :: "battery_state_request \<Rightarrow> ds4_state \<Rightarrow> bool \<times> ds4_state"
  where "apply_ds4_battery battery s =
    (let reported = bs_flags battery;
         s = s\<lparr>ds4_cable_connected := (reported = battery_charging \<or> reported = battery_full \<or>
                 reported = battery_not_charging),
               ds4_battery_full := (reported = battery_full)\<rparr>
     in (True, if bs_percent battery \<le> 100
         then s\<lparr>ds4_battery_level := (if bs_percent battery \<ge> 100 then 10 else bs_percent battery div 10)\<rparr>
         else s))"

definition apply_ds4_output ::
  "ds4_output_report \<Rightarrow> playstation_output_feedback \<Rightarrow> playstation_output_feedback option"
  where "apply_ds4_output out f =
    (if o4_report_id out \<noteq> 0x05 then None
     else
       let f = (if o4_flags out AND 0x01 \<noteq> 0 then
             f\<lparr>po_low_frequency := push_bit 8 (ucast (o4_left_rumble out)),
               po_high_frequency := push_bit 8 (ucast (o4_right_rumble out))\<rparr> else f);
           f = (if o4_flags out AND 0x02 \<noteq> 0 then
             f\<lparr>po_red := o4_red out, po_green := o4_green out, po_blue := o4_blue out,
               po_valid := po_valid f OR ps_output_lightbar_valid\<rparr> else f)
       in Some f)"

definition decode_ds4_output :: "ds4_output_report \<Rightarrow> playstation_output_feedback option"
  where "decode_ds4_output out = apply_ds4_output out blank_playstation_output"

definition encode_playstation_feedback :: "u32 \<Rightarrow> playstation_output_feedback \<Rightarrow> feedback_event"
  where "encode_playstation_feedback controller_id feedback =
    make_event controller_id FB_Playstation_Output (playstation_output_bytes feedback)"

interpretation ds4_pad: touch_surface touchpad.truncate apply_ds4_touch ds4_reset
proof
  show "touch_ok (touchpad.truncate ds4_reset)"
    by (simp add: touch_ok_def ds4_reset_def touchpad.defs id_ok_def two)
next
  fix t s
  show "fst (apply_ds4_touch t s) = fst (apply_touch t (touchpad.truncate s))"
    and "touchpad.truncate (snd (apply_ds4_touch t s)) = snd (apply_touch t (touchpad.truncate s))"
    using truncate_apply_touch [of t s] by (simp_all add: apply_ds4_touch_def)
qed

section \<open>The states a pad goes through\<close>

inductive ds4_reachable :: "ds4_state \<Rightarrow> bool"
  where
    ds4_start: "ds4_reachable ds4_reset"
  | ds4_touch: "ds4_reachable s \<Longrightarrow> ds4_reachable (snd (apply_ds4_touch t s))"
  | ds4_motion: "ds4_reachable s \<Longrightarrow> ds4_reachable (snd (apply_ds4_motion m s))"
  | ds4_battery: "ds4_reachable s \<Longrightarrow> ds4_reachable (snd (apply_ds4_battery p s))"
  | ds4_report: "ds4_reachable s \<Longrightarrow> ds4_reachable (ds4_advance now s)"
  | ds4_feature: "ds4_reachable s \<Longrightarrow>
      ds4_reachable (s\<lparr>ds4_features := snd (ds4_set_feature i buffer (ds4_features s))\<rparr>)"
  | ds4_name: "ds4_reachable s \<Longrightarrow> ds4_reachable (s\<lparr>ds4_features := (ds4_features s)
      \<lparr>ds4_address := (ds4_address (ds4_features s))[0 := a]\<rparr>\<rparr>)"

definition ds4_ok :: "ds4_state \<Rightarrow> bool"
  where "ds4_ok s \<longleftrightarrow> touch_ok s \<and> axes_ok (ds4_gyro s) \<and> axes_ok (ds4_accel s) \<and>
    unat (ds4_battery_level s) \<le> 10 \<and> (ds4_battery_full s \<longrightarrow> ds4_cable_connected s)"

lemma touch_ok_ds4 [simp]:
  "touch_ok (s\<lparr>ds4_accel := a\<rparr>) = touch_ok s" "touch_ok (s\<lparr>ds4_gyro := a\<rparr>) = touch_ok s"
  "touch_ok (s\<lparr>ds4_cable_connected := c, ds4_battery_full := f\<rparr>) = touch_ok s"
  "touch_ok (s\<lparr>ds4_battery_level := l\<rparr>) = touch_ok s"
  "touch_ok (s\<lparr>ds4_features := k\<rparr>) = touch_ok s"
  "touch_ok (ds4_advance n s) = touch_ok s"
  by (simp_all add: touch_ok_def ds4_advance_def)

lemma apply_ds4_touch_frame:
  "ds4_gyro (snd (apply_touch t s)) = ds4_gyro s" "ds4_accel (snd (apply_touch t s)) = ds4_accel s"
  "ds4_battery_level (snd (apply_touch t s)) = ds4_battery_level s"
  "ds4_battery_full (snd (apply_touch t s)) = ds4_battery_full s"
  "ds4_cable_connected (snd (apply_touch t s)) = ds4_cable_connected s"
  by (simp_all add: apply_touch_def contact_down_def Let_def split: prod.split)

lemma ds4_reachable_ok: "ds4_reachable s \<Longrightarrow> ds4_ok s"
proof (induction rule: ds4_reachable.induct)
  case ds4_start
  show ?case using ds4_pad.start_ok
    by (simp add: ds4_ok_def axes_ok_def ds4_reset_def i16_ok_def k_ds4_accel_counts_per_g_def)
next
  case (ds4_touch s t)
  then show ?case using ds4_pad.step_ok [of s t]
    by (simp add: ds4_ok_def) (simp add: apply_ds4_touch_def apply_ds4_touch_frame)
next
  case (ds4_motion s m)
  then show ?case by (simp add: ds4_ok_def apply_ds4_motion_def axes_ok_def convert_ok)
next
  case (ds4_battery s p)
  have "unat (bs_percent p div 10) \<le> 10" if "bs_percent p \<le> 100"
    using that by (simp add: word_le_nat_alt unat_div)
  with ds4_battery show ?case by (simp add: ds4_ok_def apply_ds4_battery_def Let_def touch_ok_def)
next
  case (ds4_report s now)
  then show ?case by (simp add: ds4_ok_def) (simp add: ds4_advance_def)
next
  case (ds4_feature s i buffer)
  then show ?case by (simp add: ds4_ok_def)
next
  case (ds4_name s a)
  then show ?case by (simp add: ds4_ok_def)
qed

lemma ds4_advance_fields [simp]:
  "ds4_gyro (ds4_advance n s) = ds4_gyro s" "ds4_accel (ds4_advance n s) = ds4_accel s"
  "ds4_touch_point (ds4_advance n s) i = ds4_touch_point s i"
  "ds4_status (ds4_advance n s) = ds4_status s"
  by (simp_all add: ds4_advance_def ds4_touch_point_def ds4_status_def)

text \<open>The head of the report before each of the four parts a host reads back.\<close>

lemma ds4_bytes_split:
  fixes input now
  assumes "ds4_ok s"
  defines "b \<equiv> ds4_input_bytes (fst (encode_ds4_input input (Some s) now))"
  shows "\<exists>h m n t. length h = 13 \<and> length m = 5 \<and> length n = 4 \<and> length t = 21 \<and>
    b = h @ concat (map i16_bytes (ds4_gyro s)) @ concat (map i16_bytes (ds4_accel s)) @ m @
      [ds4_status s] @ n @ ds4_touch_point s 0 @ ds4_touch_point s 1 @ t"
proof -
  define r where "r = fst (encode_ds4_input input (Some s) now)"
  have f: "d4_touch_points r = [ds4_touch_point s 0, ds4_touch_point s 1]"
    "d4_gyro r = ds4_gyro s" "d4_accel r = ds4_accel s" "d4_battery_status r = ds4_status s"
    by (simp_all add: r_def encode_ds4_input_def Let_def)
  show ?thesis
    by (rule exI [of _ "[d4_report_id r, d4_left_x r, d4_left_y r, d4_right_x r, d4_right_y r,
        d4_buttons0 r, d4_buttons1 r, d4_buttons2 r, d4_left_trigger r, d4_right_trigger r] @
        le16_bytes (d4_timestamp r) @ [d4_battery r]"],
      rule exI [of _ "replicate 5 0"],
      rule exI [of _ "replicate 2 0 @ [d4_touch_packet_count r, d4_touch_timestamp r]"],
      rule exI [of _ "replicate 18 0 @ replicate 3 0"])
      (simp add: b_def r_def [symmetric] ds4_input_bytes_def f)
qed

lemma length_ds4_input:
  assumes "ds4_ok s"
  shows "length (ds4_input_bytes (fst (encode_ds4_input input (Some s) now))) = 64"
  using ds4_bytes_split [OF assms, of input now] assms
  by (auto simp: ds4_touch_point_def ds4_ok_def axes_ok_def)

lemma ds4_touch_point_wire:
  "unpack_touch_point (ds4_touch_point s i) =
    (contact_active s ! i, contact_tracking_id s ! i AND 0x7F,
     of_nat (unat (contact_x s ! i) * 1919 div 65535), of_nat (unat (contact_y s ! i) * 941 div 65535))"
proof -
  have "unat (to_touch 1920 (contact_x s ! i)) < 4096" "unat (to_touch 942 (contact_y s ! i)) < 4096"
    using to_touch_range [of 1920 "contact_x s ! i"] to_touch_range [of 942 "contact_y s ! i"] by simp_all
  then show ?thesis
    unfolding ds4_touch_point_def k_ds4_touch_width_def k_ds4_touch_height_def
    by (simp add: unpack_pack) (simp add: to_touch_def)
qed

text \<open>Property C32. After any sequence of touch, motion, battery, feature and report
  calls, the 64-byte DualShock 4 report carries, at the offsets a host reads, the motion
  vectors and for each finger its contact bit, its tracking id and its position scaled onto
  the 1920 by 942 surface; the power byte is the level with the cable bit, or 0x1B for a full
  pack; and two fingers that are down show different, non-zero ids.\<close>

theorem ds4_report_carries_state:
  assumes "ds4_reachable s"
    and b: "b = ds4_input_bytes (fst (encode_ds4_input input (Some s) now))"
  shows "length b = 64 \<and>
    (\<forall>i < 2. unpack_touch_point (take 4 (drop (35 + 4 * i) b)) =
      (contact_active s ! i, contact_tracking_id s ! i AND 0x7F,
       of_nat (unat (contact_x s ! i) * 1919 div 65535),
       of_nat (unat (contact_y s ! i) * 941 div 65535))) \<and>
    (\<forall>i < 3. read_i16 b (13 + 2 * i) = ds4_gyro s ! i \<and> read_i16 b (19 + 2 * i) = ds4_accel s ! i) \<and>
    b ! 30 = (if ds4_battery_full s then 0x1B
      else (ds4_battery_level s AND 0x0F) OR byte_if (ds4_cable_connected s) 0x10) \<and>
    (contact_active s ! 0 \<and> contact_active s ! 1 \<longrightarrow>
      b ! 35 AND 0x7F \<noteq> b ! 39 AND 0x7F \<and> b ! 35 AND 0x7F \<noteq> 0 \<and> b ! 39 AND 0x7F \<noteq> 0)"
proof -
  have ok: "ds4_ok s" by (rule ds4_reachable_ok [OF assms(1)])
  obtain h m n t where l: "length h = 13" "length m = 5" "length n = 4" "length t = 21"
    and s: "b = h @ concat (map i16_bytes (ds4_gyro s)) @ concat (map i16_bytes (ds4_accel s)) @ m @
      [ds4_status s] @ n @ ds4_touch_point s 0 @ ds4_touch_point s 1 @ t"
    using ds4_bytes_split [OF ok, of input now] unfolding b by blast
  have g: "length (ds4_gyro s) = 3" "length (ds4_accel s) = 3"
    using ok by (simp_all add: ds4_ok_def axes_ok_def)
  have p: "length (ds4_touch_point s i) = 4" for i by (simp add: ds4_touch_point_def)
  have len: "length b = 64" unfolding s by (simp add: l g p)
  have t: "take 4 (drop 35 b) = ds4_touch_point s 0" "take 4 (drop 39 b) = ds4_touch_point s 1"
    unfolding s by (simp_all add: l g p)
  have points: "\<forall>i < 2. take 4 (drop (35 + 4 * i) b) = ds4_touch_point s i"
    using t by (simp add: two)
  have ids: "b ! 35 AND 0x7F = contact_tracking_id s ! 0 AND 0x7F"
    "b ! 39 AND 0x7F = contact_tracking_id s ! 1 AND 0x7F"
    using arg_cong [OF t(1), of unpack_touch_point] arg_cong [OF t(2), of unpack_touch_point]
    unfolding ds4_touch_point_wire by (simp_all add: unpack_touch_point_def len)
  have motion: "\<forall>i < 3. read_i16 b (13 + 2 * i) = ds4_gyro s ! i \<and> read_i16 b (19 + 2 * i) = ds4_accel s ! i"
    using axes_wire [OF s] ok by (simp add: ds4_ok_def l)
  have status: "b ! 30 = (if ds4_battery_full s then 0x1B
      else (ds4_battery_level s AND 0x0F) OR byte_if (ds4_cable_connected s) 0x10)"
    using ok unfolding s
    by (simp add: nth_append l g ds4_status_def Let_def byte_if_def ds4_ok_def)
  show ?thesis
    using len points motion status ok
    by (auto simp: ds4_touch_point_wire ids ds4_ok_def touch_ok_def id_ok_def two)
qed

theorem ds4_report_carries_state_witness:
  "let s = snd (apply_ds4_touch (sample_touch touch_down 1 0xFFFF 0) ds4_reset);
       b = ds4_input_bytes (fst (encode_ds4_input sample_input (Some s) 7))
   in length b = 64 \<and> unpack_touch_point (take 4 (drop 39 b)) = (True, 1, 1919, 0)"
proof -
  let ?s = "snd (apply_ds4_touch (sample_touch touch_down 1 0xFFFF 0) ds4_reset)"
  have s: "contact_active ?s ! 1 \<and> contact_tracking_id ?s ! 1 = 1 \<and> contact_x ?s ! 1 = 0xFFFF \<and>
      contact_y ?s ! 1 = 0"
    by code_simp
  let ?b = "ds4_input_bytes (fst (encode_ds4_input sample_input (Some ?s) 7))"
  have w: "length ?b = 64 \<and> (\<forall>i < 2. unpack_touch_point (take 4 (drop (35 + 4 * i) ?b)) =
      (contact_active ?s ! i, contact_tracking_id ?s ! i AND 0x7F,
       of_nat (unat (contact_x ?s ! i) * 1919 div 65535),
       of_nat (unat (contact_y ?s ! i) * 941 div 65535)))"
    using ds4_report_carries_state [where s = ?s and input = sample_input and now = 7,
      OF ds4_touch [OF ds4_start] refl] by blast
  show ?thesis using w [THEN conjunct1] w [THEN conjunct2, rule_format, of 1] s by (simp add: Let_def)
qed

section \<open>Output and feature reports\<close>

text \<open>Over any history of output reports the stored DualShock 4 feedback holds,
  field by field, the newest value that a valid report enabled: rumble and light bar are
  retained independently of each other, everything else is never touched, and the light bar is
  marked valid exactly from its first enabled write on.\<close>

theorem ds4_output_latest_wins:
  "let g = merge_all apply_ds4_output f outs;
       ok = \<lambda>r. o4_report_id r = 0x05;
       rumble = \<lambda>r. ok r \<and> o4_flags r AND 0x01 \<noteq> 0;
       light = \<lambda>r. ok r \<and> o4_flags r AND 0x02 \<noteq> 0
   in po_low_frequency g = latest rumble (\<lambda>r. push_bit 8 (ucast (o4_left_rumble r))) (po_low_frequency f) outs \<and>
      po_high_frequency g = latest rumble (\<lambda>r. push_bit 8 (ucast (o4_right_rumble r))) (po_high_frequency f) outs \<and>
      po_red g = latest light o4_red (po_red f) outs \<and>
      po_green g = latest light o4_green (po_green f) outs \<and>
      po_blue g = latest light o4_blue (po_blue f) outs \<and>
      po_valid g = po_valid f OR (if list_ex light outs then ps_output_lightbar_valid else 0) \<and>
      po_player_leds g = po_player_leds f \<and> po_microphone_led g = po_microphone_led f \<and>
      po_left_trigger g = po_left_trigger f \<and> po_right_trigger g = po_right_trigger f"
proof (induction outs rule: rev_induct)
  case Nil
  then show ?case by simp
next
  case (snoc out outs)
  then show ?case
    by (simp add: Let_def apply_ds4_output_def or.assoc)
qed

end
