(* ===== verification/DualSense.thy ===== *)
theory DualSense
  imports DualShock4
begin

text \<open>
  The DualSense profile: \<^theory_text>\<open>driver/src/dualsense.h\<close>,
  \<^theory_text>\<open>dualsense.cpp\<close> and the USB feature contract of
  \<^theory_text>\<open>include/libvirtualgamepad/ds5_usb.h\<close>. The functions both PlayStation
  files repeat word for word are those of \<^theory_text>\<open>PlayStation\<close>; the feedback
  encoder is the one of \<^theory_text>\<open>DualShock4\<close>, as in the code.
\<close>

section \<open>USB feature reports\<close>

definition ds5_calibration_id :: byte
  where "ds5_calibration_id = 0x05"

definition ds5_control_id :: byte
  where "ds5_control_id = 0x08"

definition ds5_pairing_id :: byte
  where "ds5_pairing_id = 0x09"

definition ds5_firmware_id :: byte
  where "ds5_firmware_id = 0x20"

definition ds5_calibration :: "byte list"
  where "ds5_calibration = [
    5, 0, 0, 0, 0, 0, 0,
    0, 0x20, 0, 0xe0, 0, 0x20, 0, 0xe0, 0, 0x20, 0, 0xe0,
    0, 2, 0, 2,
    0, 0x20, 0, 0xe0, 0, 0x20, 0, 0xe0, 0, 0x20, 0, 0xe0,
    0, 0, 0, 0, 0, 0]"

definition ds5_firmware :: "byte list"
  where "ds5_firmware = [
    ds5_firmware_id,
    0x4A, 0x75, 0x6E, 0x20, 0x31, 0x39, 0x20, 0x32, 0x30, 0x32, 0x33,
    0x31, 0x34, 0x3A, 0x34, 0x37, 0x3A, 0x33, 0x34,
    0x03, 0x00, 0x44, 0x00, 0x08, 0x02, 0x00, 0x01,
    0x3e, 0x00, 0x00, 0x01,
    0xC1, 0xC8, 0x00, 0x00, 0x00, 0x00, 0x00, 0x00, 0x00, 0x00, 0x00, 0x00,
    0x30, 0x06, 0x00, 0x00, 0x14, 0x00, 0x00, 0x00,
    0x0B, 0x00, 0x01, 0x00, 0x06, 0x00, 0x00, 0x00, 0x00, 0x00, 0x00, 0x00]"

record ds5_features =
  ds5_address :: "byte list"
  ds5_sensors_enabled :: bool

definition ds5_default_features :: ds5_features
  where "ds5_default_features =
    \<lparr>ds5_address = [0, 0x53, 0x50, 0x47, 0x56, 0x02], ds5_sensors_enabled = True\<rparr>"

definition ds5_fill_pairing :: "byte list \<Rightarrow> byte list \<Rightarrow> byte list"
  where "ds5_fill_pairing address buffer =
    (overwrite 1 address (buffer[0 := ds5_pairing_id]))[7 := 0x08, 8 := 0x25, 9 := 0x00]"

definition ds5_feature_length :: "byte \<Rightarrow> nat option"
  where "ds5_feature_length i =
    (if i = ds5_calibration_id then Some (length ds5_calibration)
     else if i = ds5_pairing_id then Some 20
     else if i = ds5_firmware_id then Some (length ds5_firmware)
     else None)"

definition ds5_get_feature ::
  "byte \<Rightarrow> byte list option \<Rightarrow> ds5_features \<Rightarrow> nat \<times> byte list option"
  where "ds5_get_feature i buffer state =
    (case ds5_feature_length i of
       None \<Rightarrow> (0, buffer)
     | Some len \<Rightarrow>
        (case buffer of
           None \<Rightarrow> (0, buffer)
         | Some b \<Rightarrow>
            if length b < len then (0, buffer)
            else
              let b = map (\<lambda>_. 0) b
              in (len, Some
                (if i = ds5_calibration_id then overwrite 0 ds5_calibration b
                 else if i = ds5_firmware_id then overwrite 0 ds5_firmware b
                 else ds5_fill_pairing (ds5_address state) b))))"

definition ds5_set_feature :: "byte \<Rightarrow> byte list option \<Rightarrow> ds5_features \<Rightarrow> bool \<times> ds5_features"
  where "ds5_set_feature i buffer state =
    (case buffer of
       None \<Rightarrow> (False, state)
     | Some b \<Rightarrow>
        if i \<noteq> ds5_control_id \<or> length b < 48 \<or> b ! 0 \<noteq> ds5_control_id \<or> b ! 1 \<noteq> 2
        then (False, state)
        else if list_ex (\<lambda>k. b ! k \<noteq> 0) [2..<48] then (False, state)
        else (True, state\<lparr>ds5_sensors_enabled := True\<rparr>))"

section \<open>State and reports\<close>

definition k_ds5_touch_width :: nat
  where "k_ds5_touch_width = 1920"

definition k_ds5_touch_height :: nat
  where "k_ds5_touch_height = 1080"

record ds5_state = touchpad +
  ds5_features :: ds5_features
  ds5_sequence :: byte
  ds5_sensor_timestamp :: u32
  ds5_battery_level :: byte
  ds5_cable_connected :: bool
  ds5_battery_full :: bool
  ds5_gyro :: "i16 list"
  ds5_accel :: "i16 list"

definition ds5_reset :: ds5_state
  where "ds5_reset = \<lparr>next_tracking_id = 1, contact_active = [False, False],
    contact_tracking_id = [0, 0], contact_x = [0, 0], contact_y = [0, 0],
    ds5_features = ds5_default_features, ds5_sequence = 0, ds5_sensor_timestamp = 0,
    ds5_battery_level = 5, ds5_cable_connected = False,
    ds5_battery_full = False, ds5_gyro = [0, 0, 0], ds5_accel = [0, k_ds4_accel_counts_per_g, 0]\<rparr>"

record ds5_input_report =
  d5_report_id :: byte
  d5_left_x :: byte
  d5_left_y :: byte
  d5_right_x :: byte
  d5_right_y :: byte
  d5_left_trigger :: byte
  d5_right_trigger :: byte
  d5_sequence :: byte
  d5_buttons :: "byte list"
  d5_gyro :: "i16 list"
  d5_accel :: "i16 list"
  d5_sensor_timestamp :: u32
  d5_touch :: "byte list list"
  d5_status :: byte

text \<open>The 64 packed bytes, reserved fields zero.\<close>

definition ds5_input_bytes :: "ds5_input_report \<Rightarrow> byte list"
  where "ds5_input_bytes r =
    [d5_report_id r, d5_left_x r, d5_left_y r, d5_right_x r, d5_right_y r,
     d5_left_trigger r, d5_right_trigger r, d5_sequence r] @ d5_buttons r @ replicate 4 0 @
    concat (map i16_bytes (d5_gyro r)) @ concat (map i16_bytes (d5_accel r)) @
    le32_bytes (d5_sensor_timestamp r) @ replicate 1 0 @ concat (d5_touch r) @
    replicate 12 0 @ [d5_status r] @ replicate 10 0"

definition k_ds5_flag0_compatible_vibration :: byte
  where "k_ds5_flag0_compatible_vibration = 0x01"

definition k_ds5_flag0_right_trigger_effect :: byte
  where "k_ds5_flag0_right_trigger_effect = 0x04"

definition k_ds5_flag0_left_trigger_effect :: byte
  where "k_ds5_flag0_left_trigger_effect = 0x08"

definition k_ds5_flag1_mic_mute_led :: byte
  where "k_ds5_flag1_mic_mute_led = 0x01"

definition k_ds5_flag1_lightbar :: byte
  where "k_ds5_flag1_lightbar = 0x04"

definition k_ds5_flag1_player_indicator :: byte
  where "k_ds5_flag1_player_indicator = 0x10"

definition k_ds5_flag2_compatible_vibration :: byte
  where "k_ds5_flag2_compatible_vibration = 0x04"

record ds5_output_report =
  o5_report_id :: byte
  o5_valid_flag0 :: byte
  o5_valid_flag1 :: byte
  o5_motor_right :: byte
  o5_motor_left :: byte
  o5_mute_button_led :: byte
  o5_right_trigger :: trigger_effect_feedback
  o5_left_trigger :: trigger_effect_feedback
  o5_valid_flag2 :: byte
  o5_player_leds :: byte
  o5_lightbar_red :: byte
  o5_lightbar_green :: byte
  o5_lightbar_blue :: byte

text \<open>The fields the decoder reads, at their offsets in the 48 packed bytes.\<close>

definition ds5_output_of_bytes :: "byte list \<Rightarrow> ds5_output_report"
  where "ds5_output_of_bytes b = \<lparr>o5_report_id = b ! 0, o5_valid_flag0 = b ! 1,
    o5_valid_flag1 = b ! 2, o5_motor_right = b ! 3, o5_motor_left = b ! 4,
    o5_mute_button_led = b ! 9,
    o5_right_trigger = \<lparr>te_mode = b ! 11, te_parameters = take 10 (drop 12 b)\<rparr>,
    o5_left_trigger = \<lparr>te_mode = b ! 22, te_parameters = take 10 (drop 23 b)\<rparr>,
    o5_valid_flag2 = b ! 39, o5_player_leds = b ! 44, o5_lightbar_red = b ! 45,
    o5_lightbar_green = b ! 46, o5_lightbar_blue = b ! 47\<rparr>"

section \<open>Operations\<close>

definition ds5_buttons0 :: "input_state_request \<Rightarrow> byte"
  where "ds5_buttons0 input =
    ps_encode_hat (is_buttons input) OR
    byte_if (has (is_buttons input) button_west) 0x10 OR
    byte_if (has (is_buttons input) button_south) 0x20 OR
    byte_if (has (is_buttons input) button_east) 0x40 OR
    byte_if (has (is_buttons input) button_north) 0x80"

definition ds5_buttons1 :: "input_state_request \<Rightarrow> byte"
  where "ds5_buttons1 input =
    byte_if (has (is_buttons input) button_left_shoulder) 0x01 OR
    byte_if (has (is_buttons input) button_right_shoulder) 0x02 OR
    byte_if (is_left_trigger input > 0) 0x04 OR
    byte_if (is_right_trigger input > 0) 0x08 OR
    byte_if (has (is_buttons input) button_back) 0x10 OR
    byte_if (has (is_buttons input) button_start) 0x20 OR
    byte_if (has (is_buttons input) button_left_stick) 0x40 OR
    byte_if (has (is_buttons input) button_right_stick) 0x80"

definition ds5_buttons2 :: "input_state_request \<Rightarrow> byte"
  where "ds5_buttons2 input =
    byte_if (has (is_buttons input) button_home) 0x01 OR
    byte_if (has (is_buttons input) button_touchpad) 0x02 OR
    byte_if (has (is_buttons input) button_misc) 0x04"

definition ds5_status :: "ds5_state \<Rightarrow> byte"
  where "ds5_status state =
    (let status = ds5_battery_level state AND 0x0F
     in if ds5_battery_full state then 0x20 OR 0x0A
        else if ds5_cable_connected state then status OR 0x10 else status)"

definition ds5_touch_point :: "ds5_state \<Rightarrow> nat \<Rightarrow> byte list"
  where "ds5_touch_point state i = pack_touch_point (contact_active state ! i)
    (contact_tracking_id state ! i) (to_touch k_ds5_touch_width (contact_x state ! i))
    (to_touch k_ds5_touch_height (contact_y state ! i))"

text \<open>What every report counts up: the sequence number and the sensor clock.\<close>

definition ds5_advance :: "u64 \<Rightarrow> ds5_state \<Rightarrow> ds5_state"
  where "ds5_advance now_us s =
    s\<lparr>ds5_sequence := ds5_sequence s + 1,
      ds5_sensor_timestamp := (if now_us \<noteq> 0 then ucast (now_us * 3) else ds5_sensor_timestamp s + 1333)\<rparr>"

definition encode_ds5_input ::
  "input_state_request \<Rightarrow> ds5_state option \<Rightarrow> u64 \<Rightarrow> ds5_input_report \<times> ds5_state option"
  where "encode_ds5_input input state now_us =
    (let state' = map_option (ds5_advance now_us) state
     in (\<lparr>d5_report_id = 0x01,
       d5_left_x = to_stick (is_left_x input), d5_left_y = to_stick_inverted (is_left_y input),
       d5_right_x = to_stick (is_right_x input), d5_right_y = to_stick_inverted (is_right_y input),
       d5_left_trigger = is_left_trigger input, d5_right_trigger = is_right_trigger input,
       d5_sequence = (case state' of None \<Rightarrow> 0 | Some s \<Rightarrow> ds5_sequence s),
       d5_buttons = [ds5_buttons0 input, ds5_buttons1 input, ds5_buttons2 input, 0],
       d5_gyro = (case state' of None \<Rightarrow> [0, 0, 0] | Some s \<Rightarrow> ds5_gyro s),
       d5_accel = (case state' of None \<Rightarrow> [0, k_ds4_accel_counts_per_g, 0] | Some s \<Rightarrow> ds5_accel s),
       d5_sensor_timestamp = (case state' of None \<Rightarrow> 0 | Some s \<Rightarrow> ds5_sensor_timestamp s),
       d5_touch = (case state' of
           None \<Rightarrow> [pack_touch_point False 0 0 0, pack_touch_point False 0 0 0]
         | Some s \<Rightarrow> [ds5_touch_point s 0, ds5_touch_point s 1]),
       d5_status = (case state' of None \<Rightarrow> 0 | Some s \<Rightarrow> ds5_status s)\<rparr>,
      state'))"

definition apply_ds5_touch :: "touch_state_request \<Rightarrow> ds5_state \<Rightarrow> bool \<times> ds5_state"
  where "apply_ds5_touch touch s = apply_touch touch s"

definition apply_ds5_motion :: "motion_state_request \<Rightarrow> ds5_state \<Rightarrow> bool \<times> ds5_state"
  where "apply_ds5_motion motion s =
    (if ms_motion_type motion = motion_accelerometer then
       (True, s\<lparr>ds5_accel := map convert_accel
         [ms_x_milli motion, ms_y_milli motion, ms_z_milli motion]\<rparr>)
     else if ms_motion_type motion = motion_gyroscope then
       (True, s\<lparr>ds5_gyro := map convert_gyro
         [ms_x_milli motion, ms_y_milli motion, ms_z_milli motion]\<rparr>)
     else (False, s))"

definition apply_ds5_battery :: "battery_state_request \<Rightarrow> ds5_state \<Rightarrow> bool \<times> ds5_state"
  where "apply_ds5_battery battery s =
    (let reported = bs_flags battery;
         s = s\<lparr>ds5_cable_connected := (reported = battery_charging \<or> reported = battery_full \<or>
                 reported = battery_not_charging),
               ds5_battery_full := (reported = battery_full)\<rparr>
     in (True, if bs_percent battery \<le> 100
         then s\<lparr>ds5_battery_level := (if bs_percent battery \<ge> 100 then 10 else bs_percent battery div 10)\<rparr>
         else s))"

definition apply_ds5_output ::
  "ds5_output_report \<Rightarrow> playstation_output_feedback \<Rightarrow> playstation_output_feedback option"
  where "apply_ds5_output out f =
    (if o5_report_id out \<noteq> 0x02 then None
     else
       let f = (if o5_valid_flag0 out AND k_ds5_flag0_compatible_vibration \<noteq> 0 \<or>
                   o5_valid_flag2 out AND k_ds5_flag2_compatible_vibration \<noteq> 0 then
             f\<lparr>po_low_frequency := push_bit 8 (ucast (o5_motor_left out)),
               po_high_frequency := push_bit 8 (ucast (o5_motor_right out))\<rparr> else f);
           f = (if o5_valid_flag1 out AND k_ds5_flag1_lightbar \<noteq> 0 then
             f\<lparr>po_red := o5_lightbar_red out, po_green := o5_lightbar_green out,
               po_blue := o5_lightbar_blue out,
               po_valid := po_valid f OR ps_output_lightbar_valid\<rparr> else f);
           f = (if o5_valid_flag1 out AND k_ds5_flag1_player_indicator \<noteq> 0 then
             f\<lparr>po_player_leds := o5_player_leds out,
               po_valid := po_valid f OR ps_output_player_leds_valid\<rparr> else f);
           f = (if o5_valid_flag1 out AND k_ds5_flag1_mic_mute_led \<noteq> 0 then
             f\<lparr>po_microphone_led := o5_mute_button_led out,
               po_valid := po_valid f OR ps_output_microphone_led_valid\<rparr> else f);
           f = (if o5_valid_flag0 out AND k_ds5_flag0_left_trigger_effect \<noteq> 0 then
             f\<lparr>po_left_trigger := o5_left_trigger out,
               po_valid := po_valid f OR ps_output_triggers_valid\<rparr> else f);
           f = (if o5_valid_flag0 out AND k_ds5_flag0_right_trigger_effect \<noteq> 0 then
             f\<lparr>po_right_trigger := o5_right_trigger out,
               po_valid := po_valid f OR ps_output_triggers_valid\<rparr> else f)
       in Some f)"

definition decode_ds5_output :: "ds5_output_report \<Rightarrow> playstation_output_feedback option"
  where "decode_ds5_output out = apply_ds5_output out blank_playstation_output"

interpretation ds5_pad: touch_surface touchpad.truncate apply_ds5_touch ds5_reset
proof
  show "touch_ok (touchpad.truncate ds5_reset)"
    by (simp add: touch_ok_def ds5_reset_def touchpad.defs id_ok_def two)
next
  fix t s
  show "fst (apply_ds5_touch t s) = fst (apply_touch t (touchpad.truncate s))"
    and "touchpad.truncate (snd (apply_ds5_touch t s)) = snd (apply_touch t (touchpad.truncate s))"
    using truncate_apply_touch [of t s] by (simp_all add: apply_ds5_touch_def)
qed

section \<open>The states a pad goes through\<close>

inductive ds5_reachable :: "ds5_state \<Rightarrow> bool"
  where
    ds5_start: "ds5_reachable ds5_reset"
  | ds5_touch: "ds5_reachable s \<Longrightarrow> ds5_reachable (snd (apply_ds5_touch t s))"
  | ds5_motion: "ds5_reachable s \<Longrightarrow> ds5_reachable (snd (apply_ds5_motion m s))"
  | ds5_battery: "ds5_reachable s \<Longrightarrow> ds5_reachable (snd (apply_ds5_battery p s))"
  | ds5_report: "ds5_reachable s \<Longrightarrow> ds5_reachable (ds5_advance now s)"
  | ds5_feature: "ds5_reachable s \<Longrightarrow>
      ds5_reachable (s\<lparr>ds5_features := snd (ds5_set_feature i buffer (ds5_features s))\<rparr>)"
  | ds5_name: "ds5_reachable s \<Longrightarrow> ds5_reachable (s\<lparr>ds5_features := (ds5_features s)
      \<lparr>ds5_address := (ds5_address (ds5_features s))[0 := a]\<rparr>\<rparr>)"

definition ds5_ok :: "ds5_state \<Rightarrow> bool"
  where "ds5_ok s \<longleftrightarrow> touch_ok s \<and> axes_ok (ds5_gyro s) \<and> axes_ok (ds5_accel s) \<and>
    unat (ds5_battery_level s) \<le> 10 \<and> (ds5_battery_full s \<longrightarrow> ds5_cable_connected s)"

lemma touch_ok_ds5 [simp]:
  "touch_ok (s\<lparr>ds5_accel := a\<rparr>) = touch_ok s" "touch_ok (s\<lparr>ds5_gyro := a\<rparr>) = touch_ok s"
  "touch_ok (s\<lparr>ds5_cable_connected := c, ds5_battery_full := f\<rparr>) = touch_ok s"
  "touch_ok (s\<lparr>ds5_battery_level := l\<rparr>) = touch_ok s"
  "touch_ok (s\<lparr>ds5_features := k\<rparr>) = touch_ok s"
  "touch_ok (ds5_advance n s) = touch_ok s"
  by (simp_all add: touch_ok_def ds5_advance_def)

lemma apply_ds5_touch_frame:
  "ds5_gyro (snd (apply_touch t s)) = ds5_gyro s" "ds5_accel (snd (apply_touch t s)) = ds5_accel s"
  "ds5_battery_level (snd (apply_touch t s)) = ds5_battery_level s"
  "ds5_battery_full (snd (apply_touch t s)) = ds5_battery_full s"
  "ds5_cable_connected (snd (apply_touch t s)) = ds5_cable_connected s"
  by (simp_all add: apply_touch_def contact_down_def Let_def split: prod.split)

lemma ds5_reachable_ok: "ds5_reachable s \<Longrightarrow> ds5_ok s"
proof (induction rule: ds5_reachable.induct)
  case ds5_start
  show ?case using ds5_pad.start_ok
    by (simp add: ds5_ok_def axes_ok_def ds5_reset_def i16_ok_def k_ds4_accel_counts_per_g_def)
next
  case (ds5_touch s t)
  then show ?case using ds5_pad.step_ok [of s t]
    by (simp add: ds5_ok_def) (simp add: apply_ds5_touch_def apply_ds5_touch_frame)
next
  case (ds5_motion s m)
  then show ?case by (simp add: ds5_ok_def apply_ds5_motion_def axes_ok_def convert_ok)
next
  case (ds5_battery s p)
  have "unat (bs_percent p div 10) \<le> 10" if "bs_percent p \<le> 100"
    using that by (simp add: word_le_nat_alt unat_div)
  with ds5_battery show ?case by (simp add: ds5_ok_def apply_ds5_battery_def Let_def touch_ok_def)
next
  case (ds5_report s now)
  then show ?case by (simp add: ds5_ok_def) (simp add: ds5_advance_def)
next
  case (ds5_feature s i buffer)
  then show ?case by (simp add: ds5_ok_def)
next
  case (ds5_name s a)
  then show ?case by (simp add: ds5_ok_def)
qed

lemma ds5_advance_fields [simp]:
  "ds5_gyro (ds5_advance n s) = ds5_gyro s" "ds5_accel (ds5_advance n s) = ds5_accel s"
  "ds5_touch_point (ds5_advance n s) i = ds5_touch_point s i"
  "ds5_status (ds5_advance n s) = ds5_status s"
  by (simp_all add: ds5_advance_def ds5_touch_point_def ds5_status_def Let_def)

text \<open>The head of the report before each of the four parts a host reads back.\<close>

lemma ds5_bytes_split:
  fixes input now
  assumes "ds5_ok s"
  defines "b \<equiv> ds5_input_bytes (fst (encode_ds5_input input (Some s) now))"
  shows "\<exists>h m n t. length h = 16 \<and> length m = 5 \<and> length n = 12 \<and> length t = 10 \<and>
    b = h @ concat (map i16_bytes (ds5_gyro s)) @ concat (map i16_bytes (ds5_accel s)) @ m @
      ds5_touch_point s 0 @ ds5_touch_point s 1 @ n @ [ds5_status s] @ t"
proof -
  define r where "r = fst (encode_ds5_input input (Some s) now)"
  have f: "d5_touch r = [ds5_touch_point s 0, ds5_touch_point s 1]"
    "d5_gyro r = ds5_gyro s" "d5_accel r = ds5_accel s" "d5_status r = ds5_status s"
    "length (d5_buttons r) = 4"
    by (simp_all add: r_def encode_ds5_input_def Let_def)
  show ?thesis
    by (rule exI [of _ "[d5_report_id r, d5_left_x r, d5_left_y r, d5_right_x r, d5_right_y r,
        d5_left_trigger r, d5_right_trigger r, d5_sequence r] @ d5_buttons r @ replicate 4 0"],
      rule exI [of _ "le32_bytes (d5_sensor_timestamp r) @ replicate 1 0"],
      rule exI [of _ "replicate 12 0"], rule exI [of _ "replicate 10 0"])
      (simp add: b_def r_def [symmetric] ds5_input_bytes_def f)
qed

lemma length_ds5_input:
  assumes "ds5_ok s"
  shows "length (ds5_input_bytes (fst (encode_ds5_input input (Some s) now))) = 64"
  using ds5_bytes_split [OF assms, of input now] assms
  by (auto simp: ds5_touch_point_def ds5_ok_def axes_ok_def)

lemma ds5_touch_point_wire:
  "unpack_touch_point (ds5_touch_point s i) =
    (contact_active s ! i, contact_tracking_id s ! i AND 0x7F,
     of_nat (unat (contact_x s ! i) * 1919 div 65535), of_nat (unat (contact_y s ! i) * 1079 div 65535))"
proof -
  have "unat (to_touch 1920 (contact_x s ! i)) < 4096" "unat (to_touch 1080 (contact_y s ! i)) < 4096"
    using to_touch_range [of 1920 "contact_x s ! i"] to_touch_range [of 1080 "contact_y s ! i"] by simp_all
  then show ?thesis
    unfolding ds5_touch_point_def k_ds5_touch_width_def k_ds5_touch_height_def
    by (simp add: unpack_pack) (simp add: to_touch_def)
qed

text \<open>Property C33. After any sequence of touch, motion, battery, feature and report
  calls, the 64-byte DualSense report carries, at the offsets a host reads, the motion
  vectors and for each finger its contact bit, its tracking id and its position scaled onto
  the 1920 by 1080 surface; the power byte is the level, plus 0x10 while charging, or 0x2A for a
  full pack; and two fingers that are down show different, non-zero ids.\<close>

theorem ds5_report_carries_state:
  assumes "ds5_reachable s"
    and b: "b = ds5_input_bytes (fst (encode_ds5_input input (Some s) now))"
  shows "length b = 64 \<and>
    (\<forall>i < 2. unpack_touch_point (take 4 (drop (33 + 4 * i) b)) =
      (contact_active s ! i, contact_tracking_id s ! i AND 0x7F,
       of_nat (unat (contact_x s ! i) * 1919 div 65535),
       of_nat (unat (contact_y s ! i) * 1079 div 65535))) \<and>
    (\<forall>i < 3. read_i16 b (16 + 2 * i) = ds5_gyro s ! i \<and> read_i16 b (22 + 2 * i) = ds5_accel s ! i) \<and>
    b ! 53 = (if ds5_battery_full s then 0x2A
      else (ds5_battery_level s AND 0x0F) OR byte_if (ds5_cable_connected s) 0x10) \<and>
    (contact_active s ! 0 \<and> contact_active s ! 1 \<longrightarrow>
      b ! 33 AND 0x7F \<noteq> b ! 37 AND 0x7F \<and> b ! 33 AND 0x7F \<noteq> 0 \<and> b ! 37 AND 0x7F \<noteq> 0)"
proof -
  have ok: "ds5_ok s" by (rule ds5_reachable_ok [OF assms(1)])
  obtain h m n t where l: "length h = 16" "length m = 5" "length n = 12" "length t = 10"
    and s: "b = h @ concat (map i16_bytes (ds5_gyro s)) @ concat (map i16_bytes (ds5_accel s)) @ m @
      ds5_touch_point s 0 @ ds5_touch_point s 1 @ n @ [ds5_status s] @ t"
    using ds5_bytes_split [OF ok, of input now] unfolding b by blast
  have g: "length (ds5_gyro s) = 3" "length (ds5_accel s) = 3"
    using ok by (simp_all add: ds5_ok_def axes_ok_def)
  have p: "length (ds5_touch_point s i) = 4" for i by (simp add: ds5_touch_point_def)
  have len: "length b = 64" unfolding s by (simp add: l g p)
  have t: "take 4 (drop 33 b) = ds5_touch_point s 0" "take 4 (drop 37 b) = ds5_touch_point s 1"
    unfolding s by (simp_all add: l g p)
  have points: "\<forall>i < 2. take 4 (drop (33 + 4 * i) b) = ds5_touch_point s i"
    using t by (simp add: two)
  have ids: "b ! 33 AND 0x7F = contact_tracking_id s ! 0 AND 0x7F"
    "b ! 37 AND 0x7F = contact_tracking_id s ! 1 AND 0x7F"
    using arg_cong [OF t(1), of unpack_touch_point] arg_cong [OF t(2), of unpack_touch_point]
    unfolding ds5_touch_point_wire by (simp_all add: unpack_touch_point_def len)
  have motion: "\<forall>i < 3. read_i16 b (16 + 2 * i) = ds5_gyro s ! i \<and> read_i16 b (22 + 2 * i) = ds5_accel s ! i"
    using axes_wire [OF s] ok by (simp add: ds5_ok_def l)
  have status: "b ! 53 = (if ds5_battery_full s then 0x2A
      else (ds5_battery_level s AND 0x0F) OR byte_if (ds5_cable_connected s) 0x10)"
    using ok unfolding s
    by (simp add: nth_append l g p ds5_status_def Let_def byte_if_def ds5_ok_def)
  show ?thesis
    using len points motion status ok
    by (auto simp: ds5_touch_point_wire ids ds5_ok_def touch_ok_def id_ok_def two)
qed

theorem ds5_report_carries_state_witness:
  "let s = snd (apply_ds5_touch (sample_touch touch_down 1 0xFFFF 0) ds5_reset);
       b = ds5_input_bytes (fst (encode_ds5_input sample_input (Some s) 7))
   in length b = 64 \<and> unpack_touch_point (take 4 (drop 37 b)) = (True, 1, 1919, 0)"
proof -
  let ?s = "snd (apply_ds5_touch (sample_touch touch_down 1 0xFFFF 0) ds5_reset)"
  have s: "contact_active ?s ! 1 \<and> contact_tracking_id ?s ! 1 = 1 \<and> contact_x ?s ! 1 = 0xFFFF \<and>
      contact_y ?s ! 1 = 0"
    by code_simp
  let ?b = "ds5_input_bytes (fst (encode_ds5_input sample_input (Some ?s) 7))"
  have w: "length ?b = 64 \<and> (\<forall>i < 2. unpack_touch_point (take 4 (drop (33 + 4 * i) ?b)) =
      (contact_active ?s ! i, contact_tracking_id ?s ! i AND 0x7F,
       of_nat (unat (contact_x ?s ! i) * 1919 div 65535),
       of_nat (unat (contact_y ?s ! i) * 1079 div 65535)))"
    using ds5_report_carries_state [where s = ?s and input = sample_input and now = 7,
      OF ds5_touch [OF ds5_start] refl] by blast
  show ?thesis using w [THEN conjunct1] w [THEN conjunct2, rule_format, of 1] s by (simp add: Let_def)
qed


section \<open>Output reports\<close>

text \<open>Property C34. Over any history of output reports the stored DualSense feedback holds,
  field by field, the newest value a valid report enabled: motors under either vibration bit,
  light bar, player lights, microphone light, and each trigger program on its own, so writing
  one trigger never disturbs the other; a validity bit is set exactly when such a write has
  been seen.\<close>

theorem ds5_output_latest_wins:
  "let g = merge_all apply_ds5_output f outs;
       on = \<lambda>field bit r. o5_report_id r = 0x02 \<and> field r AND bit \<noteq> 0;
       motors = \<lambda>r. on o5_valid_flag0 0x01 r \<or> on o5_valid_flag2 0x04 r;
       light = on o5_valid_flag1 0x04; player = on o5_valid_flag1 0x10; mic = on o5_valid_flag1 0x01;
       left = on o5_valid_flag0 0x08; right = on o5_valid_flag0 0x04
   in po_low_frequency g = latest motors (\<lambda>r. push_bit 8 (ucast (o5_motor_left r))) (po_low_frequency f) outs \<and>
      po_high_frequency g = latest motors (\<lambda>r. push_bit 8 (ucast (o5_motor_right r))) (po_high_frequency f) outs \<and>
      po_red g = latest light o5_lightbar_red (po_red f) outs \<and>
      po_green g = latest light o5_lightbar_green (po_green f) outs \<and>
      po_blue g = latest light o5_lightbar_blue (po_blue f) outs \<and>
      po_player_leds g = latest player o5_player_leds (po_player_leds f) outs \<and>
      po_microphone_led g = latest mic o5_mute_button_led (po_microphone_led f) outs \<and>
      po_left_trigger g = latest left o5_left_trigger (po_left_trigger f) outs \<and>
      po_right_trigger g = latest right o5_right_trigger (po_right_trigger f) outs \<and>
      po_valid g = po_valid f OR
        byte_if (list_ex light outs) ps_output_lightbar_valid OR
        byte_if (list_ex player outs) ps_output_player_leds_valid OR
        byte_if (list_ex mic outs) ps_output_microphone_led_valid OR
        byte_if (list_ex (\<lambda>r. left r \<or> right r) outs) ps_output_triggers_valid"
proof (induction outs rule: rev_induct)
  case Nil
  then show ?case by (simp add: Let_def byte_if_def)
next
  case (snoc out outs)
  then show ?case
    unfolding Let_def merge_all_simps
    by (cases "o5_report_id out = 2")
       (simp_all add: apply_ds5_output_def Let_def byte_if_def ac_simps
         k_ds5_flag0_compatible_vibration_def k_ds5_flag2_compatible_vibration_def
         k_ds5_flag1_lightbar_def k_ds5_flag1_player_indicator_def k_ds5_flag1_mic_mute_led_def
         k_ds5_flag0_left_trigger_effect_def k_ds5_flag0_right_trigger_effect_def)
qed

end
