(* ===== verification/PlayStationUsb.thy ===== *)
theory PlayStationUsb
  imports DualSense DescriptorLayout
begin

text \<open>
  The feature reports of both PlayStation pads against the descriptors they publish: every
  reply has the size the host computes from the descriptor.
\<close>

lemma feature_lengths [simp]:
  "length ds4_calibration = 37" "length ds4_firmware = 49"
  "length ds5_calibration = 41" "length ds5_firmware = 64"
  by (simp_all add: ds4_calibration_def ds4_firmware_def ds5_calibration_def ds5_firmware_def)

lemma ds4_descriptor_features:
  "map_of (report_bits ds4_descriptor) 0x02 = Some (0, 0, 288)"
  "map_of (report_bits ds4_descriptor) 0x12 = Some (0, 0, 120)"
  "map_of (report_bits ds4_descriptor) 0x14 = Some (0, 0, 128)"
  "map_of (report_bits ds4_descriptor) 0xA3 = Some (0, 0, 384)"
  by code_simp+

lemma ds5_descriptor_features:
  "map_of (report_bits ds5_descriptor) 0x05 = Some (0, 0, 320)"
  "map_of (report_bits ds5_descriptor) 0x09 = Some (0, 0, 152)"
  "map_of (report_bits ds5_descriptor) 0x20 = Some (0, 0, 504)"
  by code_simp+

text \<open>Reading back what a reply holds: the report of the given length and zeros behind.\<close>

definition reply_ok :: "byte \<Rightarrow> nat \<Rightarrow> byte list \<Rightarrow> nat \<times> byte list option \<Rightarrow> bool"
  where "reply_ok i len b r \<longleftrightarrow> (case r of (n, Some b') \<Rightarrow>
      n = len \<and> length b' = length b \<and> b' ! 0 = i \<and> (\<forall>k < length b. len \<le> k \<longrightarrow> b' ! k = 0)
    | _ \<Rightarrow> False)"

lemma nth_overwrite_0: "k < length b \<Longrightarrow> length src \<le> length b \<Longrightarrow>
    overwrite 0 src b ! k = (if k < length src then src ! k else b ! k)"
  by (simp add: overwrite_def nth_append)

lemma nth_overwrite_1: "k < length b \<Longrightarrow> Suc (length src) \<le> length b \<Longrightarrow>
    overwrite (Suc 0) src b ! k = (if k = 0 then b ! 0 else if k \<le> length src then src ! (k - 1) else b ! k)"
  by (cases k; cases b) (auto simp: overwrite_def nth_append Suc_diff_Suc)

lemma first_bytes [simp]:
  "ds4_calibration ! 0 = 0x02" "ds4_firmware ! 0 = 0xA3" "ds5_calibration ! 0 = 0x05"
  "ds5_firmware ! 0 = 0x20"
  by (simp_all add: ds4_calibration_def ds4_firmware_def ds5_calibration_def ds5_firmware_def
      ds4_firmware_id_def ds5_firmware_id_def)

lemma list_ex_upt: "list_ex P [m..<n] \<longleftrightarrow> (\<exists>k \<in> {m..<n}. P k)"
  by (simp add: list_ex_iff)

lemmas ds4_ids = ds4_calibration_id_def ds4_pairing_id_def ds4_control_id_def ds4_firmware_id_def
lemmas ds5_ids = ds5_calibration_id_def ds5_pairing_id_def ds5_control_id_def ds5_firmware_id_def

lemma ds4_reply:
  assumes "ds4_feature_length i = Some len" "length (ds4_address st) = 6" "len \<le> length b"
  shows "reply_ok i len b (ds4_get_feature i (Some b) st)"
  using assms
  by (auto simp: ds4_feature_length_def ds4_get_feature_def ds4_ids reply_ok_def Let_def
      ds4_fill_pairing_def nth_list_update nth_overwrite_0 nth_overwrite_1 simp del: length_greater_0_conv
      split: if_splits)

lemma ds5_reply:
  assumes "ds5_feature_length i = Some len" "length (ds5_address st) = 6" "len \<le> length b"
  shows "reply_ok i len b (ds5_get_feature i (Some b) st)"
  using assms
  by (auto simp: ds5_feature_length_def ds5_get_feature_def ds5_ids reply_ok_def Let_def
      ds5_fill_pairing_def nth_list_update nth_overwrite_0 nth_overwrite_1 simp del: length_greater_0_conv
      split: if_splits)

text \<open>For each of the four DualShock 4 feature ids the reply has exactly the
  length the published descriptor declares (its bits plus the id byte), starts with the id and
  is zero behind it, for any buffer at least that long; a shorter or missing buffer, or another
  id, gets nothing written; and the only feature write taken is the 17-byte sensor command,
  after which the control report reads back as enabled.\<close>

theorem ds4_features_match_descriptor:
  assumes "length (ds4_address st) = 6"
  shows "(case ds4_feature_length i of
      None \<Rightarrow> ds4_get_feature i (Some b) st = (0, Some b) \<and> i \<notin> {0x02, 0x12, 0x14, 0xA3}
    | Some len \<Rightarrow> map_of (report_bits ds4_descriptor) (uint i) = Some (0, 0, 8 * (int len - 1)) \<and>
        (if len \<le> length b then reply_ok i len b (ds4_get_feature i (Some b) st)
         else ds4_get_feature i (Some b) st = (0, Some b))) \<and>
    ds4_get_feature i None st = (0, None) \<and>
    (fst (ds4_set_feature i (Some b) st) \<longleftrightarrow>
      i = 0x14 \<and> 17 \<le> length b \<and> b ! 0 = 0x14 \<and> b ! 1 = 0x02 \<and> (\<forall>k \<in> {2..<17}. b ! k = 0)) \<and>
    snd (ds4_set_feature i (Some b) st) =
      (if fst (ds4_set_feature i (Some b) st) then st\<lparr>ds4_sensors_enabled := True\<rparr> else st) \<and>
    (fst (ds4_set_feature i (Some b) st) \<longrightarrow>
      (\<exists>b'. ds4_get_feature 0x14 (Some b) (snd (ds4_set_feature i (Some b) st)) = (17, Some b') \<and>
        b' ! 1 = 0x02))"
proof -
  have none: "ds4_get_feature i (Some b) st = (0, Some b) \<and> i \<notin> {0x02, 0x12, 0x14, 0xA3}"
    if "ds4_feature_length i = None"
    using that by (auto simp: ds4_get_feature_def ds4_feature_length_def ds4_ids split: if_splits)
  have bits: "map_of (report_bits ds4_descriptor) (uint i) = Some (0, 0, 8 * (int len - 1))"
    if "ds4_feature_length i = Some len" for len
    using that by (auto simp: ds4_feature_length_def ds4_ids ds4_descriptor_features split: if_splits)
  have short: "ds4_get_feature i (Some b) st = (0, Some b)"
    if "ds4_feature_length i = Some len" "\<not> len \<le> length b" for len
    using that by (simp add: ds4_get_feature_def)
  have readback: "\<exists>b'. ds4_get_feature 0x14 (Some b) (snd (ds4_set_feature i (Some b) st)) = (17, Some b') \<and>
      b' ! 1 = 0x02" if "fst (ds4_set_feature i (Some b) st)"
    using that
    by (auto simp: ds4_set_feature_def ds4_get_feature_def ds4_feature_length_def ds4_ids Let_def
        split: if_splits)
  have accepts: "fst (ds4_set_feature i (Some b) st) \<longleftrightarrow>
      i = 0x14 \<and> 17 \<le> length b \<and> b ! 0 = 0x14 \<and> b ! 1 = 0x02 \<and> (\<forall>k \<in> {2..<17}. b ! k = 0)"
    by (auto simp: ds4_set_feature_def ds4_ids list_ex_upt simp del: upt_rec_numeral)
  have eff: "snd (ds4_set_feature i (Some b) st) =
      (if fst (ds4_set_feature i (Some b) st) then st\<lparr>ds4_sensors_enabled := True\<rparr> else st)"
    by (simp add: ds4_set_feature_def del: upt_rec_numeral)
  have missing: "ds4_get_feature i None st = (0, None)"
    by (simp add: ds4_get_feature_def split: option.split)
  have replies: "(case ds4_feature_length i of
      None \<Rightarrow> ds4_get_feature i (Some b) st = (0, Some b) \<and> i \<notin> {0x02, 0x12, 0x14, 0xA3}
    | Some len \<Rightarrow> map_of (report_bits ds4_descriptor) (uint i) = Some (0, 0, 8 * (int len - 1)) \<and>
        (if len \<le> length b then reply_ok i len b (ds4_get_feature i (Some b) st)
         else ds4_get_feature i (Some b) st = (0, Some b)))"
    using none bits short ds4_reply [OF _ assms]
    by (cases "ds4_feature_length i") simp_all
  show ?thesis
    by (intro conjI, rule replies, rule missing, rule accepts, rule eff, rule impI, rule readback)
qed

theorem ds4_features_match_descriptor_witness:
  "length (ds4_address ds4_default_features) = 6 \<and>
   fst (ds4_set_feature 0x14 (Some (0x14 # 0x02 # replicate 15 0)) ds4_default_features)"
proof -
  let ?b = "0x14 # 0x02 # replicate 15 0 :: byte list"
  have a: "length (ds4_address ds4_default_features) = 6"
    by (simp add: ds4_default_features_def)
  moreover have "\<forall>k \<in> {2..<17}. ?b ! k = 0" by (auto simp: nth_Cons')
  ultimately show ?thesis
    using ds4_features_match_descriptor [OF a, of "0x14" ?b] by simp
qed

text \<open>The three DualSense feature reports the driver serves have exactly the
  lengths the published descriptor declares, start with their ids and are zero behind, for any
  buffer at least that long; otherwise nothing is written; and the only feature write taken is
  the native sensor command of at least 48 bytes.\<close>

lemma ds5_features_match_descriptor:
  assumes "length (ds5_address st) = 6"
  shows "(case ds5_feature_length i of
      None \<Rightarrow> ds5_get_feature i (Some b) st = (0, Some b) \<and> i \<notin> {0x05, 0x09, 0x20}
    | Some len \<Rightarrow> map_of (report_bits ds5_descriptor) (uint i) = Some (0, 0, 8 * (int len - 1)) \<and>
        (if len \<le> length b then reply_ok i len b (ds5_get_feature i (Some b) st)
         else ds5_get_feature i (Some b) st = (0, Some b))) \<and>
    ds5_get_feature i None st = (0, None) \<and>
    (fst (ds5_set_feature i (Some b) st) \<longleftrightarrow>
      i = 0x08 \<and> 48 \<le> length b \<and> b ! 0 = 0x08 \<and> b ! 1 = 2 \<and> (\<forall>k \<in> {2..<48}. b ! k = 0)) \<and>
    snd (ds5_set_feature i (Some b) st) =
      (if fst (ds5_set_feature i (Some b) st) then st\<lparr>ds5_sensors_enabled := True\<rparr> else st)"
proof -
  have none: "ds5_get_feature i (Some b) st = (0, Some b) \<and> i \<notin> {0x05, 0x09, 0x20}"
    if "ds5_feature_length i = None"
    using that by (auto simp: ds5_get_feature_def ds5_feature_length_def ds5_ids split: if_splits)
  have bits: "map_of (report_bits ds5_descriptor) (uint i) = Some (0, 0, 8 * (int len - 1))"
    if "ds5_feature_length i = Some len" for len
    using that by (auto simp: ds5_feature_length_def ds5_ids ds5_descriptor_features split: if_splits)
  have short: "ds5_get_feature i (Some b) st = (0, Some b)"
    if "ds5_feature_length i = Some len" "\<not> len \<le> length b" for len
    using that by (simp add: ds5_get_feature_def)
  have accepts: "fst (ds5_set_feature i (Some b) st) \<longleftrightarrow>
      i = 0x08 \<and> 48 \<le> length b \<and> b ! 0 = 0x08 \<and> b ! 1 = 2 \<and> (\<forall>k \<in> {2..<48}. b ! k = 0)"
    by (auto simp: ds5_set_feature_def ds5_ids list_ex_upt simp del: upt_rec_numeral)
  have eff: "snd (ds5_set_feature i (Some b) st) =
      (if fst (ds5_set_feature i (Some b) st) then st\<lparr>ds5_sensors_enabled := True\<rparr> else st)"
    by (simp add: ds5_set_feature_def del: upt_rec_numeral)
  have missing: "ds5_get_feature i None st = (0, None)"
    by (simp add: ds5_get_feature_def split: option.split)
  have replies: "(case ds5_feature_length i of
      None \<Rightarrow> ds5_get_feature i (Some b) st = (0, Some b) \<and> i \<notin> {0x05, 0x09, 0x20}
    | Some len \<Rightarrow> map_of (report_bits ds5_descriptor) (uint i) = Some (0, 0, 8 * (int len - 1)) \<and>
        (if len \<le> length b then reply_ok i len b (ds5_get_feature i (Some b) st)
         else ds5_get_feature i (Some b) st = (0, Some b)))"
    using none bits short ds5_reply [OF _ assms]
    by (cases "ds5_feature_length i") simp_all
  show ?thesis
    by (intro conjI, rule replies, rule missing, rule accepts, rule eff)
qed

theorem ds5_features_match_descriptor_witness:
  "length (ds5_address ds5_default_features) = 6 \<and>
   \<not> fst (ds5_set_feature 0x08 (Some (0x08 # 2 # 1 # replicate 45 0)) ds5_default_features)"
proof -
  let ?b = "0x08 # 2 # 1 # replicate 45 0 :: byte list"
  have a: "length (ds5_address ds5_default_features) = 6"
    by (simp add: ds5_default_features_def)
  moreover have "\<not> (\<forall>k \<in> {2..<48}. ?b ! k = 0)" by (auto intro!: bexI [of _ 2])
  ultimately show ?thesis
    using ds5_features_match_descriptor [OF a, of "0x08" ?b] by simp
qed

end
