(* ===== verification/SwitchPro.thy ===== *)
theory SwitchPro
  imports PlayStation ReportPump
begin

text \<open>
  The Switch Pro profile: \<^theory_text>\<open>driver/src/switch_pro.h\<close> and
  \<^theory_text>\<open>switch_pro.cpp\<close>. A pointer that may be null is an option; a report
  buffer is a byte list whose length is the size argument; the replies are returned with the
  byte count the function returns.
\<close>

section \<open>Constants\<close>

definition k_switch_input_report_id :: byte
  where "k_switch_input_report_id = 0x30"

definition k_switch_subcommand_reply_id :: byte
  where "k_switch_subcommand_reply_id = 0x21"

definition k_switch_usb_reply_id :: byte
  where "k_switch_usb_reply_id = 0x81"

definition k_switch_rumble_subcommand_id :: byte
  where "k_switch_rumble_subcommand_id = 0x01"

definition k_switch_rumble_only_id :: byte
  where "k_switch_rumble_only_id = 0x10"

definition k_switch_usb_command_id :: byte
  where "k_switch_usb_command_id = 0x80"

definition k_switch_stick_center :: int
  where "k_switch_stick_center = 2048"

definition k_switch_stick_range :: int
  where "k_switch_stick_range = 1400"

definition k_switch_stick_max :: int
  where "k_switch_stick_max = 4095"

definition k_switch_accel_sensitivity :: int
  where "k_switch_accel_sensitivity = 16384"

definition k_switch_gyro_sensitivity :: int
  where "k_switch_gyro_sensitivity = 13371"

definition k_switch_amplitude_max :: int
  where "k_switch_amplitude_max = 0x64"

definition k_switch_amplitude_by_index :: "int list"
  where "k_switch_amplitude_by_index = [
  0, 514, 775, 921, 1096, 1303, 1550, 1843, 2192, 2606,
  3100, 3686, 4383, 5213, 6199, 7372, 7698, 8039, 8395, 8767,
  9155, 9560, 9984, 10426, 10887, 11369, 11873, 12398, 12947, 13520,
  14119, 14744, 15067, 15397, 15734, 16079, 16431, 16790, 17158, 17534,
  17918, 18310, 18711, 19121, 19540, 19967, 20405, 20851, 21308, 21775,
  22251, 22739, 23236, 23745, 24265, 24797, 25340, 25894, 26462, 27041,
  27633, 28238, 28856, 29488, 30134, 30794, 31468, 32157, 32861, 33581,
  34316, 35068, 35836, 36620, 37422, 38242, 39079, 39935, 40809, 41703,
  42616, 43549, 44503, 45477, 46473, 47491, 48531, 49593, 50679, 51789,
  52923, 54082, 55266, 56476, 57713, 58977, 60268, 61588, 62936, 64315,
  65535]"

definition k_switch_mac :: "byte list"
  where "k_switch_mac = [0x02, 0x56, 0x47, 0x53, 0x57, 0x50]"

section \<open>Sticks and the emulated flash\<close>

definition clamp_stick :: "int \<Rightarrow> u16"
  where "clamp_stick v =
    (if v < 0 then 0 else if v > k_switch_stick_max then of_int k_switch_stick_max else of_int v)"

definition pack_stick :: "u16 \<Rightarrow> u16 \<Rightarrow> byte list"
  where "pack_stick horizontal vertical =
    [ucast (horizontal AND 0xFF),
     ucast ((drop_bit 8 horizontal AND 0x0F) OR push_bit 4 (vertical AND 0x0F)),
     ucast (drop_bit 4 vertical AND 0xFF)]"

definition switch_to_stick :: "i16 \<Rightarrow> u16"
  where "switch_to_stick v =
    clamp_stick (k_switch_stick_center + (v * k_switch_stick_range) sdiv 32767)"

definition pack_calibration_pair :: "int \<Rightarrow> int \<Rightarrow> byte list"
  where "pack_calibration_pair first second =
    [ucast (of_int first AND 0xFF :: u16),
     ucast ((drop_bit 8 (of_int first) AND 0x0F) OR push_bit 4 (of_int second AND 0x0F) :: u16),
     ucast (drop_bit 4 (of_int second) AND 0xFF :: u16)]"

text \<open>The bytes a read of the given length leaves in its buffer.\<close>

definition stick_calibration :: "byte list"
  where "stick_calibration =
    pack_calibration_pair k_switch_stick_range k_switch_stick_range @
    pack_calibration_pair k_switch_stick_center k_switch_stick_center @
    pack_calibration_pair k_switch_stick_range k_switch_stick_range @
    pack_calibration_pair k_switch_stick_center k_switch_stick_center @
    pack_calibration_pair k_switch_stick_range k_switch_stick_range @
    pack_calibration_pair k_switch_stick_range k_switch_stick_range"

definition motion_calibration :: "nat \<Rightarrow> byte list"
  where "motion_calibration len =
    foldl (\<lambda>out axis. out
        [6 + axis * 2 := lo8 (u16_of_int k_switch_accel_sensitivity),
         7 + axis * 2 := hi8 (u16_of_int k_switch_accel_sensitivity),
         18 + axis * 2 := lo8 (u16_of_int k_switch_gyro_sensitivity),
         19 + axis * 2 := hi8 (u16_of_int k_switch_gyro_sensitivity)])
      (replicate len 0) [0..<3]"

definition read_spi :: "u32 \<Rightarrow> byte \<Rightarrow> byte list"
  where "read_spi address len =
    (let n = unat len; out = replicate n 0xFF
     in if address = 0x603D then
          (if n < 18 then out else overwrite 0 stick_calibration out)
        else if address = 0x6020 then
          (if n < 24 then out else motion_calibration n)
        else if address = 0x6050 then
          (if n < 6 then out else overwrite 0 [0x32, 0x32, 0x32, 0xE6, 0xE6, 0xE6] out)
        else out)"

section \<open>State and reports\<close>

record switch_state =
  sw_timer :: byte
  sw_battery_level :: byte
  sw_cable_connected :: bool
  sw_charging :: bool
  sw_gyro :: "i16 list"
  sw_accel :: "i16 list"
  sw_player_lights :: byte
  sw_imu_enabled :: bool
  sw_vibration_enabled :: bool
  sw_handshake_complete :: bool

definition switch_reset :: switch_state
  where "switch_reset = \<lparr>sw_timer = 0, sw_battery_level = 8, sw_cable_connected = True,
    sw_charging = False, sw_gyro = [0, 0, 0], sw_accel = [0, 0, 4096], sw_player_lights = 0x01,
    sw_imu_enabled = False, sw_vibration_enabled = False, sw_handshake_complete = False\<rparr>"

record switch_input_report =
  si_report_id :: byte
  si_timer :: byte
  si_connection_battery :: byte
  si_buttons_right :: byte
  si_buttons_shared :: byte
  si_buttons_left :: byte
  si_left_stick :: "byte list"
  si_right_stick :: "byte list"
  si_vibrator_report :: byte
  si_imu :: "byte list"

definition switch_input_bytes :: "switch_input_report \<Rightarrow> byte list"
  where "switch_input_bytes r =
    [si_report_id r, si_timer r, si_connection_battery r, si_buttons_right r,
     si_buttons_shared r, si_buttons_left r] @ si_left_stick r @ si_right_stick r @
    [si_vibrator_report r] @ si_imu r @ replicate 15 0"

record switch_subcommand_reply =
  sr_report_id :: byte
  sr_timer :: byte
  sr_connection_battery :: byte
  sr_buttons_right :: byte
  sr_buttons_shared :: byte
  sr_buttons_left :: byte
  sr_left_stick :: "byte list"
  sr_right_stick :: "byte list"
  sr_vibrator_report :: byte
  sr_ack :: byte
  sr_subcommand :: byte
  sr_data :: "byte list"

definition switch_reply_bytes :: "switch_subcommand_reply \<Rightarrow> byte list"
  where "switch_reply_bytes r =
    [sr_report_id r, sr_timer r, sr_connection_battery r, sr_buttons_right r,
     sr_buttons_shared r, sr_buttons_left r] @ sr_left_stick r @ sr_right_stick r @
    [sr_vibrator_report r, sr_ack r, sr_subcommand r] @ sr_data r"

definition blank_switch_reply :: switch_subcommand_reply
  where "blank_switch_reply = \<lparr>sr_report_id = 0, sr_timer = 0, sr_connection_battery = 0,
    sr_buttons_right = 0, sr_buttons_shared = 0, sr_buttons_left = 0,
    sr_left_stick = replicate 3 0, sr_right_stick = replicate 3 0, sr_vibrator_report = 0,
    sr_ack = 0, sr_subcommand = 0, sr_data = replicate 49 0\<rparr>"

record switch_usb_reply =
  su_report_id :: byte
  su_subtype :: byte
  su_data :: "byte list"

definition switch_buttons_right :: "input_state_request \<Rightarrow> byte"
  where "switch_buttons_right input =
    byte_if (has (is_buttons input) button_south) 0x04 OR
    byte_if (has (is_buttons input) button_east) 0x08 OR
    byte_if (has (is_buttons input) button_west) 0x01 OR
    byte_if (has (is_buttons input) button_north) 0x02 OR
    byte_if (has (is_buttons input) button_right_shoulder) 0x40 OR
    byte_if (is_right_trigger input > 0) 0x80"

definition switch_buttons_shared :: "input_state_request \<Rightarrow> byte"
  where "switch_buttons_shared input =
    byte_if (has (is_buttons input) button_back) 0x01 OR
    byte_if (has (is_buttons input) button_start) 0x02 OR
    byte_if (has (is_buttons input) button_left_stick) 0x08 OR
    byte_if (has (is_buttons input) button_right_stick) 0x04 OR
    byte_if (has (is_buttons input) button_home) 0x10 OR
    byte_if (has (is_buttons input) (button_misc OR button_touchpad)) 0x20"

definition switch_buttons_left :: "input_state_request \<Rightarrow> byte"
  where "switch_buttons_left input =
    byte_if (has (is_buttons input) button_dpad_down) 0x01 OR
    byte_if (has (is_buttons input) button_dpad_up) 0x02 OR
    byte_if (has (is_buttons input) button_dpad_right) 0x04 OR
    byte_if (has (is_buttons input) button_dpad_left) 0x08 OR
    byte_if (has (is_buttons input) button_left_shoulder) 0x40 OR
    byte_if (is_left_trigger input > 0) 0x80"

definition switch_status :: "switch_state \<Rightarrow> byte"
  where "switch_status s =
    push_bit 4 (sw_battery_level s AND 0x0E) OR byte_if (sw_charging s) 0x10 OR
    byte_if (sw_cable_connected s) 0x01"

definition switch_imu :: "switch_state \<Rightarrow> byte list"
  where "switch_imu s =
    concat (replicate 3 (concat (map i16_bytes (sw_accel s)) @ concat (map i16_bytes (sw_gyro s))))"

definition encode_switch_input ::
  "input_state_request \<Rightarrow> switch_state option \<Rightarrow> switch_input_report \<times> switch_state option"
  where "encode_switch_input input state =
    (let state' = map_option (\<lambda>s. s\<lparr>sw_timer := sw_timer s + 1\<rparr>) state
     in (\<lparr>si_report_id = k_switch_input_report_id,
       si_timer = (case state' of None \<Rightarrow> 0 | Some s \<Rightarrow> sw_timer s),
       si_connection_battery = (case state' of None \<Rightarrow> 0x81 | Some s \<Rightarrow> switch_status s),
       si_buttons_right = switch_buttons_right input,
       si_buttons_shared = switch_buttons_shared input,
       si_buttons_left = switch_buttons_left input,
       si_left_stick = pack_stick (switch_to_stick (is_left_x input)) (switch_to_stick (is_left_y input)),
       si_right_stick = pack_stick (switch_to_stick (is_right_x input)) (switch_to_stick (is_right_y input)),
       si_vibrator_report = 0x0C,
       si_imu = (case state' of
           None \<Rightarrow> replicate 36 0
         | Some s \<Rightarrow> if sw_imu_enabled s then switch_imu s else replicate 36 0)\<rparr>,
      state'))"

section \<open>Motion and battery\<close>

definition switch_accel :: "int \<Rightarrow> i16"
  where "switch_accel milli =
    clamp_i16 (clamp (- 2147483648) 2147483647 ((milli * 4096) sdiv 9807))"

definition switch_gyro :: "int \<Rightarrow> i16"
  where "switch_gyro milli =
    clamp_i16 (clamp (- 2147483648) 2147483647
      ((milli * k_switch_gyro_sensitivity) sdiv (936 * 1000)))"

definition apply_switch_motion :: "motion_state_request \<Rightarrow> switch_state \<Rightarrow> bool \<times> switch_state"
  where "apply_switch_motion motion s =
    (if ms_motion_type motion = motion_accelerometer then
       (True, s\<lparr>sw_accel := [switch_accel (- ms_z_milli motion), switch_accel (- ms_x_milli motion),
          switch_accel (ms_y_milli motion)]\<rparr>)
     else if ms_motion_type motion = motion_gyroscope then
       (True, s\<lparr>sw_gyro := [switch_gyro (- ms_z_milli motion), switch_gyro (- ms_x_milli motion),
          switch_gyro (ms_y_milli motion)]\<rparr>)
     else (False, s))"

definition apply_switch_battery :: "battery_state_request \<Rightarrow> switch_state \<Rightarrow> bool \<times> switch_state"
  where "apply_switch_battery battery s =
    (let reported = bs_flags battery;
         s = s\<lparr>sw_cable_connected := (reported = battery_charging \<or> reported = battery_full \<or>
                 reported = battery_not_charging),
               sw_charging := (reported = battery_charging)\<rparr>
     in (True, if bs_percent battery \<le> 100
         then s\<lparr>sw_battery_level := (if bs_percent battery = 0 then 0
           else of_nat (2 * ((unat (bs_percent battery) + 24) div 25)))\<rparr>
         else s))"

section \<open>Host commands\<close>

definition handle_switch_usb_command ::
  "byte list option \<Rightarrow> switch_state option \<Rightarrow> switch_usb_reply option \<Rightarrow>
   nat \<times> switch_state option \<times> switch_usb_reply option"
  where "handle_switch_usb_command report state reply =
    (case (report, reply) of
       (Some r, Some _) \<Rightarrow>
         if length r < 2 \<or> r ! 0 \<noteq> k_switch_usb_command_id then (0, state, reply)
         else
           let out = \<lparr>su_report_id = k_switch_usb_reply_id, su_subtype = r ! 1, su_data = replicate 62 0\<rparr>
           in if r ! 1 = 0x01 then
                (2 + 2 + length k_switch_mac, state,
                 Some (out\<lparr>su_data := overwrite 2 k_switch_mac ((su_data out)[0 := 0x00, 1 := 0x03])\<rparr>))
              else if r ! 1 = 0x02 then
                (2, map_option (\<lambda>s. s\<lparr>sw_handshake_complete := True\<rparr>) state, Some out)
              else if r ! 1 = 0x03 \<or> r ! 1 = 0x04 then (2, state, Some out)
              else (0, state, Some out)
     | _ \<Rightarrow> (0, state, reply))"

definition switch_spi_data :: "byte list \<Rightarrow> byte list"
  where "switch_spi_data args =
    (let address = le32_of (args ! 0) (args ! 1) (args ! 2) (args ! 3);
         len = (if args ! 4 > 44 then 44 else args ! 4)
     in overwrite 5 (read_spi address len) (overwrite 0 (take 5 args) (replicate 49 0)))"

definition switch_device_info :: "byte list"
  where "switch_device_info =
    (overwrite 4 k_switch_mac ((replicate 49 0)[0 := 0x04, 1 := 0x21, 2 := 0x03, 3 := 0x02]))
      [10 := 0x01, 11 := 0x01]"

text \<open>The acknowledgement byte, the reply data and the state a subcommand leaves.\<close>

definition answer_subcommand ::
  "byte \<Rightarrow> byte list \<Rightarrow> switch_state option \<Rightarrow> byte \<times> byte list \<times> switch_state option"
  where "answer_subcommand subcommand args state =
    (let none = replicate 49 (0 :: byte) in
     if subcommand = 0x02 then (0x82, switch_device_info, state)
     else if subcommand = 0x10 then
       (if length args < 5 then (0x80, none, state) else (0x90, switch_spi_data args, state))
     else if subcommand = 0x40 then
       (0x80, none, if length args \<ge> 1
          then map_option (\<lambda>s. s\<lparr>sw_imu_enabled := (args ! 0 \<noteq> 0)\<rparr>) state else state)
     else if subcommand = 0x48 then
       (0x80, none, if length args \<ge> 1
          then map_option (\<lambda>s. s\<lparr>sw_vibration_enabled := (args ! 0 \<noteq> 0)\<rparr>) state else state)
     else if subcommand = 0x30 then
       (0x80, none, if length args \<ge> 1
          then map_option (\<lambda>s. s\<lparr>sw_player_lights := args ! 0\<rparr>) state else state)
     else if subcommand = 0x31 then
       (0xB0, none[0 := (case state of None \<Rightarrow> 0x01 | Some s \<Rightarrow> sw_player_lights s)], state)
     else (0x80, none, state))"

definition handle_switch_subcommand ::
  "byte list option \<Rightarrow> input_state_request \<Rightarrow> switch_state option \<Rightarrow>
   switch_subcommand_reply option \<Rightarrow> nat \<times> switch_state option \<times> switch_subcommand_reply option"
  where "handle_switch_subcommand report last_input state reply =
    (case (report, reply) of
       (Some r, Some _) \<Rightarrow>
         if length r < 11 \<or> r ! 0 \<noteq> k_switch_rumble_subcommand_id then (0, state, reply)
         else
           let subcommand = r ! 10; args = drop 11 r;
               (input, state) = encode_switch_input last_input state;
               (ack, dat, state) = answer_subcommand subcommand args state
           in (64, state, Some \<lparr>sr_report_id = k_switch_subcommand_reply_id,
                sr_timer = si_timer input, sr_connection_battery = si_connection_battery input,
                sr_buttons_right = si_buttons_right input,
                sr_buttons_shared = si_buttons_shared input,
                sr_buttons_left = si_buttons_left input,
                sr_left_stick = si_left_stick input, sr_right_stick = si_right_stick input,
                sr_vibrator_report = si_vibrator_report input, sr_ack = ack,
                sr_subcommand = subcommand, sr_data = dat\<rparr>)
     | _ \<Rightarrow> (0, state, reply))"

definition queue_switch_subcommand_reply ::
  "byte list option \<Rightarrow> input_state_request \<Rightarrow> switch_state option \<Rightarrow> report_pump \<Rightarrow>
   bool \<times> switch_state option \<times> report_pump"
  where "queue_switch_subcommand_reply report last_input state pump =
    (case handle_switch_subcommand report last_input state (Some blank_switch_reply) of
       (n, state, reply) \<Rightarrow>
         let reply = the reply
         in if n = 0 then (False, state, pump)
            else case enqueue (Some (switch_reply_bytes reply)) 64 (sr_report_id reply) Priority pump of
                (False, pump) \<Rightarrow> (False, state, pump)
              | (True, pump) \<Rightarrow>
                  let r = the report
                  in if sr_subcommand reply = 0x03 \<and> length r \<ge> 12 \<and> r ! 11 = k_switch_input_report_id
                     then let (input, state) = encode_switch_input last_input state;
                              (ok, pump) = enqueue (Some (switch_input_bytes input)) 64
                                (si_report_id input) Continuous pump
                          in (ok, state, pump)
                     else (True, state, pump))"

section \<open>Rumble\<close>

definition rumble_scale :: "int \<Rightarrow> u16"
  where "rumble_scale index =
    (if index \<le> 0 then 0
     else of_int (k_switch_amplitude_by_index !
       nat (if index > k_switch_amplitude_max then k_switch_amplitude_max else index)))"

definition high_band :: "byte list \<Rightarrow> u16"
  where "high_band side = rumble_scale (uint (drop_bit 1 (side ! 1 AND 0xFE)))"

definition low_band :: "byte list \<Rightarrow> u16"
  where "low_band side =
    rumble_scale ((uint (side ! 3 AND 0x7F) - 0x40) * 2 + uint (drop_bit 7 (side ! 2 AND 0x80)))"

definition decode_switch_rumble :: "byte list option \<Rightarrow> playstation_output_feedback option"
  where "decode_switch_rumble report =
    (case report of
       None \<Rightarrow> None
     | Some r \<Rightarrow>
        if length r < 10 then None
        else if r ! 0 \<noteq> k_switch_rumble_subcommand_id \<and> r ! 0 \<noteq> k_switch_rumble_only_id then None
        else let left = drop 2 r; right = drop 6 r
             in Some (blank_playstation_output
                  \<lparr>po_low_frequency := max (low_band left) (low_band right),
                   po_high_frequency := max (high_band left) (high_band right)\<rparr>))"

section \<open>What a host reads\<close>

text \<open>A host unpacks a 12-bit pair and undoes the calibration it was served.\<close>

definition unpack_pair :: "byte list \<Rightarrow> u16 \<times> u16"
  where "unpack_pair b =
    (ucast (b ! 0) OR push_bit 8 (ucast (b ! 1 AND 0x0F)),
     ucast (drop_bit 4 (b ! 1)) OR push_bit 4 (ucast (b ! 2)))"

lemma pack_stick_touch: "pack_stick x y = drop 1 (pack_touch_point True 0 x y)"
  by (simp add: pack_stick_def pack_touch_point_def)

lemma unpack_pack_stick:
  assumes "unat x < 4096" "unat y < 4096"
  shows "unpack_pair (pack_stick x y) = (x, y)"
  using unpack_pack [OF assms, of True 0]
  by (simp add: unpack_touch_point_def unpack_pair_def pack_stick_def pack_touch_point_def)

lemma length_pack_stick [simp]: "length (pack_stick x y) = 3"
  by (simp add: pack_stick_def)

lemma sdiv_bounds:
  fixes a b :: int
  assumes "0 < b" shows "\<bar>a - (a sdiv b) * b\<bar> < b \<and> \<bar>a sdiv b\<bar> * b \<le> \<bar>a\<bar>"
proof -
  have "\<bar>a\<bar> - (\<bar>a\<bar> div b) * b = \<bar>a\<bar> mod b" by (metis minus_div_mult_eq_mod)
  then have m: "0 \<le> \<bar>a\<bar> - (\<bar>a\<bar> div b) * b" "\<bar>a\<bar> - (\<bar>a\<bar> div b) * b < b"
    using assms pos_mod_bound [OF assms] by simp_all
  have "0 \<le> \<bar>a\<bar> div b" using assms by (simp add: pos_imp_zdiv_nonneg_iff)
  then show ?thesis
    using assms m by (cases "0 \<le> a") (auto simp: signed_divide_int_def sgn_if)
qed

lemma uint_clamp_stick: "0 \<le> k \<Longrightarrow> k \<le> 4095 \<Longrightarrow> uint (clamp_stick k) = k"
  by (simp add: clamp_stick_def k_switch_stick_max_def uint_word_of_int)

lemma switch_to_stick_value:
  assumes "i16_ok v"
  shows "uint (switch_to_stick v) = 2048 + (v * 1400) sdiv 32767 \<and>
    \<bar>(v * 1400) sdiv 32767\<bar> \<le> 1400"
proof -
  have "\<bar>(v * 1400) sdiv 32767\<bar> * 32767 \<le> \<bar>v * 1400\<bar>" using sdiv_bounds [of 32767 "v * 1400"] by simp
  moreover have "\<bar>v * 1400\<bar> < 1401 * 32767" using assms by (auto simp: i16_ok_def abs_if)
  ultimately have "\<bar>(v * 1400) sdiv 32767\<bar> \<le> 1400" by linarith
  then show ?thesis
    by (simp add: switch_to_stick_def k_switch_stick_center_def k_switch_stick_range_def
        uint_clamp_stick)
qed

definition host_axis :: "byte list \<Rightarrow> u16 \<Rightarrow> int"
  where "host_axis flash raw =
    (let centre = uint (fst (unpack_pair (drop 3 flash))); range = uint (fst (unpack_pair flash))
     in ((uint raw - centre) * 32767) sdiv range)"

lemma served_calibration:
  "unat n \<ge> 18 \<Longrightarrow> take 18 (read_spi 0x603D n) = stick_calibration"
  "fst (unpack_pair stick_calibration) = 1400" "fst (unpack_pair (drop 3 stick_calibration)) = 2048"
  by (simp add: read_spi_def Let_def overwrite_def stick_calibration_def pack_calibration_pair_def)
     (code_simp+)

lemma rescale_error:
  assumes "i16_ok v"
  shows "\<bar>(((v * 1400) sdiv 32767) * 32767) sdiv 1400 - v\<bar> \<le> 24"
proof -
  let ?q = "(v * 1400) sdiv 32767"
  let ?w = "(?q * 32767) sdiv 1400"
  have "\<bar>v * 1400 - ?q * 32767\<bar> < 32767" "\<bar>?q * 32767 - ?w * 1400\<bar> < 1400"
    using sdiv_bounds [of 32767 "v * 1400"] sdiv_bounds [of 1400 "?q * 32767"] by simp_all
  then have "\<bar>v * 1400 - ?w * 1400\<bar> < 34167" by linarith
  then show ?thesis by linarith
qed

text \<open>Sticks survive the calibration the pad itself serves: a host that reads
  the factory block at flash address 0x603D, unpacks the 12-bit axes of a report and rescales
  by the served centre and range gets every axis back within 24 counts of 32767, exactly zero
  for a centred stick, and never a saturated value.\<close>

theorem switch_sticks_calibrated:
  assumes "i16_ok h" "i16_ok v" "18 \<le> unat n"
  defines "raw \<equiv> unpack_pair (pack_stick (switch_to_stick h) (switch_to_stick v))"
    and "flash \<equiv> take 18 (read_spi 0x603D n)"
  shows "\<bar>host_axis flash (fst raw) - h\<bar> \<le> 24 \<and> \<bar>host_axis flash (snd raw) - v\<bar> \<le> 24 \<and>
    648 \<le> uint (fst raw) \<and> uint (fst raw) \<le> 3448 \<and> 648 \<le> uint (snd raw) \<and> uint (snd raw) \<le> 3448 \<and>
    (h = 0 \<longrightarrow> host_axis flash (fst raw) = 0) \<and> (v = 0 \<longrightarrow> host_axis flash (snd raw) = 0)"
proof -
  have one: "host_axis flash (switch_to_stick a) = (((a * 1400) sdiv 32767) * 32767) sdiv 1400 \<and>
      648 \<le> uint (switch_to_stick a) \<and> uint (switch_to_stick a) \<le> 3448 \<and>
      unat (switch_to_stick a) < 4096" if "i16_ok a" for a
    using switch_to_stick_value [OF that] served_calibration(1) [OF assms(3)]
    by (auto simp: host_axis_def Let_def flash_def served_calibration(2,3) unat_eq_nat_uint)
  then have "raw = (switch_to_stick h, switch_to_stick v)"
    using assms(1,2) by (simp add: raw_def unpack_pack_stick)
  then show ?thesis
    using one [OF assms(1)] one [OF assms(2)] rescale_error [OF assms(1)] rescale_error [OF assms(2)]
    by auto
qed

theorem switch_sticks_calibrated_witness:
  "\<bar>host_axis (take 18 (read_spi 0x603D 18))
      (fst (unpack_pair (pack_stick (switch_to_stick (- 32768)) (switch_to_stick 0)))) + 32768\<bar> \<le> 24"
  using switch_sticks_calibrated [of "- 32768" 0 18] by (simp add: i16_ok_def)

section \<open>Rumble round trip\<close>

text \<open>One side of a rumble payload as a host encodes it: amplitude indices of the two
  bands, with any frequency bits around them.\<close>

definition rumble_side :: "nat \<Rightarrow> nat \<Rightarrow> byte \<Rightarrow> byte \<Rightarrow> byte \<Rightarrow> byte list"
  where "rumble_side high low f0 f1 f2 =
    [f0, push_bit 1 (of_nat high) OR (f1 AND 1),
     push_bit 7 (of_nat (low mod 2)) OR (f2 AND 0x7F), of_nat (0x40 + low div 2)]"

definition band_bits :: "int \<Rightarrow> bool"
  where "band_bits k \<longleftrightarrow> uint (drop_bit 1 (push_bit 1 (of_int k) AND 0xFE :: byte)) = k \<and>
    (uint (of_int (0x40 + k div 2) AND 0x7F :: byte) - 0x40) * 2 +
      uint (drop_bit 7 (push_bit 7 (of_int (k mod 2)) AND 0x80 :: byte)) = k"

lemma band_bits_all: "list_all band_bits [0..100]"
  by code_simp

lemma amplitude_bits:
  assumes "k \<le> 100"
  shows "uint (drop_bit 1 (push_bit 1 (of_nat k) AND 0xFE :: byte)) = int k"
    and "(uint (of_nat (0x40 + k div 2) AND 0x7F :: byte) - 0x40) * 2 +
      uint (drop_bit 7 (push_bit 7 (of_nat (k mod 2)) AND 0x80 :: byte)) = int k"
proof -
  have "\<forall>j \<in> {0..100}. band_bits j"
    using band_bits_all by (simp only: list_all_iff set_upto)
  then have "band_bits (int k)" using assms by simp
  moreover have "int k div 2 = int (k div 2)" "int k mod 2 = int (k mod 2)"
    by (simp_all add: zdiv_int zmod_int)
  ultimately show "uint (drop_bit 1 (push_bit 1 (of_nat k) AND 0xFE :: byte)) = int k"
    and "(uint (of_nat (0x40 + k div 2) AND 0x7F :: byte) - 0x40) * 2 +
      uint (drop_bit 7 (push_bit 7 (of_nat (k mod 2)) AND 0x80 :: byte)) = int k"
    by (simp_all add: band_bits_def del: of_nat_div of_nat_mod)
qed

lemma scale_index: "k \<le> 100 \<Longrightarrow> rumble_scale (int k) = of_int (k_switch_amplitude_by_index ! k)"
  by (cases "k = 0") (simp_all add: rumble_scale_def k_switch_amplitude_max_def
      k_switch_amplitude_by_index_def)

lemma side_bands:
  assumes "high \<le> 100" "low \<le> 100"
  shows "high_band (rumble_side high low f0 f1 f2 @ rest) = of_int (k_switch_amplitude_by_index ! high)"
    and "low_band (rumble_side high low f0 f1 f2 @ rest) = of_int (k_switch_amplitude_by_index ! low)"
  using scale_index [OF assms(1)] scale_index [OF assms(2)] amplitude_bits(1) [OF assms(1)]
    amplitude_bits(2) [OF assms(2)]
  by (simp_all add: high_band_def low_band_def rumble_side_def bit.conj_disj_distrib2 and.assoc)

lemma amplitudes_increase: "sorted_wrt (<) k_switch_amplitude_by_index"
  by code_simp

lemma amplitude_strict: "i < j \<Longrightarrow> j \<le> 100 \<Longrightarrow>
    k_switch_amplitude_by_index ! i < k_switch_amplitude_by_index ! j"
  using amplitudes_increase
  by (simp add: sorted_wrt_iff_nth_less) (simp add: k_switch_amplitude_by_index_def)

lemma amplitude_range: "i \<le> 100 \<Longrightarrow>
    0 \<le> k_switch_amplitude_by_index ! i \<and> k_switch_amplitude_by_index ! i \<le> 65535"
  using amplitude_strict [of 0 i] amplitude_strict [of i 100]
  by (cases "i = 0"; cases "i = 100") (auto simp: k_switch_amplitude_by_index_def)

definition amplitude :: "nat \<Rightarrow> u16"
  where "amplitude i = of_int (k_switch_amplitude_by_index ! i)"

lemma uint_amplitude: "i \<le> 100 \<Longrightarrow> uint (amplitude i) = k_switch_amplitude_by_index ! i"
  using amplitude_range [of i] by (simp add: amplitude_def uint_word_of_int)

lemma amplitude_less: "i < j \<Longrightarrow> j \<le> 100 \<Longrightarrow> amplitude i < amplitude j"
  using amplitude_strict [of i j] by (simp add: word_less_def uint_amplitude)

lemma amplitude_max: "i \<le> 100 \<Longrightarrow> j \<le> 100 \<Longrightarrow> max (amplitude i) (amplitude j) = amplitude (max i j)"
  using amplitude_less [of i j] amplitude_less [of j i] by (cases i j rule: linorder_cases) auto

text \<open>Property C36. Rumble round trip: a payload that encodes table rows (0 to 100) for the
  two bands of both sides decodes, under either rumble report id and whatever the frequency
  bits, to the table's amplitude of the larger row per band -- high band to the high motor,
  low band to the low motor -- and a larger row always gives a strictly larger amplitude;
  other ids and short reports are refused.\<close>

theorem switch_rumble_round_trip:
  assumes "lh \<le> 100" "ll \<le> 100" "rh \<le> 100" "rl \<le> 100" "i = 0x01 \<or> i = 0x10"
  shows "decode_switch_rumble (Some ([i, n] @ rumble_side lh ll f0 f1 f2 @ rumble_side rh rl g0 g1 g2 @ rest)) =
      Some (blank_playstation_output\<lparr>po_low_frequency := amplitude (max ll rl),
        po_high_frequency := amplitude (max lh rh)\<rparr>) \<and>
    (\<forall>j < lh. amplitude j < amplitude lh) \<and> amplitude 0 = 0 \<and> amplitude 100 = 0xFFFF \<and>
    decode_switch_rumble None = None \<and>
    (\<forall>r. length r < 10 \<or> r ! 0 \<notin> {0x01, 0x10} \<longrightarrow> decode_switch_rumble (Some r) = None)"
proof -
  have ends: "amplitude 0 = 0" "amplitude 100 = 0xFFFF"
    by (simp_all add: amplitude_def k_switch_amplitude_by_index_def)
  have "length (rumble_side lh ll f0 f1 f2) = 4" "length (rumble_side rh rl g0 g1 g2) = 4"
    by (simp_all add: rumble_side_def)
  then have "decode_switch_rumble (Some ([i, n] @ rumble_side lh ll f0 f1 f2 @ rumble_side rh rl g0 g1 g2 @ rest)) =
      Some (blank_playstation_output\<lparr>po_low_frequency := max (amplitude ll) (amplitude rl),
        po_high_frequency := max (amplitude lh) (amplitude rh)\<rparr>)"
    using assms
    by (auto simp: decode_switch_rumble_def Let_def side_bands amplitude_def
        k_switch_rumble_subcommand_id_def k_switch_rumble_only_id_def)
  then show ?thesis
    using assms amplitude_less [of _ lh] ends
    by (simp add: amplitude_max)
       (auto simp: decode_switch_rumble_def k_switch_rumble_subcommand_id_def k_switch_rumble_only_id_def)
qed

theorem switch_rumble_round_trip_witness:
  "decode_switch_rumble (Some ([0x10, 7] @ rumble_side 68 0 0 0 0 @ rumble_side 10 100 1 2 3 @ [])) =
    Some (blank_playstation_output\<lparr>po_low_frequency := amplitude 100, po_high_frequency := amplitude 68\<rparr>)"
  using switch_rumble_round_trip [of 68 0 10 100 "0x10" 7 0 0 0 1 2 3 "[]"] by simp

section \<open>The states a pad goes through\<close>

inductive switch_reachable :: "switch_state \<Rightarrow> bool"
  where
    switch_start: "switch_reachable switch_reset"
  | switch_motion: "switch_reachable s \<Longrightarrow> switch_reachable (snd (apply_switch_motion m s))"
  | switch_battery: "switch_reachable s \<Longrightarrow> switch_reachable (snd (apply_switch_battery p s))"
  | switch_report: "switch_reachable s \<Longrightarrow> snd (encode_switch_input input (Some s)) = Some s' \<Longrightarrow>
      switch_reachable s'"
  | switch_subcommand: "switch_reachable s \<Longrightarrow>
      handle_switch_subcommand report input (Some s) reply = (n, Some s', reply') \<Longrightarrow>
      switch_reachable s'"
  | switch_usb: "switch_reachable s \<Longrightarrow>
      handle_switch_usb_command report (Some s) usb = (n, Some s', usb') \<Longrightarrow> switch_reachable s'"

definition switch_ok :: "switch_state \<Rightarrow> bool"
  where "switch_ok s \<longleftrightarrow> axes_ok (sw_gyro s) \<and> axes_ok (sw_accel s) \<and>
    sw_battery_level s \<in> {0, 2, 4, 6, 8} \<and> (sw_charging s \<longrightarrow> sw_cable_connected s)"

lemma switch_ok_frame [simp]:
  "switch_ok (s\<lparr>sw_timer := t\<rparr>) = switch_ok s" "switch_ok (s\<lparr>sw_player_lights := l\<rparr>) = switch_ok s"
  "switch_ok (s\<lparr>sw_imu_enabled := b\<rparr>) = switch_ok s"
  "switch_ok (s\<lparr>sw_vibration_enabled := b\<rparr>) = switch_ok s"
  "switch_ok (s\<lparr>sw_handshake_complete := b\<rparr>) = switch_ok s"
  by (simp_all add: switch_ok_def)

lemma answer_subcommand_ok:
  "answer_subcommand c args (Some s) = (a, d, Some s') \<Longrightarrow> switch_ok s \<Longrightarrow> switch_ok s'"
  by (auto simp: answer_subcommand_def Let_def split: if_splits)

lemma encode_switch_state [simp]:
  "snd (encode_switch_input input state) = map_option (\<lambda>s. s\<lparr>sw_timer := sw_timer s + 1\<rparr>) state"
  by (simp add: encode_switch_input_def Let_def)

lemma handle_subcommand_ok:
  assumes "handle_switch_subcommand report input (Some s) reply = (n, Some s', reply')" "switch_ok s"
  shows "switch_ok s'"
  using assms answer_subcommand_ok [of "the report ! 10" "drop 11 (the report)" "s\<lparr>sw_timer := sw_timer s + 1\<rparr>" _ _ s']
  by (auto simp: handle_switch_subcommand_def Let_def case_prod_beta prod_eq_iff
      split: option.splits if_splits)

lemma battery_steps:
  "p \<le> (100 :: byte) \<Longrightarrow> p \<noteq> 0 \<Longrightarrow>
    (of_nat (2 * ((unat p + 24) div 25)) :: byte) \<in> {2, 4, 6, 8}"
proof -
  assume "p \<le> 100" "p \<noteq> 0"
  then have "1 \<le> unat p" "unat p \<le> 100" by (simp_all add: word_le_nat_alt unat_gt_0 Suc_le_eq)
  then have "1 \<le> (unat p + 24) div 25" "(unat p + 24) div 25 < 5" by linarith+
  then have "(unat p + 24) div 25 \<in> {1, 2, 3, 4}" by auto
  then show ?thesis by auto
qed

lemma switch_reachable_ok: "switch_reachable s \<Longrightarrow> switch_ok s"
proof (induction rule: switch_reachable.induct)
  case switch_start
  show ?case by (simp add: switch_ok_def switch_reset_def axes_ok_def i16_ok_def)
next
  case (switch_motion s m)
  then show ?case
    by (simp add: switch_ok_def apply_switch_motion_def axes_ok_def switch_accel_def switch_gyro_def clamp_i16_ok)
next
  case (switch_battery s p)
  then show ?case using battery_steps [of "bs_percent p"]
    by (auto simp: switch_ok_def apply_switch_battery_def Let_def)
next
  case (switch_report s input s')
  then show ?case by auto
next
  case (switch_subcommand s report input reply n s' reply')
  then show ?case by (blast intro: handle_subcommand_ok)
next
  case (switch_usb s report usb n s' usb')
  then show ?case
    by (auto simp: handle_switch_usb_command_def Let_def split: option.splits if_splits)
qed

lemma axes_ok_length: "axes_ok xs \<Longrightarrow> length xs = 3"
  by (simp add: axes_ok_def)

lemma length_switch_imu: "switch_ok s \<Longrightarrow> length (switch_imu s) = 36"
  by (simp add: switch_ok_def switch_imu_def axes_ok_length numeral_3_eq_3)

lemma switch_input_fields:
  assumes "switch_ok s"
  shows "length (si_left_stick (fst (encode_switch_input input (Some s)))) = 3"
    "length (si_right_stick (fst (encode_switch_input input (Some s)))) = 3"
    "length (si_imu (fst (encode_switch_input input (Some s)))) = 36"
  using length_switch_imu [OF assms]
  by (simp_all add: encode_switch_input_def Let_def switch_imu_def)

lemma switch_input_split:
  fixes input
  assumes "switch_ok s"
  shows "\<exists>h. length h = 10 \<and> switch_input_bytes (fst (encode_switch_input input (Some s))) =
    [0x30] @ [sw_timer s + 1, switch_status s] @ h @
    (if sw_imu_enabled s then switch_imu s else replicate 36 0) @ replicate 15 0"
proof -
  define r where "r = fst (encode_switch_input input (Some s))"
  have f: "si_report_id r = 0x30" "si_timer r = sw_timer s + 1" "si_connection_battery r = switch_status s"
    "si_imu r = (if sw_imu_enabled s then switch_imu s else replicate 36 0)"
    by (simp_all add: r_def encode_switch_input_def Let_def k_switch_input_report_id_def
        switch_status_def switch_imu_def)
  show ?thesis
    using switch_input_fields [OF assms, of input]
    by (intro exI [of _ "[si_buttons_right r, si_buttons_shared r, si_buttons_left r] @ si_left_stick r @
        si_right_stick r @ [si_vibrator_report r]"] conjI)
       (simp_all add: switch_input_bytes_def f [unfolded r_def] r_def)
qed

lemma length_switch_input:
  "switch_ok s \<Longrightarrow> length (switch_input_bytes (fst (encode_switch_input input (Some s)))) = 64"
  using switch_input_fields [of s input] by (simp add: switch_input_bytes_def)

lemma imu_wire:
  assumes "b = h @ switch_imu s @ rest" "switch_ok s" "i < 3" "k < 3"
  shows "read_i16 b (length h + 12 * k + 2 * i) = sw_accel s ! i \<and>
    read_i16 b (length h + 12 * k + 6 + 2 * i) = sw_gyro s ! i"
proof -
  let ?one = "concat (map i16_bytes (sw_accel s)) @ concat (map i16_bytes (sw_gyro s))"
  have l: "length (sw_accel s) = 3" "length (sw_gyro s) = 3"
    using assms(2) by (simp_all add: switch_ok_def axes_ok_length)
  have imu: "switch_imu s = concat (replicate k ?one) @ ?one @ concat (replicate (2 - k) ?one)"
    using assms(4) by (auto simp: switch_imu_def numeral_3_eq_3 numeral_2_eq_2 less_Suc_eq)
  have "length (concat (replicate k ?one)) = 12 * k"
    by (induction k) (simp_all add: l)
  then show ?thesis
    using axes_wire [of b "h @ concat (replicate k ?one)" "sw_accel s" "sw_gyro s"
        "concat (replicate (2 - k) ?one) @ rest" i] assms
    by (simp add: imu switch_ok_def)
qed

lemma switch_accel_exact:
  assumes "\<bar>x\<bar> \<le> 78000"
  shows "\<bar>9807 * switch_accel x - 4096 * x\<bar> < 9807"
proof -
  have "\<bar>x * 4096 - ((x * 4096) sdiv 9807) * 9807\<bar> < 9807" "\<bar>(x * 4096) sdiv 9807\<bar> * 9807 \<le> \<bar>x * 4096\<bar>"
    using sdiv_bounds [of 9807 "x * 4096"] by simp_all
  moreover have "\<bar>x * 4096\<bar> \<le> 32767 * 9807" using assms by (simp add: abs_mult)
  ultimately have "\<bar>(x * 4096) sdiv 9807\<bar> \<le> 32767" by linarith
  then have "switch_accel x = (x * 4096) sdiv 9807"
    by (auto simp: switch_accel_def clamp_i16_def clamp_def)
  with \<open>\<bar>x * 4096 - _\<bar> < 9807\<close> show ?thesis by linarith
qed



text \<open>The axis shuffle is the proper rotation a host undoes: for acceleration
  within 78 m/s^2, reading x = -Y, y = Z, z = -X from any of the three samples of the next
  report gives each component of the client's vector to within one count of 4096 per g; the
  stored rotation rate is untouched.\<close>

theorem switch_accel_rotation_undone:
  assumes "switch_reachable s" "sw_imu_enabled s" "ms_motion_type m = motion_accelerometer"
    and bound: "\<bar>ms_x_milli m\<bar> \<le> 78000" "\<bar>ms_y_milli m\<bar> \<le> 78000" "\<bar>ms_z_milli m\<bar> \<le> 78000"
    and "k < 3"
    and b_def: "b = switch_input_bytes (fst (encode_switch_input input (Some (snd (apply_switch_motion m s)))))"
    and at_def: "at = 13 + 12 * k"
  shows "fst (apply_switch_motion m s) \<and>
    \<bar>9807 * (- read_i16 b (at + 2)) - 4096 * ms_x_milli m\<bar> < 9807 \<and>
    \<bar>9807 * read_i16 b (at + 4) - 4096 * ms_y_milli m\<bar> < 9807 \<and>
    \<bar>9807 * (- read_i16 b at) - 4096 * ms_z_milli m\<bar> < 9807 \<and>
    sw_gyro (snd (apply_switch_motion m s)) = sw_gyro s"
proof -
  let ?s = "snd (apply_switch_motion m s)"
  have a: "sw_accel ?s = [switch_accel (- ms_z_milli m), switch_accel (- ms_x_milli m),
      switch_accel (ms_y_milli m)]" "sw_imu_enabled ?s" "fst (apply_switch_motion m s)"
    "sw_gyro ?s = sw_gyro s"
    using assms(2,3) by (simp_all add: apply_switch_motion_def)
  have ok: "switch_ok ?s" by (rule switch_reachable_ok [OF switch_motion [OF assms(1)]])
  obtain h where h: "length h = 10" "b = [0x30] @ [sw_timer ?s + 1, switch_status ?s] @ h @
      switch_imu ?s @ replicate 15 0"
    using switch_input_split [OF ok, of input] a(2) unfolding b_def by auto
  have w: "read_i16 b (at + 2 * i) = sw_accel ?s ! i" if "i < 3" for i
    using imu_wire [of b "[0x30, sw_timer ?s + 1, switch_status ?s] @ h" ?s "replicate 15 0" i k]
      ok h that assms(7) by (simp add: at_def)
  have "read_i16 b at = switch_accel (- ms_z_milli m)" "read_i16 b (at + 2) = switch_accel (- ms_x_milli m)"
    "read_i16 b (at + 4) = switch_accel (ms_y_milli m)"
    using w [of 0] w [of 1] w [of 2] by (simp_all add: a)
  then show ?thesis
    using switch_accel_exact [of "- ms_z_milli m"] switch_accel_exact [of "- ms_x_milli m"]
      switch_accel_exact [of "ms_y_milli m"] bound a
    by (simp add: abs_less_iff)
qed

definition sample_motion :: "byte \<Rightarrow> int \<Rightarrow> int \<Rightarrow> int \<Rightarrow> motion_state_request"
  where "sample_motion kind x y z = \<lparr>ms_header = \<lparr>rh_size = 28, rh_version = 2, rh_reserved = 0\<rparr>,
    ms_controller_id = 1, ms_motion_type = kind, ms_reserved0 = [0, 0, 0], ms_x_milli = x,
    ms_y_milli = y, ms_z_milli = z\<rparr>"

text \<open>A pad whose host has enabled the sensor.\<close>

lemma sensor_enabled_reachable:
  "\<exists>s. switch_reachable s \<and> sw_imu_enabled s \<and> sw_gyro s = [0, 0, 0]"
proof -
  let ?r = "[0x01, 0, 0, 0, 0, 0, 0, 0, 0, 0, 0x40, 1]"
  let ?h = "handle_switch_subcommand (Some ?r) sample_input (Some switch_reset) (Some blank_switch_reply)"
  have "fst (snd ?h) = Some (switch_reset\<lparr>sw_timer := 1, sw_imu_enabled := True\<rparr>)"
    by (simp add: handle_switch_subcommand_def k_switch_rumble_subcommand_id_def Let_def
        encode_switch_input_def answer_subcommand_def switch_reset_def)
  then have "?h = (fst ?h, Some (switch_reset\<lparr>sw_timer := 1, sw_imu_enabled := True\<rparr>), snd (snd ?h))"
    by (metis prod.collapse)
  from switch_subcommand [OF switch_start this] show ?thesis
    by (intro exI [of _ "switch_reset\<lparr>sw_timer := 1, sw_imu_enabled := True\<rparr>"])
       (simp add: switch_reset_def)
qed

theorem switch_accel_rotation_undone_witness:
  "\<exists>s b. sw_imu_enabled s \<and> b = switch_input_bytes (fst (encode_switch_input sample_input
      (Some (snd (apply_switch_motion (sample_motion motion_accelerometer 0 9807 0) s))))) \<and>
    \<bar>9807 * read_i16 b 17 - 4096 * 9807\<bar> < 9807"
proof -
  obtain s where s: "switch_reachable s" "sw_imu_enabled s" using sensor_enabled_reachable by blast
  show ?thesis
    using switch_accel_rotation_undone [OF s, of "sample_motion motion_accelerometer 0 9807 0" 0 _ sample_input 13] s(2)
    by (auto simp: sample_motion_def)
qed

section \<open>Subcommands\<close>

text \<open>What a subcommand may change in the state, besides the report timer.\<close>

definition subcommand_effect :: "byte list \<Rightarrow> switch_state \<Rightarrow> switch_state"
  where "subcommand_effect r s =
    (let arg = r ! 11; s = s\<lparr>sw_timer := sw_timer s + 1\<rparr>
     in if length r < 12 then s
        else if r ! 10 = 0x40 then s\<lparr>sw_imu_enabled := (arg \<noteq> 0)\<rparr>
        else if r ! 10 = 0x48 then s\<lparr>sw_vibration_enabled := (arg \<noteq> 0)\<rparr>
        else if r ! 10 = 0x30 then s\<lparr>sw_player_lights := arg\<rparr> else s)"

definition spi_length :: "byte list \<Rightarrow> byte"
  where "spi_length r = (if r ! 15 > 44 then 44 else r ! 15)"

lemma length_read_spi: "length (read_spi a n) = unat n"
  by (simp add: read_spi_def Let_def motion_calibration_def stick_calibration_def
      pack_calibration_pair_def upt_rec)

lemma answer_subcommand_spec:
  assumes "answer_subcommand c args state = (a, d, state')"
  shows "length d = 49 \<and> 0x80 \<le> a"
proof -
  have spi: "length (switch_spi_data args) = 49" if "\<not> length args < 5"
    using that by (simp add: switch_spi_data_def Let_def length_read_spi word_le_nat_alt not_less
        del: length_overwrite split: if_splits) (subst length_overwrite; simp add: length_read_spi word_le_nat_alt)+
  show ?thesis
    using assms spi
    by (auto simp: answer_subcommand_def Let_def switch_device_info_def k_switch_mac_def split: if_splits)
qed

lemma spi_data_parts:
  assumes "5 \<le> length args"
  defines "n \<equiv> (if args ! 4 > 44 then 44 else args ! 4 :: byte)"
  shows "switch_spi_data args = take 5 args @
    read_spi (le32_of (args ! 0) (args ! 1) (args ! 2) (args ! 3)) n @ replicate (44 - unat n) 0"
proof -
  have "unat n \<le> 44" by (simp add: n_def word_le_nat_alt not_less)
  then show ?thesis
    using assms(1) by (simp add: switch_spi_data_def Let_def overwrite_def length_read_spi flip: n_def)
qed

lemma handle_subcommand_eq:
  assumes "11 \<le> length r" "r ! 0 = 0x01"
  shows "handle_switch_subcommand (Some r) input (Some s) (Some x) =
    (64, Some (subcommand_effect r s),
     Some (let i = fst (encode_switch_input input (Some s));
               (a, d, _) = answer_subcommand (r ! 10) (drop 11 r) (Some (s\<lparr>sw_timer := sw_timer s + 1\<rparr>))
       in \<lparr>sr_report_id = 0x21, sr_timer = si_timer i, sr_connection_battery = si_connection_battery i,
          sr_buttons_right = si_buttons_right i, sr_buttons_shared = si_buttons_shared i,
          sr_buttons_left = si_buttons_left i, sr_left_stick = si_left_stick i,
          sr_right_stick = si_right_stick i, sr_vibrator_report = si_vibrator_report i, sr_ack = a,
          sr_subcommand = r ! 10, sr_data = d\<rparr>))"
proof -
  have len: "length (drop 11 r) \<ge> 1 \<longleftrightarrow> \<not> length r < 12" using assms(1) by auto
  have arg: "drop 11 r ! 0 = r ! 11" if "\<not> length r < 12" using that by simp
  have "snd (snd (answer_subcommand (r ! 10) (drop 11 r) (Some (s\<lparr>sw_timer := sw_timer s + 1\<rparr>)))) =
      Some (subcommand_effect r s)"
    using len arg by (simp add: answer_subcommand_def subcommand_effect_def Let_def)
  moreover have "snd (encode_switch_input input (Some s)) = Some (s\<lparr>sw_timer := sw_timer s + 1\<rparr>)"
    by simp
  ultimately show ?thesis
    using assms
    by (simp add: handle_switch_subcommand_def k_switch_rumble_subcommand_id_def
        k_switch_subcommand_reply_id_def Let_def case_prod_beta)
qed

lemma subcommand_reply:
  assumes "switch_ok s" "11 \<le> length r" "r ! 0 = 0x01"
  shows "\<exists>reply. handle_switch_subcommand (Some r) input (Some s) (Some x) =
      (64, Some (subcommand_effect r s), Some reply) \<and>
    length (switch_reply_bytes reply) = 64 \<and> sr_report_id reply = 0x21 \<and> sr_subcommand reply = r ! 10"
proof -
  obtain a d st where ans: "answer_subcommand (r ! 10) (drop 11 r)
      (Some (s\<lparr>sw_timer := sw_timer s + 1\<rparr>)) = (a, d, st)" by (metis prod_cases3)
  then have "length d = 49" using answer_subcommand_spec by blast
  then show ?thesis
    using handle_subcommand_eq [OF assms(2,3), of input s x] switch_input_fields [OF assms(1), of input]
    by (simp add: ans Let_def switch_reply_bytes_def)
qed

text \<open>Property C35. Every subcommand is answered: a rumble-and-subcommand report of at least
  11 bytes always yields one 64-byte reply with id 0x21, the subcommand echoed, a positive
  acknowledgement, and in bytes 1 to 12 the same controller state a full report would carry at
  that timer; it changes only the timer and the one setting it names. A flash read returns the
  requested address and length, then exactly the emulated flash bytes (at most 44), zero behind.
  Anything shorter or with another id changes nothing and gets no reply.\<close>

theorem switch_subcommand_answered:
  assumes "switch_reachable s"
  shows "(if 11 \<le> length r \<and> r ! 0 = 0x01
    then \<exists>reply. handle_switch_subcommand (Some r) input (Some s) (Some x) =
        (64, Some (subcommand_effect r s), Some reply) \<and>
      length (switch_reply_bytes reply) = 64 \<and> sr_report_id reply = 0x21 \<and>
      sr_subcommand reply = r ! 10 \<and> 0x80 \<le> sr_ack reply \<and>
      take 12 (drop 1 (switch_reply_bytes reply)) =
        take 12 (drop 1 (switch_input_bytes (fst (encode_switch_input input (Some s))))) \<and>
      (r ! 10 = 0x10 \<and> 16 \<le> length r \<longrightarrow> sr_data reply = take 5 (drop 11 r) @
        read_spi (le32_of (r ! 11) (r ! 12) (r ! 13) (r ! 14)) (spi_length r) @
        replicate (44 - unat (spi_length r)) 0)
    else handle_switch_subcommand (Some r) input (Some s) (Some x) = (0, Some s, Some x)) \<and>
    handle_switch_subcommand None input (Some s) (Some x) = (0, Some s, Some x)"
proof -
  have none: "handle_switch_subcommand None input (Some s) (Some x) = (0, Some s, Some x)"
    by (simp add: handle_switch_subcommand_def)
  show ?thesis
  proof (cases "11 \<le> length r \<and> r ! 0 = 0x01")
    case False
    then show ?thesis using none
      by (auto simp: handle_switch_subcommand_def k_switch_rumble_subcommand_id_def)
  next
    case True
    obtain a d st where ans: "answer_subcommand (r ! 10) (drop 11 r)
        (Some (s\<lparr>sw_timer := sw_timer s + 1\<rparr>)) = (a, d, st)" by (metis prod_cases3)
    have ad: "length d = 49" "0x80 \<le> a" using answer_subcommand_spec [OF ans] by simp_all
    have spi: "d = switch_spi_data (drop 11 r)" if "r ! 10 = 0x10" "16 \<le> length r"
      using ans that by (auto simp: answer_subcommand_def Let_def split: if_splits)
    have data: "switch_spi_data (drop 11 r) = take 5 (drop 11 r) @
        read_spi (le32_of (r ! 11) (r ! 12) (r ! 13) (r ! 14)) (spi_length r) @
        replicate (44 - unat (spi_length r)) 0" if "16 \<le> length r"
      using spi_data_parts [of "drop 11 r"] that by (simp add: spi_length_def)
    show ?thesis
      using True handle_subcommand_eq [of r input s x] none ad spi data
        switch_input_fields [OF switch_reachable_ok [OF assms], of input]
      by (auto simp: ans Let_def switch_reply_bytes_def switch_input_bytes_def)
  qed
qed

theorem switch_subcommand_answered_witness:
  "\<exists>reply. handle_switch_subcommand (Some [1, 0, 0, 0, 0, 0, 0, 0, 0, 0, 0x40, 1]) sample_input
      (Some switch_reset) (Some blank_switch_reply) =
    (64, Some (switch_reset\<lparr>sw_timer := 1, sw_imu_enabled := True\<rparr>), Some reply) \<and> sr_subcommand reply = 0x40"
  using switch_subcommand_answered [OF switch_start, of "[1, 0, 0, 0, 0, 0, 0, 0, 0, 0, 0x40, 1]"
      sample_input blank_switch_reply]
  by (auto simp: subcommand_effect_def Let_def switch_reset_def)

section \<open>Queueing the reply\<close>

text \<open>Initialisation finishes even with idle client input: the answer to a
  subcommand is appended to the pump's priority reports, and when the subcommand selects full
  input mode a fresh 0x30 report, stamped one timer tick later, becomes the pump's snapshot, so
  the host receives the acknowledgement before it; if the priority ring is full nothing is
  queued and the call says so.\<close>

lemma switch_mode_reply_then_input:
  assumes "switch_reachable s" "pump_ok p" "11 \<le> length r" "r ! 0 = 0x01"
  defines "room \<equiv> length (a_priority (abs_pump p)) < k_priority_capacity"
    and "full_mode \<equiv> r ! 10 = 0x03 \<and> 12 \<le> length r \<and> r ! 11 = 0x30"
  shows "\<exists>reply input' s' q. queue_switch_subcommand_reply (Some r) input (Some s) p = (room, Some s', q) \<and>
    pump_ok q \<and> handle_switch_subcommand (Some r) input (Some s) (Some blank_switch_reply) =
      (64, Some (subcommand_effect r s), Some reply) \<and>
    (if room then abs_pump q = (abs_pump p)
        \<lparr>a_priority := a_priority (abs_pump p) @ [(switch_reply_bytes reply, 0x21)],
         a_latest := if full_mode then Some (switch_input_bytes input', 0x30) else a_latest (abs_pump p)\<rparr>
     else q = p) \<and>
    (room \<and> full_mode \<longrightarrow> si_timer input' = sr_timer reply + 1)"
proof -
  from subcommand_reply [OF switch_reachable_ok [OF assms(1)] assms(3,4), of input blank_switch_reply]
  obtain reply where h: "handle_switch_subcommand (Some r) input (Some s) (Some blank_switch_reply) =
      (64, Some (subcommand_effect r s), Some reply)"
    and rep: "length (switch_reply_bytes reply) = 64" "sr_report_id reply = 0x21" "sr_subcommand reply = r ! 10"
    by auto
  let ?s = "subcommand_effect r s"
  have timers: "sw_timer ?s = sw_timer s + 1" "sr_timer reply = sw_timer s + 1"
    using h handle_subcommand_eq [OF assms(3,4), of input s blank_switch_reply]
    by (auto simp: subcommand_effect_def encode_switch_input_def Let_def case_prod_beta)
  have ok: "switch_ok ?s" using h handle_subcommand_ok switch_reachable_ok [OF assms(1)] by blast
  let ?i = "fst (encode_switch_input input (Some ?s))"
  have inp: "length (switch_input_bytes ?i) = 64" "si_report_id ?i = 0x30" "si_timer ?i = sw_timer ?s + 1"
    using length_switch_input [OF ok, of input]
    by (simp_all) (simp_all add: encode_switch_input_def Let_def k_switch_input_report_id_def)
  let ?e = "enqueue (Some (switch_reply_bytes reply)) 64 0x21 Priority p"
  have e: "pump_ok (snd ?e)" "(fst ?e, abs_pump (snd ?e)) =
      a_enqueue (switch_reply_bytes reply, 0x21) Priority (abs_pump p)"
    using enqueue_abs [OF assms(2), of "switch_reply_bytes reply" 64 "0x21" Priority] rep
    by (simp_all add: source_ok_def k_max_report_bytes_def snap_of_def)
  have same: "snd ?e = p" if "\<not> fst ?e"
    using that by (auto simp: enqueue_def split: if_splits)
  let ?f = "enqueue (Some (switch_input_bytes ?i)) 64 0x30 Continuous (snd ?e)"
  have f: "pump_ok (snd ?f)" "(fst ?f, abs_pump (snd ?f)) =
      a_enqueue (switch_input_bytes ?i, 0x30) Continuous (abs_pump (snd ?e))"
    using enqueue_abs [OF e(1), of "switch_input_bytes ?i" 64 "0x30" Continuous] inp
    by (simp_all add: source_ok_def k_max_report_bytes_def snap_of_def)
  have room: "fst ?e = room" using e(2) by (simp add: a_enqueue_def room_def split: if_splits)
  have q: "queue_switch_subcommand_reply (Some r) input (Some s) p =
      (if \<not> fst ?e then (False, Some ?s, snd ?e)
       else if full_mode then (fst ?f, Some (?s\<lparr>sw_timer := sw_timer ?s + 1\<rparr>), snd ?f)
       else (True, Some ?s, snd ?e))"
    using rep inp(2) by (simp add: queue_switch_subcommand_reply_def h full_mode_def Let_def case_prod_beta
        k_switch_input_report_id_def)
  show ?thesis
  proof (cases room)
    case False
    then show ?thesis using q room same h e(1) by auto
  next
    case True
    then have pe: "abs_pump (snd ?e) = (abs_pump p)
        \<lparr>a_priority := a_priority (abs_pump p) @ [(switch_reply_bytes reply, 0x21)]\<rparr>" "fst ?e"
      using e(2) room by (simp_all add: a_enqueue_def room_def)
    have pf: "fst ?f" "abs_pump (snd ?f) = (abs_pump (snd ?e))\<lparr>a_latest := Some (switch_input_bytes ?i, 0x30)\<rparr>"
      using f(2) by (simp_all add: a_enqueue_def)
    show ?thesis
    proof (cases full_mode)
      case full: True
      show ?thesis
        by (rule exI [of _ reply], rule exI [of _ ?i], rule exI, rule exI [of _ "snd ?f"])
           (use q True full pe pf h f(1) inp(3) timers in auto)
    next
      case False
      show ?thesis
        by (rule exI [of _ reply], rule exI [of _ ?i], rule exI, rule exI [of _ "snd ?e"])
           (use q True False pe h e(1) in auto)
    qed
  qed
qed

theorem switch_mode_reply_then_input_witness:
  "\<exists>s' q. queue_switch_subcommand_reply (Some [1, 0, 0, 0, 0, 0, 0, 0, 0, 0, 0x03, 0x30]) sample_input
      (Some switch_reset) new_pump = (True, Some s', q) \<and>
    length (a_priority (abs_pump q)) = 1 \<and> a_latest (abs_pump q) \<noteq> None"
proof -
  have empty: "a_priority (abs_pump new_pump) = []" by (simp add: abs_pump_def new_pump_def)
  show ?thesis
    using switch_mode_reply_then_input [OF switch_start new_pump_ok,
        of "[1, 0, 0, 0, 0, 0, 0, 0, 0, 0, 0x03, 0x30]" sample_input]
    by (auto simp: empty k_priority_capacity_def)
qed

end
