(* ===== verification/Sc26Control.thy ===== *)
theory Sc26Control
  imports Protocol
begin

text \<open>
  The Steam Controller (2026) wired contract of
  \<^theory_text>\<open>include/libvirtualgamepad/sc26_usb.h\<close>, its control channel: attributes,
  settings, the responder behind feature report 1, and the haptic output helpers. A buffer that
  may be null is an optional byte list whose length is the size or capacity argument. The
  16-byte character arrays are byte lists of length 16.
\<close>

section \<open>Settings and attributes\<close>

definition features_report_id :: byte
  where "features_report_id = 0x01"

definition feature_report_size :: nat
  where "feature_report_size = 64"

definition setting_lizard_mode :: byte
  where "setting_lizard_mode = 9"

definition setting_imu_mode :: byte
  where "setting_imu_mode = 48"

definition setting_count :: nat
  where "setting_count = 99"

definition default_setting :: "byte \<Rightarrow> u16"
  where "default_setting i = (if i = setting_lizard_mode then 1 else 0)"

definition default_settings :: "u16 list"
  where "default_settings = map (\<lambda>i. default_setting (of_nat i)) [0..<setting_count]"

record attributes =
  at_unique_id :: u32
  at_product_id :: u32
  at_capabilities :: u32
  at_firmware_build_time :: u32
  at_board_revision :: u32
  at_bootloader_build_time :: u32
  at_connection_interval_us :: u32

definition default_attributes :: attributes
  where "default_attributes = \<lparr>at_unique_id = 0, at_product_id = 0x1302, at_capabilities = 0,
    at_firmware_build_time = 0x6A4D85E3, at_board_revision = 0x4A,
    at_bootloader_build_time = 0x68D2F92E, at_connection_interval_us = 4000\<rparr>"

record feature_state =
  fs_attrs :: attributes
  fs_unit_serial :: "byte list"
  fs_board_serial :: "byte list"
  fs_build_id :: "byte list"
  fs_settings :: "u16 list"
  fs_lizard_mode :: bool
  fs_imu_mode :: byte
  fs_reply :: "byte list"
  fs_have_reply :: bool
  fs_last_unknown_command :: byte
  fs_unknown_commands :: u32

text \<open>Characters of a literal, NUL padded to its 16-byte array.\<close>

definition char16 :: "byte list \<Rightarrow> byte list"
  where "char16 cs = overwrite 0 cs (replicate 16 0)"

definition default_unit_serial :: "byte list"
  where "default_unit_serial = char16 [0x4C, 0x56, 0x47, 0x53, 0x43, 0x32, 0x36, 0x30, 0x30, 0x30, 0x30]"

definition default_board_serial :: "byte list"
  where "default_board_serial =
    char16 [0x4C, 0x56, 0x47, 0x53, 0x43, 0x32, 0x36, 0x42, 0x4F, 0x41, 0x52, 0x44, 0x30]"

definition default_build_id :: "byte list"
  where "default_build_id = char16 (replicate 12 0x30)"

definition default_feature_state :: feature_state
  where "default_feature_state = \<lparr>fs_attrs = default_attributes,
    fs_unit_serial = default_unit_serial, fs_board_serial = default_board_serial,
    fs_build_id = default_build_id, fs_settings = default_settings, fs_lizard_mode = True,
    fs_imu_mode = 0, fs_reply = replicate 64 0, fs_have_reply = False,
    fs_last_unknown_command = 0, fs_unknown_commands = 0\<rparr>"

record attribute_update =
  au_flags :: u32
  au_firmware_build_time :: u32
  au_bootloader_build_time :: u32
  au_board_revision :: u32
  au_capabilities :: u32
  au_build_id :: "byte list"
  au_unit_serial :: "byte list"
  au_board_serial :: "byte list"

definition c_string :: "byte list \<Rightarrow> byte list"
  where "c_string = takeWhile (\<lambda>c. c \<noteq> 0)"

definition printable_attribute_string :: "byte list \<Rightarrow> bool"
  where "printable_attribute_string text \<longleftrightarrow>
    list_all (\<lambda>c. 0x20 \<le> c \<and> c \<le> 0x7E) (c_string (take 16 text)) \<and> c_string (take 16 text) \<noteq> []"

definition store_attribute_string :: "byte list \<Rightarrow> byte list"
  where "store_attribute_string text = overwrite 0 (c_string (take 15 text)) (replicate 16 0)"

definition apply_attributes :: "attribute_update \<Rightarrow> feature_state \<Rightarrow> u32 \<times> feature_state"
  where "apply_attributes update fs =
    (let attrs = fs_attrs fs; flags = au_flags update;
         set = (\<lambda>bit ok (applied, fs) f. if flags AND bit \<noteq> 0 \<and> ok then (applied OR bit, f fs) else (applied, fs));
         r = (0, fs);
         r = set 0x01 True r (\<lambda>fs. fs\<lparr>fs_attrs := (fs_attrs fs)
               \<lparr>at_firmware_build_time := au_firmware_build_time update\<rparr>\<rparr>);
         r = set 0x02 True r (\<lambda>fs. fs\<lparr>fs_attrs := (fs_attrs fs)
               \<lparr>at_bootloader_build_time := au_bootloader_build_time update\<rparr>\<rparr>);
         r = set 0x04 True r (\<lambda>fs. fs\<lparr>fs_attrs := (fs_attrs fs)
               \<lparr>at_board_revision := au_board_revision update\<rparr>\<rparr>);
         r = set 0x08 True r (\<lambda>fs. fs\<lparr>fs_attrs := (fs_attrs fs)
               \<lparr>at_capabilities := au_capabilities update\<rparr>\<rparr>);
         r = set 0x40 (printable_attribute_string (au_build_id update)) r
               (\<lambda>fs. fs\<lparr>fs_build_id := store_attribute_string (au_build_id update)\<rparr>);
         r = set 0x80 (printable_attribute_string (au_unit_serial update)) r
               (\<lambda>fs. fs\<lparr>fs_unit_serial := store_attribute_string (au_unit_serial update)\<rparr>)
     in set 0x80 (printable_attribute_string (au_board_serial update)) r
               (\<lambda>fs. fs\<lparr>fs_board_serial := store_attribute_string (au_board_serial update)\<rparr>))"

section \<open>The control channel\<close>

definition put_triple :: "byte \<Rightarrow> u16 \<Rightarrow> byte list"
  where "put_triple i v = i # le16_bytes v"

definition setting_value :: "byte \<Rightarrow> byte \<Rightarrow> feature_state \<Rightarrow> u16"
  where "setting_value type i fs =
    (if unat i < setting_count \<and> type = 0x89 then fs_settings fs ! unat i
     else if type = 0x8B then 0xFFFF
     else if unat i < setting_count then default_setting i else 0)"

definition max_triples :: nat
  where "max_triples = (feature_report_size - 3) div 3"

text \<open>One (id, value) triple of a settings write, and the loop over them.\<close>

definition write_setting :: "byte \<Rightarrow> u16 \<Rightarrow> feature_state \<Rightarrow> feature_state"
  where "write_setting i value fs =
    (let fs = (if unat i < setting_count then fs\<lparr>fs_settings := (fs_settings fs)[unat i := value]\<rparr> else fs);
         fs = (if i = setting_lizard_mode then fs\<lparr>fs_lizard_mode := (value \<noteq> 0)\<rparr> else fs)
     in if i = setting_imu_mode then fs\<lparr>fs_imu_mode := ucast value\<rparr> else fs)"

fun write_settings :: "byte list \<Rightarrow> feature_state \<Rightarrow> feature_state"
  where
    "write_settings (i # l # h # rest) fs = write_settings rest (write_setting i (le16_of l h) fs)"
  | "write_settings _ fs = fs"

definition settings_reply :: "byte \<Rightarrow> byte list \<Rightarrow> feature_state \<Rightarrow> byte list"
  where "settings_reply type payload fs =
    concat (map (\<lambda>i. put_triple i (setting_value type i fs))
      (take max_triples (if payload = [] then map of_nat [0..<setting_count] else payload)))"

definition attributes_reply :: "feature_state \<Rightarrow> byte list"
  where "attributes_reply fs =
    concat (map (\<lambda>(tag, v). tag # le32_bytes v)
      [(1, at_product_id (fs_attrs fs)), (2, at_capabilities (fs_attrs fs)),
       (10, at_bootloader_build_time (fs_attrs fs)), (4, at_firmware_build_time (fs_attrs fs)),
       (9, at_board_revision (fs_attrs fs)), (11, at_connection_interval_us (fs_attrs fs))])"

definition string_reply :: "byte list \<Rightarrow> feature_state \<Rightarrow> byte list"
  where "string_reply payload fs =
    (let tag = (case payload of t # _ \<Rightarrow> t | [] \<Rightarrow> 0x01);
         text = (if tag = 0x00 then fs_board_serial fs else fs_unit_serial fs)
     in tag # overwrite 0 (take 19 (c_string text)) (replicate 19 0))"

definition k_transport :: "byte list"
  where "k_transport = [0x75, 0x73, 0x65, 0x72, 0x2F, 0x77, 0x69, 0x72, 0x65, 0x6C, 0x65, 0x73, 0x73,
    0x5F, 0x74, 0x72, 0x61, 0x6E, 0x73, 0x70, 0x6F, 0x72, 0x74, 0x00]"

definition device_info_reply :: "byte list \<Rightarrow> feature_state \<Rightarrow> byte list"
  where "device_info_reply payload fs =
    (let sub = (case payload of s # _ \<Rightarrow> s | [] \<Rightarrow> 0)
     in if sub = 0 then
          [0] @ le32_bytes (at_firmware_build_time (fs_attrs fs)) @
          le32_bytes (at_board_revision (fs_attrs fs)) @
          overwrite 0 (c_string (take 16 (fs_build_id fs))) (replicate 16 0) @
          overwrite 0 (c_string (take 16 (fs_unit_serial fs))) (replicate 16 0)
        else if sub = 1 then sub # replicate 33 0
        else [sub, 0, 0, 1] @ replicate 5 0)"

text \<open>The reply buffer: report id, command, length, then the given bytes, zero behind.\<close>

definition reply_with :: "byte \<Rightarrow> byte list \<Rightarrow> feature_state \<Rightarrow> feature_state"
  where "reply_with type out fs =
    fs\<lparr>fs_reply := overwrite 0 ([features_report_id, type, of_nat (length out)] @ out) (replicate 64 0),
       fs_have_reply := True\<rparr>"

definition set_feature :: "byte list option \<Rightarrow> feature_state \<Rightarrow> bool \<times> feature_state"
  where "set_feature dat fs =
    (case dat of
       None \<Rightarrow> (False, fs)
     | Some d \<Rightarrow>
        if length d < 3 \<or> d ! 0 \<noteq> features_report_id then (False, fs)
        else
          let type = d ! 1; len = unat (d ! 2); available = length d - 3
          in if len > available then (False, fs)
             else
               let payload = take len (drop 3 d)
               in (True,
                 if type = 0x8E then
                   (reply_with type [] fs)\<lparr>fs_settings := default_settings, fs_lizard_mode := True,
                     fs_imu_mode := 0\<rparr>
                 else if type = 0x87 then write_settings payload (reply_with type [] fs)
                 else if type \<in> {0x89, 0x8C, 0x8B} then
                   reply_with type (settings_reply type payload fs) fs
                 else if type = 0x83 then reply_with type (attributes_reply fs) fs
                 else if type = 0xAE then reply_with type (string_reply payload fs) fs
                 else if type = 0xED then
                   reply_with type (if payload = k_transport then [0] else []) fs
                 else if type = 0xF2 then reply_with type (device_info_reply payload fs) fs
                 else if type \<in> {0x81, 0x85, 0xC1, 0xDC, 0xE2, 0x8F} then reply_with type [] fs
                 else (reply_with type [] fs)
                   \<lparr>fs_last_unknown_command := type, fs_unknown_commands := fs_unknown_commands fs + 1\<rparr>))"

definition sc26_get_feature :: "byte list option \<Rightarrow> feature_state \<Rightarrow> nat \<times> byte list option"
  where "sc26_get_feature buffer fs =
    (case buffer of
       None \<Rightarrow> (0, None)
     | Some b \<Rightarrow>
        if length b < feature_report_size then (0, Some b)
        else (feature_report_size,
          Some (if fs_have_reply fs then overwrite 0 (fs_reply fs) (map (\<lambda>_. 0) b)
                else (map (\<lambda>_. 0) b)[0 := features_report_id])))"

section \<open>Haptic output\<close>

record haptic_rumble =
  hr_left :: u16
  hr_right :: u16

definition decode_haptic_output :: "byte list option \<Rightarrow> haptic_rumble \<Rightarrow> bool \<times> haptic_rumble"
  where "decode_haptic_output dat current =
    (case dat of
       None \<Rightarrow> (False, current)
     | Some d \<Rightarrow>
        if length d < 2 then (False, current)
        else if d ! 0 = 0x80 then
          (if length d < 10 then (False, current)
           else (True, current\<lparr>hr_left := le16_of (d ! 4) (d ! 5), hr_right := le16_of (d ! 7) (d ! 8)\<rparr>))
        else if d ! 0 = 0x81 then
          (if length d < 8 then (False, current)
           else
             let on_us = unat (le16_of (d ! 2) (d ! 3)); off_us = unat (le16_of (d ! 4) (d ! 5));
                 rep = unat (le16_of (d ! 6) (d ! 7));
                 magnitude = (if rep \<noteq> 0 \<and> on_us \<noteq> 0
                   then of_nat (on_us * 65535 div (if on_us + off_us = 0 then 1 else on_us + off_us))
                   else 0)
             in (True, if d ! 1 = 1 then current\<lparr>hr_left := magnitude\<rparr> else current\<lparr>hr_right := magnitude\<rparr>))
        else (False, current))"

text \<open>Bytes written and the acknowledgement buffer after the call.\<close>

definition encode_haptic_ack :: "byte list option \<Rightarrow> byte list option \<Rightarrow> nat \<times> byte list option"
  where "encode_haptic_ack dat ack =
    (case (dat, ack) of
       (Some d, Some a) \<Rightarrow>
         if length a < 6 \<or> length d < 8 \<or> d ! 0 \<noteq> 0x81 then (0, ack)
         else if le16_of (d ! 2) (d ! 3) \<noteq> 0 \<or> le16_of (d ! 4) (d ! 5) \<noteq> 0 \<or> le16_of (d ! 6) (d ! 7) \<noteq> 0
         then (0, ack)
         else (6, Some (overwrite 0 [0x44, if d ! 1 = 0 then 0x04 else 0x03, 0x02, 0, 0, 0] a))
     | _ \<Rightarrow> (0, ack))"

section \<open>The invariant of the control channel\<close>

definition attribute_string_ok :: "byte list \<Rightarrow> bool"
  where "attribute_string_ok s \<longleftrightarrow> length s = 16 \<and> s ! 15 = 0 \<and> printable_attribute_string s"

definition control_ok :: "feature_state \<Rightarrow> bool"
  where "control_ok fs \<longleftrightarrow> length (fs_settings fs) = setting_count \<and>
    (fs_lizard_mode fs \<longleftrightarrow> fs_settings fs ! 9 \<noteq> 0) \<and> fs_imu_mode fs = ucast (fs_settings fs ! 48) \<and>
    at_product_id (fs_attrs fs) = 0x1302 \<and> at_connection_interval_us (fs_attrs fs) = 4000 \<and>
    length (fs_reply fs) = feature_report_size \<and>
    (fs_have_reply fs \<longrightarrow> fs_reply fs ! 0 = features_report_id) \<and>
    attribute_string_ok (fs_unit_serial fs) \<and> attribute_string_ok (fs_board_serial fs) \<and>
    attribute_string_ok (fs_build_id fs)"

inductive control_reachable :: "feature_state \<Rightarrow> bool"
  where
    control_start: "control_reachable default_feature_state"
  | control_set: "control_reachable fs \<Longrightarrow> control_reachable (snd (set_feature dat fs))"
  | control_serial: "a < 10 \<Longrightarrow> b < 10 \<Longrightarrow> control_reachable (default_feature_state
      \<lparr>fs_unit_serial := (fs_unit_serial default_feature_state)[9 := of_nat (48 + a), 10 := of_nat (48 + b)]\<rparr>)"
  | control_attributes: "control_reachable fs \<Longrightarrow> control_reachable (snd (apply_attributes u fs))"

lemma take_while_take: "takeWhile P (take n xs) = take n (takeWhile P xs)"
  by (induction xs arbitrary: n) (auto simp: take_Cons split: nat.split)

lemma store_attribute_string_ok:
  assumes "printable_attribute_string text"
  shows "attribute_string_ok (store_attribute_string text)"
proof -
  let ?c = "c_string (take 15 text)"
  have all: "list_all (\<lambda>c. 0x20 \<le> c \<and> c \<le> 0x7E) (c_string (take 16 text))"
    and ne: "c_string (take 16 text) \<noteq> []"
    using assms by (simp_all add: printable_attribute_string_def)
  have c: "?c = take 15 (c_string (take 16 text))"
    by (simp add: c_string_def take_while_take min_def)
  have len: "length ?c \<le> 15" by (simp add: c_string_def take_while_take)
  have nz: "\<forall>x \<in> set ?c. x \<noteq> 0" by (auto simp: c_string_def dest: set_takeWhileD)
  have s: "store_attribute_string text = ?c @ replicate (16 - length ?c) 0"
    using len by (simp add: store_attribute_string_def overwrite_def)
  have "16 - length ?c = Suc (15 - length ?c)" using len by simp
  then have cs: "c_string (store_attribute_string text) = ?c"
    using nz by (simp add: s c_string_def takeWhile_append2)
  have "?c \<noteq> []" using ne by (simp add: c)
  moreover have "list_all (\<lambda>c. 0x20 \<le> c \<and> c \<le> 0x7E) ?c"
    using all unfolding c by (auto simp: list_all_iff dest: in_set_takeD)
  moreover have "length (store_attribute_string text) = 16" using len by (simp add: s)
  ultimately show ?thesis
    using len by (simp add: attribute_string_ok_def printable_attribute_string_def cs)
      (simp add: s nth_append)
qed

lemma reply_with_ok: "control_ok fs \<Longrightarrow> length out \<le> 61 \<Longrightarrow> control_ok (reply_with t out fs)"
  by (simp add: control_ok_def reply_with_def feature_report_size_def overwrite_def)

lemma write_setting_table:
  "fs_settings (write_setting i v fs) =
    (if unat i < setting_count then (fs_settings fs)[unat i := v] else fs_settings fs)"
  by (simp add: write_setting_def Let_def)

lemma write_setting_ok:
  assumes "control_ok fs" shows "control_ok (write_setting i v fs)"
proof -
  have eqs: "unat i = 9 \<longleftrightarrow> i = 9" "unat i = 48 \<longleftrightarrow> i = 48"
    by (simp_all add: word_unat_eq_iff)
  consider "i = 9" | "i = 48" | "i \<noteq> 9" "i \<noteq> 48" by blast
  then show ?thesis
    using assms eqs
    by cases (simp_all add: control_ok_def write_setting_def Let_def setting_count_def
        setting_lizard_mode_def setting_imu_mode_def)
qed

lemma write_settings_ok: "control_ok fs \<Longrightarrow> control_ok (write_settings p fs)"
  by (induction p fs rule: write_settings.induct) (simp_all add: write_setting_ok)

lemma length_settings_reply: "length (settings_reply t p fs) \<le> 60"
proof -
  have "length (concat (map (\<lambda>i. put_triple i (setting_value t i fs)) xs)) = 3 * length xs" for xs
    by (induction xs) (simp_all add: put_triple_def)
  then show ?thesis
    unfolding settings_reply_def by (simp add: max_triples_def feature_report_size_def)
qed

lemma length_replies:
  "length (attributes_reply fs) = 30" "length (string_reply p fs) = 20"
  "length (device_info_reply p fs) \<le> 41"
proof -
  have c: "length (c_string (take 16 t)) \<le> 16" for t
    by (simp add: c_string_def take_while_take)
  show "length (attributes_reply fs) = 30"
    by (simp add: attributes_reply_def)
  show "length (string_reply p fs) = 20"
    by (simp add: string_reply_def Let_def)
  show "length (device_info_reply p fs) \<le> 41"
    using c [of "fs_build_id fs"] c [of "fs_unit_serial fs"] by (simp add: device_info_reply_def Let_def)
qed

lemma set_feature_ok:
  assumes "control_ok fs"
  shows "control_ok (snd (set_feature dat fs))"
proof -
  have r: "control_ok (reply_with t [] fs)" for t by (rule reply_with_ok [OF assms]) simp
  have load: "control_ok ((reply_with t [] fs)\<lparr>fs_settings := default_settings, fs_lizard_mode := True,
      fs_imu_mode := 0\<rparr>)" for t
    using r [of t] by (simp add: control_ok_def default_settings_def default_setting_def
        setting_count_def setting_lizard_mode_def)
  have unknown: "control_ok ((reply_with t [] fs)\<lparr>fs_last_unknown_command := t,
      fs_unknown_commands := n\<rparr>)" for t n
    using r [of t] by (simp add: control_ok_def)
  have replies: "control_ok (reply_with t (settings_reply t p fs) fs)"
    "control_ok (reply_with t (attributes_reply fs) fs)" "control_ok (reply_with t (string_reply p fs) fs)"
    "control_ok (reply_with t (device_info_reply p fs) fs)" "control_ok (reply_with t [0] fs)" for t p
    using length_settings_reply [of t p fs] length_replies(1) [of fs] length_replies(2,3) [of p fs]
    by (intro reply_with_ok [OF assms]; simp)+
  show ?thesis
    using assms by (auto simp: set_feature_def Let_def r load unknown replies write_settings_ok
        split: option.split)
qed

lemma apply_attributes_ok: "control_ok fs \<Longrightarrow> control_ok (snd (apply_attributes u fs))"
  by (simp add: apply_attributes_def Let_def control_ok_def store_attribute_string_ok)

lemma default_ok: "control_ok default_feature_state"
proof -
  have "attribute_string_ok default_unit_serial" "attribute_string_ok default_board_serial"
    "attribute_string_ok default_build_id"
    by code_simp+
  then show ?thesis
    by (simp add: control_ok_def default_feature_state_def default_settings_def default_setting_def
        setting_count_def setting_lizard_mode_def default_attributes_def feature_report_size_def)
qed

text \<open>The two digits a creation stamps into the serial keep it printable.\<close>

lemma stamped_serials:
  "list_all (\<lambda>(a, b). attribute_string_ok ((fs_unit_serial default_feature_state)
      [9 := of_nat (48 + a), 10 := of_nat (48 + b)])) (List.product [0..<10] [0..<10])"
  by code_simp

lemma serial_ok:
  "a < 10 \<Longrightarrow> b < 10 \<Longrightarrow> control_ok (default_feature_state
    \<lparr>fs_unit_serial := (fs_unit_serial default_feature_state)[9 := of_nat (48 + a), 10 := of_nat (48 + b)]\<rparr>)"
proof -
  assume "a < 10" "b < 10"
  then have "(a, b) \<in> set (List.product [0..<10] [0..<10])" by (simp only: set_product set_upt) auto
  with stamped_serials have "attribute_string_ok ((fs_unit_serial default_feature_state)
      [9 := of_nat (48 + a), 10 := of_nat (48 + b)])" unfolding list_all_iff by blast
  then show ?thesis using default_ok by (simp add: control_ok_def)
qed

lemma control_reachable_ok: "control_reachable fs \<Longrightarrow> control_ok fs"
  by (induction rule: control_reachable.induct) (blast intro: default_ok serial_ok set_feature_ok apply_attributes_ok)+



section \<open>Writing and reading settings\<close>

definition triples_of :: "(byte \<times> u16) list \<Rightarrow> byte list"
  where "triples_of ws = concat (map (\<lambda>(i, v). put_triple i v) ws)"

definition write_transfer :: "(byte \<times> u16) list \<Rightarrow> byte list"
  where "write_transfer ws = [0x01, 0x87, of_nat (3 * length ws)] @ triples_of ws"

definition read_transfer :: "byte list \<Rightarrow> byte list"
  where "read_transfer ids = [0x01, 0x89, of_nat (length ids)] @ ids"

definition newest_write :: "(byte \<times> u16) list \<Rightarrow> u16 \<Rightarrow> byte \<Rightarrow> u16"
  where "newest_write ws old i = (case map_of (rev ws) i of Some v \<Rightarrow> v | None \<Rightarrow> old)"

lemma length_triples_of [simp]: "length (triples_of ws) = 3 * length ws"
  by (induction ws) (auto simp: triples_of_def put_triple_def)

lemma triples_of_Cons: "triples_of ((i, v) # ws) = i # lo8 v # hi8 v # triples_of ws"
  by (simp add: triples_of_def put_triple_def le16_bytes_def)

lemma newest_write_Cons: "newest_write ((j, v) # ws) old i = newest_write ws (if i = j then v else old) i"
  by (cases "map_of (rev ws) i") (simp_all add: newest_write_def map_add_def)

lemma write_settings_table:
  "length (fs_settings fs) = 99 \<Longrightarrow> unat i < 99 \<Longrightarrow>
    fs_settings (write_settings (triples_of ws) fs) ! unat i = newest_write ws (fs_settings fs ! unat i) i"
proof (induction ws arbitrary: fs)
  case Nil
  show ?case by (simp only: triples_of_def newest_write_def list.map concat.simps
      write_settings.simps rev.simps map_of.simps option.case)
next
  case (Cons w ws)
  obtain j v where w: "w = (j, v)" by (cases w)
  have len: "length (fs_settings (write_setting j v fs)) = 99"
    using Cons.prems(1) by (simp add: write_setting_table)
  have new: "fs_settings (write_setting j v fs) ! unat i = (if i = j then v else fs_settings fs ! unat i)"
    using Cons.prems unfolding write_setting_table setting_count_def
    by (cases "i = j") (simp_all add: word_unat_eq_iff)
  have "fs_settings (write_settings (triples_of (w # ws)) fs) ! unat i =
      fs_settings (write_settings (triples_of ws) (write_setting j v fs)) ! unat i"
    by (simp only: w triples_of_Cons write_settings.simps le16_of_bytes)
  also have "... = newest_write ws (fs_settings (write_setting j v fs) ! unat i) i"
    by (rule Cons.IH [OF len Cons.prems(2)])
  also have "... = newest_write (w # ws) (fs_settings fs ! unat i) i"
    unfolding new w newest_write_Cons ..
  finally show ?case .
qed

lemma set_write_transfer:
  assumes "length ws \<le> 20"
  shows "set_feature (Some (write_transfer ws)) fs =
    (True, write_settings (triples_of ws) (reply_with 0x87 [] fs))"
proof -
  have "unat (of_nat (3 * length ws) :: byte) = 3 * length ws"
    using assms by (intro unat_of_nat_byte) simp
  then show ?thesis
    by (simp add: set_feature_def write_transfer_def Let_def features_report_id_def del: of_nat_mult)
qed

lemma set_read_transfer:
  assumes "ids \<noteq> []" "length ids \<le> 20"
  shows "set_feature (Some (read_transfer ids)) fs =
    (True, reply_with 0x89 (concat (map (\<lambda>i. put_triple i (setting_value 0x89 i fs)) ids)) fs)"
  using assms by (simp add: set_feature_def read_transfer_def Let_def features_report_id_def
      unat_of_nat_byte settings_reply_def max_triples_def feature_report_size_def)

text \<open>Settings round trip: after any conversation, writing up to twenty
  (id, value) pairs and asking for up to twenty ids reads back, in the order asked, each id with
  the newest value written for it, or what the table held if it was not written.\<close>

theorem sc26_settings_round_trip:
  assumes "control_reachable fs" "length ws \<le> 20" "ids \<noteq> []" "length ids \<le> 20"
    "\<forall>i \<in> set ids. unat i < 99" "length b = 64"
  defines "written \<equiv> snd (set_feature (Some (write_transfer ws)) fs)"
  shows "sc26_get_feature (Some b) (snd (set_feature (Some (read_transfer ids)) written)) =
    (64, Some ([0x01, 0x89, of_nat (3 * length ids)] @
      triples_of (map (\<lambda>i. (i, newest_write ws (fs_settings fs ! unat i) i)) ids) @
      replicate (61 - 3 * length ids) 0))"
proof -
  have "length (fs_settings fs) = 99"
    using control_reachable_ok [OF assms(1)] by (simp add: control_ok_def setting_count_def)
  then have v: "setting_value 0x89 i written = newest_write ws (fs_settings fs ! unat i) i"
    if "i \<in> set ids" for i
    using that assms(5) write_settings_table [of "reply_with 0x87 [] fs" i ws]
    by (simp add: written_def set_write_transfer [OF assms(2)] setting_value_def setting_count_def
        reply_with_def)
  have t: "concat (map (\<lambda>i. put_triple i (setting_value 0x89 i written)) ids) =
      triples_of (map (\<lambda>i. (i, newest_write ws (fs_settings fs ! unat i) i)) ids)"
    using v by (auto simp: triples_of_def comp_def intro!: arg_cong [where f = concat] map_cong)
  show ?thesis
    using assms(6) assms(4)
    by (simp add: set_read_transfer [OF assms(3,4)] t)
       (simp add: sc26_get_feature_def reply_with_def feature_report_size_def features_report_id_def
         overwrite_def)
qed

theorem sc26_settings_round_trip_witness:
  "sc26_get_feature (Some (replicate 64 0)) (snd (set_feature (Some (read_transfer [48, 9]))
      (snd (set_feature (Some (write_transfer [(48, 7), (48, 0x1234)])) default_feature_state)))) =
    (64, Some ([0x01, 0x89, 6, 48, 0x34, 0x12, 9, 1, 0] @ replicate 55 0))"
  using sc26_settings_round_trip [OF control_start, of "[(48, 7), (48, 0x1234)]" "[48, 9]" "replicate 64 0"]
  by (simp add: triples_of_def put_triple_def le16_bytes_def newest_write_def lo8_def hi8_def
      default_feature_state_def default_settings_def default_setting_def setting_count_def
      setting_lizard_mode_def)

end
