(* ===== verification/SteamController.thy ===== *)
theory SteamController
  imports PlayStation Sc26Control Descriptors
begin

text \<open>
  The Steam Controller profile: the device half of
  \<^theory_text>\<open>include/libvirtualgamepad/sc26_usb.h\<close> (state, input and battery reports,
  motion) and the adapter \<^theory_text>\<open>driver/src/steam_controller.h\<close> and
  \<^theory_text>\<open>steam_controller.cpp\<close>. Pairs of per-side members are lists of length two,
  left first.
\<close>

section \<open>Buttons\<close>

definition sc26_button_map :: "(u32 \<times> u32) list"
  where "sc26_button_map =
    [(button_south, 0x00000001), (button_east, 0x00000002), (button_west, 0x00000004),
     (button_north, 0x00000008), (button_dpad_up, 0x00002000), (button_dpad_down, 0x00000400),
     (button_dpad_left, 0x00001000), (button_dpad_right, 0x00000800),
     (button_start, 0x00000040), (button_back, 0x00004000),
     (button_left_stick, 0x00008000), (button_right_stick, 0x00000020),
     (button_left_shoulder, 0x00080000), (button_right_shoulder, 0x00000200),
     (button_home, 0x00010000), (button_misc, 0x00000010),
     (button_paddle_1, 0x00000080), (button_paddle_2, 0x00020000),
     (button_paddle_3, 0x00000100), (button_paddle_4, 0x00040000)]"

definition btn_right_stick_touch :: u32
  where "btn_right_stick_touch = 0x00100000"

definition btn_right_pad_touch :: u32
  where "btn_right_pad_touch = 0x00200000"

definition btn_right_pad_click :: u32
  where "btn_right_pad_click = 0x00400000"

definition btn_right_trigger_click :: u32
  where "btn_right_trigger_click = 0x00800000"

definition btn_left_stick_touch :: u32
  where "btn_left_stick_touch = 0x01000000"

definition btn_left_pad_touch :: u32
  where "btn_left_pad_touch = 0x02000000"

definition btn_left_pad_click :: u32
  where "btn_left_pad_click = 0x04000000"

definition btn_left_trigger_click :: u32
  where "btn_left_trigger_click = 0x08000000"

definition btn_right_grip_touch :: u32
  where "btn_right_grip_touch = 0x10000000"

definition btn_left_grip_touch :: u32
  where "btn_left_grip_touch = 0x20000000"

lemmas sc26_bits = btn_right_stick_touch_def btn_right_pad_touch_def btn_right_pad_click_def
  btn_right_trigger_click_def btn_left_stick_touch_def btn_left_pad_touch_def
  btn_left_pad_click_def btn_left_trigger_click_def btn_right_grip_touch_def btn_left_grip_touch_def

definition bit_if :: "bool \<Rightarrow> u32 \<Rightarrow> u32"
  where "bit_if c b = (if c then b else 0)"

section \<open>Device state and reports\<close>

record sc26_device =
  sd_sequence :: byte
  sd_imu_timestamp :: u32
  sd_grip_touch :: "bool list"
  sd_stick_touch :: "bool list"
  sd_pad_touched :: "bool list"
  sd_pad_x :: "u16 list"
  sd_pad_y :: "u16 list"
  sd_pad_pressure :: "u16 list"
  sd_accel :: "i16 list"
  sd_gyro :: "i16 list"
  sd_battery_percent :: byte
  sd_charge_state :: byte
  sd_stick_touch_from_deflection :: bool
  sd_trigger_click_from_analog :: bool

definition accel_counts_per_g :: int
  where "accel_counts_per_g = 16384"

definition gyro_counts_per_1000_dps :: int
  where "gyro_counts_per_1000_dps = 16384"

definition milli_g :: int
  where "milli_g = 9807"

definition default_device :: sc26_device
  where "default_device = \<lparr>sd_sequence = 0, sd_imu_timestamp = 0, sd_grip_touch = [False, False],
    sd_stick_touch = [False, False], sd_pad_touched = [False, False], sd_pad_x = [0, 0],
    sd_pad_y = [0, 0], sd_pad_pressure = [0, 0], sd_accel = [0, 0, accel_counts_per_g],
    sd_gyro = [0, 0, 0], sd_battery_percent = 100, sd_charge_state = 1,
    sd_stick_touch_from_deflection = True, sd_trigger_click_from_analog = True\<rparr>"

record sc26_state =
  sc_device :: sc26_device
  sc_features :: feature_state
  sc_last_motion_us :: u64
  sc_last_battery_us :: u64
  sc_last_report_us :: u64
  sc_grip_explicit :: bool
  sc_stick_touch_explicit :: bool
  sc_trigger_click_explicit :: bool

definition sc26_reset :: sc26_state
  where "sc26_reset = \<lparr>sc_device = default_device, sc_features = default_feature_state,
    sc_last_motion_us = 0, sc_last_battery_us = 0, sc_last_report_us = 0,
    sc_grip_explicit = False, sc_stick_touch_explicit = False, sc_trigger_click_explicit = False\<rparr>"

record sc26_input_report =
  i26_report_id :: byte
  i26_sequence :: byte
  i26_buttons :: u32
  i26_left_trigger :: i16
  i26_right_trigger :: i16
  i26_left_x :: i16
  i26_left_y :: i16
  i26_right_x :: i16
  i26_right_y :: i16
  i26_left_pad_x :: i16
  i26_left_pad_y :: i16
  i26_left_pressure :: u16
  i26_right_pad_x :: i16
  i26_right_pad_y :: i16
  i26_right_pressure :: u16
  i26_imu_timestamp :: u32
  i26_accel :: "i16 list"
  i26_gyro :: "i16 list"
  i26_quat :: "i16 list"

definition sc26_input_bytes :: "sc26_input_report \<Rightarrow> byte list"
  where "sc26_input_bytes r =
    [i26_report_id r, i26_sequence r] @ le32_bytes (i26_buttons r) @
    concat (map i16_bytes [i26_left_trigger r, i26_right_trigger r, i26_left_x r, i26_left_y r,
      i26_right_x r, i26_right_y r, i26_left_pad_x r, i26_left_pad_y r]) @
    le16_bytes (i26_left_pressure r) @
    concat (map i16_bytes [i26_right_pad_x r, i26_right_pad_y r]) @
    le16_bytes (i26_right_pressure r) @ le32_bytes (i26_imu_timestamp r) @
    concat (map i16_bytes (i26_accel r)) @ concat (map i16_bytes (i26_gyro r)) @
    concat (map i16_bytes (i26_quat r))"

record sc26_battery_report =
  b26_report_id :: byte
  b26_charge_state :: byte
  b26_battery_level :: byte
  b26_battery_voltage_mv :: u16
  b26_system_voltage_mv :: u16
  b26_input_voltage_mv :: u16
  b26_current_ma :: u16
  b26_input_current_ma :: u16
  b26_temperature :: u16

definition sc26_battery_bytes :: "sc26_battery_report \<Rightarrow> byte list"
  where "sc26_battery_bytes r =
    [b26_report_id r, b26_charge_state r, b26_battery_level r] @
    concat (map le16_bytes [b26_battery_voltage_mv r, b26_system_voltage_mv r,
      b26_input_voltage_mv r, b26_current_ma r, b26_input_current_ma r, b26_temperature r])"

section \<open>The input report\<close>

definition pad_axis_x :: "u16 \<Rightarrow> i16"
  where "pad_axis_x x = clamp_i16 (int (unat x) - 32768)"

definition pad_axis_y :: "u16 \<Rightarrow> i16"
  where "pad_axis_y y = clamp_i16 (32768 - int (unat y))"

definition pad_pressure :: "u16 \<Rightarrow> u16"
  where "pad_pressure p = drop_bit 1 p"

definition trigger_axis :: "byte \<Rightarrow> i16"
  where "trigger_axis t = (int (unat t) * 32767) div 255"

definition trigger_click_threshold :: byte
  where "trigger_click_threshold = 0xF0"

definition stick_touch_deflection :: int
  where "stick_touch_deflection = 3276"

definition deflected :: "i16 \<Rightarrow> i16 \<Rightarrow> bool"
  where "deflected x y \<longleftrightarrow> (if x < 0 then - x else x) > stick_touch_deflection \<or>
    (if y < 0 then - y else y) > stick_touch_deflection"

definition sc26_report_buttons ::
  "u32 \<Rightarrow> i16 \<Rightarrow> i16 \<Rightarrow> i16 \<Rightarrow> i16 \<Rightarrow> byte \<Rightarrow> byte \<Rightarrow> sc26_device \<Rightarrow> u32"
  where "sc26_report_buttons buttons left_x left_y right_x right_y left_trigger right_trigger st =
    buttons OR
    bit_if (sd_trigger_click_from_analog st \<and> left_trigger \<ge> trigger_click_threshold) btn_left_trigger_click OR
    bit_if (sd_trigger_click_from_analog st \<and> right_trigger \<ge> trigger_click_threshold) btn_right_trigger_click OR
    bit_if (sd_pad_touched st ! 0) btn_left_pad_touch OR
    bit_if (sd_pad_touched st ! 1) btn_right_pad_touch OR
    bit_if (sd_grip_touch st ! 0) btn_left_grip_touch OR
    bit_if (sd_grip_touch st ! 1) btn_right_grip_touch OR
    bit_if (sd_stick_touch st ! 0) btn_left_stick_touch OR
    bit_if (sd_stick_touch st ! 1) btn_right_stick_touch OR
    bit_if (sd_stick_touch_from_deflection st \<and> deflected left_x left_y) btn_left_stick_touch OR
    bit_if (sd_stick_touch_from_deflection st \<and> deflected right_x right_y) btn_right_stick_touch"

definition sc26_encode_input ::
  "u32 \<Rightarrow> i16 \<Rightarrow> i16 \<Rightarrow> i16 \<Rightarrow> i16 \<Rightarrow> byte \<Rightarrow> byte \<Rightarrow> sc26_device \<Rightarrow>
   sc26_input_report \<times> sc26_device"
  where "sc26_encode_input buttons left_x left_y right_x right_y left_trigger right_trigger st =
    (let touched = (\<lambda>i. sd_pad_touched st ! i)
     in (\<lparr>i26_report_id = 0x42, i26_sequence = sd_sequence st,
       i26_buttons = sc26_report_buttons buttons left_x left_y right_x right_y left_trigger right_trigger st,
       i26_left_trigger = trigger_axis left_trigger, i26_right_trigger = trigger_axis right_trigger,
       i26_left_x = left_x, i26_left_y = left_y, i26_right_x = right_x, i26_right_y = right_y,
       i26_left_pad_x = (if touched 0 then pad_axis_x (sd_pad_x st ! 0) else 0),
       i26_left_pad_y = (if touched 0 then pad_axis_y (sd_pad_y st ! 0) else 0),
       i26_left_pressure = (if touched 0 then pad_pressure (sd_pad_pressure st ! 0) else 0),
       i26_right_pad_x = (if touched 1 then pad_axis_x (sd_pad_x st ! 1) else 0),
       i26_right_pad_y = (if touched 1 then pad_axis_y (sd_pad_y st ! 1) else 0),
       i26_right_pressure = (if touched 1 then pad_pressure (sd_pad_pressure st ! 1) else 0),
       i26_imu_timestamp = sd_imu_timestamp st, i26_accel = sd_accel st, i26_gyro = sd_gyro st,
       i26_quat = [32767, 0, 0, 0]\<rparr>,
      st\<lparr>sd_sequence := sd_sequence st + 1\<rparr>))"

definition classify_buttons :: "sc26_device \<Rightarrow> u32 \<Rightarrow> u32"
  where "classify_buttons st buttons =
    (if sd_stick_touch_from_deflection st
     then buttons AND NOT (btn_left_stick_touch OR btn_right_stick_touch) else buttons)"

section \<open>Motion and battery\<close>

definition sc26_accel :: "int \<Rightarrow> i16"
  where "sc26_accel milli = clamp_i16 ((milli * accel_counts_per_g) sdiv milli_g)"

definition sc26_gyro :: "int \<Rightarrow> i16"
  where "sc26_gyro milli = clamp_i16 ((milli * gyro_counts_per_1000_dps) sdiv 1000000)"

definition apply_accel_milli :: "int \<Rightarrow> int \<Rightarrow> int \<Rightarrow> sc26_device \<Rightarrow> sc26_device"
  where "apply_accel_milli x y z st = st\<lparr>sd_accel := [sc26_accel x, sc26_accel (- z), sc26_accel y]\<rparr>"

definition apply_gyro_milli :: "int \<Rightarrow> int \<Rightarrow> int \<Rightarrow> sc26_device \<Rightarrow> sc26_device"
  where "apply_gyro_milli x y z st = st\<lparr>sd_gyro := [sc26_gyro x, sc26_gyro (- z), sc26_gyro y]\<rparr>"

definition sc26_encode_battery :: "sc26_device \<Rightarrow> sc26_battery_report"
  where "sc26_encode_battery st =
    (let level = (if sd_battery_percent st > 100 then 100 else sd_battery_percent st);
         on_usb = (sd_charge_state st = 2 \<or> sd_charge_state st = 4)
     in \<lparr>b26_report_id = 0x43, b26_charge_state = sd_charge_state st, b26_battery_level = level,
       b26_battery_voltage_mv = 3522 + ucast level * 6, b26_system_voltage_mv = 4160,
       b26_input_voltage_mv = (if on_usb then 4980 else 0),
       b26_current_ma = (if on_usb then 157 else 0),
       b26_input_current_ma = (if on_usb then 239 else 0), b26_temperature = 0x76ED\<rparr>)"

section \<open>The adapter\<close>

definition sc26_buttons :: "u32 \<Rightarrow> sc26_state \<Rightarrow> u32"
  where "sc26_buttons buttons state =
    (let out = foldl (\<lambda>out (from, to). if has buttons from then out OR to else out) 0 sc26_button_map;
         left = sd_pad_touched (sc_device state) ! 0; right = sd_pad_touched (sc_device state) ! 1
     in if has buttons button_sc26_buttons_explicit then
          out OR bit_if (has buttons button_left_pad_click) btn_left_pad_click OR
          bit_if (has buttons button_right_pad_click) btn_right_pad_click OR
          bit_if (has buttons button_left_trigger_click) btn_left_trigger_click OR
          bit_if (has buttons button_right_trigger_click) btn_right_trigger_click
        else if has buttons button_touchpad then
          out OR bit_if left btn_left_pad_click OR bit_if (right \<or> \<not> left) btn_right_pad_click
        else out)"

definition on_device :: "(sc26_device \<Rightarrow> sc26_device) \<Rightarrow> sc26_state \<Rightarrow> sc26_state"
  where "on_device f s = s\<lparr>sc_device := f (sc_device s)\<rparr>"

definition apply_client_stick_touch :: "u32 \<Rightarrow> sc26_state \<Rightarrow> sc26_state"
  where "apply_client_stick_touch buttons s =
    (let s = (if has buttons (button_left_stick_touch OR button_right_stick_touch)
           then on_device (sd_stick_touch_from_deflection_update (\<lambda>_. False))
                  (s\<lparr>sc_stick_touch_explicit := True\<rparr>)
           else s)
     in if sc_stick_touch_explicit s
        then on_device (sd_stick_touch_update (\<lambda>_. [has buttons button_left_stick_touch,
               has buttons button_right_stick_touch])) s
        else s)"

text \<open>What the client's button word settles before the report is encoded.\<close>

definition sc26_latch :: "u32 \<Rightarrow> sc26_state \<Rightarrow> sc26_state"
  where "sc26_latch buttons s =
    (let s = (if has buttons button_sc26_buttons_explicit
           then on_device (sd_stick_touch_from_deflection_update (\<lambda>_. False))
                  (s\<lparr>sc_trigger_click_explicit := True, sc_grip_explicit := True,
                     sc_stick_touch_explicit := True\<rparr>)
           else s);
         s = on_device (sd_trigger_click_from_analog_update (\<lambda>_. \<not> sc_trigger_click_explicit s)) s;
         s = (if has buttons (button_left_grip_touch OR button_right_grip_touch)
              then s\<lparr>sc_grip_explicit := True\<rparr> else s);
         s = (if sc_grip_explicit s
              then on_device (sd_grip_touch_update (\<lambda>_. [has buttons button_left_grip_touch,
                     has buttons button_right_grip_touch])) s
              else s)
     in apply_client_stick_touch buttons s)"

definition encode_sc26_input ::
  "input_state_request \<Rightarrow> sc26_state option \<Rightarrow> sc26_input_report \<times> sc26_state option"
  where "encode_sc26_input input state =
    (let s = sc26_latch (is_buttons input) (case state of None \<Rightarrow> sc26_reset | Some s \<Rightarrow> s);
         (r, dev) = sc26_encode_input (sc26_buttons (is_buttons input) s) (is_left_x input)
           (is_left_y input) (is_right_x input) (is_right_y input) (is_left_trigger input)
           (is_right_trigger input) (sc_device s)
     in (r, map_option (\<lambda>_. s\<lparr>sc_device := dev\<rparr>) state))"

definition encode_sc26_battery :: "sc26_state \<Rightarrow> sc26_battery_report"
  where "encode_sc26_battery s = sc26_encode_battery (sc_device s)"

definition pad_contact :: "nat \<Rightarrow> touch_state_request \<Rightarrow> sc26_device \<Rightarrow> sc26_device"
  where "pad_contact pad touch st =
    st\<lparr>sd_pad_touched := (sd_pad_touched st)[pad := True],
       sd_pad_x := (sd_pad_x st)[pad := ts_x touch], sd_pad_y := (sd_pad_y st)[pad := ts_y touch],
       sd_pad_pressure := (sd_pad_pressure st)[pad := ts_pressure touch]\<rparr>"

definition apply_sc26_touch :: "touch_state_request \<Rightarrow> sc26_state \<Rightarrow> bool \<times> sc26_state"
  where "apply_sc26_touch touch s =
    (let event = ts_event_type touch; st = sc_device s; pad = unat (ts_contact_index touch)
     in if event = touch_cancel_all then
          (True, s\<lparr>sc_device := st\<lparr>sd_pad_touched := [False, False]\<rparr>\<rparr>)
        else if pad \<ge> 2 then (False, s)
        else if event = touch_hover \<or> event = touch_move then
          (if \<not> sd_pad_touched st ! pad then (False, s)
           else (True, s\<lparr>sc_device := pad_contact pad touch st\<rparr>))
        else if event = touch_down then (True, s\<lparr>sc_device := pad_contact pad touch st\<rparr>)
        else if event = touch_up \<or> event = touch_cancel then
          (True, s\<lparr>sc_device := st\<lparr>sd_pad_touched := (sd_pad_touched st)[pad := False],
             sd_pad_pressure := (sd_pad_pressure st)[pad := 0]\<rparr>\<rparr>)
        else (False, s))"

definition sc26_tick :: "u64 \<Rightarrow> sc26_state \<Rightarrow> sc26_state"
  where "sc26_tick now_us s =
    (let s = on_device (sd_imu_timestamp_update (\<lambda>_. ucast now_us)) s
     in if sc_grip_explicit s then s
        else on_device (sd_grip_touch_update (\<lambda>_. [False, False])) s)"

definition apply_sc26_motion :: "motion_state_request \<Rightarrow> u64 \<Rightarrow> sc26_state \<Rightarrow> bool \<times> sc26_state"
  where "apply_sc26_motion motion now_us s =
    (let x = ms_x_milli motion; y = ms_y_milli motion; z = ms_z_milli motion;
         stamp = (if now_us \<noteq> 0 then now_us else 1)
     in if ms_motion_type motion = motion_accelerometer then
          (True, (on_device (apply_accel_milli x y z) s)\<lparr>sc_last_motion_us := stamp\<rparr>)
        else if ms_motion_type motion = motion_gyroscope then
          (True, (on_device (apply_gyro_milli x y z) s)\<lparr>sc_last_motion_us := stamp\<rparr>)
        else (False, s))"

definition apply_sc26_attributes ::
  "steam_controller_attributes_request \<Rightarrow> sc26_state \<Rightarrow> u32 \<times> sc26_state"
  where "apply_sc26_attributes a s =
    (let (applied, fs) = apply_attributes \<lparr>au_flags = sa_flags a,
           au_firmware_build_time = sa_firmware_build_time a,
           au_bootloader_build_time = sa_bootloader_build_time a,
           au_board_revision = sa_board_revision a, au_capabilities = sa_capabilities a,
           au_build_id = sa_build_id a, au_unit_serial = sa_unit_serial a,
           au_board_serial = sa_board_serial a\<rparr> (sc_features s)
     in (applied, s\<lparr>sc_features := fs\<rparr>))"

definition apply_sc26_battery :: "battery_state_request \<Rightarrow> sc26_state \<Rightarrow> bool \<times> sc26_state"
  where "apply_sc26_battery battery s =
    (let st = sc_device s;
         st = (if bs_percent battery \<le> 100 then st\<lparr>sd_battery_percent := bs_percent battery\<rparr> else st);
         st = (if bs_flags battery = battery_charging then st\<lparr>sd_charge_state := 2\<rparr>
               else if bs_flags battery = battery_full
                 then st\<lparr>sd_charge_state := 4, sd_battery_percent := 100\<rparr>
               else st\<lparr>sd_charge_state := 1\<rparr>)
     in (True, s\<lparr>sc_device := st\<rparr>))"

definition apply_sc26_output :: "byte list option \<Rightarrow> u32 \<Rightarrow> feedback_event option"
  where "apply_sc26_output dat controller_id =
    (case dat of
       None \<Rightarrow> None
     | Some d \<Rightarrow>
        if length d < 2 \<or> \<not> is_output_report (d ! 0) \<or> d ! 0 > 0x85 then None
        else
          let declared = sc26_report_size (d ! 0)
          in if length d < declared \<or> declared > 12 then None
             else Some (make_event controller_id FB_Steam_Haptic (steam_haptic_bytes
               \<lparr>sh_length = of_nat declared, sh_reserved = replicate 3 0,
                sh_report = overwrite 0 (take declared d) (replicate 12 0)\<rparr>)))"

definition settings_chunk :: "byte \<Rightarrow> byte list \<Rightarrow> nat \<Rightarrow> nat \<Rightarrow> steam_settings_feedback"
  where "settings_chunk command payload triples n =
    (let first = n * k_steam_settings_triples_max;
         count = min (triples - first) k_steam_settings_triples_max
     in \<lparr>ss_command = command, ss_count = of_nat count, ss_reserved = replicate 3 0,
       ss_triples = overwrite 0 (take (count * 3) (drop (first * 3) payload))
         (replicate (k_steam_settings_triples_max * 3) 0)\<rparr>)"

definition apply_sc26_settings :: "byte list option \<Rightarrow> u32 \<Rightarrow> nat \<Rightarrow> feedback_event list"
  where "apply_sc26_settings dat controller_id capacity =
    (case dat of
       None \<Rightarrow> []
     | Some d \<Rightarrow>
        if length d < 3 \<or> d ! 0 \<noteq> features_report_id then []
        else
          let command = d ! 1; len = unat (d ! 2)
          in if len > length d - 3 then []
             else
               let payload = drop 3 d;
                   triples = (if command = 0x87 then len div 3 else 0)
               in if command = 0x87 \<and> triples = 0 \<or> command \<noteq> 0x87 \<and> command \<noteq> 0x8E then []
                  else
                    let needed = (if command = 0x8E then 1
                      else (triples + k_steam_settings_triples_max - 1) div k_steam_settings_triples_max)
                    in if needed > capacity then []
                       else map (\<lambda>n. make_event controller_id FB_Steam_Settings
                         (steam_settings_bytes (settings_chunk command payload triples n))) [0..<needed])"

definition set_sc26_feature :: "byte \<Rightarrow> byte list option \<Rightarrow> sc26_state \<Rightarrow> bool \<times> sc26_state"
  where "set_sc26_feature report_id buffer s =
    (if report_id \<noteq> features_report_id then (False, s)
     else let (ok, fs) = set_feature buffer (sc_features s) in (ok, s\<lparr>sc_features := fs\<rparr>))"

definition fill_sc26_feature :: "byte \<Rightarrow> byte list option \<Rightarrow> sc26_state \<Rightarrow> nat \<times> byte list option"
  where "fill_sc26_feature report_id buffer s =
    (if report_id \<noteq> features_report_id then (0, buffer)
     else sc26_get_feature buffer (sc_features s))"

section \<open>Forwarded settings\<close>

text \<open>What a client does with a settings event: it keeps a table of its own.\<close>

fun write_table :: "byte list \<Rightarrow> u16 list \<Rightarrow> u16 list"
  where
    "write_table (i # l # h # rest) t =
      write_table rest (if unat i < setting_count then t[unat i := le16_of l h] else t)"
  | "write_table _ t = t"

definition replay_settings :: "u16 list \<Rightarrow> feedback_event \<Rightarrow> u16 list"
  where "replay_settings t e =
    (let p = fe_payload e
     in if p ! 0 = 0x8E then default_settings else write_table (take (3 * unat (p ! 1)) (drop 5 p)) t)"

lemma write_settings_write_table: "fs_settings (write_settings p fs) = write_table p (fs_settings fs)"
  by (induction p fs rule: write_settings.induct) (simp_all add: write_setting_table)

lemma write_table_short: "length p < 3 \<Longrightarrow> write_table p t = t"
  by (induction p t rule: write_table.induct) simp_all

lemma write_table_append: "length p = 3 * n \<Longrightarrow> write_table (p @ q) t = write_table q (write_table p t)"
proof (induction n arbitrary: p t)
  case (Suc n)
  then obtain a b c r where "p = a # b # c # r" "length r = 3 * n"
    by (cases p; cases "tl p"; cases "tl (tl p)") auto
  with Suc.IH show ?case by simp
qed simp

lemma write_table_whole_triples:
  assumes "n \<le> length p"
  shows "write_table (take n p) t = write_table (take (3 * (n div 3)) p) t"
proof -
  have "take n p = take (3 * (n div 3)) p @ take (n - 3 * (n div 3)) (drop (3 * (n div 3)) p)"
    by (metis mult_div_mod_eq le_add_diff_inverse le_add1 take_add)
  moreover have "n - 3 * (n div 3) < 3" by linarith
  then have "length (take (n - 3 * (n div 3)) (drop (3 * (n div 3)) p)) < 3" by simp
  moreover have "length (take (3 * (n div 3)) p) = 3 * (n div 3)" using assms by simp
  ultimately show ?thesis by (metis write_table_append write_table_short)
qed

lemma settings_chunk_event:
  fixes cid
  assumes "3 * triples \<le> length payload" "9 * n \<le> triples"
  defines "e \<equiv> make_event cid FB_Steam_Settings (steam_settings_bytes (settings_chunk 0x87 payload triples n))"
  shows "replay_settings t e = write_table (take (3 * min (triples - 9 * n) 9) (drop (27 * n) payload)) t"
proof -
  let ?c = "settings_chunk 0x87 payload triples n"
  let ?k = "min (triples - 9 * n) 9"
  have k: "unat (of_nat ?k :: byte) = ?k" by (intro unat_of_nat_byte) simp
  have p: "length (take (?k * 3) (drop (27 * n) payload)) = 3 * ?k"
    using assms(1,2) by (auto simp: min_def)
  then have t: "ss_triples ?c = take (?k * 3) (drop (27 * n) payload) @ replicate (27 - 3 * ?k) 0"
    by (simp add: settings_chunk_def Let_def k_steam_settings_triples_max_def overwrite_def mult.commute)
  have "length (steam_settings_bytes ?c) = 32"
    by (simp add: steam_settings_bytes_def settings_chunk_def Let_def k_steam_settings_triples_max_def
        overwrite_def min_def)
  then have e: "fe_payload e = steam_settings_bytes ?c"
    by (simp add: e_def make_event_def)
  have "fe_payload e = [0x87, of_nat ?k, 0, 0, 0] @ ss_triples ?c"
    unfolding e by (simp add: steam_settings_bytes_def settings_chunk_def Let_def
        k_steam_settings_triples_max_def numeral_3_eq_3 mult.commute)
  then show ?thesis
    using k p t by (simp add: replay_settings_def Let_def mult.commute)
qed

lemma replay_chunks:
  assumes "3 * triples \<le> length payload" "m \<le> (8 + triples) div 9"
  shows "foldl replay_settings t (map (\<lambda>n. make_event cid FB_Steam_Settings
      (steam_settings_bytes (settings_chunk 0x87 payload triples n))) [0..<m]) =
    write_table (take (3 * min triples (9 * m)) payload) t"
  using assms(2)
proof (induction m)
  case (Suc m)
  then have m: "9 * m \<le> triples" "m \<le> (8 + triples) div 9" by linarith+
  let ?k = "min (triples - 9 * m) 9"
  have eq: "take (3 * min triples (9 * Suc m)) payload =
      take (27 * m) payload @ take (3 * ?k) (drop (27 * m) payload)"
  proof -
    have "3 * min triples (9 * Suc m) = 27 * m + 3 * ?k" using m by (auto simp: min_def)
    then show ?thesis by (simp only: take_add)
  qed
  have "27 * m \<le> length payload" using m(1) assms(1) by linarith
  then have "length (take (27 * m) payload) = 3 * (9 * m)" by simp
  then show ?case
    unfolding eq
    using Suc.IH [OF m(2)] settings_chunk_event [OF assms(1) m(1)] m(1)
    by (simp add: write_table_append min_absorb2)
qed (simp add: min_def)

lemma forwarded_transfer:
  assumes "length d \<le> 64"
  shows "foldl replay_settings (fs_settings fs) (apply_sc26_settings (Some d) cid 3) =
    fs_settings (snd (set_feature (Some d) fs))"
proof (cases "length d < 3 \<or> d ! 0 \<noteq> features_report_id \<or> unat (d ! 2) > length d - 3")
  case True
  then show ?thesis by (auto simp: apply_sc26_settings_def set_feature_def Let_def)
next
  case False
  let ?len = "unat (d ! 2)"
  let ?p = "drop 3 d"
  have len: "?len \<le> length ?p" "?len \<le> 61" using False assms by auto
  have get: "set_feature (Some d) fs = (True, snd (set_feature (Some d) fs))"
    using False by (simp add: set_feature_def Let_def)
  consider "d ! 1 = 0x87" | "d ! 1 = 0x8E" | "d ! 1 \<noteq> 0x87" "d ! 1 \<noteq> 0x8E" by blast
  then show ?thesis
  proof cases
    case 1
    have s: "fs_settings (snd (set_feature (Some d) fs)) = write_table (take (3 * (?len div 3)) ?p) (fs_settings fs)"
      using False 1 write_table_whole_triples [OF len(1)]
      by (simp add: set_feature_def Let_def write_settings_write_table reply_with_def)
    have t: "3 * (?len div 3) \<le> length ?p" "(8 + ?len div 3) div 9 \<le> 3" using len by linarith+
    have "min (?len div 3) (9 * ((8 + ?len div 3) div 9)) = ?len div 3" by linarith
    then show ?thesis
      using False 1 t(2) replay_chunks [OF t(1) order.refl, of "fs_settings fs" cid]
      by (auto simp: apply_sc26_settings_def Let_def s k_steam_settings_triples_max_def)
  next
    case 2
    have "fe_payload (make_event cid FB_Steam_Settings (steam_settings_bytes (settings_chunk 0x8E ?p 0 0))) ! 0 = 0x8E"
      by (simp add: make_event_def steam_settings_bytes_def settings_chunk_def Let_def overwrite_def)
    then show ?thesis
      using False 2
      by (simp add: apply_sc26_settings_def set_feature_def Let_def replay_settings_def reply_with_def)
  next
    case 3
    then show ?thesis using False
      by (auto simp: apply_sc26_settings_def set_feature_def Let_def reply_with_def)
  qed
qed

text \<open>Property C38. What the driver forwards is what the responder did: for any history of
  feature transfers of at most 64 bytes, a client that starts from the same table and replays
  the settings events the driver queues for each transfer -- at most nine triples an event, in
  order, whole transfers only -- holds exactly the responder's settings table.\<close>

theorem sc26_settings_mirrored:
  assumes "list_all (\<lambda>d. length d \<le> 64) ds"
  shows "foldl replay_settings (fs_settings fs) (concat (map (\<lambda>d. apply_sc26_settings (Some d) cid 3) ds)) =
    fs_settings (foldl (\<lambda>fs d. snd (set_feature (Some d) fs)) fs ds)"
  using assms
  by (induction ds arbitrary: fs) (simp_all add: forwarded_transfer)

theorem sc26_settings_mirrored_witness:
  "foldl replay_settings default_settings
      (concat (map (\<lambda>d. apply_sc26_settings (Some d) 1 3) [write_transfer [(5, 6), (7, 8)], [1, 0x8E, 0]])) =
    fs_settings (foldl (\<lambda>fs d. snd (set_feature (Some d) fs)) default_feature_state
      [write_transfer [(5, 6), (7, 8)], [1, 0x8E, 0]])"
  using sc26_settings_mirrored [of "[write_transfer [(5, 6), (7, 8)], [1, 0x8E, 0]]" default_feature_state 1]
  by (simp add: write_transfer_def default_feature_state_def)

section \<open>The states a controller goes through\<close>

inductive sc26_reachable :: "sc26_state \<Rightarrow> bool"
  where
    sc26_start: "sc26_reachable sc26_reset"
  | sc26_input: "sc26_reachable s \<Longrightarrow> snd (encode_sc26_input input (Some s)) = Some s' \<Longrightarrow>
      sc26_reachable s'"
  | sc26_touch: "sc26_reachable s \<Longrightarrow> sc26_reachable (snd (apply_sc26_touch t s))"
  | sc26_motion: "sc26_reachable s \<Longrightarrow> sc26_reachable (snd (apply_sc26_motion m now s))"
  | sc26_battery: "sc26_reachable s \<Longrightarrow> sc26_reachable (snd (apply_sc26_battery p s))"
  | sc26_ticked: "sc26_reachable s \<Longrightarrow> sc26_reachable (sc26_tick now s)"
  | sc26_feature: "sc26_reachable s \<Longrightarrow> sc26_reachable (snd (set_sc26_feature i buffer s))"
  | sc26_attributes: "sc26_reachable s \<Longrightarrow> sc26_reachable (snd (apply_sc26_attributes a s))"
  | sc26_named: "a < 10 \<Longrightarrow> b < 10 \<Longrightarrow> sc26_reachable (sc26_reset\<lparr>sc_features := default_feature_state
      \<lparr>fs_unit_serial := (fs_unit_serial default_feature_state)[9 := of_nat (48 + a), 10 := of_nat (48 + b)]\<rparr>\<rparr>)"
  | sc26_sent: "sc26_reachable s \<Longrightarrow> sc26_reachable (s\<lparr>sc_last_report_us := t\<rparr>)"
  | sc26_battery_sent: "sc26_reachable s \<Longrightarrow> sc26_reachable (s\<lparr>sc_last_battery_us := t\<rparr>)"

definition device_ok :: "sc26_device \<Rightarrow> bool"
  where "device_ok d \<longleftrightarrow> length (sd_grip_touch d) = 2 \<and> length (sd_stick_touch d) = 2 \<and>
    length (sd_pad_touched d) = 2 \<and> length (sd_pad_x d) = 2 \<and> length (sd_pad_y d) = 2 \<and>
    length (sd_pad_pressure d) = 2 \<and> axes_ok (sd_accel d) \<and> axes_ok (sd_gyro d) \<and>
    sd_battery_percent d \<le> 100 \<and> sd_charge_state d \<in> {1, 2, 4}"

definition sc26_ok :: "sc26_state \<Rightarrow> bool"
  where "sc26_ok s \<longleftrightarrow> device_ok (sc_device s) \<and> control_ok (sc_features s) \<and>
    (sc_trigger_click_explicit s \<longrightarrow> sc_grip_explicit s \<and> sc_stick_touch_explicit s) \<and>
    (sc_stick_touch_explicit s \<longrightarrow> \<not> sd_stick_touch_from_deflection (sc_device s))"

lemma device_ok_frame [simp]:
  "device_ok (d\<lparr>sd_stick_touch_from_deflection := b\<rparr>) = device_ok d"
  "device_ok (d\<lparr>sd_trigger_click_from_analog := b\<rparr>) = device_ok d"
  "device_ok (d\<lparr>sd_imu_timestamp := t\<rparr>) = device_ok d"
  "device_ok (d\<lparr>sd_sequence := n\<rparr>) = device_ok d"
  "device_ok d \<Longrightarrow> device_ok (d\<lparr>sd_grip_touch := [x, y]\<rparr>)"
  "device_ok d \<Longrightarrow> device_ok (d\<lparr>sd_stick_touch := [x, y]\<rparr>)"
  by (simp_all add: device_ok_def)

lemma client_stick_touch_ok: "sc26_ok s \<Longrightarrow> sc26_ok (apply_client_stick_touch b s)"
  by (auto simp: sc26_ok_def apply_client_stick_touch_def on_device_def Let_def)

lemma latch_ok:
  assumes "sc26_ok s" shows "sc26_ok (sc26_latch b s)"
proof -
  show ?thesis
    unfolding sc26_latch_def Let_def
    by (rule client_stick_touch_ok) (use assms in \<open>auto simp: sc26_ok_def on_device_def\<close>)
qed

lemma encode_sc26_state:
  "snd (encode_sc26_input input (Some s)) = Some ((sc26_latch (is_buttons input) s)
    \<lparr>sc_device := (sc_device (sc26_latch (is_buttons input) s))
      \<lparr>sd_sequence := sd_sequence (sc_device (sc26_latch (is_buttons input) s)) + 1\<rparr>\<rparr>)"
  by (simp add: encode_sc26_input_def sc26_encode_input_def Let_def)

lemma sc26_axes_ok: "i16_ok (sc26_accel v)" "i16_ok (sc26_gyro v)"
  by (simp_all add: sc26_accel_def sc26_gyro_def clamp_i16_ok)

lemma sc26_reachable_ok: "sc26_reachable s \<Longrightarrow> sc26_ok s"
proof (induction rule: sc26_reachable.induct)
  case sc26_start
  show ?case
    by (simp add: sc26_ok_def sc26_reset_def default_device_def device_ok_def axes_ok_def i16_ok_def
        accel_counts_per_g_def default_ok)
next
  case (sc26_input s input s')
  then show ?case using latch_ok [of s "is_buttons input"]
    by (auto simp: encode_sc26_state sc26_ok_def)
next
  case (sc26_touch s t)
  then show ?case
    by (simp add: sc26_ok_def apply_sc26_touch_def Let_def device_ok_def pad_contact_def)
next
  case (sc26_motion s m now)
  then show ?case
    by (simp add: sc26_ok_def apply_sc26_motion_def Let_def device_ok_def on_device_def
        apply_accel_milli_def apply_gyro_milli_def axes_ok_def sc26_axes_ok)
next
  case (sc26_battery s p)
  then show ?case
    by (simp add: sc26_ok_def apply_sc26_battery_def Let_def device_ok_def)
next
  case (sc26_ticked s now)
  then show ?case by (auto simp: sc26_ok_def sc26_tick_def Let_def on_device_def)
next
  case (sc26_feature s i buffer)
  then show ?case using set_feature_ok [of "sc_features s" buffer]
    by (simp add: sc26_ok_def set_sc26_feature_def case_prod_beta)
next
  case (sc26_attributes s a)
  then show ?case
    by (simp add: sc26_ok_def apply_sc26_attributes_def case_prod_beta apply_attributes_ok)
next
  case (sc26_named a b)
  then show ?case using serial_ok [of a b]
    by (simp add: sc26_ok_def sc26_reset_def default_device_def device_ok_def axes_ok_def i16_ok_def
        accel_counts_per_g_def)
qed (simp_all add: sc26_ok_def)

section \<open>What a report says\<close>

lemma has_bit_if [simp]: "has (bit_if c b) m \<longleftrightarrow> c \<and> has b m"
  by (simp add: bit_if_def)

lemma has_mapped:
  "has (foldl (\<lambda>out (from, to). if has b from then out OR to else out) z ps) m \<longleftrightarrow>
    has z m \<or> list_ex (\<lambda>(from, to). has b from \<and> has to m) ps"
proof (induction ps arbitrary: z)
  case (Cons p ps)
  obtain f t where "p = (f, t)" by (cases p)
  with Cons.IH show ?case by (simp add: has_or disj_ac)
qed simp

text \<open>The touch and click bits are not mapped, and no two mapped bits coincide.\<close>

definition sc26_extra_bits :: "u32 list"
  where "sc26_extra_bits = [btn_right_stick_touch, btn_right_pad_touch, btn_right_pad_click,
    btn_right_trigger_click, btn_left_stick_touch, btn_left_pad_touch, btn_left_pad_click,
    btn_left_trigger_click, btn_right_grip_touch, btn_left_grip_touch]"

definition sc26_bit_numbers :: "nat list"
  where "sc26_bit_numbers = [0, 1, 2, 3, 13, 10, 12, 11, 6, 14, 15, 5, 19, 9, 16, 4, 7, 17, 8, 18,
    20, 21, 22, 23, 24, 25, 26, 27, 28, 29]"

lemma all_bits: "map snd sc26_button_map @ sc26_extra_bits = map (\<lambda>n. push_bit n 1) sc26_bit_numbers"
  by (simp add: sc26_button_map_def sc26_extra_bits_def sc26_bits sc26_bit_numbers_def)

lemma bit_numbers: "distinct sc26_bit_numbers" "\<forall>n \<in> set sc26_bit_numbers. n < 32"
  by (simp_all add: sc26_bit_numbers_def)

lemma has_push_bit:
  assumes "n < 32" "m < 32"
  shows "has (push_bit n 1) (push_bit m 1) \<longleftrightarrow> n = m"
proof -
  have "bit (push_bit n 1 AND push_bit m 1 :: u32) k \<longleftrightarrow> n = m \<and> k = n" for k
    using assms by (auto simp: bit_simps)
  then show ?thesis unfolding has_def by (metis bit_0_eq bot_apply bot_bool_def bit_eqI)
qed

lemma separate_has:
  assumes "x \<in> set (map snd sc26_button_map @ sc26_extra_bits)"
    "y \<in> set (map snd sc26_button_map @ sc26_extra_bits)"
  shows "has x y \<longleftrightarrow> x = y"
proof -
  obtain n m where nm: "x = push_bit n 1" "y = push_bit m 1" "n < 32" "m < 32"
    using assms bit_numbers(2) unfolding all_bits by auto
  then have "n = m" if "x = y" using that has_push_bit [of n m] has_push_bit [of n n] by auto
  then show ?thesis using has_push_bit [OF nm(3,4)] nm(1,2) by auto
qed

lemma bits_distinct: "distinct (map snd sc26_button_map @ sc26_extra_bits)"
  unfolding all_bits distinct_map
  using bit_numbers has_push_bit by (auto simp: inj_on_def) (metis has_push_bit)

lemma in_all_bits:
  "(f, t) \<in> set sc26_button_map \<Longrightarrow> t \<in> set (map snd sc26_button_map @ sc26_extra_bits)"
  "m \<in> set sc26_extra_bits \<Longrightarrow> m \<in> set (map snd sc26_button_map @ sc26_extra_bits)"
  by force+

lemma mapped_neq_extra: "(f, t) \<in> set sc26_button_map \<Longrightarrow> m \<in> set sc26_extra_bits \<Longrightarrow> t \<noteq> m"
  using bits_distinct by force

lemma mapped_functional:
  "(f, t) \<in> set sc26_button_map \<Longrightarrow> (g, t) \<in> set sc26_button_map \<Longrightarrow> f = g"
  using bits_distinct by (auto simp: distinct_map dest: inj_onD [of snd _ "(f, t)" "(g, t)"])

lemma mapped_bit:
  assumes "(from, to) \<in> set sc26_button_map"
  shows "list_ex (\<lambda>(f, t). has b f \<and> has t to) sc26_button_map \<longleftrightarrow> has b from"
proof
  assume "list_ex (\<lambda>(f, t). has b f \<and> has t to) sc26_button_map"
  then obtain f t where ft: "(f, t) \<in> set sc26_button_map" "has b f" "has t to"
    unfolding list_ex_iff by blast
  then have "t = to" using separate_has [OF in_all_bits(1) [OF ft(1)] in_all_bits(1) [OF assms]] by blast
  then show "has b from" using mapped_functional [of f t "from"] ft assms by blast
next
  assume "has b from"
  moreover have "has to to" using separate_has [OF in_all_bits(1) [OF assms] in_all_bits(1) [OF assms]] by blast
  ultimately show "list_ex (\<lambda>(f, t). has b f \<and> has t to) sc26_button_map"
    unfolding list_ex_iff using assms by blast
qed

lemma extra_bit:
  assumes "m \<in> set sc26_extra_bits"
  shows "\<not> list_ex (\<lambda>(f, t). has b f \<and> has t m) sc26_button_map"
proof
  assume "list_ex (\<lambda>(f, t). has b f \<and> has t m) sc26_button_map"
  then obtain f t where ft: "(f, t) \<in> set sc26_button_map" "has t m"
    unfolding list_ex_iff by blast
  then show False
    using separate_has [OF in_all_bits(1) [OF ft(1)] in_all_bits(2) [OF assms]] mapped_neq_extra [OF ft(1) assms]
    by blast
qed

lemma mapped_not_extra:
  assumes "(from, to) \<in> set sc26_button_map" "m \<in> set sc26_extra_bits"
  shows "\<not> has m to"
  using separate_has [OF in_all_bits(2) [OF assms(2)] in_all_bits(1) [OF assms(1)]]
    mapped_neq_extra [OF assms] by blast

lemma extra_extra:
  assumes "x \<in> set sc26_extra_bits" "y \<in> set sc26_extra_bits"
  shows "has x y \<longleftrightarrow> x = y"
  by (rule separate_has [OF in_all_bits(2) [OF assms(1)] in_all_bits(2) [OF assms(2)]])

lemma extra_members:
  "btn_right_stick_touch \<in> set sc26_extra_bits" "btn_right_pad_touch \<in> set sc26_extra_bits"
  "btn_right_pad_click \<in> set sc26_extra_bits" "btn_right_trigger_click \<in> set sc26_extra_bits"
  "btn_left_stick_touch \<in> set sc26_extra_bits" "btn_left_pad_touch \<in> set sc26_extra_bits"
  "btn_left_pad_click \<in> set sc26_extra_bits" "btn_left_trigger_click \<in> set sc26_extra_bits"
  "btn_right_grip_touch \<in> set sc26_extra_bits" "btn_left_grip_touch \<in> set sc26_extra_bits"
  by (simp_all add: sc26_extra_bits_def)

lemma extra_distinct: "distinct sc26_extra_bits"
  using bits_distinct by simp

lemma latch_fields:
  fixes b s
  defines "e \<equiv> has b button_sc26_buttons_explicit \<or> sc_trigger_click_explicit s"
    and "s' \<equiv> sc26_latch b s"
  assumes "sc26_ok s"
  shows "sc_trigger_click_explicit s' = e" "sd_trigger_click_from_analog (sc_device s') = (\<not> e)"
    "e \<Longrightarrow> sd_grip_touch (sc_device s') = [has b button_left_grip_touch, has b button_right_grip_touch]"
    "e \<Longrightarrow> sd_stick_touch (sc_device s') = [has b button_left_stick_touch, has b button_right_stick_touch]"
    "e \<Longrightarrow> \<not> sd_stick_touch_from_deflection (sc_device s')"
    "sd_pad_touched (sc_device s') = sd_pad_touched (sc_device s)"
  using assms(3) unfolding s'_def e_def
  by (auto simp: sc26_latch_def apply_client_stick_touch_def on_device_def Let_def sc26_ok_def)

lemma report_buttons:
  fixes input s
  defines "s' \<equiv> sc26_latch (is_buttons input) s"
  shows "i26_buttons (fst (encode_sc26_input input (Some s))) =
    sc26_report_buttons (sc26_buttons (is_buttons input) s') (is_left_x input) (is_left_y input)
      (is_right_x input) (is_right_y input) (is_left_trigger input) (is_right_trigger input) (sc_device s')"
  by (simp add: encode_sc26_input_def sc26_encode_input_def Let_def s'_def)

text \<open>Once a client has declared its buttons explicit, in this input or any
  earlier one, the report repeats exactly what the client says for both grips, both sticks'
  touch and both trigger clicks -- no guess from stick deflection or trigger travel -- and the
  declaration is never forgotten; every one of the twenty mapped buttons is set exactly when the
  client holds it, and the pads' touch bits are exactly the stored contacts.\<close>

theorem sc26_explicit_client_decides:
  assumes "sc26_reachable s"
    and r: "r = fst (encode_sc26_input input (Some s))"
    and b: "b = is_buttons input"
    and e: "has b button_sc26_buttons_explicit \<or> sc_trigger_click_explicit s"
  shows "list_all (\<lambda>(from, to). has (i26_buttons r) to \<longleftrightarrow> has b from) sc26_button_map \<and>
    (has (i26_buttons r) btn_left_grip_touch \<longleftrightarrow> has b button_left_grip_touch) \<and>
    (has (i26_buttons r) btn_right_grip_touch \<longleftrightarrow> has b button_right_grip_touch) \<and>
    (has (i26_buttons r) btn_left_stick_touch \<longleftrightarrow> has b button_left_stick_touch) \<and>
    (has (i26_buttons r) btn_right_stick_touch \<longleftrightarrow> has b button_right_stick_touch) \<and>
    (has (i26_buttons r) btn_left_trigger_click \<longleftrightarrow>
      has b button_sc26_buttons_explicit \<and> has b button_left_trigger_click) \<and>
    (has (i26_buttons r) btn_right_trigger_click \<longleftrightarrow>
      has b button_sc26_buttons_explicit \<and> has b button_right_trigger_click) \<and>
    (has (i26_buttons r) btn_left_pad_touch \<longleftrightarrow> sd_pad_touched (sc_device s) ! 0) \<and>
    (has (i26_buttons r) btn_right_pad_touch \<longleftrightarrow> sd_pad_touched (sc_device s) ! 1) \<and>
    sc_trigger_click_explicit (the (snd (encode_sc26_input input (Some s))))"
proof -
  have ok: "sc26_ok s" by (rule sc26_reachable_ok [OF assms(1)])
  note latch = latch_fields [OF ok, of b]
  have split: "has (i26_buttons r) m \<longleftrightarrow> has (sc26_buttons b (sc26_latch b s)) m \<or>
      sd_pad_touched (sc_device s) ! 0 \<and> has btn_left_pad_touch m \<or>
      sd_pad_touched (sc_device s) ! 1 \<and> has btn_right_pad_touch m \<or>
      has b button_left_grip_touch \<and> has btn_left_grip_touch m \<or>
      has b button_right_grip_touch \<and> has btn_right_grip_touch m \<or>
      has b button_left_stick_touch \<and> has btn_left_stick_touch m \<or>
      has b button_right_stick_touch \<and> has btn_right_stick_touch m" for m
    using e latch by (simp add: r report_buttons flip: b) (auto simp: sc26_report_buttons_def has_or)
  have buttons: "has (sc26_buttons b st) m \<longleftrightarrow> list_ex (\<lambda>(from, to). has b from \<and> has to m) sc26_button_map"
    if "\<forall>x \<in> {btn_left_pad_click, btn_right_pad_click, btn_left_trigger_click, btn_right_trigger_click}.
      \<not> has x m" for m st
    using that by (simp add: sc26_buttons_def Let_def has_or has_mapped)
  have mapped: "has (i26_buttons r) k \<longleftrightarrow> has b f" if "(f, k) \<in> set sc26_button_map" for f k
    using mapped_not_extra [OF that] extra_members
    by (subst split, subst buttons) (auto simp: mapped_bit [OF that])
  have neq: "distinct sc26_extra_bits" "distinct (rev sc26_extra_bits)" by (simp_all add: extra_distinct)
  note neq = neq [unfolded sc26_extra_bits_def, simplified]
  have no_touch: "\<not> has (sc26_buttons b st) m" if "m \<in> {btn_left_grip_touch, btn_right_grip_touch,
      btn_left_stick_touch, btn_right_stick_touch, btn_left_pad_touch, btn_right_pad_touch}" for m st
    using that neq extra_bit extra_members extra_extra by (subst buttons) auto
  have clicks: "has (sc26_buttons b st) btn_left_trigger_click \<longleftrightarrow>
      has b button_sc26_buttons_explicit \<and> has b button_left_trigger_click"
    "has (sc26_buttons b st) btn_right_trigger_click \<longleftrightarrow>
      has b button_sc26_buttons_explicit \<and> has b button_right_trigger_click" for st
    using neq by (simp_all add: sc26_buttons_def Let_def has_or has_mapped extra_bit extra_extra extra_members)
  have latched: "sc_trigger_click_explicit (the (snd (encode_sc26_input input (Some s))))"
    using latch(1) e by (simp add: encode_sc26_state b)
  show ?thesis
    using neq mapped latched
    by (simp add: split no_touch clicks extra_extra extra_members list_all_iff case_prod_beta)
qed

definition explicit_input :: input_state_request
  where "explicit_input = sample_input\<lparr>is_buttons := button_sc26_buttons_explicit OR button_left_grip_touch\<rparr>"

theorem sc26_explicit_client_decides_witness:
  "has (i26_buttons (fst (encode_sc26_input explicit_input (Some sc26_reset)))) btn_left_grip_touch \<and>
   \<not> has (i26_buttons (fst (encode_sc26_input explicit_input (Some sc26_reset)))) btn_left_stick_touch"
  using sc26_explicit_client_decides [OF sc26_start refl refl, of explicit_input]
  by (simp add: explicit_input_def button_masks has_def)

text \<open>A sixteen-bit field read back unsigned.\<close>

definition read_u16 :: "byte list \<Rightarrow> nat \<Rightarrow> u16"
  where "read_u16 b k = le16_of (b ! k) (b ! Suc k)"

definition pad_reading :: "sc26_device \<Rightarrow> nat \<Rightarrow> i16 \<times> i16 \<times> u16"
  where "pad_reading d i = (if sd_pad_touched d ! i
    then (int (unat (sd_pad_x d ! i)) - 32768, min 32767 (32768 - int (unat (sd_pad_y d ! i))),
          drop_bit 1 (sd_pad_pressure d ! i))
    else (0, 0, 0))"

lemma pad_axes:
  "pad_axis_x x = int (unat x) - 32768" "pad_axis_y y = min 32767 (32768 - int (unat y))"
  using uint_u16_bound [of x] uint_u16_bound [of y]
  by (auto simp: pad_axis_x_def pad_axis_y_def clamp_i16_def min_def)

lemma read_u16_at: "b = a @ le16_bytes w @ c \<Longrightarrow> read_u16 b (length a) = w"
  by (simp add: read_u16_def le16_bytes_def nth_append)

lemma latch_pads:
  "sd_pad_touched (sc_device (sc26_latch b s)) = sd_pad_touched (sc_device s)"
  "sd_pad_x (sc_device (sc26_latch b s)) = sd_pad_x (sc_device s)"
  "sd_pad_y (sc_device (sc26_latch b s)) = sd_pad_y (sc_device s)"
  "sd_pad_pressure (sc_device (sc26_latch b s)) = sd_pad_pressure (sc_device s)"
  "sd_accel (sc_device (sc26_latch b s)) = sd_accel (sc_device s)"
  "sd_gyro (sc_device (sc26_latch b s)) = sd_gyro (sc_device s)"
  "sd_imu_timestamp (sc_device (sc26_latch b s)) = sd_imu_timestamp (sc_device s)"
  "sd_sequence (sc_device (sc26_latch b s)) = sd_sequence (sc_device s)"
  by (simp_all add: sc26_latch_def apply_client_stick_touch_def on_device_def Let_def)

lemma report_pads:
  fixes input s
  defines "r \<equiv> fst (encode_sc26_input input (Some s))" and "d \<equiv> sc_device s"
  shows "(i26_left_pad_x r, i26_left_pad_y r, i26_left_pressure r) = pad_reading d 0"
    "(i26_right_pad_x r, i26_right_pad_y r, i26_right_pressure r) = pad_reading d 1"
    "i26_accel r = sd_accel d" "i26_gyro r = sd_gyro d" "i26_quat r = [32767, 0, 0, 0]"
    "i26_report_id r = 0x42" "i26_sequence r = sd_sequence d" "i26_imu_timestamp r = sd_imu_timestamp d"
  unfolding r_def d_def
  by (simp_all add: encode_sc26_input_def sc26_encode_input_def Let_def case_prod_beta latch_pads
      pad_reading_def pad_axes pad_pressure_def)

lemma report_split:
  assumes "axes_ok (i26_accel r)" "axes_ok (i26_gyro r)" "length (i26_quat r) = 4"
  shows "\<exists>h. length h = 18 \<and> take 2 h = [i26_report_id r, i26_sequence r] \<and>
    sc26_input_bytes r = h @ concat (map i16_bytes [i26_left_pad_x r, i26_left_pad_y r]) @
      le16_bytes (i26_left_pressure r) @ concat (map i16_bytes [i26_right_pad_x r, i26_right_pad_y r]) @
      le16_bytes (i26_right_pressure r) @ le32_bytes (i26_imu_timestamp r) @
      concat (map i16_bytes (i26_accel r)) @ concat (map i16_bytes (i26_gyro r)) @
      concat (map i16_bytes (i26_quat r))"
  by (rule exI [of _ "[i26_report_id r, i26_sequence r] @ le32_bytes (i26_buttons r) @
      concat (map i16_bytes [i26_left_trigger r, i26_right_trigger r, i26_left_x r, i26_left_y r,
        i26_right_x r, i26_right_y r])"])
     (simp add: sc26_input_bytes_def)

lemma length_battery_bytes: "length (sc26_battery_bytes r) = 15"
  by (simp add: sc26_battery_bytes_def)

lemma length_sc26_input:
  assumes "sc26_ok s"
  shows "length (sc26_input_bytes (fst (encode_sc26_input input (Some s)))) = 54"
proof -
  have "device_ok (sc_device s)" using assms by (simp add: sc26_ok_def)
  then have axes: "axes_ok (i26_accel (fst (encode_sc26_input input (Some s))))"
    "axes_ok (i26_gyro (fst (encode_sc26_input input (Some s))))"
    "length (i26_quat (fst (encode_sc26_input input (Some s)))) = 4"
    using report_pads [of input s] by (simp_all add: device_ok_def)
  from report_split [OF axes] axes show ?thesis by (auto simp: axes_ok_def)
qed



end
