(* ===== verification/DriverState.thy ===== *)
theory DriverState
  imports Profile HapticQueue PidEngine DualSense SwitchPro SteamController HidPath ReportPump
begin

text \<open>
  The state of the virtual gamepad driver (\<^theory_text>\<open>driver/src/driver.cpp\<close>):
  its controller slots, its device context, and the predicates every operation consults.

  A handle of the framework (\<^theory_text>\<open>VHFHANDLE\<close>,
  \<^theory_text>\<open>WDFFILEOBJECT\<close>) is a number, \<open>0\<close> the null handle.
  Every \<^theory_text>\<open>lock_context ... unlock_context\<close> section of the code
  is one definition or one \<open>let\<close> of a definition here; the sections of one
  operation are composed as the code composes them. What Windows does is read from
  an \<open>os_env\<close>: the status of each call, and the successive readings of
  \<^theory_text>\<open>now_us\<close> within one operation. \<open>dc_log\<close> is a ghost:
  the calls the driver made to the virtual HID framework, oldest first.
\<close>

section \<open>Constants\<close>

definition k_pid_tick_ms :: u32
  where "k_pid_tick_ms = 10"

definition k_sc26_tick_ms :: u64
  where "k_sc26_tick_ms = 4"

definition k_sc26_resend_after_us :: u64
  where "k_sc26_resend_after_us = 3000"

definition k_sc26_battery_period_us :: u64
  where "k_sc26_battery_period_us = 3500000"

definition k_settings_events_per_write :: nat
  where "k_settings_events_per_write = 3"

definition k_sc26_input_report_id :: byte
  where "k_sc26_input_report_id = 0x42"

definition k_sc26_battery_report_id :: byte
  where "k_sc26_battery_report_id = 0x43"

definition k_generic_input_report_id :: byte
  where "k_generic_input_report_id = 1"

definition k_generic_output_report_id :: byte
  where "k_generic_output_report_id = 2"

text \<open>A GUID in its memory layout: \<^theory_text>\<open>Data1\<close> to
  \<^theory_text>\<open>Data3\<close> little-endian, then \<^theory_text>\<open>Data4\<close>.\<close>

definition k_controller_container_base :: "byte list"
  where "k_controller_container_base = le32_bytes 0x9a2f1c74 @ le16_bytes 0x6b83 @
    le16_bytes 0x4d51 @ [0xa7, 0x0e, 0x35, 0x1d, 0xc6, 0x84, 0x00, 0x00]"

lemmas driver_ids = k_sc26_input_report_id_def k_sc26_battery_report_id_def
  k_generic_input_report_id_def k_generic_output_report_id_def

text \<open>\<^theory_text>\<open>NT_SUCCESS\<close>: the status is not negative.\<close>

definition nt_success :: "ntstatus \<Rightarrow> bool"
  where "nt_success status = (case status of
     Status_Success \<Rightarrow> True
   | Status_Other v \<Rightarrow> \<not> bit v 31
   | _ \<Rightarrow> False)"

section \<open>Slots and context\<close>

datatype slot_state = Slot_Empty | Slot_Starting | Slot_Active | Slot_Stopping | Slot_Lost

type_synonym handle = nat

abbreviation (input) null_handle :: handle
  where "null_handle \<equiv> 0"

record controller_slot =
  cs_generation :: u64
  cs_vhf :: handle
  cs_owner :: handle
  cs_profile :: "profile option"
  cs_controller_id :: u32
  cs_state :: slot_state
  cs_feedback_pending :: bool
  cs_feedback :: feedback_event
  cs_haptics :: event_ring
  cs_settings :: event_ring
  cs_haptic_evicted :: u32
  cs_settings_evicted :: u32
  cs_submits_in_flight :: u32
  cs_playstation_feedback :: playstation_output_feedback
  cs_force_feedback :: bool
  cs_pid_rumble_valid :: bool
  cs_pid_rumble :: pid_rumble
  cs_have_last_input :: bool
  cs_last_input :: input_state_request
  cs_ds4 :: ds4_state
  cs_ds5 :: ds5_state
  cs_switch_pro :: switch_state
  cs_sc26 :: sc26_state
  cs_sc26_wire_sequence :: byte
  cs_pump :: report_pump
  cs_read_transfer :: "u32 \<times> byte"
  cs_container_id :: "byte list"
  cs_instance_id :: string
  cs_pid :: pid_engine

text \<open>\<^theory_text>\<open>VHF_CONFIG\<close>, the parts the driver fills in per controller.\<close>

record vhf_config =
  vc_descriptor :: "byte list"
  vc_container_id :: "byte list"
  vc_instance_id :: string
  vc_vendor_id :: u16
  vc_product_id :: u16
  vc_version_number :: u16
  vc_hardware_ids :: string
  vc_feature_callbacks :: bool

datatype vhf_call = Vhf_Create vhf_config handle | Vhf_Start handle
  | Vhf_Submit handle report_buffer | Vhf_Delete handle

record device_context =
  dc_local_vhf_target :: bool
  dc_vhf_file_handle :: handle
  dc_vhf_target_open :: bool
  dc_stopping :: bool
  dc_powered :: bool
  dc_pid_timer :: bool
  dc_pid_timer_armed :: bool
  dc_sc26_keepalive_timer :: bool
  dc_sc26_keepalive_stop :: bool
  dc_sc26_keepalive_thread :: bool
  dc_sc26_timer_running :: bool
  dc_sc26_timer_parked :: bool
  dc_sc26_due :: "u64 option"
  dc_controllers :: "controller_slot list"
  dc_log :: "vhf_call list"

text \<open>What Windows answers during one operation.\<close>

record os_env =
  os_clock :: "nat \<Rightarrow> u64"
  os_submit :: "handle \<Rightarrow> report_buffer \<Rightarrow> ntstatus"
  os_set_timer :: bool
  os_create_thread :: bool
  os_id_list_size :: "nat option"
  os_heap_alloc :: bool
  os_id_list :: "string option"
  os_meanwhile :: "device_context \<Rightarrow> device_context"
  os_target_open :: ntstatus
  os_file_handle :: handle
  os_vhf_create :: "ntstatus \<times> handle"
  os_vhf_start :: "device_context \<Rightarrow> ntstatus \<times> device_context"

section \<open>Zeroed memory\<close>

text \<open>\<^theory_text>\<open>memset(slot, 0, sizeof *slot)\<close>, member by member.
  No enumerator of \<^theory_text>\<open>lvg::profile\<close> is zero, so the profile of
  a zeroed slot is none.\<close>

definition zero_header :: request_header
  where "zero_header = \<lparr>rh_size = 0, rh_version = 0, rh_reserved = 0\<rparr>"

definition zero_input :: input_state_request
  where "zero_input = \<lparr>is_header = zero_header, is_controller_id = 0, is_buttons = 0,
    is_left_x = 0, is_left_y = 0, is_right_x = 0, is_right_y = 0,
    is_left_trigger = 0, is_right_trigger = 0, is_reserved = 0\<rparr>"

definition zero_ds4 :: ds4_state
  where "zero_ds4 = \<lparr>next_tracking_id = 0, contact_active = [False, False],
    contact_tracking_id = [0, 0], contact_x = [0, 0], contact_y = [0, 0],
    ds4_features = \<lparr>ds4_address = replicate 6 0, ds4_sensors_enabled = False\<rparr>,
    ds4_report_counter = 0, ds4_timestamp = 0, ds4_touch_timestamp = 0, ds4_battery_level = 0,
    ds4_cable_connected = False, ds4_battery_full = False, ds4_gyro = [0, 0, 0],
    ds4_accel = [0, 0, 0]\<rparr>"

definition zero_ds5 :: ds5_state
  where "zero_ds5 = \<lparr>next_tracking_id = 0, contact_active = [False, False],
    contact_tracking_id = [0, 0], contact_x = [0, 0], contact_y = [0, 0],
    ds5_features = \<lparr>ds5_address = replicate 6 0, ds5_sensors_enabled = False\<rparr>,
    ds5_sequence = 0, ds5_sensor_timestamp = 0, ds5_battery_level = 0,
    ds5_cable_connected = False, ds5_battery_full = False, ds5_gyro = [0, 0, 0],
    ds5_accel = [0, 0, 0]\<rparr>"

definition zero_switch :: switch_state
  where "zero_switch = \<lparr>sw_timer = 0, sw_battery_level = 0, sw_cable_connected = False,
    sw_charging = False, sw_gyro = [0, 0, 0], sw_accel = [0, 0, 0], sw_player_lights = 0,
    sw_imu_enabled = False, sw_vibration_enabled = False, sw_handshake_complete = False\<rparr>"

definition zero_attributes :: attributes
  where "zero_attributes = \<lparr>at_unique_id = 0, at_product_id = 0, at_capabilities = 0,
    at_firmware_build_time = 0, at_board_revision = 0, at_bootloader_build_time = 0,
    at_connection_interval_us = 0\<rparr>"

definition zero_features :: feature_state
  where "zero_features = \<lparr>fs_attrs = zero_attributes, fs_unit_serial = replicate 16 0,
    fs_board_serial = replicate 16 0, fs_build_id = replicate 16 0,
    fs_settings = replicate setting_count 0, fs_lizard_mode = False, fs_imu_mode = 0,
    fs_reply = replicate 64 0, fs_have_reply = False, fs_last_unknown_command = 0,
    fs_unknown_commands = 0\<rparr>"

definition zero_device :: sc26_device
  where "zero_device = \<lparr>sd_sequence = 0, sd_imu_timestamp = 0, sd_grip_touch = [False, False],
    sd_stick_touch = [False, False], sd_pad_touched = [False, False], sd_pad_x = [0, 0],
    sd_pad_y = [0, 0], sd_pad_pressure = [0, 0], sd_accel = [0, 0, 0], sd_gyro = [0, 0, 0],
    sd_battery_percent = 0, sd_charge_state = 0, sd_stick_touch_from_deflection = False,
    sd_trigger_click_from_analog = False\<rparr>"

definition zero_sc26 :: sc26_state
  where "zero_sc26 = \<lparr>sc_device = zero_device, sc_features = zero_features,
    sc_last_motion_us = 0, sc_last_battery_us = 0, sc_last_report_us = 0,
    sc_grip_explicit = False, sc_stick_touch_explicit = False, sc_trigger_click_explicit = False\<rparr>"

definition zero_rumble :: pid_rumble
  where "zero_rumble = \<lparr>low_frequency = 0, high_frequency = 0\<rparr>"

definition zero_pid :: pid_engine
  where "zero_pid = \<lparr>effects = replicate k_pid_max_effects blank_effect, last_allocated = 0,
    last_load_status = 0, device_gain = 0, actuators_enabled = False, paused = False\<rparr>"

definition zero_slot :: controller_slot
  where "zero_slot = \<lparr>cs_generation = 0, cs_vhf = null_handle, cs_owner = null_handle,
    cs_profile = None, cs_controller_id = 0, cs_state = Slot_Empty, cs_feedback_pending = False,
    cs_feedback = empty_event, cs_haptics = empty_ring k_haptic_queue_capacity,
    cs_settings = empty_ring k_settings_queue_capacity, cs_haptic_evicted = 0,
    cs_settings_evicted = 0, cs_submits_in_flight = 0,
    cs_playstation_feedback = blank_playstation_output, cs_force_feedback = False,
    cs_pid_rumble_valid = False, cs_pid_rumble = zero_rumble, cs_have_last_input = False,
    cs_last_input = zero_input, cs_ds4 = zero_ds4, cs_ds5 = zero_ds5,
    cs_switch_pro = zero_switch, cs_sc26 = zero_sc26, cs_sc26_wire_sequence = 0,
    cs_pump = new_pump, cs_read_transfer = (0, 0), cs_container_id = replicate 16 0, cs_instance_id = [],
    cs_pid = zero_pid\<rparr>"

definition reset_slot :: "controller_slot \<Rightarrow> controller_slot"
  where "reset_slot s = zero_slot\<lparr>cs_controller_id := cs_controller_id s,
    cs_state := Slot_Empty, cs_generation := cs_generation s + 1\<rparr>"

section \<open>Predicates and access\<close>

definition slot_at :: "nat \<Rightarrow> device_context \<Rightarrow> controller_slot"
  where "slot_at i ctx = dc_controllers ctx ! i"

definition on_slot ::
  "nat \<Rightarrow> (controller_slot \<Rightarrow> controller_slot) \<Rightarrow> device_context \<Rightarrow> device_context"
  where "on_slot i f ctx = ctx\<lparr>dc_controllers := (dc_controllers ctx)[i := f (slot_at i ctx)]\<rparr>"

definition log_call :: "vhf_call \<Rightarrow> device_context \<Rightarrow> device_context"
  where "log_call c ctx = ctx\<lparr>dc_log := dc_log ctx @ [c]\<rparr>"

definition is_owned_by :: "controller_slot \<Rightarrow> handle \<Rightarrow> bool"
  where "is_owned_by s owner \<longleftrightarrow> cs_owner s = owner"

definition accepts_vhf_callbacks :: "device_context \<Rightarrow> controller_slot \<Rightarrow> bool"
  where "accepts_vhf_callbacks ctx s \<longleftrightarrow>
    \<not> dc_stopping ctx \<and> dc_powered ctx \<and> cs_vhf s \<noteq> null_handle \<and>
    (cs_state s = Slot_Starting \<or> cs_state s = Slot_Active)"

definition inactive_controller_status :: "controller_slot \<Rightarrow> handle \<Rightarrow> ntstatus"
  where "inactive_controller_status s owner =
    (if is_owned_by s owner \<and> cs_state s = Slot_Lost then Status_Device_Removed
     else Status_Device_Not_Ready)"

definition is_playstation :: "profile option \<Rightarrow> bool"
  where "is_playstation p \<longleftrightarrow> p = Some Dualshock_4 \<or> p = Some Dualsense"

definition is_xbox :: "profile option \<Rightarrow> bool"
  where "is_xbox p \<longleftrightarrow> p = Some Xbox_Series \<or> p = Some Xbox_One"

definition is_steam_controller :: "profile option \<Rightarrow> bool"
  where "is_steam_controller p \<longleftrightarrow> p = Some Steam_Controller"

text \<open>\<^theory_text>\<open>context->stopping || slot.state != active || slot.vhf == nullptr\<close>,
  the test of every submission from a client.\<close>

definition submit_refused :: "device_context \<Rightarrow> controller_slot \<Rightarrow> bool"
  where "submit_refused ctx s \<longleftrightarrow>
    dc_stopping ctx \<or> cs_state s \<noteq> Slot_Active \<or> cs_vhf s = null_handle"

lemma slot_at_on_slot [simp]:
  "i < length (dc_controllers ctx) \<Longrightarrow>
    slot_at j (on_slot i f ctx) = (if j = i then f (slot_at i ctx) else slot_at j ctx)"
  by (simp add: slot_at_def on_slot_def nth_list_update)

lemma slot_at_log_call [simp]: "slot_at i (log_call c ctx) = slot_at i ctx"
  by (simp add: slot_at_def log_call_def)

lemma length_on_slot [simp]: "length (dc_controllers (on_slot i f ctx)) = length (dc_controllers ctx)"
  by (simp add: on_slot_def)

end
