(* ===== verification/DriverSubmit.thy ===== *)
theory DriverSubmit
  imports DriverState
begin

text \<open>
  How a report reaches the virtual HID framework (\<^theory_text>\<open>driver.cpp\<close>,
  from \<^theory_text>\<open>stamp_sc26_sequence\<close> to
  \<^theory_text>\<open>submit_input_state\<close>, with the Steam Controller keep-alive):
  a report is queued and taken under the state lock, submitted outside it, and the
  framework's readiness callback drains the rest.
\<close>

section \<open>The keep-alive timer\<close>

definition streams_sc26 :: "controller_slot \<Rightarrow> bool"
  where "streams_sc26 s \<longleftrightarrow> cs_state s = Slot_Active \<and> is_steam_controller (cs_profile s) \<and>
    cs_vhf s \<noteq> null_handle \<and> cs_have_last_input s"

definition sc26_deadline :: "u64 \<Rightarrow> u64 \<Rightarrow> controller_slot \<Rightarrow> u64"
  where "sc26_deadline now delay s =
    (if \<not> streams_sc26 s then delay
     else
       let tick_us = k_sc26_tick_ms * 1000; last_us = sc_last_report_us (cs_sc26 s);
           elapsed = (if now \<ge> last_us then now - last_us else 0);
           remaining = (if elapsed \<ge> tick_us then 1 else tick_us - elapsed)
       in if remaining < delay then remaining else delay)"

definition arm_sc26_keepalive :: "u64 \<Rightarrow> device_context \<Rightarrow> device_context"
  where "arm_sc26_keepalive now ctx =
    (if \<not> dc_sc26_keepalive_timer ctx \<or> \<not> dc_sc26_timer_running ctx then ctx
     else ctx\<lparr>dc_sc26_timer_parked := False,
       dc_sc26_due := Some (foldl (sc26_deadline now) (k_sc26_tick_ms * 1000) (dc_controllers ctx))\<rparr>)"

section \<open>Taking a report\<close>

definition stamp_sc26_sequence ::
  "controller_slot \<Rightarrow> report_buffer \<Rightarrow> controller_slot \<times> report_buffer"
  where "stamp_sc26_sequence s report =
    (if rb_report_id report = k_sc26_input_report_id \<and> rb_length report > 1 \<and>
        is_steam_controller (cs_profile s)
     then (s\<lparr>cs_sc26_wire_sequence := cs_sc26_wire_sequence s + 1\<rparr>,
           report\<lparr>rb_data := (rb_data report)[1 := cs_sc26_wire_sequence s]\<rparr>)
     else (s, report))"

definition mark_sc26_report_taken ::
  "(nat \<Rightarrow> u64) \<Rightarrow> nat \<Rightarrow> report_buffer \<Rightarrow> bool \<Rightarrow> device_context \<Rightarrow> report_buffer \<times> device_context"
  where "mark_sc26_report_taken clk i report rearm ctx =
    (let (s, report) = stamp_sc26_sequence (slot_at i ctx) report;
         ctx = on_slot i (\<lambda>_. s) ctx
     in if rb_report_id report = k_sc26_input_report_id \<and> is_steam_controller (cs_profile s) then
          let ctx = on_slot i (\<lambda>s. s\<lparr>cs_sc26 := (cs_sc26 s)\<lparr>sc_last_report_us := clk 0\<rparr>\<rparr>) ctx
          in (report, if rearm then arm_sc26_keepalive (clk 1) ctx else ctx)
        else (report, ctx))"

text \<open>\<^theory_text>\<open>slot.pump.take()\<close> and what follows it in both of its callers:
  the taken report is stamped in the pump's own buffer, the slot's packet points at
  that buffer, and the submission is counted. The result is the report's copy
  and the handle to submit it to.\<close>

definition take_report ::
  "(nat \<Rightarrow> u64) \<Rightarrow> nat \<Rightarrow> bool \<Rightarrow> device_context \<Rightarrow> (report_buffer \<times> handle) option \<times> device_context"
  where "take_report clk i rearm ctx =
    (case pump_take (cs_pump (slot_at i ctx)) of
       (None, pump) \<Rightarrow> (None, on_slot i (\<lambda>s. s\<lparr>cs_pump := pump\<rparr>) ctx)
     | (Some taken, pump) \<Rightarrow>
        let ctx = on_slot i (\<lambda>s. s\<lparr>cs_pump := pump\<rparr>) ctx;
            (taken, ctx) = mark_sc26_report_taken clk i taken rearm ctx;
            ctx = on_slot i (\<lambda>s. s\<lparr>cs_pump := (cs_pump s)\<lparr>in_flight := taken\<rparr>,
                cs_read_transfer := (rb_length taken, rb_report_id taken),
                cs_submits_in_flight := cs_submits_in_flight s + 1\<rparr>) ctx
        in (Some (taken, cs_vhf (slot_at i ctx)), ctx))"

definition pump_report_locked ::
  "(nat \<Rightarrow> u64) \<Rightarrow> nat \<Rightarrow> byte list option \<Rightarrow> byte \<Rightarrow> report_kind \<Rightarrow> bool \<Rightarrow> device_context \<Rightarrow>
   ntstatus \<times> (report_buffer \<times> handle) option \<times> device_context"
  where "pump_report_locked clk i dat report_id kind rearm ctx =
    (if \<not> accepts_vhf_callbacks ctx (slot_at i ctx) then (Status_Device_Not_Ready, None, ctx)
     else
       let ctx = (case dat of
             None \<Rightarrow> ctx
           | Some b \<Rightarrow> on_slot i (\<lambda>s. s\<lparr>cs_pump :=
               snd (enqueue (Some b) (of_nat (length b)) report_id kind (cs_pump s))\<rparr>) ctx);
           (next, ctx) = take_report clk i rearm ctx
       in (Status_Success, next, ctx))"

text \<open>What VHF reads through \<^theory_text>\<open>&slot.read_transfer\<close>: the length and id
  of the packet, and the bytes the pump's buffer holds at that moment.\<close>

definition submitted_packet :: "controller_slot \<Rightarrow> report_buffer"
  where "submitted_packet s = \<lparr>rb_data = rb_data (in_flight (cs_pump s)),
    rb_length = fst (cs_read_transfer s), rb_report_id = snd (cs_read_transfer s)\<rparr>"

definition submit_taken :: "os_env \<Rightarrow> nat \<Rightarrow> handle \<Rightarrow> device_context \<Rightarrow> ntstatus \<times> device_context"
  where "submit_taken os i vhf ctx =
    (let packet = submitted_packet (slot_at i ctx); status = os_submit os vhf packet;
         ctx = log_call (Vhf_Submit vhf packet) ctx
     in (status, on_slot i (\<lambda>s. s\<lparr>cs_submits_in_flight := cs_submits_in_flight s - 1\<rparr>) ctx))"

definition pump_report ::
  "os_env \<Rightarrow> (nat \<Rightarrow> u64) \<Rightarrow> nat \<Rightarrow> byte list option \<Rightarrow> byte \<Rightarrow> report_kind \<Rightarrow> device_context \<Rightarrow>
   ntstatus \<times> device_context"
  where "pump_report os clk i dat report_id kind ctx =
    (case pump_report_locked clk i dat report_id kind True ctx of
       (queued, next, ctx) \<Rightarrow>
         (case next of
            None \<Rightarrow> (queued, ctx)
          | Some (_, vhf) \<Rightarrow> if \<not> nt_success queued then (queued, ctx) else submit_taken os i vhf ctx))"

text \<open>\<^theory_text>\<open>evt_vhf_ready_for_next_report\<close>, the section under the lock and
  the whole callback.\<close>

definition ready_locked ::
  "(nat \<Rightarrow> u64) \<Rightarrow> nat \<Rightarrow> device_context \<Rightarrow> (report_buffer \<times> handle) option \<times> device_context"
  where "ready_locked clk i ctx =
    (if \<not> accepts_vhf_callbacks ctx (slot_at i ctx) then (None, ctx)
     else
       let ctx = on_slot i (\<lambda>s. s\<lparr>cs_pump := set_ready (cs_pump s)\<rparr>) ctx;
           (next, ctx) = take_report clk i True ctx
       in (next, if dc_sc26_timer_parked ctx \<and> cs_have_last_input (slot_at i ctx) \<and>
                    is_steam_controller (cs_profile (slot_at i ctx))
                 then arm_sc26_keepalive (clk 2) ctx else ctx))"

definition evt_vhf_ready_for_next_report :: "os_env \<Rightarrow> nat \<Rightarrow> device_context \<Rightarrow> device_context"
  where "evt_vhf_ready_for_next_report os i ctx =
    (case ready_locked (os_clock os) i ctx of
       (None, ctx) \<Rightarrow> ctx
     | (Some (_, vhf), ctx) \<Rightarrow> snd (submit_taken os i vhf ctx))"

section \<open>Resending the accumulated state\<close>

text \<open>The PlayStation report of the current state, with its id.\<close>

definition encode_playstation ::
  "u64 \<Rightarrow> input_state_request \<Rightarrow> controller_slot \<Rightarrow> byte list \<times> byte \<times> controller_slot"
  where "encode_playstation now input s =
    (if cs_profile s = Some Dualshock_4 then
       case encode_ds4_input input (Some (cs_ds4 s)) now of
         (report, state) \<Rightarrow> (ds4_input_bytes report, 0x01, s\<lparr>cs_ds4 := the state\<rparr>)
     else
       case encode_ds5_input input (Some (cs_ds5 s)) now of
         (report, state) \<Rightarrow> (ds5_input_bytes report, 0x01, s\<lparr>cs_ds5 := the state\<rparr>))"

definition encode_steam ::
  "u64 \<Rightarrow> input_state_request \<Rightarrow> controller_slot \<Rightarrow> sc26_input_report \<times> controller_slot"
  where "encode_steam now input s =
    (case encode_sc26_input input (Some (sc26_tick now (cs_sc26 s))) of
       (report, state) \<Rightarrow> (report, s\<lparr>cs_sc26 := the state\<rparr>))"

definition encode_switch :: "input_state_request \<Rightarrow> controller_slot \<Rightarrow> byte list \<times> controller_slot"
  where "encode_switch input s =
    (case encode_switch_input input (Some (cs_switch_pro s)) of
       (report, state) \<Rightarrow> (switch_input_bytes report, s\<lparr>cs_switch_pro := the state\<rparr>))"

text \<open>The successive readings of the clock after the first \<open>n\<close>.\<close>

definition clock_after :: "nat \<Rightarrow> (nat \<Rightarrow> u64) \<Rightarrow> nat \<Rightarrow> u64"
  where "clock_after n clk k = clk (n + k)"

definition submit_playstation_report ::
  "os_env \<Rightarrow> (nat \<Rightarrow> u64) \<Rightarrow> nat \<Rightarrow> report_kind \<Rightarrow> device_context \<Rightarrow> ntstatus \<times> device_context"
  where "submit_playstation_report os clk i kind ctx =
    (let s = slot_at i ctx
     in if submit_refused ctx s then (Status_Device_Not_Ready, ctx)
        else if \<not> cs_have_last_input s then (Status_Success, ctx)
        else
          let (b, report_id, s) = encode_playstation (clk 0) (cs_last_input s) s
          in pump_report os (clock_after 1 clk) i (Some b) report_id kind (on_slot i (\<lambda>_. s) ctx))"

definition submit_profile_report ::
  "os_env \<Rightarrow> (nat \<Rightarrow> u64) \<Rightarrow> nat \<Rightarrow> report_kind \<Rightarrow> device_context \<Rightarrow> ntstatus \<times> device_context"
  where "submit_profile_report os clk i kind ctx =
    (let s = slot_at i ctx
     in if is_steam_controller (cs_profile s) then
          if submit_refused ctx s then (Status_Device_Not_Ready, ctx)
          else if \<not> cs_have_last_input s then (Status_Success, ctx)
          else
            let (report, s) = encode_steam (clk 0) (cs_last_input s) s;
                (queued, next, ctx) = pump_report_locked (clock_after 1 clk) i
                  (Some (sc26_input_bytes report)) k_sc26_input_report_id kind True
                  (on_slot i (\<lambda>_. s) ctx)
            in (case next of
                  None \<Rightarrow> (queued, ctx)
                | Some (_, vhf) \<Rightarrow>
                    if \<not> nt_success queued then (queued, ctx) else submit_taken os i vhf ctx)
        else if cs_profile s \<noteq> Some Switch_Pro then submit_playstation_report os clk i kind ctx
        else if submit_refused ctx s then (Status_Device_Not_Ready, ctx)
        else if \<not> cs_have_last_input s then (Status_Success, ctx)
        else
          let (b, s) = encode_switch (cs_last_input s) s
          in pump_report os clk i (Some b) k_switch_input_report_id kind (on_slot i (\<lambda>_. s) ctx))"

section \<open>Touch, motion and battery\<close>

definition begin_state_update :: "handle \<Rightarrow> u32 \<Rightarrow> device_context \<Rightarrow> ntstatus"
  where "begin_state_update owner controller_id ctx =
    (if unat controller_id \<ge> k_max_controllers then Status_Invalid_Parameter
     else
       let s = slot_at (unat controller_id) ctx;
           exists = (cs_state s \<noteq> Slot_Empty);
           owned = is_owned_by s owner;
           usable = (\<not> dc_stopping ctx \<and> owned \<and> exists \<and> cs_state s = Slot_Active \<and>
             cs_vhf s \<noteq> null_handle);
           profile = cs_profile s
       in if \<not> exists then Status_Not_Found
          else if \<not> owned then Status_Access_Denied
          else if \<not> usable then inactive_controller_status s owner
          else if \<not> is_playstation profile \<and> profile \<noteq> Some Switch_Pro \<and>
            \<not> is_steam_controller profile then Status_Not_Supported
          else Status_Success)"

definition apply_slot_touch :: "touch_state_request \<Rightarrow> controller_slot \<Rightarrow> bool \<times> controller_slot"
  where "apply_slot_touch request s =
    (if cs_profile s = Some Switch_Pro then (False, s)
     else if cs_profile s = Some Dualshock_4 then
       case apply_ds4_touch request (cs_ds4 s) of (ok, d) \<Rightarrow> (ok, s\<lparr>cs_ds4 := d\<rparr>)
     else if cs_profile s = Some Dualsense then
       case apply_ds5_touch request (cs_ds5 s) of (ok, d) \<Rightarrow> (ok, s\<lparr>cs_ds5 := d\<rparr>)
     else if is_steam_controller (cs_profile s) then
       case apply_sc26_touch request (cs_sc26 s) of (ok, d) \<Rightarrow> (ok, s\<lparr>cs_sc26 := d\<rparr>)
     else (False, s))"

definition submit_touch_state ::
  "os_env \<Rightarrow> handle \<Rightarrow> touch_state_request \<Rightarrow> device_context \<Rightarrow> ntstatus \<times> device_context"
  where "submit_touch_state os owner request ctx =
    (let status = begin_state_update owner (ts_controller_id request) ctx;
         i = unat (ts_controller_id request)
     in if \<not> nt_success status then (status, ctx)
        else
          let has_touch = (cs_profile (slot_at i ctx) \<noteq> Some Switch_Pro);
              (applied, s) = apply_slot_touch request (slot_at i ctx);
              ctx = on_slot i (\<lambda>_. s) ctx
          in if \<not> has_touch then (Status_Not_Supported, ctx)
             else if \<not> applied then (Status_Invalid_Parameter, ctx)
             else submit_profile_report os (os_clock os) i
               (if ts_event_type request = touch_move \<or> ts_event_type request = touch_hover
                then Continuous else Transition) ctx)"

definition apply_slot_motion ::
  "motion_state_request \<Rightarrow> u64 \<Rightarrow> controller_slot \<Rightarrow> bool \<times> controller_slot"
  where "apply_slot_motion request now s =
    (if cs_profile s = Some Dualshock_4 then
       case apply_ds4_motion request (cs_ds4 s) of (ok, d) \<Rightarrow> (ok, s\<lparr>cs_ds4 := d\<rparr>)
     else if cs_profile s = Some Dualsense then
       case apply_ds5_motion request (cs_ds5 s) of (ok, d) \<Rightarrow> (ok, s\<lparr>cs_ds5 := d\<rparr>)
     else if is_steam_controller (cs_profile s) then
       case apply_sc26_motion request now (cs_sc26 s) of (ok, d) \<Rightarrow> (ok, s\<lparr>cs_sc26 := d\<rparr>)
     else case apply_switch_motion request (cs_switch_pro s) of (ok, d) \<Rightarrow> (ok, s\<lparr>cs_switch_pro := d\<rparr>))"

definition submit_motion_state ::
  "os_env \<Rightarrow> handle \<Rightarrow> motion_state_request \<Rightarrow> device_context \<Rightarrow> ntstatus \<times> device_context"
  where "submit_motion_state os owner request ctx =
    (let status = begin_state_update owner (ms_controller_id request) ctx;
         i = unat (ms_controller_id request); clk = clock_after 1 (os_clock os)
     in if \<not> nt_success status then (status, ctx)
        else
          let (applied, s) = apply_slot_motion request (os_clock os 0) (slot_at i ctx);
              ctx = on_slot i (\<lambda>_. s) ctx
          in if \<not> applied then (Status_Invalid_Parameter, ctx)
             else if is_steam_controller (cs_profile s) then
               if \<not> dc_sc26_keepalive_timer ctx \<or> \<not> dc_sc26_timer_running ctx
               then submit_profile_report os clk i Continuous ctx
               else (Status_Success, ctx)
             else submit_profile_report os clk i Continuous ctx)"

definition apply_slot_battery :: "battery_state_request \<Rightarrow> controller_slot \<Rightarrow> bool \<times> controller_slot"
  where "apply_slot_battery request s =
    (if cs_profile s = Some Dualshock_4 then
       case apply_ds4_battery request (cs_ds4 s) of (ok, d) \<Rightarrow> (ok, s\<lparr>cs_ds4 := d\<rparr>)
     else if cs_profile s = Some Dualsense then
       case apply_ds5_battery request (cs_ds5 s) of (ok, d) \<Rightarrow> (ok, s\<lparr>cs_ds5 := d\<rparr>)
     else if is_steam_controller (cs_profile s) then
       case apply_sc26_battery request (cs_sc26 s) of (ok, d) \<Rightarrow> (ok, s\<lparr>cs_sc26 := d\<rparr>)
     else case apply_switch_battery request (cs_switch_pro s) of (ok, d) \<Rightarrow> (ok, s\<lparr>cs_switch_pro := d\<rparr>))"

definition submit_battery_state ::
  "os_env \<Rightarrow> handle \<Rightarrow> battery_state_request \<Rightarrow> device_context \<Rightarrow> ntstatus \<times> device_context"
  where "submit_battery_state os owner request ctx =
    (let status = begin_state_update owner (bs_controller_id request) ctx;
         i = unat (bs_controller_id request); clk = clock_after 1 (os_clock os)
     in if \<not> nt_success status then (status, ctx)
        else
          let (applied, s) = apply_slot_battery request (slot_at i ctx);
              steam = is_steam_controller (cs_profile s);
              battery_report = sc26_battery_bytes (encode_sc26_battery (cs_sc26 s));
              steam_reader = (steam \<and> ready (cs_pump s));
              s = (if steam then s\<lparr>cs_sc26 := (cs_sc26 s)
                     \<lparr>sc_last_battery_us := (if steam_reader then os_clock os 0 else 0)\<rparr>\<rparr> else s);
              ctx = on_slot i (\<lambda>_. s) ctx
          in if \<not> applied then (Status_Invalid_Parameter, ctx)
             else if steam then
               if \<not> steam_reader then (Status_Success, ctx)
               else pump_report os clk i (Some battery_report) k_sc26_battery_report_id Aside ctx
             else submit_profile_report os clk i Continuous ctx)"

end
