(* ===== verification/DriverStream.thy ===== *)
theory DriverStream
  imports Profile DriverSubmit
begin

text \<open>
  The input stream of \<^theory_text>\<open>driver.cpp\<close>: \<^theory_text>\<open>submit_input_state\<close>,
  which encodes a client's state for the slot's profile, and the worker that keeps a Steam
  Controller's 4 ms cadence (\<^theory_text>\<open>sc26_keepalive_tick\<close>, its thread, and
  the two functions that start and stop it). Waiting for the worker is its exit section.
\<close>

section \<open>The keep-alive worker\<close>

definition sc26_due :: "u64 \<Rightarrow> u64 \<Rightarrow> u64 \<Rightarrow> bool"
  where "sc26_due now last_us period \<longleftrightarrow> now \<ge> last_us \<and> now - last_us \<ge> period"

text \<open>One slot of a tick. The flags say whether any slot streams and whether any has a
  read pending; a taken report is appended to the pending submissions.\<close>

type_synonym tick_state = "bool \<times> bool \<times> (nat \<times> handle) list \<times> device_context"

definition keepalive_battery :: "u64 \<Rightarrow> nat \<Rightarrow> device_context \<Rightarrow> device_context"
  where "keepalive_battery now i ctx = on_slot i (\<lambda>s. s
     \<lparr>cs_pump := (let b = sc26_battery_bytes (encode_sc26_battery (cs_sc26 s))
        in snd (enqueue (Some b) (of_nat (length b)) k_sc26_battery_report_id Aside (cs_pump s))),
      cs_sc26 := (cs_sc26 s)\<lparr>sc_last_battery_us := now\<rparr>\<rparr>) ctx"

definition keepalive_slot :: "(nat \<Rightarrow> u64) \<Rightarrow> u64 \<Rightarrow> nat \<Rightarrow> tick_state \<Rightarrow> tick_state"
  where "keepalive_slot clk now i t = (case t of (any_active, any_ready, pending, ctx) \<Rightarrow>
    let s = slot_at i ctx
    in if \<not> streams_sc26 s then t
       else if \<not> ready (cs_pump s) then
         (True, any_ready, pending, on_slot i (\<lambda>s. s\<lparr>cs_sc26 :=
           (cs_sc26 s)\<lparr>sc_last_report_us := now\<rparr>\<rparr>) ctx)
       else
         let battery_due = sc26_due now (sc_last_battery_us (cs_sc26 s)) k_sc26_battery_period_us;
             ctx = (if battery_due then keepalive_battery now i ctx else ctx);
             s = slot_at i ctx;
             resend_due = sc26_due now (sc_last_report_us (cs_sc26 s)) k_sc26_resend_after_us
         in if \<not> resend_due \<and> \<not> battery_due then (True, True, pending, ctx)
            else
              let (report, ctx) =
                    (if resend_due then
                       let (r, s) = encode_steam now (cs_last_input s) s
                       in (Some (sc26_input_bytes r), on_slot i (\<lambda>_. s) ctx)
                     else (None, ctx));
                  (status, next, ctx) = pump_report_locked (clock_after (1 + i) clk) i report
                    k_sc26_input_report_id Continuous False ctx
              in (True, True,
                  (case next of
                     None \<Rightarrow> pending
                   | Some (_, vhf) \<Rightarrow> if nt_success status then pending @ [(i, vhf)] else pending),
                  ctx))"

definition keepalive_locked ::
  "(nat \<Rightarrow> u64) \<Rightarrow> device_context \<Rightarrow> bool \<times> (nat \<times> handle) list \<times> device_context"
  where "keepalive_locked clk ctx =
    (let now = clk 0;
         (any_active, any_ready, pending, ctx) =
           (if dc_stopping ctx then (False, False, [], ctx)
            else foldl (\<lambda>t i. keepalive_slot clk now i t) (False, False, [], ctx)
              [0..<k_max_controllers]);
         ctx = (if \<not> any_active then ctx\<lparr>dc_sc26_timer_running := False\<rparr>
                else if any_ready then arm_sc26_keepalive (clk (1 + k_max_controllers)) ctx
                else ctx\<lparr>dc_sc26_timer_parked := True\<rparr>)
     in (any_active, pending, ctx))"

definition sc26_keepalive_tick :: "os_env \<Rightarrow> device_context \<Rightarrow> bool \<times> device_context"
  where "sc26_keepalive_tick os ctx =
    (case keepalive_locked (os_clock os) ctx of
       (any_active, pending, ctx) \<Rightarrow>
         (any_active, foldl (\<lambda>ctx (i, vhf). snd (submit_taken os i vhf ctx)) ctx pending))"

text \<open>One wake-up of \<^theory_text>\<open>sc26_keepalive_thread\<close> by its timer (which consumes
  the programmed due time), and the way out of the loop.\<close>

definition keepalive_exit :: "device_context \<Rightarrow> device_context"
  where "keepalive_exit ctx = ctx\<lparr>dc_sc26_due := None, dc_sc26_timer_running := False\<rparr>"

definition keepalive_wake :: "os_env \<Rightarrow> device_context \<Rightarrow> bool \<times> device_context"
  where "keepalive_wake os ctx =
    (case sc26_keepalive_tick os (ctx\<lparr>dc_sc26_due := None\<rparr>) of
       (any_active, ctx) \<Rightarrow> (any_active, if any_active then ctx else keepalive_exit ctx))"

definition join_keepalive :: "device_context \<Rightarrow> device_context"
  where "join_keepalive ctx =
    (if dc_sc26_keepalive_thread ctx
     then (keepalive_exit ctx)\<lparr>dc_sc26_keepalive_thread := False\<rparr> else ctx)"

definition start_sc26_keepalive :: "os_env \<Rightarrow> device_context \<Rightarrow> device_context"
  where "start_sc26_keepalive os ctx =
    (let ctx = (join_keepalive ctx)\<lparr>dc_sc26_timer_running := True, dc_sc26_timer_parked := False\<rparr>
     in if \<not> os_set_timer os then ctx\<lparr>dc_sc26_timer_running := False\<rparr>
        else
          let ctx = ctx\<lparr>dc_sc26_due := Some (k_sc26_tick_ms * 1000)\<rparr>
          in if \<not> os_create_thread os
             then ctx\<lparr>dc_sc26_due := None, dc_sc26_timer_running := False\<rparr>
             else ctx\<lparr>dc_sc26_keepalive_thread := True\<rparr>)"

definition stop_sc26_keepalive :: "device_context \<Rightarrow> device_context"
  where "stop_sc26_keepalive ctx =
    (let ctx = join_keepalive ctx
     in if dc_sc26_keepalive_timer ctx then ctx\<lparr>dc_sc26_due := None\<rparr> else ctx)"

section \<open>The client's input state\<close>

definition xbox_input_bytes :: "input_state_request \<Rightarrow> controller_slot \<Rightarrow> byte list"
  where "xbox_input_bytes request s =
    (if cs_profile s = Some Xbox_One then encode_xbox_one_input request
     else xbox_series_input_bytes (encode_xbox_series_input request))"

definition generic_input_bytes :: "generic_input_report \<Rightarrow> byte list"
  where "generic_input_bytes r = gi_report_id r # le32_bytes (gi_buttons r) @
    [gi_hat_and_padding r] @ i16_bytes (gi_left_x r) @ i16_bytes (gi_left_y r) @
    i16_bytes (gi_right_x r) @ i16_bytes (gi_right_y r) @
    [gi_left_trigger r, gi_right_trigger r]"

definition remember_input :: "input_state_request \<Rightarrow> controller_slot \<Rightarrow> controller_slot"
  where "remember_input request s = s\<lparr>cs_last_input := request, cs_have_last_input := True\<rparr>"

definition classify_slot ::
  "u32 \<Rightarrow> input_state_request \<Rightarrow> controller_slot \<Rightarrow> report_kind \<times> controller_slot"
  where "classify_slot buttons request s =
    (case classify buttons (is_left_trigger request) (is_right_trigger request) (cs_pump s) of
       (kind, pump) \<Rightarrow> (kind, s\<lparr>cs_pump := pump\<rparr>))"

definition submit_steam_input ::
  "os_env \<Rightarrow> nat \<Rightarrow> input_state_request \<Rightarrow> device_context \<Rightarrow> ntstatus \<times> device_context"
  where "submit_steam_input os i request ctx =
    (let clk = os_clock os;
         (report, s) = encode_steam (clk 0) request (remember_input request (slot_at i ctx));
         (kind, s) = classify_slot
           (classify_buttons (sc_device (cs_sc26 s)) (i26_buttons report)) request s;
         start_keepalive = (dc_sc26_keepalive_timer ctx \<and> \<not> dc_sc26_timer_running ctx);
         ctx = on_slot i (\<lambda>_. s) ctx;
         ctx = (if start_keepalive then ctx\<lparr>dc_sc26_timer_running := True\<rparr> else ctx);
         (queued, next, ctx) = pump_report_locked (clock_after 1 clk) i
           (Some (sc26_input_bytes report)) k_sc26_input_report_id kind True ctx;
         ctx = (if start_keepalive then start_sc26_keepalive os ctx else ctx)
     in (case next of
           None \<Rightarrow> (queued, ctx)
         | Some (_, vhf) \<Rightarrow>
             if nt_success queued then submit_taken os i vhf ctx else (queued, ctx)))"

definition submit_encoded ::
  "os_env \<Rightarrow> nat \<Rightarrow> input_state_request \<Rightarrow> byte list \<times> byte \<times> controller_slot \<Rightarrow>
   device_context \<Rightarrow> ntstatus \<times> device_context"
  where "submit_encoded os i request encoded ctx =
    (let (b, report_id, s) = encoded;
         (kind, s) = classify_slot (is_buttons request) request s
     in pump_report os (clock_after 1 (os_clock os)) i (Some b) report_id kind
          (on_slot i (\<lambda>_. s) ctx))"

definition submit_input_state ::
  "os_env \<Rightarrow> handle \<Rightarrow> input_state_request \<Rightarrow> device_context \<Rightarrow> ntstatus \<times> device_context"
  where "submit_input_state os owner request ctx =
    (if unat (is_controller_id request) \<ge> k_max_controllers then (Status_Invalid_Parameter, ctx)
     else if is_reserved request \<noteq> 0 then (Status_Invalid_Parameter, ctx)
     else
       let i = unat (is_controller_id request); s = slot_at i ctx; kept = remember_input request s
       in if cs_state s = Slot_Empty \<or> \<not> is_owned_by s owner \<or> dc_stopping ctx \<or>
             cs_state s \<noteq> Slot_Active \<or> cs_vhf s = null_handle
          then (inactive_controller_status s owner, ctx)
          else if is_playstation (cs_profile s) then
            submit_encoded os i request (encode_playstation (os_clock os 0) request kept) ctx
          else if is_steam_controller (cs_profile s) then submit_steam_input os i request ctx
          else if cs_profile s = Some Switch_Pro then
            let (b, kept) = encode_switch request kept
            in submit_encoded os i request (b, k_switch_input_report_id, kept) ctx
          else if is_xbox (cs_profile s) then
            submit_encoded os i request
              (xbox_input_bytes request s, k_xbox_series_input_report_id, kept) ctx
          else if cs_profile s \<noteq> Some Generic_Hid \<and> cs_profile s \<noteq> Some Generic_Pid
          then (Status_Not_Supported, ctx)
          else submit_encoded os i request (generic_input_bytes (encode_generic_input request),
            k_generic_input_report_id, kept) ctx)"

end
