(* ===== verification/DriverLifecycle.thy ===== *)
theory DriverLifecycle
  imports DriverStream
begin

text \<open>
  The life of a controller (\<^theory_text>\<open>driver.cpp\<close>): creation, destruction,
  power transitions and the start and stop of the device. The lifetime gate makes
  each of them a unit; what other threads may do while one waits inside
  \<^theory_text>\<open>VhfStart\<close> is the state transformer \<open>os_vhf_start\<close>, and
  waiting for \<^theory_text>\<open>submits_in_flight\<close> to reach zero leaves it zero. The
  interleaving of the lock sections themselves is modelled for the keyboard and mouse endpoint, in
  KeyboardMouseNative.
\<close>

section \<open>The framework's target\<close>

definition ensure_vhf_target_open :: "os_env \<Rightarrow> device_context \<Rightarrow> ntstatus \<times> device_context"
  where "ensure_vhf_target_open os ctx =
    (if dc_vhf_file_handle ctx \<noteq> null_handle then (Status_Success, ctx)
     else if dc_stopping ctx \<or> \<not> dc_local_vhf_target ctx then (Status_Device_Not_Ready, ctx)
     else if \<not> nt_success (os_target_open os) then (os_target_open os, ctx)
     else if os_file_handle os = null_handle then (Status_Device_Not_Ready, ctx)
     else (Status_Success, ctx\<lparr>dc_vhf_file_handle := os_file_handle os,
       dc_vhf_target_open := True\<rparr>))"

section \<open>The previous child\<close>

text \<open>The part of an instance id behind its last ampersand.\<close>

definition after_ampersand :: "string \<Rightarrow> string option"
  where "after_ampersand device_id =
    (if CHR 0x26 \<in> set device_id
     then Some (rev (takeWhile (\<lambda>c. c \<noteq> CHR 0x26) (rev device_id))) else None)"

definition names_instance :: "string \<Rightarrow> string \<Rightarrow> bool"
  where "names_instance instance_id device_id = (case after_ampersand device_id of
     None \<Rightarrow> False
   | Some child \<Rightarrow> map lower_char child = map lower_char instance_id)"

text \<open>The strings of the buffer: each up to its NUL, until an empty one.\<close>

definition previous_instance_present :: "os_env \<Rightarrow> string \<Rightarrow> bool"
  where "previous_instance_present os instance_id =
    (case os_id_list_size os of
       None \<Rightarrow> True
     | Some len \<Rightarrow>
        if len = 0 \<or> len > 1024 * 1024 then True
        else if \<not> os_heap_alloc os then True
        else case os_id_list os of
            None \<Rightarrow> True
          | Some ids \<Rightarrow>
              if ids ! (len - 1) = CHR 0x00 \<and> (len = 1 \<or> ids ! (len - 2) = CHR 0x00)
              then list_ex (names_instance instance_id) (multi_sz [] ids)
              else True)"

definition previous_child_present :: "os_env \<Rightarrow> controller_slot \<Rightarrow> bool"
  where "previous_child_present os s =
    previous_instance_present os (format_instance_id 32 (unat (cs_controller_id s)))"

section \<open>Destruction\<close>

definition release_starting_slot :: "nat \<Rightarrow> handle \<Rightarrow> device_context \<Rightarrow> device_context"
  where "release_starting_slot i owner ctx =
    (let s = slot_at i ctx
     in if cs_owner s = owner \<and> (cs_state s = Slot_Starting \<or> cs_state s = Slot_Stopping)
        then on_slot i reset_slot ctx else ctx)"

text \<open>\<^theory_text>\<open>wait_for_submits\<close> returns once the count reads zero.\<close>

definition wait_for_submits :: "nat \<Rightarrow> device_context \<Rightarrow> device_context"
  where "wait_for_submits i ctx = on_slot i (\<lambda>s. s\<lparr>cs_submits_in_flight := 0\<rparr>) ctx"

text \<open>The first lock section of \<^theory_text>\<open>destroy_owned_controller\<close>: the handle to
  delete, if there is one.\<close>

definition destroy_locked :: "handle \<Rightarrow> nat \<Rightarrow> device_context \<Rightarrow> handle option \<times> device_context"
  where "destroy_locked owner i ctx =
    (let s = slot_at i ctx
     in if \<not> is_owned_by s owner \<or> cs_state s = Slot_Empty then (None, ctx)
        else if cs_state s = Slot_Starting then (None, on_slot i (\<lambda>s. s\<lparr>cs_state := Slot_Stopping\<rparr>) ctx)
        else if cs_state s = Slot_Lost then (None, on_slot i reset_slot ctx)
        else (Some (cs_vhf s), on_slot i (\<lambda>s. s\<lparr>cs_state := Slot_Stopping,
            cs_feedback_pending := False,
            cs_haptics := (case cs_haptics s of (q, h, n) \<Rightarrow> (q, h, 0)),
            cs_settings := (case cs_settings s of (q, h, n) \<Rightarrow> (q, h, 0)),
            cs_vhf := null_handle\<rparr>) ctx))"

definition destroy_finish :: "handle \<Rightarrow> nat \<Rightarrow> device_context \<Rightarrow> device_context"
  where "destroy_finish owner i ctx =
    (let s = slot_at i ctx
     in if is_owned_by s owner \<and> cs_state s = Slot_Stopping then on_slot i reset_slot ctx else ctx)"

definition destroy_owned_controller :: "handle \<Rightarrow> nat \<Rightarrow> device_context \<Rightarrow> device_context"
  where "destroy_owned_controller owner i ctx =
    (if i \<ge> k_max_controllers then ctx
     else case destroy_locked owner i ctx of
         (None, ctx) \<Rightarrow> ctx
       | (Some vhf, ctx) \<Rightarrow> destroy_finish owner i
           (if vhf \<noteq> null_handle then log_call (Vhf_Delete vhf) (wait_for_submits i ctx) else ctx))"

definition destroy_controller ::
  "handle \<Rightarrow> controller_id_request \<Rightarrow> device_context \<Rightarrow> ntstatus \<times> device_context"
  where "destroy_controller owner request ctx =
    (if unat (ci_controller_id request) \<ge> k_max_controllers then (Status_Invalid_Parameter, ctx)
     else
       let i = unat (ci_controller_id request); s = slot_at i ctx
       in if cs_state s = Slot_Empty then (Status_Not_Found, ctx)
          else if \<not> is_owned_by s owner then (Status_Access_Denied, ctx)
          else (Status_Success, destroy_owned_controller owner i ctx))"

section \<open>Creation\<close>

definition slot_available :: "handle \<Rightarrow> controller_slot \<Rightarrow> bool"
  where "slot_available owner s \<longleftrightarrow>
    cs_state s = Slot_Empty \<or> (cs_state s = Slot_Lost \<and> is_owned_by s owner)"

text \<open>The slot a creation starts from: reset, then given its owner, profile and the
  documented initial state of every part.\<close>

definition starting_slot ::
  "handle \<Rightarrow> u32 \<Rightarrow> profile_definition \<Rightarrow> controller_slot \<Rightarrow> controller_slot"
  where "starting_slot owner controller_id defn s =
    (let features = sc_features sc26_reset;
         serial = (fs_unit_serial features)
           [9 := of_nat (48 + (unat controller_id div 10) mod 10),
            10 := of_nat (48 + unat controller_id mod 10)]
     in (reset_slot s)\<lparr>cs_owner := owner, cs_profile := Some (pd_id defn),
       cs_state := Slot_Starting, cs_feedback_pending := False,
       cs_playstation_feedback := blank_playstation_output,
       cs_force_feedback := pd_force_feedback defn, cs_pid_rumble_valid := False,
       cs_pid_rumble := zero_rumble, cs_pid := pid_reset zero_pid,
       cs_have_last_input := False, cs_last_input := zero_input,
       cs_ds4 := ds4_reset\<lparr>ds4_features := (ds4_features ds4_reset)
         \<lparr>ds4_address := (ds4_address (ds4_features ds4_reset))[0 := ucast controller_id]\<rparr>\<rparr>,
       cs_ds5 := ds5_reset\<lparr>ds5_features := (ds5_features ds5_reset)
         \<lparr>ds5_address := (ds5_address (ds5_features ds5_reset))[0 := ucast controller_id]\<rparr>\<rparr>,
       cs_switch_pro := switch_reset,
       cs_sc26 := sc26_reset\<lparr>sc_features := features\<lparr>fs_unit_serial := serial\<rparr>\<rparr>,
       cs_sc26_wire_sequence := 0, cs_pump := pump_reset new_pump\<rparr>)"

definition name_child :: "u32 \<Rightarrow> controller_slot \<Rightarrow> controller_slot"
  where "name_child controller_id s = s
    \<lparr>cs_container_id := k_controller_container_base[15 := ucast controller_id],
     cs_instance_id := format_instance_id 32 (unat controller_id)\<rparr>"

definition child_config :: "profile_definition \<Rightarrow> controller_slot \<Rightarrow> vhf_config"
  where "child_config defn s = \<lparr>vc_descriptor = pd_report_descriptor defn,
    vc_container_id = cs_container_id s, vc_instance_id = cs_instance_id s,
    vc_vendor_id = pd_vendor_id defn, vc_product_id = pd_product_id defn,
    vc_version_number = pd_version_number defn, vc_hardware_ids = pd_hardware_ids defn,
    vc_feature_callbacks = (pd_force_feedback defn \<or> is_playstation (Some (pd_id defn)) \<or>
      is_steam_controller (Some (pd_id defn)))\<rparr>"

text \<open>The lock section after \<^theory_text>\<open>VhfStart\<close>: adopt the child, or
  stop admitting reports to it.\<close>

definition adopt_child :: "ntstatus \<Rightarrow> handle \<Rightarrow> nat \<Rightarrow> device_context \<Rightarrow> bool \<times> device_context"
  where "adopt_child status owner i ctx =
    (let s = slot_at i ctx
     in if nt_success status \<and> \<not> dc_stopping ctx \<and> dc_powered ctx \<and> cs_owner s = owner \<and>
          cs_state s = Slot_Starting
        then (True, on_slot i (\<lambda>s. s\<lparr>cs_state := Slot_Active\<rparr>) ctx)
        else (False, on_slot i (\<lambda>s. s\<lparr>cs_state := Slot_Stopping, cs_feedback_pending := False,
          cs_vhf := null_handle\<rparr>) ctx))"

text \<open>\<^theory_text>\<open>VhfCreate\<close>, the published handle, \<^theory_text>\<open>VhfStart\<close>
  and the adoption.\<close>

definition start_child ::
  "os_env \<Rightarrow> handle \<Rightarrow> u32 \<Rightarrow> profile_definition \<Rightarrow> device_context \<Rightarrow> ntstatus \<times> device_context"
  where "start_child os owner controller_id defn ctx =
    (let i = unat controller_id; (status, vhf) = os_vhf_create os;
         ctx = on_slot i (name_child controller_id) ctx
     in if \<not> nt_success status then (status, release_starting_slot i owner ctx)
        else
          let ctx = log_call (Vhf_Create (child_config defn (slot_at i ctx)) vhf) ctx;
              ctx = on_slot i (\<lambda>s. s\<lparr>cs_vhf := vhf\<rparr>) ctx;
              (status, ctx) = os_vhf_start os (log_call (Vhf_Start vhf) ctx);
              (adopted, ctx) = adopt_child status owner i ctx
          in if adopted then (Status_Success, ctx)
             else (if nt_success status then Status_Cancelled else status,
               release_starting_slot i owner (log_call (Vhf_Delete vhf) ctx)))"

text \<open>The admission check, and the check repeated under the lifetime gate after
  Configuration Manager was consulted without it (\<open>os_meanwhile\<close> is what
  other threads did to the context by then).\<close>

definition create_admit :: "handle \<Rightarrow> nat \<Rightarrow> device_context \<Rightarrow> ntstatus"
  where "create_admit owner i ctx =
    (if dc_stopping ctx then Status_Device_Not_Ready
     else if \<not> dc_powered ctx then Status_Device_Powered_Off
     else if \<not> slot_available owner (slot_at i ctx) then Status_Device_Busy
     else Status_Success)"

definition create_revalidate ::
  "handle \<Rightarrow> nat \<Rightarrow> u64 \<Rightarrow> bool \<Rightarrow> device_context \<Rightarrow> ntstatus"
  where "create_revalidate owner i generation child_present ctx =
    (if dc_stopping ctx then Status_Device_Not_Ready
     else if \<not> dc_powered ctx then Status_Device_Powered_Off
     else if \<not> slot_available owner (slot_at i ctx) \<or>
       cs_generation (slot_at i ctx) \<noteq> generation \<or> child_present then Status_Device_Busy
     else Status_Success)"

definition create_controller ::
  "os_env \<Rightarrow> handle \<Rightarrow> create_controller_request \<Rightarrow> device_context \<Rightarrow> ntstatus \<times> device_context"
  where "create_controller os owner request ctx =
    (if unat (cc_controller_id request) \<ge> k_max_controllers then (Status_Invalid_Parameter, ctx)
     else if cc_reserved request \<noteq> 0 then (Status_Invalid_Parameter, ctx)
     else case Option.bind (profile_of (cc_profile request)) find_profile of
         None \<Rightarrow> (Status_Not_Supported, ctx)
       | Some defn \<Rightarrow>
          let i = unat (cc_controller_id request); admitted = create_admit owner i ctx
          in if admitted \<noteq> Status_Success then (admitted, ctx)
             else
               let generation = cs_generation (slot_at i ctx);
                   child_present = previous_child_present os (slot_at i ctx);
                   ctx = os_meanwhile os ctx;
                   admitted = create_revalidate owner i generation child_present ctx
               in if admitted \<noteq> Status_Success then (admitted, ctx)
                  else
                    let ctx = on_slot i (starting_slot owner (cc_controller_id request) defn) ctx;
                        (open_status, ctx) = ensure_vhf_target_open os ctx
                    in if \<not> nt_success open_status
                       then (open_status, release_starting_slot i owner ctx)
                       else if dc_vhf_file_handle ctx = null_handle
                       then (Status_Device_Not_Ready, release_starting_slot i owner ctx)
                       else start_child os owner (cc_controller_id request) defn ctx)"

section \<open>Closing a handle\<close>

definition evt_file_close :: "handle \<Rightarrow> device_context \<Rightarrow> device_context"
  where "evt_file_close file ctx =
    (if file = null_handle then ctx
     else foldl (\<lambda>ctx i. destroy_owned_controller file i ctx) ctx [0..<k_max_controllers])"

section \<open>Stopping the device\<close>

definition stop_slot :: "controller_slot \<Rightarrow> controller_slot"
  where "stop_slot s =
    (let s = s\<lparr>cs_feedback_pending := False,
           cs_haptics := (case cs_haptics s of (q, h, n) \<Rightarrow> (q, h, 0)),
           cs_settings := (case cs_settings s of (q, h, n) \<Rightarrow> (q, h, 0))\<rparr>
     in if cs_state s = Slot_Active \<or> cs_state s = Slot_Starting
        then s\<lparr>cs_state := Slot_Stopping\<rparr>
        else if cs_state s = Slot_Lost then reset_slot s else s)"

definition detach_stopping :: "controller_slot \<Rightarrow> handle \<times> controller_slot"
  where "detach_stopping s =
    (if cs_state s = Slot_Stopping then (cs_vhf s, s\<lparr>cs_vhf := null_handle\<rparr>) else (null_handle, s))"

definition drain_and_delete ::
  "(controller_slot \<Rightarrow> controller_slot) \<Rightarrow> handle list \<Rightarrow> nat \<Rightarrow> device_context \<Rightarrow> device_context"
  where "drain_and_delete f handles i ctx =
    (if handles ! i \<noteq> null_handle
     then on_slot i f (log_call (Vhf_Delete (handles ! i)) (wait_for_submits i ctx)) else ctx)"

definition stop_timers :: "device_context \<Rightarrow> device_context"
  where "stop_timers ctx = stop_sc26_keepalive
    (if dc_pid_timer ctx then ctx\<lparr>dc_pid_timer_armed := False\<rparr> else ctx)"

definition stop_owned_controllers :: "bool \<Rightarrow> device_context \<Rightarrow> device_context"
  where "stop_owned_controllers forget_target ctx =
    (let ctx = ctx\<lparr>dc_stopping := True, dc_powered := False\<rparr>;
         ctx = ctx\<lparr>dc_sc26_timer_running := False,
           dc_controllers := map stop_slot (dc_controllers ctx)\<rparr>;
         ctx = ctx\<lparr>dc_vhf_file_handle := null_handle\<rparr>;
         ctx = (if forget_target
           then ctx\<lparr>dc_local_vhf_target := False, dc_vhf_target_open := False\<rparr> else ctx);
         handles = map (fst \<circ> detach_stopping) (dc_controllers ctx);
         ctx = ctx\<lparr>dc_controllers := map (snd \<circ> detach_stopping) (dc_controllers ctx)\<rparr>;
         ctx = foldl (\<lambda>ctx i. drain_and_delete reset_slot handles i ctx) ctx [0..<k_max_controllers]
     in stop_timers ctx)"

section \<open>Power\<close>

definition power_down_slot :: "controller_slot \<Rightarrow> handle \<times> controller_slot"
  where "power_down_slot s =
    (if cs_state s = Slot_Active \<and> cs_vhf s \<noteq> null_handle
     then (cs_vhf s, s\<lparr>cs_state := Slot_Stopping, cs_feedback_pending := False\<rparr>)
     else (null_handle, s))"

definition detach_handle :: "handle \<Rightarrow> controller_slot \<Rightarrow> controller_slot"
  where "detach_handle h s = (if h \<noteq> null_handle then s\<lparr>cs_vhf := null_handle\<rparr> else s)"

definition lose_slot :: "handle \<Rightarrow> controller_slot \<Rightarrow> controller_slot"
  where "lose_slot h s =
    (if h \<noteq> null_handle \<and> cs_state s = Slot_Stopping
     then (reset_slot s)\<lparr>cs_owner := cs_owner s, cs_profile := cs_profile s,
       cs_state := Slot_Lost\<rparr>
     else s)"

definition power_down_controllers :: "device_context \<Rightarrow> device_context"
  where "power_down_controllers ctx =
    (let ctx = ctx\<lparr>dc_powered := False\<rparr>;
         ctx = ctx\<lparr>dc_sc26_timer_running := False\<rparr>;
         handles = map (fst \<circ> power_down_slot) (dc_controllers ctx);
         ctx = ctx\<lparr>dc_controllers := map (snd \<circ> power_down_slot) (dc_controllers ctx)\<rparr>;
         ctx = ctx\<lparr>dc_controllers := map2 detach_handle handles (dc_controllers ctx)\<rparr>;
         ctx = stop_timers ctx;
         ctx = foldl (\<lambda>ctx i. drain_and_delete id handles i ctx) ctx [0..<k_max_controllers]
     in ctx\<lparr>dc_controllers := map2 lose_slot handles (dc_controllers ctx)\<rparr>)"

definition evt_d0_entry :: "device_context \<Rightarrow> ntstatus \<times> device_context"
  where "evt_d0_entry ctx = (Status_Success, ctx\<lparr>dc_powered := True\<rparr>)"

definition evt_d0_exit :: "device_context \<Rightarrow> ntstatus \<times> device_context"
  where "evt_d0_exit ctx = (Status_Success, power_down_controllers ctx)"

definition evt_prepare_hardware :: "os_env \<Rightarrow> device_context \<Rightarrow> ntstatus \<times> device_context"
  where "evt_prepare_hardware os ctx =
    (Status_Success, snd (ensure_vhf_target_open os (ctx\<lparr>dc_stopping := False\<rparr>)))"

definition evt_release_hardware :: "device_context \<Rightarrow> ntstatus \<times> device_context"
  where "evt_release_hardware ctx =
    (Status_Success, (stop_owned_controllers False ctx)\<lparr>dc_vhf_target_open := False\<rparr>)"

definition evt_vhf_target_cleanup :: "device_context \<Rightarrow> device_context"
  where "evt_vhf_target_cleanup ctx = stop_owned_controllers True ctx"

definition evt_device_cleanup :: "device_context \<Rightarrow> device_context"
  where "evt_device_cleanup ctx = (stop_sc26_keepalive ctx)
    \<lparr>dc_sc26_keepalive_timer := False, dc_sc26_keepalive_stop := False\<rparr>"

text \<open>The context \<^theory_text>\<open>evt_device_add\<close> leaves, by which of its optional
  timers Windows could create.\<close>

definition initial_context :: "bool \<Rightarrow> bool \<Rightarrow> bool \<Rightarrow> bool \<Rightarrow> device_context"
  where "initial_context pid_timer stop_event high_resolution plain_timer =
    \<lparr>dc_local_vhf_target = True, dc_vhf_file_handle = null_handle, dc_vhf_target_open = False,
     dc_stopping = False, dc_powered = False, dc_pid_timer = pid_timer,
     dc_pid_timer_armed = False,
     dc_sc26_keepalive_timer = ((high_resolution \<or> plain_timer) \<and> stop_event),
     dc_sc26_keepalive_stop = stop_event, dc_sc26_keepalive_thread = False,
     dc_sc26_timer_running = False, dc_sc26_timer_parked = False, dc_sc26_due = None,
     dc_controllers = map (\<lambda>i. zero_slot\<lparr>cs_controller_id := of_nat i\<rparr>) [0..<k_max_controllers],
     dc_log = []\<rparr>"

end
