(* ===== verification/DriverControl.thy ===== *)
theory DriverControl
  imports DriverLifecycle
begin

text \<open>
  The control interface of \<^theory_text>\<open>driver.cpp\<close>: the queries, the
  feedback poll, and \<^theory_text>\<open>evt_io_device_control\<close>, which reads a packed
  request out of the caller's buffer and dispatches it.
\<close>

section \<open>Queries\<close>

definition feedback_counters_of :: "controller_slot \<Rightarrow> feedback_counters"
  where "feedback_counters_of s = \<lparr>fc_haptic_evicted = saturate_counter (cs_haptic_evicted s),
    fc_settings_evicted = saturate_counter (cs_settings_evicted s),
    fc_transitions_dropped = saturate_counter (dropped (cs_pump s)),
    fc_unknown_commands = saturate_counter (fs_unknown_commands (sc_features (cs_sc26 s)))\<rparr>"

definition zero_counters :: feedback_counters
  where "zero_counters = \<lparr>fc_haptic_evicted = 0, fc_settings_evicted = 0,
    fc_transitions_dropped = 0, fc_unknown_commands = 0\<rparr>"

definition fill_query_info :: query_info_response
  where "fill_query_info = \<lparr>
    qi_header = \<lparr>rh_size = 28, rh_version = k_protocol_version, rh_reserved = 0\<rparr>,
    qi_minimum_version = k_protocol_version, qi_maximum_version = k_protocol_version,
    qi_available_profiles = available_profiles,
    qi_available_features = feature_input_state OR feature_feedback OR feature_touch OR
      feature_motion OR feature_battery OR feature_hid_feature_reports,
    qi_maximum_controllers = of_nat k_max_controllers, qi_counters = zero_counters\<rparr>"

definition query_controller_info ::
  "handle \<Rightarrow> controller_id_request \<Rightarrow> device_context \<Rightarrow> ntstatus \<times> query_info_response option"
  where "query_controller_info owner request ctx =
    (if unat (ci_controller_id request) \<ge> k_max_controllers then (Status_Invalid_Parameter, None)
     else
       let s = slot_at (unat (ci_controller_id request)) ctx
       in if cs_state s = Slot_Empty then (Status_Not_Found, Some fill_query_info)
          else if \<not> is_owned_by s owner then (Status_Access_Denied, Some fill_query_info)
          else (Status_Success, Some (fill_query_info\<lparr>qi_counters := feedback_counters_of s\<rparr>)))"

definition set_steam_controller_attributes ::
  "handle \<Rightarrow> steam_controller_attributes_request \<Rightarrow> device_context \<Rightarrow> ntstatus \<times> device_context"
  where "set_steam_controller_attributes owner request ctx =
    (if unat (sa_controller_id request) \<ge> k_max_controllers then (Status_Invalid_Parameter, ctx)
     else
       let i = unat (sa_controller_id request); s = slot_at i ctx
       in if cs_state s = Slot_Empty then (Status_Not_Found, ctx)
          else if \<not> is_owned_by s owner then (Status_Access_Denied, ctx)
          else if \<not> is_steam_controller (cs_profile s) then (Status_Not_Supported, ctx)
          else (Status_Success, on_slot i (\<lambda>s. s\<lparr>cs_sc26 :=
            snd (apply_sc26_attributes request (cs_sc26 s))\<rparr>) ctx))"

section \<open>Feedback\<close>

definition poll_slot :: "controller_slot \<Rightarrow> feedback_event option \<times> controller_slot"
  where "poll_slot s =
    (case ring_poll k_settings_queue_capacity (cs_settings s) of
       (Some e, r) \<Rightarrow> (Some e, s\<lparr>cs_settings := r\<rparr>)
     | (None, _) \<Rightarrow>
        (case ring_poll k_haptic_queue_capacity (cs_haptics s) of
           (Some e, r) \<Rightarrow> (Some e, s\<lparr>cs_haptics := r\<rparr>)
         | (None, _) \<Rightarrow>
            if \<not> cs_feedback_pending s then (None, s)
            else (Some (cs_feedback s), s\<lparr>cs_feedback_pending := False\<rparr>)))"

definition poll_feedback ::
  "handle \<Rightarrow> controller_id_request \<Rightarrow> device_context \<Rightarrow>
   ntstatus \<times> feedback_event option \<times> device_context"
  where "poll_feedback owner request ctx =
    (if unat (ci_controller_id request) \<ge> k_max_controllers
     then (Status_Invalid_Parameter, None, ctx)
     else
       let i = unat (ci_controller_id request); s = slot_at i ctx
       in if cs_state s = Slot_Empty then (Status_Not_Found, None, ctx)
          else if \<not> is_owned_by s owner then (Status_Access_Denied, None, ctx)
          else if cs_state s \<noteq> Slot_Active then (inactive_controller_status s owner, None, ctx)
          else case poll_slot s of
              (None, _) \<Rightarrow> (Status_No_More_Entries, None, ctx)
            | (Some e, s) \<Rightarrow> (Status_Success, Some e, on_slot i (\<lambda>_. s) ctx))"

section \<open>Requests in the caller's buffer\<close>

definition u32_at :: "byte list \<Rightarrow> nat \<Rightarrow> u32"
  where "u32_at b k = le32_of (b ! k) (b ! (k + 1)) (b ! (k + 2)) (b ! (k + 3))"

definition header_at :: "byte list \<Rightarrow> request_header"
  where "header_at b = \<lparr>rh_size = u32_at b 0, rh_version = read_u16 b 4, rh_reserved = read_u16 b 6\<rparr>"

definition parse_create :: "byte list \<Rightarrow> create_controller_request"
  where "parse_create b = \<lparr>cc_header = header_at b, cc_controller_id = u32_at b 8,
    cc_profile = read_u16 b 12, cc_reserved = read_u16 b 14\<rparr>"

definition parse_controller_id :: "byte list \<Rightarrow> controller_id_request"
  where "parse_controller_id b = \<lparr>ci_header = header_at b, ci_controller_id = u32_at b 8\<rparr>"

definition parse_input :: "byte list \<Rightarrow> input_state_request"
  where "parse_input b = \<lparr>is_header = header_at b, is_controller_id = u32_at b 8,
    is_buttons = u32_at b 12, is_left_x = sint (read_u16 b 16), is_left_y = sint (read_u16 b 18),
    is_right_x = sint (read_u16 b 20), is_right_y = sint (read_u16 b 22),
    is_left_trigger = b ! 24, is_right_trigger = b ! 25, is_reserved = read_u16 b 26\<rparr>"

definition parse_touch :: "byte list \<Rightarrow> touch_state_request"
  where "parse_touch b = \<lparr>ts_header = header_at b, ts_controller_id = u32_at b 8,
    ts_contact_index = b ! 12, ts_event_type = b ! 13, ts_x = read_u16 b 14, ts_y = read_u16 b 16,
    ts_pressure = read_u16 b 18, ts_reserved = read_u16 b 20\<rparr>"

definition parse_motion :: "byte list \<Rightarrow> motion_state_request"
  where "parse_motion b = \<lparr>ms_header = header_at b, ms_controller_id = u32_at b 8,
    ms_motion_type = b ! 12, ms_reserved0 = take 3 (drop 13 b), ms_x_milli = sint (u32_at b 16),
    ms_y_milli = sint (u32_at b 20), ms_z_milli = sint (u32_at b 24)\<rparr>"

definition parse_battery :: "byte list \<Rightarrow> battery_state_request"
  where "parse_battery b = \<lparr>bs_header = header_at b, bs_controller_id = u32_at b 8,
    bs_percent = b ! 12, bs_flags = b ! 13, bs_reserved = read_u16 b 14\<rparr>"

definition parse_attributes :: "byte list \<Rightarrow> steam_controller_attributes_request"
  where "parse_attributes b = \<lparr>sa_header = header_at b, sa_controller_id = u32_at b 8,
    sa_flags = u32_at b 12, sa_firmware_build_time = u32_at b 16,
    sa_bootloader_build_time = u32_at b 20, sa_board_revision = u32_at b 24,
    sa_capabilities = u32_at b 28, sa_build_id = take 16 (drop 32 b),
    sa_unit_serial = take 16 (drop 48 b), sa_board_serial = take 16 (drop 64 b)\<rparr>"

text \<open>\<^theory_text>\<open>retrieve_request\<close>: the framework refuses a buffer shorter than the
  header; the header must then name exactly the buffer's length and the request's size.\<close>

definition retrieve_input :: "nat \<Rightarrow> byte list \<Rightarrow> ntstatus"
  where "retrieve_input minimum b =
    (if length b < minimum then Status_Buffer_Too_Small else Status_Success)"

definition retrieve_request :: "nat \<Rightarrow> byte list \<Rightarrow> ntstatus"
  where "retrieve_request sz b =
    (if \<not> nt_success (retrieve_input 8 b) then retrieve_input 8 b
     else if \<not> valid_header sz (length b) (header_at b) then Status_Invalid_Buffer_Size
     else Status_Success)"

section \<open>Dispatch\<close>

datatype ioctl_output = Out_None | Out_Query query_info_response | Out_Event feedback_event

definition control_query ::
  "handle \<Rightarrow> byte list \<Rightarrow> nat \<Rightarrow> device_context \<Rightarrow> ntstatus \<times> nat \<times> ioctl_output"
  where "control_query owner b output_length ctx =
    (if \<not> nt_success (retrieve_input 8 b) then (retrieve_input 8 b, 0, Out_None)
     else
       let device = valid_header 8 (length b) (header_at b);
           per_controller = (\<not> device \<and> valid_header 12 (length b) (header_at b))
       in if \<not> device \<and> \<not> per_controller then (Status_Invalid_Buffer_Size, 0, Out_None)
          else if output_length < 28 then (Status_Buffer_Too_Small, 0, Out_None)
          else if per_controller then
            case query_controller_info owner (parse_controller_id b) ctx of
              (status, out) \<Rightarrow> (status, if nt_success status then 28 else 0,
                case out of None \<Rightarrow> Out_None | Some q \<Rightarrow> Out_Query q)
          else (Status_Success, 28, Out_Query fill_query_info))"

definition control_poll ::
  "handle \<Rightarrow> byte list \<Rightarrow> nat \<Rightarrow> device_context \<Rightarrow>
   (ntstatus \<times> nat \<times> ioctl_output) \<times> device_context"
  where "control_poll owner b output_length ctx =
    (let status = retrieve_request 12 b
     in if \<not> nt_success status then ((status, 0, Out_None), ctx)
        else if output_length < 48 then ((Status_Buffer_Too_Small, 0, Out_None), ctx)
        else case poll_feedback owner (parse_controller_id b) ctx of
          (status, e, ctx) \<Rightarrow> ((status, if nt_success status then 48 else 0,
            case e of None \<Rightarrow> Out_None | Some e \<Rightarrow> Out_Event e), ctx))"

text \<open>The requests that answer with a status alone: their size, the check of the reserved
  fields, and the operation.\<close>

definition plain_request ::
  "os_env \<Rightarrow> handle \<Rightarrow> ioctl \<Rightarrow> byte list \<Rightarrow> device_context \<Rightarrow> ntstatus \<times> device_context"
  where "plain_request os owner code b ctx =
    (let run = (\<lambda>sz reserved_ok f.
        let status = retrieve_request sz b
        in if \<not> nt_success status then (status, ctx)
           else if \<not> reserved_ok then (Status_Invalid_Parameter, ctx) else f ctx)
     in case code of
       Ioctl_Create_Controller \<Rightarrow> run 16 True (create_controller os owner (parse_create b))
     | Ioctl_Destroy_Controller \<Rightarrow> run 12 True (destroy_controller owner (parse_controller_id b))
     | Ioctl_Submit_Input_State \<Rightarrow> run 28 True (submit_input_state os owner (parse_input b))
     | Ioctl_Submit_Touch_State \<Rightarrow>
         run 22 (ts_reserved (parse_touch b) = 0) (submit_touch_state os owner (parse_touch b))
     | Ioctl_Submit_Motion_State \<Rightarrow>
         run 28 (list_all (\<lambda>r. r = 0) (ms_reserved0 (parse_motion b)))
           (submit_motion_state os owner (parse_motion b))
     | Ioctl_Submit_Battery_State \<Rightarrow>
         run 16 (bs_reserved (parse_battery b) = 0)
           (submit_battery_state os owner (parse_battery b))
     | Ioctl_Set_Steam_Attributes \<Rightarrow>
         run 80 True (set_steam_controller_attributes owner (parse_attributes b))
     | _ \<Rightarrow> (Status_Invalid_Device_Request, ctx))"

definition ioctl_of :: "u32 \<Rightarrow> ioctl option"
  where "ioctl_of code = List.find (\<lambda>i. ioctl_code i = code)
    [Ioctl_Query_Info, Ioctl_Create_Controller, Ioctl_Destroy_Controller,
     Ioctl_Submit_Input_State, Ioctl_Poll_Feedback, Ioctl_Submit_Touch_State,
     Ioctl_Submit_Motion_State, Ioctl_Submit_Battery_State, Ioctl_Set_Steam_Attributes]"

text \<open>The answer: a status, the bytes of output reported, and what was written to the
  output buffer.\<close>

definition evt_io_device_control ::
  "os_env \<Rightarrow> handle \<Rightarrow> u32 \<Rightarrow> byte list \<Rightarrow> nat \<Rightarrow> device_context \<Rightarrow>
   (ntstatus \<times> nat \<times> ioctl_output) \<times> device_context"
  where "evt_io_device_control os owner code b output_length ctx =
    (if owner = null_handle then ((Status_Invalid_Handle, 0, Out_None), ctx)
     else case ioctl_of code of
        None \<Rightarrow> ((Status_Invalid_Device_Request, 0, Out_None), ctx)
      | Some Ioctl_Query_Info \<Rightarrow> (control_query owner b output_length ctx, ctx)
      | Some Ioctl_Poll_Feedback \<Rightarrow> control_poll owner b output_length ctx
      | Some request \<Rightarrow>
          (case plain_request os owner request b ctx of
             (status, ctx) \<Rightarrow> ((status, 0, Out_None), ctx)))"

end
