(* ===== verification/DriverHost.thy ===== *)
theory DriverHost
  imports DriverControl
begin

text \<open>
  What the virtual HID framework asks of a controller (\<^theory_text>\<open>driver.cpp\<close>):
  output reports, feature reports, input-report requests, and the force-feedback
  timer. Each operation completes with the status returned here.
\<close>

section \<open>Rumble and output reports\<close>

definition post_feedback :: "feedback_event \<Rightarrow> controller_slot \<Rightarrow> controller_slot"
  where "post_feedback e s = s\<lparr>cs_feedback := e, cs_feedback_pending := True\<rparr>"

definition publish_pid_rumble :: "controller_slot \<Rightarrow> controller_slot"
  where "publish_pid_rumble s =
    (let r = rumble (cs_pid s)
     in if cs_pid_rumble_valid s \<and> low_frequency r = low_frequency (cs_pid_rumble s) \<and>
          high_frequency r = high_frequency (cs_pid_rumble s) then s
        else post_feedback (make_event (cs_controller_id s) FB_Generic_Rumble
          (generic_rumble_bytes \<lparr>gr_low_frequency = low_frequency r,
            gr_high_frequency = high_frequency r, gr_red = 0, gr_green = 0, gr_blue = 0,
            gr_reserved = 0\<rparr>))
          (s\<lparr>cs_pid_rumble := r, cs_pid_rumble_valid := True\<rparr>))"

definition apply_xbox_output :: "hid_transfer \<Rightarrow> controller_slot \<Rightarrow> ntstatus \<times> controller_slot"
  where "apply_xbox_output transfer s =
    (case xf_buffer transfer of
       None \<Rightarrow> (Status_Invalid_Device_Request, s)
     | Some b \<Rightarrow>
        if xf_report_id transfer \<noteq> k_xbox_series_output_report_id \<or> length b < 9
        then (Status_Invalid_Device_Request, s)
        else case decode_xbox_series_output (xbox_output_of_bytes b) of
            None \<Rightarrow> (Status_Invalid_Parameter, s)
          | Some r \<Rightarrow> (Status_Success,
              post_feedback (encode_xbox_series_feedback (cs_controller_id s) r) s))"

text \<open>The decoded report of a PlayStation write, folded into the accumulated feedback; a
  \<^theory_text>\<open>0x31\<close> report carries the common payload behind three bytes.\<close>

definition decode_playstation_output :: "hid_transfer \<Rightarrow> controller_slot \<Rightarrow> playstation_output_feedback option"
  where "decode_playstation_output transfer s =
    (case xf_buffer transfer of
       None \<Rightarrow> None
     | Some b \<Rightarrow>
        if cs_profile s = Some Dualshock_4 then
          if length b \<ge> 32 then apply_ds4_output (ds4_output_of_bytes b) (cs_playstation_feedback s)
          else None
        else if length b = 0 then None
        else if b ! 0 = 0x02 \<and> length b \<ge> 48
          then apply_ds5_output (ds5_output_of_bytes b) (cs_playstation_feedback s)
        else if b ! 0 = 0x31 \<and> length b \<ge> 3 + 48 - 1
          then apply_ds5_output (ds5_output_of_bytes (0x02 # take 47 (drop 3 b)))
            (cs_playstation_feedback s)
        else None)"

definition write_playstation ::
  "hid_transfer \<Rightarrow> nat \<Rightarrow> device_context \<Rightarrow> ntstatus \<times> device_context"
  where "write_playstation transfer i ctx =
    (let s = slot_at i ctx
     in if \<not> accepts_vhf_callbacks ctx s then (Status_Device_Not_Ready, ctx)
        else case decode_playstation_output transfer s of
            None \<Rightarrow> (Status_Invalid_Parameter, ctx)
          | Some f \<Rightarrow> (Status_Success, on_slot i (\<lambda>s. post_feedback
              (encode_playstation_feedback (cs_controller_id s) f)
              (s\<lparr>cs_playstation_feedback := f\<rparr>)) ctx))"

definition write_steam ::
  "os_env \<Rightarrow> hid_transfer \<Rightarrow> nat \<Rightarrow> device_context \<Rightarrow> ntstatus \<times> device_context"
  where "write_steam os transfer i ctx =
    (let s = slot_at i ctx
     in if \<not> accepts_vhf_callbacks ctx s then (Status_Device_Not_Ready, ctx)
        else case apply_sc26_output (xf_buffer transfer) (cs_controller_id s) of
            Some e \<Rightarrow>
              let (queued, q, evicted) = enqueue_haptic k_haptic_queue_capacity (cs_haptics s) e
                    (cs_haptic_evicted s);
                  ctx = on_slot i (\<lambda>s. s\<lparr>cs_haptics := q, cs_haptic_evicted := evicted\<rparr>) ctx;
                  (ack_size, ack) = encode_haptic_ack (xf_buffer transfer) (Some (replicate 6 0));
                  vhf = cs_vhf (slot_at i ctx)
              in if ack_size \<noteq> 0 \<and> vhf \<noteq> null_handle
                 then (Status_Success,
                   snd (pump_report os (os_clock os) i (map_option (take ack_size) ack) 0x44 Aside ctx))
                 else (Status_Success, ctx)
          | None \<Rightarrow>
              (case xf_buffer transfer of
                 Some (b # _) \<Rightarrow>
                   if b > 0x85 \<and> is_output_report b then (Status_Success, ctx)
                   else (Status_Invalid_Parameter, ctx)
               | _ \<Rightarrow> (Status_Invalid_Parameter, ctx)))"

definition switch_replies ::
  "hid_transfer \<Rightarrow> controller_slot \<Rightarrow> bool \<times> controller_slot"
  where "switch_replies transfer s =
    (if xf_report_id transfer = k_switch_usb_command_id then
       case handle_switch_usb_command (xf_buffer transfer) (Some (cs_switch_pro s))
         (Some \<lparr>su_report_id = 0, su_subtype = 0, su_data = replicate 62 0\<rparr>) of
         (n, state, reply) \<Rightarrow>
           let s = s\<lparr>cs_switch_pro := the state\<rparr>
           in if n = 0 then (False, s)
              else let r = the reply;
                       (ok, pump) = enqueue (Some (su_report_id r # su_subtype r # su_data r)) 64
                         k_switch_usb_reply_id Priority (cs_pump s)
                   in (ok, s\<lparr>cs_pump := pump\<rparr>)
     else if xf_report_id transfer = k_switch_rumble_subcommand_id then
       case queue_switch_subcommand_reply (xf_buffer transfer) (cs_last_input s)
         (Some (cs_switch_pro s)) (cs_pump s) of
         (ok, state, pump) \<Rightarrow> (ok, s\<lparr>cs_switch_pro := the state, cs_pump := pump\<rparr>)
     else (False, s))"

definition write_switch ::
  "os_env \<Rightarrow> hid_transfer \<Rightarrow> nat \<Rightarrow> device_context \<Rightarrow> ntstatus \<times> device_context"
  where "write_switch os transfer i ctx =
    (let s = slot_at i ctx
     in if \<not> accepts_vhf_callbacks ctx s then (Status_Device_Not_Ready, ctx)
        else
          let s = (case decode_switch_rumble (xf_buffer transfer) of
                None \<Rightarrow> s
              | Some r \<Rightarrow> post_feedback (encode_playstation_feedback (cs_controller_id s) r) s);
              (queued_reply, s) = switch_replies transfer s;
              ctx = on_slot i (\<lambda>_. s) ctx
          in if queued_reply \<and> cs_vhf s \<noteq> null_handle
             then (Status_Success, snd (pump_report os (os_clock os) i None 0 Priority ctx))
             else (Status_Success, ctx))"

definition write_pid ::
  "hid_transfer \<Rightarrow> nat \<Rightarrow> device_context \<Rightarrow> ntstatus \<times> device_context"
  where "write_pid transfer i ctx =
    (let s = slot_at i ctx
     in if \<not> accepts_vhf_callbacks ctx s then (Status_Device_Not_Ready, ctx)
        else case apply_pid_output transfer (cs_pid s) of
          (status, e) \<Rightarrow>
            let s = s\<lparr>cs_pid := e\<rparr>;
                s' = (if nt_success status then publish_pid_rumble s else s);
                arm_tick = (nt_success status \<and> needs_tick e);
                ctx = on_slot i (\<lambda>_. s') ctx
            in (status, if arm_tick \<and> dc_pid_timer ctx then ctx\<lparr>dc_pid_timer_armed := True\<rparr> else ctx))"

definition generic_output_of_bytes :: "byte list \<Rightarrow> generic_output_report"
  where "generic_output_of_bytes b = \<lparr>go_report_id = b ! 0, go_low_frequency_rumble = b ! 1,
    go_high_frequency_rumble = b ! 2, go_red = b ! 3, go_green = b ! 4, go_blue = b ! 5\<rparr>"

definition write_generic ::
  "hid_transfer \<Rightarrow> nat \<Rightarrow> device_context \<Rightarrow> ntstatus \<times> device_context"
  where "write_generic transfer i ctx =
    (case xf_buffer transfer of
       None \<Rightarrow> (Status_Invalid_Device_Request, ctx)
     | Some b \<Rightarrow>
        if xf_report_id transfer \<noteq> k_generic_output_report_id \<or> length b < 6
        then (Status_Invalid_Device_Request, ctx)
        else
          let out = generic_output_of_bytes b; s = slot_at i ctx
          in if go_report_id out \<noteq> k_generic_output_report_id then (Status_Invalid_Parameter, ctx)
             else if accepts_vhf_callbacks ctx s \<and>
               (cs_profile s = Some Generic_Hid \<or> cs_profile s = Some Generic_Pid)
             then (Status_Success, on_slot i (\<lambda>s. post_feedback
               (encode_generic_feedback (cs_controller_id s) out) s) ctx)
             else (Status_Device_Not_Ready, ctx))"

definition evt_vhf_write_report ::
  "os_env \<Rightarrow> hid_transfer option \<Rightarrow> nat \<Rightarrow> device_context \<Rightarrow> ntstatus \<times> device_context"
  where "evt_vhf_write_report os packet i ctx =
    (case packet of
       None \<Rightarrow> (Status_Invalid_Device_Request, ctx)
     | Some transfer \<Rightarrow>
        let s = slot_at i ctx
        in if is_steam_controller (cs_profile s) then write_steam os transfer i ctx
           else if cs_profile s = Some Switch_Pro then write_switch os transfer i ctx
           else if is_playstation (cs_profile s) then write_playstation transfer i ctx
           else if is_xbox (cs_profile s) then
             if accepts_vhf_callbacks ctx s then
               case apply_xbox_output transfer s of (status, s) \<Rightarrow> (status, on_slot i (\<lambda>_. s) ctx)
             else (Status_Device_Not_Ready, ctx)
           else if cs_force_feedback s \<and> xf_report_id transfer \<noteq> k_generic_output_report_id
             then write_pid transfer i ctx
           else write_generic transfer i ctx)"

section \<open>Feature reports\<close>

text \<open>A feature reply of the engine: the bytes in front of the caller's buffer.\<close>

definition pid_feature_bytes :: "byte \<Rightarrow> pid_engine \<Rightarrow> byte list option"
  where "pid_feature_bytes report_id e =
    (if report_id = k_pid_block_load_report_id then Some (block_load_bytes (block_load e))
     else if report_id = k_pid_pool_report_id then Some (pool_bytes (pool e))
     else if report_id = k_pid_state_report_id then Some (pid_state_bytes (pid_state e))
     else None)"

definition answer_pid_feature :: "byte \<Rightarrow> byte list \<Rightarrow> pid_engine \<Rightarrow> ntstatus \<times> byte list"
  where "answer_pid_feature report_id buffer e =
    (case pid_feature_bytes report_id e of
       None \<Rightarrow> (Status_Invalid_Device_Request, buffer)
     | Some r \<Rightarrow>
        if length buffer \<ge> length r then (Status_Success, overwrite 0 r buffer)
        else (Status_Buffer_Too_Small, buffer))"

definition evt_vhf_get_feature ::
  "hid_transfer option \<Rightarrow> nat \<Rightarrow> device_context \<Rightarrow> ntstatus \<times> byte list option"
  where "evt_vhf_get_feature packet i ctx =
    (case packet of
       None \<Rightarrow> (Status_Invalid_Device_Request, None)
     | Some transfer \<Rightarrow>
        (let s = slot_at i ctx; buffer = xf_buffer transfer; report_id = xf_report_id transfer
         in if buffer = None then (Status_Invalid_Device_Request, None)
            else if is_steam_controller (cs_profile s) then
              if \<not> accepts_vhf_callbacks ctx s then (Status_Device_Not_Ready, buffer)
              else case fill_sc26_feature report_id buffer (cs_sc26 s) of
                (written, buffer) \<Rightarrow>
                  (if written \<noteq> 0 then Status_Success
                   else if report_id = features_report_id then Status_Buffer_Too_Small
                   else Status_Invalid_Device_Request, buffer)
            else if is_playstation (cs_profile s) then
              if \<not> accepts_vhf_callbacks ctx s then (Status_Device_Not_Ready, buffer)
              else case (if cs_profile s = Some Dualshock_4
                         then ds4_get_feature report_id buffer (ds4_features (cs_ds4 s))
                         else ds5_get_feature report_id buffer (ds5_features (cs_ds5 s))) of
                (written, buffer) \<Rightarrow>
                  (if written \<noteq> 0 then Status_Success else Status_Invalid_Device_Request, buffer)
            else if cs_force_feedback s then
              if \<not> accepts_vhf_callbacks ctx s then (Status_Device_Not_Ready, buffer)
              else case answer_pid_feature report_id (the buffer) (cs_pid s) of
                (status, b) \<Rightarrow> (status, Some b)
            else (Status_Invalid_Device_Request, buffer)))"

definition forward_settings :: "feedback_event list \<Rightarrow> controller_slot \<Rightarrow> controller_slot"
  where "forward_settings events s = foldl (\<lambda>s e.
      case enqueue_settings k_settings_queue_capacity (cs_settings s) e (cs_settings_evicted s) of
        (q, evicted) \<Rightarrow> s\<lparr>cs_settings := q, cs_settings_evicted := evicted\<rparr>) s events"

definition set_feature_steam :: "hid_transfer \<Rightarrow> controller_slot \<Rightarrow> ntstatus \<times> controller_slot"
  where "set_feature_steam transfer s =
    (let (accepted, state) = set_sc26_feature (xf_report_id transfer) (xf_buffer transfer) (cs_sc26 s);
         s = s\<lparr>cs_sc26 := state\<rparr>
     in (if accepted then Status_Success else Status_Invalid_Parameter,
         if accepted \<and> xf_report_id transfer = features_report_id
         then forward_settings (apply_sc26_settings (xf_buffer transfer) (cs_controller_id s)
                k_settings_events_per_write) s
         else s))"

definition set_feature_playstation :: "hid_transfer \<Rightarrow> controller_slot \<Rightarrow> ntstatus \<times> controller_slot"
  where "set_feature_playstation transfer s =
    (if cs_profile s = Some Dualshock_4 then
       case ds4_set_feature (xf_report_id transfer) (xf_buffer transfer) (ds4_features (cs_ds4 s)) of
         (ok, f) \<Rightarrow> (if ok then Status_Success else Status_Invalid_Device_Request,
                      s\<lparr>cs_ds4 := (cs_ds4 s)\<lparr>ds4_features := f\<rparr>\<rparr>)
     else
       case ds5_set_feature (xf_report_id transfer) (xf_buffer transfer) (ds5_features (cs_ds5 s)) of
         (ok, f) \<Rightarrow> (if ok then Status_Success else Status_Invalid_Device_Request,
                      s\<lparr>cs_ds5 := (cs_ds5 s)\<lparr>ds5_features := f\<rparr>\<rparr>))"

definition evt_vhf_set_feature ::
  "hid_transfer option \<Rightarrow> nat \<Rightarrow> device_context \<Rightarrow> ntstatus \<times> device_context"
  where "evt_vhf_set_feature packet i ctx =
    (case packet of
       None \<Rightarrow> (Status_Invalid_Device_Request, ctx)
     | Some transfer \<Rightarrow>
        (let s = slot_at i ctx;
             gated = (\<lambda>f. if \<not> accepts_vhf_callbacks ctx s then (Status_Device_Not_Ready, ctx)
               else case f s of (status, s) \<Rightarrow> (status, on_slot i (\<lambda>_. s) ctx))
         in if is_steam_controller (cs_profile s) then gated (set_feature_steam transfer)
            else if is_playstation (cs_profile s) then gated (set_feature_playstation transfer)
            else if cs_force_feedback s \<and> xf_report_id transfer = 0x1B then
              case read_pid_report 4 transfer of
                None \<Rightarrow> (Status_Invalid_Parameter, ctx)
              | Some b \<Rightarrow> gated (\<lambda>s. (Status_Success,
                  s\<lparr>cs_pid := snd (create_new_effect (parse_create_new_effect b) (cs_pid s))\<rparr>))
            else (Status_Invalid_Device_Request, ctx)))"

section \<open>The force-feedback timer\<close>

definition tick_slot :: "controller_slot \<Rightarrow> controller_slot"
  where "tick_slot s =
    (if cs_state s \<noteq> Slot_Active \<or> \<not> cs_force_feedback s then s
     else publish_pid_rumble (s\<lparr>cs_pid := pid_advance k_pid_tick_ms (cs_pid s)\<rparr>))"

definition slot_playing :: "controller_slot \<Rightarrow> bool"
  where "slot_playing s \<longleftrightarrow> cs_state s = Slot_Active \<and> cs_force_feedback s \<and> needs_tick (cs_pid s)"

text \<open>One expiry of the periodic timer. Between its two lock sections a write callback
  may start an effect; \<open>meanwhile\<close> is what such callbacks did.\<close>

definition evt_pid_tick ::
  "(device_context \<Rightarrow> device_context) \<Rightarrow> device_context \<Rightarrow> device_context"
  where "evt_pid_tick meanwhile ctx =
    (let ctx = ctx\<lparr>dc_controllers := map tick_slot (dc_controllers ctx)\<rparr>;
         still_playing = list_ex slot_playing (dc_controllers ctx);
         stopping = dc_stopping ctx
     in if still_playing \<and> \<not> stopping then ctx
        else
          let ctx = (meanwhile ctx)\<lparr>dc_pid_timer_armed := False\<rparr>
          in if stopping then ctx
             else if list_ex slot_playing (dc_controllers ctx)
             then ctx\<lparr>dc_pid_timer_armed := True\<rparr> else ctx)"

section \<open>Requests for the current input report\<close>

definition current_report ::
  "(nat \<Rightarrow> u64) \<Rightarrow> byte \<Rightarrow> controller_slot \<Rightarrow> byte list \<times> byte \<times> controller_slot"
  where "current_report clk wanted s =
    (let input = cs_last_input s
     in case cs_profile s of
       Some Dualshock_4 \<Rightarrow> encode_playstation (clk 0) input s
     | Some Dualsense \<Rightarrow> encode_playstation (clk 0) input s
     | Some Switch_Pro \<Rightarrow>
         (case encode_switch input s of (b, s) \<Rightarrow> (b, k_switch_input_report_id, s))
     | Some Xbox_Series \<Rightarrow> (xbox_input_bytes input s, k_xbox_series_input_report_id, s)
     | Some Xbox_One \<Rightarrow> (xbox_input_bytes input s, k_xbox_series_input_report_id, s)
     | Some Steam_Controller \<Rightarrow>
         if wanted = k_sc26_battery_report_id
         then (sc26_battery_bytes (encode_sc26_battery (cs_sc26 s)), k_sc26_battery_report_id, s)
         else (case encode_steam (clk 0) input s of
           (r, s) \<Rightarrow> ((sc26_input_bytes r)[1 := cs_sc26_wire_sequence s], k_sc26_input_report_id, s))
     | _ \<Rightarrow> (generic_input_bytes (encode_generic_input input), k_generic_input_report_id, s))"

definition evt_vhf_get_input_report ::
  "os_env \<Rightarrow> hid_transfer option \<Rightarrow> nat \<Rightarrow> device_context \<Rightarrow>
   ntstatus \<times> byte list option \<times> device_context"
  where "evt_vhf_get_input_report os packet i ctx =
    (case packet of
       None \<Rightarrow> (Status_Invalid_Device_Request, None, ctx)
     | Some transfer \<Rightarrow>
        (case xf_buffer transfer of
           None \<Rightarrow> (Status_Invalid_Device_Request, None, ctx)
         | Some buffer \<Rightarrow>
            if \<not> accepts_vhf_callbacks ctx (slot_at i ctx)
            then (Status_Device_Not_Ready, Some buffer, ctx)
            else
              let (b, report_id, s) = current_report (os_clock os) (xf_report_id transfer)
                    (slot_at i ctx);
                  ctx = on_slot i (\<lambda>_. s) ctx
              in if xf_report_id transfer \<noteq> 0 \<and> xf_report_id transfer \<noteq> report_id
                 then (Status_Invalid_Device_Request, Some buffer, ctx)
                 else if length buffer < length b then (Status_Buffer_Too_Small, Some buffer, ctx)
                 else (Status_Success, Some (overwrite 0 b buffer), ctx)))"

end
