(* ===== verification/DriverFrame.thy ===== *)
theory DriverFrame
  imports DriverHost
begin

text \<open>
  What the operations of the driver leave alone. A report going out, a callback
  of the framework or a tick of a timer is \<^emph>\<open>quiet\<close>: it keeps the identity of
  every slot (state, handle, owner, profile, generation) and the flags of the
  device, and asks nothing of the framework but to submit a report on a handle
  some slot holds. An operation on one controller leaves the other slots as they are.
\<close>

section \<open>Slot identity\<close>

definition slot_identity ::
  "controller_slot \<Rightarrow> slot_state \<times> handle \<times> handle \<times> u32 \<times> u64 \<times> profile option \<times> bool"
  where "slot_identity s = (cs_state s, cs_vhf s, cs_owner s, cs_controller_id s, cs_generation s,
    cs_profile s, cs_force_feedback s)"

lemma slot_identity_fields:
  "slot_identity s = slot_identity t \<longleftrightarrow> cs_state s = cs_state t \<and> cs_vhf s = cs_vhf t \<and>
    cs_owner s = cs_owner t \<and> cs_controller_id s = cs_controller_id t \<and>
    cs_generation s = cs_generation t \<and> cs_profile s = cs_profile t \<and>
    cs_force_feedback s = cs_force_feedback t"
  by (auto simp: slot_identity_def)

definition device_flags :: "device_context \<Rightarrow> bool \<times> handle \<times> bool \<times> bool \<times> bool \<times> bool \<times> bool \<times> bool"
  where "device_flags ctx = (dc_local_vhf_target ctx, dc_vhf_file_handle ctx, dc_vhf_target_open ctx,
    dc_stopping ctx, dc_powered ctx, dc_pid_timer ctx, dc_sc26_keepalive_timer ctx,
    dc_sc26_keepalive_stop ctx)"

definition held_handles :: "device_context \<Rightarrow> handle set"
  where "held_handles ctx = {cs_vhf s | s. s \<in> set (dc_controllers ctx) \<and> cs_vhf s \<noteq> null_handle}"

fun submits_on :: "handle set \<Rightarrow> vhf_call \<Rightarrow> bool"
  where
    "submits_on hs (Vhf_Submit h p) = (h \<in> hs)"
  | "submits_on hs _ = False"

definition quiet :: "device_context \<Rightarrow> device_context \<Rightarrow> bool"
  where "quiet ctx ctx' \<longleftrightarrow>
    map slot_identity (dc_controllers ctx') = map slot_identity (dc_controllers ctx) \<and>
    device_flags ctx' = device_flags ctx \<and>
    (\<exists>calls. dc_log ctx' = dc_log ctx @ calls \<and> list_all (submits_on (held_handles ctx)) calls)"

lemma held_handles_identity:
  assumes "map slot_identity (dc_controllers ctx') = map slot_identity (dc_controllers ctx)"
  shows "held_handles ctx' = held_handles ctx"
proof -
  have "map cs_vhf (dc_controllers ctx') = map cs_vhf (dc_controllers ctx)"
  proof -
    have "map (fst \<circ> snd) (map slot_identity (dc_controllers ctx')) =
        map (fst \<circ> snd) (map slot_identity (dc_controllers ctx))"
      using assms by simp
    then show ?thesis by (simp add: slot_identity_def comp_def)
  qed
  then have "cs_vhf ` set (dc_controllers ctx') = cs_vhf ` set (dc_controllers ctx)"
    by (metis set_map)
  moreover have "held_handles c = cs_vhf ` set (dc_controllers c) - {null_handle}" for c
    by (auto simp: held_handles_def)
  ultimately show ?thesis by simp
qed

lemma quiet_refl [simp, intro]: "quiet ctx ctx"
  by (simp add: quiet_def)

lemma quiet_held: "quiet ctx ctx' \<Longrightarrow> held_handles ctx' = held_handles ctx"
  by (rule held_handles_identity) (simp add: quiet_def)

lemma quiet_trans:
  assumes "quiet a b" "quiet b c"
  shows "quiet a c"
proof -
  from assms obtain l m where
    "dc_log b = dc_log a @ l" "list_all (submits_on (held_handles a)) l"
    "dc_log c = dc_log b @ m" "list_all (submits_on (held_handles b)) m"
    unfolding quiet_def by blast
  with quiet_held [OF assms(1)] have "dc_log c = dc_log a @ (l @ m)"
    "list_all (submits_on (held_handles a)) (l @ m)" by simp_all
  then show ?thesis using assms unfolding quiet_def by (metis (no_types))
qed

lemma quiet_length: "quiet ctx ctx' \<Longrightarrow> length (dc_controllers ctx') = length (dc_controllers ctx)"
  unfolding quiet_def by (blast dest: map_eq_imp_length_eq)

lemma quiet_identity:
  assumes "quiet ctx ctx'" "i < length (dc_controllers ctx)"
  shows "slot_identity (slot_at i ctx') = slot_identity (slot_at i ctx)"
proof -
  have "map slot_identity (dc_controllers ctx') ! i = map slot_identity (dc_controllers ctx) ! i"
    using assms(1) by (simp add: quiet_def)
  then show ?thesis using assms quiet_length [OF assms(1)] by (simp add: slot_at_def)
qed

lemma quiet_accepts:
  "quiet ctx ctx' \<Longrightarrow> i < length (dc_controllers ctx) \<Longrightarrow>
    accepts_vhf_callbacks ctx' (slot_at i ctx') = accepts_vhf_callbacks ctx (slot_at i ctx)"
  using quiet_identity [of ctx ctx' i]
  by (auto simp: quiet_def device_flags_def slot_identity_fields accepts_vhf_callbacks_def)

lemma quiet_on_slot:
  assumes "i < length (dc_controllers ctx) \<Longrightarrow>
    slot_identity (f (slot_at i ctx)) = slot_identity (slot_at i ctx)"
  shows "quiet ctx (on_slot i f ctx)"
proof -
  have "map slot_identity ((dc_controllers ctx)[i := f (slot_at i ctx)]) =
      map slot_identity (dc_controllers ctx)"
  proof (cases "i < length (dc_controllers ctx)")
    case True
    with assms show ?thesis
      by (intro nth_equalityI) (auto simp: nth_list_update slot_at_def)
  next
    case False
    then show ?thesis by (simp add: list_update_beyond)
  qed
  then show ?thesis by (simp add: quiet_def on_slot_def device_flags_def)
qed

text \<open>Timer fields are no part of the identity of anything.\<close>

lemma quiet_timers [simp, intro]:
  "quiet ctx (ctx\<lparr>dc_sc26_timer_running := r\<rparr>)"
  "quiet ctx (ctx\<lparr>dc_sc26_timer_parked := p\<rparr>)"
  "quiet ctx (ctx\<lparr>dc_sc26_due := d\<rparr>)"
  "quiet ctx (ctx\<lparr>dc_sc26_timer_parked := p, dc_sc26_due := d\<rparr>)"
  "quiet ctx (ctx\<lparr>dc_sc26_timer_running := r, dc_sc26_timer_parked := p\<rparr>)"
  "quiet ctx (ctx\<lparr>dc_sc26_due := d, dc_sc26_timer_running := r\<rparr>)"
  "quiet ctx (ctx\<lparr>dc_sc26_due := d, dc_sc26_timer_running := r, dc_sc26_keepalive_thread := t\<rparr>)"
  "quiet ctx (ctx\<lparr>dc_sc26_keepalive_thread := t\<rparr>)"
  "quiet ctx (ctx\<lparr>dc_pid_timer_armed := a\<rparr>)"
  by (simp_all add: quiet_def device_flags_def)

lemma quiet_foldl:
  assumes "\<And>c x. quiet c (f c x)"
  shows "quiet ctx (foldl f ctx xs)"
proof (induction xs arbitrary: ctx)
  case (Cons x xs)
  show ?case using quiet_trans [OF assms [of ctx x] Cons.IH [of "f ctx x"]] by simp
qed simp

section \<open>Reports\<close>

lemma arm_quiet [simp, intro]: "quiet ctx (arm_sc26_keepalive now ctx)"
  by (simp add: arm_sc26_keepalive_def)

lemma stamp_identity [simp]:
  "slot_identity (fst (stamp_sc26_sequence s r)) = slot_identity s"
  by (simp add: stamp_sc26_sequence_def slot_identity_fields)

lemma mark_quiet: "quiet ctx (snd (mark_sc26_report_taken clk i report rearm ctx))"
proof -
  obtain s r where sr: "stamp_sc26_sequence (slot_at i ctx) report = (s, r)"
    by (cases "stamp_sc26_sequence (slot_at i ctx) report")
  have id: "slot_identity s = slot_identity (slot_at i ctx)"
    using stamp_identity [of "slot_at i ctx" report] sr by simp
  have a: "quiet ctx (on_slot i (\<lambda>_. s) ctx)"
    using id by (intro quiet_on_slot) simp
  have b: "quiet c (on_slot i (\<lambda>s. s\<lparr>cs_sc26 := f s\<rparr>) c)" for c f
    by (rule quiet_on_slot) (simp add: slot_identity_fields)
  have "quiet ctx (on_slot i (\<lambda>s. s\<lparr>cs_sc26 := f s\<rparr>) (on_slot i (\<lambda>_. s) ctx))" for f
    by (rule quiet_trans [OF a b])
  then show ?thesis
    using a sr by (simp add: mark_sc26_report_taken_def Let_def quiet_trans [OF _ arm_quiet])
qed

lemma take_report_quiet: "quiet ctx (snd (take_report clk i rearm ctx))"
proof -
  have p: "quiet c (on_slot i (\<lambda>s. s\<lparr>cs_pump := f s\<rparr>) c)" for c f
    by (rule quiet_on_slot) (simp add: slot_identity_fields)
  have q: "quiet c (on_slot i (\<lambda>s. s\<lparr>cs_pump := f s, cs_read_transfer := g s,
      cs_submits_in_flight := h s\<rparr>) c)" for c f g h
    by (rule quiet_on_slot) (simp add: slot_identity_fields)
  obtain t pump where t: "pump_take (cs_pump (slot_at i ctx)) = (t, pump)"
    by (cases "pump_take (cs_pump (slot_at i ctx))")
  show ?thesis
  proof (cases t)
    case None
    then show ?thesis using t p by (simp add: take_report_def)
  next
    case (Some taken)
    let ?c = "on_slot i (\<lambda>s. s\<lparr>cs_pump := pump\<rparr>) ctx"
    obtain r c where m: "mark_sc26_report_taken clk i taken rearm ?c = (r, c)"
      by (cases "mark_sc26_report_taken clk i taken rearm ?c")
    have "quiet ctx c" using quiet_trans [OF p mark_quiet [of ?c clk i taken rearm]] m by simp
    then have "quiet ctx (on_slot i (\<lambda>s. s\<lparr>cs_pump := f s, cs_read_transfer := g s,
      cs_submits_in_flight := h s\<rparr>) c)" for f g h
      by (rule quiet_trans [OF _ q])
    then show ?thesis using t Some m by (simp add: take_report_def Let_def)
  qed
qed

lemma take_report_handle:
  assumes "i < length (dc_controllers ctx)" "take_report clk i rearm ctx = (Some (r, h), ctx')"
  shows "h = cs_vhf (slot_at i ctx)"
proof -
  have q: "quiet ctx ctx'" using take_report_quiet [of ctx clk i rearm] assms(2) by simp
  have "cs_vhf (slot_at i ctx') = cs_vhf (slot_at i ctx)"
    using quiet_identity [OF q assms(1)] by (simp add: slot_identity_fields)
  moreover have "h = cs_vhf (slot_at i ctx')"
  proof -
    obtain t pump where t: "pump_take (cs_pump (slot_at i ctx)) = (t, pump)"
      by (cases "pump_take (cs_pump (slot_at i ctx))")
    from assms(2) t obtain taken where "t = Some taken"
      by (cases t) (simp_all add: take_report_def)
    moreover obtain r' c where "mark_sc26_report_taken clk i (the t) rearm
        (on_slot i (\<lambda>s. s\<lparr>cs_pump := pump\<rparr>) ctx) = (r', c)"
      by (cases "mark_sc26_report_taken clk i (the t) rearm
        (on_slot i (\<lambda>s. s\<lparr>cs_pump := pump\<rparr>) ctx)")
    ultimately show ?thesis using assms(2) t by (auto simp: take_report_def Let_def)
  qed
  ultimately show ?thesis by simp
qed

lemma pump_report_locked_quiet:
  "quiet ctx (snd (snd (pump_report_locked clk i dat report_id kind rearm ctx)))"
proof -
  have p: "quiet c (on_slot i (\<lambda>s. s\<lparr>cs_pump := f s\<rparr>) c)" for c f
    by (rule quiet_on_slot) (simp add: slot_identity_fields)
  let ?c = "case dat of None \<Rightarrow> ctx | Some b \<Rightarrow> on_slot i (\<lambda>s. s\<lparr>cs_pump :=
    snd (enqueue (Some b) (of_nat (length b)) report_id kind (cs_pump s))\<rparr>) ctx"
  have "quiet ctx ?c" using p by (cases dat) simp_all
  from quiet_trans [OF this take_report_quiet [of ?c clk i rearm]] show ?thesis
    by (simp add: pump_report_locked_def case_prod_beta Let_def)
qed

lemma pump_report_locked_handle:
  assumes "i < length (dc_controllers ctx)"
    "pump_report_locked clk i dat report_id kind rearm ctx = (status, Some (r, h), ctx')"
  shows "h = cs_vhf (slot_at i ctx) \<and> h \<in> held_handles ctx' \<and> accepts_vhf_callbacks ctx (slot_at i ctx)"
proof -
  let ?c = "case dat of None \<Rightarrow> ctx | Some b \<Rightarrow> on_slot i (\<lambda>s. s\<lparr>cs_pump :=
    snd (enqueue (Some b) (of_nat (length b)) report_id kind (cs_pump s))\<rparr>) ctx"
  have p: "quiet c (on_slot i (\<lambda>s. s\<lparr>cs_pump := f s\<rparr>) c)" for c f
    by (rule quiet_on_slot) (simp add: slot_identity_fields)
  have c: "quiet ctx ?c" using p by (cases dat) simp_all
  have acc: "accepts_vhf_callbacks ctx (slot_at i ctx)"
    using assms(2) by (cases "accepts_vhf_callbacks ctx (slot_at i ctx)") (simp_all add: pump_report_locked_def)
  obtain t ctx2 where "take_report clk i rearm ?c = (t, ctx2)"
    by (cases "take_report clk i rearm ?c")
  with assms(2) acc have t: "take_report clk i rearm ?c = (Some (r, h), ctx')"
    by (simp add: pump_report_locked_def)
  have "h = cs_vhf (slot_at i ?c)"
    using take_report_handle [OF _ t] quiet_length [OF c] assms(1) by simp
  then have h: "h = cs_vhf (slot_at i ctx)"
    using quiet_identity [OF c assms(1)] by (simp add: slot_identity_fields)
  then have "h \<in> held_handles ctx"
    using acc assms(1) by (auto simp: held_handles_def accepts_vhf_callbacks_def slot_at_def)
  then show ?thesis
    using h acc quiet_held [of ctx ctx'] pump_report_locked_quiet [of ctx clk i dat report_id kind rearm]
      assms(2) by simp
qed

lemma submit_taken_quiet:
  assumes "h \<in> held_handles ctx"
  shows "quiet ctx (snd (submit_taken os i h ctx))"
proof -
  let ?p = "submitted_packet (slot_at i ctx)"
  have a: "quiet ctx (log_call (Vhf_Submit h ?p) ctx)"
    using assms by (simp add: quiet_def log_call_def device_flags_def)
  have b: "quiet c (on_slot i (\<lambda>s. s\<lparr>cs_submits_in_flight := f s\<rparr>) c)" for c f
    by (rule quiet_on_slot) (simp add: slot_identity_fields)
  show ?thesis using quiet_trans [OF a b] by (simp add: submit_taken_def Let_def)
qed

text \<open>Submitting what was taken, as every caller of \<^const>\<open>pump_report_locked\<close> does.\<close>

lemma finish_submit_quiet:
  assumes "i < length (dc_controllers ctx)"
    "pump_report_locked clk i dat report_id kind rearm ctx = (queued, next, ctx')"
    "quiet ctx' ctx''"
  shows "quiet ctx (snd (case next of None \<Rightarrow> (queued, ctx'')
    | Some (r, h) \<Rightarrow> if \<not> nt_success queued then (queued, ctx'') else submit_taken os i h ctx''))"
proof -
  have a: "quiet ctx ctx''"
    using pump_report_locked_quiet [of ctx clk i dat report_id kind rearm] assms(2,3)
    by (auto intro: quiet_trans)
  show ?thesis
  proof (cases "next")
    case (Some rh)
    obtain r h where rh: "rh = (r, h)" by (cases rh)
    have "h \<in> held_handles ctx''"
      using pump_report_locked_handle [OF assms(1) assms(2) [unfolded Some rh]]
        quiet_held [OF assms(3)] by blast
    then have "quiet ctx (snd (submit_taken os i h ctx''))"
      by (rule quiet_trans [OF a submit_taken_quiet])
    then show ?thesis using a Some rh by simp
  qed (simp add: a)
qed

lemma pump_report_quiet:
  "i < length (dc_controllers ctx) \<Longrightarrow> quiet ctx (snd (pump_report os clk i dat report_id kind ctx))"
  by (cases "pump_report_locked clk i dat report_id kind True ctx")
    (auto simp: pump_report_def intro: finish_submit_quiet)

lemma ready_locked_quiet: "quiet ctx (snd (ready_locked clk i ctx))"
proof -
  have a: "quiet ctx (on_slot i (\<lambda>s. s\<lparr>cs_pump := set_ready (cs_pump s)\<rparr>) ctx)"
    by (rule quiet_on_slot) (simp add: slot_identity_fields)
  show ?thesis
    using quiet_trans [OF a take_report_quiet [of _ clk i True]]
    by (auto simp: ready_locked_def case_prod_beta Let_def intro: quiet_trans [OF _ arm_quiet])
qed

lemma ready_locked_handle:
  assumes "i < length (dc_controllers ctx)" "ready_locked clk i ctx = (Some (r, h), ctx')"
  shows "h = cs_vhf (slot_at i ctx) \<and> h \<in> held_handles ctx' \<and> accepts_vhf_callbacks ctx (slot_at i ctx)"
proof -
  let ?c = "on_slot i (\<lambda>s. s\<lparr>cs_pump := set_ready (cs_pump s)\<rparr>) ctx"
  have acc: "accepts_vhf_callbacks ctx (slot_at i ctx)"
    using assms(2) by (auto simp: ready_locked_def split: if_splits)
  obtain c where "take_report clk i True ?c = (Some (r, h), c)"
    using assms(2) acc by (auto simp: ready_locked_def Let_def split: prod.splits)
  then have h: "h = cs_vhf (slot_at i ctx)"
    using take_report_handle [of i ?c clk True r h c] assms(1) by simp
  then have "h \<in> held_handles ctx"
    using acc assms(1) by (auto simp: held_handles_def accepts_vhf_callbacks_def slot_at_def)
  then show ?thesis
    using h acc quiet_held [of ctx ctx'] ready_locked_quiet [of ctx clk i] assms(2) by simp
qed

lemma ready_callback_quiet:
  assumes "i < length (dc_controllers ctx)"
  shows "quiet ctx (evt_vhf_ready_for_next_report os i ctx)"
proof -
  obtain t c where r: "ready_locked (os_clock os) i ctx = (t, c)"
    by (cases "ready_locked (os_clock os) i ctx")
  have c: "quiet ctx c" using ready_locked_quiet [of ctx "os_clock os" i] r by simp
  show ?thesis
  proof (cases t)
    case (Some rh)
    obtain p h where rh: "rh = (p, h)" by (cases rh)
    have "h \<in> held_handles c" using ready_locked_handle [OF assms] r Some rh by simp
    then show ?thesis using r Some rh c submit_taken_quiet [of h c os i]
      by (auto simp: evt_vhf_ready_for_next_report_def intro: quiet_trans)
  qed (use r c in \<open>simp add: evt_vhf_ready_for_next_report_def\<close>)
qed

section \<open>Client submissions\<close>

named_theorems identity_simps "operations on a slot that keep its identity"

lemma encode_playstation_identity [identity_simps]:
  "slot_identity (snd (snd (encode_playstation now input s))) = slot_identity s"
  by (simp add: encode_playstation_def case_prod_beta slot_identity_fields)

lemma encode_steam_identity [identity_simps]:
  "slot_identity (snd (encode_steam now input s)) = slot_identity s"
  by (simp add: encode_steam_def case_prod_beta slot_identity_fields)

lemma encode_switch_identity [identity_simps]:
  "slot_identity (snd (encode_switch input s)) = slot_identity s"
  by (simp add: encode_switch_def case_prod_beta slot_identity_fields)

lemma apply_touch_identity [identity_simps]:
  "slot_identity (snd (apply_slot_touch request s)) = slot_identity s"
  by (simp add: apply_slot_touch_def case_prod_beta slot_identity_fields)

lemma apply_motion_identity [identity_simps]:
  "slot_identity (snd (apply_slot_motion request now s)) = slot_identity s"
  by (simp add: apply_slot_motion_def case_prod_beta slot_identity_fields)

lemma apply_battery_identity [identity_simps]:
  "slot_identity (snd (apply_slot_battery request s)) = slot_identity s"
  by (simp add: apply_slot_battery_def case_prod_beta slot_identity_fields)

lemma remember_identity [identity_simps]: "slot_identity (remember_input request s) = slot_identity s"
  by (simp add: remember_input_def slot_identity_fields)

lemma classify_identity [identity_simps]:
  "slot_identity (snd (classify_slot buttons request s)) = slot_identity s"
  by (simp add: classify_slot_def case_prod_beta slot_identity_fields)

lemma quiet_put:
  "slot_identity s = slot_identity (slot_at i ctx) \<Longrightarrow> quiet ctx (on_slot i (\<lambda>_. s) ctx)"
  by (intro quiet_on_slot)

lemma put_then_quiet:
  assumes "slot_identity s = slot_identity (slot_at i ctx)" "i < length (dc_controllers ctx)"
    "\<And>c. i < length (dc_controllers c) \<Longrightarrow> quiet c (f c)"
  shows "quiet ctx (f (on_slot i (\<lambda>_. s) ctx))"
  using quiet_trans [OF quiet_put [OF assms(1)] assms(3)] assms(2) by simp

lemma submit_playstation_quiet:
  assumes "i < length (dc_controllers ctx)"
  shows "quiet ctx (snd (submit_playstation_report os clk i kind ctx))"
proof -
  let ?e = "encode_playstation (clk 0) (cs_last_input (slot_at i ctx)) (slot_at i ctx)"
  have "quiet ctx (snd (pump_report os k i d r kind (on_slot i (\<lambda>_. snd (snd ?e)) ctx)))" for k d r
    using assms by (intro put_then_quiet [where f = "\<lambda>c. snd (pump_report os k i d r kind c)"]
        encode_playstation_identity pump_report_quiet)
  then show ?thesis by (simp add: submit_playstation_report_def case_prod_beta Let_def)
qed

lemma submit_profile_quiet:
  assumes "i < length (dc_controllers ctx)"
  shows "quiet ctx (snd (submit_profile_report os clk i kind ctx))"
proof -
  have steam: "quiet c (snd (case pump_report_locked k i d r kd b c of (queued, next, ctx) \<Rightarrow>
      (case next of None \<Rightarrow> (queued, ctx) | Some (_, vhf) \<Rightarrow>
        if \<not> nt_success queued then (queued, ctx) else submit_taken os i vhf ctx)))"
    if "i < length (dc_controllers c)" for c k d r kd b
    using that finish_submit_quiet [OF that] by (cases "pump_report_locked k i d r kd b c") auto
  let ?st = "encode_steam (clk 0) (cs_last_input (slot_at i ctx)) (slot_at i ctx)"
  let ?sw = "encode_switch (cs_last_input (slot_at i ctx)) (slot_at i ctx)"
  have a: "quiet ctx (snd (case pump_report_locked k i d r kd b (on_slot i (\<lambda>_. snd ?st) ctx) of
      (queued, next, ctx) \<Rightarrow> (case next of None \<Rightarrow> (queued, ctx) | Some (_, vhf) \<Rightarrow>
        if \<not> nt_success queued then (queued, ctx) else submit_taken os i vhf ctx)))" for k d r kd b
    using quiet_trans [OF quiet_put [OF encode_steam_identity] steam] assms by simp
  have b: "quiet ctx (snd (pump_report os k i d r kind (on_slot i (\<lambda>_. snd ?sw) ctx)))" for k d r
    using quiet_trans [OF quiet_put [OF encode_switch_identity] pump_report_quiet] assms by simp
  show ?thesis
    using a b submit_playstation_quiet [OF assms, of os clk kind]
    by (simp add: submit_profile_report_def Let_def case_prod_beta [of _ "encode_steam _ _ _"]
        case_prod_beta [of _ "encode_switch _ _"])
qed

lemma begin_state_update_range:
  "nt_success (begin_state_update owner cid ctx) \<Longrightarrow> unat cid < k_max_controllers"
  by (auto simp: begin_state_update_def nt_success_def split: if_splits)

lemma submit_touch_quiet:
  assumes "length (dc_controllers ctx) = k_max_controllers"
  shows "quiet ctx (snd (submit_touch_state os owner request ctx))"
proof (cases "nt_success (begin_state_update owner (ts_controller_id request) ctx)")
  case True
  let ?i = "unat (ts_controller_id request)"
  have i: "?i < length (dc_controllers ctx)"
    using begin_state_update_range [OF True] assms by simp
  let ?s = "snd (apply_slot_touch request (slot_at ?i ctx))"
  have "quiet ctx (on_slot ?i (\<lambda>_. ?s) ctx)" by (rule quiet_put) (rule apply_touch_identity)
  moreover have "quiet ctx (snd (submit_profile_report os k ?i kd (on_slot ?i (\<lambda>_. ?s) ctx)))" for k kd
    using quiet_trans [OF quiet_put [OF apply_touch_identity] submit_profile_quiet] i by simp
  ultimately show ?thesis
    using True by (simp add: submit_touch_state_def Let_def case_prod_beta)
qed (simp add: submit_touch_state_def)

lemma submit_motion_quiet:
  assumes "length (dc_controllers ctx) = k_max_controllers"
  shows "quiet ctx (snd (submit_motion_state os owner request ctx))"
proof (cases "nt_success (begin_state_update owner (ms_controller_id request) ctx)")
  case True
  let ?i = "unat (ms_controller_id request)"
  have i: "?i < length (dc_controllers ctx)"
    using begin_state_update_range [OF True] assms by simp
  let ?s = "snd (apply_slot_motion request (os_clock os 0) (slot_at ?i ctx))"
  have "quiet ctx (on_slot ?i (\<lambda>_. ?s) ctx)" by (rule quiet_put) (rule apply_motion_identity)
  moreover have "quiet ctx (snd (submit_profile_report os k ?i kd (on_slot ?i (\<lambda>_. ?s) ctx)))" for k kd
    using quiet_trans [OF quiet_put [OF apply_motion_identity] submit_profile_quiet] i by simp
  ultimately show ?thesis
    using True by (simp add: submit_motion_state_def Let_def case_prod_beta)
qed (simp add: submit_motion_state_def)

lemma submit_battery_quiet:
  assumes "length (dc_controllers ctx) = k_max_controllers"
  shows "quiet ctx (snd (submit_battery_state os owner request ctx))"
proof (cases "nt_success (begin_state_update owner (bs_controller_id request) ctx)")
  case True
  let ?i = "unat (bs_controller_id request)"
  have i: "?i < length (dc_controllers ctx)"
    using begin_state_update_range [OF True] assms by simp
  let ?s = "snd (apply_slot_battery request (slot_at ?i ctx))"
  have id: "slot_identity ?s = slot_identity (slot_at ?i ctx)"
    "slot_identity (?s\<lparr>cs_sc26 := d\<rparr>) = slot_identity (slot_at ?i ctx)" for d
    using apply_battery_identity [of request "slot_at ?i ctx"] by (simp_all add: slot_identity_fields)
  have "quiet ctx (on_slot ?i (\<lambda>_. ?s) ctx)" "quiet ctx (on_slot ?i (\<lambda>_. ?s\<lparr>cs_sc26 := d\<rparr>) ctx)" for d
    by (rule quiet_put, rule id)+
  moreover have "quiet ctx (snd (submit_profile_report os k ?i kd (on_slot ?i (\<lambda>_. ?s) ctx)))" for k kd
    using quiet_trans [OF quiet_put [OF id(1)] submit_profile_quiet] i by simp
  moreover have "quiet ctx (snd (pump_report os k ?i d r kd (on_slot ?i (\<lambda>_. ?s\<lparr>cs_sc26 := v\<rparr>) ctx)))"
    for k d r kd v
    using quiet_trans [OF quiet_put [OF id(2)] pump_report_quiet] i by simp
  ultimately show ?thesis
    using True by (simp add: submit_battery_state_def Let_def case_prod_beta)
qed (simp add: submit_battery_state_def)

lemma join_quiet [intro]: "quiet ctx (join_keepalive ctx)"
  by (simp add: join_keepalive_def keepalive_exit_def)

lemma start_keepalive_quiet: "quiet ctx (start_sc26_keepalive os ctx)"
proof -
  have "quiet ctx (c\<lparr>dc_sc26_timer_running := r\<rparr>)" "quiet ctx (c\<lparr>dc_sc26_timer_parked := p\<rparr>)"
    "quiet ctx (c\<lparr>dc_sc26_due := d\<rparr>)" "quiet ctx (c\<lparr>dc_sc26_keepalive_thread := t\<rparr>)"
    if "quiet ctx c" for c r p d t
    using that by (blast intro: quiet_trans)+
  then show ?thesis by (simp add: start_sc26_keepalive_def Let_def join_quiet)
qed

lemma stop_keepalive_quiet: "quiet ctx (stop_sc26_keepalive ctx)"
  using quiet_trans [OF join_quiet quiet_timers(3)]
  by (simp add: stop_sc26_keepalive_def Let_def join_quiet)

lemma submit_steam_quiet:
  assumes "i < length (dc_controllers ctx)"
  shows "quiet ctx (snd (submit_steam_input os i request ctx))"
proof -
  let ?start = "dc_sc26_keepalive_timer ctx \<and> \<not> dc_sc26_timer_running ctx"
  obtain report s1 where e: "encode_steam (os_clock os 0) request
      (remember_input request (slot_at i ctx)) = (report, s1)"
    by (cases "encode_steam (os_clock os 0) request (remember_input request (slot_at i ctx))")
  obtain kind s2 where c: "classify_slot (classify_buttons (sc_device (cs_sc26 s1))
      (i26_buttons report)) request s1 = (kind, s2)"
    by (cases "classify_slot (classify_buttons (sc_device (cs_sc26 s1)) (i26_buttons report)) request s1")
  have "slot_identity s2 = slot_identity s1"
    using classify_identity [of "classify_buttons (sc_device (cs_sc26 s1)) (i26_buttons report)" request s1]
      c by simp
  moreover have "slot_identity s1 = slot_identity (slot_at i ctx)"
    using encode_steam_identity [of "os_clock os 0" request "remember_input request (slot_at i ctx)"] e
    by (simp add: remember_identity)
  ultimately have q1: "quiet ctx (on_slot i (\<lambda>_. s2) ctx)" by (intro quiet_put) simp
  let ?c2 = "if ?start then (on_slot i (\<lambda>_. s2) ctx)\<lparr>dc_sc26_timer_running := True\<rparr>
    else on_slot i (\<lambda>_. s2) ctx"
  have q2: "quiet ctx ?c2" using q1 quiet_trans [OF q1 quiet_timers(1)] by simp
  have len: "i < length (dc_controllers ?c2)" using assms by simp
  obtain queued nxt c3 where p: "pump_report_locked (clock_after 1 (os_clock os)) i
      (Some (sc26_input_bytes report)) k_sc26_input_report_id kind True ?c2 = (queued, nxt, c3)"
    by (cases "pump_report_locked (clock_after 1 (os_clock os)) i
      (Some (sc26_input_bytes report)) k_sc26_input_report_id kind True ?c2")
  let ?c4 = "if ?start then start_sc26_keepalive os c3 else c3"
  have "quiet c3 ?c4" by (simp add: start_keepalive_quiet)
  from finish_submit_quiet [OF len p this, of os]
  have "quiet ctx (snd (case nxt of None \<Rightarrow> (queued, ?c4)
    | Some (r, h) \<Rightarrow> if \<not> nt_success queued then (queued, ?c4) else submit_taken os i h ?c4))"
    by (rule quiet_trans [OF q2])
  then show ?thesis
    unfolding submit_steam_input_def Let_def e prod.case c p
    by (cases nxt) (auto split: if_splits)
qed

lemma submit_encoded_quiet:
  assumes "i < length (dc_controllers ctx)" "slot_identity s = slot_identity (slot_at i ctx)"
  shows "quiet ctx (snd (submit_encoded os i request (b, r, s) ctx))"
  using quiet_trans [OF quiet_put pump_report_quiet] assms
  by (simp add: submit_encoded_def case_prod_beta classify_identity)

lemma submit_input_quiet:
  assumes "length (dc_controllers ctx) = k_max_controllers"
  shows "quiet ctx (snd (submit_input_state os owner request ctx))"
proof (cases "unat (is_controller_id request) < k_max_controllers")
  case True
  let ?i = "unat (is_controller_id request)"
  let ?k = "remember_input request (slot_at ?i ctx)"
  have i: "?i < length (dc_controllers ctx)" using True assms by simp
  have ps: "quiet ctx (snd (submit_encoded os ?i request
      (encode_playstation (os_clock os 0) request ?k) ctx))"
    by (cases "encode_playstation (os_clock os 0) request ?k")
      (use encode_playstation_identity [of "os_clock os 0" request ?k] remember_identity
        in \<open>auto intro!: submit_encoded_quiet i\<close>)
  have sw: "quiet ctx (snd (submit_encoded os ?i request
      (b, r, snd (encode_switch request ?k)) ctx))" for b r
    by (rule submit_encoded_quiet [OF i]) (simp add: identity_simps)
  have kept: "quiet ctx (snd (submit_encoded os ?i request (b, r, ?k) ctx))" for b r
    by (rule submit_encoded_quiet [OF i]) (simp add: identity_simps)
  show ?thesis
    using ps sw kept submit_steam_quiet [OF i] True
    by (simp add: submit_input_state_def Let_def case_prod_beta [of _ "encode_switch _ _"])
qed (simp add: submit_input_state_def)

section \<open>The keep-alive worker\<close>

lemma keepalive_slot_quiet:
  assumes "i < length (dc_controllers ctx)" "quiet ctx0 ctx"
    "keepalive_slot clk now i (a, r, pending, ctx) = (a', r', pending', ctx')"
    "\<And>j h. (j, h) \<in> set pending \<Longrightarrow> h \<in> held_handles ctx0"
  shows "quiet ctx0 ctx' \<and> (\<forall>(j, h) \<in> set pending'. h \<in> held_handles ctx0)"
proof -
  have upd: "quiet c (on_slot i (\<lambda>s. s\<lparr>cs_sc26 := f s\<rparr>) c)" for c f
    by (rule quiet_on_slot) (simp add: slot_identity_fields)
  have bat: "quiet c (keepalive_battery now i c)" for c
    by (auto simp: keepalive_battery_def Let_def slot_identity_fields intro!: quiet_on_slot)
  let ?s = "slot_at i ctx"
  let ?bd = "sc26_due now (sc_last_battery_us (cs_sc26 ?s)) k_sc26_battery_period_us"
  let ?c1 = "if ?bd then keepalive_battery now i ctx else ctx"
  let ?e = "encode_steam now (cs_last_input (slot_at i ?c1)) (slot_at i ?c1)"
  let ?rd = "sc26_due now (sc_last_report_us (cs_sc26 (slot_at i ?c1))) k_sc26_resend_after_us"
  let ?c2 = "if ?rd then on_slot i (\<lambda>_. snd ?e) ?c1 else ?c1"
  let ?d = "if ?rd then Some (sc26_input_bytes (fst ?e)) else None"
  have q1: "quiet ctx ?c1" using bat by simp
  have "quiet ?c1 ?c2" by (auto intro: quiet_put simp: encode_steam_identity)
  then have q2: "quiet ctx ?c2" by (rule quiet_trans [OF q1])
  have len: "i < length (dc_controllers ?c2)" using quiet_length [OF q2] assms(1) by simp
  obtain st nxt c3 where p: "pump_report_locked (clock_after (1 + i) clk) i ?d
      k_sc26_input_report_id Continuous False ?c2 = (st, nxt, c3)"
    by (cases "pump_report_locked (clock_after (1 + i) clk) i ?d
      k_sc26_input_report_id Continuous False ?c2")
  have q3: "quiet ctx0 c3"
    using quiet_trans [OF quiet_trans [OF assms(2) q2] pump_report_locked_quiet
        [of ?c2 "clock_after (1 + i) clk" i ?d k_sc26_input_report_id Continuous False]] p
    by simp
  have h: "h \<in> held_handles ctx0" if "nxt = Some (x, h)" for x h
  proof -
    have "h \<in> held_handles c3" using pump_report_locked_handle [OF len p [unfolded that]] by blast
    then show ?thesis by (simp only: quiet_held [OF q3])
  qed
  show ?thesis
  proof (cases "streams_sc26 ?s \<and> ready (cs_pump ?s) \<and> (?rd \<or> ?bd)")
    case False
    then show ?thesis
      using assms quiet_trans [OF assms(2) q1] quiet_trans [OF assms(2) upd]
      by (auto simp: keepalive_slot_def Let_def split: if_splits)
  next
    case True
    then have "keepalive_slot clk now i (a, r, pending, ctx) = (True, True,
        (case nxt of None \<Rightarrow> pending | Some (_, vhf) \<Rightarrow>
          if nt_success st then pending @ [(i, vhf)] else pending), c3)"
      using p by (auto simp: keepalive_slot_def Let_def case_prod_beta [of _ "encode_steam _ _ _"]
          split: if_splits)
    then have e: "ctx' = c3" "pending' = (case nxt of None \<Rightarrow> pending | Some (_, vhf) \<Rightarrow>
          if nt_success st then pending @ [(i, vhf)] else pending)"
      using assms(3) by simp_all
    have "\<forall>(j, h) \<in> set pending'. h \<in> held_handles ctx0"
      using e(2) assms(4) h by (auto split: option.splits if_splits)
    then show ?thesis using e(1) q3 by simp
  qed
qed

definition tick_ok :: "device_context \<Rightarrow> tick_state \<Rightarrow> bool"
  where "tick_ok ctx0 t = (case t of (a, r, pending, ctx) \<Rightarrow>
    quiet ctx0 ctx \<and> (\<forall>(j, h) \<in> set pending. h \<in> held_handles ctx0))"

lemma keepalive_slot_ok:
  assumes "i < length (dc_controllers ctx0)" "tick_ok ctx0 t"
  shows "tick_ok ctx0 (keepalive_slot clk now i t)"
proof -
  obtain a r pending ctx where t: "t = (a, r, pending, ctx)" by (cases t)
  obtain a' r' pending' ctx' where k: "keepalive_slot clk now i t = (a', r', pending', ctx')"
    by (cases "keepalive_slot clk now i t")
  have q: "quiet ctx0 ctx" and p: "\<And>j h. (j, h) \<in> set pending \<Longrightarrow> h \<in> held_handles ctx0"
    using assms(2) t by (auto simp: tick_ok_def)
  have "i < length (dc_controllers ctx)" using quiet_length [OF q] assms(1) by simp
  from keepalive_slot_quiet [OF this q k [unfolded t] p] show ?thesis
    using k by (simp add: tick_ok_def)
qed

lemma keepalive_fold_ok:
  assumes "tick_ok ctx0 t" "\<forall>i \<in> set is. i < length (dc_controllers ctx0)"
  shows "tick_ok ctx0 (foldl (\<lambda>t i. keepalive_slot clk now i t) t is)"
  using assms by (induction "is" arbitrary: t) (simp_all add: keepalive_slot_ok)

lemma keepalive_locked_quiet:
  assumes "length (dc_controllers ctx) = k_max_controllers"
    "keepalive_locked clk ctx = (any, pending, ctx')"
  shows "quiet ctx ctx' \<and> (\<forall>(j, h) \<in> set pending. h \<in> held_handles ctx)"
proof -
  let ?t = "if dc_stopping ctx then (False, False, [], ctx)
    else foldl (\<lambda>t i. keepalive_slot clk (clk 0) i t) (False, False, [], ctx) [0..<k_max_controllers]"
  obtain a r p c where t: "?t = (a, r, p, c)" by (cases ?t)
  have "tick_ok ctx (foldl (\<lambda>t i. keepalive_slot clk (clk 0) i t) (False, False, [], ctx)
      [0..<k_max_controllers])"
    by (rule keepalive_fold_ok) (use assms(1) in \<open>auto simp: tick_ok_def\<close>)
  then have "tick_ok ctx ?t" by (simp add: tick_ok_def)
  then have q: "quiet ctx c" and h: "\<forall>(j, h) \<in> set p. h \<in> held_handles ctx"
    using t by (simp_all add: tick_ok_def)
  have e: "pending = p" "ctx' = (if \<not> a then c\<lparr>dc_sc26_timer_running := False\<rparr>
      else if r then arm_sc26_keepalive (clk (1 + k_max_controllers)) c
      else c\<lparr>dc_sc26_timer_parked := True\<rparr>)"
    using assms(2) unfolding keepalive_locked_def Let_def t prod.case by blast+
  have "quiet c ctx'" unfolding e(2) by simp
  then have "quiet ctx ctx'" by (rule quiet_trans [OF q])
  then show ?thesis using h e(1) by simp
qed

lemma submit_all_quiet:
  "\<forall>(j, h) \<in> set pending. h \<in> held_handles ctx \<Longrightarrow>
    quiet ctx (foldl (\<lambda>ctx (i, vhf). snd (submit_taken os i vhf ctx)) ctx pending)"
proof (induction pending arbitrary: ctx)
  case (Cons x pending)
  obtain i h where x: "x = (i, h)" by (cases x)
  let ?c = "snd (submit_taken os i h ctx)"
  have q: "quiet ctx ?c" using Cons.prems x by (intro submit_taken_quiet) simp
  have "quiet ?c (foldl (\<lambda>ctx (i, vhf). snd (submit_taken os i vhf ctx)) ?c pending)"
    using Cons.prems quiet_held [OF q] by (intro Cons.IH) simp
  then show ?case using quiet_trans [OF q] x by simp
qed simp

lemma keepalive_tick_quiet:
  assumes "length (dc_controllers ctx) = k_max_controllers"
  shows "quiet ctx (snd (sc26_keepalive_tick os ctx))"
proof -
  obtain a p c where k: "keepalive_locked (os_clock os) ctx = (a, p, c)"
    by (cases "keepalive_locked (os_clock os) ctx")
  from keepalive_locked_quiet [OF assms k] have q: "quiet ctx c"
    and h: "\<forall>(j, h) \<in> set p. h \<in> held_handles c" using quiet_held [of ctx c] by auto
  show ?thesis using quiet_trans [OF q submit_all_quiet [OF h]] k
    by (simp add: sc26_keepalive_tick_def)
qed

lemma keepalive_wake_quiet:
  assumes "length (dc_controllers ctx) = k_max_controllers"
  shows "quiet ctx (snd (keepalive_wake os ctx))"
proof -
  obtain a c where k: "sc26_keepalive_tick os (ctx\<lparr>dc_sc26_due := None\<rparr>) = (a, c)"
    by (cases "sc26_keepalive_tick os (ctx\<lparr>dc_sc26_due := None\<rparr>)")
  have "quiet ctx c"
    using quiet_trans [OF quiet_timers(3) keepalive_tick_quiet [of "ctx\<lparr>dc_sc26_due := None\<rparr>" os]]
      assms k by simp
  then show ?thesis
    using quiet_trans [OF _ quiet_timers(6)] k by (simp add: keepalive_wake_def keepalive_exit_def)
qed

section \<open>Callbacks of the framework\<close>

lemma post_identity [identity_simps]: "slot_identity (post_feedback e s) = slot_identity s"
  by (simp add: post_feedback_def slot_identity_fields)

lemma publish_identity [identity_simps]: "slot_identity (publish_pid_rumble s) = slot_identity s"
  by (simp add: publish_pid_rumble_def Let_def post_feedback_def slot_identity_fields)

lemma tick_slot_identity [identity_simps]: "slot_identity (tick_slot s) = slot_identity s"
  by (simp add: tick_slot_def publish_identity) (simp add: slot_identity_fields)

lemma xbox_output_identity [identity_simps]:
  "slot_identity (snd (apply_xbox_output transfer s)) = slot_identity s"
  by (simp add: apply_xbox_output_def post_identity split: option.split)

lemma switch_replies_identity [identity_simps]:
  "slot_identity (snd (switch_replies transfer s)) = slot_identity s"
  by (simp add: switch_replies_def Let_def case_prod_beta slot_identity_fields)

lemma set_feature_identity [identity_simps]:
  "slot_identity (snd (set_feature_playstation transfer s)) = slot_identity s"
  by (simp add: set_feature_playstation_def case_prod_beta slot_identity_fields)

lemma forward_settings_identity [identity_simps]:
  "slot_identity (forward_settings events s) = slot_identity s"
  by (induction events arbitrary: s)
    (simp_all add: forward_settings_def case_prod_beta slot_identity_fields)

lemma set_feature_steam_identity [identity_simps]:
  "slot_identity (snd (set_feature_steam transfer s)) = slot_identity s"
proof -
  have "slot_identity (s\<lparr>cs_sc26 := d\<rparr>) = slot_identity s" for d by (simp add: slot_identity_fields)
  then show ?thesis by (simp add: set_feature_steam_def Let_def case_prod_beta forward_settings_identity)
qed

lemma current_report_identity [identity_simps]:
  "slot_identity (snd (snd (current_report clk wanted s))) = slot_identity s"
  by (auto simp: current_report_def Let_def case_prod_beta identity_simps
      split: option.split profile.split)

lemma poll_slot_identity [identity_simps]: "slot_identity (snd (poll_slot s)) = slot_identity s"
  by (auto simp: poll_slot_def slot_identity_fields split: prod.split option.split)

lemma write_steam_quiet:
  assumes "i < length (dc_controllers ctx)"
  shows "quiet ctx (snd (write_steam os transfer i ctx))"
proof -
  have put: "quiet ctx (on_slot i (\<lambda>s. s\<lparr>cs_haptics := q, cs_haptic_evicted := v\<rparr>) ctx)" for q v
    by (rule quiet_on_slot) (simp add: slot_identity_fields)
  have pump: "quiet ctx (snd (pump_report os k i d r kd
      (on_slot i (\<lambda>s. s\<lparr>cs_haptics := q, cs_haptic_evicted := v\<rparr>) ctx)))" for q v k d r kd
    using quiet_trans [OF put pump_report_quiet] assms by simp
  show ?thesis
    using put pump by (simp add: write_steam_def Let_def case_prod_beta split: option.split list.split)
qed

lemma write_switch_quiet:
  assumes "i < length (dc_controllers ctx)"
  shows "quiet ctx (snd (write_switch os transfer i ctx))"
proof -
  let ?s = "case decode_switch_rumble (xf_buffer transfer) of None \<Rightarrow> slot_at i ctx
    | Some r \<Rightarrow> post_feedback (encode_playstation_feedback (cs_controller_id (slot_at i ctx)) r) (slot_at i ctx)"
  have id: "slot_identity (snd (switch_replies transfer ?s)) = slot_identity (slot_at i ctx)"
    by (simp add: identity_simps split: option.split)
  have "quiet ctx (on_slot i (\<lambda>_. snd (switch_replies transfer ?s)) ctx)"
    by (rule quiet_put) (rule id)
  moreover have "quiet ctx (snd (pump_report os k i d r kd
      (on_slot i (\<lambda>_. snd (switch_replies transfer ?s)) ctx)))" for k d r kd
    using quiet_trans [OF quiet_put [OF id] pump_report_quiet] assms by simp
  ultimately show ?thesis by (simp add: write_switch_def Let_def case_prod_beta)
qed

lemma write_playstation_quiet: "quiet ctx (snd (write_playstation transfer i ctx))"
  by (auto simp: write_playstation_def Let_def post_feedback_def slot_identity_fields
      intro!: quiet_on_slot split: option.split)

lemma write_pid_quiet: "quiet ctx (snd (write_pid transfer i ctx))"
proof -
  obtain status e where a: "apply_pid_output transfer (cs_pid (slot_at i ctx)) = (status, e)"
    by (cases "apply_pid_output transfer (cs_pid (slot_at i ctx))")
  let ?s = "(slot_at i ctx)\<lparr>cs_pid := e\<rparr>"
  have id: "slot_identity ?s = slot_identity (slot_at i ctx)"
    "slot_identity (publish_pid_rumble ?s) = slot_identity (slot_at i ctx)"
    by (simp_all add: publish_identity) (simp_all add: slot_identity_fields)
  have q: "quiet ctx (on_slot i (\<lambda>_. ?s) ctx)"
    "quiet ctx (on_slot i (\<lambda>_. publish_pid_rumble ?s) ctx)"
    by (rule quiet_put, rule id)+
  show ?thesis
    using q quiet_trans [OF q(1) quiet_timers(9)] quiet_trans [OF q(2) quiet_timers(9)] a
    by (simp add: write_pid_def Let_def)
qed

lemma write_generic_quiet: "quiet ctx (snd (write_generic transfer i ctx))"
  by (auto simp: write_generic_def Let_def post_identity intro!: quiet_on_slot split: option.split)

lemma write_report_quiet:
  assumes "i < length (dc_controllers ctx)"
  shows "quiet ctx (snd (evt_vhf_write_report os packet i ctx))"
  using assms
  by (auto simp: evt_vhf_write_report_def Let_def case_prod_beta xbox_output_identity
      write_steam_quiet write_switch_quiet write_playstation_quiet write_pid_quiet
      write_generic_quiet intro!: quiet_put split: option.split)

lemma set_feature_quiet: "quiet ctx (snd (evt_vhf_set_feature packet i ctx))"
proof -
  have "quiet ctx (on_slot i (\<lambda>_. s) ctx)" if "slot_identity s = slot_identity (slot_at i ctx)" for s
    using that by (rule quiet_put)
  moreover have "slot_identity ((slot_at i ctx)\<lparr>cs_pid := e\<rparr>) = slot_identity (slot_at i ctx)" for e
    by (simp add: slot_identity_fields)
  ultimately show ?thesis
    by (simp add: evt_vhf_set_feature_def Let_def case_prod_beta identity_simps split: option.split)
qed

lemma get_input_quiet: "quiet ctx (snd (snd (evt_vhf_get_input_report os packet i ctx)))"
  by (auto simp: evt_vhf_get_input_report_def Let_def case_prod_beta current_report_identity
      intro!: quiet_put split: option.split)

lemma poll_quiet: "quiet ctx (snd (snd (poll_feedback owner request ctx)))"
proof -
  let ?i = "unat (ci_controller_id request)"
  obtain e s where p: "poll_slot (slot_at ?i ctx) = (e, s)" by (cases "poll_slot (slot_at ?i ctx)")
  have "quiet ctx (on_slot ?i (\<lambda>_. s) ctx)"
    using poll_slot_identity [of "slot_at ?i ctx"] p by (intro quiet_put) simp
  then show ?thesis using p by (simp add: poll_feedback_def Let_def split: option.split)
qed

lemma attributes_quiet: "quiet ctx (snd (set_steam_controller_attributes owner request ctx))"
  by (auto simp: set_steam_controller_attributes_def Let_def slot_identity_fields
      intro!: quiet_on_slot)

lemma pid_tick_quiet:
  assumes "\<And>c. quiet c (meanwhile c)"
  shows "quiet ctx (evt_pid_tick meanwhile ctx)"
proof -
  let ?c = "ctx\<lparr>dc_controllers := map tick_slot (dc_controllers ctx)\<rparr>"
  have q: "quiet ctx ?c" by (simp add: quiet_def device_flags_def identity_simps)
  have m: "quiet ctx ((meanwhile ?c)\<lparr>dc_pid_timer_armed := a\<rparr>)" for a
    by (rule quiet_trans [OF quiet_trans [OF q assms] quiet_timers(9)])
  show ?thesis using q m [of False] quiet_trans [OF m quiet_timers(9)]
    by (simp add: evt_pid_tick_def Let_def)
qed

end
