(* ===== verification/DriverHistory.thy ===== *)
theory DriverHistory
  imports DriverFrame
begin

text \<open>
  The handles of the driver over its whole life: the log of its calls to the virtual HID
  framework is replayed by a reference that knows which handles exist, and every
  reachable context is shown to hold exactly those.
\<close>

section \<open>Replaying the log\<close>

fun track :: "handle set option \<Rightarrow> vhf_call \<Rightarrow> handle set option"
  where
    "track None c = None"
  | "track (Some live) (Vhf_Create config h) =
      (if h = null_handle \<or> h \<in> live then None else Some (insert h live))"
  | "track (Some live) (Vhf_Start h) = (if h \<in> live then Some live else None)"
  | "track (Some live) (Vhf_Submit h packet) = (if h \<in> live then Some live else None)"
  | "track (Some live) (Vhf_Delete h) = (if h \<in> live then Some (live - {h}) else None)"

definition live_after :: "vhf_call list \<Rightarrow> handle set option"
  where "live_after calls = foldl track (Some {}) calls"

lemma live_after_snoc [simp]: "live_after (calls @ [c]) = track (live_after calls) c"
  by (simp add: live_after_def)

lemma live_after_submits:
  assumes "live_after calls = Some live" "list_all (submits_on hs) later" "hs \<subseteq> live"
  shows "live_after (calls @ later) = Some live"
  using assms(2)
proof (induction later rule: rev_induct)
  case (snoc c later)
  then have "live_after (calls @ later) = Some live" "submits_on hs c" by simp_all
  then show ?case
    using assms(3) live_after_snoc [of "calls @ later" c] by (cases c) auto
qed (simp add: assms(1))

section \<open>Sound slots\<close>

definition slot_sound :: "nat \<Rightarrow> controller_slot \<Rightarrow> bool"
  where "slot_sound i s \<longleftrightarrow> cs_controller_id s = of_nat i \<and>
    (cs_vhf s \<noteq> null_handle \<longrightarrow> cs_state s \<in> {Slot_Starting, Slot_Active, Slot_Stopping}) \<and>
    (cs_state s = Slot_Active \<longrightarrow> cs_vhf s \<noteq> null_handle) \<and>
    (cs_owner s = null_handle \<longleftrightarrow> cs_state s = Slot_Empty)"

text \<open>\<open>ex\<close> are the handles an operation has detached from a slot and not yet deleted,
  or created and not yet published.\<close>

definition core_ok :: "handle set \<Rightarrow> device_context \<Rightarrow> bool"
  where "core_ok ex ctx \<longleftrightarrow> length (dc_controllers ctx) = k_max_controllers \<and>
    (\<forall>i < k_max_controllers. slot_sound i (slot_at i ctx)) \<and>
    (\<forall>i < k_max_controllers. \<forall>j < k_max_controllers. i \<noteq> j \<and> cs_vhf (slot_at i ctx) \<noteq> null_handle \<longrightarrow>
      cs_vhf (slot_at i ctx) \<noteq> cs_vhf (slot_at j ctx)) \<and>
    ex \<inter> held_handles ctx = {} \<and> live_after (dc_log ctx) = Some (held_handles ctx \<union> ex)"

definition settled :: "device_context \<Rightarrow> bool"
  where "settled ctx \<longleftrightarrow> (\<forall>i < k_max_controllers.
    cs_state (slot_at i ctx) \<in> {Slot_Empty, Slot_Active, Slot_Lost})"

definition driver_ok :: "device_context \<Rightarrow> bool"
  where "driver_ok ctx \<longleftrightarrow> core_ok {} ctx \<and> settled ctx"

lemma core_okD:
  assumes "core_ok ex ctx"
  shows "length (dc_controllers ctx) = k_max_controllers"
    and "i < k_max_controllers \<Longrightarrow> slot_sound i (slot_at i ctx)"
    and "i < k_max_controllers \<Longrightarrow> j < k_max_controllers \<Longrightarrow> i \<noteq> j \<Longrightarrow>
      cs_vhf (slot_at i ctx) \<noteq> null_handle \<Longrightarrow> cs_vhf (slot_at i ctx) \<noteq> cs_vhf (slot_at j ctx)"
    and "ex \<inter> held_handles ctx = {}"
    and "live_after (dc_log ctx) = Some (held_handles ctx \<union> ex)"
  using assms unfolding core_ok_def by blast+

lemma held_handles_slots:
  "length (dc_controllers ctx) = k_max_controllers \<Longrightarrow>
    held_handles ctx = {cs_vhf (slot_at i ctx) | i. i < k_max_controllers \<and>
      cs_vhf (slot_at i ctx) \<noteq> null_handle}"
  by (auto simp: held_handles_def slot_at_def in_set_conv_nth)

section \<open>Steps that keep the core\<close>

definition calm :: "device_context \<Rightarrow> device_context \<Rightarrow> bool"
  where "calm ctx ctx' \<longleftrightarrow>
    map slot_identity (dc_controllers ctx') = map slot_identity (dc_controllers ctx) \<and>
    (\<exists>calls. dc_log ctx' = dc_log ctx @ calls \<and> list_all (submits_on (held_handles ctx)) calls)"

lemma quiet_calm: "quiet ctx ctx' \<Longrightarrow> calm ctx ctx'"
  by (simp add: quiet_def calm_def)

lemma calm_same [intro]:
  "dc_controllers ctx' = dc_controllers ctx \<Longrightarrow> dc_log ctx' = dc_log ctx \<Longrightarrow> calm ctx ctx'"
  by (simp add: calm_def)

lemma calm_held: "calm ctx ctx' \<Longrightarrow> held_handles ctx' = held_handles ctx"
  by (rule held_handles_identity) (simp add: calm_def)

lemma calm_trans:
  assumes "calm a b" "calm b c"
  shows "calm a c"
proof -
  from assms obtain l m where
    "dc_log b = dc_log a @ l" "list_all (submits_on (held_handles a)) l"
    "dc_log c = dc_log b @ m" "list_all (submits_on (held_handles b)) m"
    unfolding calm_def by blast
  with calm_held [OF assms(1)] have "dc_log c = dc_log a @ (l @ m)"
    "list_all (submits_on (held_handles a)) (l @ m)" by simp_all
  then show ?thesis using assms unfolding calm_def by (metis (no_types))
qed

lemma calm_length: "calm ctx ctx' \<Longrightarrow> length (dc_controllers ctx') = length (dc_controllers ctx)"
  unfolding calm_def by (blast dest: map_eq_imp_length_eq)

lemma calm_identity:
  assumes "calm ctx ctx'" "i < length (dc_controllers ctx)"
  shows "slot_identity (slot_at i ctx') = slot_identity (slot_at i ctx)"
proof -
  have "map slot_identity (dc_controllers ctx') ! i = map slot_identity (dc_controllers ctx) ! i"
    using assms(1) by (simp add: calm_def)
  then show ?thesis using assms calm_length [OF assms(1)] by (simp add: slot_at_def)
qed

lemma core_ok_calm:
  assumes "core_ok ex ctx" "calm ctx ctx'"
  shows "core_ok ex ctx'"
proof -
  note ok = core_okD [OF assms(1)]
  have same: "cs_state (slot_at i ctx') = cs_state (slot_at i ctx) \<and>
      cs_vhf (slot_at i ctx') = cs_vhf (slot_at i ctx) \<and>
      cs_owner (slot_at i ctx') = cs_owner (slot_at i ctx) \<and>
      cs_controller_id (slot_at i ctx') = cs_controller_id (slot_at i ctx)"
    if "i < k_max_controllers" for i
    using calm_identity [OF assms(2), of i] ok(1) that by (simp add: slot_identity_fields)
  obtain calls where "dc_log ctx' = dc_log ctx @ calls" "list_all (submits_on (held_handles ctx)) calls"
    using assms(2) by (auto simp: calm_def)
  then have "live_after (dc_log ctx') = Some (held_handles ctx \<union> ex)"
    using live_after_submits [OF ok(5)] by simp
  moreover have "slot_sound i (slot_at i ctx')" if "i < k_max_controllers" for i
    using ok(2) [OF that] same [OF that] by (simp add: slot_sound_def)
  ultimately show ?thesis
    using ok(1,3,4) same calm_held [OF assms(2)] calm_length [OF assms(2)]
    unfolding core_ok_def by metis
qed

lemma settled_calm:
  assumes "settled ctx" "calm ctx ctx'" "length (dc_controllers ctx) = k_max_controllers"
  shows "settled ctx'"
  using assms(1) calm_identity [OF assms(2)] assms(3)
  by (auto simp: settled_def slot_identity_fields)

lemma driver_ok_calm: "driver_ok ctx \<Longrightarrow> calm ctx ctx' \<Longrightarrow> driver_ok ctx'"
  using core_ok_calm settled_calm core_okD(1) unfolding driver_ok_def by blast

text \<open>Updating one slot without touching its handle.\<close>

lemma held_on_slot:
  assumes "cs_vhf (f (slot_at i ctx)) = cs_vhf (slot_at i ctx)"
  shows "held_handles (on_slot i f ctx) = held_handles ctx"
proof -
  have "map cs_vhf (dc_controllers (on_slot i f ctx)) = map cs_vhf (dc_controllers ctx)"
    using assms
    by (cases "i < length (dc_controllers ctx)")
      (simp_all add: on_slot_def slot_at_def map_update list_update_beyond list_update_same_conv)
  then have "cs_vhf ` set (dc_controllers (on_slot i f ctx)) = cs_vhf ` set (dc_controllers ctx)"
    by (metis set_map)
  moreover have "held_handles c = cs_vhf ` set (dc_controllers c) - {null_handle}" for c
    by (auto simp: held_handles_def)
  ultimately show ?thesis by simp
qed

lemma log_on_slot [simp]: "dc_log (on_slot i f ctx) = dc_log ctx"
  by (simp add: on_slot_def)

lemma core_ok_on_slot:
  assumes "core_ok ex ctx" "i < k_max_controllers"
    "cs_vhf (f (slot_at i ctx)) = cs_vhf (slot_at i ctx)" "slot_sound i (f (slot_at i ctx))"
  shows "core_ok ex (on_slot i f ctx)"
proof -
  note ok = core_okD [OF assms(1)]
  have at: "slot_at j (on_slot i f ctx) = (if j = i then f (slot_at i ctx) else slot_at j ctx)" for j
    using assms(2) ok(1) by simp
  have vhf: "cs_vhf (slot_at j (on_slot i f ctx)) = cs_vhf (slot_at j ctx)" for j
    using at assms(3) by simp
  show ?thesis
    using ok assms at vhf held_on_slot [of f i ctx] unfolding core_ok_def
    by (simp only: length_on_slot log_on_slot) auto
qed

text \<open>Publishing a created handle, detaching a held one, and deleting it.\<close>

lemma held_put_handle:
  assumes "core_ok ex ctx" "i < k_max_controllers"
  shows "held_handles (on_slot i f ctx) = held_handles ctx - {cs_vhf (slot_at i ctx)} \<union>
    ({cs_vhf (f (slot_at i ctx))} - {null_handle})"
proof -
  note ok = core_okD [OF assms(1)]
  have at: "slot_at j (on_slot i f ctx) = (if j = i then f (slot_at i ctx) else slot_at j ctx)" for j
    using assms(2) ok(1) by simp
  have other: "cs_vhf (slot_at j ctx) \<noteq> cs_vhf (slot_at i ctx)"
    if "j < k_max_controllers" "j \<noteq> i" "cs_vhf (slot_at j ctx) \<noteq> null_handle" for j
    using ok(3) [OF that(1) assms(2) that(2,3)] .
  show ?thesis
    using assms(2) ok(1) by (auto simp: held_handles_slots at split: if_splits) (metis other neq0_conv)+
qed

lemma core_ok_detach:
  assumes "core_ok ex ctx" "i < k_max_controllers" "cs_vhf (slot_at i ctx) = h" "h \<noteq> null_handle"
    "cs_vhf (f (slot_at i ctx)) = null_handle" "slot_sound i (f (slot_at i ctx))"
  shows "core_ok (insert h ex) (on_slot i f ctx)"
proof -
  note ok = core_okD [OF assms(1)]
  have at: "slot_at j (on_slot i f ctx) = (if j = i then f (slot_at i ctx) else slot_at j ctx)" for j
    using assms(2) ok(1) by simp
  have held: "held_handles (on_slot i f ctx) = held_handles ctx - {h}"
    using held_put_handle [OF assms(1,2), of f] assms(3,5) by simp
  have "h \<in> held_handles ctx" using assms(2-4) ok(1) by (auto simp: held_handles_slots)
  then have "held_handles ctx \<union> ex = (held_handles ctx - {h}) \<union> insert h ex" by auto
  then show ?thesis
    using ok assms(2,5,6) at held unfolding core_ok_def
    by (simp only: length_on_slot log_on_slot) auto
qed

lemma core_ok_publish:
  assumes "core_ok (insert h ex) ctx" "i < k_max_controllers" "h \<noteq> null_handle" "h \<notin> ex"
    "cs_vhf (slot_at i ctx) = null_handle" "cs_vhf (f (slot_at i ctx)) = h"
    "slot_sound i (f (slot_at i ctx))"
  shows "core_ok ex (on_slot i f ctx)"
proof -
  note ok = core_okD [OF assms(1)]
  have at: "slot_at j (on_slot i f ctx) = (if j = i then f (slot_at i ctx) else slot_at j ctx)" for j
    using assms(2) ok(1) by simp
  have held: "held_handles (on_slot i f ctx) = insert h (held_handles ctx)"
    using held_put_handle [OF assms(1,2), of f] assms(3,5,6) by (auto simp: held_handles_def)
  have new: "cs_vhf (slot_at j ctx) \<noteq> h" if "j < k_max_controllers" for j
    using ok(1,4) that assms(3) by (auto simp: held_handles_slots)
  show ?thesis
    using ok assms(2,4,6,7) at held unfolding core_ok_def
    by (simp only: length_on_slot log_on_slot) (auto dest: new)
qed

lemma controllers_log_call [simp]: "dc_controllers (log_call c ctx) = dc_controllers ctx"
  by (simp add: log_call_def)

lemma dc_log_log_call [simp]: "dc_log (log_call c ctx) = dc_log ctx @ [c]"
  by (simp add: log_call_def)

lemma held_log_call [simp]: "held_handles (log_call c ctx) = held_handles ctx"
  by (simp add: held_handles_def)

lemma core_ok_created:
  assumes "core_ok ex ctx" "h \<noteq> null_handle" "h \<notin> held_handles ctx" "h \<notin> ex"
  shows "core_ok (insert h ex) (log_call (Vhf_Create config h) ctx)"
  using assms unfolding core_ok_def by simp

lemma core_ok_started:
  assumes "core_ok ex ctx" "h \<in> held_handles ctx"
  shows "core_ok ex (log_call (Vhf_Start h) ctx)"
  using assms unfolding core_ok_def by simp

lemma core_ok_deleted:
  assumes "core_ok (insert h ex) ctx" "h \<notin> ex"
  shows "core_ok ex (log_call (Vhf_Delete h) ctx)"
proof -
  have "held_handles ctx \<union> insert h ex - {h} = held_handles ctx \<union> ex"
    using assms unfolding core_ok_def by auto
  then show ?thesis using assms unfolding core_ok_def by simp
qed

lemma reset_slot_fields [simp]:
  "cs_vhf (reset_slot s) = null_handle" "cs_state (reset_slot s) = Slot_Empty"
  "cs_owner (reset_slot s) = null_handle" "cs_controller_id (reset_slot s) = cs_controller_id s"
  "cs_generation (reset_slot s) = cs_generation s + 1" "cs_profile (reset_slot s) = None"
  "cs_submits_in_flight (reset_slot s) = 0" "\<not> cs_force_feedback (reset_slot s)"
  by (simp_all add: reset_slot_def zero_slot_def)

lemma reset_slot_cong:
  "slot_identity s = slot_identity t \<Longrightarrow> slot_identity (reset_slot s) = slot_identity (reset_slot t)"
  by (simp add: slot_identity_fields)

lemma reset_slot_sound: "slot_sound i s \<Longrightarrow> slot_sound i (reset_slot s)"
  by (simp add: slot_sound_def)

lemma settled_on_slot:
  assumes "settled ctx" "length (dc_controllers ctx) = k_max_controllers" "i < k_max_controllers"
    "cs_state (f (slot_at i ctx)) \<in> {Slot_Empty, Slot_Active, Slot_Lost}"
  shows "settled (on_slot i f ctx)"
  using assms by (simp add: settled_def)

section \<open>Destruction\<close>

lemma wait_calm: "calm ctx (wait_for_submits i ctx)"
  by (rule quiet_calm) (auto simp: wait_for_submits_def slot_identity_fields intro!: quiet_on_slot)

lemma destroy_ok:
  assumes "driver_ok ctx" "owner \<noteq> null_handle"
  shows "driver_ok (destroy_owned_controller owner i ctx)"
proof (cases "i < k_max_controllers \<and> is_owned_by (slot_at i ctx) owner \<and>
    cs_state (slot_at i ctx) \<noteq> Slot_Empty")
  case False
  then show ?thesis using assms by (auto simp: destroy_owned_controller_def destroy_locked_def)
next
  case True
  then have i: "i < k_max_controllers" by simp
  have core: "core_ok {} ctx" and set: "settled ctx" using assms(1) by (simp_all add: driver_ok_def)
  note ok = core_okD [OF core]
  have sound: "slot_sound i (slot_at i ctx)" by (rule ok(2) [OF i])
  show ?thesis
  proof (cases "cs_state (slot_at i ctx) = Slot_Lost")
    case True
    then have e: "destroy_owned_controller owner i ctx = on_slot i reset_slot ctx"
      using \<open>i < k_max_controllers \<and> _ \<and> _\<close>
      by (simp add: destroy_owned_controller_def destroy_locked_def)
    have "cs_vhf (slot_at i ctx) = null_handle" using sound True by (auto simp: slot_sound_def)
    then have "core_ok {} (on_slot i reset_slot ctx)"
      by (intro core_ok_on_slot core i reset_slot_sound sound) simp
    moreover have "settled (on_slot i reset_slot ctx)"
      by (rule settled_on_slot [OF set ok(1) i]) simp
    ultimately show ?thesis by (simp add: e driver_ok_def)
  next
    case False
    then have act: "cs_state (slot_at i ctx) = Slot_Active"
      using set i True by (auto simp: settled_def)
    let ?h = "cs_vhf (slot_at i ctx)"
    have h: "?h \<noteq> null_handle" using sound act by (simp add: slot_sound_def)
    obtain f c1 where d: "destroy_locked owner i ctx = (Some ?h, c1)" "c1 = on_slot i f ctx"
      "cs_vhf (f (slot_at i ctx)) = null_handle" "slot_sound i (f (slot_at i ctx))"
      "cs_owner (f (slot_at i ctx)) = owner" "cs_state (f (slot_at i ctx)) = Slot_Stopping"
      using True act sound unfolding destroy_locked_def is_owned_by_def
      by (auto simp: slot_sound_def)
    have "core_ok {?h} c1" unfolding d(2) by (rule core_ok_detach) (use core i h d(3,4) in simp_all)
    then have "core_ok {?h} (wait_for_submits i c1)" by (rule core_ok_calm) (rule wait_calm)
    then have c2: "core_ok {} (log_call (Vhf_Delete ?h) (wait_for_submits i c1))" (is "core_ok {} ?c2")
      by (rule core_ok_deleted) simp
    have len: "i < length (dc_controllers c1)" using ok(1) i d(2) by simp
    have at: "slot_identity (slot_at i ?c2) = slot_identity (f (slot_at i ctx))"
      using calm_identity [OF wait_calm len] ok(1) i d(2) by simp
    have "destroy_owned_controller owner i ctx = on_slot i reset_slot ?c2"
      using True d(1,5,6) h at
      by (simp add: destroy_owned_controller_def destroy_finish_def is_owned_by_def slot_identity_fields)
    moreover have "core_ok {} (on_slot i reset_slot ?c2)"
      by (rule core_ok_on_slot [OF c2 i])
        (use at d(3) core_okD(2) [OF c2 i] in \<open>simp_all add: slot_identity_fields reset_slot_sound\<close>)
    moreover have "settled (on_slot i reset_slot ?c2)"
    proof -
      have "cs_state (slot_at j ?c2) = cs_state (slot_at j ctx)" if "j < k_max_controllers" "j \<noteq> i" for j
        using calm_identity [OF wait_calm [of c1 i], of j] ok(1) that i d(2)
        by (simp add: slot_identity_fields)
      then show ?thesis
        using set core_okD(1) [OF c2] i by (auto simp: settled_def)
    qed
    ultimately show ?thesis by (simp add: driver_ok_def)
  qed
qed

lemma destroy_controller_ok:
  "driver_ok ctx \<Longrightarrow> owner \<noteq> null_handle \<Longrightarrow> driver_ok (snd (destroy_controller owner request ctx))"
  by (simp add: destroy_controller_def Let_def destroy_ok)

lemma file_close_ok: "driver_ok ctx \<Longrightarrow> driver_ok (evt_file_close file ctx)"
proof -
  have "driver_ok (foldl (\<lambda>ctx i. destroy_owned_controller file i ctx) ctx is)"
    if "driver_ok ctx" "file \<noteq> null_handle" for "is"
    using that by (induction "is" arbitrary: ctx) (simp_all add: destroy_ok)
  then show "driver_ok ctx \<Longrightarrow> driver_ok (evt_file_close file ctx)"
    by (simp add: evt_file_close_def)
qed

section \<open>Creation\<close>

lemma ensure_target_calm: "calm ctx (snd (ensure_vhf_target_open os ctx))"
  by (rule calm_same) (simp_all add: ensure_vhf_target_open_def)

lemma release_ok:
  assumes "core_ok {} ctx" "i < k_max_controllers" "cs_vhf (slot_at i ctx) = null_handle"
    "cs_owner (slot_at i ctx) = owner"
    "cs_state (slot_at i ctx) = Slot_Starting \<or> cs_state (slot_at i ctx) = Slot_Stopping"
    "\<And>j. j < k_max_controllers \<Longrightarrow> j \<noteq> i \<Longrightarrow>
      cs_state (slot_at j ctx) \<in> {Slot_Empty, Slot_Active, Slot_Lost}"
  shows "driver_ok (release_starting_slot i owner ctx)"
proof -
  have e: "release_starting_slot i owner ctx = on_slot i reset_slot ctx"
    using assms(4,5) by (simp add: release_starting_slot_def)
  have "core_ok {} (on_slot i reset_slot ctx)"
    by (rule core_ok_on_slot [OF assms(1,2)])
      (simp_all add: assms(3) reset_slot_sound core_okD(2) [OF assms(1,2)])
  moreover have "settled (on_slot i reset_slot ctx)"
    using assms(2,6) core_okD(1) [OF assms(1)] by (simp add: settled_def)
  ultimately show ?thesis by (simp add: e driver_ok_def)
qed

text \<open>What the rest of a creation starts from: slot \<open>i\<close> is being started for
  \<open>owner\<close> and holds the handle \<open>h\<close>; the others are settled.\<close>

definition starting_ok :: "nat \<Rightarrow> handle \<Rightarrow> handle \<Rightarrow> device_context \<Rightarrow> bool"
  where "starting_ok i owner h ctx \<longleftrightarrow> core_ok {} ctx \<and> i < k_max_controllers \<and>
    cs_state (slot_at i ctx) = Slot_Starting \<and> cs_owner (slot_at i ctx) = owner \<and>
    cs_vhf (slot_at i ctx) = h \<and>
    (\<forall>j < k_max_controllers. j \<noteq> i \<longrightarrow> cs_state (slot_at j ctx) \<in> {Slot_Empty, Slot_Active, Slot_Lost})"

lemma starting_ok_calm:
  assumes "starting_ok i owner h ctx" "calm ctx ctx'"
  shows "starting_ok i owner h ctx'"
proof -
  have core: "core_ok {} ctx" using assms(1) by (simp add: starting_ok_def)
  have "slot_identity (slot_at j ctx') = slot_identity (slot_at j ctx)" if "j < k_max_controllers" for j
    using calm_identity [OF assms(2)] core_okD(1) [OF core] that by simp
  then show ?thesis
    using assms(1) core_ok_calm [OF core assms(2)] by (auto simp: starting_ok_def slot_identity_fields)
qed

lemma starting_ok_release:
  "starting_ok i owner null_handle ctx \<Longrightarrow> driver_ok (release_starting_slot i owner ctx)"
  unfolding starting_ok_def by (intro release_ok) simp_all

lemma adopt_ok:
  assumes "starting_ok i owner h ctx" "h \<noteq> null_handle" "adopt_child status owner i ctx = (adopted, ctx')"
  shows "(adopted \<longrightarrow> driver_ok ctx') \<and>
    (\<not> adopted \<longrightarrow> driver_ok (release_starting_slot i owner (log_call (Vhf_Delete h) ctx')))"
proof -
  have core: "core_ok {} ctx" and i: "i < k_max_controllers"
    and st: "cs_state (slot_at i ctx) = Slot_Starting" and ow: "cs_owner (slot_at i ctx) = owner"
    and vhf: "cs_vhf (slot_at i ctx) = h"
    and others: "\<And>j. j < k_max_controllers \<Longrightarrow> j \<noteq> i \<Longrightarrow>
      cs_state (slot_at j ctx) \<in> {Slot_Empty, Slot_Active, Slot_Lost}"
    using assms(1) by (auto simp: starting_ok_def)
  note ok = core_okD [OF core]
  have sound: "slot_sound i (slot_at i ctx)" by (rule ok(2) [OF i])
  show ?thesis
  proof (cases "nt_success status \<and> \<not> dc_stopping ctx \<and> dc_powered ctx")
    case True
    let ?f = "\<lambda>s. s\<lparr>cs_state := Slot_Active\<rparr>"
    have r: "adopted" "ctx' = on_slot i ?f ctx"
      using assms(3) True st ow by (simp_all add: adopt_child_def)
    have "core_ok {} (on_slot i ?f ctx)"
      by (rule core_ok_on_slot [OF core i]) (use sound st vhf assms(2) in \<open>auto simp: slot_sound_def\<close>)
    moreover have "settled (on_slot i ?f ctx)" using others ok(1) i by (simp add: settled_def)
    ultimately show ?thesis using r by (simp add: driver_ok_def)
  next
    case False
    let ?f = "\<lambda>s. s\<lparr>cs_state := Slot_Stopping, cs_feedback_pending := False, cs_vhf := null_handle\<rparr>"
    have r: "\<not> adopted" "ctx' = on_slot i ?f ctx"
      using assms(3) False by (auto simp: adopt_child_def)
    have "core_ok {h} (on_slot i ?f ctx)"
      by (rule core_ok_detach [OF core i vhf assms(2)]) (use sound st in \<open>auto simp: slot_sound_def\<close>)
    then have "core_ok {} (log_call (Vhf_Delete h) (on_slot i ?f ctx))"
      by (rule core_ok_deleted) simp
    then have "driver_ok (release_starting_slot i owner (log_call (Vhf_Delete h) (on_slot i ?f ctx)))"
      by (rule release_ok [OF _ i]) (use ow others ok(1) i in simp_all)
    then show ?thesis using r by simp
  qed
qed

lemma name_child_calm: "calm ctx (on_slot i (name_child cid) ctx)"
  by (rule quiet_calm) (auto simp: name_child_def slot_identity_fields intro!: quiet_on_slot)

lemma start_child_ok:
  assumes "starting_ok i owner null_handle ctx" "i = unat cid"
    "snd (os_vhf_create os) \<noteq> null_handle" "snd (os_vhf_create os) \<notin> held_handles ctx"
    "\<And>c. length (dc_controllers c) = k_max_controllers \<Longrightarrow> calm c (snd (os_vhf_start os c))"
  shows "driver_ok (snd (start_child os owner cid defn ctx))"
proof -
  obtain status h where cr: "os_vhf_create os = (status, h)" by (cases "os_vhf_create os")
  let ?c1 = "on_slot i (name_child cid) ctx"
  have c1: "starting_ok i owner null_handle ?c1" by (rule starting_ok_calm [OF assms(1) name_child_calm])
  have h: "h \<noteq> null_handle" "h \<notin> held_handles ?c1"
    using assms(3,4) cr calm_held [OF name_child_calm] by simp_all
  show ?thesis
  proof (cases "nt_success status")
    case False
    then show ?thesis using starting_ok_release [OF c1] cr assms(2) by (simp add: start_child_def Let_def)
  next
    case True
    let ?c2 = "log_call (Vhf_Create (child_config defn (slot_at i ?c1)) h) ?c1"
    let ?c3 = "on_slot i (\<lambda>s. s\<lparr>cs_vhf := h\<rparr>) ?c2"
    let ?c4 = "log_call (Vhf_Start h) ?c3"
    have i: "i < k_max_controllers" and st: "cs_state (slot_at i ?c1) = Slot_Starting"
      and core: "core_ok {} ?c1" and vhf: "cs_vhf (slot_at i ?c1) = null_handle"
      using c1 by (simp_all add: starting_ok_def)
    have c2: "core_ok {h} ?c2" by (rule core_ok_created [OF core h]) simp
    have len: "length (dc_controllers ?c2) = k_max_controllers" by (rule core_okD(1) [OF c2])
    have c3: "core_ok {} ?c3"
      by (rule core_ok_publish [OF c2 i h(1)])
        (use core_okD(2) [OF core i] st vhf in \<open>auto simp: slot_sound_def\<close>)
    have at: "slot_at j ?c3 = (if j = i then (slot_at i ?c1)\<lparr>cs_vhf := h\<rparr> else slot_at j ?c1)" for j
      using len i by simp
    have "h \<in> held_handles ?c3"
      using held_put_handle [OF c2 i, of "\<lambda>s. s\<lparr>cs_vhf := h\<rparr>"] h(1) by simp
    then have "core_ok {} ?c4" by (rule core_ok_started [OF c3])
    then have c4: "starting_ok i owner h ?c4" using c1 at by (simp add: starting_ok_def)
    obtain st5 c5 where s5: "os_vhf_start os ?c4 = (st5, c5)" by (cases "os_vhf_start os ?c4")
    have "length (dc_controllers ?c4) = k_max_controllers"
      using c4 core_okD(1) unfolding starting_ok_def by blast
    from assms(5) [OF this] have "calm ?c4 c5" using s5 by simp
    then have c5: "starting_ok i owner h c5" by (rule starting_ok_calm [OF c4])
    obtain a c6 where a: "adopt_child st5 owner i c5 = (a, c6)" by (cases "adopt_child st5 owner i c5")
    from adopt_ok [OF c5 h(1) a] show ?thesis
      using True a s5 cr assms(2) by (auto simp: start_child_def Let_def)
  qed
qed

lemma starting_slot_fields [simp]:
  "cs_state (starting_slot owner cid defn s) = Slot_Starting"
  "cs_owner (starting_slot owner cid defn s) = owner"
  "cs_vhf (starting_slot owner cid defn s) = null_handle"
  "cs_controller_id (starting_slot owner cid defn s) = cs_controller_id s"
  "cs_generation (starting_slot owner cid defn s) = cs_generation s + 1"
  "cs_profile (starting_slot owner cid defn s) = Some (pd_id defn)"
  by (simp_all add: starting_slot_def Let_def)

lemma create_ok:
  assumes "driver_ok ctx" "driver_ok (os_meanwhile os ctx)" "owner \<noteq> null_handle"
    "snd (os_vhf_create os) \<noteq> null_handle"
    "snd (os_vhf_create os) \<notin> held_handles (os_meanwhile os ctx)"
    "\<And>c. length (dc_controllers c) = k_max_controllers \<Longrightarrow> calm c (snd (os_vhf_start os c))"
  shows "driver_ok (snd (create_controller os owner request ctx))"
proof -
  let ?i = "unat (cc_controller_id request)"
  let ?c1 = "os_meanwhile os ctx"
  have core: "core_ok {} ?c1" and set: "settled ?c1" using assms(2) by (simp_all add: driver_ok_def)
  have begin_ok: "starting_ok ?i owner null_handle (on_slot ?i (starting_slot owner cid defn) ?c1)"
    if i: "?i < k_max_controllers" and av: "slot_available owner (slot_at ?i ?c1)" for cid defn
  proof -
    have sound: "slot_sound ?i (slot_at ?i ?c1)" by (rule core_okD(2) [OF core i])
    have vhf: "cs_vhf (slot_at ?i ?c1) = null_handle"
      using sound av by (auto simp: slot_sound_def slot_available_def)
    have "core_ok {} (on_slot ?i (starting_slot owner cid defn) ?c1)"
      by (rule core_ok_on_slot [OF core i]) (use sound vhf assms(3) in \<open>simp_all add: slot_sound_def\<close>)
    then show ?thesis
      using i set core_okD(1) [OF core] by (auto simp: starting_ok_def settled_def)
  qed
  have run: "driver_ok (snd (let ctx = on_slot ?i (starting_slot owner (cc_controller_id request) defn) ?c1;
        (open_status, ctx) = ensure_vhf_target_open os ctx
      in if \<not> nt_success open_status then (open_status, release_starting_slot ?i owner ctx)
         else if dc_vhf_file_handle ctx = null_handle
         then (Status_Device_Not_Ready, release_starting_slot ?i owner ctx)
         else start_child os owner (cc_controller_id request) defn ctx))"
    if i: "?i < k_max_controllers" and av: "slot_available owner (slot_at ?i ?c1)" for defn
  proof -
    let ?c2 = "on_slot ?i (starting_slot owner (cc_controller_id request) defn) ?c1"
    obtain st c3 where e: "ensure_vhf_target_open os ?c2 = (st, c3)"
      by (cases "ensure_vhf_target_open os ?c2")
    have calm: "calm ?c2 c3" using ensure_target_calm [of ?c2 os] e by simp
    have c3: "starting_ok ?i owner null_handle c3"
      by (rule starting_ok_calm [OF begin_ok [OF i av] calm])
    have "held_handles ?c2 = held_handles ?c1"
      by (rule held_on_slot) (use core_okD(2) [OF core i] av in
        \<open>auto simp: slot_sound_def slot_available_def\<close>)
    then have fresh: "snd (os_vhf_create os) \<notin> held_handles c3"
      using assms(5) calm_held [OF calm] by simp
    show ?thesis
      using starting_ok_release [OF c3] start_child_ok [OF c3 refl assms(4) fresh assms(6)] e by simp
  qed
  show ?thesis
    using assms(1,2) run
    by (auto simp: create_controller_def create_revalidate_def Let_def split: option.split if_split_asm)
qed

section \<open>Stopping and power\<close>

text \<open>All slots at once: an update that keeps the handles, and one that detaches some.\<close>

lemma slot_at_map:
  "i < length (dc_controllers ctx) \<Longrightarrow>
    slot_at i (ctx\<lparr>dc_controllers := map f (dc_controllers ctx)\<rparr>) = f (slot_at i ctx)"
  by (simp add: slot_at_def)

lemma core_ok_same_handles:
  assumes "core_ok ex ctx" "length (dc_controllers ctx') = k_max_controllers"
    "dc_log ctx' = dc_log ctx"
    "\<And>i. i < k_max_controllers \<Longrightarrow> cs_vhf (slot_at i ctx') = cs_vhf (slot_at i ctx)"
    "\<And>i. i < k_max_controllers \<Longrightarrow> slot_sound i (slot_at i ctx')"
  shows "core_ok ex ctx'"
proof -
  note ok = core_okD [OF assms(1)]
  have held: "held_handles ctx' = held_handles ctx"
    unfolding held_handles_slots [OF assms(2)] held_handles_slots [OF ok(1)] using assms(4) by auto metis+
  show ?thesis using ok assms(2-5) held unfolding core_ok_def by (simp only:) auto
qed

lemma core_ok_detach_all:
  assumes "core_ok {} ctx" "length (dc_controllers ctx') = k_max_controllers"
    "dc_log ctx' = dc_log ctx"
    "\<And>i. i < k_max_controllers \<Longrightarrow> cs_vhf (slot_at i ctx') =
      (if D i then null_handle else cs_vhf (slot_at i ctx))"
    "\<And>i. i < k_max_controllers \<Longrightarrow> slot_sound i (slot_at i ctx')"
  shows "core_ok {cs_vhf (slot_at i ctx) | i. i < k_max_controllers \<and> D i \<and>
    cs_vhf (slot_at i ctx) \<noteq> null_handle} ctx'" (is "core_ok ?ex ctx'")
proof -
  note ok = core_okD [OF assms(1)]
  have held: "held_handles ctx' = {cs_vhf (slot_at i ctx) | i. i < k_max_controllers \<and> \<not> D i \<and>
      cs_vhf (slot_at i ctx) \<noteq> null_handle}" (is "_ = ?kept")
    unfolding held_handles_slots [OF assms(2)] using assms(4) by (auto split: if_splits) metis+
  have "held_handles ctx = ?kept \<union> ?ex"
    unfolding held_handles_slots [OF ok(1)] by auto
  moreover have "?ex \<inter> ?kept = {}" using ok(3) by blast
  ultimately show ?thesis
    using ok(5) assms(2-5) held ok(3) unfolding core_ok_def by (simp only:) auto
qed

text \<open>Draining and deleting every detached handle, slot by slot.\<close>

definition undeleted :: "handle list \<Rightarrow> nat \<Rightarrow> handle set"
  where "undeleted hs n = {hs ! i | i. n \<le> i \<and> i < k_max_controllers \<and> hs ! i \<noteq> null_handle}"

lemma undeleted_Suc:
  assumes "n < k_max_controllers" "\<forall>i < k_max_controllers. \<forall>j < k_max_controllers.
    i \<noteq> j \<and> hs ! i \<noteq> null_handle \<longrightarrow> hs ! i \<noteq> hs ! j"
  shows "undeleted hs n = (if hs ! n = null_handle then undeleted hs (Suc n)
    else insert (hs ! n) (undeleted hs (Suc n)))"
    and "hs ! n \<notin> undeleted hs (Suc n)"
proof -
  show "undeleted hs n = (if hs ! n = null_handle then undeleted hs (Suc n)
    else insert (hs ! n) (undeleted hs (Suc n)))"
    using assms(1) by (auto simp: undeleted_def Suc_le_eq le_less)
  show "hs ! n \<notin> undeleted hs (Suc n)"
    unfolding undeleted_def
  proof
    assume "hs ! n \<in> {hs ! i | i. Suc n \<le> i \<and> i < k_max_controllers \<and> hs ! i \<noteq> null_handle}"
    then obtain i where "hs ! n = hs ! i" "Suc n \<le> i" "i < k_max_controllers" "hs ! i \<noteq> null_handle"
      by auto
    then show False using assms(2) [rule_format, of i n] assms(1) by auto
  qed
qed

lemma undeleted_end [simp]: "undeleted hs k_max_controllers = {}"
  by (auto simp: undeleted_def)

lemma undeleted_0:
  assumes "\<And>i. i < k_max_controllers \<Longrightarrow> hs ! i = (if D i then g i else null_handle)"
  shows "undeleted hs 0 = {g i | i. i < k_max_controllers \<and> D i \<and> g i \<noteq> null_handle}"
proof
  show "undeleted hs 0 \<subseteq> {g i | i. i < k_max_controllers \<and> D i \<and> g i \<noteq> null_handle}"
    using assms by (auto simp: undeleted_def split: if_splits)
  show "{g i | i. i < k_max_controllers \<and> D i \<and> g i \<noteq> null_handle} \<subseteq> undeleted hs 0"
  proof
    fix x assume "x \<in> {g i | i. i < k_max_controllers \<and> D i \<and> g i \<noteq> null_handle}"
    then obtain i where "x = g i" "i < k_max_controllers" "D i" "g i \<noteq> null_handle" by auto
    then show "x \<in> undeleted hs 0" using assms [of i] unfolding undeleted_def by (auto intro!: exI [of _ i])
  qed
qed

lemma drain_all:
  assumes core: "core_ok (undeleted hs 0) ctx"
    and distinct: "\<forall>i < k_max_controllers. \<forall>j < k_max_controllers.
      i \<noteq> j \<and> hs ! i \<noteq> null_handle \<longrightarrow> hs ! i \<noteq> hs ! j"
    and f: "\<And>i s. slot_sound i s \<Longrightarrow> cs_vhf s = null_handle \<Longrightarrow> slot_sound i (f s) \<and> cs_vhf (f s) = null_handle"
      "\<And>i. i < k_max_controllers \<Longrightarrow> hs ! i \<noteq> null_handle \<Longrightarrow> cs_vhf (slot_at i ctx) = null_handle"
      "\<And>s t. slot_identity s = slot_identity t \<Longrightarrow> slot_identity (f s) = slot_identity (f t)"
    and n: "n \<le> k_max_controllers"
  shows "core_ok (undeleted hs n) (foldl (\<lambda>ctx i. drain_and_delete f hs i ctx) ctx [0..<n]) \<and>
    (\<forall>i < k_max_controllers.
      slot_identity (slot_at i (foldl (\<lambda>ctx i. drain_and_delete f hs i ctx) ctx [0..<n])) =
      slot_identity (if i < n \<and> hs ! i \<noteq> null_handle then f (slot_at i ctx) else slot_at i ctx))"
  using n
proof (induction n)
  case 0
  then show ?case using core by simp
next
  case (Suc n)
  let ?c = "foldl (\<lambda>ctx i. drain_and_delete f hs i ctx) ctx [0..<n]"
  let ?c' = "drain_and_delete f hs n ?c"
  have fold: "foldl (\<lambda>ctx i. drain_and_delete f hs i ctx) ctx [0..<Suc n] = ?c'" by simp
  have nk: "n < k_max_controllers" using Suc by simp
  have ck: "core_ok (undeleted hs n) ?c" and at: "\<And>i. i < k_max_controllers \<Longrightarrow>
      slot_identity (slot_at i ?c) =
      slot_identity (if i < n \<and> hs ! i \<noteq> null_handle then f (slot_at i ctx) else slot_at i ctx)"
    using Suc by auto
  show ?case
  proof (cases "hs ! n = null_handle")
    case True
    have "undeleted hs n = undeleted hs (Suc n)" using undeleted_Suc(1) [OF nk distinct] True by simp
    moreover have "(i < Suc n \<and> hs ! i \<noteq> null_handle) = (i < n \<and> hs ! i \<noteq> null_handle)" for i
      using True by (auto simp: less_Suc_eq)
    ultimately show ?thesis using ck at True by (simp add: drain_and_delete_def)
  next
    case False
    let ?w = "wait_for_submits n ?c"
    let ?d = "log_call (Vhf_Delete (hs ! n)) ?w"
    have len: "length (dc_controllers ?c) = k_max_controllers" by (rule core_okD(1) [OF ck])
    have u: "undeleted hs n = insert (hs ! n) (undeleted hs (Suc n))" "hs ! n \<notin> undeleted hs (Suc n)"
      using undeleted_Suc [OF nk distinct] False by simp_all
    have "core_ok (undeleted hs n) ?w" by (rule core_ok_calm [OF ck wait_calm])
    then have dk: "core_ok (undeleted hs (Suc n)) ?d" unfolding u(1) by (rule core_ok_deleted) (rule u(2))
    have wl: "length (dc_controllers ?d) = k_max_controllers" by (rule core_okD(1) [OF dk])
    have "slot_identity (slot_at n ?c) = slot_identity (slot_at n ctx)" using at [OF nk] by simp
    moreover have sn: "slot_at n ?d = (slot_at n ?c)\<lparr>cs_submits_in_flight := 0\<rparr>"
      using len nk by (simp add: wait_for_submits_def)
    ultimately have vn: "cs_vhf (slot_at n ?d) = null_handle"
      using f(2) [OF nk False] by (simp add: slot_identity_fields)
    note fs = f(1) [OF core_okD(2) [OF dk nk] vn]
    have "core_ok (undeleted hs (Suc n)) (on_slot n f ?d)"
      by (rule core_ok_on_slot [OF dk nk]) (use fs vn in simp_all)
    then have "core_ok (undeleted hs (Suc n)) ?c'" using False by (simp add: drain_and_delete_def)
    moreover have "slot_identity (slot_at i ?c') = slot_identity
        (if i < Suc n \<and> hs ! i \<noteq> null_handle then f (slot_at i ctx) else slot_at i ctx)"
      if i: "i < k_max_controllers" for i
    proof (cases "i = n")
      case True
      have "slot_identity (slot_at n ?d) = slot_identity (slot_at n ctx)"
        using sn at [OF nk] by (simp add: slot_identity_fields)
      then have "slot_identity (f (slot_at n ?d)) = slot_identity (f (slot_at n ctx))" by (rule f(3))
      then show ?thesis using True False wl nk by (simp add: drain_and_delete_def)
    next
      case other: False
      then have "slot_at i ?c' = slot_at i ?w" using False wl i nk by (simp add: drain_and_delete_def)
      then have "slot_identity (slot_at i ?c') = slot_identity (slot_at i ?c)"
        using calm_identity [OF wait_calm [of ?c n], of i] len i by simp
      then show ?thesis using at [OF i] other by (auto simp: less_Suc_eq)
    qed
    ultimately show ?thesis unfolding fold by blast
  qed
qed

lemma stop_timers_calm: "calm ctx (stop_timers ctx)"
proof -
  have "calm c (stop_sc26_keepalive c)" for c by (rule quiet_calm) (rule stop_keepalive_quiet)
  moreover have "calm ctx (ctx\<lparr>dc_pid_timer_armed := False\<rparr>)" by (rule calm_same) simp_all
  ultimately show ?thesis by (auto simp: stop_timers_def intro: calm_trans)
qed

lemma stop_slot_fields:
  "cs_controller_id (stop_slot s) = cs_controller_id s"
  "cs_state (stop_slot s) = (if cs_state s = Slot_Active \<or> cs_state s = Slot_Starting
    then Slot_Stopping else if cs_state s = Slot_Lost then Slot_Empty else cs_state s)"
  "cs_vhf (stop_slot s) = (if cs_state s = Slot_Lost then null_handle else cs_vhf s)"
  "cs_owner (stop_slot s) = (if cs_state s = Slot_Lost then null_handle else cs_owner s)"
  by (simp_all add: stop_slot_def Let_def)

text \<open>After a stop every slot is empty and every handle the driver ever created is deleted.\<close>

lemma stop_all_ok:
  assumes "driver_ok ctx"
  shows "driver_ok (stop_owned_controllers forget ctx) \<and>
    (\<forall>i < k_max_controllers. cs_state (slot_at i (stop_owned_controllers forget ctx)) = Slot_Empty)"
proof -
  have core: "core_ok {} ctx" and set: "settled ctx" using assms by (simp_all add: driver_ok_def)
  note ok = core_okD [OF core]
  have vhf_state: "(cs_vhf (slot_at i ctx) \<noteq> null_handle) = (cs_state (slot_at i ctx) = Slot_Active)"
    if "i < k_max_controllers" for i
    using ok(2) [OF that] set that by (auto simp: slot_sound_def settled_def)
  define c1 where "c1 = ctx\<lparr>dc_stopping := True, dc_powered := False, dc_sc26_timer_running := False,
    dc_controllers := map stop_slot (dc_controllers ctx), dc_vhf_file_handle := null_handle\<rparr>"
  define c3 where "c3 = (if forget then c1\<lparr>dc_local_vhf_target := False, dc_vhf_target_open := False\<rparr> else c1)"
  define hs where "hs = map (fst \<circ> detach_stopping) (dc_controllers c3)"
  define c4 where "c4 = c3\<lparr>dc_controllers := map (snd \<circ> detach_stopping) (dc_controllers c3)\<rparr>"
  define c5 where "c5 = foldl (\<lambda>ctx i. drain_and_delete reset_slot hs i ctx) c4 [0..<k_max_controllers]"
  have run: "stop_owned_controllers forget ctx = stop_timers c5"
    unfolding stop_owned_controllers_def Let_def c5_def c4_def hs_def c3_def c1_def
    by (simp cong: if_cong)
  have l3: "length (dc_controllers c3) = k_max_controllers"
    and s3: "slot_at i c3 = stop_slot (slot_at i ctx)" if "i < k_max_controllers" for i
    using that ok(1) by (simp_all add: slot_at_def c3_def c1_def)
  have log: "dc_log c4 = dc_log ctx" by (simp add: c4_def c3_def c1_def)
  have s4: "slot_at i c4 = snd (detach_stopping (stop_slot (slot_at i ctx)))"
    and hs: "hs ! i = cs_vhf (slot_at i ctx)"
    and v: "cs_vhf (slot_at i c4) = null_handle" if i: "i < k_max_controllers" for i
  proof -
    show s4: "slot_at i c4 = snd (detach_stopping (stop_slot (slot_at i ctx)))"
      using l3 [OF i] s3 [OF i] i by (simp add: slot_at_def c4_def)
    have st: "cs_state (slot_at i ctx) = Slot_Empty \<or> cs_state (slot_at i ctx) = Slot_Active \<or>
        cs_state (slot_at i ctx) = Slot_Lost" using set i by (simp add: settled_def)
    have "hs ! i = fst (detach_stopping (slot_at i c3))" using l3 [OF i] i by (simp add: slot_at_def hs_def)
    then show "hs ! i = cs_vhf (slot_at i ctx)"
      using st vhf_state [OF i] s3 [OF i] by (auto simp: detach_stopping_def stop_slot_fields)
    show "cs_vhf (slot_at i c4) = null_handle"
      using st vhf_state [OF i] unfolding s4 by (auto simp: detach_stopping_def stop_slot_fields)
  qed
  have l4: "length (dc_controllers c4) = k_max_controllers"
    using ok(1) by (simp add: c4_def c3_def c1_def)
  have "core_ok {cs_vhf (slot_at i ctx) | i. i < k_max_controllers \<and> True \<and>
      cs_vhf (slot_at i ctx) \<noteq> null_handle} c4"
  proof (rule core_ok_detach_all [OF core l4 log])
    fix i assume i: "i < k_max_controllers"
    show "cs_vhf (slot_at i c4) = (if True then null_handle else cs_vhf (slot_at i ctx))"
      using v [OF i] by simp
    have st: "cs_state (slot_at i ctx) = Slot_Empty \<or> cs_state (slot_at i ctx) = Slot_Active \<or>
        cs_state (slot_at i ctx) = Slot_Lost" using set i by (simp add: settled_def)
    then show "slot_sound i (slot_at i c4)"
      using ok(2) [OF i] unfolding s4 [OF i]
      by (auto simp: detach_stopping_def stop_slot_fields slot_sound_def)
  qed
  moreover have "undeleted hs 0 = {cs_vhf (slot_at i ctx) | i. i < k_max_controllers \<and> True \<and>
      cs_vhf (slot_at i ctx) \<noteq> null_handle}"
    by (rule undeleted_0) (simp add: hs)
  ultimately have c4: "core_ok (undeleted hs 0) c4" by simp
  have d: "\<forall>i < k_max_controllers. \<forall>j < k_max_controllers. i \<noteq> j \<and> hs ! i \<noteq> null_handle \<longrightarrow> hs ! i \<noteq> hs ! j"
    using ok(3) hs by simp
  have drained: "core_ok (undeleted hs k_max_controllers) c5 \<and>
      (\<forall>i < k_max_controllers. slot_identity (slot_at i c5) =
        slot_identity (if i < k_max_controllers \<and> hs ! i \<noteq> null_handle then reset_slot (slot_at i c4)
          else slot_at i c4))"
    unfolding c5_def
    by (rule drain_all [OF c4 d]) (simp_all add: v reset_slot_sound, erule reset_slot_cong)
  have empty: "cs_state (slot_at i c5) = Slot_Empty" if i: "i < k_max_controllers" for i
  proof -
    have "cs_state (slot_at i c5) = cs_state (if hs ! i \<noteq> null_handle then reset_slot (slot_at i c4)
        else slot_at i c4)"
      using drained i by (auto simp: slot_identity_fields)
    moreover have "cs_state (slot_at i ctx) = Slot_Empty \<or> cs_state (slot_at i ctx) = Slot_Active \<or>
        cs_state (slot_at i ctx) = Slot_Lost" using set i by (simp add: settled_def)
    ultimately show ?thesis
      using hs [OF i] vhf_state [OF i] s4 [OF i]
      by (auto simp: detach_stopping_def stop_slot_fields)
  qed
  have core5: "core_ok {} c5" using drained by simp
  have "core_ok {} (stop_timers c5)" by (rule core_ok_calm [OF core5 stop_timers_calm])
  moreover have "cs_state (slot_at i (stop_timers c5)) = Slot_Empty" if "i < k_max_controllers" for i
    using calm_identity [OF stop_timers_calm [of c5], of i] core_okD(1) [OF core5] that empty [OF that]
    by (simp add: slot_identity_fields)
  ultimately show ?thesis unfolding run by (simp add: driver_ok_def settled_def)
qed

lemma power_down_ok:
  assumes "driver_ok ctx"
  shows "driver_ok (power_down_controllers ctx) \<and> (\<forall>i < k_max_controllers.
    cs_owner (slot_at i (power_down_controllers ctx)) = cs_owner (slot_at i ctx) \<and>
    cs_profile (slot_at i (power_down_controllers ctx)) = cs_profile (slot_at i ctx) \<and>
    cs_state (slot_at i (power_down_controllers ctx)) =
      (if cs_state (slot_at i ctx) = Slot_Empty then Slot_Empty else Slot_Lost))"
proof -
  have core: "core_ok {} ctx" and set: "settled ctx" using assms by (simp_all add: driver_ok_def)
  note ok = core_okD [OF core]
  have st: "cs_state (slot_at i ctx) = Slot_Empty \<or> cs_state (slot_at i ctx) = Slot_Active \<or>
      cs_state (slot_at i ctx) = Slot_Lost"
    and vhf_state: "(cs_vhf (slot_at i ctx) \<noteq> null_handle) = (cs_state (slot_at i ctx) = Slot_Active)"
    if "i < k_max_controllers" for i
    using ok(2) [OF that] set that by (auto simp: slot_sound_def settled_def)
  define c1 where "c1 = ctx\<lparr>dc_powered := False, dc_sc26_timer_running := False\<rparr>"
  define hs where "hs = map (fst \<circ> power_down_slot) (dc_controllers c1)"
  define c2 where "c2 = c1\<lparr>dc_controllers := map (snd \<circ> power_down_slot) (dc_controllers c1)\<rparr>"
  define c3 where "c3 = c2\<lparr>dc_controllers := map2 detach_handle hs (dc_controllers c2)\<rparr>"
  define c4 where "c4 = stop_timers c3"
  define c5 where "c5 = foldl (\<lambda>ctx i. drain_and_delete id hs i ctx) c4 [0..<k_max_controllers]"
  define c6 where "c6 = c5\<lparr>dc_controllers := map2 lose_slot hs (dc_controllers c5)\<rparr>"
  have run: "power_down_controllers ctx = c6"
    unfolding power_down_controllers_def Let_def c6_def c5_def c4_def c3_def c2_def hs_def c1_def by simp
  have l2: "length (dc_controllers c2) = k_max_controllers" "length hs = k_max_controllers"
    using ok(1) by (simp_all add: c2_def c1_def hs_def)
  have hs: "hs ! i = cs_vhf (slot_at i ctx)"
    and s3: "slot_at i c3 = detach_handle (hs ! i) (snd (power_down_slot (slot_at i ctx)))"
    if i: "i < k_max_controllers" for i
    using ok(1) i l2 st [OF i] vhf_state [OF i]
    by (auto simp: hs_def c3_def c2_def c1_def slot_at_def power_down_slot_def)
  have l3: "length (dc_controllers c3) = k_max_controllers" using l2 by (simp add: c3_def)
  have log: "dc_log c3 = dc_log ctx" by (simp add: c3_def c2_def c1_def)
  have s3f: "cs_vhf (slot_at i c3) = null_handle \<and> cs_owner (slot_at i c3) = cs_owner (slot_at i ctx) \<and>
      cs_profile (slot_at i c3) = cs_profile (slot_at i ctx) \<and>
      cs_controller_id (slot_at i c3) = cs_controller_id (slot_at i ctx) \<and>
      cs_state (slot_at i c3) = (if cs_state (slot_at i ctx) = Slot_Active then Slot_Stopping
        else cs_state (slot_at i ctx))" if i: "i < k_max_controllers" for i
    using st [OF i] vhf_state [OF i] hs [OF i] s3 [OF i]
    by (auto simp: detach_handle_def power_down_slot_def)
  have "core_ok {cs_vhf (slot_at i ctx) | i. i < k_max_controllers \<and> True \<and>
      cs_vhf (slot_at i ctx) \<noteq> null_handle} c3"
    by (rule core_ok_detach_all [OF core l3 log])
      (use s3f ok(2) st in \<open>auto simp: slot_sound_def\<close>)
  moreover have "undeleted hs 0 = {cs_vhf (slot_at i ctx) | i. i < k_max_controllers \<and> True \<and>
      cs_vhf (slot_at i ctx) \<noteq> null_handle}"
    by (rule undeleted_0) (simp add: hs)
  ultimately have "core_ok (undeleted hs 0) c3" by simp
  then have c4: "core_ok (undeleted hs 0) c4" unfolding c4_def by (rule core_ok_calm) (rule stop_timers_calm)
  have id4: "slot_identity (slot_at i c4) = slot_identity (slot_at i c3)" if "i < k_max_controllers" for i
    using calm_identity [OF stop_timers_calm [of c3], of i] l3 that by (simp add: c4_def)
  have v4: "cs_vhf (slot_at i c4) = null_handle" if "i < k_max_controllers" for i
    using id4 [OF that] s3f [OF that] by (simp add: slot_identity_fields)
  have d: "\<forall>i < k_max_controllers. \<forall>j < k_max_controllers. i \<noteq> j \<and> hs ! i \<noteq> null_handle \<longrightarrow> hs ! i \<noteq> hs ! j"
    using ok(3) hs by simp
  have "core_ok (undeleted hs k_max_controllers) c5 \<and>
      (\<forall>i < k_max_controllers. slot_identity (slot_at i c5) =
        slot_identity (if i < k_max_controllers \<and> hs ! i \<noteq> null_handle then id (slot_at i c4)
          else slot_at i c4))"
    unfolding c5_def by (rule drain_all [OF c4 d]) (simp_all add: v4)
  then have core5: "core_ok {} c5" and id5: "\<And>i. i < k_max_controllers \<Longrightarrow>
      slot_identity (slot_at i c5) = slot_identity (slot_at i c3)"
    using id4 by simp_all
  have l5: "length (dc_controllers c5) = k_max_controllers" by (rule core_okD(1) [OF core5])
  have s6: "slot_at i c6 = lose_slot (cs_vhf (slot_at i ctx)) (slot_at i c5)" if "i < k_max_controllers" for i
    using that l5 l2 hs [OF that] by (simp add: c6_def slot_at_def)
  have s6f: "cs_vhf (slot_at i c6) = null_handle \<and> cs_owner (slot_at i c6) = cs_owner (slot_at i ctx) \<and>
      cs_profile (slot_at i c6) = cs_profile (slot_at i ctx) \<and>
      cs_controller_id (slot_at i c6) = cs_controller_id (slot_at i ctx) \<and>
      cs_state (slot_at i c6) = (if cs_state (slot_at i ctx) = Slot_Empty then Slot_Empty else Slot_Lost)"
    if i: "i < k_max_controllers" for i
    using st [OF i] vhf_state [OF i] s6 [OF i] id5 [OF i] s3f [OF i]
    by (auto simp: lose_slot_def slot_identity_fields)
  have "core_ok {} c6"
  proof (rule core_ok_same_handles [OF core5])
    show "length (dc_controllers c6) = k_max_controllers" using l5 l2 by (simp add: c6_def)
    show "dc_log c6 = dc_log c5" by (simp add: c6_def)
  next
    fix i assume i: "i < k_max_controllers"
    show "cs_vhf (slot_at i c6) = cs_vhf (slot_at i c5)"
      using s6f [OF i] id5 [OF i] s3f [OF i] by (simp add: slot_identity_fields)
    show "slot_sound i (slot_at i c6)"
      using s6f [OF i] ok(2) [OF i] by (simp add: slot_sound_def)
  qed
  then show ?thesis unfolding run using s6f by (simp add: driver_ok_def settled_def)
qed

section \<open>Reachable contexts\<close>

text \<open>What may happen inside \<^theory_text>\<open>VhfStart\<close>, or at any other time without the lifetime
  gate: callbacks of the framework on any slot, the two timers, and the first sections of
  a stop and of a power-down.\<close>

definition host_writes ::
  "os_env \<Rightarrow> (hid_transfer option \<times> nat) list \<Rightarrow> device_context \<Rightarrow> device_context"
  where "host_writes os ws ctx = foldl (\<lambda>ctx (packet, i). snd (evt_vhf_write_report os packet i ctx)) ctx
    (filter (\<lambda>(packet, i). i < length (dc_controllers ctx)) ws)"

inductive host_step :: "device_context \<Rightarrow> device_context \<Rightarrow> bool"
  where
    host_ready: "i < k_max_controllers \<Longrightarrow> host_step ctx (evt_vhf_ready_for_next_report os i ctx)"
  | host_write: "i < k_max_controllers \<Longrightarrow> host_step ctx (snd (evt_vhf_write_report os packet i ctx))"
  | host_set_feature: "i < k_max_controllers \<Longrightarrow> host_step ctx (snd (evt_vhf_set_feature packet i ctx))"
  | host_get_input: "i < k_max_controllers \<Longrightarrow>
      host_step ctx (snd (snd (evt_vhf_get_input_report os packet i ctx)))"
  | host_keepalive: "host_step ctx (snd (keepalive_wake os ctx))"
  | host_pid_tick: "host_step ctx (evt_pid_tick (host_writes os ws) ctx)"
  | host_stop_intent: "host_step ctx (ctx\<lparr>dc_stopping := True, dc_powered := False\<rparr>)"
  | host_power_intent: "host_step ctx (ctx\<lparr>dc_powered := False\<rparr>)"

text \<open>What the framework and Windows promise a creation: a fresh non-null handle, and that
  only such steps happen while it runs.\<close>

definition vhf_contract :: "os_env \<Rightarrow> device_context \<Rightarrow> bool"
  where "vhf_contract os ctx \<longleftrightarrow> snd (os_vhf_create os) \<noteq> null_handle \<and>
    snd (os_vhf_create os) \<notin> held_handles ctx \<and>
    (\<forall>c. host_step\<^sup>*\<^sup>* c (snd (os_vhf_start os c)))"

inductive driver_reachable :: "device_context \<Rightarrow> bool"
  where
    reach_start: "driver_reachable (initial_context a b c d)"
  | reach_control: "driver_reachable ctx \<Longrightarrow> driver_reachable (os_meanwhile os ctx) \<Longrightarrow>
      vhf_contract os (os_meanwhile os ctx) \<Longrightarrow>
      driver_reachable (snd (evt_io_device_control os file code b n ctx))"
  | reach_host: "driver_reachable ctx \<Longrightarrow> host_step ctx ctx' \<Longrightarrow> driver_reachable ctx'"
  | reach_close: "driver_reachable ctx \<Longrightarrow> driver_reachable (evt_file_close file ctx)"
  | reach_d0_entry: "driver_reachable ctx \<Longrightarrow> driver_reachable (snd (evt_d0_entry ctx))"
  | reach_d0_exit: "driver_reachable ctx \<Longrightarrow> driver_reachable (snd (evt_d0_exit ctx))"
  | reach_prepare: "driver_reachable ctx \<Longrightarrow> driver_reachable (snd (evt_prepare_hardware os ctx))"
  | reach_release: "driver_reachable ctx \<Longrightarrow> driver_reachable (snd (evt_release_hardware ctx))"
  | reach_target_cleanup: "driver_reachable ctx \<Longrightarrow> driver_reachable (evt_vhf_target_cleanup ctx)"
  | reach_cleanup: "driver_reachable ctx \<Longrightarrow> driver_reachable (evt_device_cleanup ctx)"

lemma host_writes_quiet: "quiet ctx (host_writes os ws ctx)"
proof -
  have "quiet ctx (foldl (\<lambda>ctx (packet, i). snd (evt_vhf_write_report os packet i ctx)) ctx vs)"
    if "\<forall>(packet, i) \<in> set vs. i < length (dc_controllers ctx)" for vs
    using that
  proof (induction vs arbitrary: ctx)
    case (Cons v vs)
    obtain packet i where v: "v = (packet, i)" by (cases v)
    let ?c = "snd (evt_vhf_write_report os packet i ctx)"
    have q: "quiet ctx ?c" using Cons.prems v by (intro write_report_quiet) simp
    have "quiet ?c (foldl (\<lambda>ctx (packet, i). snd (evt_vhf_write_report os packet i ctx)) ?c vs)"
      using Cons.prems quiet_length [OF q] by (intro Cons.IH) simp
    then show ?case using quiet_trans [OF q] v by simp
  qed simp
  then show ?thesis by (simp add: host_writes_def split_beta)
qed

lemma host_step_calm:
  assumes "host_step ctx ctx'" "length (dc_controllers ctx) = k_max_controllers"
  shows "calm ctx ctx'"
  using assms
  by (cases rule: host_step.cases)
    (auto intro!: calm_same ready_callback_quiet [THEN quiet_calm] write_report_quiet [THEN quiet_calm]
      set_feature_quiet [THEN quiet_calm] get_input_quiet [THEN quiet_calm]
      keepalive_wake_quiet [THEN quiet_calm] pid_tick_quiet [THEN quiet_calm] host_writes_quiet)

lemma host_steps_calm:
  assumes "host_step\<^sup>*\<^sup>* ctx ctx'" "length (dc_controllers ctx) = k_max_controllers"
  shows "calm ctx ctx'"
  using assms
proof (induction rule: rtranclp_induct)
  case (step b c)
  then have ab: "calm ctx b" by simp
  then have "calm b c" using host_step_calm [OF step(2)] calm_length [OF ab] step.prems by simp
  with ab show ?case by (rule calm_trans)
qed (auto intro: calm_same)

lemma control_quiet_or_life:
  assumes "length (dc_controllers ctx) = k_max_controllers"
    "\<not> (ioctl_of code = Some Ioctl_Create_Controller \<or> ioctl_of code = Some Ioctl_Destroy_Controller)"
  shows "quiet ctx (snd (evt_io_device_control os file code b n ctx))"
proof -
  have poll: "quiet ctx (snd (control_poll file b n ctx))"
    using poll_quiet [of ctx "file" "parse_controller_id b"]
    by (simp add: control_poll_def Let_def case_prod_beta)
  have plain: "quiet ctx (snd (plain_request os file c b ctx))"
    if "c \<noteq> Ioctl_Create_Controller" "c \<noteq> Ioctl_Destroy_Controller" for c
    using that submit_input_quiet [OF assms(1)] submit_touch_quiet [OF assms(1)]
      submit_motion_quiet [OF assms(1)] submit_battery_quiet [OF assms(1)] attributes_quiet
    by (cases c) (simp_all add: plain_request_def Let_def)
  show ?thesis
    using assms(2) poll plain
    by (auto simp: evt_io_device_control_def case_prod_beta split: option.split ioctl.split)
qed

lemma control_ok:
  assumes "driver_ok ctx" "driver_ok (os_meanwhile os ctx)" "vhf_contract os (os_meanwhile os ctx)"
    "\<And>c. length (dc_controllers c) = k_max_controllers \<Longrightarrow> calm c (snd (os_vhf_start os c))"
  shows "driver_ok (snd (evt_io_device_control os file code b n ctx))"
proof (cases "ioctl_of code = Some Ioctl_Create_Controller \<or> ioctl_of code = Some Ioctl_Destroy_Controller")
  case False
  have "length (dc_controllers ctx) = k_max_controllers"
    using assms(1) core_okD(1) by (auto simp: driver_ok_def)
  then show ?thesis using driver_ok_calm [OF assms(1) quiet_calm [OF control_quiet_or_life]] False by simp
next
  case True
  show ?thesis
  proof (cases "file = null_handle")
    case False
    have "driver_ok (snd (create_controller os file request ctx))" for request
      using create_ok [OF assms(1,2) False _ _ assms(4)] assms(3) by (simp add: vhf_contract_def)
    moreover have "driver_ok (snd (destroy_controller file request ctx))" for request
      using destroy_controller_ok [OF assms(1) False] .
    ultimately show ?thesis
      using True False assms(1)
      by (auto simp: evt_io_device_control_def plain_request_def Let_def case_prod_beta)
  qed (use assms(1) in \<open>simp add: evt_io_device_control_def\<close>)
qed

lemma initial_ok: "driver_ok (initial_context a b c d)"
proof -
  let ?c = "initial_context a b c d"
  have at: "slot_at i ?c = zero_slot\<lparr>cs_controller_id := of_nat i\<rparr>" if "i < k_max_controllers" for i
    using that by (simp add: slot_at_def initial_context_def)
  have l: "length (dc_controllers ?c) = k_max_controllers" by (simp add: initial_context_def)
  have "held_handles ?c = {}" unfolding held_handles_slots [OF l] using at by (auto simp: zero_slot_def)
  moreover have "dc_log ?c = []" by (simp add: initial_context_def)
  ultimately show ?thesis
    using l at by (simp add: driver_ok_def core_ok_def settled_def live_after_def slot_sound_def zero_slot_def)
qed

lemma calm_everywhere:
  assumes "vhf_contract os ctx" "length (dc_controllers c) = k_max_controllers"
  shows "calm c (snd (os_vhf_start os c))"
  using assms host_steps_calm by (auto simp: vhf_contract_def)

theorem driver_reachable_ok: "driver_reachable ctx \<Longrightarrow> driver_ok ctx"
proof (induction rule: driver_reachable.induct)
  case (reach_start a b c d)
  show ?case by (rule initial_ok)
next
  case (reach_control ctx os "file" code b n)
  show ?case
    by (rule control_ok) (use reach_control calm_everywhere in auto)
next
  case (reach_host ctx ctx')
  have "length (dc_controllers ctx) = k_max_controllers"
    using reach_host.IH core_okD(1) unfolding driver_ok_def by blast
  from driver_ok_calm [OF reach_host.IH host_step_calm [OF reach_host.hyps(2) this]] show ?case .
next
  case (reach_close ctx "file")
  then show ?case by (simp add: file_close_ok)
next
  case (reach_d0_entry ctx)
  show ?case by (rule driver_ok_calm [OF reach_d0_entry.IH]) (auto simp: evt_d0_entry_def)
next
  case (reach_d0_exit ctx)
  then show ?case by (simp add: evt_d0_exit_def power_down_ok)
next
  case (reach_prepare ctx os)
  have "calm ctx (ctx\<lparr>dc_stopping := False\<rparr>)" by (rule calm_same) simp_all
  from driver_ok_calm [OF reach_prepare.IH calm_trans [OF this ensure_target_calm]] show ?case
    by (simp add: evt_prepare_hardware_def)
next
  case (reach_release ctx)
  have "driver_ok (stop_owned_controllers False ctx)" using stop_all_ok reach_release.IH by blast
  from driver_ok_calm [OF this calm_same] show ?case by (simp add: evt_release_hardware_def)
next
  case (reach_target_cleanup ctx)
  then show ?case using stop_all_ok by (simp add: evt_vhf_target_cleanup_def)
next
  case (reach_cleanup ctx)
  have "calm ctx (evt_device_cleanup ctx)"
  proof -
    have "calm ctx (stop_sc26_keepalive ctx)" by (rule quiet_calm) (rule stop_keepalive_quiet)
    then show ?thesis unfolding evt_device_cleanup_def by (rule calm_trans) (rule calm_same, simp_all)
  qed
  from driver_ok_calm [OF reach_cleanup.IH this] show ?case .
qed

end
