(* ===== verification/DriverLife.thy ===== *)
theory DriverLife
  imports DriverHistory
begin

text \<open>
  The properties of the driver's controllers over their life: which handles exist, what a
  stop and a loss of power leave, and who may touch a slot.
\<close>

section \<open>A driver at work\<close>

text \<open>Windows as it behaves when nothing goes wrong: no other HID child is present, every
  call succeeds, and the framework asks for a first report while it starts the child.\<close>

definition demo_os :: os_env
  where "demo_os = \<lparr>os_clock = (\<lambda>n. 1000 * of_nat n), os_submit = (\<lambda>h packet. Status_Success),
    os_set_timer = True, os_create_thread = True, os_id_list_size = Some 1, os_heap_alloc = True,
    os_id_list = Some [CHR 0x00], os_meanwhile = id, os_target_open = Status_Success,
    os_file_handle = 9, os_vhf_create = (Status_Success, 5),
    os_vhf_start = (\<lambda>ctx. (Status_Success, ctx))\<rparr>"

definition demo_powered :: device_context
  where "demo_powered = snd (evt_d0_entry (snd (evt_prepare_hardware demo_os
    (initial_context True True True True))))"

text \<open>Create controller 0 as an Xbox Series pad, for the handle 7.\<close>

definition demo_create :: "byte list"
  where "demo_create = le32_bytes 16 @ le16_bytes k_protocol_version @ le16_bytes 0 @
    le32_bytes 0 @ le16_bytes 4 @ le16_bytes 0"

definition demo :: device_context
  where "demo = snd (evt_io_device_control demo_os 7 (ioctl_code Ioctl_Create_Controller) demo_create
    0 demo_powered)"

lemma ioctl_of_code [simp]: "ioctl_of (ioctl_code i) = Some i"
  by (cases i) (simp_all add: ioctl_of_def ctl_code_def)

lemma demo_request:
  "retrieve_request 16 demo_create = Status_Success"
  "parse_create demo_create = \<lparr>cc_header = \<lparr>rh_size = 16, rh_version = k_protocol_version,
    rh_reserved = 0\<rparr>, cc_controller_id = 0, cc_profile = 4, cc_reserved = 0\<rparr>"
  by code_simp+

lemma demo_slot:
  "slot_at 0 demo_powered = zero_slot"
  "dc_powered demo_powered" "\<not> dc_stopping demo_powered" "dc_vhf_file_handle demo_powered = 9"
  "length (dc_controllers demo_powered) = k_max_controllers"
  by (simp_all add: demo_powered_def evt_d0_entry_def evt_prepare_hardware_def initial_context_def
      ensure_vhf_target_open_def demo_os_def nt_success_def slot_at_def k_max_controllers_def
      upt_rec zero_slot_def)

lemma demo_profile: "profile_of 4 = Some Xbox_Series"
  by (simp add: profile_of_def all_profiles_def)

lemma demo_os_simps [simp]:
  "os_meanwhile demo_os c = c" "os_vhf_create demo_os = (Status_Success, 5)"
  "os_vhf_start demo_os c = (Status_Success, c)"
  by (simp_all add: demo_os_def)

lemma demo_no_child: "\<not> previous_child_present demo_os s"
  by (simp add: previous_child_present_def previous_instance_present_def demo_os_def)

lemma control_plain:
  "owner \<noteq> null_handle \<Longrightarrow> i \<noteq> Ioctl_Query_Info \<Longrightarrow> i \<noteq> Ioctl_Poll_Feedback \<Longrightarrow>
    evt_io_device_control os owner (ioctl_code i) b n ctx =
      (case plain_request os owner i b ctx of (status, ctx) \<Rightarrow> ((status, 0, Out_None), ctx))"
  by (cases i) (simp_all del: ioctl_code.simps add: evt_io_device_control_def)

lemma demo_create_is: "demo = snd (create_controller demo_os 7 (parse_create demo_create) demo_powered)"
  by (simp del: ioctl_code.simps add: demo_def control_plain case_prod_beta plain_request_def
      demo_request(1) nt_success_def)

lemma demo_start_is: "demo = snd (start_child demo_os 7 0 xbox_series_profile
    (on_slot 0 (starting_slot 7 0 xbox_series_profile) demo_powered))"
  by (simp add: demo_create_is demo_request create_controller_def k_max_controllers_def demo_profile
      create_admit_def create_revalidate_def demo_slot slot_available_def demo_no_child Let_def
      zero_slot_def ensure_vhf_target_open_def on_slot_def nt_success_def)

lemma device_fields [simp]:
  "dc_stopping (on_slot i f ctx) = dc_stopping ctx" "dc_powered (on_slot i f ctx) = dc_powered ctx"
  "dc_stopping (log_call c ctx) = dc_stopping ctx" "dc_powered (log_call c ctx) = dc_powered ctx"
  by (simp_all add: on_slot_def log_call_def)

lemma demo_active:
  "length (dc_controllers demo) = k_max_controllers"
  "cs_state (slot_at 0 demo) = Slot_Active" "cs_owner (slot_at 0 demo) = 7" "cs_vhf (slot_at 0 demo) = 5"
  "cs_profile (slot_at 0 demo) = Some Xbox_Series"
  using demo_slot(5)
  by (simp_all add: demo_start_is start_child_def Let_def nt_success_def adopt_child_def
      k_max_controllers_def name_child_def demo_slot xbox_series_profile_def)

text \<open>The demo context is reachable, with one handle.\<close>

lemma demo_contract: "vhf_contract demo_os demo_powered"
proof -
  have "cs_vhf s = null_handle" if "s \<in> set (dc_controllers demo_powered)" for s
    using that by (auto simp: demo_powered_def evt_d0_entry_def evt_prepare_hardware_def
        initial_context_def ensure_vhf_target_open_def demo_os_def nt_success_def zero_slot_def)
  then have "held_handles demo_powered = {}" by (auto simp: held_handles_def)
  then show ?thesis by (simp add: vhf_contract_def)
qed

lemma demo_reachable: "driver_reachable demo"
proof -
  have p: "driver_reachable demo_powered" unfolding demo_powered_def
    by (rule reach_d0_entry, rule reach_prepare, rule reach_start)
  show ?thesis unfolding demo_def
    by (rule reach_control [OF p]) (simp_all add: p demo_contract)
qed

section \<open>Handles\<close>

lemma reachable_slot:
  assumes "driver_reachable ctx" "i < k_max_controllers"
  shows "cs_state (slot_at i ctx) \<in> {Slot_Empty, Slot_Active, Slot_Lost}"
    and "cs_vhf (slot_at i ctx) \<noteq> null_handle \<longleftrightarrow> cs_state (slot_at i ctx) = Slot_Active"
    and "cs_owner (slot_at i ctx) = null_handle \<longleftrightarrow> cs_state (slot_at i ctx) = Slot_Empty"
    and "cs_controller_id (slot_at i ctx) = of_nat i"
  using driver_reachable_ok [OF assms(1)] core_okD(2) [of "{}" ctx i] assms(2)
  by (auto simp: driver_ok_def settled_def slot_sound_def)

lemma reachable_length: "driver_reachable ctx \<Longrightarrow> length (dc_controllers ctx) = k_max_controllers"
  using driver_reachable_ok core_okD(1) by (auto simp: driver_ok_def)

text \<open>Property C1. Handles are accounted for. Over any history of client requests, framework callbacks,
  timer ticks, power transitions, handle closes, stops and clean-ups, replaying the driver's calls to the virtual HID
  framework never starts, submits to or deletes a handle that does not exist and never creates one twice, and the handles
  that exist are exactly those the slots hold: one per active controller, no two slots sharing
  one. A slot between operations is empty, active or lost, has an owner unless it is empty, and
  keeps its own controller id.\<close>

theorem handles_tracked:
  assumes "driver_reachable ctx"
  shows "live_after (dc_log ctx) = Some (held_handles ctx) \<and>
    (\<forall>i < k_max_controllers. cs_state (slot_at i ctx) \<in> {Slot_Empty, Slot_Active, Slot_Lost} \<and>
      (cs_vhf (slot_at i ctx) \<noteq> null_handle \<longleftrightarrow> cs_state (slot_at i ctx) = Slot_Active) \<and>
      (cs_owner (slot_at i ctx) = null_handle \<longleftrightarrow> cs_state (slot_at i ctx) = Slot_Empty) \<and>
      cs_controller_id (slot_at i ctx) = of_nat i) \<and>
    (\<forall>i < k_max_controllers. \<forall>j < k_max_controllers. i \<noteq> j \<and> cs_vhf (slot_at i ctx) \<noteq> null_handle \<longrightarrow>
      cs_vhf (slot_at i ctx) \<noteq> cs_vhf (slot_at j ctx))"
proof -
  have "core_ok {} ctx" using driver_reachable_ok [OF assms] by (simp add: driver_ok_def)
  from core_okD(3,5) [OF this] reachable_slot [OF assms] show ?thesis by simp
qed

lemma handles_tracked_witness:
  "live_after (dc_log demo) = Some (held_handles demo) \<and> held_handles demo \<noteq> {} \<and>
    cs_vhf (slot_at 0 demo) \<noteq> null_handle"
proof -
  have "slot_at 0 demo \<in> set (dc_controllers demo)"
    using demo_active(1) by (simp add: slot_at_def k_max_controllers_def)
  then have "held_handles demo \<noteq> {}" using demo_active(4) by (auto simp: held_handles_def)
  then show ?thesis using handles_tracked [OF demo_reachable] demo_active(4) by simp
qed

section \<open>Stopping\<close>

lemma held_none:
  assumes "driver_ok ctx" "\<And>i. i < k_max_controllers \<Longrightarrow> cs_state (slot_at i ctx) \<noteq> Slot_Active"
  shows "live_after (dc_log ctx) = Some {}"
proof -
  have c: "core_ok {} ctx" "settled ctx" using assms(1) by (simp_all add: driver_ok_def)
  have "cs_vhf (slot_at i ctx) = null_handle" if i: "i < k_max_controllers" for i
    using core_okD(2) [OF c(1) i] c(2) assms(2) [OF i] i by (auto simp: slot_sound_def settled_def)
  then have "held_handles ctx = {}" by (auto simp: held_handles_slots [OF core_okD(1) [OF c(1)]])
  then show ?thesis using core_okD(5) [OF c(1)] by simp
qed

text \<open>What draining leaves of the device's own state.\<close>

definition device_state where
  "device_state ctx = (device_flags ctx, dc_pid_timer_armed ctx, dc_sc26_keepalive_thread ctx,
    dc_sc26_timer_running ctx, dc_sc26_due ctx)"

lemma device_state_fields:
  "device_state ctx = device_state ctx' \<longleftrightarrow> device_flags ctx = device_flags ctx' \<and>
    dc_pid_timer_armed ctx = dc_pid_timer_armed ctx' \<and>
    dc_sc26_keepalive_thread ctx = dc_sc26_keepalive_thread ctx' \<and>
    dc_sc26_timer_running ctx = dc_sc26_timer_running ctx' \<and> dc_sc26_due ctx = dc_sc26_due ctx'"
  by (auto simp: device_state_def)

lemma drain_device_state:
  "device_state (foldl (\<lambda>ctx i. drain_and_delete f hs i ctx) ctx is) = device_state ctx"
proof (induction "is" arbitrary: ctx)
  case (Cons i "is")
  have "device_state (drain_and_delete f hs i ctx) = device_state ctx"
    by (simp add: drain_and_delete_def wait_for_submits_def on_slot_def log_call_def
        device_state_def device_flags_def)
  with Cons show ?case by simp
qed simp

lemma stop_timers_flags:
  "device_flags (stop_timers ctx) = device_flags ctx"
  "\<not> dc_sc26_keepalive_thread (stop_timers ctx)"
  "\<not> dc_sc26_timer_running ctx \<Longrightarrow> \<not> dc_sc26_timer_running (stop_timers ctx)"
  "dc_sc26_keepalive_timer ctx \<Longrightarrow> dc_sc26_due (stop_timers ctx) = None"
  "dc_pid_timer ctx \<Longrightarrow> \<not> dc_pid_timer_armed (stop_timers ctx)"
  by (simp_all add: stop_timers_def stop_sc26_keepalive_def join_keepalive_def keepalive_exit_def
      device_flags_def Let_def)

lemma stop_device:
  fixes forget ctx
  defines "c \<equiv> stop_owned_controllers forget ctx"
  shows "dc_stopping c" "\<not> dc_powered c" "\<not> dc_sc26_keepalive_thread c" "\<not> dc_sc26_timer_running c"
    "dc_sc26_keepalive_timer c \<Longrightarrow> dc_sc26_due c = None" "dc_pid_timer c \<Longrightarrow> \<not> dc_pid_timer_armed c"
proof -
  obtain d where d: "c = stop_timers d" "dc_stopping d" "\<not> dc_powered d" "\<not> dc_sc26_timer_running d"
  proof -
    define a where "a = (let ctx = ctx\<lparr>dc_stopping := True, dc_powered := False\<rparr>;
         ctx = ctx\<lparr>dc_sc26_timer_running := False,
           dc_controllers := map stop_slot (dc_controllers ctx)\<rparr>;
         ctx = ctx\<lparr>dc_vhf_file_handle := null_handle\<rparr>
      in if forget then ctx\<lparr>dc_local_vhf_target := False, dc_vhf_target_open := False\<rparr> else ctx)"
    define hs where "hs = map (fst \<circ> detach_stopping) (dc_controllers a)"
    define e where "e = a\<lparr>dc_controllers := map (snd \<circ> detach_stopping) (dc_controllers a)\<rparr>"
    define d where "d = foldl (\<lambda>ctx i. drain_and_delete reset_slot hs i ctx) e [0..<k_max_controllers]"
    have "c = stop_timers d"
      unfolding c_def d_def e_def hs_def a_def stop_owned_controllers_def Let_def by (simp cong: if_cong)
    moreover have "device_state d = device_state e" unfolding d_def by (rule drain_device_state)
    moreover have "dc_stopping e \<and> \<not> dc_powered e \<and> \<not> dc_sc26_timer_running e"
      by (simp add: e_def a_def Let_def)
    ultimately show thesis
      using that [of d] by (simp add: device_state_fields device_flags_def)
  qed
  then have f: "device_flags c = device_flags d" by (simp add: stop_timers_flags)
  then show "dc_stopping c" "\<not> dc_powered c" using d by (simp_all add: device_flags_def)
  show "\<not> dc_sc26_keepalive_thread c" "\<not> dc_sc26_timer_running c"
    using d by (simp_all add: stop_timers_flags)
  show "dc_sc26_keepalive_timer c \<Longrightarrow> dc_sc26_due c = None" "dc_pid_timer c \<Longrightarrow> \<not> dc_pid_timer_armed c"
    using f stop_timers_flags(4,5) [of d] by (simp_all add: d(1) device_flags_def)
qed

lemma create_not_admitted:
  "unat (cc_controller_id request) < k_max_controllers \<Longrightarrow> cc_reserved request = 0 \<Longrightarrow>
    Option.bind (profile_of (cc_profile request)) find_profile = Some defn \<Longrightarrow>
    create_admit owner (unat (cc_controller_id request)) ctx \<noteq> Status_Success \<Longrightarrow>
    create_controller os owner request ctx =
      (create_admit owner (unat (cc_controller_id request)) ctx, ctx)"
  by (simp add: create_controller_def Let_def)

text \<open>Property C2. Nothing survives a stop. Whatever the driver was doing, after
  \<^theory_text>\<open>stop_owned_controllers\<close> every handle it ever created is deleted, every slot is
  empty, the keep-alive worker has left, neither timer is programmed, and a creation is refused
  without touching anything until the hardware is prepared again.\<close>

theorem stop_leaves_nothing:
  fixes forget ctx
  defines "c \<equiv> stop_owned_controllers forget ctx"
  assumes "driver_reachable ctx"
  shows "live_after (dc_log c) = Some {} \<and>
    (\<forall>i < k_max_controllers. cs_state (slot_at i c) = Slot_Empty) \<and>
    \<not> dc_sc26_keepalive_thread c \<and> \<not> dc_sc26_timer_running c \<and>
    (dc_sc26_keepalive_timer c \<longrightarrow> dc_sc26_due c = None) \<and> (dc_pid_timer c \<longrightarrow> \<not> dc_pid_timer_armed c) \<and>
    (unat (cc_controller_id request) < k_max_controllers \<and> cc_reserved request = 0 \<and>
      Option.bind (profile_of (cc_profile request)) find_profile \<noteq> None \<longrightarrow>
      create_controller os owner request c = (Status_Device_Not_Ready, c))"
proof -
  from stop_all_ok [OF driver_reachable_ok [OF assms(2)], of forget]
  have ok: "driver_ok c" and empty: "\<And>i. i < k_max_controllers \<Longrightarrow> cs_state (slot_at i c) = Slot_Empty"
    unfolding c_def by auto
  have live: "live_after (dc_log c) = Some {}" by (rule held_none [OF ok]) (simp add: empty)
  note dev = stop_device [of forget ctx, folded c_def]
  have "create_controller os owner request c = (Status_Device_Not_Ready, c)"
    if "unat (cc_controller_id request) < k_max_controllers" "cc_reserved request = 0"
      "Option.bind (profile_of (cc_profile request)) find_profile = Some defn" for defn
    using create_not_admitted [OF that, of owner c] dev(1) by (simp add: create_admit_def)
  then show ?thesis using live empty dev by (auto simp del: bind_eq_None_conv)
qed

lemma stop_leaves_nothing_witness:
  "live_after (dc_log demo) \<noteq> Some {} \<and>
    live_after (dc_log (stop_owned_controllers False demo)) = Some {}"
proof -
  have "slot_at 0 demo \<in> set (dc_controllers demo)"
    using demo_active(1) by (simp add: slot_at_def k_max_controllers_def)
  then have "held_handles demo \<noteq> {}" using demo_active(4) by (auto simp: held_handles_def)
  moreover have "live_after (dc_log demo) = Some (held_handles demo)"
    using driver_reachable_ok [OF demo_reachable] core_okD(5) by (fastforce simp: driver_ok_def)
  ultimately show ?thesis using stop_leaves_nothing [OF demo_reachable, of False] by simp
qed

section \<open>Power\<close>

lemma power_down_flags:
  "dc_stopping (power_down_controllers ctx) = dc_stopping ctx" "\<not> dc_powered (power_down_controllers ctx)"
proof -
  define a where "a = ctx\<lparr>dc_powered := False, dc_sc26_timer_running := False\<rparr>"
  define hs where "hs = map (fst \<circ> power_down_slot) (dc_controllers a)"
  define b where "b = a\<lparr>dc_controllers := map2 detach_handle hs
    (map (snd \<circ> power_down_slot) (dc_controllers a))\<rparr>"
  define d where "d = foldl (\<lambda>ctx i. drain_and_delete id hs i ctx) (stop_timers b) [0..<k_max_controllers]"
  have "power_down_controllers ctx = d\<lparr>dc_controllers := map2 lose_slot hs (dc_controllers d)\<rparr>"
    unfolding power_down_controllers_def Let_def d_def b_def hs_def a_def by simp
  moreover have "device_flags d = device_flags (stop_timers b)"
    using drain_device_state [of id hs "stop_timers b" "[0..<k_max_controllers]"]
    by (simp add: d_def device_state_fields)
  moreover have "dc_stopping b = dc_stopping ctx \<and> \<not> dc_powered b" by (simp add: b_def a_def)
  ultimately show "dc_stopping (power_down_controllers ctx) = dc_stopping ctx"
    "\<not> dc_powered (power_down_controllers ctx)"
    using stop_timers_flags(1) [of b] by (simp_all add: device_flags_def)
qed


lemma demo_not_stopping: "\<not> dc_stopping demo"
  by (simp add: demo_start_is start_child_def Let_def nt_success_def adopt_child_def
      k_max_controllers_def name_child_def demo_slot)


section \<open>Who may ask\<close>

text \<open>Why a request about a controller is refused before it is looked at.\<close>

definition refusal :: "handle \<Rightarrow> u32 \<Rightarrow> device_context \<Rightarrow> ntstatus option"
  where "refusal owner cid ctx =
    (if unat cid \<ge> k_max_controllers then Some Status_Invalid_Parameter
     else if cs_state (slot_at (unat cid) ctx) = Slot_Empty then Some Status_Not_Found
     else if cs_owner (slot_at (unat cid) ctx) \<noteq> owner then Some Status_Access_Denied else None)"



end
