(* ===== verification/DriverData.thy ===== *)
theory DriverData
  imports DriverHistory DescriptorLayout
begin

text \<open>
  What the operations of the driver do to the data in its slots. The locale says
  what the operations of a slot promise about a predicate on slots; inside it the
  operations of the driver are shown to keep the predicate on every slot, to
  change only the slots they are asked about, and to submit only packets of the
  kind the predicate allows. It is interpreted twice: on the trivial predicate, which
  leaves the frame, and on well-formed slots.
\<close>

section \<open>Operations that touch some slots\<close>

fun call_packet :: "(profile option \<Rightarrow> report_buffer \<Rightarrow> bool) \<Rightarrow> vhf_call \<Rightarrow> bool"
  where
    "call_packet B (Vhf_Submit h p) = (\<exists>profile. B profile p)"
  | "call_packet B _ = True"

definition same_outside :: "nat set \<Rightarrow> device_context \<Rightarrow> device_context \<Rightarrow> bool"
  where "same_outside I ctx ctx' \<longleftrightarrow> length (dc_controllers ctx') = length (dc_controllers ctx) \<and>
    (\<forall>j < length (dc_controllers ctx). j \<notin> I \<longrightarrow> slot_at j ctx' = slot_at j ctx)"

definition touches ::
  "(controller_slot \<Rightarrow> bool) \<Rightarrow> (profile option \<Rightarrow> report_buffer \<Rightarrow> bool) \<Rightarrow> nat set \<Rightarrow> device_context \<Rightarrow> device_context \<Rightarrow> bool"
  where "touches D B I ctx ctx' \<longleftrightarrow> same_outside I ctx ctx' \<and>
    (list_all D (dc_controllers ctx) \<longrightarrow> list_all D (dc_controllers ctx') \<and>
      (\<exists>calls. dc_log ctx' = dc_log ctx @ calls \<and> list_all (call_packet B) calls))"

lemmas touches_defs = touches_def same_outside_def

lemma touches_when:
  "touches D' B' I ctx ctx' \<Longrightarrow> (list_all D (dc_controllers ctx) \<Longrightarrow> touches D B I ctx ctx') \<Longrightarrow>
    touches D B I ctx ctx'"
  by (auto simp: touches_def)

lemma touches_slot:
  "touches D B I ctx ctx' \<Longrightarrow> list_all D (dc_controllers ctx) \<Longrightarrow> i < length (dc_controllers ctx) \<Longrightarrow>
    D (slot_at i ctx')"
  by (simp add: touches_defs list_all_length slot_at_def)

lemma touches_same:
  "dc_controllers ctx' = dc_controllers ctx \<Longrightarrow> dc_log ctx' = dc_log ctx \<Longrightarrow> touches D B I ctx ctx'"
  by (simp add: touches_defs slot_at_def)

lemma touches_refl [simp]: "touches D B I ctx ctx"
  by (rule touches_same) simp_all

lemma touches_trans:
  assumes "touches D B I a b" "touches D B I b c"
  shows "touches D B I a c"
proof -
  have "list_all D (dc_controllers c) \<and>
      (\<exists>calls. dc_log c = dc_log a @ calls \<and> list_all (call_packet B) calls)"
    if "list_all D (dc_controllers a)"
  proof -
    from assms that obtain l m where
      "dc_log b = dc_log a @ l" "list_all (call_packet B) l"
      "dc_log c = dc_log b @ m" "list_all (call_packet B) m" "list_all D (dc_controllers c)"
      unfolding touches_defs by blast
    then show ?thesis by (intro conjI exI [of _ "l @ m"]) simp_all
  qed
  then show ?thesis using assms unfolding touches_defs by simp
qed

lemma touches_mono: "touches D B I a b \<Longrightarrow> I \<subseteq> J \<Longrightarrow> touches D B J a b"
  unfolding touches_defs by blast

lemma touches_length: "touches D B I a b \<Longrightarrow> length (dc_controllers b) = length (dc_controllers a)"
  by (simp add: touches_defs)

lemma touches_on_slot:
  assumes "i < length (dc_controllers ctx) \<Longrightarrow> D (slot_at i ctx) \<Longrightarrow> D (f (slot_at i ctx))"
  shows "touches D B {i} ctx (on_slot i f ctx)"
proof -
  have "list_all D ((dc_controllers ctx)[i := f (slot_at i ctx)])" if "list_all D (dc_controllers ctx)"
    using that assms
    by (cases "i < length (dc_controllers ctx)")
      (auto simp: list_all_length nth_list_update slot_at_def list_update_beyond)
  then show ?thesis by (simp add: touches_defs on_slot_def slot_at_def)
qed

lemma arm_touches [simp]: "touches D B I ctx (arm_sc26_keepalive now ctx)"
  by (rule touches_same) (simp_all add: arm_sc26_keepalive_def)

lemma start_touches [simp]: "touches D B I ctx (start_sc26_keepalive os ctx)"
  by (rule touches_same) (simp_all add: start_sc26_keepalive_def Let_def join_keepalive_def keepalive_exit_def)

lemma stop_touches [simp]: "touches D B I ctx (stop_sc26_keepalive ctx)"
  by (rule touches_same) (simp_all add: stop_sc26_keepalive_def Let_def join_keepalive_def keepalive_exit_def)

section \<open>Valid events\<close>

text \<open>What the client library demands of an event it polls
  (\<^theory_text>\<open>client.cpp\<close>, \<^theory_text>\<open>poll_feedback\<close>).\<close>

definition event_valid :: "u32 \<Rightarrow> feedback_event \<Rightarrow> bool"
  where "event_valid cid e \<longleftrightarrow> fe_header e = event_header \<and> fe_controller_id e = cid \<and>
    fe_type e \<noteq> FB_None \<and> event_size_ok e"

lemma make_event_valid:
  "length payload = unat (feedback_payload_size t) \<Longrightarrow> t \<noteq> FB_None \<Longrightarrow>
    event_valid cid (make_event cid t payload)"
  using make_event_size_ok [of payload t cid] by (simp add: event_valid_def make_event_def)

lemma produced_valid:
  "event_valid cid (make_event cid FB_Generic_Rumble (generic_rumble_bytes g))"
  "event_valid cid (encode_generic_feedback cid output)"
  "event_valid cid (encode_xbox_series_feedback cid x)"
  "playstation_output_ok p \<Longrightarrow> event_valid cid (encode_playstation_feedback cid p)"
  unfolding encode_generic_feedback_def encode_xbox_series_feedback_def encode_playstation_feedback_def
  by (rule make_event_valid, simp_all add: layout_simps)+

lemma blank_output_ok: "playstation_output_ok blank_playstation_output"
  by (simp add: blank_playstation_output_def playstation_output_ok_def trigger_effect_ok_def)

lemma switch_rumble_valid:
  "decode_switch_rumble report = Some r \<Longrightarrow> event_valid cid (encode_playstation_feedback cid r)"
  using blank_output_ok
  by (intro produced_valid) (auto simp: decode_switch_rumble_def Let_def playstation_output_ok_def
      split: option.splits if_splits)

lemma haptic_valid: "apply_sc26_output dat cid = Some e \<Longrightarrow> event_valid cid e"
  by (auto simp: apply_sc26_output_def Let_def layout_simps steam_haptic_ok_def
      intro!: make_event_valid split: option.splits if_splits)

lemma settings_valid: "list_all (event_valid cid) (apply_sc26_settings dat cid n)"
proof -
  have "event_valid cid (make_event cid FB_Steam_Settings
      (steam_settings_bytes (settings_chunk c p t k)))" for c p t k
    by (rule make_event_valid) (simp_all add: layout_simps steam_settings_ok_def settings_chunk_def Let_def)
  then have "list_all (event_valid cid) (map (\<lambda>k. make_event cid FB_Steam_Settings
      (steam_settings_bytes (settings_chunk c p t k))) ks)" for c p t ks
    by (simp add: list_all_iff)
  then show ?thesis
    by (cases dat) (simp_all del: list.map upt.simps add: apply_sc26_settings_def Let_def)
qed

section \<open>The locale\<close>

locale slot_stream =
  fixes D :: "controller_slot \<Rightarrow> bool"
    and B :: "profile option \<Rightarrow> report_buffer \<Rightarrow> bool"
    and F :: "profile option \<Rightarrow> byte list \<Rightarrow> byte \<Rightarrow> bool"
  assumes enqueue_kept: "D s \<Longrightarrow> F (cs_profile s) b r \<Longrightarrow>
      D (s\<lparr>cs_pump := snd (enqueue (Some b) (of_nat (length b)) r k (cs_pump s))\<rparr>)"
    and take_kept: "D s \<Longrightarrow> D (s\<lparr>cs_pump := snd (pump_take (cs_pump s))\<rparr>)"
    and taken_ok: "D s \<Longrightarrow> fst (pump_take (cs_pump s)) = Some t \<Longrightarrow> B (cs_profile s) t"
    and stamped_ok: "B pr t \<Longrightarrow> B pr (snd (stamp_sc26_sequence s t))"
    and stamp_kept: "D s \<Longrightarrow> D (s\<lparr>cs_sc26_wire_sequence := w\<rparr>)"
    and put_kept: "D s \<Longrightarrow> B (cs_profile s) t \<Longrightarrow> D (s\<lparr>cs_pump := (cs_pump s)\<lparr>in_flight := t\<rparr>,
      cs_read_transfer := (rb_length t, rb_report_id t), cs_submits_in_flight := n\<rparr>)"
    and submits_kept: "D s \<Longrightarrow> D (s\<lparr>cs_submits_in_flight := n\<rparr>)"
    and ready_kept: "D s \<Longrightarrow> D (s\<lparr>cs_pump := set_ready (cs_pump s)\<rparr>)"
    and sent_kept: "D s \<Longrightarrow> D (s\<lparr>cs_sc26 := (cs_sc26 s)\<lparr>sc_last_report_us := t_us\<rparr>\<rparr>)"
begin

abbreviation "kept \<equiv> touches D B"

lemma mark_kept: "kept {i} ctx (snd (mark_sc26_report_taken clk i report rearm ctx))"
proof -
  let ?s = "fst (stamp_sc26_sequence (slot_at i ctx) report)"
  have a: "kept {i} ctx (on_slot i (\<lambda>_. ?s) ctx)"
    by (rule touches_on_slot) (simp add: stamp_sc26_sequence_def stamp_kept)
  have b: "kept {i} c (on_slot i (\<lambda>s. s\<lparr>cs_sc26 := (cs_sc26 s)\<lparr>sc_last_report_us := v\<rparr>\<rparr>) c)" for c v
    by (rule touches_on_slot) (rule sent_kept)
  have "kept {i} ctx (on_slot i (\<lambda>s. s\<lparr>cs_sc26 := (cs_sc26 s)\<lparr>sc_last_report_us := v\<rparr>\<rparr>)
      (on_slot i (\<lambda>_. ?s) ctx))" for v
    by (rule touches_trans [OF a b])
  then show ?thesis
    using a touches_trans [OF _ arm_touches]
    by (simp add: mark_sc26_report_taken_def Let_def case_prod_beta)
qed

lemma mark_report:
  "fst (mark_sc26_report_taken clk i report rearm ctx) = snd (stamp_sc26_sequence (slot_at i ctx) report)"
  by (simp add: mark_sc26_report_taken_def Let_def case_prod_beta)

text \<open>Only a report that was taken is submitted: it is then what VHF reads through the
  slot's packet.\<close>

definition sendable :: "nat \<Rightarrow> device_context \<Rightarrow> bool"
  where "sendable i ctx \<longleftrightarrow> (\<exists>pr. B pr (submitted_packet (slot_at i ctx)))"

lemma take_report_kept:
  assumes "i < length (dc_controllers ctx)"
  shows "kept {i} ctx (snd (take_report clk i rearm ctx))" (is ?kept)
    and "list_all D (dc_controllers ctx) \<Longrightarrow> fst (take_report clk i rearm ctx) = Some x \<Longrightarrow>
      sendable i (snd (take_report clk i rearm ctx))" (is "_ \<Longrightarrow> _ \<Longrightarrow> ?sendable")
proof -
  obtain t pump where t: "pump_take (cs_pump (slot_at i ctx)) = (t, pump)"
    by (cases "pump_take (cs_pump (slot_at i ctx))")
  let ?c = "on_slot i (\<lambda>s. s\<lparr>cs_pump := pump\<rparr>) ctx"
  have a: "kept {i} ctx ?c"
    by (rule touches_on_slot) (use take_kept [of "slot_at i ctx"] t in simp)
  have "?kept \<and> (list_all D (dc_controllers ctx) \<longrightarrow> fst (take_report clk i rearm ctx) = Some x \<longrightarrow> ?sendable)"
  proof (cases t)
    case None
    then show ?thesis using a t by (simp add: take_report_def)
  next
    case (Some taken)
    obtain r c where m: "mark_sc26_report_taken clk i taken rearm ?c = (r, c)"
      by (cases "mark_sc26_report_taken clk i taken rearm ?c")
    let ?f = "\<lambda>s. s\<lparr>cs_pump := (cs_pump s)\<lparr>in_flight := r\<rparr>, cs_read_transfer := (rb_length r, rb_report_id r),
      cs_submits_in_flight := cs_submits_in_flight s + 1\<rparr>"
    have ac: "kept {i} ctx c" using touches_trans [OF a mark_kept [of i ?c clk taken rearm]] m by simp
    have len: "i < length (dc_controllers ?c)" using assms by simp
    have "cs_profile (slot_at i c) = cs_profile (slot_at i ctx)"
      using quiet_identity [OF mark_quiet len, of clk i taken rearm] m assms
      by (simp add: slot_identity_fields)
    then have fits: "B (cs_profile (slot_at i c)) r" if "list_all D (dc_controllers ctx)"
    proof -
      have "D (slot_at i ctx)" using that assms by (simp add: list_all_length slot_at_def)
      from taken_ok [OF this] t Some have "B (cs_profile (slot_at i ctx)) taken" by simp
      from stamped_ok [OF this] show ?thesis
        using mark_report [of clk i taken rearm ?c] m \<open>cs_profile _ = _\<close> by simp
    qed
    have "kept {i} ctx (on_slot i ?f c)"
    proof (rule touches_when [of "\<lambda>_. False" "\<lambda>_ _. True"])
      show "touches (\<lambda>_. False) (\<lambda>_ _. True) {i} ctx (on_slot i ?f c)"
        using ac assms by (auto simp: touches_defs list_all_length)
      show "kept {i} ctx (on_slot i ?f c)" if "list_all D (dc_controllers ctx)"
        by (rule touches_trans [OF ac touches_on_slot]) (rule put_kept [OF _ fits [OF that]])
    qed
    moreover have "submitted_packet (slot_at i (on_slot i ?f c)) = r"
      using assms touches_length [OF ac] by (simp add: submitted_packet_def)
    ultimately show ?thesis using t Some m fits by (auto simp: take_report_def Let_def sendable_def)
  qed
  then show ?kept and "list_all D (dc_controllers ctx) \<Longrightarrow> fst (take_report clk i rearm ctx) = Some x \<Longrightarrow>
      sendable i (snd (take_report clk i rearm ctx))" by blast+
qed

text \<open>What is handed to the pump of a slot fits the slot's profile.\<close>

definition fitting :: "nat \<Rightarrow> byte list option \<Rightarrow> byte \<Rightarrow> device_context \<Rightarrow> bool"
  where "fitting i dat r ctx \<longleftrightarrow>
    (\<forall>b. dat = Some b \<and> D (slot_at i ctx) \<longrightarrow> F (cs_profile (slot_at i ctx)) b r)"

lemma fitting_None [simp]: "fitting i None r ctx"
  by (simp add: fitting_def)

lemma pump_report_locked_kept:
  assumes "i < length (dc_controllers ctx)" "fitting i dat report_id ctx"
  shows "kept {i} ctx (snd (snd (pump_report_locked clk i dat report_id kind rearm ctx)))" (is ?kept)
    and "list_all D (dc_controllers ctx) \<Longrightarrow>
      fst (snd (pump_report_locked clk i dat report_id kind rearm ctx)) = Some x \<Longrightarrow>
      sendable i (snd (snd (pump_report_locked clk i dat report_id kind rearm ctx)))"
proof -
  have p: "kept {i} ctx (on_slot i (\<lambda>s. s\<lparr>cs_pump :=
      snd (enqueue (Some b) (of_nat (length b)) report_id kind (cs_pump s))\<rparr>) ctx)" if "dat = Some b" for b
    by (rule touches_on_slot) (use that assms(2) enqueue_kept in \<open>simp add: fitting_def\<close>)
  let ?c = "case dat of None \<Rightarrow> ctx | Some b \<Rightarrow> on_slot i (\<lambda>s. s\<lparr>cs_pump :=
    snd (enqueue (Some b) (of_nat (length b)) report_id kind (cs_pump s))\<rparr>) ctx"
  have c: "kept {i} ctx ?c" using p by (cases dat) simp_all
  have len: "i < length (dc_controllers ?c)" using assms touches_length [OF c] by simp
  from touches_trans [OF c take_report_kept(1) [OF len, of clk rearm]] show ?kept
    by (simp add: pump_report_locked_def case_prod_beta Let_def)
  assume d: "list_all D (dc_controllers ctx)"
    and x: "fst (snd (pump_report_locked clk i dat report_id kind rearm ctx)) = Some x"
  from d c have "list_all D (dc_controllers ?c)" by (simp add: touches_def)
  from take_report_kept(2) [OF len this, of clk rearm] x
  show "sendable i (snd (snd (pump_report_locked clk i dat report_id kind rearm ctx)))"
    by (auto simp: pump_report_locked_def case_prod_beta Let_def split: if_splits)
qed

text \<open>A submission of what the slot's packet holds.\<close>

lemma submit_from:
  assumes "kept {i} ctx c" "i < length (dc_controllers ctx)" "list_all D (dc_controllers ctx) \<Longrightarrow> sendable i c"
  shows "kept {i} ctx (snd (submit_taken os i h c))"
proof (rule touches_when [of "\<lambda>_. False" "\<lambda>_ _. True"])
  let ?p = "submitted_packet (slot_at i c)"
  show "touches (\<lambda>_. False) (\<lambda>_ _. True) {i} ctx (snd (submit_taken os i h c))"
    using assms(1,2) by (auto simp: touches_defs list_all_length submit_taken_def Let_def)
  show "kept {i} ctx (snd (submit_taken os i h c))" if "list_all D (dc_controllers ctx)"
  proof -
    have "kept {i} c (log_call (Vhf_Submit h ?p) c)"
      using assms(3) [OF that] by (simp add: touches_defs log_call_def slot_at_def sendable_def)
    moreover have "kept {i} d (on_slot i (\<lambda>s. s\<lparr>cs_submits_in_flight := f s\<rparr>) d)" for d f
      by (rule touches_on_slot) (rule submits_kept)
    ultimately have "kept {i} c (snd (submit_taken os i h c))"
      using touches_trans by (simp add: submit_taken_def Let_def)
    then show ?thesis by (rule touches_trans [OF assms(1)])
  qed
qed

lemma sendable_same: "dc_controllers c = dc_controllers d \<Longrightarrow> sendable i c = sendable i d"
  by (simp add: sendable_def slot_at_def)

lemma sendable_submitted:
  assumes "j < length (dc_controllers ctx)"
  shows "sendable j (snd (submit_taken os i h ctx)) = sendable j ctx"
proof (cases "i < length (dc_controllers ctx)")
  case True
  then show ?thesis by (simp add: sendable_def submit_taken_def Let_def submitted_packet_def)
next
  case False
  then show ?thesis
    by (simp add: sendable_def submit_taken_def Let_def on_slot_def slot_at_def log_call_def list_update_beyond)
qed

lemma submit_all_kept:
  "\<forall>(i, h) \<in> set pending. i < length (dc_controllers ctx) \<and> sendable i ctx \<Longrightarrow>
    kept UNIV ctx (foldl (\<lambda>ctx (i, vhf). snd (submit_taken os i vhf ctx)) ctx pending)"
proof (induction pending arbitrary: ctx)
  case (Cons x pending)
  obtain i h where x: "x = (i, h)" by (cases x)
  let ?c = "snd (submit_taken os i h ctx)"
  have q: "kept {i} ctx ?c" using Cons.prems x by (intro submit_from) simp_all
  have "kept UNIV ?c (foldl (\<lambda>ctx (i, vhf). snd (submit_taken os i vhf ctx)) ?c pending)"
    using Cons.prems touches_length [OF q] sendable_submitted by (intro Cons.IH) fastforce
  then show ?case using touches_trans [OF touches_mono [OF q]] x by simp
qed simp

lemma ready_callback_kept:
  assumes "i < length (dc_controllers ctx)"
  shows "kept {i} ctx (evt_vhf_ready_for_next_report os i ctx)"
proof -
  let ?c = "on_slot i (\<lambda>s. s\<lparr>cs_pump := set_ready (cs_pump s)\<rparr>) ctx"
  let ?t = "take_report (os_clock os) i True ?c"
  let ?r = "ready_locked (os_clock os) i ctx"
  have a: "kept {i} ctx ?c" by (rule touches_on_slot) (rule ready_kept)
  have len: "i < length (dc_controllers ?c)" using assms by simp
  from touches_trans [OF a take_report_kept(1) [OF len]] have b: "kept {i} ctx (snd ?r)"
    using touches_trans [OF _ arm_touches] by (simp add: ready_locked_def case_prod_beta Let_def)
  have "sendable i (snd ?r)" if "list_all D (dc_controllers ctx)" "fst ?r = Some x" for x
  proof -
    have "fst ?t = Some x" "dc_controllers (snd ?r) = dc_controllers (snd ?t)"
      using that(2) by (auto simp: ready_locked_def case_prod_beta Let_def arm_sc26_keepalive_def split: if_splits)
    moreover have "list_all D (dc_controllers ?c)" using a that(1) by (simp add: touches_def)
    ultimately show ?thesis using take_report_kept(2) [OF len] sendable_same by blast
  qed
  from submit_from [OF b assms this] show ?thesis
    using b by (auto simp: evt_vhf_ready_for_next_report_def case_prod_beta split: option.split)
qed

end

text \<open>The frame alone: with nothing to keep, every obligation is void.\<close>

interpretation stream_frame: slot_stream "\<lambda>_. False" "\<lambda>_ _. True" "\<lambda>_ _ _. True"
  by unfold_locales simp_all

section \<open>Client submissions\<close>

locale slot_data = slot_stream +
  assumes classify_kept: "D s \<Longrightarrow> D (snd (classify_slot u request s))"
    and input_kept: "D s \<Longrightarrow> D (remember_input request s)"
    and playstation_encoded: "D s \<Longrightarrow> D (snd (snd (encode_playstation now input s)))"
    and playstation_fits: "D s \<Longrightarrow> cs_state s \<noteq> Slot_Lost \<Longrightarrow> is_playstation (cs_profile s) \<Longrightarrow> F (cs_profile s)
      (fst (encode_playstation now input s)) (fst (snd (encode_playstation now input s)))"
    and steam_encoded: "D s \<Longrightarrow> D (snd (encode_steam now input s))"
    and steam_fits: "D s \<Longrightarrow> cs_state s \<noteq> Slot_Lost \<Longrightarrow> is_steam_controller (cs_profile s) \<Longrightarrow>
      F (cs_profile s) (sc26_input_bytes (fst (encode_steam now input s))) k_sc26_input_report_id"
    and battery_fits: "D s \<Longrightarrow> is_steam_controller (cs_profile s) \<Longrightarrow>
      F (cs_profile s) (sc26_battery_bytes (encode_sc26_battery (cs_sc26 s))) k_sc26_battery_report_id"
    and ack_fits: "D s \<Longrightarrow> is_steam_controller (cs_profile s) \<Longrightarrow>
      encode_haptic_ack dat (Some (replicate 6 0)) = (n, Some a) \<Longrightarrow> n \<noteq> 0 \<Longrightarrow>
      F (cs_profile s) (take n a) 0x44"
    and switch_encoded: "D s \<Longrightarrow> D (snd (encode_switch input s))"
    and switch_fits: "D s \<Longrightarrow> cs_state s \<noteq> Slot_Lost \<Longrightarrow> cs_profile s = Some Switch_Pro \<Longrightarrow>
      F (cs_profile s) (fst (encode_switch input s)) k_switch_input_report_id"
    and xbox_fits: "D s \<Longrightarrow> is_xbox (cs_profile s) \<Longrightarrow>
      F (cs_profile s) (xbox_input_bytes input s) k_xbox_series_input_report_id"
    and generic_fits: "D s \<Longrightarrow> cs_profile s = Some Generic_Hid \<or> cs_profile s = Some Generic_Pid \<Longrightarrow>
      F (cs_profile s) (generic_input_bytes (encode_generic_input input)) k_generic_input_report_id"
    and touch_applied: "D s \<Longrightarrow> D (snd (apply_slot_touch touch s))"
    and motion_applied: "D s \<Longrightarrow> D (snd (apply_slot_motion motion now s))"
    and battery_applied: "D s \<Longrightarrow> D (snd (apply_slot_battery battery s))"
    and battery_sent_kept: "D s \<Longrightarrow> D (s\<lparr>cs_sc26 := (cs_sc26 s)\<lparr>sc_last_battery_us := t_us\<rparr>\<rparr>)"
    and steam_feature_kept: "D s \<Longrightarrow> D (s\<lparr>cs_sc26 := snd (set_sc26_feature i buffer (cs_sc26 s))\<rparr>)"
    and attributes_applied: "D s \<Longrightarrow> D (s\<lparr>cs_sc26 := snd (apply_sc26_attributes a_req (cs_sc26 s))\<rparr>)"
    and playstation_feature_kept: "D s \<Longrightarrow> D (snd (set_feature_playstation transfer s))"
    and pid_kept: "D s \<Longrightarrow> D (s\<lparr>cs_pid := e\<rparr>)"
    and rumble_kept: "D s \<Longrightarrow> D (s\<lparr>cs_pid_rumble := p, cs_pid_rumble_valid := True\<rparr>)"
    and post_kept: "D s \<Longrightarrow> event_valid (cs_controller_id s) v \<Longrightarrow> D (post_feedback v s)"
    and playstation_kept: "D s \<Longrightarrow> decode_playstation_output transfer s = Some f \<Longrightarrow>
      D (post_feedback (encode_playstation_feedback (cs_controller_id s) f) (s\<lparr>cs_playstation_feedback := f\<rparr>))"
    and haptic_kept: "D s \<Longrightarrow> event_valid (cs_controller_id s) v \<Longrightarrow>
      enqueue_haptic k_haptic_queue_capacity (cs_haptics s) v (cs_haptic_evicted s) = (queued, q, c) \<Longrightarrow>
      D (s\<lparr>cs_haptics := q, cs_haptic_evicted := c\<rparr>)"
    and settings_kept: "D s \<Longrightarrow> event_valid (cs_controller_id s) v \<Longrightarrow>
      enqueue_settings k_settings_queue_capacity (cs_settings s) v (cs_settings_evicted s) = (q, c) \<Longrightarrow>
      D (s\<lparr>cs_settings := q, cs_settings_evicted := c\<rparr>)"
    and switch_replies_kept: "D s \<Longrightarrow> cs_state s \<noteq> Slot_Lost \<Longrightarrow> cs_profile s = Some Switch_Pro \<Longrightarrow> D (snd (switch_replies transfer s))"
    and poll_kept: "D s \<Longrightarrow> D (snd (poll_slot s))"
    and fresh_kept: "D (zero_slot\<lparr>cs_controller_id := cid\<rparr>)"
    and reset_kept: "D (reset_slot s)"
    and starting_kept: "find_profile profile = Some defn \<Longrightarrow> D (starting_slot owner cid defn s)"
    and named_kept: "D s \<Longrightarrow> D (name_child cid s)"
    and handle_kept: "D s \<Longrightarrow> D (s\<lparr>cs_vhf := h\<rparr>)"
    and state_kept: "D s \<Longrightarrow> cs_state s \<notin> {Slot_Empty, Slot_Lost} \<Longrightarrow> D (s\<lparr>cs_state := st\<rparr>)"
    and lost_kept: "D s \<Longrightarrow> D ((reset_slot s)\<lparr>cs_owner := cs_owner s, cs_profile := cs_profile s,
      cs_state := Slot_Lost\<rparr>)"
    and silent_kept: "D s \<Longrightarrow> D (s\<lparr>cs_feedback_pending := False\<rparr>)"
    and emptied_kept: "D s \<Longrightarrow> D (s\<lparr>
      cs_haptics := (case cs_haptics s of (q, h, n) \<Rightarrow> (q, h, 0)),
      cs_settings := (case cs_settings s of (q, h, n) \<Rightarrow> (q, h, 0))\<rparr>)"
begin


lemma kept_put: "(D (slot_at i ctx) \<Longrightarrow> D s) \<Longrightarrow> kept {i} ctx (on_slot i (\<lambda>_. s) ctx)"
  by (rule touches_on_slot)

text \<open>The pump behind an update: only a start from kept slots has to fit.\<close>

lemma pump_locked_from:
  assumes "kept {i} ctx c" "i < length (dc_controllers ctx)"
    "list_all D (dc_controllers ctx) \<Longrightarrow> fitting i dat r c"
  shows "kept {i} ctx (snd (snd (pump_report_locked clk i dat r kind rearm c)))"
    and "list_all D (dc_controllers ctx) \<Longrightarrow>
      fst (snd (pump_report_locked clk i dat r kind rearm c)) = Some x \<Longrightarrow>
      sendable i (snd (snd (pump_report_locked clk i dat r kind rearm c)))"
proof -
  have l: "i < length (dc_controllers c)" using assms(2) touches_length [OF assms(1)] by simp
  show "kept {i} ctx (snd (snd (pump_report_locked clk i dat r kind rearm c)))"
  proof (rule touches_when)
    have "touches (\<lambda>_. False) (\<lambda>_ _. True) {i} c (snd (snd (pump_report_locked clk i dat r kind rearm c)))"
      by (rule stream_frame.pump_report_locked_kept [OF l]) (simp add: stream_frame.fitting_def)
    then show "touches (\<lambda>_. False) (\<lambda>_ _. True) {i} ctx
        (snd (snd (pump_report_locked clk i dat r kind rearm c)))"
      using assms(1,2) by (auto simp: touches_defs list_all_length)
    show "kept {i} ctx (snd (snd (pump_report_locked clk i dat r kind rearm c)))"
      if "list_all D (dc_controllers ctx)"
      by (rule touches_trans [OF assms(1) pump_report_locked_kept(1) [OF l assms(3) [OF that]]])
  qed
  assume d: "list_all D (dc_controllers ctx)"
    and x: "fst (snd (pump_report_locked clk i dat r kind rearm c)) = Some x"
  from d assms(1) have "list_all D (dc_controllers c)" by (simp add: touches_def)
  from pump_report_locked_kept(2) [OF l assms(3) [OF d] this x]
  show "sendable i (snd (snd (pump_report_locked clk i dat r kind rearm c)))" .
qed

lemma finish_from:
  assumes "kept {i} ctx c" "i < length (dc_controllers ctx)"
    "list_all D (dc_controllers ctx) \<Longrightarrow> fitting i dat r c"
    "pump_report_locked clk i dat r kind rearm c = (queued, next, c')" "kept {i} c' c''"
    "dc_controllers c'' = dc_controllers c'"
  shows "kept {i} ctx (snd (case next of None \<Rightarrow> (queued, c'')
    | Some (r, h) \<Rightarrow> if \<not> nt_success queued then (queued, c'') else submit_taken os i h c''))"
proof -
  have "kept {i} ctx c'" using pump_locked_from(1) [OF assms(1-3), of clk kind rearm] assms(4) by simp
  then have c: "kept {i} ctx c''" using assms(5) by (rule touches_trans)
  have "sendable i c''" if "list_all D (dc_controllers ctx)" "next = Some x" for x
    using pump_locked_from(2) [OF assms(1-3) that(1), of clk kind rearm x] assms(4) that(2)
      sendable_same [OF assms(6)] by simp
  from submit_from [OF c assms(2) this] c show ?thesis by (auto split: option.split)
qed

lemma fitting_put:
  "i < length (dc_controllers ctx) \<Longrightarrow> (\<And>b. d = Some b \<Longrightarrow> F (cs_profile s) b r) \<Longrightarrow>
    fitting i d r (on_slot i (\<lambda>_. s) ctx)"
  by (simp add: fitting_def)

lemma kept_put_pump:
  assumes "D (slot_at i ctx) \<Longrightarrow> D s" "i < length (dc_controllers ctx)"
    "\<And>b. d = Some b \<Longrightarrow> D (slot_at i ctx) \<Longrightarrow> F (cs_profile s) b r"
  shows "kept {i} ctx (snd (pump_report os clk i d r kind (on_slot i (\<lambda>_. s) ctx)))"
proof -
  obtain q n c where p: "pump_report_locked clk i d r kind True (on_slot i (\<lambda>_. s) ctx) = (q, n, c)"
    by (cases "pump_report_locked clk i d r kind True (on_slot i (\<lambda>_. s) ctx)")
  have "fitting i d r (on_slot i (\<lambda>_. s) ctx)" if "list_all D (dc_controllers ctx)"
    using that assms(2,3) by (intro fitting_put) (simp_all add: list_all_length slot_at_def)
  from finish_from [OF kept_put [OF assms(1)] assms(2) this p touches_refl refl, of os] show ?thesis
    unfolding pump_report_def p prod.case by simp
qed

lemma state_encoded [simp]:
  "cs_state (remember_input input s) = cs_state s"
  "cs_state (post_feedback v s) = cs_state s"
  using remember_identity [of input s] post_identity [of v s] by (simp_all add: slot_identity_fields)

lemma profile_encoded [simp]:
  "cs_profile (snd (snd (encode_playstation now input s))) = cs_profile s"
  "cs_profile (snd (encode_steam now input s)) = cs_profile s"
  "cs_profile (snd (encode_switch input s)) = cs_profile s"
  "cs_profile (snd (apply_slot_touch touch s)) = cs_profile s"
  "cs_profile (snd (apply_slot_motion motion now s)) = cs_profile s"
  "cs_profile (snd (apply_slot_battery battery s)) = cs_profile s"
  "cs_profile (remember_input input s) = cs_profile s"
  "cs_profile (snd (classify_slot u input s)) = cs_profile s"
  "cs_profile (post_feedback v s) = cs_profile s"
  using encode_playstation_identity [of now input s] encode_steam_identity [of now input s]
    encode_switch_identity [of input s] apply_touch_identity [of touch s]
    apply_motion_identity [of motion now s] apply_battery_identity [of battery s]
    remember_identity [of input s] classify_identity [of u input s] post_identity [of v s]
  by (simp_all add: slot_identity_fields)

lemma submit_playstation_kept:
  assumes "i < length (dc_controllers ctx)" "is_playstation (cs_profile (slot_at i ctx))"
  shows "kept {i} ctx (snd (submit_playstation_report os clk i kind ctx))"
proof (cases "submit_refused ctx (slot_at i ctx)")
  case False
  then have live: "cs_state (slot_at i ctx) \<noteq> Slot_Lost" by (simp add: submit_refused_def)
  let ?e = "encode_playstation (clk 0) (cs_last_input (slot_at i ctx)) (slot_at i ctx)"
  have "kept {i} ctx (snd (pump_report os k i (Some (fst ?e)) (fst (snd ?e)) kind
      (on_slot i (\<lambda>_. snd (snd ?e)) ctx)))" for k
    by (rule kept_put_pump) (use assms live playstation_encoded playstation_fits in simp_all)
  then show ?thesis by (simp add: submit_playstation_report_def case_prod_beta Let_def)
qed (simp add: submit_playstation_report_def)

text \<open>The profiles that touch, motion and battery requests are admitted for.\<close>

definition stateful :: "profile option \<Rightarrow> bool"
  where "stateful p \<longleftrightarrow> is_playstation p \<or> p = Some Switch_Pro \<or> is_steam_controller p"

lemma submit_profile_kept:
  assumes "i < length (dc_controllers ctx)" "stateful (cs_profile (slot_at i ctx))"
  shows "kept {i} ctx (snd (submit_profile_report os clk i kind ctx))"
proof (cases "submit_refused ctx (slot_at i ctx)")
  case True
  then show ?thesis by (simp add: submit_profile_report_def submit_playstation_report_def Let_def)
next
  case False
  let ?s = "slot_at i ctx"
  have live: "cs_state ?s \<noteq> Slot_Lost" using False by (simp add: submit_refused_def)
  consider (steam) "is_steam_controller (cs_profile ?s)"
    | (switch) "\<not> is_steam_controller (cs_profile ?s)" "cs_profile ?s = Some Switch_Pro"
    | (playstation) "\<not> is_steam_controller (cs_profile ?s)" "cs_profile ?s \<noteq> Some Switch_Pro"
      "is_playstation (cs_profile ?s)"
    using assms(2) unfolding stateful_def by blast
  then show ?thesis
  proof cases
    case steam
    let ?e = "encode_steam (clk 0) (cs_last_input ?s) ?s"
    let ?c = "on_slot i (\<lambda>_. snd ?e) ctx"
    have c: "kept {i} ctx ?c" by (rule kept_put) (rule steam_encoded)
    obtain q n e where p: "pump_report_locked (clock_after 1 clk) i (Some (sc26_input_bytes (fst ?e)))
        k_sc26_input_report_id kind True ?c = (q, n, e)"
      by (cases "pump_report_locked (clock_after 1 clk) i (Some (sc26_input_bytes (fst ?e)))
        k_sc26_input_report_id kind True ?c")
    have "fitting i (Some (sc26_input_bytes (fst ?e))) k_sc26_input_report_id ?c"
      if "list_all D (dc_controllers ctx)"
    proof -
      have "D ?s" using that assms(1) by (simp add: list_all_length slot_at_def)
      from steam_fits [OF this live steam] show ?thesis using assms(1) by (intro fitting_put) auto
    qed
    from finish_from [OF c assms(1) this p touches_refl refl, of os] show ?thesis
      using steam p by (simp add: submit_profile_report_def Let_def case_prod_beta [of _ "encode_steam _ _ _"])
  next
    case switch
    have "kept {i} ctx (snd (pump_report os k i (Some (fst (encode_switch (cs_last_input ?s) ?s)))
        k_switch_input_report_id kind (on_slot i (\<lambda>_. snd (encode_switch (cs_last_input ?s) ?s)) ctx)))" for k
      by (rule kept_put_pump) (use assms live switch switch_encoded switch_fits in auto)
    then show ?thesis
      using switch by (simp add: submit_profile_report_def Let_def case_prod_beta [of _ "encode_switch _ _"])
  next
    case playstation
    then show ?thesis
      using submit_playstation_kept [OF assms(1)] by (simp add: submit_profile_report_def Let_def)
  qed
qed

lemma kept_put_profile:
  "(D (slot_at i ctx) \<Longrightarrow> D s) \<Longrightarrow> i < length (dc_controllers ctx) \<Longrightarrow> stateful (cs_profile s) \<Longrightarrow>
    kept {i} ctx (snd (submit_profile_report os clk i kind (on_slot i (\<lambda>_. s) ctx)))"
  by (rule touches_trans [OF kept_put submit_profile_kept]) simp_all

lemma admitted_stateful:
  "nt_success (begin_state_update owner cid ctx) \<Longrightarrow> stateful (cs_profile (slot_at (unat cid) ctx))"
  by (auto simp: begin_state_update_def stateful_def nt_success_def Let_def inactive_controller_status_def
      split: if_splits)

lemma submit_touch_kept:
  assumes "length (dc_controllers ctx) = k_max_controllers"
  shows "kept {unat (ts_controller_id request)} ctx (snd (submit_touch_state os owner request ctx))"
proof (cases "nt_success (begin_state_update owner (ts_controller_id request) ctx)")
  case True
  then have "unat (ts_controller_id request) < length (dc_controllers ctx)"
    using begin_state_update_range assms by simp
  from kept_put [OF touch_applied] kept_put_profile [OF touch_applied this] admitted_stateful [OF True]
  show ?thesis
    using True by (simp add: submit_touch_state_def Let_def case_prod_beta)
qed (simp add: submit_touch_state_def)

lemma submit_motion_kept:
  assumes "length (dc_controllers ctx) = k_max_controllers"
  shows "kept {unat (ms_controller_id request)} ctx (snd (submit_motion_state os owner request ctx))"
proof (cases "nt_success (begin_state_update owner (ms_controller_id request) ctx)")
  case True
  then have "unat (ms_controller_id request) < length (dc_controllers ctx)"
    using begin_state_update_range assms by simp
  from kept_put [OF motion_applied] kept_put_profile [OF motion_applied this] admitted_stateful [OF True]
  show ?thesis
    using True by (simp add: submit_motion_state_def Let_def case_prod_beta)
qed (simp add: submit_motion_state_def)

lemma submit_battery_kept:
  assumes "length (dc_controllers ctx) = k_max_controllers"
  shows "kept {unat (bs_controller_id request)} ctx (snd (submit_battery_state os owner request ctx))"
proof (cases "nt_success (begin_state_update owner (bs_controller_id request) ctx)")
  case True
  let ?i = "unat (bs_controller_id request)"
  let ?s = "snd (apply_slot_battery request (slot_at ?i ctx))"
  have i: "?i < length (dc_controllers ctx)"
    using begin_state_update_range [OF True] assms by simp
  let ?t = "\<lambda>v. ?s\<lparr>cs_sc26 := (cs_sc26 ?s)\<lparr>sc_last_battery_us := v\<rparr>\<rparr>"
  have d: "D (slot_at ?i ctx) \<Longrightarrow> D ?s" "D (slot_at ?i ctx) \<Longrightarrow> D (?t v)" for v
    using battery_applied battery_sent_kept by blast+
  have pump: "kept {?i} ctx (snd (pump_report os k ?i
      (Some (sc26_battery_bytes (encode_sc26_battery (cs_sc26 ?s)))) k_sc26_battery_report_id kd
      (on_slot ?i (\<lambda>_. ?t v) ctx)))" if "is_steam_controller (cs_profile ?s)" for k kd v
    by (rule kept_put_pump) (use that d i battery_fits [of ?s] in auto)
  show ?thesis
    using kept_put [OF d(1)] kept_put [OF d(2)] kept_put_profile [OF d(1) i] pump
      admitted_stateful [OF True] True
    by (simp add: submit_battery_state_def Let_def case_prod_beta)
qed (simp add: submit_battery_state_def)

lemma submit_steam_kept:
  assumes "i < length (dc_controllers ctx)" "is_steam_controller (cs_profile (slot_at i ctx))"
    "cs_state (slot_at i ctx) \<noteq> Slot_Lost"
  shows "kept {i} ctx (snd (submit_steam_input os i request ctx))"
proof -
  let ?start = "dc_sc26_keepalive_timer ctx \<and> \<not> dc_sc26_timer_running ctx"
  obtain report s1 where e: "encode_steam (os_clock os 0) request
      (remember_input request (slot_at i ctx)) = (report, s1)"
    by (cases "encode_steam (os_clock os 0) request (remember_input request (slot_at i ctx))")
  obtain kind s2 where c: "classify_slot (classify_buttons (sc_device (cs_sc26 s1))
      (i26_buttons report)) request s1 = (kind, s2)"
    by (cases "classify_slot (classify_buttons (sc_device (cs_sc26 s1)) (i26_buttons report)) request s1")
  have s2: "D s2" if "D (slot_at i ctx)"
    using steam_encoded [OF input_kept [OF that], of "os_clock os 0" request] e classify_kept c
    by (metis snd_conv)
  have pr: "cs_profile s2 = cs_profile (slot_at i ctx)"
    using profile_encoded(8) [of "classify_buttons (sc_device (cs_sc26 s1)) (i26_buttons report)" request s1]
      profile_encoded(2) [of "os_clock os 0" request "remember_input request (slot_at i ctx)"] e c by simp
  let ?c2 = "if ?start then (on_slot i (\<lambda>_. s2) ctx)\<lparr>dc_sc26_timer_running := True\<rparr>
    else on_slot i (\<lambda>_. s2) ctx"
  have "kept {i} (on_slot i (\<lambda>_. s2) ctx) ?c2" by (rule touches_same) simp_all
  moreover have "kept {i} ctx (on_slot i (\<lambda>_. s2) ctx)" by (rule kept_put) (rule s2)
  ultimately have q2: "kept {i} ctx ?c2" using touches_trans by blast
  have len: "i < length (dc_controllers ?c2)" using assms by simp
  obtain queued nxt c3 where p: "pump_report_locked (clock_after 1 (os_clock os)) i
      (Some (sc26_input_bytes report)) k_sc26_input_report_id kind True ?c2 = (queued, nxt, c3)"
    by (cases "pump_report_locked (clock_after 1 (os_clock os)) i
      (Some (sc26_input_bytes report)) k_sc26_input_report_id kind True ?c2")
  let ?c4 = "if ?start then start_sc26_keepalive os c3 else c3"
  have c4: "kept {i} c3 ?c4" by simp
  have same: "dc_controllers ?c4 = dc_controllers c3"
    by (simp add: start_sc26_keepalive_def Let_def join_keepalive_def keepalive_exit_def)
  have "fitting i (Some (sc26_input_bytes report)) k_sc26_input_report_id ?c2"
    if "list_all D (dc_controllers ctx)"
  proof -
    have "D (slot_at i ctx)" using that assms(1) by (simp add: list_all_length slot_at_def)
    from steam_fits [OF input_kept [OF this], of request "os_clock os 0" request] e assms
    have "F (cs_profile (slot_at i ctx)) (sc26_input_bytes report) k_sc26_input_report_id" by simp
    moreover have "cs_profile (slot_at i ?c2) = cs_profile (slot_at i ctx)"
      using pr assms(1) by (simp add: slot_at_def on_slot_def)
    ultimately show ?thesis by (simp add: fitting_def)
  qed
  from finish_from [OF q2 assms(1) this p c4 same, of os]
  have "kept {i} ctx (snd (case nxt of None \<Rightarrow> (queued, ?c4)
    | Some (r, h) \<Rightarrow> if \<not> nt_success queued then (queued, ?c4) else submit_taken os i h ?c4))" .
  then show ?thesis
    unfolding submit_steam_input_def Let_def e prod.case c p
    by (cases nxt) (auto split: if_splits)
qed

lemma submit_encoded_kept:
  assumes "i < length (dc_controllers ctx)" "D (slot_at i ctx) \<Longrightarrow> D s \<and> F (cs_profile s) b r"
  shows "kept {i} ctx (snd (submit_encoded os i request (b, r, s) ctx))"
proof -
  have "kept {i} ctx (snd (pump_report os k i (Some b) r kd
      (on_slot i (\<lambda>_. snd (classify_slot (is_buttons request) request s)) ctx)))" for k kd
    by (rule kept_put_pump) (use assms classify_kept in auto)
  then show ?thesis by (simp add: submit_encoded_def case_prod_beta)
qed

lemma submit_input_kept:
  assumes "length (dc_controllers ctx) = k_max_controllers"
  shows "kept {unat (is_controller_id request)} ctx (snd (submit_input_state os owner request ctx))"
proof (cases "unat (is_controller_id request) < k_max_controllers")
  case True
  let ?i = "unat (is_controller_id request)"
  let ?s = "slot_at ?i ctx"
  let ?k = "remember_input request ?s"
  let ?ps = "encode_playstation (os_clock os 0) request ?k"
  have i: "?i < length (dc_controllers ctx)" using True assms by simp
  have "kept {?i} ctx (snd (submit_encoded os ?i request (fst ?ps, fst (snd ?ps), snd (snd ?ps)) ctx))"
    if "is_playstation (cs_profile ?s)" "cs_state ?s = Slot_Active"
    by (rule submit_encoded_kept [OF i])
      (use that playstation_encoded playstation_fits [of ?k] input_kept in simp)
  then have ps: "is_playstation (cs_profile ?s) \<Longrightarrow> cs_state ?s = Slot_Active \<Longrightarrow> kept {?i} ctx (snd (submit_encoded os ?i request ?ps ctx))"
    by simp
  have sw: "kept {?i} ctx (snd (submit_encoded os ?i request
      (fst (encode_switch request ?k), k_switch_input_report_id, snd (encode_switch request ?k)) ctx))"
    if "cs_profile ?s = Some Switch_Pro" "cs_state ?s = Slot_Active"
    by (rule submit_encoded_kept [OF i])
      (use that switch_encoded switch_fits [of ?k] input_kept in simp)
  have xb: "kept {?i} ctx (snd (submit_encoded os ?i request
      (xbox_input_bytes request ?s, k_xbox_series_input_report_id, ?k) ctx))"
    if "is_xbox (cs_profile ?s)"
    by (rule submit_encoded_kept [OF i]) (use that xbox_fits input_kept in simp)
  have ge: "kept {?i} ctx (snd (submit_encoded os ?i request
      (generic_input_bytes (encode_generic_input request), k_generic_input_report_id, ?k) ctx))"
    if "cs_profile ?s = Some Generic_Hid \<or> cs_profile ?s = Some Generic_Pid"
    by (rule submit_encoded_kept [OF i]) (use that generic_fits [of ?s] input_kept in simp)
  show ?thesis
    using ps sw xb ge submit_steam_kept [OF i] True
    by (simp add: submit_input_state_def Let_def case_prod_beta [of _ "encode_switch _ _"])
qed (simp add: submit_input_state_def)

section \<open>The keep-alive worker\<close>

lemma keepalive_battery_kept:
  assumes "is_steam_controller (cs_profile (slot_at i ctx))"
  shows "kept {i} ctx (keepalive_battery now i ctx)"
proof -
  let ?b = "\<lambda>s. sc26_battery_bytes (encode_sc26_battery (cs_sc26 s))"
  have "D (s\<lparr>cs_pump := snd (enqueue (Some (?b s)) (of_nat (length (?b s))) k_sc26_battery_report_id
        Aside (cs_pump s)), cs_sc26 := (cs_sc26 s)\<lparr>sc_last_battery_us := now\<rparr>\<rparr>)"
    if "D s" "is_steam_controller (cs_profile s)" for s
    using battery_sent_kept [OF enqueue_kept [OF that(1) battery_fits [OF that]]] by simp
  then show ?thesis
    unfolding keepalive_battery_def Let_def using assms by (intro touches_on_slot) simp
qed

lemma keepalive_slot_kept:
  assumes "i < length (dc_controllers ctx)"
    "keepalive_slot clk now i (a, r, pending, ctx) = (a', r', pending', ctx')"
  shows "kept {i} ctx ctx' \<and> (\<forall>(k, h) \<in> set pending'. (k, h) \<in> set pending \<or>
    k = i \<and> (list_all D (dc_controllers ctx) \<longrightarrow> sendable i ctx'))"
proof (cases "streams_sc26 (slot_at i ctx)")
  case False
  then show ?thesis using assms by (auto simp: keepalive_slot_def)
next
  case streams: True
  let ?s = "slot_at i ctx"
  have steam: "is_steam_controller (cs_profile ?s)" and live: "cs_state ?s \<noteq> Slot_Lost"
    using streams by (simp_all add: streams_sc26_def)
  have upd: "kept {i} ctx (on_slot i (\<lambda>s. s\<lparr>cs_sc26 := (cs_sc26 s)\<lparr>sc_last_report_us := v\<rparr>\<rparr>) ctx)" for v
    by (rule touches_on_slot) (rule sent_kept)
  let ?bd = "sc26_due now (sc_last_battery_us (cs_sc26 ?s)) k_sc26_battery_period_us"
  let ?c1 = "if ?bd then keepalive_battery now i ctx else ctx"
  let ?e = "encode_steam now (cs_last_input (slot_at i ?c1)) (slot_at i ?c1)"
  let ?rd = "sc26_due now (sc_last_report_us (cs_sc26 (slot_at i ?c1))) k_sc26_resend_after_us"
  let ?c2 = "if ?rd then on_slot i (\<lambda>_. snd ?e) ?c1 else ?c1"
  let ?d = "if ?rd then Some (sc26_input_bytes (fst ?e)) else None"
  have q1: "kept {i} ctx ?c1" using keepalive_battery_kept [OF steam] by simp
  have steam1: "is_steam_controller (cs_profile (slot_at i ?c1))"
    and live1: "cs_state (slot_at i ?c1) \<noteq> Slot_Lost"
    using steam live assms(1) by (simp_all add: keepalive_battery_def Let_def)
  have "kept {i} ?c1 (on_slot i (\<lambda>_. snd ?e) ?c1)" by (rule kept_put) (rule steam_encoded)
  then have "kept {i} ?c1 ?c2" by simp
  then have q2: "kept {i} ctx ?c2" by (rule touches_trans [OF q1])
  have len1: "i < length (dc_controllers ?c1)" using touches_length [OF q1] assms(1) by simp
  have fits: "fitting i ?d k_sc26_input_report_id ?c2" if "list_all D (dc_controllers ctx)"
  proof -
    have "D (slot_at i ?c1)" using touches_slot [OF q1 that assms(1)] .
    from steam_fits [OF this live1 steam1, of now "cs_last_input (slot_at i ?c1)"] show ?thesis
      using len1 by (simp add: fitting_def)
  qed
  obtain st nxt c3 where p: "pump_report_locked (clock_after (1 + i) clk) i ?d
      k_sc26_input_report_id Continuous False ?c2 = (st, nxt, c3)"
    by (cases "pump_report_locked (clock_after (1 + i) clk) i ?d
      k_sc26_input_report_id Continuous False ?c2")
  have q3: "kept {i} ctx c3"
    using pump_locked_from(1) [OF q2 assms(1) fits, of "clock_after (1 + i) clk" Continuous False] p by simp
  have send: "sendable i c3" if "list_all D (dc_controllers ctx)" "nxt = Some x" for x
    using pump_locked_from(2) [OF q2 assms(1) fits that(1), of "clock_after (1 + i) clk" Continuous False x]
      p that(2) by simp
  show ?thesis
  proof (cases "streams_sc26 ?s \<and> ready (cs_pump ?s) \<and> (?rd \<or> ?bd)")
    case False
    then show ?thesis
      using assms q1 upd by (auto simp: keepalive_slot_def Let_def split: if_splits)
  next
    case True
    then have "keepalive_slot clk now i (a, r, pending, ctx) = (True, True,
        (case nxt of None \<Rightarrow> pending | Some (_, vhf) \<Rightarrow>
          if nt_success st then pending @ [(i, vhf)] else pending), c3)"
      using p by (auto simp: keepalive_slot_def Let_def case_prod_beta [of _ "encode_steam _ _ _"]
          split: if_splits)
    then have "ctx' = c3" "pending' = (case nxt of None \<Rightarrow> pending | Some (_, vhf) \<Rightarrow>
          if nt_success st then pending @ [(i, vhf)] else pending)"
      using assms(2) by simp_all
    then show ?thesis using q3 send by (auto split: option.splits if_splits)
  qed
qed

text \<open>The pending submissions of a tick are those of the slots it has passed, and each
  slot is passed once.\<close>

lemma keepalive_fold_kept:
  assumes "distinct is" "\<forall>i \<in> set is. i < length (dc_controllers ctx)"
    "foldl (\<lambda>t i. keepalive_slot clk now i t) (a, r, pending, ctx) is = (a', r', pending', ctx')"
    "list_all D (dc_controllers ctx)"
    "\<forall>(i, h) \<in> set pending. i < length (dc_controllers ctx) \<and> i \<notin> set is \<and> sendable i ctx"
  shows "list_all D (dc_controllers ctx') \<and> (\<forall>(i, h) \<in> set pending'. sendable i ctx')"
  using assms
proof (induction "is" arbitrary: a r pending ctx)
  case (Cons i "is")
  obtain a1 r1 p1 c1 where k: "keepalive_slot clk now i (a, r, pending, ctx) = (a1, r1, p1, c1)"
    by (cases "keepalive_slot clk now i (a, r, pending, ctx)")
  have i: "i < length (dc_controllers ctx)" using Cons.prems by simp
  note step = keepalive_slot_kept [OF i k]
  from step have q: "kept {i} ctx c1" by simp
  have len: "length (dc_controllers c1) = length (dc_controllers ctx)" by (rule touches_length [OF q])
  have d: "list_all D (dc_controllers c1)" using q Cons.prems(4) by (simp add: touches_def)
  have "j < length (dc_controllers c1) \<and> j \<notin> set is \<and> sendable j c1" if "(j, h) \<in> set p1" for j h
  proof (cases "(j, h) \<in> set pending")
    case True
    then have "j < length (dc_controllers ctx)" "j \<notin> set (i # is)" "sendable j ctx"
      using Cons.prems(5) by auto
    moreover from this have "slot_at j c1 = slot_at j ctx" using q by (simp add: touches_defs)
    ultimately show ?thesis using len by (simp add: sendable_def)
  next
    case False
    then have "j = i" "sendable i c1" using step that Cons.prems(4) by auto
    then show ?thesis using i len Cons.prems(1) by simp
  qed
  then have "\<forall>(j, h) \<in> set p1. j < length (dc_controllers c1) \<and> j \<notin> set is \<and> sendable j c1" by blast
  from Cons.IH [OF _ _ _ d this, of a1 r1] show ?case using Cons.prems k len by simp
qed auto

lemma keepalive_fold_frame:
  assumes "\<forall>i \<in> set is. i < length (dc_controllers ctx)"
    "foldl (\<lambda>t i. keepalive_slot clk now i t) (a, r, pending, ctx) is = (a', r', pending', ctx')"
    "\<forall>(i, h) \<in> set pending. i < length (dc_controllers ctx)"
  shows "kept UNIV ctx ctx' \<and> (\<forall>(i, h) \<in> set pending'. i < length (dc_controllers ctx))"
  using assms
proof (induction "is" arbitrary: a r pending ctx)
  case (Cons i "is")
  obtain a1 r1 p1 c1 where k: "keepalive_slot clk now i (a, r, pending, ctx) = (a1, r1, p1, c1)"
    by (cases "keepalive_slot clk now i (a, r, pending, ctx)")
  have i: "i < length (dc_controllers ctx)" using Cons.prems by simp
  from keepalive_slot_kept [OF i k] have q: "kept {i} ctx c1"
    and p: "fst ` set p1 \<subseteq> insert i (fst ` set pending)" by force+
  have len: "length (dc_controllers c1) = length (dc_controllers ctx)" by (rule touches_length [OF q])
  have "kept UNIV c1 ctx' \<and> (\<forall>(i, h) \<in> set pending'. i < length (dc_controllers c1))"
    by (rule Cons.IH) (use Cons.prems k p i len in \<open>fastforce+\<close>)
  then show ?case using touches_trans [OF touches_mono [OF q]] len by auto
qed auto

lemma keepalive_wake_kept:
  assumes "length (dc_controllers ctx) = k_max_controllers"
  shows "kept UNIV ctx (snd (keepalive_wake os ctx))"
proof -
  let ?c0 = "ctx\<lparr>dc_sc26_due := None\<rparr>"
  obtain any pending c where k: "keepalive_locked (os_clock os) ?c0 = (any, pending, c)"
    by (cases "keepalive_locked (os_clock os) ?c0")
  let ?t = "if dc_stopping ?c0 then (False, False, [], ?c0)
    else foldl (\<lambda>t i. keepalive_slot (os_clock os) (os_clock os 0) i t) (False, False, [], ?c0)
      [0..<k_max_controllers]"
  obtain a r p d where t: "?t = (a, r, p, d)" by (cases ?t)
  have f: "kept UNIV ?c0 d \<and> (\<forall>(i, h) \<in> set p. i < length (dc_controllers ?c0))"
  proof (cases "dc_stopping ctx")
    case True
    then show ?thesis using t by simp
  next
    case False
    show ?thesis by (rule keepalive_fold_frame [of "[0..<k_max_controllers]"]) (use assms t False in auto)
  qed
  have g: "\<forall>(i, h) \<in> set p. sendable i d" if "list_all D (dc_controllers ?c0)"
  proof (cases "dc_stopping ctx")
    case True
    then show ?thesis using t by simp
  next
    case False
    then have "list_all D (dc_controllers d) \<and> (\<forall>(i, h) \<in> set p. sendable i d)"
      using assms t that by (intro keepalive_fold_kept [of "[0..<k_max_controllers]" ?c0]) auto
    then show ?thesis by blast
  qed
  have e: "pending = p" "c = (if \<not> a then d\<lparr>dc_sc26_timer_running := False\<rparr>
      else if r then arm_sc26_keepalive (os_clock os (1 + k_max_controllers)) d
      else d\<lparr>dc_sc26_timer_parked := True\<rparr>)"
    using k unfolding keepalive_locked_def Let_def t prod.case by blast+
  have "kept UNIV d c" unfolding e(2) by (simp add: touches_same)
  then have c: "kept UNIV ?c0 c" using f touches_trans by blast
  then have in_range: "\<forall>(i, h) \<in> set pending. i < length (dc_controllers c)"
    using f e(1) touches_length [OF c] by simp
  have "dc_controllers c = dc_controllers d" unfolding e(2) by (simp add: arm_sc26_keepalive_def)
  then have send: "\<forall>(i, h) \<in> set pending. sendable i c" if "list_all D (dc_controllers ?c0)"
    using g [OF that] sendable_same unfolding e(1) by blast
  let ?sent = "foldl (\<lambda>ctx (i, vhf). snd (submit_taken os i vhf ctx)) c pending"
  have start: "kept UNIV ctx ?c0" by (rule touches_same) simp_all
  have all: "kept UNIV ctx ?sent"
  proof (rule touches_when [of "\<lambda>_. False" "\<lambda>_ _. True"])
    have "touches (\<lambda>_. False) (\<lambda>_ _. True) UNIV c ?sent"
      by (rule stream_frame.submit_all_kept) (use in_range in \<open>auto simp: stream_frame.sendable_def\<close>)
    moreover have "\<not> list_all (\<lambda>_. False) (dc_controllers ctx)"
      using assms by (cases "dc_controllers ctx") (simp_all add: k_max_controllers_def)
    ultimately show "touches (\<lambda>_. False) (\<lambda>_ _. True) UNIV ctx ?sent"
      using touches_length [OF c] by (simp add: touches_defs)
    show "kept UNIV ctx ?sent" if "list_all D (dc_controllers ctx)"
    proof -
      have "\<forall>(i, h) \<in> set pending. i < length (dc_controllers c) \<and> sendable i c"
        using in_range send that by auto
      from touches_trans [OF start touches_trans [OF c submit_all_kept [OF this]]] show ?thesis .
    qed
  qed
  have "kept UNIV x (keepalive_exit x)" for x by (rule touches_same) (simp_all add: keepalive_exit_def)
  then show ?thesis
    using all touches_trans [OF all] k by (simp add: keepalive_wake_def sc26_keepalive_tick_def)
qed

section \<open>Callbacks of the framework\<close>

lemma publish_kept: "D s \<Longrightarrow> D (publish_pid_rumble s)"
  using post_kept [OF rumble_kept] produced_valid(1) by (simp add: publish_pid_rumble_def Let_def)

lemma tick_slot_kept: "D s \<Longrightarrow> D (tick_slot s)"
  by (simp add: tick_slot_def publish_kept pid_kept)

lemma write_steam_kept:
  assumes "i < length (dc_controllers ctx)" "is_steam_controller (cs_profile (slot_at i ctx))"
  shows "kept {i} ctx (snd (write_steam os transfer i ctx))"
proof (cases "apply_sc26_output (xf_buffer transfer) (cs_controller_id (slot_at i ctx))")
  case None
  then show ?thesis by (simp add: write_steam_def Let_def split: list.split option.split)
next
  case (Some e)
  obtain b q v where h: "enqueue_haptic k_haptic_queue_capacity (cs_haptics (slot_at i ctx)) e
      (cs_haptic_evicted (slot_at i ctx)) = (b, q, v)"
    by (cases "enqueue_haptic k_haptic_queue_capacity (cs_haptics (slot_at i ctx)) e
      (cs_haptic_evicted (slot_at i ctx))")
  let ?c = "on_slot i (\<lambda>s. s\<lparr>cs_haptics := q, cs_haptic_evicted := v\<rparr>) ctx"
  have put: "kept {i} ctx ?c"
    by (rule touches_on_slot) (rule haptic_kept [OF _ haptic_valid [OF Some] h])
  obtain n ack where a: "encode_haptic_ack (xf_buffer transfer) (Some (replicate 6 0)) = (n, ack)"
    by (cases "encode_haptic_ack (xf_buffer transfer) (Some (replicate 6 0))")
  have pump: "kept {i} ctx (snd (pump_report os k i (map_option (take n) ack) 0x44 kd ?c))" if "n \<noteq> 0" for k kd
  proof -
    obtain q' n' c' where p: "pump_report_locked k i (map_option (take n) ack) 0x44 kd True ?c = (q', n', c')"
      by (cases "pump_report_locked k i (map_option (take n) ack) 0x44 kd True ?c")
    have "fitting i (map_option (take n) ack) 0x44 ?c" if "list_all D (dc_controllers ctx)"
    proof -
      have "D (slot_at i ctx)" using that assms(1) by (simp add: list_all_length slot_at_def)
      from ack_fits [OF this assms(2)] a \<open>n \<noteq> 0\<close> assms(1) show ?thesis by (auto simp: fitting_def)
    qed
    from finish_from [OF put assms(1) this p touches_refl refl, of os] show ?thesis
      unfolding pump_report_def p prod.case by simp
  qed
  show ?thesis
    using put pump Some h a by (simp add: write_steam_def Let_def case_prod_beta)
qed

lemma write_switch_kept:
  assumes "i < length (dc_controllers ctx)" "cs_profile (slot_at i ctx) = Some Switch_Pro"
  shows "kept {i} ctx (snd (write_switch os transfer i ctx))"
proof (cases "accepts_vhf_callbacks ctx (slot_at i ctx)")
  case True
  then have live: "cs_state (slot_at i ctx) \<noteq> Slot_Lost" by (auto simp: accepts_vhf_callbacks_def)
  let ?s = "case decode_switch_rumble (xf_buffer transfer) of None \<Rightarrow> slot_at i ctx
    | Some r \<Rightarrow> post_feedback (encode_playstation_feedback (cs_controller_id (slot_at i ctx)) r) (slot_at i ctx)"
  have s: "D (slot_at i ctx) \<Longrightarrow> D (snd (switch_replies transfer ?s))"
    using post_kept switch_rumble_valid switch_replies_kept assms(2) live by (simp split: option.split)
  have "kept {i} ctx (snd (pump_report os k i None r kd
      (on_slot i (\<lambda>_. snd (switch_replies transfer ?s)) ctx)))" for k r kd
    by (rule kept_put_pump) (use s assms(1) in simp_all)
  then show ?thesis
    using kept_put [OF s] by (simp add: write_switch_def Let_def case_prod_beta)
qed (simp add: write_switch_def)

lemma write_playstation_kept: "kept {i} ctx (snd (write_playstation transfer i ctx))"
proof (cases "decode_playstation_output transfer (slot_at i ctx)")
  case (Some f)
  have "kept {i} ctx (on_slot i (\<lambda>s. post_feedback (encode_playstation_feedback (cs_controller_id s) f)
      (s\<lparr>cs_playstation_feedback := f\<rparr>)) ctx)"
    by (rule touches_on_slot) (rule playstation_kept [OF _ Some])
  then show ?thesis using Some by (simp add: write_playstation_def Let_def)
qed (simp add: write_playstation_def Let_def)

lemma write_pid_kept: "kept {i} ctx (snd (write_pid transfer i ctx))"
proof -
  obtain status e where a: "apply_pid_output transfer (cs_pid (slot_at i ctx)) = (status, e)"
    by (cases "apply_pid_output transfer (cs_pid (slot_at i ctx))")
  let ?s = "(slot_at i ctx)\<lparr>cs_pid := e\<rparr>"
  let ?t = "if nt_success status then publish_pid_rumble ?s else ?s"
  have q: "kept {i} ctx (on_slot i (\<lambda>_. ?t) ctx)"
    by (rule kept_put) (simp add: publish_kept pid_kept)
  have "kept {i} c (c\<lparr>dc_pid_timer_armed := True\<rparr>)" for c by (rule touches_same) simp_all
  then show ?thesis using q touches_trans [OF q] a by (simp add: write_pid_def Let_def)
qed

lemma write_generic_kept: "kept {i} ctx (snd (write_generic transfer i ctx))"
proof -
  have "kept {i} ctx (on_slot i (\<lambda>s. post_feedback (encode_generic_feedback (cs_controller_id s) g) s) ctx)" for g
    by (rule touches_on_slot) (simp add: post_kept produced_valid)
  then show ?thesis by (simp add: write_generic_def Let_def split: option.split)
qed

lemma xbox_output_kept: "D s \<Longrightarrow> D (snd (apply_xbox_output transfer s))"
  by (simp add: apply_xbox_output_def post_kept produced_valid split: option.split)

lemma write_report_kept:
  "i < length (dc_controllers ctx) \<Longrightarrow> kept {i} ctx (snd (evt_vhf_write_report os packet i ctx))"
  using kept_put [OF xbox_output_kept]
  by (simp add: evt_vhf_write_report_def Let_def case_prod_beta write_steam_kept write_switch_kept
      write_playstation_kept write_pid_kept write_generic_kept split: option.split)

lemma forward_settings_kept:
  "list_all (event_valid (cs_controller_id s)) events \<Longrightarrow> D s \<Longrightarrow> D (forward_settings events s)"
proof (induction events arbitrary: s)
  case (Cons e es)
  obtain q c where h: "enqueue_settings k_settings_queue_capacity (cs_settings s) e (cs_settings_evicted s) = (q, c)"
    by (cases "enqueue_settings k_settings_queue_capacity (cs_settings s) e (cs_settings_evicted s)")
  have "D (s\<lparr>cs_settings := q, cs_settings_evicted := c\<rparr>)"
    using settings_kept [OF Cons.prems(2) _ h] Cons.prems(1) by simp
  from Cons.IH [OF _ this] show ?case using Cons.prems(1) h by (simp add: forward_settings_def)
qed (simp add: forward_settings_def)

lemma set_feature_steam_kept: "D s \<Longrightarrow> D (snd (set_feature_steam transfer s))"
  using settings_valid
  by (simp add: set_feature_steam_def Let_def case_prod_beta forward_settings_kept steam_feature_kept)

lemma set_feature_kept: "kept {i} ctx (snd (evt_vhf_set_feature packet i ctx))"
  using kept_put [OF set_feature_steam_kept] kept_put [OF playstation_feature_kept] kept_put [OF pid_kept]
  by (simp add: evt_vhf_set_feature_def Let_def case_prod_beta split: option.split)

lemma current_report_kept: "D s \<Longrightarrow> D (snd (snd (current_report clk wanted s)))"
  by (auto simp: current_report_def Let_def case_prod_beta playstation_encoded
      steam_encoded switch_encoded split: option.split profile.split)

lemma get_input_kept: "kept {i} ctx (snd (snd (evt_vhf_get_input_report os packet i ctx)))"
  using kept_put [OF current_report_kept]
  by (simp add: evt_vhf_get_input_report_def Let_def case_prod_beta split: option.split)

lemma poll_feedback_kept:
  "kept {unat (ci_controller_id request)} ctx (snd (snd (poll_feedback owner request ctx)))"
proof -
  let ?i = "unat (ci_controller_id request)"
  obtain e s where p: "poll_slot (slot_at ?i ctx) = (e, s)" by (cases "poll_slot (slot_at ?i ctx)")
  have "kept {?i} ctx (on_slot ?i (\<lambda>_. s) ctx)" by (rule kept_put) (use poll_kept p in force)
  then show ?thesis using p by (simp add: poll_feedback_def Let_def split: option.split)
qed

lemma attributes_kept:
  "kept {unat (sa_controller_id request)} ctx (snd (set_steam_controller_attributes owner request ctx))"
  by (auto simp: set_steam_controller_attributes_def Let_def attributes_applied intro!: touches_on_slot)

lemma host_writes_kept: "kept UNIV ctx (host_writes os ws ctx)"
proof -
  have "kept UNIV ctx (foldl (\<lambda>ctx (packet, i). snd (evt_vhf_write_report os packet i ctx)) ctx vs)"
    if "\<forall>(packet, i) \<in> set vs. i < length (dc_controllers ctx)" for vs
    using that
  proof (induction vs arbitrary: ctx)
    case (Cons v vs)
    obtain packet i where v: "v = (packet, i)" by (cases v)
    let ?c = "snd (evt_vhf_write_report os packet i ctx)"
    have q: "kept {i} ctx ?c" using Cons.prems v by (intro write_report_kept) simp
    have "kept UNIV ?c (foldl (\<lambda>ctx (packet, i). snd (evt_vhf_write_report os packet i ctx)) ?c vs)"
      using Cons.prems touches_length [OF q] by (intro Cons.IH) simp
    then show ?case using touches_trans [OF touches_mono [OF q]] v by simp
  qed simp
  then show ?thesis by (simp add: host_writes_def split_beta)
qed

lemma kept_map: "(\<And>s. D s \<Longrightarrow> D (f s)) \<Longrightarrow> kept UNIV ctx (ctx\<lparr>dc_controllers := map f (dc_controllers ctx)\<rparr>)"
  by (simp add: touches_defs list_all_iff)

lemma pid_tick_kept:
  assumes "\<And>c. kept UNIV c (meanwhile c)"
  shows "kept UNIV ctx (evt_pid_tick meanwhile ctx)"
proof -
  let ?c = "ctx\<lparr>dc_controllers := map tick_slot (dc_controllers ctx)\<rparr>"
  have q: "kept UNIV ctx ?c" by (rule kept_map) (rule tick_slot_kept)
  have s: "kept UNIV c (c\<lparr>dc_pid_timer_armed := a\<rparr>)" for c a by (rule touches_same) simp_all
  have m: "kept UNIV ctx ((meanwhile ?c)\<lparr>dc_pid_timer_armed := a\<rparr>)" for a
    by (rule touches_trans [OF touches_trans [OF q assms] s])
  show ?thesis using q m touches_trans [OF m s] by (simp add: evt_pid_tick_def Let_def)
qed

lemma host_step_kept:
  assumes "host_step ctx ctx'" "length (dc_controllers ctx) = k_max_controllers"
  shows "kept UNIV ctx ctx'"
  using assms
  by (cases rule: host_step.cases)
    (auto intro: touches_same touches_mono [OF ready_callback_kept] touches_mono [OF write_report_kept]
      touches_mono [OF set_feature_kept] touches_mono [OF get_input_kept] keepalive_wake_kept
      pid_tick_kept host_writes_kept)

lemma host_steps_kept:
  assumes "host_step\<^sup>*\<^sup>* ctx ctx'" "length (dc_controllers ctx) = k_max_controllers"
  shows "kept UNIV ctx ctx'"
  using assms
proof (induction rule: rtranclp_induct)
  case (step b c)
  then have ab: "kept UNIV ctx b" by simp
  then have "kept UNIV b c" using host_step_kept [OF step(2)] touches_length [OF ab] step.prems by simp
  with ab show ?case by (rule touches_trans)
qed simp

section \<open>The life of a controller\<close>

lemma log_kept: "call_packet B c \<Longrightarrow> kept I ctx (log_call c ctx)"
  by (simp add: touches_defs log_call_def slot_at_def)

lemma release_kept: "kept {i} ctx (release_starting_slot i owner ctx)"
  using touches_on_slot [of i ctx D reset_slot B] reset_kept
  by (simp add: release_starting_slot_def Let_def)

lemma ensure_target_kept: "kept I ctx (snd (ensure_vhf_target_open os ctx))"
  by (rule touches_same) (simp_all add: ensure_vhf_target_open_def)

lemma halted_kept:
  "D s \<Longrightarrow> cs_state s \<notin> {Slot_Empty, Slot_Lost} \<Longrightarrow>
    D (s\<lparr>cs_state := st, cs_feedback_pending := False, cs_vhf := h\<rparr>)"
  using handle_kept [OF silent_kept [OF state_kept]] by simp

lemma adopt_kept:
  assumes "cs_state (slot_at i ctx) \<notin> {Slot_Empty, Slot_Lost}"
  shows "kept {i} ctx (snd (adopt_child status owner i ctx))"
proof -
  have "kept {i} ctx (on_slot i (\<lambda>s. s\<lparr>cs_state := Slot_Active\<rparr>) ctx)"
    by (rule touches_on_slot) (rule state_kept [OF _ assms])
  moreover have "kept {i} ctx (on_slot i (\<lambda>s. s\<lparr>cs_state := Slot_Stopping, cs_feedback_pending := False,
      cs_vhf := null_handle\<rparr>) ctx)"
    by (rule touches_on_slot) (rule halted_kept [OF _ assms])
  ultimately show ?thesis by (simp add: adopt_child_def Let_def)
qed

lemma start_child_kept:
  assumes "i = unat cid" "i < length (dc_controllers ctx)"
    "\<And>c. length (dc_controllers c) = length (dc_controllers ctx) \<Longrightarrow>
      kept J c (snd (os_vhf_start os c)) \<and> calm c (snd (os_vhf_start os c))"
    "cs_state (slot_at i ctx) = Slot_Starting"
  shows "kept (insert i J) ctx (snd (start_child os owner cid defn ctx))"
proof -
  obtain status h where cr: "os_vhf_create os = (status, h)" by (cases "os_vhf_create os")
  let ?I = "insert i J"
  have up: "kept {i} a b \<Longrightarrow> kept ?I a b" for a b by (erule touches_mono) auto
  let ?c1 = "on_slot i (name_child cid) ctx"
  let ?c2 = "log_call (Vhf_Create (child_config defn (slot_at i ?c1)) h) ?c1"
  let ?c3 = "on_slot i (\<lambda>s. s\<lparr>cs_vhf := h\<rparr>) ?c2"
  let ?c4 = "log_call (Vhf_Start h) ?c3"
  obtain st5 c5 where s5: "os_vhf_start os ?c4 = (st5, c5)" by (cases "os_vhf_start os ?c4")
  obtain a c6 where a: "adopt_child st5 owner i c5 = (a, c6)" by (cases "adopt_child st5 owner i c5")
  have c1: "kept ?I ctx ?c1" by (rule up, rule touches_on_slot) (rule named_kept)
  have c2: "kept ?I ctx ?c2" by (rule touches_trans [OF c1]) (rule log_kept, simp)
  have c3: "kept ?I ctx ?c3" by (rule touches_trans [OF c2], rule up, rule touches_on_slot) (rule handle_kept)
  have c4: "kept ?I ctx ?c4" by (rule touches_trans [OF c3]) (rule log_kept, simp)
  have l4: "length (dc_controllers ?c4) = length (dc_controllers ctx)" by (rule touches_length [OF c4])
  have k5: "kept J ?c4 c5" and "calm ?c4 c5" using assms(3) [OF l4] s5 by simp_all
  from calm_identity [OF this(2), of i] l4 assms(2,4)
  have st: "cs_state (slot_at i c5) \<notin> {Slot_Empty, Slot_Lost}" by (simp add: slot_identity_fields name_child_def)
  from k5 have c5: "kept ?I ctx c5" by (intro touches_trans [OF c4]) (rule touches_mono, auto)
  have c6: "kept ?I ctx c6" using touches_trans [OF c5 up [OF adopt_kept [OF st, of st5 owner]]] a by simp
  have c7: "kept ?I ctx (log_call (Vhf_Delete h) c6)" by (rule touches_trans [OF c6]) (rule log_kept, simp)
  show ?thesis
    using touches_trans [OF c1 up [OF release_kept]] touches_trans [OF c7 up [OF release_kept]] c6
      cr s5 a assms(1) by (simp add: start_child_def Let_def)
qed

lemma create_kept:
  assumes "length (dc_controllers (os_meanwhile os ctx)) = k_max_controllers"
    "\<And>c. length (dc_controllers c) = k_max_controllers \<Longrightarrow>
      kept J c (snd (os_vhf_start os c)) \<and> calm c (snd (os_vhf_start os c))"
  shows "snd (create_controller os owner request ctx) = ctx \<or>
    kept (insert (unat (cc_controller_id request)) J) (os_meanwhile os ctx)
      (snd (create_controller os owner request ctx))"
proof -
  let ?i = "unat (cc_controller_id request)"
  let ?I = "insert ?i J"
  let ?m = "os_meanwhile os ctx"
  have up: "kept {?i} a b \<Longrightarrow> kept ?I a b" for a b by (erule touches_mono) auto
  have run: "kept ?I ?m (snd (let ctx = on_slot ?i (starting_slot owner (cc_controller_id request) defn) ?m;
        (open_status, ctx) = ensure_vhf_target_open os ctx
      in if \<not> nt_success open_status then (open_status, release_starting_slot ?i owner ctx)
         else if dc_vhf_file_handle ctx = null_handle
         then (Status_Device_Not_Ready, release_starting_slot ?i owner ctx)
         else start_child os owner (cc_controller_id request) defn ctx))"
    if i: "?i < k_max_controllers" and defn: "find_profile profile = Some defn" for profile defn
  proof -
    let ?c = "on_slot ?i (starting_slot owner (cc_controller_id request) defn) ?m"
    obtain st c3 where e: "ensure_vhf_target_open os ?c = (st, c3)"
      by (cases "ensure_vhf_target_open os ?c")
    have "kept ?I ?m ?c" by (rule up, rule touches_on_slot) (rule starting_kept [OF defn])
    from touches_trans [OF this ensure_target_kept [of ?I ?c os]] e
    have c3: "kept ?I ?m c3" by simp
    have "dc_controllers (snd (ensure_vhf_target_open os c)) = dc_controllers c" for c
      by (simp add: ensure_vhf_target_open_def)
    from this [of ?c] have at3: "slot_at ?i c3 = slot_at ?i ?c" using e by (simp add: slot_at_def)
    have l: "length (dc_controllers c3) = k_max_controllers" using touches_length [OF c3] assms(1) by simp
    have "kept ?I c3 (snd (start_child os owner (cc_controller_id request) defn c3))"
      by (rule start_child_kept)
        (use l i assms at3 in \<open>simp_all add: starting_slot_def Let_def\<close>)
    from touches_trans [OF c3 this] touches_trans [OF c3 up [OF release_kept]] e
    show ?thesis by simp
  qed
  show ?thesis
    using run by (auto simp: create_controller_def create_revalidate_def Let_def bind_eq_Some_conv split: option.split)
qed

lemma wait_kept: "kept {i} ctx (wait_for_submits i ctx)"
  unfolding wait_for_submits_def by (rule touches_on_slot) (rule submits_kept)

lemma destroy_owned_kept: "kept {i} ctx (destroy_owned_controller owner i ctx)"
proof -
  let ?f = "\<lambda>s. s\<lparr>cs_state := Slot_Stopping, cs_feedback_pending := False,
    cs_haptics := (case cs_haptics s of (q, h, n) \<Rightarrow> (q, h, 0)),
    cs_settings := (case cs_settings s of (q, h, n) \<Rightarrow> (q, h, 0)), cs_vhf := null_handle\<rparr>"
  have f: "D (?f s)" if "D s" "cs_state s \<notin> {Slot_Empty, Slot_Lost}" for s
    using handle_kept [OF emptied_kept [OF silent_kept [OF state_kept [OF that]]]] by simp
  have "kept {i} ctx (on_slot i ?f ctx)" if "cs_state (slot_at i ctx) \<notin> {Slot_Empty, Slot_Lost}"
    by (rule touches_on_slot) (rule f [OF _ that])
  moreover have "kept {i} ctx (on_slot i (\<lambda>s. s\<lparr>cs_state := Slot_Stopping\<rparr>) ctx)"
    if "cs_state (slot_at i ctx) \<notin> {Slot_Empty, Slot_Lost}"
    by (rule touches_on_slot) (rule state_kept [OF _ that])
  moreover have "kept {i} ctx (on_slot i reset_slot ctx)" by (rule touches_on_slot) (rule reset_kept)
  ultimately have l: "kept {i} ctx (snd (destroy_locked owner i ctx))"
    by (simp add: destroy_locked_def Let_def)
  have fin: "kept {i} c (destroy_finish owner i c)" for c
    using touches_on_slot [of i c D reset_slot B, OF reset_kept] by (simp add: destroy_finish_def Let_def)
  have del: "kept {i} c (log_call (Vhf_Delete h) (wait_for_submits i c))" for c h
    by (rule touches_trans [OF wait_kept log_kept]) simp
  show ?thesis
    using l touches_trans [OF l fin] touches_trans [OF l touches_trans [OF del fin]]
    by (cases "destroy_locked owner i ctx") (auto simp: destroy_owned_controller_def split: option.split)
qed

lemma destroy_kept:
  "kept {unat (ci_controller_id request)} ctx (snd (destroy_controller owner request ctx))"
  by (simp add: destroy_controller_def Let_def destroy_owned_kept)

lemma file_close_kept: "kept UNIV ctx (evt_file_close file ctx)"
proof -
  have "kept UNIV ctx (foldl (\<lambda>ctx i. destroy_owned_controller file i ctx) ctx is)" for "is"
  proof (induction "is" arbitrary: ctx)
    case (Cons i "is")
    have "kept UNIV ctx (destroy_owned_controller file i ctx)"
      by (rule touches_mono [OF destroy_owned_kept]) simp
    from touches_trans [OF this Cons] show ?case by simp
  qed simp
  then show ?thesis by (simp add: evt_file_close_def)
qed

lemma stop_timers_kept: "kept I ctx (stop_timers ctx)"
proof -
  have "kept I ctx (ctx\<lparr>dc_pid_timer_armed := False\<rparr>)" by (rule touches_same) simp_all
  from touches_trans [OF this stop_touches] show ?thesis by (simp add: stop_timers_def)
qed

lemma drain_kept:
  "(\<And>s. D s \<Longrightarrow> D (f s)) \<Longrightarrow>
    kept UNIV ctx (foldl (\<lambda>ctx i. drain_and_delete f hs i ctx) ctx is)"
proof (induction "is" arbitrary: ctx)
  case (Cons i "is")
  have up: "kept {i} a b \<Longrightarrow> kept UNIV a b" for a b by (rule touches_mono) simp_all
  have d: "kept UNIV ctx (log_call (Vhf_Delete (hs ! i)) (wait_for_submits i ctx))"
    by (rule touches_trans [OF up [OF wait_kept] log_kept]) simp
  have "kept UNIV c (on_slot i f c)" for c by (rule up, rule touches_on_slot) (rule Cons.prems)
  from touches_trans [OF d this] have "kept UNIV ctx (drain_and_delete f hs i ctx)"
    by (simp add: drain_and_delete_def)
  from touches_trans [OF this Cons.IH [OF Cons.prems]] show ?case by simp
qed simp

lemma stop_slot_kept: "D s \<Longrightarrow> D (stop_slot s)"
proof -
  assume d: "D s"
  let ?s = "s\<lparr>cs_feedback_pending := False,
    cs_haptics := (case cs_haptics s of (q, h, n) \<Rightarrow> (q, h, 0)),
    cs_settings := (case cs_settings s of (q, h, n) \<Rightarrow> (q, h, 0))\<rparr>"
  have s: "D ?s" using emptied_kept [OF silent_kept [OF d]] by simp
  then show "D (stop_slot s)" using state_kept [OF s] reset_kept by (auto simp: stop_slot_def Let_def)
qed

lemma stop_all_kept: "kept UNIV ctx (stop_owned_controllers forget ctx)"
proof -
  define c1 where "c1 = ctx\<lparr>dc_stopping := True, dc_powered := False, dc_sc26_timer_running := False,
    dc_controllers := map stop_slot (dc_controllers ctx), dc_vhf_file_handle := null_handle\<rparr>"
  define c3 where "c3 = (if forget then c1\<lparr>dc_local_vhf_target := False, dc_vhf_target_open := False\<rparr> else c1)"
  define hs where "hs = map (fst \<circ> detach_stopping) (dc_controllers c3)"
  define c4 where "c4 = c3\<lparr>dc_controllers := map (snd \<circ> detach_stopping) (dc_controllers c3)\<rparr>"
  define c5 where "c5 = foldl (\<lambda>ctx i. drain_and_delete reset_slot hs i ctx) c4 [0..<k_max_controllers]"
  have run: "stop_owned_controllers forget ctx = stop_timers c5"
    unfolding stop_owned_controllers_def Let_def c5_def c4_def hs_def c3_def c1_def
    by (simp cong: if_cong)
  have "kept UNIV ctx c3"
    using kept_map [of stop_slot ctx] stop_slot_kept
    by (simp add: touches_defs c3_def c1_def)
  moreover have "kept UNIV c3 c4"
    unfolding c4_def by (rule kept_map) (simp add: detach_stopping_def handle_kept)
  moreover have "kept UNIV c4 c5" unfolding c5_def by (rule drain_kept) (rule reset_kept)
  ultimately have "kept UNIV ctx c5" using touches_trans by blast
  from touches_trans [OF this stop_timers_kept] show ?thesis by (simp add: run)
qed

lemma kept_map2:
  assumes "\<And>h s. D s \<Longrightarrow> D (f h s)" "length hs = length (dc_controllers ctx)"
  shows "kept UNIV ctx (ctx\<lparr>dc_controllers := map2 f hs (dc_controllers ctx)\<rparr>)"
  using assms by (auto simp: touches_defs list_all_length)

lemma power_down_kept: "kept UNIV ctx (power_down_controllers ctx)"
proof -
  define c1 where "c1 = ctx\<lparr>dc_powered := False, dc_sc26_timer_running := False\<rparr>"
  define hs where "hs = map (fst \<circ> power_down_slot) (dc_controllers c1)"
  define c2 where "c2 = c1\<lparr>dc_controllers := map (snd \<circ> power_down_slot) (dc_controllers c1)\<rparr>"
  define c3 where "c3 = c2\<lparr>dc_controllers := map2 detach_handle hs (dc_controllers c2)\<rparr>"
  define c4 where "c4 = stop_timers c3"
  define c5 where "c5 = foldl (\<lambda>ctx i. drain_and_delete id hs i ctx) c4 [0..<k_max_controllers]"
  define c6 where "c6 = c5\<lparr>dc_controllers := map2 lose_slot hs (dc_controllers c5)\<rparr>"
  have run: "power_down_controllers ctx = c6"
    unfolding power_down_controllers_def Let_def c6_def c5_def c4_def c3_def c2_def hs_def c1_def by simp
  have a: "kept UNIV ctx c1" by (rule touches_same) (simp_all add: c1_def)
  have "D (snd (power_down_slot s))" if "D s" for s
    using silent_kept [OF state_kept [OF that, of Slot_Stopping]] that by (auto simp: power_down_slot_def)
  then have b: "kept UNIV c1 c2" unfolding c2_def by (intro kept_map) simp
  have l: "length hs = length (dc_controllers c2)" by (simp add: hs_def c2_def)
  have c: "kept UNIV c2 c3"
    unfolding c3_def by (rule kept_map2) (simp_all add: l detach_handle_def handle_kept)
  have d: "kept UNIV c3 c4" unfolding c4_def by (rule stop_timers_kept)
  have e: "kept UNIV c4 c5" unfolding c5_def by (rule drain_kept) simp
  have to5: "kept UNIV ctx c5"
    by (rule touches_trans [OF a touches_trans [OF b touches_trans [OF c touches_trans [OF d e]]]])
  have "D (lose_slot h s)" if "D s" for h s
    using that lost_kept [OF that] by (simp add: lose_slot_def)
  then have "kept UNIV c5 c6"
    unfolding c6_def
    by (rule kept_map2) (use touches_length [OF to5] l in \<open>simp_all add: c2_def c1_def\<close>)
  from touches_trans [OF to5 this] show ?thesis by (simp add: run)
qed

section \<open>Every reachable context\<close>

lemma control_kept:
  assumes "length (dc_controllers ctx) = k_max_controllers"
    "ioctl_of code \<noteq> Some Ioctl_Create_Controller"
  shows "kept {unat (u32_at b 8)} ctx (snd (evt_io_device_control os file code b n ctx))"
proof -
  have poll: "kept {unat (u32_at b 8)} ctx (snd (control_poll file b n ctx))"
    using poll_feedback_kept [of "parse_controller_id b" ctx "file"]
    by (simp add: control_poll_def Let_def case_prod_beta parse_controller_id_def)
  have ids: "is_controller_id (parse_input b) = u32_at b 8" "ts_controller_id (parse_touch b) = u32_at b 8"
    "ms_controller_id (parse_motion b) = u32_at b 8" "bs_controller_id (parse_battery b) = u32_at b 8"
    "sa_controller_id (parse_attributes b) = u32_at b 8"
    "ci_controller_id (parse_controller_id b) = u32_at b 8"
    by (simp_all add: parse_input_def parse_touch_def parse_motion_def parse_battery_def
        parse_attributes_def parse_controller_id_def)
  have plain: "kept {unat (u32_at b 8)} ctx (snd (plain_request os file c b ctx))"
    if "c \<noteq> Ioctl_Create_Controller" for c
    using that submit_input_kept [OF assms(1), of "parse_input b" os "file"]
      submit_touch_kept [OF assms(1), of "parse_touch b" os "file"]
      submit_motion_kept [OF assms(1), of "parse_motion b" os "file"]
      submit_battery_kept [OF assms(1), of "parse_battery b" os "file"]
      attributes_kept [of "parse_attributes b" ctx "file"] destroy_kept [of "parse_controller_id b" ctx "file"]
    by (cases c) (simp_all add: plain_request_def Let_def ids)
  show ?thesis
    using assms(2) poll plain
    by (auto simp: evt_io_device_control_def case_prod_beta split: option.split ioctl.split)
qed

definition all_kept :: "device_context \<Rightarrow> bool"
  where "all_kept ctx \<longleftrightarrow> list_all D (dc_controllers ctx) \<and> list_all (call_packet B) (dc_log ctx)"

lemma all_kept_step: "all_kept ctx \<Longrightarrow> kept I ctx ctx' \<Longrightarrow> all_kept ctx'"
  unfolding touches_def all_kept_def by (metis list_all_append)

lemma reachable_kept: "driver_reachable ctx \<Longrightarrow> all_kept ctx"
proof (induction rule: driver_reachable.induct)
  case (reach_start a b c d)
  show ?case by (simp add: all_kept_def initial_context_def list_all_iff fresh_kept)
next
  case (reach_control ctx os "file" code b n)
  have len: "length (dc_controllers c) = k_max_controllers" if "driver_reachable c" for c
    using driver_reachable_ok [OF that] core_okD(1) by (auto simp: driver_ok_def)
  show ?case
  proof (cases "ioctl_of code = Some Ioctl_Create_Controller")
    case False
    from all_kept_step [OF reach_control.IH(1) control_kept [OF len [OF reach_control.hyps(1)] False]]
    show ?thesis .
  next
    case True
    have "kept UNIV c (snd (os_vhf_start os c)) \<and> calm c (snd (os_vhf_start os c))"
      if "length (dc_controllers c) = k_max_controllers" for c
      using reach_control.hyps(3) that host_steps_kept calm_everywhere by (auto simp: vhf_contract_def)
    from create_kept [OF len [OF reach_control.hyps(2)] this]
    have "all_kept (snd (create_controller os file request ctx))" for request
      using all_kept_step reach_control.IH by metis
    then show ?thesis
      using True reach_control.IH(1)
      by (auto simp: evt_io_device_control_def plain_request_def Let_def case_prod_beta)
  qed
next
  case (reach_host ctx ctx')
  have "length (dc_controllers ctx) = k_max_controllers"
    using driver_reachable_ok [OF reach_host.hyps(1)] core_okD(1) by (auto simp: driver_ok_def)
  from all_kept_step [OF reach_host.IH host_step_kept [OF reach_host.hyps(2) this]] show ?case .
next
  case (reach_close ctx "file")
  from all_kept_step [OF reach_close.IH file_close_kept] show ?case .
next
  case (reach_d0_entry ctx)
  then show ?case by (simp add: all_kept_def evt_d0_entry_def)
next
  case (reach_d0_exit ctx)
  from all_kept_step [OF reach_d0_exit.IH power_down_kept] show ?case by (simp add: evt_d0_exit_def)
next
  case (reach_prepare ctx os)
  have "all_kept (ctx\<lparr>dc_stopping := False\<rparr>)" using reach_prepare.IH by (simp add: all_kept_def)
  from all_kept_step [OF this ensure_target_kept] show ?case by (simp add: evt_prepare_hardware_def)
next
  case (reach_release ctx)
  from all_kept_step [OF reach_release.IH stop_all_kept] show ?case
    by (simp add: evt_release_hardware_def all_kept_def)
next
  case (reach_target_cleanup ctx)
  from all_kept_step [OF reach_target_cleanup.IH stop_all_kept] show ?case
    by (simp add: evt_vhf_target_cleanup_def)
next
  case (reach_cleanup ctx)
  from all_kept_step [OF reach_cleanup.IH stop_touches] show ?case
    by (simp add: evt_device_cleanup_def all_kept_def)
qed

end

end
