(* ===== verification/DriverTypes.thy ===== *)
theory DriverTypes
  imports DriverData DriverLife
begin

text \<open>
  What a slot of a reachable device looks like: the emulated devices in it are in states their
  profiles can reach, every report waiting in its pump has the size that the profile's
  descriptor declares for the report's id, and every event waiting for the client is one the
  client library accepts.
\<close>

section \<open>Reports of the declared size\<close>

text \<open>The bytes a host reads for an input report: the id and what the profile's
  descriptor declares under it.\<close>

definition input_report_length :: "profile \<Rightarrow> byte \<Rightarrow> nat option"
  where "input_report_length p r = (case find_profile p of
     None \<Rightarrow> None
   | Some d \<Rightarrow> (case map_of (report_bits (pd_report_descriptor d)) (uint r) of
        Some (inp, _, _) \<Rightarrow> if inp = 0 then None else Some (1 + nat (inp div 8))
      | None \<Rightarrow> None))"

definition fits :: "profile option \<Rightarrow> byte \<Rightarrow> nat \<Rightarrow> bool"
  where "fits pr r n \<longleftrightarrow> 0 < n \<and> n \<le> k_max_report_bytes \<and>
    (\<exists>p. pr = Some p \<and> input_report_length p r = Some n)"

fun snap_fits :: "profile option \<Rightarrow> snapshot \<Rightarrow> bool"
  where "snap_fits pr (b, r) = fits pr r (length b)"

definition buffer_fits :: "profile option \<Rightarrow> report_buffer \<Rightarrow> bool"
  where "buffer_fits pr t \<longleftrightarrow> buffer_ok t \<and> fits pr (rb_report_id t) (unat (rb_length t))"

definition pump_fits :: "profile option \<Rightarrow> report_pump \<Rightarrow> bool"
  where "pump_fits pr p \<longleftrightarrow> pump_ok p \<and> list_all (snap_fits pr) (a_priority (abs_pump p)) \<and>
    list_all (snap_fits pr \<circ> fst) (a_ordered (abs_pump p)) \<and>
    (\<forall>s. a_latest (abs_pump p) = Some s \<longrightarrow> snap_fits pr s)"

lemma snap_buffer: "buffer_ok t \<Longrightarrow> snap_fits pr (snap t) \<longleftrightarrow> buffer_fits pr t"
  by (simp add: snap_def buffer_fits_def buffer_ok_def)

lemma newest_all: "list_all P xs \<Longrightarrow> list_all P (newest n xs)"
  by (auto simp: newest_def list_all_iff dest: in_set_dropD)

lemma tl_all: "list_all P xs \<Longrightarrow> list_all P (tl xs)"
  by (cases xs) simp_all

lemma enqueue_fits:
  assumes "pump_fits pr p" "fits pr r (length b)"
  shows "pump_fits pr (snd (enqueue (Some b) (of_nat (length b)) r k p))"
proof -
  let ?l = "of_nat (length b) :: u32"
  have l: "unat ?l = length b" using assms(2) by (simp add: fits_def k_max_report_bytes_def unat_of_nat)
  then have l0: "?l \<noteq> 0" using assms(2) by (auto simp: fits_def)
  have s: "source_ok (Some b) ?l" "snap_of b ?l r = (b, r)"
    using l assms(2) by (simp_all add: source_ok_def snap_of_def fits_def)
  have p: "pump_ok p" using assms(1) by (simp add: pump_fits_def)
  from enqueue_abs [OF p s(1) l0, of r k] s(2)
  have q: "pump_ok (snd (enqueue (Some b) ?l r k p))"
    and a: "abs_pump (snd (enqueue (Some b) ?l r k p)) = snd (a_enqueue (b, r) k (abs_pump p))"
    by (simp, metis snd_conv)
  have x: "snap_fits pr (b, r)" using assms(2) by simp
  show ?thesis
    using assms(1) x q newest_all [of "snap_fits pr \<circ> fst" "a_ordered (abs_pump p) @ [((b, r), False)]"]
    unfolding pump_fits_def a by (cases k) (simp_all add: a_enqueue_def)
qed

lemma take_fits:
  assumes "pump_fits pr p"
  shows "pump_fits pr (snd (pump_take p))"
    and "fst (pump_take p) = Some t \<Longrightarrow> buffer_fits pr t"
proof -
  have p: "pump_ok p" using assms by (simp add: pump_fits_def)
  note t = take_abs [OF p]
  then have q: "pump_ok (snd (pump_take p))" by simp
  have a: "map_option snap (fst (pump_take p)) = fst (a_take (abs_pump p))"
    "abs_pump (snd (pump_take p)) = snd (a_take (abs_pump p))"
    using t by (metis fst_conv, metis snd_conv)
  have next_fits: "\<forall>x. a_next (abs_pump p) = Some x \<longrightarrow> snap_fits pr (snd x)"
    using assms
    by (auto simp: pump_fits_def a_next_def list_all_iff split: list.split option.split)
  show "pump_fits pr (snd (pump_take p))"
    using assms q unfolding pump_fits_def a(2)
    by (auto simp: a_take_def tl_all split: option.split prod.split report_kind.split)
  show "buffer_fits pr t" if "fst (pump_take p) = Some t"
  proof -
    have "in_flight (snd (pump_take p)) = t" using that by (auto simp: pump_take_def Let_def split: if_splits)
    then have "buffer_ok t" using q by (auto simp: pump_ok_def)
    moreover have "snap_fits pr (snap t)"
      using a(1) next_fits that by (cases "a_next (abs_pump p)") (auto simp: a_take_def)
    ultimately show ?thesis using snap_buffer by blast
  qed
qed

lemma pump_fits_frame [simp]:
  "pump_fits pr (set_ready p) = pump_fits pr p"
  "buffer_ok t \<Longrightarrow> pump_fits pr p \<Longrightarrow> pump_fits pr (p\<lparr>in_flight := t\<rparr>)"
  by (simp_all add: pump_fits_def set_ready_def abs_pump_def ordered_def pump_ok_def ring_shape_def)

lemma new_pump_fits: "pump_fits pr new_pump" "pump_fits pr (pump_reset new_pump)"
  using new_pump_ok
  by (simp_all add: pump_fits_def abs_pump_def new_pump_def pump_reset_def ordered_def pump_ok_def ring_shape_def)

text \<open>The sizes, per profile and report id.\<close>

lemma input_report_lengths:
  "input_report_length Dualshock_4 0x01 = Some 64" "input_report_length Dualsense 0x01 = Some 64"
  "input_report_length Switch_Pro 0x30 = Some 64" "input_report_length Switch_Pro 0x21 = Some 64"
  "input_report_length Switch_Pro 0x81 = Some 64"
  "input_report_length Xbox_Series 1 = Some 17" "input_report_length Xbox_One 1 = Some 16"
  "input_report_length Steam_Controller 0x42 = Some 54" "input_report_length Steam_Controller 0x43 = Some 15"
  "input_report_length Steam_Controller 0x44 = Some 6"
proof -
  have take2: "xs = take 2 xs @ drop 2 xs" for xs :: "(int \<times> int \<times> int \<times> int) list" by simp
  have ds4: "map_of (report_bits ds4_descriptor) 1 = Some (504, 0, 0)"
    by (subst take2) (simp add: playstation_switch_bits)
  have ds5: "map_of (report_bits ds5_descriptor) 1 = Some (504, 0, 0)"
    by (subst take2) (simp add: playstation_switch_bits)
  note defs = input_report_length_def xbox_series_profile_def xbox_one_profile_def dualshock4_profile_def
    dualsense_profile_def switch_pro_profile_def steam_controller_profile_def
  show "input_report_length Dualshock_4 0x01 = Some 64" "input_report_length Dualsense 0x01 = Some 64"
    by (simp_all add: defs ds4 ds5)
  show "input_report_length Switch_Pro 0x30 = Some 64" "input_report_length Switch_Pro 0x21 = Some 64"
    "input_report_length Switch_Pro 0x81 = Some 64"
    "input_report_length Xbox_Series 1 = Some 17" "input_report_length Xbox_One 1 = Some 16"
    by (simp_all add: defs playstation_switch_bits xbox_series_bits xbox_one_bits)
  show "input_report_length Steam_Controller 0x42 = Some 54" "input_report_length Steam_Controller 0x43 = Some 15"
    "input_report_length Steam_Controller 0x44 = Some 6"
    by (simp_all add: defs report_descriptor_is_provisional_def sc26_parsed sc26_bits_def)
qed

lemma fits_lengths:
  "fits (Some Dualshock_4) 1 64" "fits (Some Dualsense) 1 64"
  "fits (Some Switch_Pro) 0x30 64" "fits (Some Switch_Pro) 0x21 64" "fits (Some Switch_Pro) 0x81 64"
  "fits (Some Xbox_Series) 1 17" "fits (Some Xbox_One) 1 16"
  "fits (Some Steam_Controller) 0x42 54" "fits (Some Steam_Controller) 0x43 15"
  "fits (Some Steam_Controller) 0x44 6"
  using input_report_lengths by (simp_all add: fits_def k_max_report_bytes_def)

section \<open>Well-formed slots\<close>

definition events_wf :: "controller_slot \<Rightarrow> bool"
  where "events_wf s \<longleftrightarrow> haptic_ok k_haptic_queue_capacity (cs_haptics s) \<and>
    ring_ok k_settings_queue_capacity (cs_settings s) \<and>
    list_all (event_valid (cs_controller_id s)) (ring_contents (cs_haptics s)) \<and>
    list_all (event_valid (cs_controller_id s)) (ring_contents (cs_settings s)) \<and>
    (cs_feedback_pending s \<longrightarrow> event_valid (cs_controller_id s) (cs_feedback s)) \<and>
    playstation_output_ok (cs_playstation_feedback s)"

definition devices_wf :: "controller_slot \<Rightarrow> bool"
  where "devices_wf s \<longleftrightarrow> ds4_reachable (cs_ds4 s) \<and> ds5_reachable (cs_ds5 s) \<and>
    switch_reachable (cs_switch_pro s) \<and> sc26_reachable (cs_sc26 s)"

definition slot_wf :: "controller_slot \<Rightarrow> bool"
  where "slot_wf s \<longleftrightarrow> pump_fits (cs_profile s) (cs_pump s) \<and> events_wf s \<and>
    (\<forall>p. cs_profile s = Some p \<longrightarrow> find_profile p \<noteq> None) \<and>
    (cs_state s \<notin> {Slot_Empty, Slot_Lost} \<longrightarrow> cs_profile s \<noteq> None) \<and>
    (cs_profile s \<noteq> None \<and> cs_state s \<noteq> Slot_Lost \<longrightarrow> devices_wf s)"

lemma wf_devices:
  assumes "slot_wf s" "devices_wf s \<Longrightarrow> devices_wf t"
    "cs_pump t = cs_pump s" "cs_profile t = cs_profile s" "cs_state t = cs_state s"
    "cs_haptics t = cs_haptics s" "cs_settings t = cs_settings s"
    "cs_controller_id t = cs_controller_id s" "cs_feedback_pending t = cs_feedback_pending s"
    "cs_feedback t = cs_feedback s" "cs_playstation_feedback t = cs_playstation_feedback s"
  shows "slot_wf t"
  using assms by (auto simp: slot_wf_def events_wf_def)

lemma wf_pump:
  assumes "slot_wf s" "pump_fits (cs_profile s) p"
  shows "slot_wf (s\<lparr>cs_pump := p\<rparr>)"
  using assms by (simp add: slot_wf_def events_wf_def devices_wf_def)

lemma wf_events:
  assumes "slot_wf s" "events_wf t" "devices_wf t = devices_wf s"
    "cs_pump t = cs_pump s" "cs_profile t = cs_profile s" "cs_state t = cs_state s"
  shows "slot_wf t"
  using assms by (simp add: slot_wf_def)

lemma slot_wf_pump: "slot_wf s \<Longrightarrow> pump_fits (cs_profile s) (cs_pump s)"
  by (simp add: slot_wf_def)

interpretation wf_stream: slot_stream slot_wf buffer_fits "\<lambda>pr b r. fits pr r (length b)"
proof
  fix s k and b :: "byte list" and r :: byte assume "slot_wf s" "fits (cs_profile s) r (length b)"
  then show "slot_wf (s\<lparr>cs_pump := snd (enqueue (Some b) (of_nat (length b)) r k (cs_pump s))\<rparr>)"
    by (intro wf_pump enqueue_fits slot_wf_pump)
next
  fix s assume "slot_wf s"
  then show "slot_wf (s\<lparr>cs_pump := snd (pump_take (cs_pump s))\<rparr>)"
    by (intro wf_pump take_fits slot_wf_pump)
next
  fix s t assume "slot_wf s" "fst (pump_take (cs_pump s)) = Some t"
  then show "buffer_fits (cs_profile s) t" by (rule take_fits(2) [OF slot_wf_pump])
next
  fix pr t s assume "buffer_fits pr t"
  then show "buffer_fits pr (snd (stamp_sc26_sequence s t))"
    by (auto simp: stamp_sc26_sequence_def buffer_fits_def buffer_ok_def)
next
  fix s t n assume "slot_wf s" "buffer_fits (cs_profile s) t"
  then show "slot_wf (s\<lparr>cs_pump := (cs_pump s)\<lparr>in_flight := t\<rparr>,
      cs_read_transfer := (rb_length t, rb_report_id t), cs_submits_in_flight := n\<rparr>)"
    by (simp add: slot_wf_def events_wf_def devices_wf_def buffer_fits_def)
next
  fix s and t_us :: u64 assume "slot_wf s"
  then show "slot_wf (s\<lparr>cs_sc26 := (cs_sc26 s)\<lparr>sc_last_report_us := t_us\<rparr>\<rparr>)"
    by (rule wf_devices) (simp_all add: devices_wf_def sc26_sent)
qed (simp_all add: slot_wf_def events_wf_def devices_wf_def)

section \<open>The devices of a slot\<close>

lemma devices_wfD:
  assumes "devices_wf s"
  shows "ds4_reachable (cs_ds4 s)" "ds5_reachable (cs_ds5 s)" "switch_reachable (cs_switch_pro s)"
    "sc26_reachable (cs_sc26 s)"
  using assms by (simp_all add: devices_wf_def)

lemma wf_live: "slot_wf s \<Longrightarrow> cs_state s \<noteq> Slot_Lost \<Longrightarrow> cs_profile s = Some p \<Longrightarrow> devices_wf s"
  by (simp add: slot_wf_def)

lemma switch_state_after: "\<exists>s'. snd (encode_switch_input input (Some s)) = Some s'"
  by (simp add: encode_switch_input_def Let_def)

lemma sc26_state_after: "\<exists>s'. snd (encode_sc26_input input (Some s)) = Some s'"
  by (simp add: encode_sc26_input_def Let_def case_prod_beta)

lemma encode_ds_states:
  "snd (encode_ds4_input input (Some s) now) = Some (ds4_advance now s)"
  "snd (encode_ds5_input input (Some u) now) = Some (ds5_advance now u)"
  by (simp_all add: encode_ds4_input_def encode_ds5_input_def Let_def)

lemma playstation_encoded_wf: "slot_wf s \<Longrightarrow> slot_wf (snd (snd (encode_playstation now input s)))"
  by (erule wf_devices)
    (simp_all add: encode_playstation_def case_prod_beta encode_ds_states devices_wf_def ds4_report ds5_report)

lemma steam_encoded_wf:
  assumes "slot_wf s"
  shows "slot_wf (snd (encode_steam now input s))"
proof -
  obtain s' where e: "snd (encode_sc26_input input (Some (sc26_tick now (cs_sc26 s)))) = Some s'"
    using sc26_state_after by blast
  then have "snd (encode_steam now input s) = s\<lparr>cs_sc26 := s'\<rparr>"
    by (simp add: encode_steam_def case_prod_beta)
  moreover have "sc26_reachable (cs_sc26 s) \<Longrightarrow> sc26_reachable s'"
    using sc26_input [OF sc26_ticked e] .
  ultimately show ?thesis using assms by (auto intro!: wf_devices [OF assms] simp: devices_wf_def)
qed

lemma switch_encoded_wf:
  assumes "slot_wf s"
  shows "slot_wf (snd (encode_switch input s))"
proof -
  obtain s' where e: "snd (encode_switch_input input (Some (cs_switch_pro s))) = Some s'"
    using switch_state_after by blast
  then have "snd (encode_switch input s) = s\<lparr>cs_switch_pro := s'\<rparr>"
    by (simp add: encode_switch_def case_prod_beta)
  moreover have "switch_reachable (cs_switch_pro s) \<Longrightarrow> switch_reachable s'"
    using switch_report e by blast
  ultimately show ?thesis using assms by (auto intro!: wf_devices [OF assms] simp: devices_wf_def)
qed

lemma touch_wf: "slot_wf s \<Longrightarrow> slot_wf (snd (apply_slot_touch t s))"
  by (erule wf_devices)
    (simp_all add: apply_slot_touch_def case_prod_beta devices_wf_def ds4_touch ds5_touch sc26_touch)

lemma motion_wf: "slot_wf s \<Longrightarrow> slot_wf (snd (apply_slot_motion m now s))"
  by (erule wf_devices)
    (simp_all add: apply_slot_motion_def case_prod_beta devices_wf_def ds4_motion ds5_motion sc26_motion
      switch_motion)

lemma battery_wf: "slot_wf s \<Longrightarrow> slot_wf (snd (apply_slot_battery b s))"
  by (erule wf_devices)
    (simp_all add: apply_slot_battery_def case_prod_beta devices_wf_def ds4_battery ds5_battery sc26_battery
      switch_battery)

lemma playstation_feature_wf: "slot_wf s \<Longrightarrow> slot_wf (snd (set_feature_playstation x s))"
  by (erule wf_devices)
    (simp_all add: set_feature_playstation_def case_prod_beta devices_wf_def ds4_feature ds5_feature)

text \<open>Sizes of what the encoders produce for a live slot.\<close>

lemma playstation_fits_wf:
  assumes "slot_wf s" "cs_state s \<noteq> Slot_Lost" "is_playstation (cs_profile s)"
  shows "fits (cs_profile s) (fst (snd (encode_playstation now input s)))
    (length (fst (encode_playstation now input s)))"
proof -
  have d: "devices_wf s" using assms wf_live by (auto simp: is_playstation_def)
  have "length (ds4_input_bytes (fst (encode_ds4_input input (Some (cs_ds4 s)) now))) = 64"
    by (rule length_ds4_input [OF ds4_reachable_ok [OF devices_wfD(1) [OF d]]])
  moreover have "length (ds5_input_bytes (fst (encode_ds5_input input (Some (cs_ds5 s)) now))) = 64"
    by (rule length_ds5_input [OF ds5_reachable_ok [OF devices_wfD(2) [OF d]]])
  ultimately show ?thesis
    using assms(3) fits_lengths(1,2)
    by (auto simp: encode_playstation_def case_prod_beta is_playstation_def)
qed

lemma steam_fits_wf:
  assumes "slot_wf s" "cs_state s \<noteq> Slot_Lost" "is_steam_controller (cs_profile s)"
  shows "fits (cs_profile s) k_sc26_input_report_id (length (sc26_input_bytes (fst (encode_steam now input s))))"
proof -
  have d: "devices_wf s" using assms wf_live by (auto simp: is_steam_controller_def)
  have "length (sc26_input_bytes (fst (encode_sc26_input input (Some (sc26_tick now (cs_sc26 s)))))) = 54"
    by (rule length_sc26_input [OF sc26_reachable_ok [OF sc26_ticked [OF devices_wfD(4) [OF d]]]])
  then show ?thesis
    using assms(3) fits_lengths
    by (simp add: encode_steam_def case_prod_beta is_steam_controller_def k_sc26_input_report_id_def)
qed

lemma switch_fits_wf:
  assumes "slot_wf s" "cs_state s \<noteq> Slot_Lost" "cs_profile s = Some Switch_Pro"
  shows "fits (cs_profile s) k_switch_input_report_id (length (fst (encode_switch input s)))"
proof -
  have d: "devices_wf s" using assms wf_live by auto
  from length_switch_input [OF switch_reachable_ok [OF devices_wfD(3) [OF d]]] show ?thesis
    using assms(3) fits_lengths
    by (simp add: encode_switch_def case_prod_beta k_switch_input_report_id_def)
qed

lemma xbox_fits_wf:
  "is_xbox pr \<Longrightarrow> fits pr k_xbox_series_input_report_id (length (xbox_input_bytes input (s\<lparr>cs_profile := pr\<rparr>)))"
  using fits_lengths
  by (auto simp: xbox_input_bytes_def is_xbox_def encode_xbox_one_input_def layout_simps
      k_xbox_series_input_report_id_def)

lemma ack_fits_wf:
  assumes "is_steam_controller pr" "encode_haptic_ack dat (Some (replicate 6 0)) = (n, Some a)" "n \<noteq> 0"
  shows "fits pr 0x44 (length (take n a))"
proof -
  have "n = 6 \<and> length a = 6"
    using assms(2,3) by (auto simp: encode_haptic_ack_def split: option.splits if_splits)
  then show ?thesis using assms(1) fits_lengths by (simp add: is_steam_controller_def)
qed

section \<open>The events of a slot\<close>

lemma haptic_spec_set: "haptic_spec cap e xs = Some (ys, n) \<Longrightarrow> set ys \<subseteq> insert e (set xs)"
  by (auto simp: haptic_spec_def remove_at_def split: option.splits if_splits
      dest: in_set_takeD in_set_dropD)

lemma wf_post: "slot_wf s \<Longrightarrow> event_valid (cs_controller_id s) v \<Longrightarrow> slot_wf (post_feedback v s)"
  by (simp add: slot_wf_def events_wf_def devices_wf_def post_feedback_def)

lemma wf_haptic:
  assumes "slot_wf s" "event_valid (cs_controller_id s) v"
    "enqueue_haptic k_haptic_queue_capacity (cs_haptics s) v (cs_haptic_evicted s) = (queued, q, c)"
  shows "slot_wf (s\<lparr>cs_haptics := q, cs_haptic_evicted := c\<rparr>)"
proof -
  have ev: "events_wf s" using assms(1) by (simp add: slot_wf_def)
  then have ok: "haptic_ok k_haptic_queue_capacity (cs_haptics s)" by (simp add: events_wf_def)
  have "8 \<le> k_haptic_queue_capacity" by (simp add: k_haptic_queue_capacity_def)
  from haptic_put_ok [OF ok this, of v "cs_haptic_evicted s"] assms(3) obtain n xs where
    q: "haptic_ok k_haptic_queue_capacity q"
      "haptic_spec k_haptic_queue_capacity v (ring_contents (cs_haptics s)) = Some (xs, n)"
      "ring_contents q = xs"
    by (metis prod.inject)
  have "list_all (event_valid (cs_controller_id s)) (ring_contents q)"
    using haptic_spec_set [OF q(2)] assms(2) ev by (auto simp: q(3) events_wf_def list_all_iff)
  then show ?thesis
    using assms(1) ev q(1)
    by (intro wf_events [OF assms(1)]) (simp_all add: events_wf_def devices_wf_def)
qed

lemma wf_settings:
  assumes "slot_wf s" "event_valid (cs_controller_id s) v"
    "enqueue_settings k_settings_queue_capacity (cs_settings s) v (cs_settings_evicted s) = (q, c)"
  shows "slot_wf (s\<lparr>cs_settings := q, cs_settings_evicted := c\<rparr>)"
proof -
  have ev: "events_wf s" using assms(1) by (simp add: slot_wf_def)
  then have ok: "ring_ok k_settings_queue_capacity (cs_settings s)" by (simp add: events_wf_def)
  have q: "q = sr.force v (cs_settings s)"
    using assms(3) enqueue_settings_force [OF ok, of v "cs_settings_evicted s"] by simp
  have "list_all (event_valid (cs_controller_id s)) (ring_contents q)"
    unfolding q sr.force_contents [OF ok]
    by (rule newest_all) (use assms(2) ev in \<open>simp add: events_wf_def\<close>)
  then show ?thesis
    using ev sr.force_ok [OF ok] q
    by (intro wf_events [OF assms(1)]) (simp_all add: events_wf_def devices_wf_def)
qed

lemma poll_ring:
  assumes "ring_ok cap r" "list_all P (ring_contents r)"
  shows "ring_ok cap (snd (ring_poll cap r)) \<and> list_all P (ring_contents (snd (ring_poll cap r))) \<and>
    (\<forall>e. fst (ring_poll cap r) = Some e \<longrightarrow> P e)"
  using ring_poll_contents [OF assms(1)] assms(2) by (auto split: option.splits)

lemma poll_haptic:
  assumes "haptic_ok cap r" "list_all P (ring_contents r)"
  shows "haptic_ok cap (snd (ring_poll cap r)) \<and> list_all P (ring_contents (snd (ring_poll cap r))) \<and>
    (\<forall>e. fst (ring_poll cap r) = Some e \<longrightarrow> P e)"
  using ring_poll_contents [of cap r] assms stops_distinct_tl [of "ring_contents r"]
  by (auto simp: haptic_ok_def split: option.splits)

text \<open>A poll hands out an event the client accepts, and leaves the slot well formed.\<close>

lemma poll_slot_wf:
  assumes "slot_wf s"
  shows "slot_wf (snd (poll_slot s))"
    and "fst (poll_slot s) = Some e \<Longrightarrow> event_valid (cs_controller_id s) e"
proof -
  let ?P = "event_valid (cs_controller_id s)"
  have ev: "events_wf s" using assms by (simp add: slot_wf_def)
  then have st: "ring_ok k_settings_queue_capacity (cs_settings s)" "list_all ?P (ring_contents (cs_settings s))"
    and hp: "haptic_ok k_haptic_queue_capacity (cs_haptics s)" "list_all ?P (ring_contents (cs_haptics s))"
    and fb: "cs_feedback_pending s \<Longrightarrow> ?P (cs_feedback s)"
    by (simp_all add: events_wf_def)
  obtain a r where a: "ring_poll k_settings_queue_capacity (cs_settings s) = (a, r)"
    by (cases "ring_poll k_settings_queue_capacity (cs_settings s)")
  obtain b q where b: "ring_poll k_haptic_queue_capacity (cs_haptics s) = (b, q)"
    by (cases "ring_poll k_haptic_queue_capacity (cs_haptics s)")
  note ra = poll_ring [OF st, unfolded a fst_conv snd_conv]
  note rb = poll_haptic [OF hp, unfolded b fst_conv snd_conv]
  have "slot_wf (s\<lparr>cs_settings := r\<rparr>)" "slot_wf (s\<lparr>cs_haptics := q\<rparr>)"
    "slot_wf (s\<lparr>cs_feedback_pending := False\<rparr>)"
    using ev ra rb
    by (auto intro!: wf_events [OF assms] simp: events_wf_def devices_wf_def)
  then show "slot_wf (snd (poll_slot s))"
    using assms by (simp add: poll_slot_def a b split: option.split)
  show "event_valid (cs_controller_id s) e" if "fst (poll_slot s) = Some e"
    using that ra rb fb by (auto simp: poll_slot_def a b split: option.splits if_splits)
qed

lemma ds4_output_wf: "playstation_output_ok f \<Longrightarrow> apply_ds4_output x f = Some g \<Longrightarrow> playstation_output_ok g"
  by (auto simp: apply_ds4_output_def Let_def playstation_output_ok_def split: if_splits)

lemma ds5_output_wf:
  assumes "playstation_output_ok f" "apply_ds5_output (ds5_output_of_bytes b) f = Some g" "48 \<le> length b"
  shows "playstation_output_ok g"
proof -
  have "trigger_effect_ok (o5_left_trigger (ds5_output_of_bytes b))"
    "trigger_effect_ok (o5_right_trigger (ds5_output_of_bytes b))"
    using assms(3) by (simp_all add: ds5_output_of_bytes_def trigger_effect_ok_def)
  then show ?thesis
    using assms(1,2) by (auto simp: apply_ds5_output_def Let_def playstation_output_ok_def split: if_splits)
qed

lemma playstation_output_wf:
  assumes "slot_wf s" "decode_playstation_output x s = Some f"
  shows "playstation_output_ok f"
proof -
  have f: "playstation_output_ok (cs_playstation_feedback s)" using assms(1) by (simp add: slot_wf_def events_wf_def)
  obtain b where b: "xf_buffer x = Some b"
    using assms(2) by (cases "xf_buffer x") (simp_all add: decode_playstation_output_def)
  have tail: "48 \<le> length (2 # take 47 (drop 3 b))" if "50 \<le> length b" using that by simp
  consider "apply_ds4_output (ds4_output_of_bytes b) (cs_playstation_feedback s) = Some f"
    | "apply_ds5_output (ds5_output_of_bytes b) (cs_playstation_feedback s) = Some f" "48 \<le> length b"
    | "apply_ds5_output (ds5_output_of_bytes (2 # take 47 (drop 3 b))) (cs_playstation_feedback s) = Some f"
      "50 \<le> length b"
    using assms(2) by (simp add: decode_playstation_output_def b split: if_splits)
  then show ?thesis
    by cases (use ds4_output_wf [OF f] ds5_output_wf [OF f] tail in blast)+
qed

lemma wf_playstation:
  assumes "slot_wf s" "decode_playstation_output x s = Some f"
  shows "slot_wf (post_feedback (encode_playstation_feedback (cs_controller_id s) f)
    (s\<lparr>cs_playstation_feedback := f\<rparr>))"
  using assms(1) playstation_output_wf [OF assms] produced_valid(4)
  by (simp add: slot_wf_def events_wf_def devices_wf_def post_feedback_def)

section \<open>Switch replies\<close>

lemma usb_command_wf:
  assumes "handle_switch_usb_command report (Some s) (Some \<lparr>su_report_id = 0, su_subtype = 0,
    su_data = replicate 62 0\<rparr>) = (n, state, reply)"
  shows "\<exists>s' r. state = Some s' \<and> reply = Some r \<and> length (su_data r) = 62"
  using assms
  by (auto simp: handle_switch_usb_command_def Let_def k_switch_mac_def split: option.splits if_splits)

lemma switch_replies_wf:
  assumes "slot_wf s" "cs_state s \<noteq> Slot_Lost" "cs_profile s = Some Switch_Pro"
  shows "slot_wf (snd (switch_replies x s))"
proof -
  have d: "devices_wf s" using assms wf_live by auto
  have set: "slot_wf (s\<lparr>cs_switch_pro := st, cs_pump := p\<rparr>)"
    if "switch_reachable st" "pump_fits (cs_profile s) p" for st p
    using assms(1) that by (simp add: slot_wf_def events_wf_def devices_wf_def)
  show ?thesis
  proof (cases "xf_report_id x = k_switch_usb_command_id")
    case True
    obtain n state reply where h: "handle_switch_usb_command (xf_buffer x) (Some (cs_switch_pro s))
        (Some \<lparr>su_report_id = 0, su_subtype = 0, su_data = replicate 62 0\<rparr>) = (n, state, reply)"
      by (metis prod_cases3)
    then obtain st r where st: "state = Some st" "reply = Some r" "length (su_data r) = 62"
      using usb_command_wf by blast
    have r: "switch_reachable st" using switch_usb [OF devices_wfD(3) [OF d]] h st by blast
    have "pump_fits (cs_profile s) (snd (enqueue (Some (su_report_id r # su_subtype r # su_data r)) 64
        k_switch_usb_reply_id Priority (cs_pump s)))"
      using enqueue_fits [OF slot_wf_pump [OF assms(1)], of k_switch_usb_reply_id
          "su_report_id r # su_subtype r # su_data r" Priority] st(3) assms(3) fits_lengths
      by (simp add: k_switch_usb_reply_id_def)
    then show ?thesis
      using True h st set [OF r slot_wf_pump [OF assms(1)]] set [OF r]
      by (simp add: switch_replies_def Let_def case_prod_beta)
  next
    case usb: False
    show ?thesis
    proof (cases "xf_report_id x = k_switch_rumble_subcommand_id")
      case True
      obtain ok st p where q: "queue_switch_subcommand_reply (xf_buffer x) (cs_last_input s)
          (Some (cs_switch_pro s)) (cs_pump s) = (ok, st, p)"
        by (metis prod_cases3)
      have "\<exists>s'. st = Some s' \<and> switch_reachable s' \<and> pump_fits (cs_profile s) p"
      proof (cases "\<exists>r. xf_buffer x = Some r \<and> 11 \<le> length r \<and> r ! 0 = 0x01")
        case False
        then have "handle_switch_subcommand (xf_buffer x) (cs_last_input s) (Some (cs_switch_pro s))
            (Some blank_switch_reply) = (0, Some (cs_switch_pro s), Some blank_switch_reply)"
          by (auto simp: handle_switch_subcommand_def k_switch_rumble_subcommand_id_def split: option.split)
        then show ?thesis
          using q devices_wfD(3) [OF d] slot_wf_pump [OF assms(1)]
          by (auto simp: queue_switch_subcommand_reply_def)
      next
        case True
        then obtain r where r: "xf_buffer x = Some r" "11 \<le> length r" "r ! 0 = 0x01" by blast
        let ?s = "subcommand_effect r (cs_switch_pro s)"
        from subcommand_reply [OF switch_reachable_ok [OF devices_wfD(3) [OF d]] r(2,3),
            of "cs_last_input s" blank_switch_reply]
        obtain reply where h: "handle_switch_subcommand (Some r) (cs_last_input s)
            (Some (cs_switch_pro s)) (Some blank_switch_reply) = (64, Some ?s, Some reply)"
          and len: "length (switch_reply_bytes reply) = 64" "sr_report_id reply = 0x21" by blast
        have reach: "switch_reachable ?s" using switch_subcommand [OF devices_wfD(3) [OF d] h] .
        obtain i s2 where e: "encode_switch_input (cs_last_input s) (Some ?s) = (i, Some s2)"
          using switch_state_after [of "cs_last_input s" ?s]
          by (cases "encode_switch_input (cs_last_input s) (Some ?s)") auto
        have reach2: "switch_reachable s2" using switch_report [OF reach, of "cs_last_input s"] e by simp
        have i: "length (switch_input_bytes i) = 64" "si_report_id i = 0x30"
          using length_switch_input [OF switch_reachable_ok [OF reach], of "cs_last_input s"] e
          by (auto simp: encode_switch_input_def Let_def k_switch_input_report_id_def)
        let ?p1 = "snd (enqueue (Some (switch_reply_bytes reply)) 64 (sr_report_id reply) Priority (cs_pump s))"
        have p1: "pump_fits (cs_profile s) ?p1"
          using enqueue_fits [OF slot_wf_pump [OF assms(1)], of "0x21" "switch_reply_bytes reply" Priority]
            len assms(3) fits_lengths by simp
        have p2: "pump_fits (cs_profile s) (snd (enqueue (Some (switch_input_bytes i)) 64 (si_report_id i)
            Continuous ?p1))"
          using enqueue_fits [OF p1, of "0x30" "switch_input_bytes i" Continuous] i assms(3) fits_lengths by simp
        show ?thesis
          using q h e reach reach2 p1 p2 r(1)
          by (auto simp: queue_switch_subcommand_reply_def Let_def case_prod_beta split: prod.splits bool.splits if_splits)
      qed
      then show ?thesis using True usb q set by (auto simp: switch_replies_def)
    qed (use usb assms(1) in \<open>simp add: switch_replies_def\<close>)
  qed
qed

section \<open>Every operation keeps slots well formed\<close>

lemma classify_wf: "slot_wf s \<Longrightarrow> slot_wf (snd (classify_slot u request s))"
proof -
  have "pump_fits pr (snd (classify b l r p)) = pump_fits pr p" for pr b l r p
    by (simp add: classify_def Let_def pump_fits_def abs_pump_def ordered_def pump_ok_def ring_shape_def)
  then show "slot_wf s \<Longrightarrow> slot_wf (snd (classify_slot u request s))"
    by (simp add: classify_slot_def case_prod_beta wf_pump slot_wf_pump)
qed

lemma wf_sc26:
  "slot_wf s \<Longrightarrow> (sc26_reachable (cs_sc26 s) \<Longrightarrow> sc26_reachable d) \<Longrightarrow> slot_wf (s\<lparr>cs_sc26 := d\<rparr>)"
  by (erule wf_devices) (simp_all add: devices_wf_def)

lemma find_profile_id: "find_profile p = Some d \<Longrightarrow> pd_id d = p"
  by (cases p) (auto simp: xbox_series_profile_def xbox_one_profile_def dualshock4_profile_def
      dualsense_profile_def switch_pro_profile_def steam_controller_profile_def split: if_splits)

lemma blank_events: "events_wf (reset_slot s)" "events_wf (zero_slot\<lparr>cs_controller_id := cid\<rparr>)"
  using blank_output_ok
  by (simp_all add: events_wf_def reset_slot_def zero_slot_def empty_ring_ok haptic_ok_def
      k_haptic_queue_capacity_def k_settings_queue_capacity_def stops_distinct_def)

lemma starting_wf:
  assumes "find_profile profile = Some defn"
  shows "slot_wf (starting_slot owner cid defn s)"
proof -
  let ?s = "starting_slot owner cid defn s"
  have "events_wf ?s"
    using blank_events(1) [of s] blank_output_ok
    by (simp add: starting_slot_def Let_def events_wf_def)
  moreover have "pump_fits (cs_profile ?s) (cs_pump ?s)"
    using new_pump_fits by (simp add: starting_slot_def Let_def)
  moreover have "find_profile (pd_id defn) \<noteq> None" using assms find_profile_id [OF assms] by simp
  moreover have "devices_wf ?s"
  proof -
    have "sc_features sc26_reset = default_feature_state" by (simp add: sc26_reset_def)
    then have "cs_sc26 ?s = sc26_reset\<lparr>sc_features := default_feature_state
        \<lparr>fs_unit_serial := (fs_unit_serial default_feature_state)
          [9 := of_nat (48 + (unat cid div 10) mod 10), 10 := of_nat (48 + unat cid mod 10)]\<rparr>\<rparr>"
      by (simp add: starting_slot_def Let_def)
    moreover have "sc26_reachable \<dots>" by (rule sc26_named) simp_all
    ultimately show ?thesis
      using ds4_name [OF ds4_start, of "ucast cid"] ds5_name [OF ds5_start, of "ucast cid"] switch_start
      by (simp add: devices_wf_def starting_slot_def Let_def)
  qed
  ultimately show ?thesis by (simp add: slot_wf_def starting_slot_def Let_def)
qed

interpretation wf: slot_data slot_wf buffer_fits "\<lambda>pr b r. fits pr r (length b)"
proof
  fix s u request assume s: "slot_wf s"
  show "slot_wf (snd (classify_slot u request s))" by (rule classify_wf [OF s])
  show "slot_wf (remember_input request s)"
    using s by (simp add: remember_input_def slot_wf_def events_wf_def devices_wf_def)
next
  fix s now input assume "slot_wf s"
  then show "slot_wf (snd (snd (encode_playstation now input s)))" by (rule playstation_encoded_wf)
next
  fix s now input assume "slot_wf s" "cs_state s \<noteq> Slot_Lost" "is_playstation (cs_profile s)"
  then show "fits (cs_profile s) (fst (snd (encode_playstation now input s)))
    (length (fst (encode_playstation now input s)))" by (rule playstation_fits_wf)
next
  fix s now input assume "slot_wf s"
  then show "slot_wf (snd (encode_steam now input s))" by (rule steam_encoded_wf)
next
  fix s now input assume "slot_wf s" "cs_state s \<noteq> Slot_Lost" "is_steam_controller (cs_profile s)"
  then show "fits (cs_profile s) k_sc26_input_report_id
    (length (sc26_input_bytes (fst (encode_steam now input s))))" by (rule steam_fits_wf)
next
  fix s assume "slot_wf s" "is_steam_controller (cs_profile s)"
  then show "fits (cs_profile s) k_sc26_battery_report_id
      (length (sc26_battery_bytes (encode_sc26_battery (cs_sc26 s))))"
    using fits_lengths
    by (simp add: length_battery_bytes is_steam_controller_def k_sc26_battery_report_id_def)
next
  fix s dat n a assume "slot_wf s" "is_steam_controller (cs_profile s)"
    "encode_haptic_ack dat (Some (replicate 6 0)) = (n, Some a)" "n \<noteq> 0"
  then show "fits (cs_profile s) 0x44 (length (take n a))" by (intro ack_fits_wf)
next
  fix s input assume "slot_wf s"
  then show "slot_wf (snd (encode_switch input s))" by (rule switch_encoded_wf)
next
  fix s input assume "slot_wf s" "cs_state s \<noteq> Slot_Lost" "cs_profile s = Some Switch_Pro"
  then show "fits (cs_profile s) k_switch_input_report_id (length (fst (encode_switch input s)))"
    by (rule switch_fits_wf)
next
  fix s input assume "slot_wf s" "is_xbox (cs_profile s)"
  then show "fits (cs_profile s) k_xbox_series_input_report_id (length (xbox_input_bytes input s))"
    using xbox_fits_wf [of "cs_profile s" input s] by simp
next
  fix s input assume "slot_wf s" "cs_profile s = Some Generic_Hid \<or> cs_profile s = Some Generic_Pid"
  then show "fits (cs_profile s) k_generic_input_report_id
      (length (generic_input_bytes (encode_generic_input input)))" by (auto simp: slot_wf_def)
next
  fix s touch assume "slot_wf s"
  then show "slot_wf (snd (apply_slot_touch touch s))" by (rule touch_wf)
next
  fix s motion now assume "slot_wf s"
  then show "slot_wf (snd (apply_slot_motion motion now s))" by (rule motion_wf)
next
  fix s battery assume "slot_wf s"
  then show "slot_wf (snd (apply_slot_battery battery s))" by (rule battery_wf)
next
  fix s and t_us :: u64 assume "slot_wf s"
  then show "slot_wf (s\<lparr>cs_sc26 := (cs_sc26 s)\<lparr>sc_last_battery_us := t_us\<rparr>\<rparr>)"
    by (rule wf_sc26) (rule sc26_battery_sent)
next
  fix s i buffer assume "slot_wf s"
  then show "slot_wf (s\<lparr>cs_sc26 := snd (set_sc26_feature i buffer (cs_sc26 s))\<rparr>)"
    by (rule wf_sc26) (rule sc26_feature)
next
  fix s a_req assume "slot_wf s"
  then show "slot_wf (s\<lparr>cs_sc26 := snd (apply_sc26_attributes a_req (cs_sc26 s))\<rparr>)"
    by (rule wf_sc26) (rule sc26_attributes)
next
  fix s transfer assume "slot_wf s"
  then show "slot_wf (snd (set_feature_playstation transfer s))" by (rule playstation_feature_wf)
next
  fix s v assume "slot_wf s" "event_valid (cs_controller_id s) v"
  then show "slot_wf (post_feedback v s)" by (rule wf_post)
next
  fix s transfer f assume "slot_wf s" "decode_playstation_output transfer s = Some f"
  then show "slot_wf (post_feedback (encode_playstation_feedback (cs_controller_id s) f)
      (s\<lparr>cs_playstation_feedback := f\<rparr>))" by (rule wf_playstation)
next
  fix s v queued q c assume "slot_wf s" "event_valid (cs_controller_id s) v"
    "enqueue_haptic k_haptic_queue_capacity (cs_haptics s) v (cs_haptic_evicted s) = (queued, q, c)"
  then show "slot_wf (s\<lparr>cs_haptics := q, cs_haptic_evicted := c\<rparr>)" by (rule wf_haptic)
next
  fix s v q c assume "slot_wf s" "event_valid (cs_controller_id s) v"
    "enqueue_settings k_settings_queue_capacity (cs_settings s) v (cs_settings_evicted s) = (q, c)"
  then show "slot_wf (s\<lparr>cs_settings := q, cs_settings_evicted := c\<rparr>)" by (rule wf_settings)
next
  fix s transfer assume "slot_wf s" "cs_state s \<noteq> Slot_Lost" "cs_profile s = Some Switch_Pro"
  then show "slot_wf (snd (switch_replies transfer s))" by (rule switch_replies_wf)
next
  fix s assume "slot_wf s"
  then show "slot_wf (snd (poll_slot s))" by (rule poll_slot_wf)
next
  fix cid show "slot_wf (zero_slot\<lparr>cs_controller_id := cid\<rparr>)"
    using blank_events(2) new_pump_fits by (simp add: slot_wf_def) (simp add: zero_slot_def)
next
  fix s show "slot_wf (reset_slot s)"
    using blank_events(1) [of s] new_pump_fits by (simp add: slot_wf_def) (simp add: reset_slot_def zero_slot_def)
next
  fix profile defn owner cid s assume "find_profile profile = Some defn"
  then show "slot_wf (starting_slot owner cid defn s)" by (rule starting_wf)
next
  fix s assume "slot_wf s"
  then show "slot_wf ((reset_slot s)\<lparr>cs_owner := cs_owner s, cs_profile := cs_profile s,
      cs_state := Slot_Lost\<rparr>)"
    using blank_events(1) [of s] new_pump_fits
    by (simp add: slot_wf_def events_wf_def) (simp add: reset_slot_def zero_slot_def)
next
  fix s assume "slot_wf s"
  then show "slot_wf (s\<lparr>
      cs_haptics := (case cs_haptics s of (q, h, n) \<Rightarrow> (q, h, 0)),
      cs_settings := (case cs_settings s of (q, h, n) \<Rightarrow> (q, h, 0))\<rparr>)"
    by (auto simp: slot_wf_def events_wf_def devices_wf_def haptic_ok_def ring_ok_def ring_contents_def
        stops_distinct_def split: prod.splits)
qed (auto simp: slot_wf_def events_wf_def devices_wf_def name_child_def)

section \<open>Properties\<close>

lemma reachable_slot_wf:
  assumes "driver_reachable ctx" "i < k_max_controllers"
  shows "slot_wf (slot_at i ctx)"
  using wf.reachable_kept [OF assms(1)] reachable_length [OF assms(1)] assms(2)
  by (simp add: wf.all_kept_def list_all_length slot_at_def)



end
