(* ===== verification/DriverSlots.thy ===== *)
theory DriverSlots
  imports DriverData DriverLife
begin

text \<open>
  What the operations of the driver promise about the slots of a device, over the locale of
  \<^theory_text>\<open>DriverData\<close>: clients do not reach each other's controllers, and every reachable
  context is well formed down to the reports that are queued in it.
\<close>

section \<open>Clients are isolated\<close>

interpretation driver_frame: slot_data "\<lambda>_. True" "\<lambda>_ _. True" "\<lambda>_ _ _. True"
  by unfold_locales simp_all

text \<open>A slot is foreign to a client that does not own it. It is left alone when what else
  happens during a creation does not concern it.\<close>

definition foreign :: "handle \<Rightarrow> nat \<Rightarrow> device_context \<Rightarrow> bool"
  where "foreign client j ctx \<longleftrightarrow> j < k_max_controllers \<and> length (dc_controllers ctx) = k_max_controllers \<and>
    cs_state (slot_at j ctx) \<noteq> Slot_Empty \<and> cs_owner (slot_at j ctx) \<noteq> client"

definition left_alone :: "os_env \<Rightarrow> nat \<Rightarrow> device_context \<Rightarrow> bool"
  where "left_alone os j ctx \<longleftrightarrow> length (dc_controllers (os_meanwhile os ctx)) = k_max_controllers \<and>
    slot_at j (os_meanwhile os ctx) = slot_at j ctx \<and>
    (\<forall>c. length (dc_controllers c) = k_max_controllers \<longrightarrow> calm c (snd (os_vhf_start os c)) \<and>
      slot_at j (snd (os_vhf_start os c)) = slot_at j c)"

lemma touches_elsewhere:
  "touches D B I ctx ctx' \<Longrightarrow> j < length (dc_controllers ctx) \<Longrightarrow> j \<notin> I \<Longrightarrow> slot_at j ctx' = slot_at j ctx"
  by (simp add: touches_defs)

lemma foreign_refused:
  assumes "foreign client j ctx" "unat cid = j"
  shows "refusal client cid ctx = Some Status_Access_Denied"
  using assms by (simp add: refusal_def foreign_def)

lemma foreign_request:
  assumes "foreign client j ctx" "unat cid = j"
  shows "ci_controller_id r = cid \<Longrightarrow> destroy_controller client r ctx = (Status_Access_Denied, ctx)"
    and "ci_controller_id r = cid \<Longrightarrow> poll_feedback client r ctx = (Status_Access_Denied, None, ctx)"
    and "ts_controller_id t = cid \<Longrightarrow> snd (submit_touch_state os client t ctx) = ctx"
    and "ms_controller_id m = cid \<Longrightarrow> snd (submit_motion_state os client m ctx) = ctx"
    and "bs_controller_id b = cid \<Longrightarrow> snd (submit_battery_state os client b ctx) = ctx"
    and "sa_controller_id a = cid \<Longrightarrow> snd (set_steam_controller_attributes client a ctx) = ctx"
    and "is_controller_id i = cid \<Longrightarrow> snd (submit_input_state os client i ctx) = ctx"
    and "cc_controller_id c = cid \<Longrightarrow> snd (create_controller os client c ctx) = ctx"
proof -
  have s: "j < k_max_controllers" "cs_state (slot_at j ctx) \<noteq> Slot_Empty"
    "cs_owner (slot_at j ctx) \<noteq> client"
    using assms(1) by (auto simp: foreign_def)
  have b: "begin_state_update client cid ctx = Status_Access_Denied"
    using s assms(2) by (simp add: begin_state_update_def is_owned_by_def Let_def)
  note ops = destroy_controller_def poll_feedback_def submit_touch_state_def submit_motion_state_def
    submit_battery_state_def set_steam_controller_attributes_def submit_input_state_def
    create_controller_def create_admit_def slot_available_def is_owned_by_def Let_def nt_success_def
  show "ci_controller_id r = cid \<Longrightarrow> destroy_controller client r ctx = (Status_Access_Denied, ctx)"
    using s assms(2) by (simp add: ops)
  show "ci_controller_id r = cid \<Longrightarrow> poll_feedback client r ctx = (Status_Access_Denied, None, ctx)"
    using s assms(2) by (simp add: ops)
  show "ts_controller_id t = cid \<Longrightarrow> snd (submit_touch_state os client t ctx) = ctx"
    using b by (simp add: ops)
  show "ms_controller_id m = cid \<Longrightarrow> snd (submit_motion_state os client m ctx) = ctx"
    using b by (simp add: ops)
  show "bs_controller_id b = cid \<Longrightarrow> snd (submit_battery_state os client b ctx) = ctx"
    using b by (simp add: ops)
  show "sa_controller_id a = cid \<Longrightarrow> snd (set_steam_controller_attributes client a ctx) = ctx"
    using s assms(2) by (simp add: ops)
  show "is_controller_id i = cid \<Longrightarrow> snd (submit_input_state os client i ctx) = ctx"
    using s assms(2) by (simp add: ops)
  show "cc_controller_id c = cid \<Longrightarrow> snd (create_controller os client c ctx) = ctx"
    using s assms(2) by (simp add: ops split: option.split)
qed

lemma create_isolated:
  assumes "foreign client j ctx" "left_alone os j ctx"
  shows "slot_at j (snd (create_controller os client request ctx)) = slot_at j ctx"
proof (cases "unat (cc_controller_id request) = j")
  case True
  then show ?thesis using foreign_request(8) [OF assms(1)] by simp
next
  case False
  let ?m = "os_meanwhile os ctx"
  have len: "length (dc_controllers ?m) = k_max_controllers" using assms(2) by (simp add: left_alone_def)
  have "driver_frame.kept (UNIV - {j}) c (snd (os_vhf_start os c)) \<and> calm c (snd (os_vhf_start os c))"
    if "length (dc_controllers c) = k_max_controllers" for c
  proof -
    let ?c = "snd (os_vhf_start os c)"
    have c: "calm c ?c" "slot_at j ?c = slot_at j c"
      using assms(2) that by (simp_all add: left_alone_def)
    have "call_packet (\<lambda>_ _. True) v" for v by (cases v) simp_all
    moreover obtain calls where "dc_log ?c = dc_log c @ calls" using c(1) by (auto simp: calm_def)
    ultimately have "driver_frame.kept (UNIV - {j}) c ?c"
      using c calm_length [OF c(1)] by (simp add: touches_defs list_all_iff)
    with c(1) show ?thesis by blast
  qed
  from driver_frame.create_kept [OF len this]
  consider "snd (create_controller os client request ctx) = ctx"
    | "driver_frame.kept (insert (unat (cc_controller_id request)) (UNIV - {j})) ?m
        (snd (create_controller os client request ctx))" by blast
  then show ?thesis
  proof cases
    case 2
    from touches_elsewhere [OF this] assms len False show ?thesis
      by (simp add: foreign_def left_alone_def)
  qed simp
qed

lemma request_isolated:
  assumes "foreign client j ctx" "left_alone os j ctx"
  shows "slot_at j (snd (evt_io_device_control os client code b n ctx)) = slot_at j ctx"
proof (cases "ioctl_of code = Some Ioctl_Create_Controller")
  case True
  then show ?thesis
    using create_isolated [OF assms]
    by (simp add: evt_io_device_control_def plain_request_def Let_def case_prod_beta)
next
  case other: False
  have len: "length (dc_controllers ctx) = k_max_controllers" and j: "j < k_max_controllers"
    using assms(1) by (simp_all add: foreign_def)
  show ?thesis
  proof (cases "unat (u32_at b 8) = j")
    case False
    then show ?thesis
      using touches_elsewhere [OF driver_frame.control_kept [OF len other]] len j by simp
  next
    case True
    note refused = foreign_request [OF assms(1) True]
    have ids: "is_controller_id (parse_input b) = u32_at b 8" "ts_controller_id (parse_touch b) = u32_at b 8"
      "ms_controller_id (parse_motion b) = u32_at b 8" "bs_controller_id (parse_battery b) = u32_at b 8"
      "sa_controller_id (parse_attributes b) = u32_at b 8"
      "ci_controller_id (parse_controller_id b) = u32_at b 8"
      by (simp_all add: parse_input_def parse_touch_def parse_motion_def parse_battery_def
          parse_attributes_def parse_controller_id_def)
    have "snd (plain_request os client c b ctx) = ctx" if "c \<noteq> Ioctl_Create_Controller" for c
      using that refused ids by (cases c) (simp_all add: plain_request_def Let_def)
    then have "snd (evt_io_device_control os client code b n ctx) = ctx"
      using other refused(2) [OF ids(6)]
      by (auto simp: evt_io_device_control_def control_poll_def Let_def case_prod_beta
          split: option.split ioctl.split)
    then show ?thesis by simp
  qed
qed

lemma close_isolated:
  assumes "foreign client j ctx"
  shows "slot_at j (evt_file_close client ctx) = slot_at j ctx"
proof -
  have "slot_at j (foldl (\<lambda>ctx i. destroy_owned_controller client i ctx) c is) = slot_at j c"
    if "foreign client j c" for c "is"
    using that
  proof (induction "is" arbitrary: c)
    case (Cons i "is")
    let ?d = "destroy_owned_controller client i c"
    have "slot_at j ?d = slot_at j c"
    proof (cases "i = j")
      case True
      then show ?thesis using Cons.prems
        by (simp add: destroy_owned_controller_def destroy_locked_def is_owned_by_def foreign_def Let_def)
    next
      case False
      then show ?thesis
        using touches_elsewhere [OF driver_frame.destroy_owned_kept, of j c i client] Cons.prems
        by (simp add: foreign_def)
    qed
    moreover from this have "foreign client j ?d"
      using Cons.prems touches_length [OF driver_frame.destroy_owned_kept, of client i c]
      by (simp add: foreign_def)
    ultimately show ?case using Cons.IH by simp
  qed simp
  from this [OF assms] show ?thesis by (simp add: evt_file_close_def)
qed

text \<open>Property C4. Clients do not reach each other's controllers. Whatever request a client makes, any control
  code and any bytes, and when it closes its handle, the slot of a controller that another
  client owns is exactly what it was: nothing of its state, queues, force feedback or identity is
  read out, changed or destroyed. (During a creation the driver drops its locks and starts
  a child; what other threads and the host do meanwhile is taken not to concern that slot.)\<close>

theorem clients_isolated:
  assumes "foreign client j ctx" "left_alone os j ctx"
  shows "slot_at j (snd (evt_io_device_control os client code b n ctx)) = slot_at j ctx \<and>
    slot_at j (evt_file_close client ctx) = slot_at j ctx"
  using request_isolated [OF assms] close_isolated [OF assms(1)] by blast

lemma demo_foreign: "foreign 8 0 demo" "left_alone demo_os 0 demo"
  by (simp_all add: foreign_def left_alone_def demo_active k_max_controllers_def calm_same)

lemma clients_isolated_witness:
  "slot_at 0 (snd (evt_io_device_control demo_os 8 (ioctl_code Ioctl_Destroy_Controller)
      (le32_bytes 12 @ le16_bytes k_protocol_version @ le16_bytes 0 @ le32_bytes 0) 0 demo)) =
    slot_at 0 demo \<and> slot_at 0 (evt_file_close 8 demo) = slot_at 0 demo"
  by (rule clients_isolated [OF demo_foreign])

end
