(* ===== verification/KeyboardMouse.thy ===== *)
theory KeyboardMouse
  imports BoundedQueue PlayStation
begin

text \<open>
  The injected keyboard and mouse: the wire requests
  (\<^theory_text>\<open>include/libvirtualgamepad/keyboard_mouse.h\<close>) and the producer core
  \<^theory_text>\<open>keyboard_mouse_endpoint\<close>
  (\<^theory_text>\<open>driver/src/keyboard_mouse.h\<close>, \<^theory_text>\<open>keyboard_mouse.cpp\<close>). A signed field is
  an integer in its range; the object's arrays are lists of their declared lengths. What the
  core promises is stated against the \<open>intent\<close> of the client: the keys, buttons and
  consumer controls it holds and the motion it asked for.
\<close>

section \<open>Requests\<close>

record km_header =
  kh_size :: u32
  kh_version :: u16
  kh_reserved :: u16

definition k_abi_version :: u16
  where "k_abi_version = 1"

definition k_keyboard_bytes :: nat
  where "k_keyboard_bytes = 29"

definition k_keyboard_report_id :: byte
  where "k_keyboard_report_id = 1"

definition k_relative_report_id :: byte
  where "k_relative_report_id = 2"

definition k_absolute_report_id :: byte
  where "k_absolute_report_id = 3"

definition k_consumer_report_id :: byte
  where "k_consumer_report_id = 4"

lemmas km_ids = k_keyboard_report_id_def k_relative_report_id_def k_absolute_report_id_def
  k_consumer_report_id_def

record keyboard_request =
  kk_prefix :: km_header
  kk_usage :: u16
  kk_pressed :: byte
  kk_reserved :: byte

record consumer_request =
  kc_prefix :: km_header
  kc_usage :: u16
  kc_pressed :: byte
  kc_reserved :: byte

record button_request =
  kb_prefix :: km_header
  kb_button :: byte
  kb_pressed :: byte
  kb_reserved :: u16

record relative_request =
  kr_prefix :: km_header
  kr_x :: i16
  kr_y :: i16
  kr_wheel :: int
  kr_pan :: int
  kr_reserved :: u16

record absolute_request =
  ka_prefix :: km_header
  ka_x :: u16
  ka_y :: u16
  ka_target_generation :: u32

text \<open>\<^theory_text>\<open>valid\<close> and \<^theory_text>\<open>request\<close> for a struct of the given size.\<close>

definition km_valid :: "u32 \<Rightarrow> km_header \<Rightarrow> bool"
  where "km_valid sz h \<longleftrightarrow> kh_size h = sz \<and> kh_version h = k_abi_version \<and> kh_reserved h = 0"

definition km_request :: "u32 \<Rightarrow> km_header"
  where "km_request sz = \<lparr>kh_size = sz, kh_version = k_abi_version, kh_reserved = 0\<rparr>"

section \<open>The endpoint\<close>

definition k_km_queue_capacity :: nat
  where "k_km_queue_capacity = 64"

datatype km_result = Km_Accepted | Km_Unchanged | Km_Invalid | Km_Not_Owner | Km_Not_Ready | Km_Busy
  | Km_Unsupported

datatype km_state = Km_Closed | Km_Active | Km_Closing | Km_Drained | Km_Faulted

record km_report =
  kp_bytes :: "byte list"
  kp_length :: byte
  kp_id :: byte

record km_endpoint =
  ke_owner :: nat
  ke_state :: km_state
  ke_generation :: u32
  ke_keys :: "byte list"
  ke_buttons :: byte
  ke_consumer :: byte
  ke_queue :: "km_report list"
  ke_head :: nat
  ke_count :: nat
  ke_retained :: km_report
  ke_credit :: bool

definition zero_km_report :: km_report
  where "zero_km_report = \<lparr>kp_bytes = replicate 30 0, kp_length = 0, kp_id = 0\<rparr>"

definition new_endpoint :: km_endpoint
  where "new_endpoint = \<lparr>ke_owner = 0, ke_state = Km_Closed, ke_generation = 0,
    ke_keys = replicate k_keyboard_bytes 0, ke_buttons = 0, ke_consumer = 0,
    ke_queue = replicate k_km_queue_capacity zero_km_report, ke_head = 0, ke_count = 0,
    ke_retained = zero_km_report, ke_credit = False\<rparr>"

definition admission :: "nat \<Rightarrow> km_endpoint \<Rightarrow> km_result"
  where "admission owner e =
    (if ke_state e \<noteq> Km_Active then Km_Not_Ready
     else if owner = 0 \<or> owner \<noteq> ke_owner e then Km_Not_Owner else Km_Accepted)"

definition reset_after_device_deleted :: "km_endpoint \<Rightarrow> km_endpoint"
  where "reset_after_device_deleted e = e\<lparr>ke_owner := 0, ke_state := Km_Closed, ke_generation := 0,
    ke_keys := replicate k_keyboard_bytes 0, ke_buttons := 0, ke_consumer := 0,
    ke_head := 0, ke_count := 0, ke_retained := zero_km_report, ke_credit := False\<rparr>"

definition km_open :: "nat \<Rightarrow> u32 \<Rightarrow> km_endpoint \<Rightarrow> km_result \<times> km_endpoint"
  where "km_open owner generation e =
    (if owner = 0 then (Km_Invalid, e)
     else if ke_state e \<noteq> Km_Closed then (Km_Busy, e)
     else (Km_Accepted, (reset_after_device_deleted e)
       \<lparr>ke_owner := owner, ke_generation := generation, ke_state := Km_Active\<rparr>))"

definition km_enqueue :: "km_report \<Rightarrow> km_endpoint \<Rightarrow> km_endpoint"
  where "km_enqueue v e = e\<lparr>
    ke_queue := (ke_queue e)[(ke_head e + ke_count e) mod k_km_queue_capacity := v],
    ke_count := ke_count e + 1\<rparr>"

text \<open>A report: its bytes in front of a zeroed array of 30.\<close>

definition km_report_of :: "byte \<Rightarrow> byte \<Rightarrow> byte list \<Rightarrow> km_report"
  where "km_report_of i len b = \<lparr>kp_bytes = overwrite 0 (i # b) (replicate 30 0), kp_length = len, kp_id = i\<rparr>"

definition keyboard_report :: "km_endpoint \<Rightarrow> km_report"
  where "keyboard_report e = km_report_of k_keyboard_report_id 30 (ke_keys e)"

definition consumer_report :: "km_endpoint \<Rightarrow> km_report"
  where "consumer_report e = km_report_of k_consumer_report_id 2 [ke_consumer e]"

definition relative_report :: "i16 \<Rightarrow> i16 \<Rightarrow> int \<Rightarrow> int \<Rightarrow> km_endpoint \<Rightarrow> km_report"
  where "relative_report x y wheel pan e = km_report_of k_relative_report_id 8
    ([ke_buttons e] @ i16_bytes x @ i16_bytes y @ [byte_of_int wheel, byte_of_int pan])"

definition absolute_report :: "u16 \<Rightarrow> u16 \<Rightarrow> km_report"
  where "absolute_report x y = km_report_of k_absolute_report_id 6
    ([0] @ le16_bytes (drop_bit 1 x) @ le16_bytes (drop_bit 1 y))"

section \<open>Submissions\<close>

text \<open>One bit of a held state: \<^theory_text>\<open>mask |= bit\<close> or
  \<^theory_text>\<open>mask &= ~bit\<close>.\<close>

definition set_held :: "byte \<Rightarrow> byte \<Rightarrow> byte \<Rightarrow> byte"
  where "set_held pressed m held = (if pressed \<noteq> 0 then held OR m else held AND NOT m)"

definition km_submit_key :: "nat \<Rightarrow> keyboard_request \<Rightarrow> km_endpoint \<Rightarrow> km_result \<times> km_endpoint"
  where "km_submit_key owner r e =
    (let admitted = admission owner e
     in if admitted \<noteq> Km_Accepted then (admitted, e)
        else if \<not> km_valid 12 (kk_prefix r) \<or> kk_reserved r \<noteq> 0 \<or> kk_pressed r > 1 \<or>
          kk_usage r < 4 \<or> kk_usage r > 0xE7 then (Km_Invalid, e)
        else
          let i = unat (kk_usage r) div 8; m = push_bit (unat (kk_usage r) mod 8) 1
          in if (ke_keys e ! i AND m \<noteq> 0) = (kk_pressed r \<noteq> 0) then (Km_Unchanged, e)
             else if ke_count e = k_km_queue_capacity then (Km_Busy, e)
             else
               let e = e\<lparr>ke_keys := (ke_keys e)[i := set_held (kk_pressed r) m (ke_keys e ! i)]\<rparr>
               in (Km_Accepted, km_enqueue (keyboard_report e) e))"

definition km_submit_button :: "nat \<Rightarrow> button_request \<Rightarrow> km_endpoint \<Rightarrow> km_result \<times> km_endpoint"
  where "km_submit_button owner r e =
    (let admitted = admission owner e
     in if admitted \<noteq> Km_Accepted then (admitted, e)
        else if \<not> km_valid 12 (kb_prefix r) \<or> kb_reserved r \<noteq> 0 \<or> kb_pressed r > 1 \<or>
          kb_button r < 1 \<or> kb_button r > 5 then (Km_Invalid, e)
        else
          let m = push_bit (unat (kb_button r) - 1) 1
          in if (ke_buttons e AND m \<noteq> 0) = (kb_pressed r \<noteq> 0) then (Km_Unchanged, e)
             else if ke_count e = k_km_queue_capacity then (Km_Busy, e)
             else
               let e = e\<lparr>ke_buttons := set_held (kb_pressed r) m (ke_buttons e)\<rparr>
               in (Km_Accepted, km_enqueue (relative_report 0 0 0 0 e) e))"

definition consumer_bit :: "u16 \<Rightarrow> nat option"
  where "consumer_bit usage =
    (if usage = 0x00E2 then Some 0 else if usage = 0x00E9 then Some 1
     else if usage = 0x00EA then Some 2 else if usage = 0x00CD then Some 3
     else if usage = 0x00B5 then Some 4 else if usage = 0x00B6 then Some 5
     else if usage = 0x00B7 then Some 6 else None)"

definition km_submit_consumer :: "nat \<Rightarrow> consumer_request \<Rightarrow> km_endpoint \<Rightarrow> km_result \<times> km_endpoint"
  where "km_submit_consumer owner r e =
    (let admitted = admission owner e
     in if admitted \<noteq> Km_Accepted then (admitted, e)
        else if \<not> km_valid 12 (kc_prefix r) \<or> kc_reserved r \<noteq> 0 \<or> kc_pressed r > 1 then (Km_Invalid, e)
        else case consumer_bit (kc_usage r) of
            None \<Rightarrow> (Km_Invalid, e)
          | Some n \<Rightarrow>
              let m = push_bit n 1
              in if (ke_consumer e AND m \<noteq> 0) = (kc_pressed r \<noteq> 0) then (Km_Unchanged, e)
                 else if ke_count e = k_km_queue_capacity then (Km_Busy, e)
                 else
                   let e = e\<lparr>ke_consumer := set_held (kc_pressed r) m (ke_consumer e)\<rparr>
                   in (Km_Accepted, km_enqueue (consumer_report e) e))"

definition km_submit_relative :: "nat \<Rightarrow> relative_request \<Rightarrow> km_endpoint \<Rightarrow> km_result \<times> km_endpoint"
  where "km_submit_relative owner r e =
    (let admitted = admission owner e
     in if admitted \<noteq> Km_Accepted then (admitted, e)
        else if \<not> km_valid 16 (kr_prefix r) \<or> kr_reserved r \<noteq> 0 \<or> kr_wheel r = - 128 \<or> kr_pan r = - 128
        then (Km_Invalid, e)
        else if kr_x r = 0 \<and> kr_y r = 0 \<and> kr_wheel r = 0 \<and> kr_pan r = 0 then (Km_Unchanged, e)
        else if ke_count e = k_km_queue_capacity then (Km_Busy, e)
        else (Km_Accepted, km_enqueue (relative_report (kr_x r) (kr_y r) (kr_wheel r) (kr_pan r) e) e))"

definition km_submit_absolute :: "nat \<Rightarrow> absolute_request \<Rightarrow> km_endpoint \<Rightarrow> km_result \<times> km_endpoint"
  where "km_submit_absolute owner r e =
    (let admitted = admission owner e
     in if admitted \<noteq> Km_Accepted then (admitted, e)
        else if \<not> km_valid 16 (ka_prefix r) then (Km_Invalid, e)
        else if ke_generation e = 0 then (Km_Unsupported, e)
        else if ka_target_generation r \<noteq> ke_generation e then (Km_Not_Ready, e)
        else if ke_count e = k_km_queue_capacity then (Km_Busy, e)
        else (Km_Accepted, km_enqueue (absolute_report (ka_x r) (ka_y r)) e))"

section \<open>Closing and the transport\<close>

definition km_close :: "nat \<Rightarrow> km_endpoint \<Rightarrow> km_result \<times> km_endpoint"
  where "km_close owner e =
    (if owner = 0 \<or> owner \<noteq> ke_owner e then (Km_Not_Owner, e)
     else if ke_state e = Km_Closing then (Km_Unchanged, e)
     else if ke_state e \<noteq> Km_Active then (Km_Not_Ready, e)
     else
       let e = e\<lparr>ke_state := Km_Closing, ke_head := 0, ke_count := 0,
             ke_keys := replicate k_keyboard_bytes 0, ke_buttons := 0, ke_consumer := 0\<rparr>;
           e = km_enqueue (keyboard_report e) e;
           e = km_enqueue (relative_report 0 0 0 0 e) e
       in (Km_Accepted, km_enqueue (consumer_report e) e))"

definition km_ready :: "km_endpoint \<Rightarrow> km_endpoint"
  where "km_ready e =
    (if ke_state e \<noteq> Km_Active \<and> ke_state e \<noteq> Km_Closing then e
     else if ke_state e = Km_Closing \<and> ke_count e = 0
     then e\<lparr>ke_state := Km_Drained, ke_credit := False\<rparr>
     else e\<lparr>ke_credit := True\<rparr>)"

definition km_take :: "km_endpoint \<Rightarrow> km_report option \<times> km_endpoint"
  where "km_take e =
    (if \<not> ke_credit e \<or> ke_count e = 0 \<or> (ke_state e \<noteq> Km_Active \<and> ke_state e \<noteq> Km_Closing)
     then (None, e)
     else
       let r = ke_queue e ! ke_head e
       in (Some r, e\<lparr>ke_retained := r, ke_head := (ke_head e + 1) mod k_km_queue_capacity,
         ke_count := ke_count e - 1, ke_credit := False\<rparr>))"

definition submission_failed :: "km_endpoint \<Rightarrow> km_endpoint"
  where "submission_failed e =
    (if ke_state e = Km_Closed then e
     else e\<lparr>ke_state := Km_Faulted, ke_credit := False, ke_head := 0, ke_count := 0\<rparr>)"

section \<open>The queue\<close>

definition km_pop :: "km_endpoint \<Rightarrow> km_endpoint"
  where "km_pop e = e\<lparr>ke_head := (ke_head e + 1) mod k_km_queue_capacity, ke_count := ke_count e - 1\<rparr>"

definition km_queued :: "km_endpoint \<Rightarrow> km_report list"
  where "km_queued e = ring (ke_queue e) (ke_head e) (ke_count e)"

definition km_queue_ok :: "km_endpoint \<Rightarrow> bool"
  where "km_queue_ok e \<longleftrightarrow> length (ke_queue e) = k_km_queue_capacity \<and>
    ke_head e < k_km_queue_capacity \<and> ke_count e \<le> k_km_queue_capacity"

interpretation kq: bounded_queue km_queued km_queue_ok k_km_queue_capacity km_enqueue km_pop
proof
  show "0 < k_km_queue_capacity" by (simp add: k_km_queue_capacity_def)
next
  fix e assume "km_queue_ok e"
  then show "length (km_queued e) \<le> k_km_queue_capacity" by (simp add: km_queue_ok_def km_queued_def)
next
  fix e x assume e: "km_queue_ok e" and room: "length (km_queued e) < k_km_queue_capacity"
  then show "km_queue_ok (km_enqueue x e) \<and> km_queued (km_enqueue x e) = km_queued e @ [x]"
    using ring_push [of "ke_count e" "ke_queue e" "ke_head e" x]
    by (simp add: km_queue_ok_def km_queued_def km_enqueue_def)
next
  fix e assume e: "km_queue_ok e" and ne: "km_queued e \<noteq> []"
  then show "km_queue_ok (km_pop e) \<and> km_queued (km_pop e) = tl (km_queued e)"
    using ring_pop [of "ke_count e" "ke_head e" "ke_queue e"]
    by (auto simp: km_queue_ok_def km_queued_def km_pop_def k_km_queue_capacity_def)
qed

section \<open>What a client means and what a host reads\<close>

record km_view =
  kv_keys :: "nat set"
  kv_buttons :: "nat set"
  kv_consumer :: "nat set"
  kv_x :: int
  kv_y :: int
  kv_wheel :: int
  kv_pan :: int
  kv_position :: "(u16 \<times> u16) option"

definition blank_view :: km_view
  where "blank_view = \<lparr>kv_keys = {}, kv_buttons = {}, kv_consumer = {}, kv_x = 0, kv_y = 0, kv_wheel = 0,
    kv_pan = 0, kv_position = None\<rparr>"

definition key_set :: "byte list \<Rightarrow> nat set"
  where "key_set ks = set (filter (\<lambda>u. bit (ks ! (u div 8)) (u mod 8)) [0..<8 * k_keyboard_bytes])"

definition bit_set :: "byte \<Rightarrow> nat set"
  where "bit_set b = set (filter (bit b) [0..<8])"

text \<open>A host reads a report by its id, as the descriptor lays it out.\<close>

definition host_reads :: "km_view \<Rightarrow> km_report \<Rightarrow> km_view"
  where "host_reads v r = (let b = kp_bytes r in
     if kp_id r = 1 then v\<lparr>kv_keys := key_set (take k_keyboard_bytes (drop 1 b))\<rparr>
     else if kp_id r = 2 then v\<lparr>kv_buttons := bit_set (b ! 1), kv_x := kv_x v + read_i16 b 2,
       kv_y := kv_y v + read_i16 b 4, kv_wheel := kv_wheel v + sint (b ! 6), kv_pan := kv_pan v + sint (b ! 7)\<rparr>
     else if kp_id r = 3 then v\<lparr>kv_position := Some (le16_of (b ! 2) (b ! 3), le16_of (b ! 4) (b ! 5))\<rparr>
     else if kp_id r = 4 then v\<lparr>kv_consumer := bit_set (b ! 1)\<rparr> else v)"

definition host_view :: "km_report list \<Rightarrow> km_view"
  where "host_view rs = foldl host_reads blank_view rs"

lemma host_view_snoc [simp]: "host_view (rs @ [r]) = host_reads (host_view rs) r"
  by (simp add: host_view_def)

text \<open>The calls on an open endpoint, by a client or by the transport.\<close>

datatype km_call = Km_Key nat keyboard_request | Km_Button nat button_request
  | Km_Consumer nat consumer_request | Km_Relative nat relative_request | Km_Absolute nat absolute_request
  | Km_Close nat | Km_Ready | Km_Take | Km_Failed

fun km_step :: "km_call \<Rightarrow> km_endpoint \<Rightarrow> km_result \<times> km_report list \<times> km_endpoint"
  where
    "km_step (Km_Key o' r) e = (fst (km_submit_key o' r e), [], snd (km_submit_key o' r e))"
  | "km_step (Km_Button o' r) e = (fst (km_submit_button o' r e), [], snd (km_submit_button o' r e))"
  | "km_step (Km_Consumer o' r) e = (fst (km_submit_consumer o' r e), [], snd (km_submit_consumer o' r e))"
  | "km_step (Km_Relative o' r) e = (fst (km_submit_relative o' r e), [], snd (km_submit_relative o' r e))"
  | "km_step (Km_Absolute o' r) e = (fst (km_submit_absolute o' r e), [], snd (km_submit_absolute o' r e))"
  | "km_step (Km_Close o') e = (fst (km_close o' e), [], snd (km_close o' e))"
  | "km_step Km_Ready e = (Km_Unchanged, [], km_ready e)"
  | "km_step Km_Take e = (Km_Unchanged, (case fst (km_take e) of None \<Rightarrow> [] | Some r \<Rightarrow> [r]), snd (km_take e))"
  | "km_step Km_Failed e = (Km_Unchanged, [], submission_failed e)"

definition hold :: "byte \<Rightarrow> nat \<Rightarrow> nat set \<Rightarrow> nat set"
  where "hold pressed n ns = (if pressed \<noteq> 0 then insert n ns else ns - {n})"

text \<open>What an accepted call means.\<close>

fun intent :: "km_call \<Rightarrow> km_view \<Rightarrow> km_view"
  where
    "intent (Km_Key _ r) v = v\<lparr>kv_keys := hold (kk_pressed r) (unat (kk_usage r)) (kv_keys v)\<rparr>"
  | "intent (Km_Button _ r) v =
      v\<lparr>kv_buttons := hold (kb_pressed r) (unat (kb_button r) - 1) (kv_buttons v)\<rparr>"
  | "intent (Km_Consumer _ r) v =
      v\<lparr>kv_consumer := hold (kc_pressed r) (the (consumer_bit (kc_usage r))) (kv_consumer v)\<rparr>"
  | "intent (Km_Relative _ r) v = v\<lparr>kv_x := kv_x v + kr_x r, kv_y := kv_y v + kr_y r,
      kv_wheel := kv_wheel v + kr_wheel r, kv_pan := kv_pan v + kr_pan r\<rparr>"
  | "intent (Km_Absolute _ r) v = v\<lparr>kv_position := Some (drop_bit 1 (ka_x r), drop_bit 1 (ka_y r))\<rparr>"
  | "intent (Km_Close _) v = v\<lparr>kv_keys := {}, kv_buttons := {}, kv_consumer := {}\<rparr>"
  | "intent _ v = v"

fun km_run :: "km_call list \<Rightarrow> km_endpoint \<Rightarrow> km_view \<Rightarrow> km_report list \<times> km_endpoint \<times> km_view"
  where
    "km_run [] e v = ([], e, v)"
  | "km_run (c # cs) e v =
      (let (res, out, e) = km_step c e; v = (if res = Km_Accepted then intent c v else v);
           (outs, e, v) = km_run cs e v
       in (out @ outs, e, v))"

text \<open>The signed fields of a request are in their range.\<close>

fun km_call_ok :: "km_call \<Rightarrow> bool"
  where
    "km_call_ok (Km_Relative _ r) \<longleftrightarrow> i16_ok (kr_x r) \<and> i16_ok (kr_y r) \<and>
      - 128 \<le> kr_wheel r \<and> kr_wheel r \<le> 127 \<and> - 128 \<le> kr_pan r \<and> kr_pan r \<le> 127"
  | "km_call_ok _ \<longleftrightarrow> True"

section \<open>Reading a report back\<close>

lemma key_set_iff: "u \<in> key_set ks \<longleftrightarrow> u < 232 \<and> bit (ks ! (u div 8)) (u mod 8)"
  by (auto simp: key_set_def k_keyboard_bytes_def)

lemma bit_set_iff: "i \<in> bit_set b \<longleftrightarrow> i < 8 \<and> bit b i"
  by (auto simp: bit_set_def)

lemma set_held_bit: "n < 8 \<Longrightarrow> i < 8 \<Longrightarrow>
    bit (set_held p (push_bit n 1) b) i \<longleftrightarrow> (if i = n then p \<noteq> 0 else bit b i)"
  by (auto simp: set_held_def bit_simps)

lemma bit_set_held: "n < 8 \<Longrightarrow> bit_set (set_held p (push_bit n 1) b) = hold p n (bit_set b)"
  by (auto simp del: push_bit_of_1 simp: bit_set_iff hold_def set_held_bit split: if_splits)

lemma key_set_held:
  assumes "length ks = k_keyboard_bytes" "u < 232"
  shows "key_set (ks[u div 8 := set_held p (push_bit (u mod 8) 1) (ks ! (u div 8))]) = hold p u (key_set ks)"
proof -
  have u: "u div 8 < length ks" using assms by (simp add: k_keyboard_bytes_def)
  have "w \<in> key_set (ks[u div 8 := set_held p (push_bit (u mod 8) 1) (ks ! (u div 8))]) \<longleftrightarrow>
      w \<in> hold p u (key_set ks)" for w
  proof (cases "w div 8 = u div 8")
    case True
    then have "w = u \<longleftrightarrow> w mod 8 = u mod 8" by (metis div_mult_mod_eq)
    then show ?thesis using True u assms(2) by (auto simp del: push_bit_of_1 simp: key_set_iff hold_def set_held_bit split: if_splits)
  next
    case False
    then show ?thesis using u by (auto simp: key_set_iff hold_def)
  qed
  then show ?thesis by blast
qed

lemma sint_byte_of_int: "- 128 \<le> w \<Longrightarrow> w \<le> 127 \<Longrightarrow> sint (byte_of_int w) = w"
  by (simp add: byte_of_int_def signed_of_int signed_take_bit_int_eq_self)

lemma host_reads_keyboard:
  assumes "length (ke_keys e) = k_keyboard_bytes"
  shows "host_reads v (keyboard_report e) = v\<lparr>kv_keys := key_set (ke_keys e)\<rparr>"
  using assms
  by (simp add: host_reads_def keyboard_report_def km_report_of_def km_ids overwrite_def k_keyboard_bytes_def)

lemma host_reads_consumer: "host_reads v (consumer_report e) = v\<lparr>kv_consumer := bit_set (ke_consumer e)\<rparr>"
  by (simp add: host_reads_def consumer_report_def km_report_of_def km_ids overwrite_def)

lemma host_reads_relative:
  assumes "i16_ok x" "i16_ok y" "- 128 \<le> w" "w \<le> 127" "- 128 \<le> p" "p \<le> 127"
  shows "host_reads v (relative_report x y w p e) = v\<lparr>kv_buttons := bit_set (ke_buttons e),
    kv_x := kv_x v + x, kv_y := kv_y v + y, kv_wheel := kv_wheel v + w, kv_pan := kv_pan v + p\<rparr>"
proof -
  define b where "b = kp_bytes (relative_report x y w p e)"
  have b_is: "b = [k_relative_report_id, ke_buttons e] @ concat (map i16_bytes [x, y]) @
      [byte_of_int w, byte_of_int p] @ replicate 22 0"
    by (simp add: b_def relative_report_def km_report_of_def overwrite_def)
  have xy: "read_i16 b 2 = x" "read_i16 b 4 = y"
    using read_i16_at [OF b_is, of 0] read_i16_at [OF b_is, of 1] assms
    by (simp_all add: eval_nat_numeral)
  have rest: "b ! 1 = ke_buttons e" "b ! 6 = byte_of_int w" "b ! 7 = byte_of_int p"
    unfolding b_is by (simp_all add: nth_append)
  have "kp_id (relative_report x y w p e) = 2"
    by (simp add: relative_report_def km_report_of_def k_relative_report_id_def)
  then show ?thesis
    using rest assms unfolding host_reads_def b_def [symmetric] Let_def xy
    by (simp add: sint_byte_of_int)
qed

lemma host_reads_absolute:
  "host_reads v (absolute_report x y) = v\<lparr>kv_position := Some (drop_bit 1 x, drop_bit 1 y)\<rparr>"
  by (simp add: host_reads_def absolute_report_def km_report_of_def km_ids overwrite_def le16_bytes_def)

section \<open>The session invariant\<close>

text \<open>Since the endpoint was opened: \<open>out\<close> was delivered, \<open>v\<close> is what the accepted calls mean.
  While active, a host that reads everything delivered and queued sees exactly \<open>v\<close>; afterwards
  it still sees what is held, which is nothing. After a failed transfer nothing is queued.\<close>

definition held_part :: "km_view \<Rightarrow> nat set \<times> nat set \<times> nat set"
  where "held_part v = (kv_keys v, kv_buttons v, kv_consumer v)"

definition session_ok :: "km_endpoint \<Rightarrow> km_report list \<Rightarrow> km_view \<Rightarrow> bool"
  where "session_ok e out v \<longleftrightarrow> km_queue_ok e \<and> length (ke_keys e) = k_keyboard_bytes \<and>
    ke_state e \<noteq> Km_Closed \<and> (if ke_state e = Km_Faulted then km_queued e = [] else
    held_part v = (key_set (ke_keys e), bit_set (ke_buttons e), bit_set (ke_consumer e)) \<and>
    held_part (host_view (out @ km_queued e)) = held_part v \<and>
    (ke_state e = Km_Active \<longrightarrow> host_view (out @ km_queued e) = v) \<and>
    (ke_state e \<noteq> Km_Active \<longrightarrow> held_part v = ({}, {}, {})) \<and>
    (ke_state e = Km_Drained \<longrightarrow> km_queued e = []))"

lemma enqueued: "km_queue_ok e \<Longrightarrow> ke_count e \<noteq> k_km_queue_capacity \<Longrightarrow>
    km_queue_ok (km_enqueue x e) \<and> km_queued (km_enqueue x e) = km_queued e @ [x]"
  using kq.push_law [of e x] by (auto simp: km_queue_ok_def km_queued_def)

lemma km_enqueue_fields [simp]:
  "ke_state (km_enqueue x e) = ke_state e" "ke_keys (km_enqueue x e) = ke_keys e"
  "ke_buttons (km_enqueue x e) = ke_buttons e" "ke_consumer (km_enqueue x e) = ke_consumer e"
  "ke_credit (km_enqueue x e) = ke_credit e" "ke_owner (km_enqueue x e) = ke_owner e"
  "ke_count (km_enqueue x e) = ke_count e + 1" "ke_retained (km_enqueue x e) = ke_retained e"
  by (simp_all add: km_enqueue_def)

lemma held_fields [simp]:
  "km_queued (e\<lparr>ke_keys := k\<rparr>) = km_queued e" "km_queue_ok (e\<lparr>ke_keys := k\<rparr>) = km_queue_ok e"
  "km_queued (e\<lparr>ke_buttons := b\<rparr>) = km_queued e" "km_queue_ok (e\<lparr>ke_buttons := b\<rparr>) = km_queue_ok e"
  "km_queued (e\<lparr>ke_consumer := b\<rparr>) = km_queued e" "km_queue_ok (e\<lparr>ke_consumer := b\<rparr>) = km_queue_ok e"
  "km_queued (e\<lparr>ke_credit := c\<rparr>) = km_queued e" "km_queue_ok (e\<lparr>ke_credit := c\<rparr>) = km_queue_ok e"
  "km_queued (e\<lparr>ke_state := st\<rparr>) = km_queued e" "km_queue_ok (e\<lparr>ke_state := st\<rparr>) = km_queue_ok e"
  "km_queued (e\<lparr>ke_retained := r\<rparr>) = km_queued e" "km_queue_ok (e\<lparr>ke_retained := r\<rparr>) = km_queue_ok e"
  by (simp_all add: km_queued_def km_queue_ok_def)

text \<open>A submission that is accepted changes one held state at most and queues one report.\<close>

lemma session_enqueue:
  assumes "session_ok e out v" "ke_state e = Km_Active" "ke_count e \<noteq> k_km_queue_capacity"
    "km_queued e' = km_queued e" "km_queue_ok e'" "ke_count e' = ke_count e" "ke_state e' = Km_Active"
    "length (ke_keys e') = k_keyboard_bytes" "host_reads v x = w"
    "held_part w = (key_set (ke_keys e'), bit_set (ke_buttons e'), bit_set (ke_consumer e'))"
  shows "session_ok (km_enqueue x e') out w"
proof -
  from enqueued [OF assms(5), of x] assms(3,6)
  have q: "km_queue_ok (km_enqueue x e')" "km_queued (km_enqueue x e') = km_queued e @ [x]"
    using assms(4) by simp_all
  have "host_view (out @ km_queued e) = v" using assms(1,2) by (simp add: session_ok_def)
  then have "host_view (out @ km_queued (km_enqueue x e')) = w"
    unfolding q(2) append_assoc [symmetric] host_view_snoc using assms(9) by simp
  then show ?thesis using q(1) assms(7,8,10) by (simp add: session_ok_def)
qed

lemma session_key:
  assumes "session_ok e out v" "km_submit_key o' r e = (res, e')"
  shows "session_ok e' out (if res = Km_Accepted then intent (Km_Key o' r) v else v)"
proof (cases "res = Km_Accepted")
  case False
  then have "e' = e" using assms(2) by (auto simp: km_submit_key_def Let_def split: if_splits)
  then show ?thesis using assms(1) False by simp
next
  case True
  let ?u = "unat (kk_usage r)"
  let ?e = "e\<lparr>ke_keys := (ke_keys e)[?u div 8 := set_held (kk_pressed r) (push_bit (?u mod 8) 1) (ke_keys e ! (?u div 8))]\<rparr>"
  have c: "ke_state e = Km_Active" "\<not> kk_usage r > 0xE7" "ke_count e \<noteq> k_km_queue_capacity"
    "e' = km_enqueue (keyboard_report ?e) ?e"
    using assms(2) True
    by (auto simp del: push_bit_of_1 simp: km_submit_key_def Let_def admission_def split: if_splits)
  have u: "?u < 232" using c(2) by (simp add: word_less_nat_alt not_less)
  have l: "length (ke_keys e) = k_keyboard_bytes" using assms(1) by (simp add: session_ok_def)
  have "session_ok (km_enqueue (keyboard_report ?e) ?e) out (intent (Km_Key o' r) v)"
    by (rule session_enqueue [OF assms(1) c(1,3)])
      (use assms(1) c(1) l key_set_held [OF l u, of "kk_pressed r"] in
        \<open>simp_all del: push_bit_of_1 add: host_reads_keyboard session_ok_def held_part_def\<close>)
  then show ?thesis using True c(4) by simp
qed

lemma session_button:
  assumes "session_ok e out v" "km_submit_button o' r e = (res, e')"
  shows "session_ok e' out (if res = Km_Accepted then intent (Km_Button o' r) v else v)"
proof (cases "res = Km_Accepted")
  case False
  then have "e' = e" using assms(2) by (auto simp: km_submit_button_def Let_def split: if_splits)
  then show ?thesis using assms(1) False by simp
next
  case True
  let ?n = "unat (kb_button r) - 1"
  let ?e = "e\<lparr>ke_buttons := set_held (kb_pressed r) (push_bit ?n 1) (ke_buttons e)\<rparr>"
  have c: "ke_state e = Km_Active" "\<not> kb_button r > 5" "ke_count e \<noteq> k_km_queue_capacity"
    "e' = km_enqueue (relative_report 0 0 0 0 ?e) ?e"
    using assms(2) True
    by (auto simp del: push_bit_of_1 simp: km_submit_button_def Let_def admission_def split: if_splits)
  have n: "?n < 8" using c(2) by (simp add: word_less_nat_alt not_less)
  have "session_ok (km_enqueue (relative_report 0 0 0 0 ?e) ?e) out (intent (Km_Button o' r) v)"
    by (rule session_enqueue [OF assms(1) c(1,3)])
      (use assms(1) c(1) bit_set_held [OF n, of "kb_pressed r" "ke_buttons e"] in
        \<open>simp_all del: push_bit_of_1 add: host_reads_relative i16_ok_def session_ok_def held_part_def\<close>)
  then show ?thesis using True c(4) by simp
qed

lemma consumer_bit_range: "consumer_bit u = Some n \<Longrightarrow> n < 8"
  by (auto simp: consumer_bit_def split: if_splits)

lemma session_consumer:
  assumes "session_ok e out v" "km_submit_consumer o' r e = (res, e')"
  shows "session_ok e' out (if res = Km_Accepted then intent (Km_Consumer o' r) v else v)"
proof (cases "res = Km_Accepted")
  case False
  then have "e' = e"
    using assms(2) by (auto simp: km_submit_consumer_def Let_def split: if_splits option.splits)
  then show ?thesis using assms(1) False by simp
next
  case True
  then obtain n where n: "consumer_bit (kc_usage r) = Some n"
    using assms(2) by (cases "consumer_bit (kc_usage r)") (auto simp: km_submit_consumer_def Let_def split: if_splits)
  let ?e = "e\<lparr>ke_consumer := set_held (kc_pressed r) (push_bit n 1) (ke_consumer e)\<rparr>"
  have c: "ke_state e = Km_Active" "ke_count e \<noteq> k_km_queue_capacity"
    "e' = km_enqueue (consumer_report ?e) ?e"
    using assms(2) True n
    by (auto simp del: push_bit_of_1 simp: km_submit_consumer_def Let_def admission_def split: if_splits)
  have "session_ok (km_enqueue (consumer_report ?e) ?e) out (intent (Km_Consumer o' r) v)"
    by (rule session_enqueue [OF assms(1) c(1,2)])
      (use assms(1) c(1) n bit_set_held [OF consumer_bit_range [OF n], of "kc_pressed r" "ke_consumer e"] in
        \<open>simp_all del: push_bit_of_1 add: host_reads_consumer session_ok_def held_part_def\<close>)
  then show ?thesis using True c(3) by simp
qed

lemma session_relative:
  assumes "session_ok e out v" "km_submit_relative o' r e = (res, e')" "km_call_ok (Km_Relative o' r)"
  shows "session_ok e' out (if res = Km_Accepted then intent (Km_Relative o' r) v else v)"
proof (cases "res = Km_Accepted")
  case False
  then have "e' = e" using assms(2) by (auto simp: km_submit_relative_def Let_def split: if_splits)
  then show ?thesis using assms(1) False by simp
next
  case True
  have c: "ke_state e = Km_Active" "ke_count e \<noteq> k_km_queue_capacity"
    "e' = km_enqueue (relative_report (kr_x r) (kr_y r) (kr_wheel r) (kr_pan r) e) e"
    using assms(2) True by (auto simp: km_submit_relative_def Let_def admission_def split: if_splits)
  have "session_ok (km_enqueue (relative_report (kr_x r) (kr_y r) (kr_wheel r) (kr_pan r) e) e) out
      (intent (Km_Relative o' r) v)"
    by (rule session_enqueue [OF assms(1) c(1,2)])
      (use assms(1,3) c(1) in \<open>simp_all add: host_reads_relative session_ok_def held_part_def\<close>)
  then show ?thesis using True c(3) by simp
qed

lemma session_absolute:
  assumes "session_ok e out v" "km_submit_absolute o' r e = (res, e')"
  shows "session_ok e' out (if res = Km_Accepted then intent (Km_Absolute o' r) v else v)"
proof (cases "res = Km_Accepted")
  case False
  then have "e' = e" using assms(2) by (auto simp: km_submit_absolute_def Let_def split: if_splits)
  then show ?thesis using assms(1) False by simp
next
  case True
  have c: "ke_state e = Km_Active" "ke_count e \<noteq> k_km_queue_capacity"
    "e' = km_enqueue (absolute_report (ka_x r) (ka_y r)) e"
    using assms(2) True by (auto simp: km_submit_absolute_def Let_def admission_def split: if_splits)
  have "session_ok (km_enqueue (absolute_report (ka_x r) (ka_y r)) e) out (intent (Km_Absolute o' r) v)"
    by (rule session_enqueue [OF assms(1) c(1,2)])
      (use assms(1) c(1) in \<open>simp_all add: host_reads_absolute session_ok_def held_part_def\<close>)
  then show ?thesis using True c(3) by simp
qed

text \<open>Closing queues the three neutral reports behind nothing.\<close>

lemma key_set_neutral: "key_set (replicate k_keyboard_bytes 0) = {}" "bit_set 0 = {}"
  by (auto simp: key_set_def bit_set_def)

lemma close_queue:
  assumes "km_queue_ok e" "km_close o' e = (Km_Accepted, e')"
  shows "km_queue_ok e' \<and> ke_state e' = Km_Closing \<and> ke_count e' = 3 \<and>
    ke_keys e' = replicate k_keyboard_bytes 0 \<and> ke_buttons e' = 0 \<and> ke_consumer e' = 0 \<and>
    km_queued e' = [keyboard_report e', relative_report 0 0 0 0 e', consumer_report e']"
proof -
  let ?n = "e\<lparr>ke_state := Km_Closing, ke_head := 0, ke_count := 0,
    ke_keys := replicate k_keyboard_bytes 0, ke_buttons := 0, ke_consumer := 0\<rparr>"
  have n: "km_queue_ok ?n" "km_queued ?n = []" "ke_count ?n = 0"
    using assms(1) by (simp_all add: km_queue_ok_def km_queued_def)
  let ?a = "km_enqueue (keyboard_report ?n) ?n"
  let ?b = "km_enqueue (relative_report 0 0 0 0 ?a) ?a"
  have e': "e' = km_enqueue (consumer_report ?b) ?b"
    using assms(2) by (simp add: km_close_def Let_def split: if_splits)
  have a: "km_queue_ok ?a" "km_queued ?a = [keyboard_report ?n]"
    using enqueued [OF n(1), of "keyboard_report ?n"] n(2) by (simp_all add: k_km_queue_capacity_def)
  have b: "km_queue_ok ?b" "km_queued ?b = [keyboard_report ?n, relative_report 0 0 0 0 ?a]"
    using enqueued [OF a(1), of "relative_report 0 0 0 0 ?a"] a(2) by (simp_all add: k_km_queue_capacity_def)
  have "km_queue_ok e' \<and> km_queued e' =
      [keyboard_report ?n, relative_report 0 0 0 0 ?a, consumer_report ?b]"
    using enqueued [OF b(1), of "consumer_report ?b"] b(2) by (simp add: e' k_km_queue_capacity_def)
  then show ?thesis
    by (simp add: e' keyboard_report_def relative_report_def consumer_report_def)
qed

lemma session_close:
  assumes "session_ok e out v" "km_close o' e = (res, e')"
  shows "session_ok e' out (if res = Km_Accepted then intent (Km_Close o') v else v)"
proof (cases "res = Km_Accepted")
  case False
  then have "e' = e" using assms(2) by (auto simp: km_close_def Let_def split: if_splits)
  then show ?thesis using assms(1) False by simp
next
  case True
  have q: "km_queue_ok e" using assms(1) by (simp add: session_ok_def)
  note c = close_queue [OF q, of o' e'] assms(2) True
  let ?h = "host_view out"
  have "host_view (out @ km_queued e') = host_reads (host_reads (host_reads ?h (keyboard_report e'))
      (relative_report 0 0 0 0 e')) (consumer_report e')"
    using c by (simp add: host_view_def)
  then have "held_part (host_view (out @ km_queued e')) = ({}, {}, {})"
    using c key_set_neutral
    by (simp add: host_reads_keyboard host_reads_relative host_reads_consumer i16_ok_def held_part_def)
  then show ?thesis
    using c key_set_neutral by (simp add: session_ok_def held_part_def)
qed

lemma session_ready:
  assumes "session_ok e out v"
  shows "session_ok (km_ready e) out v"
proof (cases "ke_state e = Km_Closing \<and> ke_count e = 0")
  case True
  then have "km_queued e = []" by (simp add: km_queued_def)
  then show ?thesis using assms True by (auto simp: km_ready_def session_ok_def held_part_def)
qed (use assms in \<open>auto simp: km_ready_def session_ok_def\<close>)

lemma session_failed:
  assumes "session_ok e out v"
  shows "session_ok (submission_failed e) out v"
  using assms by (simp add: session_ok_def submission_failed_def km_queue_ok_def km_queued_def
      k_km_queue_capacity_def)

lemma take_cases:
  assumes "km_queue_ok e"
  obtains (nothing) "km_take e = (None, e)"
    | (report) r e' where "km_take e = (Some r, e')" "km_queued e = r # km_queued e'" "km_queue_ok e'"
      "ke_state e' = ke_state e" "ke_keys e' = ke_keys e" "ke_buttons e' = ke_buttons e"
      "ke_consumer e' = ke_consumer e" "\<not> ke_credit e'" "ke_retained e' = r" "ke_count e = Suc (ke_count e')"
      "ke_state e = Km_Active \<or> ke_state e = Km_Closing" "ke_credit e"
proof (cases "fst (km_take e)")
  case None
  then have "km_take e = (None, e)" by (auto simp: km_take_def Let_def split: if_splits)
  then show ?thesis by (rule nothing)
next
  case (Some r)
  then have g: "ke_credit e" "ke_count e \<noteq> 0" "ke_state e = Km_Active \<or> ke_state e = Km_Closing"
    and r: "r = ke_queue e ! ke_head e"
    by (auto simp: km_take_def Let_def split: if_splits)
  let ?e = "(km_pop e)\<lparr>ke_retained := r, ke_credit := False\<rparr>"
  have t: "km_take e = (Some r, ?e)" using g r by (simp add: km_take_def Let_def km_pop_def)
  have ne: "km_queued e \<noteq> []" using g(2) by (simp add: km_queued_def)
  from kq.pop_law [OF assms ne] have p: "km_queue_ok (km_pop e)" "km_queued (km_pop e) = tl (km_queued e)"
    by simp_all
  have "hd (km_queued e) = r"
    using ring_hd [of "ke_count e" "ke_head e" "ke_queue e"] g(2) assms r
    by (simp add: km_queued_def km_queue_ok_def)
  then have "km_queued e = r # km_queued ?e" "km_queue_ok ?e"
    using p ne by (cases "km_queued e"; simp)+
  with t g show ?thesis by (intro report [of r ?e]) (simp_all add: km_pop_def)
qed

lemma session_take:
  assumes "session_ok e out v" "km_take e = (t, e')"
  shows "session_ok e' (out @ (case t of None \<Rightarrow> [] | Some r \<Rightarrow> [r])) v"
proof -
  have q: "km_queue_ok e" using assms(1) by (simp add: session_ok_def)
  from q show ?thesis
    by (cases rule: take_cases) (use assms in \<open>auto simp: session_ok_def\<close>)
qed

lemma session_step:
  assumes "session_ok e out v" "km_call_ok c" "km_step c e = (res, d, e')"
  shows "session_ok e' (out @ d) (if res = Km_Accepted then intent c v else v)"
proof (cases c)
  case Km_Take
  obtain t e1 where "km_take e = (t, e1)" by (cases "km_take e")
  then show ?thesis using session_take [OF assms(1)] assms(3) Km_Take by auto
qed (use assms(2,3) session_key [OF assms(1) prod.collapse [symmetric]]
    session_button [OF assms(1) prod.collapse [symmetric]]
    session_consumer [OF assms(1) prod.collapse [symmetric]]
    session_relative [OF assms(1) prod.collapse [symmetric]]
    session_absolute [OF assms(1) prod.collapse [symmetric]]
    session_close [OF assms(1) prod.collapse [symmetric]] session_ready [OF assms(1)]
    session_failed [OF assms(1)] in
    \<open>auto simp del: intent.simps split del: if_split\<close>)

lemma session_run:
  "session_ok e out v \<Longrightarrow> list_all km_call_ok cs \<Longrightarrow> km_run cs e v = (d, e', v') \<Longrightarrow> session_ok e' (out @ d) v'"
proof (induction cs arbitrary: e out v d e' v')
  case (Cons c cs)
  obtain res d1 e1 where s: "km_step c e = (res, d1, e1)" by (metis prod_cases3)
  let ?v = "if res = Km_Accepted then intent c v else v"
  obtain d2 e2 v2 where r: "km_run cs e1 ?v = (d2, e2, v2)" by (metis prod_cases3)
  have "session_ok e1 (out @ d1) ?v" using session_step [OF Cons.prems(1) _ s] Cons.prems(2) by simp
  from Cons.IH [OF this _ r] show ?case using Cons.prems s r by simp
qed simp

lemma session_open:
  assumes "owner \<noteq> 0"
  shows "session_ok (snd (km_open owner g new_endpoint)) [] blank_view"
  using assms key_set_neutral
  by (simp add: km_open_def new_endpoint_def reset_after_device_deleted_def session_ok_def km_queue_ok_def
      km_queued_def held_part_def blank_view_def host_view_def k_km_queue_capacity_def)

section \<open>Closing\<close>

text \<open>Who may still change a closing endpoint: only the transport.\<close>

lemma closing_step:
  assumes "ke_state e = Km_Closing \<or> ke_state e = Km_Drained" "c \<notin> {Km_Ready, Km_Take, Km_Failed}"
  shows "\<exists>res. km_step c e = (res, [], e)"
proof -
  have a: "admission o' e = Km_Not_Ready" for o' using assms(1) by (auto simp: admission_def)
  show ?thesis
    using assms a
    by (cases c) (auto simp: km_submit_key_def km_submit_button_def km_submit_consumer_def
        km_submit_relative_def km_submit_absolute_def km_close_def Let_def)
qed

lemma drained_run:
  "ke_state e = Km_Drained \<Longrightarrow> Km_Failed \<notin> set cs \<Longrightarrow> \<exists>v'. km_run cs e v = ([], e, v')"
proof (induction cs arbitrary: v)
  case (Cons c cs)
  have "\<exists>res. km_step c e = (res, [], e)"
    using closing_step [of e c] Cons.prems by (cases c) (auto simp: km_ready_def km_take_def)
  then obtain res where s: "km_step c e = (res, [], e)" ..
  have "Km_Failed \<notin> set cs" using Cons.prems(2) by simp
  from Cons.IH [OF Cons.prems(1) this] obtain v' where
    "km_run cs e (if res = Km_Accepted then intent c v else v) = ([], e, v')" by blast
  then show ?case using s by simp
qed simp

text \<open>The readiness of the host and the take that follows it, a number of times.\<close>

definition rounds :: "nat \<Rightarrow> km_call list"
  where "rounds n = concat (replicate n [Km_Ready, Km_Take])"

lemma rounds_0 [simp]: "rounds 0 = []"
  by (simp add: rounds_def)

lemma rounds_Suc: "rounds (Suc n) = Km_Ready # Km_Take # rounds n"
  by (simp add: rounds_def)

lemma closing_rounds:
  assumes "km_queue_ok e" "ke_state e = Km_Closing" "Km_Failed \<notin> set cs"
  shows "(Suc (ke_count e) \<le> m \<and> subseq (rounds m) cs \<longrightarrow>
      (\<exists>e' v'. km_run cs e v = (km_queued e, e', v') \<and> ke_state e' = Km_Drained)) \<and>
    (ke_credit e \<and> 0 < ke_count e \<and> ke_count e \<le> m \<and> subseq (Km_Take # rounds m) cs \<longrightarrow>
      (\<exists>e' v'. km_run cs e v = (km_queued e, e', v') \<and> ke_state e' = Km_Drained))"
  using assms
proof (induction cs arbitrary: e v m)
  case Nil
  then show ?case by (cases m) (simp_all add: rounds_Suc)
next
  case (Cons c cs)
  note q = Cons.prems(1) and st = Cons.prems(2)
  have nf: "Km_Failed \<notin> set cs" "c \<noteq> Km_Failed" using Cons.prems(3) by auto
  consider (client) "c \<noteq> Km_Ready" "c \<noteq> Km_Take" | (ready) "c = Km_Ready" | (take) "c = Km_Take" by blast
  then show ?case
  proof cases
    case client
    then obtain res where s: "km_step c e = (res, [], e)" using closing_step [of e c] st nf by blast
    let ?v = "if res = Km_Accepted then intent c v else v"
    have sub: "subseq (x # xs) (c # cs) \<longleftrightarrow> subseq (x # xs) cs" if "x \<in> {Km_Ready, Km_Take}" for x xs
      using that client by auto
    have "m = Suc n \<Longrightarrow> subseq (rounds m) (c # cs) \<longleftrightarrow> subseq (rounds m) cs" for n
      using sub by (simp add: rounds_Suc)
    then show ?thesis
      using Cons.IH [OF q st nf(1), of m ?v] s sub by (cases m) (auto simp: Let_def)
  next
    case ready
    show ?thesis
    proof (cases "ke_count e = 0")
      case True
      let ?d = "e\<lparr>ke_state := Km_Drained, ke_credit := False\<rparr>"
      obtain v' where "km_run cs ?d v = ([], ?d, v')" using drained_run [of ?d cs] nf by auto
      then show ?thesis using ready True st by (auto simp: km_ready_def km_queued_def)
    next
      case False
      let ?r = "e\<lparr>ke_credit := True\<rparr>"
      have r: "km_step c e = (Km_Unchanged, [], ?r)" using ready st False by (simp add: km_ready_def)
      have "subseq (Km_Take # rounds n) cs" if "subseq (rounds (Suc n)) (c # cs)" for n
        using that ready by (simp add: rounds_Suc)
      moreover have "subseq (Km_Take # rounds n) cs" if "subseq (Km_Take # rounds n) (c # cs)" for n
        using that ready by simp
      moreover have "km_queue_ok ?r" "ke_state ?r = Km_Closing" "ke_credit ?r" "ke_count ?r = ke_count e"
        "km_queued ?r = km_queued e" using q st by simp_all
      ultimately show ?thesis
        using Cons.IH [of ?r m v] Cons.IH [of ?r "m - 1" v] r False nf(1)
        by (cases m) (auto simp: Let_def)
    qed
  next
    case take
    from q show ?thesis
    proof (cases rule: take_cases)
      case nothing
      note empty = this
      then have s: "km_step c e = (Km_Unchanged, [], e)" using take by simp
      have idle: "\<not> (ke_credit e \<and> 0 < ke_count e)"
      proof
        assume "ke_credit e \<and> 0 < ke_count e"
        then have "fst (km_take e) \<noteq> None" using st by (simp add: km_take_def Let_def)
        then show False using empty by simp
      qed
      have sub: "subseq (rounds m) cs" if "subseq (rounds m) (c # cs)"
        using that take by (cases m) (simp_all add: rounds_Suc)
      show ?thesis using idle sub Cons.IH [OF q st nf(1), of m v] s by (auto simp: Let_def)
    next
      case (report r e1)
      then have s: "km_step c e = (Km_Unchanged, [r], e1)" using take by simp
      have sub: "subseq (rounds m) cs" if "subseq (rounds m) (c # cs)"
        using that take by (cases m) (simp_all add: rounds_Suc)
      have sub2: "subseq (rounds m) cs" if "subseq (Km_Take # rounds m) (c # cs)"
        using that take by simp
      have "\<exists>e' v'. km_run cs e1 v = (km_queued e1, e', v') \<and> ke_state e' = Km_Drained"
        if "subseq (rounds m) cs" "ke_count e \<le> m"
        using Cons.IH [OF report(3) _ nf(1), of m v] report(4,10) st that by simp
      then show ?thesis using s sub sub2 report(2) by (auto simp: Let_def)
    qed
  qed
qed

section \<open>Properties\<close>

text \<open>Property C7. The endpoint as a refinement of what its client means: take any sequence of
  calls on an opened endpoint, by its owner or by strangers, well formed or not, interleaved with
  the reads of the host. While the endpoint is active, a host that reads what was delivered and
  then what is queued sees exactly the keys, buttons and consumer controls the accepted calls
  hold, the sum of the motion they asked for and the last position; once it is closing or
  drained, the host ends with nothing held, and a drained endpoint owes it nothing.\<close>

theorem host_sees_intent:
  assumes "owner \<noteq> 0" "list_all km_call_ok cs"
    "km_run cs (snd (km_open owner g new_endpoint)) blank_view = (out, e, v)"
  shows "(ke_state e = Km_Active \<longrightarrow> host_view (out @ km_queued e) = v) \<and>
    (ke_state e \<in> {Km_Closing, Km_Drained} \<longrightarrow> held_part (host_view (out @ km_queued e)) = ({}, {}, {})) \<and>
    (ke_state e \<in> {Km_Drained, Km_Faulted} \<longrightarrow> km_queued e = [])"
  using session_run [OF session_open [OF assms(1), of g] assms(2,3)]
  by (auto simp: session_ok_def split: if_splits)

definition demo_key :: "u16 \<Rightarrow> byte \<Rightarrow> km_call"
  where "demo_key u p = Km_Key 7 \<lparr>kk_prefix = km_request 12, kk_usage = u, kk_pressed = p, kk_reserved = 0\<rparr>"

definition demo_motion :: "i16 \<Rightarrow> i16 \<Rightarrow> km_call"
  where "demo_motion x y = Km_Relative 7 \<lparr>kr_prefix = km_request 16, kr_x = x, kr_y = y, kr_wheel = 0,
    kr_pan = 0, kr_reserved = 0\<rparr>"

definition demo_calls :: "km_call list"
  where "demo_calls = [demo_key 4 1, Km_Ready, Km_Take, demo_motion 5 (- 3)]"

definition demo_run :: "km_report list \<times> km_endpoint \<times> km_view"
  where "demo_run = km_run demo_calls (snd (km_open 7 0 new_endpoint)) blank_view"

lemmas demo_steps = km_open_def reset_after_device_deleted_def new_endpoint_def km_ready_def km_take_def
  km_submit_key_def km_submit_relative_def admission_def km_valid_def km_request_def k_abi_version_def
  km_enqueue_def hold_def Let_def k_km_queue_capacity_def k_keyboard_bytes_def set_held_def

lemma km_run_Cons:
  "km_run (c # cs) e v = (case km_step c e of (res, d, e1) \<Rightarrow>
    (case km_run cs e1 (if res = Km_Accepted then intent c v else v) of (ds, e2, w) \<Rightarrow> (d @ ds, e2, w)))"
  by (simp add: Let_def)

lemma demo_run_end:
  "snd (snd demo_run) = blank_view\<lparr>kv_keys := {4}, kv_x := 5, kv_y := - 3\<rparr> \<and> ke_state (fst (snd demo_run)) = Km_Active"
  by (simp del: km_run.simps(2) add: km_run_Cons demo_run_def demo_calls_def demo_key_def demo_motion_def
      demo_steps blank_view_def)

theorem host_sees_intent_witness:
  "host_view (fst demo_run @ km_queued (fst (snd demo_run))) = blank_view\<lparr>kv_keys := {4}, kv_x := 5, kv_y := - 3\<rparr>"
proof -
  have ok: "list_all km_call_ok demo_calls"
    by (simp add: demo_calls_def demo_key_def demo_motion_def i16_ok_def)
  have r: "km_run demo_calls (snd (km_open 7 0 new_endpoint)) blank_view =
      (fst demo_run, fst (snd demo_run), snd (snd demo_run))"
    by (simp add: demo_run_def)
  show ?thesis using host_sees_intent [OF _ ok r] demo_run_end by simp
qed



end
