(* ===== verification/Client.thy ===== *)
theory Client
  imports DriverTypes
begin

text \<open>
  The client library (\<^theory_text>\<open>client/client.cpp\<close>): one connection to the driver's control
  interface, the requests it packs and the answers it is willing to believe. What Windows does
  behind a handle is a parameter, the record \<open>windows\<close>; composed with the control interface of
  the driver it becomes \<open>driver_windows\<close>, and the two sides of the wire are proved to agree.
\<close>

section \<open>Errors\<close>

type_synonym win32 = u32

definition error_success :: win32
  where "error_success = 0"

definition error_invalid_function :: win32
  where "error_invalid_function = 1"

definition error_invalid_handle :: win32
  where "error_invalid_handle = 6"

definition error_invalid_data :: win32
  where "error_invalid_data = 13"

definition error_not_supported :: win32
  where "error_not_supported = 50"

definition error_invalid_parameter :: win32
  where "error_invalid_parameter = 87"

definition error_no_more_items :: win32
  where "error_no_more_items = 259"

definition error_not_found :: win32
  where "error_not_found = 1168"

definition error_revision_mismatch :: win32
  where "error_revision_mismatch = 1306"

definition error_invalid_user_buffer :: win32
  where "error_invalid_user_buffer = 1784"

lemmas win32_errors = error_success_def error_invalid_function_def error_invalid_handle_def
  error_invalid_data_def error_not_supported_def error_invalid_parameter_def error_no_more_items_def
  error_not_found_def error_revision_mismatch_def error_invalid_user_buffer_def

section \<open>Structs in memory\<close>

text \<open>The packed bytes of the requests the client sends; \<open>parse_input\<close> and its kin of
  \<^theory_text>\<open>DriverControl\<close> read them on the other side.\<close>

definition header_bytes :: "request_header \<Rightarrow> byte list"
  where "header_bytes h = le32_bytes (rh_size h) @ le16_bytes (rh_version h) @ le16_bytes (rh_reserved h)"

definition i32_bytes :: "int \<Rightarrow> byte list"
  where "i32_bytes v = le32_bytes (word_of_int v)"

definition create_bytes :: "create_controller_request \<Rightarrow> byte list"
  where "create_bytes r = header_bytes (cc_header r) @ le32_bytes (cc_controller_id r) @
    le16_bytes (cc_profile r) @ le16_bytes (cc_reserved r)"

definition controller_id_bytes :: "controller_id_request \<Rightarrow> byte list"
  where "controller_id_bytes r = header_bytes (ci_header r) @ le32_bytes (ci_controller_id r)"

definition input_bytes :: "input_state_request \<Rightarrow> byte list"
  where "input_bytes r = header_bytes (is_header r) @ le32_bytes (is_controller_id r) @
    le32_bytes (is_buttons r) @ i16_bytes (is_left_x r) @ i16_bytes (is_left_y r) @
    i16_bytes (is_right_x r) @ i16_bytes (is_right_y r) @ [is_left_trigger r, is_right_trigger r] @
    le16_bytes (is_reserved r)"

definition touch_bytes :: "touch_state_request \<Rightarrow> byte list"
  where "touch_bytes r = header_bytes (ts_header r) @ le32_bytes (ts_controller_id r) @
    [ts_contact_index r, ts_event_type r] @ le16_bytes (ts_x r) @ le16_bytes (ts_y r) @
    le16_bytes (ts_pressure r) @ le16_bytes (ts_reserved r)"

definition motion_bytes :: "motion_state_request \<Rightarrow> byte list"
  where "motion_bytes r = header_bytes (ms_header r) @ le32_bytes (ms_controller_id r) @
    ms_motion_type r # ms_reserved0 r @ i32_bytes (ms_x_milli r) @ i32_bytes (ms_y_milli r) @
    i32_bytes (ms_z_milli r)"

definition battery_bytes :: "battery_state_request \<Rightarrow> byte list"
  where "battery_bytes r = header_bytes (bs_header r) @ le32_bytes (bs_controller_id r) @
    [bs_percent r, bs_flags r] @ le16_bytes (bs_reserved r)"

definition attributes_bytes :: "steam_controller_attributes_request \<Rightarrow> byte list"
  where "attributes_bytes r = header_bytes (sa_header r) @ le32_bytes (sa_controller_id r) @
    le32_bytes (sa_flags r) @ le32_bytes (sa_firmware_build_time r) @
    le32_bytes (sa_bootloader_build_time r) @ le32_bytes (sa_board_revision r) @
    le32_bytes (sa_capabilities r) @ sa_build_id r @ sa_unit_serial r @ sa_board_serial r"

text \<open>The answers: what the driver writes into the output buffer, and what the client reads there.\<close>

definition counters_bytes :: "feedback_counters \<Rightarrow> byte list"
  where "counters_bytes c = [fc_haptic_evicted c, fc_settings_evicted c, fc_transitions_dropped c,
    fc_unknown_commands c]"

definition query_bytes :: "query_info_response \<Rightarrow> byte list"
  where "query_bytes q = header_bytes (qi_header q) @ le16_bytes (qi_minimum_version q) @
    le16_bytes (qi_maximum_version q) @ le32_bytes (qi_available_profiles q) @
    le32_bytes (qi_available_features q) @ le32_bytes (qi_maximum_controllers q) @
    counters_bytes (qi_counters q)"

definition event_bytes :: "feedback_event \<Rightarrow> byte list"
  where "event_bytes e = header_bytes (fe_header e) @ le32_bytes (fe_controller_id e) @
    le16_bytes (feedback_code (fe_type e)) @ le16_bytes (fe_payload_size e) @ fe_payload e"

definition parse_query :: "byte list \<Rightarrow> query_info_response"
  where "parse_query b = \<lparr>qi_header = header_at b, qi_minimum_version = read_u16 b 8,
    qi_maximum_version = read_u16 b 10, qi_available_profiles = u32_at b 12,
    qi_available_features = u32_at b 16, qi_maximum_controllers = u32_at b 20,
    qi_counters = \<lparr>fc_haptic_evicted = b ! 24, fc_settings_evicted = b ! 25,
      fc_transitions_dropped = b ! 26, fc_unknown_commands = b ! 27\<rparr>\<rparr>"

text \<open>An event as it arrives: the type is whatever number the driver sent.\<close>

record client_event =
  ce_header :: request_header
  ce_controller_id :: u32
  ce_type :: u16
  ce_payload_size :: u16
  ce_payload :: "byte list"

definition parse_event :: "byte list \<Rightarrow> client_event"
  where "parse_event b = \<lparr>ce_header = header_at b, ce_controller_id = u32_at b 8,
    ce_type = read_u16 b 12, ce_payload_size = read_u16 b 14, ce_payload = take 32 (drop 16 b)\<rparr>"

definition client_payload_size :: "u16 \<Rightarrow> u16"
  where "client_payload_size t = (case feedback_type_of t of
     None \<Rightarrow> k_feedback_payload_unknown | Some t \<Rightarrow> feedback_payload_size t)"

definition raw_event :: "feedback_event \<Rightarrow> client_event"
  where "raw_event e = \<lparr>ce_header = fe_header e, ce_controller_id = fe_controller_id e,
    ce_type = feedback_code (fe_type e), ce_payload_size = fe_payload_size e, ce_payload = fe_payload e\<rparr>"

section \<open>The connection\<close>

text \<open>What Windows answers: \<open>w_control\<close> is \<^theory_text>\<open>DeviceIoControl\<close> on a handle, with
  the error or the bytes it returned; \<open>w_close\<close> is \<^theory_text>\<open>CloseHandle\<close>. The null handle
  stands for \<^theory_text>\<open>INVALID_HANDLE_VALUE\<close>.\<close>

record 'd windows =
  w_control :: "handle \<Rightarrow> u32 \<Rightarrow> byte list \<Rightarrow> nat \<Rightarrow> 'd \<Rightarrow> (win32 + byte list) \<times> 'd"
  w_close :: "handle \<Rightarrow> 'd \<Rightarrow> 'd"

record client =
  cl_handle :: handle
  cl_info :: query_info_response

definition zero_query :: query_info_response
  where "zero_query = \<lparr>qi_header = zero_header, qi_minimum_version = 0, qi_maximum_version = 0,
    qi_available_profiles = 0, qi_available_features = 0, qi_maximum_controllers = 0,
    qi_counters = zero_counters\<rparr>"

definition new_client :: client
  where "new_client = \<lparr>cl_handle = null_handle, cl_info = zero_query\<rparr>"

definition connected :: "client \<Rightarrow> bool"
  where "connected cl \<longleftrightarrow> cl_handle cl \<noteq> null_handle"

definition initialize_header :: "u32 \<Rightarrow> request_header"
  where "initialize_header sz = \<lparr>rh_size = sz, rh_version = k_protocol_version, rh_reserved = 0\<rparr>"

definition client_close :: "'d windows \<Rightarrow> client \<Rightarrow> 'd \<Rightarrow> client \<times> 'd"
  where "client_close w cl d =
    (new_client, if connected cl then w_close w (cl_handle cl) d else d)"

definition issue :: "'d windows \<Rightarrow> client \<Rightarrow> u32 \<Rightarrow> byte list \<Rightarrow> nat \<Rightarrow> 'd \<Rightarrow> (win32 \<times> byte list) \<times> 'd"
  where "issue w cl code input output_size d =
    (if \<not> connected cl then ((error_invalid_handle, []), d)
     else case w_control w (cl_handle cl) code input output_size d of
        (Inl e, d) \<Rightarrow> ((if e = error_invalid_user_buffer then error_revision_mismatch else e, []), d)
      | (Inr out, d) \<Rightarrow> ((error_success, out), d))"

text \<open>A call that only wants the status.\<close>

definition issue_plain :: "'d windows \<Rightarrow> client \<Rightarrow> u32 \<Rightarrow> byte list \<Rightarrow> 'd \<Rightarrow> win32 \<times> 'd"
  where "issue_plain w cl code input d = (case issue w cl code input 0 d of ((e, _), d) \<Rightarrow> (e, d))"

definition query_info :: "'d windows \<Rightarrow> client \<Rightarrow> 'd \<Rightarrow> win32 \<times> client \<times> 'd"
  where "query_info w cl d =
    (case issue w cl (ioctl_code Ioctl_Query_Info) (header_bytes (initialize_header 8)) 28 d of
       ((status, out), d) \<Rightarrow>
         if status \<noteq> error_success then (status, cl, d)
         else
           let q = parse_query out
           in if length out \<noteq> 28 \<or> \<not> valid_header 28 (length out) (qi_header q) \<or>
                qi_minimum_version q > k_protocol_version \<or> qi_maximum_version q < k_protocol_version \<or>
                qi_maximum_controllers q = 0 \<or> qi_maximum_controllers q > of_nat k_max_controllers \<or>
                qi_counters q \<noteq> zero_counters
              then (error_revision_mismatch, cl, d)
              else (error_success, cl\<lparr>cl_info := q\<rparr>, d))"

text \<open>The loop over the present interfaces: each is the error of its path or of
  \<^theory_text>\<open>CreateFile\<close>, or the handle that was opened. \<open>stop\<close> is the error that ends the
  enumeration.\<close>

fun connect_loop :: "'d windows \<Rightarrow> (win32 + handle) list \<Rightarrow> win32 \<Rightarrow> win32 \<Rightarrow> client \<Rightarrow> 'd \<Rightarrow>
    win32 \<times> client \<times> 'd"
  where
    "connect_loop w [] stop last_error cl d =
      (if stop \<noteq> error_no_more_items then stop else last_error, cl, d)"
  | "connect_loop w (Inl e # rest) stop last_error cl d = connect_loop w rest stop e cl d"
  | "connect_loop w (Inr h # rest) stop last_error cl d =
      (case query_info w (cl\<lparr>cl_handle := h\<rparr>) d of (handshake, cl, d) \<Rightarrow>
         if handshake = error_success then (error_success, cl, d)
         else case client_close w cl d of (cl, d) \<Rightarrow> connect_loop w rest stop handshake cl d)"

definition connect :: "'d windows \<Rightarrow> win32 option \<Rightarrow> (win32 + handle) list \<Rightarrow> win32 \<Rightarrow> client \<Rightarrow> 'd \<Rightarrow>
    win32 \<times> client \<times> 'd"
  where "connect w devices_error interfaces stop cl d =
    (case client_close w cl d of (cl, d) \<Rightarrow>
       case devices_error of Some e \<Rightarrow> (e, cl, d)
       | None \<Rightarrow> connect_loop w interfaces stop error_not_found cl d)"

section \<open>Requests\<close>

definition client_create :: "'d windows \<Rightarrow> client \<Rightarrow> u32 \<Rightarrow> u16 \<Rightarrow> 'd \<Rightarrow> win32 \<times> 'd"
  where "client_create w cl controller_id requested_profile d =
    (if \<not> connected cl then (error_invalid_handle, d)
     else if controller_id \<ge> qi_maximum_controllers (cl_info cl) then (error_invalid_parameter, d)
     else if qi_available_profiles (cl_info cl) AND profile_bit requested_profile = 0
     then (error_not_supported, d)
     else issue_plain w cl (ioctl_code Ioctl_Create_Controller)
       (create_bytes \<lparr>cc_header = initialize_header 16, cc_controller_id = controller_id,
         cc_profile = requested_profile, cc_reserved = 0\<rparr>) d)"

definition id_request :: "u32 \<Rightarrow> controller_id_request"
  where "id_request controller_id = \<lparr>ci_header = initialize_header 12, ci_controller_id = controller_id\<rparr>"

definition client_destroy :: "'d windows \<Rightarrow> client \<Rightarrow> u32 \<Rightarrow> 'd \<Rightarrow> win32 \<times> 'd"
  where "client_destroy w cl controller_id d =
    (if \<not> connected cl then (error_invalid_handle, d)
     else if controller_id \<ge> qi_maximum_controllers (cl_info cl) then (error_invalid_parameter, d)
     else issue_plain w cl (ioctl_code Ioctl_Destroy_Controller)
       (controller_id_bytes (id_request controller_id)) d)"

text \<open>The header a submission must carry.\<close>

definition submit_header_ok :: "u32 \<Rightarrow> request_header \<Rightarrow> bool"
  where "submit_header_ok sz h \<longleftrightarrow> rh_size h = sz \<and> rh_version h = k_protocol_version \<and> rh_reserved h = 0"

definition client_submit_input :: "'d windows \<Rightarrow> client \<Rightarrow> input_state_request \<Rightarrow> 'd \<Rightarrow> win32 \<times> 'd"
  where "client_submit_input w cl r d =
    (if \<not> submit_header_ok 28 (is_header r) \<or> is_reserved r \<noteq> 0 then (error_invalid_parameter, d)
     else issue_plain w cl (ioctl_code Ioctl_Submit_Input_State) (input_bytes r) d)"

definition client_submit_touch :: "'d windows \<Rightarrow> client \<Rightarrow> touch_state_request \<Rightarrow> 'd \<Rightarrow> win32 \<times> 'd"
  where "client_submit_touch w cl r d =
    (if \<not> submit_header_ok 22 (ts_header r) \<or> ts_reserved r \<noteq> 0 then (error_invalid_parameter, d)
     else issue_plain w cl (ioctl_code Ioctl_Submit_Touch_State) (touch_bytes r) d)"

definition client_submit_motion :: "'d windows \<Rightarrow> client \<Rightarrow> motion_state_request \<Rightarrow> 'd \<Rightarrow> win32 \<times> 'd"
  where "client_submit_motion w cl r d =
    (if \<not> submit_header_ok 28 (ms_header r) \<or> \<not> list_all (\<lambda>b. b = 0) (ms_reserved0 r)
     then (error_invalid_parameter, d)
     else issue_plain w cl (ioctl_code Ioctl_Submit_Motion_State) (motion_bytes r) d)"

definition client_submit_battery :: "'d windows \<Rightarrow> client \<Rightarrow> battery_state_request \<Rightarrow> 'd \<Rightarrow> win32 \<times> 'd"
  where "client_submit_battery w cl r d =
    (if \<not> submit_header_ok 16 (bs_header r) \<or> bs_reserved r \<noteq> 0 then (error_invalid_parameter, d)
     else issue_plain w cl (ioctl_code Ioctl_Submit_Battery_State) (battery_bytes r) d)"

definition client_poll :: "'d windows \<Rightarrow> client \<Rightarrow> u32 \<Rightarrow> 'd \<Rightarrow> (win32 \<times> client_event option) \<times> 'd"
  where "client_poll w cl controller_id d =
    (case issue w cl (ioctl_code Ioctl_Poll_Feedback) (controller_id_bytes (id_request controller_id)) 48 d of
       ((status, out), d) \<Rightarrow>
         if status \<noteq> error_success then ((status, None), d)
         else
           let e = parse_event out
           in if length out \<noteq> 48 \<or> \<not> valid_header 48 (length out) (ce_header e) \<or>
                ce_controller_id e \<noteq> controller_id \<or> ce_payload_size e > 32 \<or>
                ce_payload_size e \<noteq> client_payload_size (ce_type e)
              then ((error_invalid_data, None), d)
              else ((error_success, Some e), d))"

definition client_counters :: "'d windows \<Rightarrow> client \<Rightarrow> u32 \<Rightarrow> 'd \<Rightarrow> (win32 \<times> feedback_counters option) \<times> 'd"
  where "client_counters w cl controller_id d =
    (if \<not> connected cl then ((error_invalid_handle, None), d)
     else if controller_id \<ge> qi_maximum_controllers (cl_info cl) then ((error_invalid_parameter, None), d)
     else case issue w cl (ioctl_code Ioctl_Query_Info) (controller_id_bytes (id_request controller_id)) 28 d of
       ((status, out), d) \<Rightarrow>
         if status \<noteq> error_success then ((status, None), d)
         else
           let q = parse_query out
           in if length out \<noteq> 28 \<or> \<not> valid_header 28 (length out) (qi_header q)
              then ((error_invalid_data, None), d)
              else ((error_success, Some (qi_counters q)), d))"

record steam_controller_attributes =
  ca_flags :: u32
  ca_firmware_build_time :: u32
  ca_bootloader_build_time :: u32
  ca_board_revision :: u32
  ca_capabilities :: u32
  ca_build_id :: "byte list"
  ca_unit_serial :: "byte list"
  ca_board_serial :: "byte list"

definition attributes_request :: "u32 \<Rightarrow> steam_controller_attributes \<Rightarrow> steam_controller_attributes_request"
  where "attributes_request controller_id a = \<lparr>sa_header = initialize_header 80,
    sa_controller_id = controller_id, sa_flags = ca_flags a,
    sa_firmware_build_time = ca_firmware_build_time a,
    sa_bootloader_build_time = ca_bootloader_build_time a, sa_board_revision = ca_board_revision a,
    sa_capabilities = ca_capabilities a, sa_build_id = ca_build_id a, sa_unit_serial = ca_unit_serial a,
    sa_board_serial = ca_board_serial a\<rparr>"

definition client_set_attributes ::
  "'d windows \<Rightarrow> client \<Rightarrow> u32 \<Rightarrow> steam_controller_attributes \<Rightarrow> 'd \<Rightarrow> win32 \<times> 'd"
  where "client_set_attributes w cl controller_id a d =
    (if \<not> connected cl then (error_invalid_handle, d)
     else if controller_id \<ge> qi_maximum_controllers (cl_info cl) then (error_invalid_parameter, d)
     else case issue_plain w cl (ioctl_code Ioctl_Set_Steam_Attributes)
          (attributes_bytes (attributes_request controller_id a)) d of
        (status, d) \<Rightarrow> (if status = error_invalid_function then error_revision_mismatch else status, d))"

section \<open>The two sides of the wire\<close>

lemma layout_bytes:
  "le32_bytes w = [ucast w, ucast (drop_bit 8 w), ucast (drop_bit 16 w), ucast (drop_bit 24 w)]"
  "le16_bytes v = [lo8 v, hi8 v]"
  by (simp_all add: le32_bytes_def le16_bytes_def)

lemmas struct_bytes = header_bytes_def i32_bytes_def i16_bytes_def layout_bytes counters_bytes_def

lemma length_structs [simp]:
  "length (header_bytes h) = 8" "length (create_bytes c) = 16" "length (controller_id_bytes i) = 12"
  "length (input_bytes s) = 28" "length (touch_bytes t) = 22" "length (battery_bytes b) = 16"
  "length (query_bytes q) = 28"
  by (simp_all add: header_bytes_def create_bytes_def controller_id_bytes_def input_bytes_def i16_bytes_def
      touch_bytes_def battery_bytes_def query_bytes_def counters_bytes_def)

lemma header_at_bytes [simp]: "header_at (header_bytes h @ b) = h" "header_at (header_bytes h) = h"
  by (simp_all add: header_at_def struct_bytes u32_at_def read_u16_def)

lemma sint_u16_of_int [simp]: "i16_ok v \<Longrightarrow> sint (u16_of_int v) = v"
  by (simp add: i16_ok_def u16_of_int_def signed_of_int signed_take_bit_int_eq_self)

definition i32_ok :: "int \<Rightarrow> bool"
  where "i32_ok v \<longleftrightarrow> - (2 ^ 31) \<le> v \<and> v < 2 ^ 31"

lemma sint_word32 [simp]: "i32_ok v \<Longrightarrow> sint (word_of_int v :: u32) = v"
  by (simp add: i32_ok_def signed_of_int signed_take_bit_int_eq_self)

text \<open>A request is a value of its struct: the signed fields and the arrays are in range.\<close>

definition input_in_range :: "input_state_request \<Rightarrow> bool"
  where "input_in_range r \<longleftrightarrow> i16_ok (is_left_x r) \<and> i16_ok (is_left_y r) \<and> i16_ok (is_right_x r) \<and>
    i16_ok (is_right_y r)"

definition motion_in_range :: "motion_state_request \<Rightarrow> bool"
  where "motion_in_range r \<longleftrightarrow> length (ms_reserved0 r) = 3 \<and> i32_ok (ms_x_milli r) \<and>
    i32_ok (ms_y_milli r) \<and> i32_ok (ms_z_milli r)"

definition attributes_in_range :: "steam_controller_attributes_request \<Rightarrow> bool"
  where "attributes_in_range r \<longleftrightarrow> length (sa_build_id r) = 16 \<and> length (sa_unit_serial r) = 16 \<and>
    length (sa_board_serial r) = 16"

lemma parse_create_bytes [simp]: "parse_create (create_bytes r) = r"
  by (simp add: parse_create_def create_bytes_def header_at_def struct_bytes u32_at_def read_u16_def)

lemma parse_controller_id_bytes [simp]: "parse_controller_id (controller_id_bytes r) = r"
  by (simp add: parse_controller_id_def controller_id_bytes_def header_at_def struct_bytes u32_at_def
      read_u16_def)

lemma parse_input_bytes [simp]: "input_in_range r \<Longrightarrow> parse_input (input_bytes r) = r"
  by (simp add: parse_input_def input_bytes_def header_at_def struct_bytes u32_at_def read_u16_def
      input_in_range_def)

lemma parse_touch_bytes [simp]: "parse_touch (touch_bytes r) = r"
  by (simp add: parse_touch_def touch_bytes_def header_at_def struct_bytes u32_at_def read_u16_def)

lemma parse_battery_bytes [simp]: "parse_battery (battery_bytes r) = r"
  by (simp add: parse_battery_def battery_bytes_def header_at_def struct_bytes u32_at_def read_u16_def)

lemma parse_motion_bytes [simp]: "motion_in_range r \<Longrightarrow> parse_motion (motion_bytes r) = r"
  by (cases "ms_reserved0 r"; cases "tl (ms_reserved0 r)"; cases "tl (tl (ms_reserved0 r))")
    (auto simp: parse_motion_def motion_bytes_def header_at_def struct_bytes u32_at_def read_u16_def
      motion_in_range_def)

lemma length_motion_bytes [simp]: "motion_in_range r \<Longrightarrow> length (motion_bytes r) = 28"
  by (simp add: motion_bytes_def motion_in_range_def i32_bytes_def)

lemma parse_query_bytes [simp]: "parse_query (query_bytes q) = q"
  by (simp add: parse_query_def query_bytes_def header_at_def struct_bytes u32_at_def read_u16_def)

lemma parse_attributes_bytes [simp]:
  assumes "attributes_in_range r"
  shows "parse_attributes (attributes_bytes r) = r" "length (attributes_bytes r) = 80"
proof -
  let ?h = "header_bytes (sa_header r) @ le32_bytes (sa_controller_id r) @ le32_bytes (sa_flags r) @
    le32_bytes (sa_firmware_build_time r) @ le32_bytes (sa_bootloader_build_time r) @
    le32_bytes (sa_board_revision r) @ le32_bytes (sa_capabilities r)"
  have b: "attributes_bytes r = ?h @ sa_build_id r @ sa_unit_serial r @ sa_board_serial r"
    by (simp add: attributes_bytes_def)
  have h: "length ?h = 32" by simp
  have ids: "take 16 (drop 32 (attributes_bytes r)) = sa_build_id r"
    "take 16 (drop 48 (attributes_bytes r)) = sa_unit_serial r"
    "take 16 (drop 64 (attributes_bytes r)) = sa_board_serial r"
    using assms unfolding b by (simp_all add: attributes_in_range_def)
  show "length (attributes_bytes r) = 80" using assms unfolding b by (simp add: attributes_in_range_def)
  show "parse_attributes (attributes_bytes r) = r"
    unfolding parse_attributes_def ids
    by (simp add: attributes_bytes_def header_at_def struct_bytes u32_at_def read_u16_def)
qed

lemma parse_event_bytes:
  "length (fe_payload e) = 32 \<Longrightarrow> parse_event (event_bytes e) = raw_event e \<and> length (event_bytes e) = 48"
  by (simp add: parse_event_def event_bytes_def raw_event_def header_at_def struct_bytes u32_at_def
      read_u16_def)

section \<open>The client on this driver\<close>

text \<open>The buffered control path: Windows hands the input bytes to the driver and, when the request
  completes successfully, copies the reported number of output bytes back; otherwise it maps the
  status to an error by a table of its own, \<open>conv\<close>.\<close>

fun output_bytes :: "ioctl_output \<Rightarrow> byte list"
  where
    "output_bytes Out_None = []"
  | "output_bytes (Out_Query q) = query_bytes q"
  | "output_bytes (Out_Event e) = event_bytes e"

definition driver_windows :: "os_env \<Rightarrow> (ntstatus \<Rightarrow> win32) \<Rightarrow> device_context windows"
  where "driver_windows os conv = \<lparr>
    w_control = (\<lambda>h code b n ctx. case evt_io_device_control os h code b n ctx of
      ((status, information, out), ctx) \<Rightarrow>
        (if nt_success status then Inr (take information (output_bytes out)) else Inl (conv status), ctx)),
    w_close = evt_file_close\<rparr>"

text \<open>The error a caller sees for a status.\<close>

definition reported :: "(ntstatus \<Rightarrow> win32) \<Rightarrow> ntstatus \<Rightarrow> win32"
  where "reported conv status = (if nt_success status then error_success
    else if conv status = error_invalid_user_buffer then error_revision_mismatch else conv status)"

text \<open>Windows maps no failure to success.\<close>

definition error_table :: "(ntstatus \<Rightarrow> win32) \<Rightarrow> bool"
  where "error_table conv \<longleftrightarrow> (\<forall>status. \<not> nt_success status \<longrightarrow> conv status \<noteq> error_success)"

fun answer :: "(ntstatus \<Rightarrow> win32) \<Rightarrow> ntstatus \<times> device_context \<Rightarrow> win32 \<times> device_context"
  where "answer conv (status, ctx) = (reported conv status, ctx)"

lemma issue_driver:
  assumes "connected cl" "c \<notin> {Ioctl_Query_Info, Ioctl_Poll_Feedback}"
  shows "issue_plain (driver_windows os conv) cl (ioctl_code c) b ctx =
    answer conv (plain_request os (cl_handle cl) c b ctx)"
proof -
  obtain st ctx' where r: "plain_request os (cl_handle cl) c b ctx = (st, ctx')" by fastforce
  then have "evt_io_device_control os (cl_handle cl) (ioctl_code c) b 0 ctx = ((st, 0, Out_None), ctx')"
    using assms by (cases c) (simp_all del: ioctl_code.simps add: evt_io_device_control_def connected_def)
  then show ?thesis
    using assms(1) r by (simp add: issue_plain_def issue_def driver_windows_def reported_def)
qed

lemma packed_request:
  "length b = sz \<Longrightarrow> 8 \<le> sz \<Longrightarrow> submit_header_ok (of_nat sz) (header_at b) \<Longrightarrow> sz < 100 \<Longrightarrow>
    retrieve_request sz b = Status_Success"
  by (simp add: retrieve_request_def retrieve_input_def valid_header_def submit_header_ok_def nt_success_def
      unat_of_nat)

lemma packed_headers [simp]:
  "header_at (create_bytes c) = cc_header c" "header_at (controller_id_bytes i) = ci_header i"
  "header_at (input_bytes s) = is_header s" "header_at (touch_bytes t) = ts_header t"
  "header_at (motion_bytes m) = ms_header m" "header_at (battery_bytes b) = bs_header b"
  "header_at (attributes_bytes a) = sa_header a" "header_at (query_bytes q) = qi_header q"
  "header_at (event_bytes e) = fe_header e"
  by (simp_all add: create_bytes_def controller_id_bytes_def input_bytes_def touch_bytes_def motion_bytes_def
      battery_bytes_def attributes_bytes_def query_bytes_def event_bytes_def)

lemma initialized [simp]: "submit_header_ok sz (initialize_header sz)"
  by (simp add: submit_header_ok_def initialize_header_def)

text \<open>Each request, once packed, passes the driver's check of its header and size.\<close>

lemma packed_ok [simp]:
  "submit_header_ok 16 (cc_header c) \<Longrightarrow> retrieve_request 16 (create_bytes c) = Status_Success"
  "submit_header_ok 12 (ci_header i) \<Longrightarrow> retrieve_request 12 (controller_id_bytes i) = Status_Success"
  "submit_header_ok 28 (is_header s) \<Longrightarrow> retrieve_request 28 (input_bytes s) = Status_Success"
  "submit_header_ok 22 (ts_header t) \<Longrightarrow> retrieve_request 22 (touch_bytes t) = Status_Success"
  "submit_header_ok 28 (ms_header m) \<Longrightarrow> motion_in_range m \<Longrightarrow>
    retrieve_request 28 (motion_bytes m) = Status_Success"
  "submit_header_ok 16 (bs_header b) \<Longrightarrow> retrieve_request 16 (battery_bytes b) = Status_Success"
  "submit_header_ok 80 (sa_header a) \<Longrightarrow> attributes_in_range a \<Longrightarrow>
    retrieve_request 80 (attributes_bytes a) = Status_Success"
  by (rule packed_request; simp)+

section \<open>Properties\<close>


definition info_ok :: "query_info_response \<Rightarrow> bool"
  where "info_ok q \<longleftrightarrow> qi_minimum_version q \<le> k_protocol_version \<and>
    k_protocol_version \<le> qi_maximum_version q \<and> 0 < qi_maximum_controllers q \<and>
    qi_maximum_controllers q \<le> of_nat k_max_controllers"

text \<open>An error is not success, an opened handle is not the invalid one.\<close>

fun interface_ok :: "win32 + handle \<Rightarrow> bool"
  where
    "interface_ok (Inl e) \<longleftrightarrow> e \<noteq> error_success"
  | "interface_ok (Inr h) \<longleftrightarrow> h \<noteq> null_handle"

definition connection_ok :: "win32 \<Rightarrow> client \<Rightarrow> bool"
  where "connection_ok e cl \<longleftrightarrow> (if e = error_success then connected cl \<and> info_ok (cl_info cl) else cl = new_client)"

lemma query_info_ok:
  "query_info w cl d = (e, cl', d') \<Longrightarrow> cl_handle cl' = cl_handle cl \<and>
    (e = error_success \<longrightarrow> info_ok (cl_info cl'))"
  by (auto simp: query_info_def info_ok_def Let_def win32_errors word_gt_0 not_less split: prod.splits if_splits)

lemma connect_loop_ok:
  "list_all interface_ok is \<Longrightarrow> stop \<noteq> error_success \<Longrightarrow> last_error \<noteq> error_success \<Longrightarrow>
    connect_loop w is stop last_error new_client d = (e, cl, d') \<Longrightarrow> connection_ok e cl"
proof (induction "is" arbitrary: last_error d)
  case Nil
  then show ?case by (auto simp: connection_ok_def split: if_splits)
next
  case (Cons i "is")
  show ?case
  proof (cases i)
    case (Inl e1)
    then show ?thesis using Cons.IH [of e1 d] Cons.prems by simp
  next
    case (Inr h)
    obtain e1 cl1 d1 where q: "query_info w (new_client\<lparr>cl_handle := h\<rparr>) d = (e1, cl1, d1)"
      by (metis prod_cases3)
    from query_info_ok [OF q] have c: "connected cl1" "e1 = error_success \<Longrightarrow> info_ok (cl_info cl1)"
      using Cons.prems(1) Inr by (simp_all add: connected_def)
    show ?thesis
    proof (cases "e1 = error_success")
      case True
      then show ?thesis using Cons.prems q Inr c by (simp add: connection_ok_def)
    next
      case False
      then show ?thesis
        using Cons.IH [OF _ Cons.prems(2) False, of "w_close w (cl_handle cl1) d1"] Cons.prems q Inr c(1)
        by (simp add: client_close_def)
    qed
  qed
qed

lemma query_driver:
  assumes "h \<noteq> null_handle"
  shows "query_info (driver_windows os conv) (cl\<lparr>cl_handle := h\<rparr>) ctx =
    (error_success, \<lparr>cl_handle = h, cl_info = fill_query_info\<rparr>, ctx)"
proof -
  have "evt_io_device_control os h (ioctl_code Ioctl_Query_Info) (header_bytes (initialize_header 8)) 28 ctx =
      ((Status_Success, 28, Out_Query fill_query_info), ctx)"
    using assms by (simp del: ioctl_code.simps add: evt_io_device_control_def control_query_def
        retrieve_input_def nt_success_def valid_header_def initialize_header_def Let_def)
  then have i: "issue (driver_windows os conv) (cl\<lparr>cl_handle := h\<rparr>) (ioctl_code Ioctl_Query_Info)
      (header_bytes (initialize_header 8)) 28 ctx = ((error_success, query_bytes fill_query_info), ctx)"
    using assms by (simp add: issue_def connected_def driver_windows_def nt_success_def)
  show ?thesis
    using assms unfolding query_info_def i
    by (simp add: valid_header_def fill_query_info_def k_max_controllers_def k_protocol_version_def)
qed

text \<open>A connection completes exactly against a driver that speaks its protocol, and
  whatever a device answers, it is never half open: afterwards the client either holds the handle
  of an interface whose answer names this protocol version and between one and sixteen controllers, and the
  call succeeded, or it holds nothing; the errors Windows gives are not success. Against this
  driver the first interface that opens succeeds, with every profile of the driver on offer.\<close>

theorem client_connects:
  assumes "list_all interface_ok interfaces" "stop \<noteq> error_success" "devices \<noteq> Some error_success"
  shows "(connect w devices interfaces stop cl d = (e, cl', d') \<longrightarrow> connection_ok e cl') \<and>
    (interfaces = map Inl errors @ Inr h # rest \<longrightarrow>
      connect (driver_windows os conv) None interfaces stop new_client ctx =
        (error_success, \<lparr>cl_handle = h, cl_info = fill_query_info\<rparr>, ctx))"
proof (intro conjI impI)
  assume c: "connect w devices interfaces stop cl d = (e, cl', d')"
  show "connection_ok e cl'"
  proof (cases devices)
    case None
    then obtain d1 where "connect_loop w interfaces stop error_not_found new_client d1 = (e, cl', d')"
      using c by (simp add: connect_def client_close_def)
    then show ?thesis by (rule connect_loop_ok [OF assms(1,2), rotated]) (simp add: win32_errors)
  next
    case (Some err)
    then show ?thesis using c assms(3) by (auto simp: connect_def client_close_def connection_ok_def)
  qed
next
  assume is_def: "interfaces = map Inl errors @ Inr h # rest"
  then have "h \<noteq> null_handle" using assms(1) by simp
  then have "connect_loop (driver_windows os conv) (map Inl errors @ Inr h # rest) stop last_error new_client ctx =
      (error_success, \<lparr>cl_handle = h, cl_info = fill_query_info\<rparr>, ctx)" for last_error
    by (induction errors arbitrary: last_error) (simp_all add: query_driver)
  then show "connect (driver_windows os conv) None interfaces stop new_client ctx =
      (error_success, \<lparr>cl_handle = h, cl_info = fill_query_info\<rparr>, ctx)"
    using is_def by (simp add: connect_def client_close_def connected_def new_client_def)
qed

text \<open>The demo connection: a table of Windows, and the client that created the demo controller.\<close>

definition demo_conv :: "ntstatus \<Rightarrow> win32"
  where "demo_conv status = (case status of Status_Invalid_Buffer_Size \<Rightarrow> 1784
     | Status_No_More_Entries \<Rightarrow> 259 | Status_Access_Denied \<Rightarrow> 5 | _ \<Rightarrow> 31)"

definition demo_client :: client
  where "demo_client = \<lparr>cl_handle = 7, cl_info = fill_query_info\<rparr>"


lemma client_connects_witness:
  "connect (driver_windows demo_os demo_conv) None [Inl 5, Inr 7] error_no_more_items new_client demo =
    (error_success, demo_client, demo)"
  unfolding demo_client_def
  by (rule client_connects [of "[Inl 5, Inr 7]" error_no_more_items None _ _ _ _ _ _ "[5]" 7 "[]",
      THEN conjunct2, rule_format])
    (simp_all add: win32_errors)

lemma poll_status:
  "poll_feedback h r ctx = (st, e, ctx') \<Longrightarrow> (nt_success st \<longleftrightarrow> e \<noteq> None) \<and>
    (e = None \<or> (unat (ci_controller_id r) < k_max_controllers \<and>
      fst (poll_slot (slot_at (unat (ci_controller_id r)) ctx)) = e))"
  by (auto simp: poll_feedback_def inactive_controller_status_def nt_success_def Let_def
      split: if_splits prod.splits option.splits)

lemma payload_size_bound: "feedback_payload_size t \<le> 32"
  by (cases t) simp_all

lemma valid_event_accepted:
  assumes "event_valid cid e"
  shows "ce_header (raw_event e) = event_header" "ce_controller_id (raw_event e) = cid"
    "ce_payload_size (raw_event e) = client_payload_size (ce_type (raw_event e))"
    "ce_payload_size (raw_event e) \<le> 32" "length (fe_payload e) = 32"
  using assms
  using payload_size_bound
  by (auto simp: event_valid_def event_size_ok_def raw_event_def client_payload_size_def)

lemma driver_poll:
  assumes "h \<noteq> null_handle" "poll_feedback h (id_request cid) ctx = (st, e, ctx')"
  shows "evt_io_device_control os h (ioctl_code Ioctl_Poll_Feedback) (controller_id_bytes (id_request cid)) 48 ctx =
    ((st, if nt_success st then 48 else 0, case e of None \<Rightarrow> Out_None | Some e \<Rightarrow> Out_Event e), ctx')"
  using assms by (simp del: ioctl_code.simps add: evt_io_device_control_def control_poll_def Let_def
      id_request_def nt_success_def)

text \<open>Property C18. Feedback crosses the wire intact. On any device the driver can reach, polling a
  slot through the client returns exactly what the driver's poll returned: the same event, whole,
  with its payload, or the status as Windows maps it; the client's validation never discards an
  event this driver produced.\<close>

theorem client_polls_driver_events:
  fixes os :: os_env and conv :: "ntstatus \<Rightarrow> win32"
  assumes "driver_reachable ctx" "error_table conv" "connected cl" "i < k_max_controllers"
    "poll_feedback (cl_handle cl) (id_request (of_nat i)) ctx = (st, e, ctx')"
  shows "client_poll (driver_windows os conv) cl (of_nat i) ctx =
    ((reported conv st, map_option raw_event e), ctx')"
proof -
  have h: "cl_handle cl \<noteq> null_handle" using assms(3) by (simp add: connected_def)
  have i: "unat (of_nat i :: u32) = i" using assms(4) by (simp add: k_max_controllers_def unat_of_nat)
  note ps = poll_status [OF assms(5)]
  show ?thesis
  proof (cases e)
    case None
    then show ?thesis
      using ps assms(3) driver_poll [OF h assms(5), of os]
      using assms(2) by (auto simp: client_poll_def issue_def driver_windows_def reported_def win32_errors
          error_table_def)
  next
    case (Some v)
    have "event_valid (of_nat i) v"
      using poll_slot_wf(2) [OF reachable_slot_wf [OF assms(1,4)], of v] reachable_slot(4) [OF assms(1,4)]
        ps Some i by (simp add: id_request_def)
    note ok = valid_event_accepted [OF this]
    then show ?thesis
      using ps Some assms(3) driver_poll [OF h assms(5), of os] parse_event_bytes [OF ok(5)]
      by (simp add: client_poll_def issue_def driver_windows_def reported_def valid_header_def
          event_header_def Let_def)
  qed
qed

definition demo_rumble :: hid_transfer
  where "demo_rumble = \<lparr>xf_report_id = 3, xf_buffer = Some [3, 0xF, 0, 0, 50, 100, 0xFF, 0, 0]\<rparr>"

definition demo_fed :: device_context
  where "demo_fed = snd (evt_vhf_write_report demo_os (Some demo_rumble) 0 demo)"

lemma demo_fed_poll:
  "driver_reachable demo_fed"
  "\<exists>e ctx. poll_feedback 7 (id_request 0) demo_fed = (Status_Success, Some e, ctx) \<and> fe_type e = FB_Xbox_Rumble"
proof -
  show "driver_reachable demo_fed" unfolding demo_fed_def
    by (rule reach_host [OF demo_reachable]) (rule host_write, simp add: k_max_controllers_def)
  have d: "dc_powered demo" "\<not> dc_stopping demo" "cs_haptics (slot_at 0 demo) = empty_ring k_haptic_queue_capacity"
    "cs_settings (slot_at 0 demo) = empty_ring k_settings_queue_capacity"
    using demo_slot
    by (simp_all add: demo_start_is start_child_def Let_def nt_success_def adopt_child_def
      k_max_controllers_def name_child_def xbox_series_profile_def starting_slot_def reset_slot_def zero_slot_def empty_ring_def)
  show "\<exists>e ctx. poll_feedback 7 (id_request 0) demo_fed = (Status_Success, Some e, ctx) \<and> fe_type e = FB_Xbox_Rumble"
    using d demo_active
    by (simp add: demo_fed_def evt_vhf_write_report_def demo_rumble_def accepts_vhf_callbacks_def
        apply_xbox_output_def xbox_output_of_bytes_def decode_xbox_series_output_def id_request_def
        k_xbox_series_output_report_id_def poll_feedback_def poll_slot_def post_feedback_def ring_poll_def
        empty_ring_def is_owned_by_def encode_xbox_series_feedback_def make_event_def Let_def
        is_steam_controller_def is_playstation_def is_xbox_def k_max_controllers_def)
qed

lemma client_polls_driver_events_witness:
  "\<exists>e ctx. client_poll (driver_windows demo_os demo_conv) demo_client 0 demo_fed =
    ((error_success, Some e), ctx) \<and> ce_type e = 4"
proof -
  obtain e ctx where p: "poll_feedback 7 (id_request 0) demo_fed = (Status_Success, Some e, ctx)"
    and t: "fe_type e = FB_Xbox_Rumble" using demo_fed_poll(2) by blast
  have table: "error_table demo_conv"
    by (auto simp: error_table_def demo_conv_def win32_errors nt_success_def split: ntstatus.splits)
  have cl: "connected demo_client" "cl_handle demo_client = 7" by (simp_all add: demo_client_def connected_def)
  show ?thesis
    using client_polls_driver_events [OF demo_fed_poll(1) table cl(1), of 0 Status_Success "Some e" ctx demo_os]
      p t cl by (simp add: k_max_controllers_def reported_def nt_success_def raw_event_def)
qed

text \<open>Property C19. A client trusts no device. Whatever answers, an event that a poll hands to the caller has
  a header of this protocol with the full size, the slot that was asked for, a known type and a
  payload size that is its type's; otherwise the call fails and there is no event.\<close>

theorem client_poll_sound:
  assumes "client_poll w cl cid d = ((status, e), d')"
  shows "(e = None \<longrightarrow> status \<noteq> error_success) \<and>
    (\<forall>v. e = Some v \<longrightarrow> status = error_success \<and> ce_header v = event_header \<and> ce_controller_id v = cid \<and>
      length (ce_payload v) = 32 \<and>
      (\<exists>t. ce_type v = feedback_code t \<and> ce_payload_size v = feedback_payload_size t))"
proof -
  have code: "feedback_code t = c" if "feedback_type_of c = Some t" for c t
    using that by (auto simp: feedback_type_of_def find_Some_iff)
  have known: "\<exists>t. c = feedback_code t \<and> n = feedback_payload_size t"
    if "n = client_payload_size c" "n \<le> 32" for c n
    using that code by (fastforce simp: client_payload_size_def k_feedback_payload_unknown_def
        split: option.splits)
  have hd: "h = event_header" if "valid_header 48 48 h" for h
    using that by (cases h) (auto simp: valid_header_def event_header_def word_unat_eq_iff)
  show ?thesis
    using assms known hd
    by (auto simp: client_poll_def win32_errors Let_def not_less parse_event_def split: prod.splits if_splits)
qed

lemma client_poll_sound_witness:
  "client_poll \<lparr>w_control = (\<lambda>_ _ _ _ d. (Inr [], d)), w_close = (\<lambda>_ d. d)\<rparr> demo_client 0 () =
    ((error_invalid_data, None), ()) \<and> error_invalid_data \<noteq> error_success"
proof -
  have p: "client_poll \<lparr>w_control = (\<lambda>_ _ _ _ d. (Inr [], d)), w_close = (\<lambda>_ d. d)\<rparr> demo_client 0 () =
      ((error_invalid_data, None), ())"
    by (simp add: client_poll_def issue_def demo_client_def connected_def win32_errors Let_def)
  then show ?thesis using client_poll_sound [OF p] by simp
qed

end
