(* ===== verification/InstallDecision.thy ===== *)
theory InstallDecision
  imports Prelude
begin

text \<open>
  The pure decisions of the device-setup tool
  (\<^theory_text>\<open>tools/device_setup/install_decision.h\<close>): what the probe of the control interface found,
  why Windows did or did not select the staged package, and the exit code of an installation.
\<close>

record install_outcome =
  io_ready :: bool
  io_updated :: bool
  io_reboot_required :: bool
  io_cycle_succeeded :: bool
  io_cycle_reboot_required :: bool
  io_version_matches :: bool

definition live_reload_required :: "install_outcome \<Rightarrow> bool"
  where "live_reload_required o' \<longleftrightarrow> io_reboot_required o' \<or> io_updated o'"

definition attestation_due :: "install_outcome \<Rightarrow> bool"
  where "attestation_due o' =
    (if \<not> io_ready o' then False
     else \<not> live_reload_required o' \<or> (io_cycle_succeeded o' \<and> \<not> io_cycle_reboot_required o'))"

definition reload_verified :: "install_outcome \<Rightarrow> bool"
  where "reload_verified o' \<longleftrightarrow> attestation_due o' \<and> io_version_matches o'"

datatype probe_verdict = Probe_Absent | Probe_Denied | Probe_In_Use | Probe_Answered

definition classify_open :: "u32 \<Rightarrow> probe_verdict"
  where "classify_open open_error =
    (if open_error = 32 then Probe_In_Use else if open_error = 5 then Probe_Denied else Probe_Absent)"

definition interface_ready :: "probe_verdict \<Rightarrow> bool"
  where "interface_ready verdict \<longleftrightarrow> verdict = Probe_Answered \<or> verdict = Probe_In_Use"

fun probe_verdict_name :: "probe_verdict \<Rightarrow> string"
  where
    "probe_verdict_name Probe_Answered = ''answered''"
  | "probe_verdict_name Probe_In_Use = ''in_use''"
  | "probe_verdict_name Probe_Denied = ''denied''"
  | "probe_verdict_name Probe_Absent = ''absent''"

datatype driver_update_verdict = Update_Installed | Update_Declined | Update_Publisher_Not_Trusted
  | Update_Signature_Os_Mismatch | Update_Failed

definition classify_driver_update :: "bool \<Rightarrow> u32 \<Rightarrow> driver_update_verdict"
  where "classify_driver_update succeeded update_error =
    (if succeeded then Update_Installed
     else if update_error = 259 then Update_Declined
     else if update_error = 0xE0000242 \<or> update_error = 0xE0000243 then Update_Publisher_Not_Trusted
     else if update_error = 0xE0000244 then Update_Signature_Os_Mismatch
     else Update_Failed)"

definition k_exit_ok :: int
  where "k_exit_ok = 0"

definition k_exit_not_ready :: int
  where "k_exit_not_ready = 3"

definition k_exit_reboot :: int
  where "k_exit_reboot = 3010"

definition install_exit_code :: "install_outcome \<Rightarrow> int"
  where "install_exit_code o' =
    (if reload_verified o' then k_exit_ok
     else if io_reboot_required o' then k_exit_reboot else k_exit_not_ready)"

lemmas exit_codes = k_exit_ok_def k_exit_not_ready_def k_exit_reboot_def

lemma exit_ok_iff: "install_exit_code o' = k_exit_ok \<longleftrightarrow> reload_verified o'"
  by (simp add: install_exit_code_def exit_codes)

end
