(* ===== verification/DriverAdd.thy ===== *)
theory DriverAdd
  imports DriverLife
begin

text \<open>
  The birth of the device, \<^theory_text>\<open>evt_device_add\<close> of
  \<^theory_text>\<open>driver/src/driver.cpp\<close>: which of its objects it can do without, and that a
  device that was added starts where the driver's histories start.
\<close>

text \<open>What Windows answers to the calls, in the order they are made; the timers and the event
  by whether they could be created.\<close>

record add_host =
  ah_device :: ntstatus
  ah_pid_timer :: ntstatus
  ah_stop_event :: bool
  ah_high_resolution_timer :: bool
  ah_plain_timer :: bool
  ah_lifetime_gate :: ntstatus
  ah_state_lock :: ntstatus
  ah_target :: ntstatus
  ah_interface :: ntstatus
  ah_queue :: ntstatus

definition evt_device_add :: "add_host \<Rightarrow> ntstatus \<times> device_context option"
  where "evt_device_add host =
    (if \<not> nt_success (ah_device host) then (ah_device host, None)
     else
       let ctx = initial_context (nt_success (ah_pid_timer host)) (ah_stop_event host)
             (ah_high_resolution_timer host) (ah_plain_timer host)
       in if \<not> nt_success (ah_lifetime_gate host) then (ah_lifetime_gate host, None)
          else if \<not> nt_success (ah_state_lock host) then (ah_state_lock host, None)
          else if \<not> nt_success (ah_target host) then (ah_target host, None)
          else if \<not> nt_success (ah_interface host) then (ah_interface host, None)
          else (ah_queue host, if nt_success (ah_queue host) then Some ctx else None))"

text \<open>The device is added exactly if the calls it cannot do without succeed -- neither the effect
  clock nor the keep-alive timer is among them --, and then it is where every history of the
  driver begins.\<close>

lemma device_add_starts:
  "nt_success (fst (evt_device_add host)) \<longleftrightarrow>
    nt_success (ah_device host) \<and> nt_success (ah_lifetime_gate host) \<and> nt_success (ah_state_lock host) \<and>
    nt_success (ah_target host) \<and> nt_success (ah_interface host) \<and> nt_success (ah_queue host)"
  "snd (evt_device_add host) = Some ctx \<Longrightarrow> driver_reachable ctx \<and> dc_log ctx = []"
  by (auto simp: evt_device_add_def Let_def initial_context_def [symmetric] split: if_splits
      intro: driver_reachable.reach_start)
    (simp add: initial_context_def)

end
