(* ===== verification/KeyboardMouseNative.thy ===== *)
theory KeyboardMouseNative
  imports KeyboardMouse DriverState "HOL-Library.Multiset"
begin

text \<open>
  The transport of the keyboard and mouse endpoint
  (\<^theory_text>\<open>driver/src/keyboard_mouse_native.inc\<close>), as a step relation: any number of threads
  pump reports into the virtual HID framework, the framework calls back into the driver, and one
  thread at a time, the holder of \<^theory_text>\<open>lifetime_gate\<close>, opens the device or takes it down. A
  step is one section under \<^theory_text>\<open>rundown_lock\<close> and \<^theory_text>\<open>state_lock\<close>, or one call
  into the framework; between steps everything else may run. What is proved is the rundown protocol:
  no report is submitted to a deleted child or from storage that changed, no callback context is
  used after it was freed, and a teardown cannot wait for ever.
\<close>

section \<open>The slot\<close>

text \<open>A callback context, with the entries of the framework that are in it.\<close>

record km_callback =
  kx_generation :: u64
  kx_retired :: bool
  kx_entries :: nat

text \<open>The device flags, the slot, and what lives outside it: the allocated callback contexts, and
  the children of the framework with the context each was given.\<close>

record km_slot =
  kn_stopping :: bool
  kn_powered :: bool
  kn_cleanup :: "handle set"
  kn_vhf :: handle
  kn_callback :: "nat option"
  kn_generation :: u64
  kn_owner :: handle
  kn_state :: slot_state
  kn_core :: km_endpoint
  kn_transfer :: km_report
  kn_submit_owners :: nat
  kn_pump_active :: bool
  kn_rundown_stopping :: bool
  kn_contexts :: "nat \<Rightarrow> km_callback option"
  kn_children :: "handle \<Rightarrow> nat option"

definition on_context :: "nat \<Rightarrow> (km_callback \<Rightarrow> km_callback) \<Rightarrow> km_slot \<Rightarrow> km_slot"
  where "on_context c f s = s\<lparr>kn_contexts := (kn_contexts s)(c := map_option f (kn_contexts s c))\<rparr>"

definition retired :: "km_slot \<Rightarrow> nat option \<Rightarrow> bool"
  where "retired s expected = (case expected of None \<Rightarrow> False
     | Some c \<Rightarrow> (case kn_contexts s c of None \<Rightarrow> True | Some x \<Rightarrow> kx_retired x))"

definition next_generation :: "u64 \<Rightarrow> u64"
  where "next_generation g = (if g + 1 = 0 then 1 else g + 1)"

definition stop_admission :: "km_slot \<Rightarrow> km_slot"
  where "stop_admission s =
    (let s = s\<lparr>kn_generation := next_generation (kn_generation s)\<rparr>
     in if kn_state s = Slot_Empty then s
        else
          let s = (case kn_callback s of None \<Rightarrow> s | Some c \<Rightarrow> on_context c (\<lambda>x. x\<lparr>kx_retired := True\<rparr>) s)
          in s\<lparr>kn_rundown_stopping := True, kn_state := Slot_Stopping\<rparr>)"

definition reset_locked :: "km_slot \<Rightarrow> km_slot"
  where "reset_locked s = s\<lparr>kn_core := reset_after_device_deleted (kn_core s), kn_vhf := null_handle,
    kn_callback := None, kn_owner := null_handle, kn_state := Slot_Empty, kn_transfer := zero_km_report,
    kn_submit_owners := 0, kn_pump_active := False, kn_rundown_stopping := False\<rparr>"

section \<open>The pump\<close>

definition callback_is_current :: "km_slot \<Rightarrow> nat option \<Rightarrow> bool"
  where "callback_is_current s expected = (case expected of None \<Rightarrow> True
     | Some c \<Rightarrow> kn_callback s = Some c \<and>
         (case kn_contexts s c of None \<Rightarrow> False
          | Some x \<Rightarrow> kn_generation s = kx_generation x \<and> \<not> kx_retired x))"

definition can_pump :: "km_slot \<Rightarrow> nat option \<Rightarrow> bool"
  where "can_pump s expected \<longleftrightarrow> \<not> kn_rundown_stopping s \<and> \<not> kn_stopping s \<and> kn_powered s \<and>
    kn_vhf s \<noteq> null_handle \<and> callback_is_current s expected \<and>
    (kn_state s = Slot_Starting \<or> kn_state s = Slot_Active) \<and>
    (kn_owner s = null_handle \<or> kn_owner s \<notin> kn_cleanup s)"

text \<open>The first section: whether this thread becomes the pump.\<close>

definition pump_begin :: "nat option \<Rightarrow> km_slot \<Rightarrow> bool \<times> km_slot"
  where "pump_begin expected s =
    (if retired s expected then (False, s)
     else if \<not> can_pump s expected \<or> kn_pump_active s then (False, s)
     else (True, s\<lparr>kn_pump_active := True\<rparr>))"

text \<open>The section at the head of the loop: take a report, or disarm the pump.\<close>

definition pump_next :: "nat option \<Rightarrow> km_slot \<Rightarrow> (handle \<times> km_report) option \<times> km_slot"
  where "pump_next expected s =
    (case (if can_pump s expected then km_take (kn_core s) else (None, kn_core s)) of
       (None, core) \<Rightarrow> (None, s\<lparr>kn_core := core, kn_pump_active := False\<rparr>)
     | (Some r, core) \<Rightarrow> (Some (kn_vhf s, r), s\<lparr>kn_core := core, kn_transfer := r,
         kn_submit_owners := kn_submit_owners s + 1\<rparr>))"

text \<open>The section behind \<^theory_text>\<open>VhfReadReportSubmit\<close>: whether the pump goes on.\<close>

definition pump_submitted :: "nat option \<Rightarrow> bool \<Rightarrow> km_slot \<Rightarrow> bool \<times> km_slot"
  where "pump_submitted expected ok s =
    (if retired s expected then (False, s\<lparr>kn_submit_owners := kn_submit_owners s - 1, kn_pump_active := False\<rparr>)
     else
       let s = (if ok then s else s\<lparr>kn_core := submission_failed (kn_core s)\<rparr>);
           s = s\<lparr>kn_submit_owners := kn_submit_owners s - 1\<rparr>
       in (ok, if ok then s else s\<lparr>kn_pump_active := False\<rparr>))"

section \<open>The framework calls back\<close>

definition ready_section :: "nat \<Rightarrow> km_slot \<Rightarrow> bool \<times> km_slot"
  where "ready_section c s =
    (if retired s (Some c) then (False, s)
     else if \<not> kn_rundown_stopping s \<and> \<not> kn_stopping s \<and> kn_powered s \<and> kn_owner s \<noteq> null_handle \<and>
       callback_is_current s (Some c) \<and> kn_vhf s \<noteq> null_handle \<and>
       (kn_state s = Slot_Starting \<or> kn_state s = Slot_Active) \<and> kn_owner s \<notin> kn_cleanup s
     then (True, s\<lparr>kn_core := km_ready (kn_core s)\<rparr>) else (False, s))"

definition enter_context :: "nat \<Rightarrow> km_slot \<Rightarrow> km_slot"
  where "enter_context c = on_context c (\<lambda>x. x\<lparr>kx_entries := kx_entries x + 1\<rparr>)"

definition leave_context :: "nat \<Rightarrow> km_slot \<Rightarrow> km_slot"
  where "leave_context c = on_context c (\<lambda>x. x\<lparr>kx_entries := kx_entries x - 1\<rparr>)"

section \<open>Opening\<close>

definition open_live :: "handle \<Rightarrow> km_slot \<Rightarrow> bool"
  where "open_live owner s \<longleftrightarrow> \<not> kn_stopping s \<and> kn_powered s \<and> owner \<notin> kn_cleanup s"

definition open_available :: "handle \<Rightarrow> km_slot \<Rightarrow> bool"
  where "open_available owner s \<longleftrightarrow> kn_state s = Slot_Empty \<or> (kn_state s = Slot_Lost \<and> kn_owner s = owner)"

definition open_check :: "handle \<Rightarrow> km_slot \<Rightarrow> ntstatus"
  where "open_check owner s = (if \<not> open_live owner s then Status_Device_Not_Ready
     else if \<not> open_available owner s then Status_Device_Busy else Status_Success)"

text \<open>\<^theory_text>\<open>keyboard_mouse_status\<close>.\<close>

fun keyboard_mouse_status :: "km_result \<Rightarrow> ntstatus"
  where
    "keyboard_mouse_status Km_Accepted = Status_Success"
  | "keyboard_mouse_status Km_Unchanged = Status_Success"
  | "keyboard_mouse_status Km_Invalid = Status_Invalid_Parameter"
  | "keyboard_mouse_status Km_Not_Owner = Status_Access_Denied"
  | "keyboard_mouse_status Km_Not_Ready = Status_Device_Not_Ready"
  | "keyboard_mouse_status Km_Busy = Status_Device_Busy"
  | "keyboard_mouse_status Km_Unsupported = Status_Not_Supported"

definition k_primary_absolute_generation :: u32
  where "k_primary_absolute_generation = 1"

text \<open>The section under the gate that revalidates and claims the slot.\<close>

definition open_admit :: "handle \<Rightarrow> u64 \<Rightarrow> bool \<Rightarrow> km_slot \<Rightarrow> ntstatus \<times> km_slot"
  where "open_admit owner generation child_present s =
    (if \<not> open_live owner s then (Status_Device_Not_Ready, s)
     else if kn_generation s \<noteq> generation \<or> child_present \<or> \<not> open_available owner s
     then (Status_Device_Busy, s)
     else
       let s = s\<lparr>kn_rundown_stopping := False, kn_submit_owners := 0, kn_pump_active := False,
             kn_generation := next_generation (kn_generation s), kn_callback := None,
             kn_vhf := null_handle, kn_owner := owner, kn_state := Slot_Starting\<rparr>;
           (res, core) = km_open owner k_primary_absolute_generation (kn_core s);
           status = keyboard_mouse_status res
       in (status, if nt_success status then s\<lparr>kn_core := core\<rparr> else reset_locked (s\<lparr>kn_core := core\<rparr>)))"

text \<open>\<^theory_text>\<open>VhfCreate\<close> has returned a child: publish it; whether it may start.\<close>

definition open_publish :: "handle \<Rightarrow> handle \<Rightarrow> nat \<Rightarrow> km_slot \<Rightarrow> bool \<times> km_slot"
  where "open_publish owner h c s =
    (let s = s\<lparr>kn_contexts := (kn_contexts s)(c \<mapsto> \<lparr>kx_generation = kn_generation s, kx_retired = False,
               kx_entries = 0\<rparr>),
             kn_children := (kn_children s)(h \<mapsto> c), kn_callback := Some c, kn_vhf := h\<rparr>;
         may_start = open_live owner s
     in (may_start, if may_start then s else stop_admission s))"

definition open_adopt :: "handle \<Rightarrow> nat \<Rightarrow> bool \<Rightarrow> km_slot \<Rightarrow> bool \<times> km_slot"
  where "open_adopt owner c ok s =
    (let adopted = (ok \<and> open_live owner s \<and> kn_callback s = Some c \<and> kn_owner s = owner \<and>
           kn_state s = Slot_Starting \<and> ke_state (kn_core s) = Km_Active)
     in (adopted, if adopted then s\<lparr>kn_state := Slot_Active\<rparr> else stop_admission s))"

section \<open>Requests of the owner\<close>

datatype km_input = In_Key keyboard_request | In_Button button_request | In_Consumer consumer_request
  | In_Relative relative_request | In_Absolute absolute_request

fun submit_core :: "handle \<Rightarrow> km_input \<Rightarrow> km_endpoint \<Rightarrow> km_result \<times> km_endpoint"
  where
    "submit_core owner (In_Key r) = km_submit_key owner r"
  | "submit_core owner (In_Button r) = km_submit_button owner r"
  | "submit_core owner (In_Consumer r) = km_submit_consumer owner r"
  | "submit_core owner (In_Relative r) = km_submit_relative owner r"
  | "submit_core owner (In_Absolute r) = km_submit_absolute owner r"

definition submit_section :: "handle \<Rightarrow> km_input \<Rightarrow> km_slot \<Rightarrow> ntstatus \<times> km_slot"
  where "submit_section owner input s =
    (if kn_owner s \<noteq> owner then (Status_Access_Denied, s)
     else if kn_state s = Slot_Lost then (Status_Device_Removed, s)
     else if kn_powered s \<and> \<not> kn_stopping s \<and> owner \<notin> kn_cleanup s \<and> kn_state s = Slot_Active
     then case submit_core owner input (kn_core s) of
         (res, core) \<Rightarrow> (keyboard_mouse_status res, s\<lparr>kn_core := core\<rparr>)
     else (Status_Device_Not_Ready, s))"

text \<open>What a close does under the gate: fail, take the child down, or start the neutral drain.\<close>

datatype close_action = Close_Failed ntstatus | Close_Delete ntstatus | Close_Drain

definition close_section :: "handle \<Rightarrow> km_slot \<Rightarrow> close_action \<times> km_slot"
  where "close_section owner s =
    (if kn_owner s \<noteq> owner then (Close_Failed Status_Access_Denied, s)
     else if kn_state s = Slot_Lost then (Close_Failed Status_Device_Removed, s)
     else if kn_stopping s \<or> \<not> kn_powered s \<or> kn_state s \<noteq> Slot_Active \<or> owner \<in> kn_cleanup s
     then (Close_Failed Status_Device_Not_Ready, s)
     else if ke_state (kn_core s) = Km_Faulted \<or> ke_state (kn_core s) = Km_Drained
     then (Close_Delete (if ke_state (kn_core s) = Km_Drained then Status_Success else Status_Device_Not_Ready),
       stop_admission s)
     else case km_close owner (kn_core s) of
         (res, core) \<Rightarrow>
           (if nt_success (keyboard_mouse_status res) then Close_Drain
            else Close_Failed (keyboard_mouse_status res), s\<lparr>kn_core := core\<rparr>))"

definition abort_section :: "handle \<Rightarrow> km_slot \<Rightarrow> (ntstatus + unit) \<times> km_slot"
  where "abort_section owner s =
    (if kn_state s = Slot_Empty then (Inl Status_Success, s)
     else if kn_owner s \<noteq> owner then (Inl Status_Access_Denied, s)
     else (Inr (), stop_admission s))"

section \<open>Taking the child down\<close>

text \<open>The first section of \<^theory_text>\<open>delete_stopped_keyboard_mouse\<close> behind its wait: the child, the
  context and the owner to keep, taken out of the slot.\<close>

definition delete_take :: "bool \<Rightarrow> km_slot \<Rightarrow> (handle \<times> nat option \<times> handle) \<times> km_slot"
  where "delete_take retain s =
    (if kn_state s = Slot_Stopping
     then ((kn_vhf s, kn_callback s, if retain then kn_owner s else null_handle),
       s\<lparr>kn_vhf := null_handle, kn_core := submission_failed (kn_core s)\<rparr>)
     else ((null_handle, None, null_handle), s))"

definition delete_reset :: "handle \<Rightarrow> km_slot \<Rightarrow> km_slot"
  where "delete_reset lost s =
    (if kn_state s = Slot_Stopping \<and> kn_vhf s = null_handle
     then let s = reset_locked s
          in if lost \<noteq> null_handle \<and> lost \<notin> kn_cleanup s
             then s\<lparr>kn_owner := lost, kn_state := Slot_Lost\<rparr> else s
     else s)"

definition free_context :: "nat option \<Rightarrow> km_slot \<Rightarrow> km_slot"
  where "free_context c s = (case c of None \<Rightarrow> s | Some c \<Rightarrow> s\<lparr>kn_contexts := (kn_contexts s)(c := None)\<rparr>)"

section \<open>Threads and steps\<close>

text \<open>Where a thread is: in a readiness callback before its section, about to pump, holding the pump,
  inside \<^theory_text>\<open>VhfReadReportSubmit\<close>, about to leave its callback, or between the unlocked check
  of an open and the gate.\<close>

datatype km_thread = T_Ready nat | T_Pump "nat option" | T_Loop "nat option"
  | T_Submit "nat option" handle km_report | T_Leave nat | T_Open handle u64 bool

text \<open>Where the holder of the gate is: nobody holds it, an open claimed the slot or started the child,
  or a teardown waits for the pump, deletes the child, drains the callbacks.\<close>

datatype km_gate = G_Free | G_Claimed handle | G_Started handle nat
  | G_Wait bool | G_Delete handle "nat option" handle | G_Drain "nat option" handle

record km_system =
  ky_slot :: km_slot
  ky_threads :: "km_thread multiset"
  ky_gate :: km_gate

definition after_pump :: "nat option \<Rightarrow> km_thread multiset"
  where "after_pump expected = (case expected of None \<Rightarrow> {#} | Some c \<Rightarrow> {#T_Leave c#})"

inductive km_sys_step :: "km_system \<Rightarrow> km_system \<Rightarrow> bool"
  where
    ready_entry: "kn_children s h = Some c \<Longrightarrow>
      km_sys_step \<lparr>ky_slot = s, ky_threads = ts, ky_gate = g\<rparr>
        \<lparr>ky_slot = enter_context c s, ky_threads = add_mset (T_Ready c) ts, ky_gate = g\<rparr>"
  | ready_run: "ready_section c s = (admitted, s') \<Longrightarrow>
      km_sys_step \<lparr>ky_slot = s, ky_threads = add_mset (T_Ready c) ts, ky_gate = g\<rparr>
        \<lparr>ky_slot = s', ky_threads = add_mset (if admitted then T_Pump (Some c) else T_Leave c) ts, ky_gate = g\<rparr>"
  | ready_leave: "km_sys_step \<lparr>ky_slot = s, ky_threads = add_mset (T_Leave c) ts, ky_gate = g\<rparr>
        \<lparr>ky_slot = leave_context c s, ky_threads = ts, ky_gate = g\<rparr>"
  | pump_start: "pump_begin e s = (mine, s') \<Longrightarrow>
      km_sys_step \<lparr>ky_slot = s, ky_threads = add_mset (T_Pump e) ts, ky_gate = g\<rparr>
        \<lparr>ky_slot = s', ky_threads = (if mine then {#T_Loop e#} else after_pump e) + ts, ky_gate = g\<rparr>"
  | pump_take: "pump_next e s = (Some (h, r), s') \<Longrightarrow>
      km_sys_step \<lparr>ky_slot = s, ky_threads = add_mset (T_Loop e) ts, ky_gate = g\<rparr>
        \<lparr>ky_slot = s', ky_threads = add_mset (T_Submit e h r) ts, ky_gate = g\<rparr>"
  | pump_disarm: "pump_next e s = (None, s') \<Longrightarrow>
      km_sys_step \<lparr>ky_slot = s, ky_threads = add_mset (T_Loop e) ts, ky_gate = g\<rparr>
        \<lparr>ky_slot = s', ky_threads = after_pump e + ts, ky_gate = g\<rparr>"
  | pump_return: "pump_submitted e ok s = (again, s') \<Longrightarrow>
      km_sys_step \<lparr>ky_slot = s, ky_threads = add_mset (T_Submit e h r) ts, ky_gate = g\<rparr>
        \<lparr>ky_slot = s', ky_threads = (if again then {#T_Loop e#} else after_pump e) + ts, ky_gate = g\<rparr>"
  | open_start: "owner \<noteq> null_handle \<Longrightarrow> open_check owner s = Status_Success \<Longrightarrow>
      km_sys_step \<lparr>ky_slot = s, ky_threads = ts, ky_gate = g\<rparr>
        \<lparr>ky_slot = s, ky_threads = add_mset (T_Open owner (kn_generation s) present) ts, ky_gate = g\<rparr>"
  | open_claim: "open_admit owner gen present s = (status, s') \<Longrightarrow>
      km_sys_step \<lparr>ky_slot = s, ky_threads = add_mset (T_Open owner gen present) ts, ky_gate = G_Free\<rparr>
        \<lparr>ky_slot = s', ky_threads = ts, ky_gate = (if nt_success status then G_Claimed owner else G_Free)\<rparr>"
  | open_failed: "km_sys_step \<lparr>ky_slot = s, ky_threads = ts, ky_gate = G_Claimed owner\<rparr>
        \<lparr>ky_slot = reset_locked s, ky_threads = ts, ky_gate = G_Free\<rparr>"
  | open_created: "h \<noteq> null_handle \<Longrightarrow> kn_children s h = None \<Longrightarrow> kn_contexts s c = None \<Longrightarrow>
      open_publish owner h c s = (may_start, s') \<Longrightarrow>
      km_sys_step \<lparr>ky_slot = s, ky_threads = ts, ky_gate = G_Claimed owner\<rparr>
        \<lparr>ky_slot = s', ky_threads = ts, ky_gate = (if may_start then G_Started owner c else G_Wait False)\<rparr>"
  | open_started: "open_adopt owner c ok s = (adopted, s') \<Longrightarrow>
      km_sys_step \<lparr>ky_slot = s, ky_threads = ts, ky_gate = G_Started owner c\<rparr>
        \<lparr>ky_slot = s', ky_threads = ts, ky_gate = (if adopted then G_Free else G_Wait False)\<rparr>"
  | submit: "submit_section owner input s = (status, s') \<Longrightarrow>
      km_sys_step \<lparr>ky_slot = s, ky_threads = ts, ky_gate = G_Free\<rparr>
        \<lparr>ky_slot = s', ky_threads = (if nt_success status then add_mset (T_Pump None) ts else ts), ky_gate = G_Free\<rparr>"
  | close: "close_section owner s = (act, s') \<Longrightarrow>
      km_sys_step \<lparr>ky_slot = s, ky_threads = ts, ky_gate = G_Free\<rparr>
        \<lparr>ky_slot = s', ky_threads = (if act = Close_Drain then add_mset (T_Pump None) ts else ts),
          ky_gate = (case act of Close_Delete _ \<Rightarrow> G_Wait False | _ \<Rightarrow> G_Free)\<rparr>"
  | abort: "abort_section owner s = (act, s') \<Longrightarrow>
      km_sys_step \<lparr>ky_slot = s, ky_threads = ts, ky_gate = G_Free\<rparr>
        \<lparr>ky_slot = s', ky_threads = ts, ky_gate = (case act of Inl _ \<Rightarrow> G_Free | Inr _ \<Rightarrow> G_Wait False)\<rparr>"
  | cleanup_intent: "km_sys_step \<lparr>ky_slot = s, ky_threads = ts, ky_gate = g\<rparr>
        \<lparr>ky_slot = s\<lparr>kn_cleanup := insert owner (kn_cleanup s)\<rparr>, ky_threads = ts, ky_gate = g\<rparr>"
  | cleanup: "kn_owner s = owner \<Longrightarrow> kn_state s \<noteq> Slot_Empty \<Longrightarrow>
      km_sys_step \<lparr>ky_slot = s, ky_threads = ts, ky_gate = G_Free\<rparr>
        \<lparr>ky_slot = stop_admission s, ky_threads = ts, ky_gate = G_Wait False\<rparr>"
  | flags: "km_sys_step \<lparr>ky_slot = s, ky_threads = ts, ky_gate = g\<rparr>
        \<lparr>ky_slot = s\<lparr>kn_stopping := stopping, kn_powered := powered\<rparr>, ky_threads = ts, ky_gate = g\<rparr>"
  | power_down: "km_sys_step \<lparr>ky_slot = s, ky_threads = ts, ky_gate = G_Free\<rparr>
        \<lparr>ky_slot = stop_admission s, ky_threads = ts, ky_gate = G_Wait retain\<rparr>"
  | teardown: "\<not> kn_pump_active s \<Longrightarrow> kn_submit_owners s = 0 \<Longrightarrow> delete_take retain s = ((h, c, lost), s') \<Longrightarrow>
      km_sys_step \<lparr>ky_slot = s, ky_threads = ts, ky_gate = G_Wait retain\<rparr>
        \<lparr>ky_slot = s', ky_threads = ts, ky_gate = G_Delete h c lost\<rparr>"
  | vhf_delete: "km_sys_step \<lparr>ky_slot = s, ky_threads = ts, ky_gate = G_Delete h c lost\<rparr>
        \<lparr>ky_slot = s\<lparr>kn_children := (kn_children s)(h := None)\<rparr>, ky_threads = ts, ky_gate = G_Drain c lost\<rparr>"
  | drained: "(case c of None \<Rightarrow> True | Some c \<Rightarrow> map_option kx_entries (kn_contexts s c) = Some 0) \<Longrightarrow>
      km_sys_step \<lparr>ky_slot = s, ky_threads = ts, ky_gate = G_Drain c lost\<rparr>
        \<lparr>ky_slot = free_context c (delete_reset lost s), ky_threads = ts, ky_gate = G_Free\<rparr>"

definition new_slot :: km_slot
  where "new_slot = \<lparr>kn_stopping = False, kn_powered = False, kn_cleanup = {}, kn_vhf = null_handle,
    kn_callback = None, kn_generation = 0, kn_owner = null_handle, kn_state = Slot_Empty,
    kn_core = new_endpoint, kn_transfer = zero_km_report, kn_submit_owners = 0, kn_pump_active = False,
    kn_rundown_stopping = False, kn_contexts = (\<lambda>_. None), kn_children = (\<lambda>_. None)\<rparr>"

definition km_reachable :: "km_system \<Rightarrow> bool"
  where "km_reachable y \<longleftrightarrow> km_sys_step\<^sup>*\<^sup>* \<lparr>ky_slot = new_slot, ky_threads = {#}, ky_gate = G_Free\<rparr> y"

section \<open>The invariant\<close>

fun is_loop :: "km_thread \<Rightarrow> bool"
  where "is_loop (T_Loop _) \<longleftrightarrow> True" | "is_loop (T_Submit _ _ _) \<longleftrightarrow> True" | "is_loop _ \<longleftrightarrow> False"

fun is_submit :: "km_thread \<Rightarrow> bool"
  where "is_submit (T_Submit _ _ _) \<longleftrightarrow> True" | "is_submit _ \<longleftrightarrow> False"

fun context_of :: "km_thread \<Rightarrow> nat option"
  where
    "context_of (T_Ready c) = Some c"
  | "context_of (T_Pump e) = e"
  | "context_of (T_Loop e) = e"
  | "context_of (T_Submit e _ _) = e"
  | "context_of (T_Leave c) = Some c"
  | "context_of (T_Open _ _ _) = None"

definition loops :: "km_thread multiset \<Rightarrow> nat"
  where "loops ts = size (filter_mset is_loop ts)"

definition submits :: "km_thread multiset \<Rightarrow> nat"
  where "submits ts = size (filter_mset is_submit ts)"

definition entries :: "nat \<Rightarrow> km_thread multiset \<Rightarrow> nat"
  where "entries c ts = size (filter_mset (\<lambda>t. context_of t = Some c) ts)"

lemma counts_simps [simp]:
  "loops {#} = 0" "submits {#} = 0" "entries c {#} = 0"
  "loops (add_mset t ts) = (if is_loop t then 1 else 0) + loops ts"
  "submits (add_mset t ts) = (if is_submit t then 1 else 0) + submits ts"
  "entries c (add_mset t ts) = (if context_of t = Some c then 1 else 0) + entries c ts"
  "loops (ts + us) = loops ts + loops us" "submits (ts + us) = submits ts + submits us"
  "entries c (ts + us) = entries c ts + entries c us"
  by (simp_all add: loops_def submits_def entries_def)

lemma after_pump_counts [simp]:
  "loops (after_pump e) = 0" "submits (after_pump e) = 0"
  "entries c (after_pump e) = (if e = Some c then 1 else 0)" "T_Submit x h r \<in># after_pump e \<longleftrightarrow> False"
  by (simp_all add: after_pump_def split: option.split)

lemma submits_le_loops: "submits ts \<le> loops ts"
proof (induction ts)
  case (add t ts)
  then show ?case by (cases t) auto
qed simp

lemma no_submits: "loops ts = 0 \<Longrightarrow> T_Submit e h r \<notin># ts"
proof
  assume "loops ts = 0" "T_Submit e h r \<in># ts"
  then obtain us where "ts = add_mset (T_Submit e h r) us" by (metis mset_add)
  then show False using \<open>loops ts = 0\<close> by simp
qed

definition entry_count :: "km_slot \<Rightarrow> nat \<Rightarrow> nat"
  where "entry_count s c = (case kn_contexts s c of None \<Rightarrow> 0 | Some x \<Rightarrow> kx_entries x)"

definition context_live :: "km_slot \<Rightarrow> nat \<Rightarrow> bool"
  where "context_live s c \<longleftrightarrow> kn_contexts s c \<noteq> None"

text \<open>The pump: its flag and its count of submissions are those of the threads, what a submission
  reads stays put, and there is no pump without a child.\<close>

definition pump_inv :: "km_slot \<Rightarrow> km_thread multiset \<Rightarrow> bool"
  where "pump_inv s ts \<longleftrightarrow> loops ts = (if kn_pump_active s then 1 else 0) \<and>
    kn_submit_owners s = submits ts \<and> (kn_vhf s = null_handle \<longrightarrow> \<not> kn_pump_active s) \<and>
    (\<forall>e h r. T_Submit e h r \<in># ts \<longrightarrow> h = kn_vhf s \<and> kn_transfer s = r \<and> ke_retained (kn_core s) = r)"

text \<open>The contexts: one is allocated as long as a thread is in it or a child carries it, and its count
  of entries is right.\<close>

definition context_inv :: "km_slot \<Rightarrow> km_thread multiset \<Rightarrow> bool"
  where "context_inv s ts \<longleftrightarrow> (\<forall>c. entry_count s c = entries c ts) \<and>
    (\<forall>h c. kn_children s h = Some c \<longrightarrow> context_live s c)"

text \<open>The children: the slot's, and the one a teardown is about to delete.\<close>

definition doomed :: "km_gate \<Rightarrow> handle"
  where "doomed g = (case g of G_Delete h _ _ \<Rightarrow> h | _ \<Rightarrow> null_handle)"

definition child_inv :: "km_slot \<Rightarrow> km_gate \<Rightarrow> bool"
  where "child_inv s g \<longleftrightarrow> kn_children s null_handle = None \<and>
    (kn_vhf s \<noteq> null_handle \<longrightarrow> kn_children s (kn_vhf s) = kn_callback s \<and> kn_callback s \<noteq> None) \<and>
    (\<forall>h c. kn_children s h = Some c \<longrightarrow> h = kn_vhf s \<or> h = doomed g) \<and>
    (\<forall>c. context_live s c \<longleftrightarrow> kn_callback s = Some c)"

fun gate_inv :: "km_slot \<Rightarrow> km_gate \<Rightarrow> bool"
  where
    "gate_inv s G_Free \<longleftrightarrow> (if kn_vhf s = null_handle
      then (kn_state s = Slot_Empty \<or> kn_state s = Slot_Lost) \<and> kn_callback s = None
      else kn_state s = Slot_Active)"
  | "gate_inv s (G_Claimed owner) \<longleftrightarrow> kn_state s = Slot_Starting \<and> kn_vhf s = null_handle \<and> kn_callback s = None"
  | "gate_inv s (G_Started owner c) \<longleftrightarrow> kn_state s = Slot_Starting \<and> kn_vhf s \<noteq> null_handle"
  | "gate_inv s (G_Wait retain) \<longleftrightarrow> (kn_state s = Slot_Stopping \<and> kn_rundown_stopping s \<or> kn_state s = Slot_Empty) \<and>
      (kn_vhf s = null_handle \<longrightarrow> kn_callback s = None) \<and> (kn_state s = Slot_Empty \<longrightarrow> kn_vhf s = null_handle)"
  | "gate_inv s (G_Delete h c lost) \<longleftrightarrow> kn_state s \<in> {Slot_Stopping, Slot_Empty} \<and> kn_vhf s = null_handle \<and>
      kn_callback s = c \<and> (kn_state s = Slot_Empty \<longrightarrow> c = None)"
  | "gate_inv s (G_Drain c lost) \<longleftrightarrow> kn_state s \<in> {Slot_Stopping, Slot_Empty} \<and> kn_vhf s = null_handle \<and>
      kn_callback s = c \<and> (kn_state s = Slot_Empty \<longrightarrow> c = None)"

definition km_inv :: "km_system \<Rightarrow> bool"
  where "km_inv y \<longleftrightarrow> pump_inv (ky_slot y) (ky_threads y) \<and> context_inv (ky_slot y) (ky_threads y) \<and>
    child_inv (ky_slot y) (ky_gate y) \<and> gate_inv (ky_slot y) (ky_gate y)"

text \<open>What the sections leave alone.\<close>

lemma on_context_counts [simp]:
  "entry_count (on_context c f s) d =
    (if d = c then (case kn_contexts s c of None \<Rightarrow> 0 | Some x \<Rightarrow> kx_entries (f x)) else entry_count s d)"
  "context_live (on_context c f s) d \<longleftrightarrow> context_live s d"
  by (simp_all add: entry_count_def context_live_def on_context_def split: option.split)

lemma on_context_fields [simp]:
  "kn_vhf (on_context c f s) = kn_vhf s" "kn_callback (on_context c f s) = kn_callback s"
  "kn_children (on_context c f s) = kn_children s" "kn_pump_active (on_context c f s) = kn_pump_active s"
  "kn_submit_owners (on_context c f s) = kn_submit_owners s" "kn_core (on_context c f s) = kn_core s"
  "kn_transfer (on_context c f s) = kn_transfer s" "kn_state (on_context c f s) = kn_state s"
  "kn_rundown_stopping (on_context c f s) = kn_rundown_stopping s" "kn_owner (on_context c f s) = kn_owner s"
  by (simp_all add: on_context_def)

lemma stop_fields [simp]:
  "kn_vhf (stop_admission s) = kn_vhf s" "kn_callback (stop_admission s) = kn_callback s"
  "kn_children (stop_admission s) = kn_children s" "kn_pump_active (stop_admission s) = kn_pump_active s"
  "kn_submit_owners (stop_admission s) = kn_submit_owners s" "kn_core (stop_admission s) = kn_core s"
  "kn_transfer (stop_admission s) = kn_transfer s"
  "kn_state (stop_admission s) = (if kn_state s = Slot_Empty then Slot_Empty else Slot_Stopping)"
  "kn_state s \<noteq> Slot_Empty \<Longrightarrow> kn_rundown_stopping (stop_admission s)"
  by (simp_all add: stop_admission_def Let_def split: option.splits)

lemma context_updates [simp]:
  "entry_count (s\<lparr>kn_core := a\<rparr>) d = entry_count s d" "context_live (s\<lparr>kn_core := a\<rparr>) d = context_live s d"
  "entry_count (s\<lparr>kn_generation := b\<rparr>) d = entry_count s d" "context_live (s\<lparr>kn_generation := b\<rparr>) d = context_live s d"
  "entry_count (s\<lparr>kn_state := st\<rparr>) d = entry_count s d" "context_live (s\<lparr>kn_state := st\<rparr>) d = context_live s d"
  "entry_count (s\<lparr>kn_pump_active := p\<rparr>) d = entry_count s d" "context_live (s\<lparr>kn_pump_active := p\<rparr>) d = context_live s d"
  "entry_count (s\<lparr>kn_vhf := h\<rparr>) d = entry_count s d" "context_live (s\<lparr>kn_vhf := h\<rparr>) d = context_live s d"
  "entry_count (s\<lparr>kn_rundown_stopping := r\<rparr>) d = entry_count s d" "context_live (s\<lparr>kn_rundown_stopping := r\<rparr>) d = context_live s d"
  "entry_count (s\<lparr>kn_submit_owners := n\<rparr>) d = entry_count s d" "context_live (s\<lparr>kn_submit_owners := n\<rparr>) d = context_live s d"
  "entry_count (s\<lparr>kn_transfer := t\<rparr>) d = entry_count s d" "context_live (s\<lparr>kn_transfer := t\<rparr>) d = context_live s d"
  "entry_count (s\<lparr>kn_children := ch\<rparr>) d = entry_count s d" "context_live (s\<lparr>kn_children := ch\<rparr>) d = context_live s d"
  "entry_count (s\<lparr>kn_owner := w\<rparr>) d = entry_count s d" "context_live (s\<lparr>kn_owner := w\<rparr>) d = context_live s d"
  "entry_count (s\<lparr>kn_callback := cb\<rparr>) d = entry_count s d" "context_live (s\<lparr>kn_callback := cb\<rparr>) d = context_live s d"
  "entry_count (s\<lparr>kn_cleanup := cu\<rparr>) d = entry_count s d" "context_live (s\<lparr>kn_cleanup := cu\<rparr>) d = context_live s d"
  "entry_count (s\<lparr>kn_stopping := x\<rparr>) d = entry_count s d" "context_live (s\<lparr>kn_stopping := x\<rparr>) d = context_live s d"
  "entry_count (s\<lparr>kn_powered := x\<rparr>) d = entry_count s d" "context_live (s\<lparr>kn_powered := x\<rparr>) d = context_live s d"
  by (simp_all add: entry_count_def context_live_def)

lemma stop_contexts [simp]:
  "entry_count (stop_admission s) d = entry_count s d" "context_live (stop_admission s) d = context_live s d"
  by (auto simp: stop_admission_def Let_def entry_count_def [of s] split: option.splits)

lemma submission_failed_retained [simp]: "ke_retained (submission_failed e) = ke_retained e"
  by (simp add: submission_failed_def)

lemma ready_retained [simp]: "ke_retained (km_ready e) = ke_retained e"
  by (simp add: km_ready_def)

lemma submit_retained: "submit_core owner input e = (res, e') \<Longrightarrow> ke_retained e' = ke_retained e"
  by (cases input)
    (auto simp: km_submit_key_def km_submit_button_def km_submit_consumer_def km_submit_relative_def
      km_submit_absolute_def Let_def split: if_splits option.splits)

lemma close_retained: "km_close owner e = (res, e') \<Longrightarrow> ke_retained e' = ke_retained e"
  by (auto simp: km_close_def Let_def split: if_splits)

lemma take_none: "km_take e = (None, e') \<Longrightarrow> e' = e"
  by (auto simp: km_take_def Let_def split: if_splits)

lemma take_some: "km_take e = (Some r, e') \<Longrightarrow> ke_retained e' = r"
  by (auto simp: km_take_def Let_def split: if_splits)

lemma pump_next_none: "pump_next e s = (None, s') \<Longrightarrow> s' = s\<lparr>kn_pump_active := False\<rparr>"
  by (auto simp: pump_next_def dest: take_none split: if_splits prod.splits option.splits)

lemma pump_next_some:
  assumes "pump_next e s = (Some (h, r), s')"
  obtains core where "s' = s\<lparr>kn_core := core, kn_transfer := r, kn_submit_owners := kn_submit_owners s + 1\<rparr>"
    "ke_retained core = r" "h = kn_vhf s" "can_pump s e"
  using assms that by (auto simp: pump_next_def dest: take_some split: if_splits prod.splits option.splits)

lemma pump_begin_mine:
  "pump_begin e s = (True, s') \<Longrightarrow> s' = s\<lparr>kn_pump_active := True\<rparr> \<and> \<not> kn_pump_active s \<and> kn_vhf s \<noteq> null_handle"
  by (auto simp: pump_begin_def can_pump_def split: if_splits)

lemma pump_begin_not: "pump_begin e s = (False, s') \<Longrightarrow> s' = s"
  by (auto simp: pump_begin_def split: if_splits)

lemma pump_submitted_cases:
  assumes "pump_submitted e ok s = (again, s')"
  obtains core where "ke_retained core = ke_retained (kn_core s)"
    "s' = s\<lparr>kn_core := core, kn_submit_owners := kn_submit_owners s - 1, kn_pump_active := kn_pump_active s \<and> again\<rparr>"
proof -
  consider "retired s e" | "\<not> retired s e" "ok" | "\<not> retired s e" "\<not> ok" by blast
  then show ?thesis
  proof cases
    case 1
    then show ?thesis using assms that [of "kn_core s"] by (auto simp: pump_submitted_def)
  next
    case 2
    then show ?thesis using assms that [of "kn_core s"] by (cases "kn_pump_active s") (auto simp: pump_submitted_def)
  next
    case 3
    then show ?thesis using assms that [of "submission_failed (kn_core s)"] by (auto simp: pump_submitted_def)
  qed
qed

text \<open>A section that leaves the pump's fields alone keeps the pump; one that leaves the contexts and
  children alone keeps those.\<close>

lemma pump_inv_kept:
  assumes "pump_inv s ts" "kn_vhf s' = kn_vhf s" "kn_pump_active s' = kn_pump_active s"
    "kn_submit_owners s' = kn_submit_owners s" "kn_transfer s' = kn_transfer s"
    "ke_retained (kn_core s') = ke_retained (kn_core s)"
  shows "pump_inv s' ts"
  using assms by (simp add: pump_inv_def)

lemma pump_inv_threads:
  "pump_inv s ts \<Longrightarrow> \<not> is_loop t \<Longrightarrow> pump_inv s (add_mset t ts)"
  "pump_inv s (add_mset t ts) \<Longrightarrow> \<not> is_loop t \<Longrightarrow> pump_inv s ts"
  by (cases t; auto simp: pump_inv_def)+

lemma context_inv_kept:
  assumes "context_inv s ts" "\<And>c. entry_count s' c = entry_count s c" "\<And>c. context_live s' c = context_live s c"
    "kn_children s' = kn_children s"
  shows "context_inv s' ts"
  using assms by (simp add: context_inv_def)

lemma context_inv_threads:
  "context_of t = None \<Longrightarrow> context_inv s (add_mset t ts) \<longleftrightarrow> context_inv s ts"
  "context_of t = context_of u \<Longrightarrow> context_inv s (add_mset t ts) \<longleftrightarrow> context_inv s (add_mset u ts)"
  by (simp_all add: context_inv_def)

lemma context_inv_swap:
  assumes "context_inv s (add_mset t ts)" "\<And>c. entry_count s' c = entry_count s c"
    "\<And>c. context_live s' c = context_live s c" "kn_children s' = kn_children s" "context_of t = e"
  shows "context_inv s' ((if again then {#T_Loop e#} else after_pump e) + ts)"
    "context_inv s' (add_mset (T_Submit e h r) ts)" "context_inv s' (after_pump e + ts)"
proof -
  have "entry_count s c = (if e = Some c then 1 else 0) + entries c ts" for c
    using assms(1,5) by (simp add: context_inv_def)
  then show "context_inv s' ((if again then {#T_Loop e#} else after_pump e) + ts)"
    "context_inv s' (add_mset (T_Submit e h r) ts)" "context_inv s' (after_pump e + ts)"
    using assms by (simp_all add: context_inv_def)
qed

lemma child_inv_kept:
  assumes "child_inv s g" "kn_children s' = kn_children s" "kn_vhf s' = kn_vhf s" "kn_callback s' = kn_callback s"
    "\<And>c. context_live s' c = context_live s c" "doomed g' = doomed g"
  shows "child_inv s' g'"
  using assms by (simp add: child_inv_def)

lemma gate_inv_kept:
  assumes "gate_inv s g" "kn_state s' = kn_state s" "kn_vhf s' = kn_vhf s" "kn_callback s' = kn_callback s"
    "kn_rundown_stopping s' = kn_rundown_stopping s"
  shows "gate_inv s' g"
  using assms by (cases g) auto

lemma doomed_simps [simp]:
  "doomed G_Free = null_handle" "doomed (G_Claimed w) = null_handle" "doomed (G_Started w c) = null_handle"
  "doomed (G_Wait r) = null_handle" "doomed (G_Delete h cc l) = h" "doomed (G_Drain cc l) = null_handle"
  by (simp_all add: doomed_def)

lemma enter_leave [simp]:
  "context_live (enter_context c s) d = context_live s d" "context_live (leave_context c s) d = context_live s d"
  by (simp_all add: enter_context_def leave_context_def)

lemma enter_leave_counts [simp]:
  "context_live s c \<Longrightarrow> entry_count (enter_context c s) d = entry_count s d + (if d = c then 1 else 0)"
  "entry_count (leave_context c s) d = entry_count s d - (if d = c then 1 else 0)"
  by (auto simp: enter_context_def leave_context_def context_live_def entry_count_def on_context_def
      split: option.split)

lemma enter_leave_fields [simp]:
  "kn_children (enter_context c s) = kn_children s" "kn_children (leave_context c s) = kn_children s"
  "kn_vhf (enter_context c s) = kn_vhf s" "kn_vhf (leave_context c s) = kn_vhf s"
  "kn_callback (enter_context c s) = kn_callback s" "kn_callback (leave_context c s) = kn_callback s"
  "kn_state (enter_context c s) = kn_state s" "kn_state (leave_context c s) = kn_state s"
  "kn_rundown_stopping (enter_context c s) = kn_rundown_stopping s"
  "kn_rundown_stopping (leave_context c s) = kn_rundown_stopping s"
  by (simp_all add: enter_context_def leave_context_def)

lemma enter_inv:
  "context_inv s ts \<Longrightarrow> kn_children s h = Some c \<Longrightarrow> context_inv (enter_context c s) (add_mset (T_Ready c) ts)"
  by (auto simp: context_inv_def)

lemma leave_inv: "context_inv s (add_mset (T_Leave c) ts) \<Longrightarrow> context_inv (leave_context c s) ts"
  by (auto simp: context_inv_def)

lemma enter_leave_kept:
  "pump_inv (enter_context c s) ts = pump_inv s ts" "pump_inv (leave_context c s) ts = pump_inv s ts"
  "child_inv (enter_context c s) g = child_inv s g" "child_inv (leave_context c s) g = child_inv s g"
  "gate_inv (enter_context c s) g = gate_inv s g" "gate_inv (leave_context c s) g = gate_inv s g"
  by (simp_all add: pump_inv_def child_inv_def enter_context_def leave_context_def) (cases g; simp)+

section \<open>Every step keeps it\<close>

lemma ready_section_core:
  assumes "ready_section c s = (admitted, s')"
  obtains core where "s' = s\<lparr>kn_core := core\<rparr>" "ke_retained core = ke_retained (kn_core s)"
  using assms that [of "kn_core s"] that [of "km_ready (kn_core s)"]
  by (auto simp: ready_section_def split: if_splits)

lemma core_kept:
  assumes "ke_retained core = ke_retained (kn_core s)"
  shows "pump_inv (s\<lparr>kn_core := core\<rparr>) ts = pump_inv s ts" "context_inv (s\<lparr>kn_core := core\<rparr>) ts = context_inv s ts"
    "child_inv (s\<lparr>kn_core := core\<rparr>) g = child_inv s g" "gate_inv (s\<lparr>kn_core := core\<rparr>) g = gate_inv s g"
  using assms by (simp_all add: pump_inv_def context_inv_def child_inv_def) (cases g; simp)+

lemma pump_inv_alone:
  assumes "pump_inv s (add_mset t ts)" "is_loop t"
  shows "loops ts = 0" "submits ts = 0" "kn_pump_active s" "kn_vhf s \<noteq> null_handle"
    "kn_submit_owners s = (if is_submit t then 1 else 0)" "T_Submit x h r \<notin># ts"
proof -
  show l: "loops ts = 0" "kn_pump_active s" "kn_vhf s \<noteq> null_handle"
    using assms by (auto simp: pump_inv_def split: if_splits)
  then show sub: "submits ts = 0" "T_Submit x h r \<notin># ts"
    using submits_le_loops [of ts] no_submits [of ts] by simp_all
  show "kn_submit_owners s = (if is_submit t then 1 else 0)" using assms sub by (simp add: pump_inv_def)
qed

lemma pump_inv_one:
  "loops ts = 0 \<Longrightarrow> kn_pump_active s \<Longrightarrow> kn_vhf s \<noteq> null_handle \<Longrightarrow> kn_submit_owners s = 0 \<Longrightarrow>
    pump_inv s (add_mset (T_Loop e) ts)"
  "loops ts = 0 \<Longrightarrow> \<not> kn_pump_active s \<Longrightarrow> kn_submit_owners s = 0 \<Longrightarrow> pump_inv s ts"
  "loops ts = 0 \<Longrightarrow> kn_pump_active s \<Longrightarrow> kn_vhf s \<noteq> null_handle \<Longrightarrow> kn_submit_owners s = 1 \<Longrightarrow>
    kn_transfer s = r \<Longrightarrow> ke_retained (kn_core s) = r \<Longrightarrow> h = kn_vhf s \<Longrightarrow>
    pump_inv s (add_mset (T_Submit e h r) ts)"
  using submits_le_loops [of ts] no_submits [of ts] by (simp_all add: pump_inv_def)

lemma pump_start_inv:
  assumes "pump_inv s (add_mset (T_Pump e) ts)" "pump_begin e s = (mine, s')"
  shows "pump_inv s' ((if mine then {#T_Loop e#} else after_pump e) + ts)"
proof (cases mine)
  case True
  have "loops ts = (if kn_pump_active s then 1 else 0)" "kn_submit_owners s = submits ts"
    using assms(1) by (simp_all add: pump_inv_def)
  then show ?thesis
    using pump_begin_mine [of e s s'] assms(2) True submits_le_loops [of ts]
    by (simp add: pump_inv_one)
next
  case False
  then have "s' = s" using assms(2) pump_begin_not by simp
  then show ?thesis using assms(1) False by (simp add: pump_inv_def)
qed

lemma pump_disarm_inv:
  assumes "pump_inv s (add_mset (T_Loop e) ts)" "pump_next e s = (None, s')"
  shows "pump_inv s' (after_pump e + ts)"
  using pump_inv_alone [OF assms(1)] pump_next_none [OF assms(2)] by (intro pump_inv_one(2)) simp_all

lemma pump_take_inv:
  assumes "pump_inv s (add_mset (T_Loop e) ts)" "pump_next e s = (Some (h, r), s')"
  shows "pump_inv s' (add_mset (T_Submit e h r) ts)"
  using assms(2) pump_inv_alone [OF assms(1)] by (elim pump_next_some) (intro pump_inv_one(3); simp)

lemma pump_return_inv:
  assumes "pump_inv s (add_mset (T_Submit e h r) ts)" "pump_submitted e ok s = (again, s')"
  shows "pump_inv s' ((if again then {#T_Loop e#} else after_pump e) + ts)"
proof -
  note a = pump_inv_alone [OF assms(1)]
  from assms(2) obtain core where "s' = s\<lparr>kn_core := core, kn_submit_owners := kn_submit_owners s - 1,
      kn_pump_active := kn_pump_active s \<and> again\<rparr>" by (elim pump_submitted_cases)
  then show ?thesis using a by (cases again) (simp_all add: pump_inv_one)
qed

lemma stop_kept:
  "pump_inv (stop_admission s) ts = pump_inv s ts" "context_inv (stop_admission s) ts = context_inv s ts"
  "child_inv (stop_admission s) g = child_inv s g"
  by (simp_all add: pump_inv_def context_inv_def child_inv_def)

lemma state_kept:
  "pump_inv (s\<lparr>kn_state := st\<rparr>) ts = pump_inv s ts" "context_inv (s\<lparr>kn_state := st\<rparr>) ts = context_inv s ts"
  by (simp_all add: pump_inv_def context_inv_def)

lemma reset_kept:
  assumes "pump_inv s ts" "\<not> kn_pump_active s"
  shows "pump_inv (reset_locked s) ts"
  using assms no_submits [of ts] submits_le_loops [of ts]
  by (intro pump_inv_one(2)) (simp_all add: pump_inv_def reset_locked_def)

lemma reset_fields [simp]:
  "kn_vhf (reset_locked s) = null_handle" "kn_callback (reset_locked s) = None"
  "kn_children (reset_locked s) = kn_children s" "kn_state (reset_locked s) = Slot_Empty"
  "entry_count (reset_locked s) d = entry_count s d" "context_live (reset_locked s) d = context_live s d"
  by (simp_all add: reset_locked_def entry_count_def context_live_def)

text \<open>Without a child the pump is idle.\<close>

lemma idle: "pump_inv s ts \<Longrightarrow> kn_vhf s = null_handle \<Longrightarrow>
    loops ts = 0 \<and> \<not> kn_pump_active s \<and> kn_submit_owners s = 0"
  using submits_le_loops [of ts] by (auto simp: pump_inv_def)

lemma open_admit_inv:
  assumes "pump_inv s ts" "context_inv s ts" "child_inv s G_Free" "gate_inv s G_Free"
    "open_admit owner gen present s = (status, s')"
  shows "pump_inv s' ts \<and> context_inv s' ts \<and>
    (let g = (if nt_success status then G_Claimed owner else G_Free) in child_inv s' g \<and> gate_inv s' g)"
proof -
  obtain res core where o': "km_open owner k_primary_absolute_generation (kn_core s) = (res, core)" by fastforce
  let ?s = "s\<lparr>kn_rundown_stopping := False, kn_submit_owners := 0, kn_pump_active := False,
    kn_generation := next_generation (kn_generation s), kn_callback := None, kn_vhf := null_handle,
    kn_owner := owner, kn_state := Slot_Starting\<rparr>"
  consider (refused) "s' = s" "\<not> nt_success status"
    | (claimed) "open_available owner s" "s' = ?s\<lparr>kn_core := core\<rparr>" "nt_success status"
    | (failed) "open_available owner s" "s' = reset_locked (?s\<lparr>kn_core := core\<rparr>)" "\<not> nt_success status"
  proof (cases "open_live owner s \<and> \<not> (kn_generation s \<noteq> gen \<or> present \<or> \<not> open_available owner s)")
    case True
    then have "status = keyboard_mouse_status res"
      "s' = (if nt_success status then ?s\<lparr>kn_core := core\<rparr> else reset_locked (?s\<lparr>kn_core := core\<rparr>))"
      using assms(5) o' by (auto simp: open_admit_def Let_def)
    then show ?thesis using True claimed failed by (cases "nt_success status") simp_all
  next
    case False
    then show ?thesis using assms(5) refused by (auto simp: open_admit_def nt_success_def split: if_splits)
  qed
  then show ?thesis
  proof cases
    case refused
    then show ?thesis using assms by simp
  next
    case claimed
    then have n: "kn_vhf s = null_handle" "kn_callback s = None"
      using assms(4) by (auto simp: open_available_def split: if_splits)
    from idle [OF assms(1) n(1)] have "pump_inv s' ts" using claimed by (intro pump_inv_one(2)) simp_all
    moreover have "context_inv s' ts" using assms(2) claimed by (simp add: context_inv_def)
    ultimately show ?thesis using claimed n assms(3) by (simp add: child_inv_def)
  next
    case failed
    then have n: "kn_vhf s = null_handle" "kn_callback s = None"
      using assms(4) by (auto simp: open_available_def split: if_splits)
    from idle [OF assms(1) n(1)] have "pump_inv s' ts" using failed
      by (intro pump_inv_one(2)) (simp_all add: reset_locked_def)
    moreover have "context_inv s' ts" using assms(2) failed by (simp add: context_inv_def)
    ultimately show ?thesis using failed n assms(3) by (simp add: child_inv_def)
  qed
qed

lemma open_publish_inv:
  assumes "pump_inv s ts" "context_inv s ts" "child_inv s (G_Claimed owner)" "gate_inv s (G_Claimed owner)"
    "h \<noteq> null_handle" "kn_children s h = None" "kn_contexts s c = None"
    "open_publish owner h c s = (may_start, s')"
  shows "pump_inv s' ts \<and> context_inv s' ts \<and>
    (let g = (if may_start then G_Started owner c else G_Wait False) in child_inv s' g \<and> gate_inv s' g)"
proof -
  let ?s = "s\<lparr>kn_contexts := (kn_contexts s)(c \<mapsto> \<lparr>kx_generation = kn_generation s, kx_retired = False,
      kx_entries = 0\<rparr>), kn_children := (kn_children s)(h \<mapsto> c), kn_callback := Some c, kn_vhf := h\<rparr>"
  have s': "s' = (if may_start then ?s else stop_admission ?s)"
    using assms(8) by (auto simp: open_publish_def Let_def split: if_splits)
  have i: "loops ts = 0" "\<not> kn_pump_active s" "kn_submit_owners s = 0"
    using idle [OF assms(1)] assms(4) by simp_all
  let ?m = "s\<lparr>kn_contexts := (kn_contexts s)(c \<mapsto> \<lparr>kx_generation = kn_generation s, kx_retired = False,
      kx_entries = 0\<rparr>)\<rparr>"
  have al: "context_live ?m d \<longleftrightarrow> d = c \<or> context_live s d" for d by (simp add: context_live_def)
  have en: "entry_count ?m d = entry_count s d" for d
    using assms(7) by (simp add: entry_count_def)
  have none: "\<not> context_live s d" for d using assms(3,4) by (simp add: child_inv_def)
  have "pump_inv ?s ts" by (rule pump_inv_one(2)) (use i in simp_all)
  moreover have "context_inv ?s ts" using assms(2) by (auto simp: context_inv_def al en)
  moreover have "child_inv ?s (G_Started owner c)"
    using assms(3,4,5,6) none by (auto simp: child_inv_def al)
  ultimately show ?thesis
    using s' assms(4,5) by (auto simp: stop_kept child_inv_def Let_def)
qed

lemma teardown_inv:
  assumes "pump_inv s ts" "context_inv s ts" "child_inv s (G_Wait retain)" "gate_inv s (G_Wait retain)"
    "\<not> kn_pump_active s" "kn_submit_owners s = 0" "delete_take retain s = ((h, c, lost), s')"
  shows "pump_inv s' ts \<and> context_inv s' ts \<and> child_inv s' (G_Delete h c lost) \<and> gate_inv s' (G_Delete h c lost)"
proof -
  have only: "kn_children s k = Some d \<Longrightarrow> k = kn_vhf s" for k d
    using assms(3) by (cases "k = null_handle") (auto simp: child_inv_def)
  have l: "loops ts = 0" using assms(1,5) by (simp add: pump_inv_def)
  then have "pump_inv s' ts" using assms(5-7)
    by (intro pump_inv_one(2)) (auto simp: delete_take_def split: if_splits)
  moreover have "context_inv s' ts" using assms(2,7) by (auto simp: delete_take_def context_inv_def split: if_splits)
  moreover have "child_inv s' (G_Delete h c lost)"
    using assms(3,4,7) by (auto simp: delete_take_def child_inv_def dest: only split: if_splits)
  ultimately show ?thesis using assms(4,7) by (auto simp: delete_take_def split: if_splits)
qed

lemma delete_inv:
  assumes "pump_inv s ts" "context_inv s ts" "child_inv s (G_Delete h c lost)" "gate_inv s (G_Delete h c lost)"
  defines "s' \<equiv> s\<lparr>kn_children := (kn_children s)(h := None)\<rparr>"
  shows "pump_inv s' ts \<and> context_inv s' ts \<and> child_inv s' (G_Drain c lost) \<and> gate_inv s' (G_Drain c lost)"
  using assms(1-4) by (auto simp: s'_def pump_inv_def context_inv_def child_inv_def)

lemma drained_inv:
  assumes "pump_inv s ts" "context_inv s ts" "child_inv s (G_Drain c lost)" "gate_inv s (G_Drain c lost)"
    "case c of None \<Rightarrow> True | Some d \<Rightarrow> entry_count s d = 0"
  defines "s' \<equiv> free_context c (delete_reset lost s)"
  shows "pump_inv s' ts \<and> context_inv s' ts \<and> child_inv s' G_Free \<and> gate_inv s' G_Free"
proof -
  have i: "loops ts = 0" "\<not> kn_pump_active s" "kn_submit_owners s = 0" "kn_vhf s = null_handle"
    using idle [OF assms(1)] assms(4) by simp_all
  let ?r = "delete_reset lost s"
  have st: "kn_state s = Slot_Stopping \<or> kn_state s = Slot_Empty \<and> c = None" "kn_callback s = c"
    using assms(4) by auto
  have r: "\<not> kn_pump_active ?r" "kn_submit_owners ?r = 0" "kn_vhf ?r = null_handle"
    "kn_children ?r = kn_children s" "entry_count ?r d = entry_count s d" "context_live ?r d = context_live s d"
    "kn_state ?r \<in> {Slot_Empty, Slot_Lost}" "kn_callback ?r = None" for d
    using i st by (auto simp: delete_reset_def reset_locked_def entry_count_def context_live_def Let_def)
  have f: "\<not> kn_pump_active s'" "kn_submit_owners s' = 0" "kn_vhf s' = null_handle" "kn_children s' = kn_children s"
    "kn_state s' = kn_state ?r" "kn_callback s' = None" for d
    using r by (auto simp: s'_def free_context_def split: option.splits)
  have e: "entry_count s' d = entry_count s d" "\<not> context_live s' d" for d
    using r(5,6) [of d] assms(3,5) st(2)
    by (auto simp: s'_def free_context_def entry_count_def context_live_def child_inv_def split: option.splits)
  have none: "kn_children s g = None" for g using assms(3) i(4) by (cases "g = null_handle") (auto simp: child_inv_def)
  have "pump_inv s' ts" using i f by (intro pump_inv_one(2)) simp_all
  moreover have "context_inv s' ts" using assms(2) f e none by (simp add: context_inv_def)
  moreover have "child_inv s' G_Free" using f e none by (simp add: child_inv_def)
  moreover have "gate_inv s' G_Free" using f r(7) by auto
  ultimately show ?thesis by blast
qed

lemma stop_inv:
  assumes "km_inv \<lparr>ky_slot = s, ky_threads = ts, ky_gate = g\<rparr>" "g = G_Free \<or> g = G_Started owner c"
  shows "km_inv \<lparr>ky_slot = stop_admission s, ky_threads = ts, ky_gate = G_Wait retain\<rparr>"
proof -
  have "gate_inv (stop_admission s) (G_Wait retain)"
    using assms by (auto simp: km_inv_def split: if_splits)
  moreover have "child_inv (stop_admission s) (G_Wait retain)"
    by (rule child_inv_kept [of s g]) (use assms in \<open>auto simp: km_inv_def\<close>)
  ultimately show ?thesis using assms(1) by (simp add: km_inv_def stop_kept(1,2))
qed

lemma close_section_cases:
  assumes "close_section owner s = (act, s')"
  obtains (core) core where "s' = s\<lparr>kn_core := core\<rparr>" "ke_retained core = ke_retained (kn_core s)"
      "act = Close_Drain \<or> (\<exists>st. act = Close_Failed st)"
    | (stop) st where "s' = stop_admission s" "act = Close_Delete st" "kn_state s = Slot_Active"
proof -
  obtain res cl where c: "km_close owner (kn_core s) = (res, cl)" by fastforce
  from assms show ?thesis unfolding close_section_def c prod.case
    using core [of cl] core [of "kn_core s"] stop close_retained [OF c] by (auto split: if_splits)
qed

lemma km_step_inv: "km_sys_step y y' \<Longrightarrow> km_inv y \<Longrightarrow> km_inv y'"
proof (induction rule: km_sys_step.induct)
  case (ready_entry s h c ts g)
  then show ?case
    using enter_inv [of s ts h c] pump_inv_threads(1) [of s ts "T_Ready c"]
    by (simp add: km_inv_def enter_leave_kept)
next
  case (ready_run c s admitted s' ts g)
  obtain core where core: "s' = s\<lparr>kn_core := core\<rparr>" "ke_retained core = ke_retained (kn_core s)"
    using ready_run(1) by (elim ready_section_core)
  have "pump_inv s ts" using ready_run(2) pump_inv_threads(2) [of s "T_Ready c" ts] by (simp add: km_inv_def)
  then have "pump_inv s (add_mset (if admitted then T_Pump (Some c) else T_Leave c) ts)"
    by (intro pump_inv_threads(1)) simp_all
  moreover have "context_inv s (add_mset (if admitted then T_Pump (Some c) else T_Leave c) ts)"
    using ready_run(2) context_inv_threads(2) [of "T_Ready c" "T_Pump (Some c)" s ts]
      context_inv_threads(2) [of "T_Ready c" "T_Leave c" s ts] by (simp add: km_inv_def)
  ultimately show ?case using ready_run(2) core by (simp add: km_inv_def core_kept)
next
  case (ready_leave s c ts g)
  then show ?case using leave_inv pump_inv_threads(2) [of s "T_Leave c" ts]
    by (simp add: km_inv_def enter_leave_kept)
next
  case (pump_start e s mine s' ts g)
  then have s: "s' = s \<or> s' = s\<lparr>kn_pump_active := True\<rparr>"
    by (cases mine) (auto dest: pump_begin_mine pump_begin_not)
  have "context_inv s' ((if mine then {#T_Loop e#} else after_pump e) + ts)"
    by (rule context_inv_swap(1) [of s "T_Pump e"]) (use pump_start(2) s in \<open>auto simp: km_inv_def\<close>)
  moreover have "child_inv s' g" "gate_inv s' g"
    using pump_start(2) s child_inv_kept [of s g s' g] gate_inv_kept [of s g s'] by (auto simp: km_inv_def)
  moreover have "pump_inv s' ((if mine then {#T_Loop e#} else after_pump e) + ts)"
    by (rule pump_start_inv [OF _ pump_start(1)]) (use pump_start(2) in \<open>simp add: km_inv_def\<close>)
  ultimately show ?case by (simp only: km_inv_def km_system.simps simp_thms)
next
  case (pump_take e s h r s' ts g)
  from pump_take(1) obtain core where
    s: "s' = s\<lparr>kn_core := core, kn_transfer := r, kn_submit_owners := kn_submit_owners s + 1\<rparr>"
    by (elim pump_next_some)
  have "context_inv s' (add_mset (T_Submit e h r) ts)"
    by (rule context_inv_swap(2) [of s "T_Loop e"]) (use pump_take(2) s in \<open>auto simp: km_inv_def\<close>)
  moreover have "child_inv s' g" "gate_inv s' g"
    using pump_take(2) s child_inv_kept [of s g s' g] gate_inv_kept [of s g s'] by (auto simp: km_inv_def)
  moreover have "pump_inv s' (add_mset (T_Submit e h r) ts)"
    by (rule pump_take_inv [OF _ pump_take(1)]) (use pump_take(2) in \<open>simp add: km_inv_def\<close>)
  ultimately show ?case by (simp add: km_inv_def)
next
  case (pump_disarm e s s' ts g)
  note s = pump_next_none [OF pump_disarm(1)]
  have "context_inv s' (after_pump e + ts)"
    by (rule context_inv_swap(3) [of s "T_Loop e"]) (use pump_disarm(2) s in \<open>auto simp: km_inv_def\<close>)
  moreover have "child_inv s' g" "gate_inv s' g"
    using pump_disarm(2) s child_inv_kept [of s g s' g] gate_inv_kept [of s g s'] by (auto simp: km_inv_def)
  moreover have "pump_inv s' (after_pump e + ts)"
    by (rule pump_disarm_inv [OF _ pump_disarm(1)]) (use pump_disarm(2) in \<open>simp add: km_inv_def\<close>)
  ultimately show ?case by (simp add: km_inv_def)
next
  case (pump_return e ok s again s' h r ts g)
  from pump_return(1) obtain core where s: "s' = s\<lparr>kn_core := core, kn_submit_owners := kn_submit_owners s - 1,
      kn_pump_active := kn_pump_active s \<and> again\<rparr>" by (elim pump_submitted_cases)
  have "context_inv s' ((if again then {#T_Loop e#} else after_pump e) + ts)"
    by (rule context_inv_swap(1) [of s "T_Submit e h r"]) (use pump_return(2) s in \<open>auto simp: km_inv_def\<close>)
  moreover have "child_inv s' g" "gate_inv s' g"
    using pump_return(2) s child_inv_kept [of s g s' g] gate_inv_kept [of s g s'] by (auto simp: km_inv_def)
  moreover have "pump_inv s' ((if again then {#T_Loop e#} else after_pump e) + ts)"
    by (rule pump_return_inv [of s e h r ts, OF _ pump_return(1)]) (use pump_return(2) in \<open>simp add: km_inv_def\<close>)
  ultimately show ?case by (simp only: km_inv_def km_system.simps simp_thms)
next
  case (open_start owner s ts g present)
  then show ?case using pump_inv_threads(1) [of s ts "T_Open owner (kn_generation s) present"]
    by (simp add: km_inv_def context_inv_threads(1))
next
  case (open_claim owner gen present s status s' ts)
  then show ?case
    using open_admit_inv [of s ts owner gen present status s'] pump_inv_threads(2) [of s "T_Open owner gen present" ts]
    by (simp add: km_inv_def context_inv_threads(1) Let_def)
next
  case (open_failed s ts owner)
  then have "pump_inv (reset_locked s) ts" using idle [of s ts] by (intro reset_kept) (simp_all add: km_inv_def)
  then show ?case using open_failed by (auto simp: km_inv_def context_inv_def child_inv_def)
next
  case (open_created h s c owner may_start s' ts)
  then show ?case using open_publish_inv [of s ts owner h c may_start s'] by (simp add: km_inv_def Let_def)
next
  case (open_started owner c ok s adopted s' ts)
  then have s: "s' = (if adopted then s\<lparr>kn_state := Slot_Active\<rparr> else stop_admission s)"
    by (auto simp: open_adopt_def Let_def split: if_splits)
  show ?case
  proof (cases adopted)
    case True
    then have "child_inv s' G_Free"
      using open_started(2) s by (intro child_inv_kept [of s "G_Started owner c" s' G_Free]) (simp_all add: km_inv_def)
    then show ?thesis using True open_started(2) s by (simp add: km_inv_def state_kept)
  next
    case False
    then show ?thesis using stop_inv [OF open_started(2)] s by simp
  qed
next
  case (submit owner input s status s' ts)
  then obtain core where s: "s' = s\<lparr>kn_core := core\<rparr>" "ke_retained core = ke_retained (kn_core s)"
    using that [of "kn_core s"] by (auto simp: submit_section_def dest: submit_retained split: if_splits prod.splits)
  show ?case using submit(2) s pump_inv_threads(1) [of s ts "T_Pump None"]
    by (simp add: km_inv_def core_kept context_inv_threads(1))
next
  case (close owner s act s' ts)
  from close(1) show ?case
  proof (cases rule: close_section_cases)
    case (core core)
    then show ?thesis using close(2) pump_inv_threads(1) [of s ts "T_Pump None"]
      by (auto simp: km_inv_def core_kept context_inv_threads(1))
  next
    case stop
    then show ?thesis using stop_inv [OF close(2)] by simp
  qed
next
  case (abort owner s act s' ts)
  then show ?case using stop_inv [OF abort(2)] by (auto simp: abort_section_def split: if_splits)
next
  case (cleanup_intent s ts g owner)
  then show ?case
    using child_inv_kept [of s g "s\<lparr>kn_cleanup := insert owner (kn_cleanup s)\<rparr>" g]
      gate_inv_kept [of s g "s\<lparr>kn_cleanup := insert owner (kn_cleanup s)\<rparr>"]
    by (simp add: km_inv_def pump_inv_def context_inv_def)
next
  case (cleanup s owner ts)
  then show ?case using stop_inv by simp
next
  case (flags s ts g powered stopping)
  then show ?case
    using child_inv_kept [of s g "s\<lparr>kn_stopping := stopping, kn_powered := powered\<rparr>" g]
      gate_inv_kept [of s g "s\<lparr>kn_stopping := stopping, kn_powered := powered\<rparr>"]
    by (simp add: km_inv_def pump_inv_def context_inv_def)
next
  case (power_down s ts retain)
  then show ?case using stop_inv by simp
next
  case (teardown s retain h c lost s' ts)
  then show ?case using teardown_inv [of s ts retain h c lost s'] by (simp add: km_inv_def)
next
  case (vhf_delete s ts h c lost)
  then show ?case using delete_inv [of s ts h c lost] by (simp add: km_inv_def)
next
  case (drained c s ts lost)
  then have "case c of None \<Rightarrow> True | Some d \<Rightarrow> entry_count s d = 0"
    by (auto simp: entry_count_def split: option.splits)
  then show ?case using drained drained_inv [of s ts c lost] by (simp add: km_inv_def)
qed

lemma km_reachable_inv: "km_reachable y \<Longrightarrow> km_inv y"
proof -
  have init: "km_inv \<lparr>ky_slot = new_slot, ky_threads = {#}, ky_gate = G_Free\<rparr>"
    by (simp add: km_inv_def new_slot_def pump_inv_def context_inv_def child_inv_def entry_count_def context_live_def)
  have "km_sys_step\<^sup>*\<^sup>* x y \<Longrightarrow> km_inv x \<Longrightarrow> km_inv y" for x
    by (induction rule: rtranclp_induct) (auto dest: km_step_inv)
  then show "km_reachable y \<Longrightarrow> km_inv y" using init by (auto simp: km_reachable_def)
qed

section \<open>A run\<close>

text \<open>The device is powered up, client 5 opens it, the framework calls back and the client's motion is
  being submitted.\<close>

definition demo_powered :: km_slot
  where "demo_powered = new_slot\<lparr>kn_stopping := False, kn_powered := True\<rparr>"

definition demo_claimed :: km_slot
  where "demo_claimed = snd (open_admit 5 0 False demo_powered)"

definition demo_created :: km_slot
  where "demo_created = snd (open_publish 5 1 0 demo_claimed)"

definition demo_open :: km_slot
  where "demo_open = snd (open_adopt 5 0 True demo_created)"

definition demo_ready :: km_slot
  where "demo_ready = snd (ready_section 0 (enter_context 0 demo_open))"

definition demo_input :: km_input
  where "demo_input = In_Relative \<lparr>kr_prefix = km_request 16, kr_x = 3, kr_y = 0, kr_wheel = 0,
    kr_pan = 0, kr_reserved = 0\<rparr>"

definition demo_queued :: km_slot
  where "demo_queued = snd (submit_section 5 demo_input demo_ready)"

definition demo_pumping :: km_slot
  where "demo_pumping = snd (pump_begin (Some 0) demo_queued)"

definition demo_submitting :: km_slot
  where "demo_submitting = snd (pump_next (Some 0) demo_pumping)"

lemmas demo_slots = demo_powered_def demo_claimed_def demo_created_def demo_open_def demo_ready_def
  demo_queued_def demo_pumping_def demo_submitting_def

definition demo_system :: km_system
  where "demo_system = \<lparr>ky_slot = demo_submitting,
    ky_threads = {#T_Submit (Some 0) 1 (kn_transfer demo_submitting), T_Pump None#}, ky_gate = G_Free\<rparr>"

lemma demo_sections:
  "open_check 5 demo_powered = Status_Success" "kn_generation demo_powered = 0"
  "fst (open_admit 5 0 False demo_powered) = Status_Success"
  "kn_children demo_claimed 1 = None" "kn_contexts demo_claimed 0 = None"
  "fst (open_publish 5 1 0 demo_claimed)" "fst (open_adopt 5 0 True demo_created)"
  "kn_children demo_open 1 = Some 0" "fst (ready_section 0 (enter_context 0 demo_open))"
  "fst (submit_section 5 demo_input demo_ready) = Status_Success"
  "fst (pump_begin (Some 0) demo_queued)"
  "fst (pump_next (Some 0) demo_pumping) = Some (1, kn_transfer demo_submitting)"
  by code_simp+

lemma km_reachable_step: "km_reachable y \<Longrightarrow> km_sys_step y y' \<Longrightarrow> km_reachable y'"
  unfolding km_reachable_def by (rule rtranclp.rtrancl_into_rtrancl)

lemma demo_open_reachable: "km_reachable \<lparr>ky_slot = demo_open, ky_threads = {#}, ky_gate = G_Free\<rparr>"
proof -
  have "km_reachable \<lparr>ky_slot = new_slot, ky_threads = {#}, ky_gate = G_Free\<rparr>" by (simp add: km_reachable_def)
  from km_reachable_step [OF this km_sys_step.flags]
  have "km_reachable \<lparr>ky_slot = demo_powered, ky_threads = {#}, ky_gate = G_Free\<rparr>" unfolding demo_powered_def .
  from km_reachable_step [OF this km_sys_step.open_start [of 5 demo_powered "{#}" G_Free False]]
  have "km_reachable \<lparr>ky_slot = demo_powered, ky_threads = {#T_Open 5 0 False#}, ky_gate = G_Free\<rparr>"
    by (simp add: demo_sections)
  from km_reachable_step [OF this km_sys_step.open_claim [of 5 0 False demo_powered Status_Success demo_claimed "{#}"]]
  have "km_reachable \<lparr>ky_slot = demo_claimed, ky_threads = {#}, ky_gate = G_Claimed 5\<rparr>"
    by (simp add: demo_claimed_def prod_eq_iff demo_sections nt_success_def)
  from km_reachable_step [OF this km_sys_step.open_created [of 1 demo_claimed 0 5 True demo_created "{#}"]]
  have "km_reachable \<lparr>ky_slot = demo_created, ky_threads = {#}, ky_gate = G_Started 5 0\<rparr>"
    by (simp add: demo_created_def prod_eq_iff demo_sections del: One_nat_def)
  from km_reachable_step [OF this km_sys_step.open_started [of 5 0 True demo_created True demo_open "{#}"]]
  show ?thesis by (simp add: demo_open_def prod_eq_iff demo_sections)
qed

lemma km_demo_reachable: "km_reachable demo_system"
proof -
  from km_reachable_step [OF demo_open_reachable km_sys_step.ready_entry [of demo_open 1 0 "{#}" G_Free]]
  have "km_reachable \<lparr>ky_slot = enter_context 0 demo_open, ky_threads = {#T_Ready 0#}, ky_gate = G_Free\<rparr>"
    by (simp add: demo_sections del: One_nat_def)
  from km_reachable_step [OF this km_sys_step.ready_run [of 0 "enter_context 0 demo_open" True demo_ready "{#}" G_Free]]
  have "km_reachable \<lparr>ky_slot = demo_ready, ky_threads = {#T_Pump (Some 0)#}, ky_gate = G_Free\<rparr>"
    by (simp add: demo_ready_def prod_eq_iff demo_sections)
  from km_reachable_step [OF this km_sys_step.submit [of 5 demo_input demo_ready Status_Success demo_queued "{#T_Pump (Some 0)#}"]]
  have "km_reachable \<lparr>ky_slot = demo_queued, ky_threads = {#T_Pump (Some 0), T_Pump None#}, ky_gate = G_Free\<rparr>"
    by (simp add: demo_queued_def prod_eq_iff demo_sections nt_success_def add_mset_commute)
  from km_reachable_step [OF this km_sys_step.pump_start [of "Some 0" demo_queued True demo_pumping "{#T_Pump None#}" G_Free]]
  have "km_reachable \<lparr>ky_slot = demo_pumping, ky_threads = {#T_Loop (Some 0), T_Pump None#}, ky_gate = G_Free\<rparr>"
    by (simp add: demo_pumping_def prod_eq_iff demo_sections add_mset_commute)
  from km_reachable_step [OF this km_sys_step.pump_take [of "Some 0" demo_pumping 1 "kn_transfer demo_submitting"
      demo_submitting "{#T_Pump None#}" G_Free]]
  show ?thesis by (simp add: demo_system_def demo_submitting_def prod_eq_iff demo_sections [unfolded demo_submitting_def] add_mset_commute del: One_nat_def)
qed

definition demo_aborting :: km_system
  where "demo_aborting = demo_system\<lparr>ky_slot := stop_admission demo_submitting, ky_gate := G_Wait False\<rparr>"

lemma demo_aborting_reachable: "km_reachable demo_aborting"
proof -
  have "abort_section 5 demo_submitting = (Inr (), stop_admission demo_submitting)"
    unfolding abort_section_def by (rule trans [OF if_not_P if_not_P]) code_simp+
  from km_reachable_step [OF km_demo_reachable [unfolded demo_system_def] km_sys_step.abort [OF this]]
  show ?thesis by (simp add: demo_aborting_def demo_system_def)
qed

section \<open>What a submission can rely on\<close>

lemma submission_pinned:
  assumes "pump_inv s ts" "child_inv s g" "T_Submit e h r \<in># ts"
  shows "kn_children s h \<noteq> None \<and> kn_transfer s = r \<and> ke_retained (kn_core s) = r"
proof -
  have "loops ts \<noteq> 0" using assms(3) no_submits by blast
  then have "kn_vhf s \<noteq> null_handle" using assms(1) by (metis pump_inv_def)
  moreover have "h = kn_vhf s" "kn_transfer s = r" "ke_retained (kn_core s) = r"
    using assms(1,3) unfolding pump_inv_def by blast+
  ultimately show ?thesis using assms(2) by (simp add: child_inv_def)
qed

lemma one_submission: "pump_inv s ts \<Longrightarrow> submits ts \<le> 1"
  using submits_le_loops [of ts] by (simp add: pump_inv_def split: if_splits)

lemma entered_context_live:
  assumes "context_inv s ts" "t \<in># ts" "context_of t = Some c"
  shows "kn_contexts s c \<noteq> None"
proof -
  obtain rest where "ts = add_mset t rest" using assms(2) by (meson multi_member_split)
  then have "entries c ts \<noteq> 0" using assms(3) by simp
  then have "entry_count s c \<noteq> 0" using assms(1) by (simp add: context_inv_def)
  then show ?thesis by (cases "kn_contexts s c") (simp_all add: entry_count_def)
qed



section \<open>A teardown ends\<close>

text \<open>What a thread has left to do when it cannot take another report.\<close>

fun thread_work :: "km_thread \<Rightarrow> nat"
  where
    "thread_work (T_Ready _) = 4" | "thread_work (T_Pump _) = 3" | "thread_work (T_Submit _ _ _) = 3"
  | "thread_work (T_Loop _) = 2" | "thread_work (T_Leave _) = 1" | "thread_work (T_Open _ _ _) = 0"

definition pump_work :: "km_thread multiset \<Rightarrow> nat"
  where "pump_work ts = (\<Sum>t\<in>#ts. if is_loop t then thread_work t else 0)"

definition entry_work :: "km_thread multiset \<Rightarrow> nat"
  where "entry_work ts = (\<Sum>t\<in>#ts. if context_of t = None then 0 else thread_work t)"

text \<open>The phase of a teardown, and what its wait waits for.\<close>

definition teardown_rank :: "km_system \<Rightarrow> nat \<times> nat"
  where "teardown_rank y = (case ky_gate y of G_Wait _ \<Rightarrow> (3, pump_work (ky_threads y))
     | G_Delete _ _ _ \<Rightarrow> (2, 0) | G_Drain _ _ \<Rightarrow> (1, entry_work (ky_threads y)) | _ \<Rightarrow> (0, 0))"

definition rank_order :: "((nat \<times> nat) \<times> (nat \<times> nat)) set"
  where "rank_order = less_than <*lex*> less_than"

lemma rank_order_simps [simp]: "((a, b), (c, d)) \<in> rank_order \<longleftrightarrow> a < c \<or> a = c \<and> b < d"
  by (simp add: rank_order_def)

lemma work_simps [simp]:
  "pump_work {#} = 0" "entry_work {#} = 0"
  "pump_work (add_mset t ts) = (if is_loop t then thread_work t else 0) + pump_work ts"
  "entry_work (add_mset t ts) = (if context_of t = None then 0 else thread_work t) + entry_work ts"
  "pump_work (after_pump e + ts) = pump_work ts"
  "entry_work (after_pump e + ts) = (if e = None then 0 else 1) + entry_work ts"
  by (simp_all add: pump_work_def entry_work_def after_pump_def split: option.split)

lemma teardown_gate:
  assumes "fst (teardown_rank y) \<noteq> 0"
  obtains s ts g where "y = \<lparr>ky_slot = s, ky_threads = ts, ky_gate = g\<rparr>"
    "(\<exists>r. g = G_Wait r) \<or> (\<exists>h c l. g = G_Delete h c l) \<or> (\<exists>c l. g = G_Drain c l)"
  using assms that by (cases y) (auto simp: teardown_rank_def split: km_gate.splits)

text \<open>During a teardown nothing may pump.\<close>

lemma teardown_stops:
  assumes "km_inv y" "fst (teardown_rank y) \<noteq> 0"
  shows "\<not> can_pump (ky_slot y) e"
  using assms by (elim teardown_gate) (auto simp: km_inv_def can_pump_def)

lemma stopped_sections:
  assumes "\<not> can_pump s e"
  shows "pump_begin e s = (False, s)" "pump_next e s = (None, s\<lparr>kn_pump_active := False\<rparr>)"
  using assms by (simp_all add: pump_begin_def pump_next_def)

lemma teardown_never_back:
  assumes "km_sys_step y y'" "km_inv y" "fst (teardown_rank y) \<noteq> 0"
  shows "teardown_rank y' = teardown_rank y \<or> (teardown_rank y', teardown_rank y) \<in> rank_order"
proof -
  note stop = teardown_stops [OF assms(2,3)]
  from assms(1) show ?thesis
  proof cases
    case (ready_entry s h c ts g)
    then show ?thesis using assms(2)
      by (auto simp: teardown_rank_def km_inv_def child_inv_def split: km_gate.splits)
  next
    case (ready_run c s admitted s' ts g)
    then show ?thesis by (auto simp: teardown_rank_def split: km_gate.splits)
  next
    case (ready_leave s c ts g)
    then show ?thesis by (auto simp: teardown_rank_def split: km_gate.splits)
  next
    case (pump_start e s mine s' ts g)
    then show ?thesis using stop stopped_sections(1) [of s e]
      by (auto simp: teardown_rank_def split: km_gate.splits)
  next
    case (pump_take e s h r s' ts g)
    then show ?thesis using stop stopped_sections(2) [of s e] by simp
  next
    case (pump_disarm e s s' ts g)
    then show ?thesis by (auto simp: teardown_rank_def split: km_gate.splits)
  next
    case (pump_return e ok s again s' h r ts g)
    then show ?thesis by (cases again) (auto simp: teardown_rank_def split: km_gate.splits)
  next
    case (open_start owner s ts g present)
    then show ?thesis by (auto simp: teardown_rank_def split: km_gate.splits)
  qed (use assms(3) in \<open>auto simp: teardown_rank_def split: km_gate.splits\<close>)
qed

text \<open>A thread with work left is never blocked.\<close>

lemma thread_progress:
  assumes "t \<in># ts" "thread_work t \<noteq> 0" "\<And>e. \<not> can_pump s e"
  obtains s' us where "km_sys_step \<lparr>ky_slot = s, ky_threads = ts, ky_gate = g\<rparr>
      \<lparr>ky_slot = s', ky_threads = us + (ts - {#t#}), ky_gate = g\<rparr>"
    "us = {#} \<or> (\<exists>u. us = {#u#} \<and> thread_work u < thread_work t \<and> context_of u = context_of t \<and> (is_loop u \<longrightarrow> is_loop t))"
proof -
  obtain rest where ts: "ts = add_mset t rest" using assms(1) by (meson multi_member_split)
  have after: "after_pump e = {#} \<or> (\<exists>c. e = Some c \<and> after_pump e = {#T_Leave c#})" for e
    by (cases e) (simp_all add: after_pump_def)
  show ?thesis
  proof (cases t)
    case (T_Ready c)
    obtain admitted s' where "ready_section c s = (admitted, s')" by fastforce
    from km_sys_step.ready_run [OF this, of rest g] show ?thesis
      by (intro that [of s' "{#if admitted then T_Pump (Some c) else T_Leave c#}"]) (simp_all add: ts T_Ready)
  next
    case (T_Pump e)
    from km_sys_step.pump_start [OF stopped_sections(1) [OF assms(3)], of e rest g] show ?thesis
      by (intro that [of s "after_pump e"]) (use after [of e] in \<open>auto simp: ts T_Pump\<close>)
  next
    case (T_Loop e)
    from km_sys_step.pump_disarm [OF stopped_sections(2) [OF assms(3)], of e rest g] show ?thesis
      by (intro that [of "s\<lparr>kn_pump_active := False\<rparr>" "after_pump e"]) (use after [of e] in \<open>auto simp: ts T_Loop\<close>)
  next
    case (T_Submit e h r)
    obtain again s' where "pump_submitted e True s = (again, s')" by fastforce
    from km_sys_step.pump_return [OF this, of h r rest g] show ?thesis
      by (intro that [of s' "if again then {#T_Loop e#} else after_pump e"])
        (use after [of e] in \<open>auto simp: ts T_Submit\<close>)
  next
    case (T_Leave c)
    from km_sys_step.ready_leave [of s c rest g] show ?thesis
      by (intro that [of "leave_context c s" "{#}"]) (simp_all add: ts T_Leave)
  qed (use assms(2) in simp)
qed

lemma work_left:
  "pump_work ts \<noteq> 0 \<Longrightarrow> \<exists>t. t \<in># ts \<and> is_loop t" "entry_work ts \<noteq> 0 \<Longrightarrow> \<exists>t. t \<in># ts \<and> context_of t \<noteq> None"
  by (induction ts) (auto split: if_splits)

lemma work_done:
  "pump_work ts = 0 \<Longrightarrow> loops ts = 0" "entry_work ts = 0 \<Longrightarrow> entries c ts = 0"
proof (induction ts)
  case (add t ts)
  { case 1 then show ?case using add by (cases t) auto }
  { case 2 then show ?case using add by (cases t) auto }
qed simp_all

lemma teardown_advances:
  assumes "km_inv y" "fst (teardown_rank y) \<noteq> 0"
  obtains y' where "km_sys_step y y'" "(teardown_rank y', teardown_rank y) \<in> rank_order"
proof -
  obtain s ts g where y: "y = \<lparr>ky_slot = s, ky_threads = ts, ky_gate = g\<rparr>" using assms(2) by (elim teardown_gate)
  have stop: "\<not> can_pump s e" for e using teardown_stops [OF assms] y by simp
  have inv: "pump_inv s ts" "context_inv s ts" using assms(1) y by (simp_all add: km_inv_def)
  consider (wait) retain where "g = G_Wait retain" | (delete) h c lost where "g = G_Delete h c lost"
    | (drain) c lost where "g = G_Drain c lost"
    using assms(2) y by (auto simp: teardown_rank_def split: km_gate.splits)
  then show ?thesis
  proof cases
    case wait
    show ?thesis
    proof (cases "pump_work ts = 0")
      case True
      obtain h c lost s' where "delete_take retain s = ((h, c, lost), s')" by (metis prod_cases3 surj_pair)
      with True work_done(1) inv(1) no_submits submits_le_loops [of ts] show ?thesis
        by (intro that [of "\<lparr>ky_slot = s', ky_threads = ts, ky_gate = G_Delete h c lost\<rparr>"])
          (auto simp: y wait teardown_rank_def pump_inv_def intro!: km_sys_step.teardown split: if_splits)
    next
      case False
      then obtain t where t: "t \<in># ts" "is_loop t" using work_left by blast
      from t(2) have "thread_work t \<noteq> 0" by (cases t) auto
      from thread_progress [OF t(1) this stop] obtain s' us where
        us: "km_sys_step y \<lparr>ky_slot = s', ky_threads = us + (ts - {#t#}), ky_gate = g\<rparr>"
        "us = {#} \<or> (\<exists>u. us = {#u#} \<and> thread_work u < thread_work t \<and> context_of u = context_of t \<and> (is_loop u \<longrightarrow> is_loop t))"
        unfolding y by metis
      obtain rest where "ts = add_mset t rest" using t(1) by (meson multi_member_split)
      then show ?thesis using us \<open>thread_work t \<noteq> 0\<close> t(2)
        by (intro that [OF us(1)]) (auto simp: y wait teardown_rank_def)
    qed
  next
    case delete
    show ?thesis by (rule that) (auto simp: y delete teardown_rank_def intro!: km_sys_step.vhf_delete)
  next
    case drain
    show ?thesis
    proof (cases "entry_work ts = 0")
      case True
      have "kn_contexts s d \<noteq> None" if "c = Some d" for d
        using assms(1) that by (auto simp: y drain km_inv_def child_inv_def context_live_def)
      moreover have "entry_count s d = 0" for d using True work_done(2) inv(2) by (simp add: context_inv_def)
      then have "kn_contexts s d = Some x \<Longrightarrow> kx_entries x = 0" for d x
        by (metis entry_count_def option.simps(5))
      ultimately have "case c of None \<Rightarrow> True | Some c \<Rightarrow> map_option kx_entries (kn_contexts s c) = Some 0"
        by (auto split: option.split)
      then show ?thesis by (intro that [OF km_sys_step.drained [of s c ts lost, folded drain, folded y]])
        (auto simp: y drain teardown_rank_def)
    next
      case False
      then obtain t where t: "t \<in># ts" "context_of t \<noteq> None" using work_left by blast
      from t(2) have "thread_work t \<noteq> 0" by (cases t) auto
      from thread_progress [OF t(1) this stop] obtain s' us where
        us: "km_sys_step y \<lparr>ky_slot = s', ky_threads = us + (ts - {#t#}), ky_gate = g\<rparr>"
        "us = {#} \<or> (\<exists>u. us = {#u#} \<and> thread_work u < thread_work t \<and> context_of u = context_of t \<and> (is_loop u \<longrightarrow> is_loop t))"
        unfolding y by metis
      obtain rest where "ts = add_mset t rest" using t(1) by (meson multi_member_split)
      then show ?thesis using us \<open>thread_work t \<noteq> 0\<close> t(2)
        by (intro that [OF us(1)]) (auto simp: y drain teardown_rank_def)
    qed
  qed
qed

lemma teardown_released:
  assumes "km_sys_step y y'" "km_inv y" "fst (teardown_rank y) \<noteq> 0" "fst (teardown_rank y') = 0"
  shows "ky_gate y' = G_Free \<and> kn_vhf (ky_slot y') = null_handle \<and> (\<forall>c. kn_contexts (ky_slot y') c = None)"
proof -
  have inv: "km_inv y'" by (rule km_step_inv [OF assms(1,2)])
  from assms(1) have "ky_gate y' = G_Free \<and> kn_vhf (ky_slot y') = null_handle"
  proof cases
    case (drained c s ts lost)
    then have "kn_vhf s = null_handle" using assms(2) by (simp add: km_inv_def)
    then show ?thesis using drained
      by (simp add: free_context_def delete_reset_def reset_locked_def Let_def split: option.split)
  qed (use assms(3,4) in \<open>auto simp: teardown_rank_def split: km_gate.splits\<close>)
  then show ?thesis using inv by (cases y') (auto simp: km_inv_def child_inv_def context_live_def)
qed

lemma teardown_runs:
  assumes "km_inv y" "fst (teardown_rank y) \<noteq> 0"
  shows "\<exists>y'. km_sys_step\<^sup>*\<^sup>* y y' \<and> ky_gate y' = G_Free \<and> kn_vhf (ky_slot y') = null_handle \<and>
    (\<forall>c. kn_contexts (ky_slot y') c = None)"
proof -
  have wf: "wf (inv_image rank_order teardown_rank)" by (auto simp: rank_order_def)
  show ?thesis using assms
  proof (induction y rule: wf_induct_rule [OF wf])
    case (1 y)
    obtain z where z: "km_sys_step y z" "(teardown_rank z, teardown_rank y) \<in> rank_order"
      using teardown_advances [OF 1(2,3)] by blast
    show ?case
    proof (cases "fst (teardown_rank z) = 0")
      case True
      then show ?thesis using teardown_released [OF z(1) 1(2,3)] z(1) by blast
    next
      case False
      then show ?thesis using 1(1) [of z] z km_step_inv [OF z(1) 1(2)]
        by (auto intro: converse_rtranclp_into_rtranclp)
    qed
  qed
qed



end
