(* ===== verification/KeyboardMouseControl.thy ===== *)
theory KeyboardMouseControl
  imports KeyboardMouseNative Client
begin

text \<open>
  The control channel of the keyboard and mouse, from the client's calls to the endpoint: the
  wire structs of \<^theory_text>\<open>include/libvirtualgamepad/keyboard_mouse_control.h\<close>, the
  authorisation and the dispatch of \<^theory_text>\<open>driver/src/keyboard_mouse_native.inc\<close>, and
  the keyboard and mouse calls of \<^theory_text>\<open>client/client.cpp\<close>. A request runs here
  without another thread in between (KeyboardMouseNative has the interleavings): the answers of
  the framework and of Windows are the record \<open>km_host\<close>. What is proved is the contract of a
  submission as the client sees it, and that a request without authority changes nothing.
\<close>

section \<open>Structs and codes\<close>

datatype km_control = Control_Query | Control_Open | Control_Close | Control_Abort | Control_Keyboard
  | Control_Button | Control_Relative | Control_Absolute | Control_Consumer

fun km_code :: "km_control \<Rightarrow> u32"
  where
    "km_code Control_Query = ctl_code 0x820"
  | "km_code Control_Open = ctl_code 0x821"
  | "km_code Control_Close = ctl_code 0x822"
  | "km_code Control_Keyboard = ctl_code 0x823"
  | "km_code Control_Button = ctl_code 0x824"
  | "km_code Control_Relative = ctl_code 0x825"
  | "km_code Control_Absolute = ctl_code 0x826"
  | "km_code Control_Abort = ctl_code 0x827"
  | "km_code Control_Consumer = ctl_code 0x828"

definition km_controls :: "km_control list"
  where "km_controls = [Control_Query, Control_Open, Control_Close, Control_Abort, Control_Keyboard,
    Control_Button, Control_Relative, Control_Absolute, Control_Consumer]"

definition km_control_of :: "u32 \<Rightarrow> km_control option"
  where "km_control_of code = find (\<lambda>c. km_code c = code) km_controls"

lemma km_codes_distinct: "list_all (\<lambda>c. km_control_of (km_code c) = Some c) km_controls"
  by code_simp

lemma km_control_of_code [simp]: "km_control_of (km_code c) = Some c"
proof -
  have "c \<in> set km_controls" by (cases c) (simp_all add: km_controls_def)
  with km_codes_distinct show ?thesis by (simp only: list_all_iff)
qed

lemma km_control_of_Some: "km_control_of code = Some c \<Longrightarrow> code = km_code c"
  by (auto simp: km_control_of_def find_Some_iff)

definition submission_accepted :: u32
  where "submission_accepted = 0"

definition submission_busy :: u32
  where "submission_busy = 1"

record submission_response =
  sr_prefix :: km_header
  sr_acceptance :: u32
  sr_reserved :: u32

record km_query_response =
  kq_prefix :: km_header
  kq_capabilities :: u32
  kq_queue_capacity :: u32
  kq_absolute_target_generation :: u32
  kq_reserved :: u32

definition cap_keyboard :: u32
  where "cap_keyboard = 1"

definition cap_relative_mouse :: u32
  where "cap_relative_mouse = 2"

definition cap_wheel_detents :: u32
  where "cap_wheel_detents = 4"

definition cap_bound_absolute_mouse :: u32
  where "cap_bound_absolute_mouse = 8"

definition cap_primary_absolute_mouse :: u32
  where "cap_primary_absolute_mouse = 16"

definition cap_consumer :: u32
  where "cap_consumer = 32"

definition k_required_capabilities :: u32
  where "k_required_capabilities = cap_keyboard OR cap_relative_mouse OR cap_wheel_detents OR cap_bound_absolute_mouse"

definition k_relative_capabilities :: u32
  where "k_relative_capabilities = cap_keyboard OR cap_relative_mouse OR cap_wheel_detents"

definition k_primary_capabilities :: u32
  where "k_primary_capabilities =
    k_relative_capabilities OR cap_bound_absolute_mouse OR cap_primary_absolute_mouse OR cap_consumer"

lemmas capabilities = cap_keyboard_def cap_relative_mouse_def cap_wheel_detents_def cap_bound_absolute_mouse_def
  cap_primary_absolute_mouse_def cap_consumer_def k_required_capabilities_def k_relative_capabilities_def
  k_primary_capabilities_def

definition km_header_bytes :: "km_header \<Rightarrow> byte list"
  where "km_header_bytes h = le32_bytes (kh_size h) @ le16_bytes (kh_version h) @ le16_bytes (kh_reserved h)"

definition km_header_at :: "byte list \<Rightarrow> km_header"
  where "km_header_at b = \<lparr>kh_size = u32_at b 0, kh_version = read_u16 b 4, kh_reserved = read_u16 b 6\<rparr>"

fun km_input_bytes :: "km_input \<Rightarrow> byte list"
  where
    "km_input_bytes (In_Key r) =
       km_header_bytes (kk_prefix r) @ le16_bytes (kk_usage r) @ [kk_pressed r, kk_reserved r]"
  | "km_input_bytes (In_Consumer r) =
       km_header_bytes (kc_prefix r) @ le16_bytes (kc_usage r) @ [kc_pressed r, kc_reserved r]"
  | "km_input_bytes (In_Button r) =
       km_header_bytes (kb_prefix r) @ [kb_button r, kb_pressed r] @ le16_bytes (kb_reserved r)"
  | "km_input_bytes (In_Relative r) =
       km_header_bytes (kr_prefix r) @ i16_bytes (kr_x r) @ i16_bytes (kr_y r) @
       [byte_of_int (kr_wheel r), byte_of_int (kr_pan r)] @ le16_bytes (kr_reserved r)"
  | "km_input_bytes (In_Absolute r) =
       km_header_bytes (ka_prefix r) @ le16_bytes (ka_x r) @ le16_bytes (ka_y r) @
       le32_bytes (ka_target_generation r)"

text \<open>The struct a submission's code stands for, read from the request's bytes.\<close>

fun parse_km_input :: "km_control \<Rightarrow> byte list \<Rightarrow> km_input option"
  where
    "parse_km_input Control_Keyboard b = Some (In_Key
       \<lparr>kk_prefix = km_header_at b, kk_usage = read_u16 b 8, kk_pressed = b ! 10, kk_reserved = b ! 11\<rparr>)"
  | "parse_km_input Control_Consumer b = Some (In_Consumer
       \<lparr>kc_prefix = km_header_at b, kc_usage = read_u16 b 8, kc_pressed = b ! 10, kc_reserved = b ! 11\<rparr>)"
  | "parse_km_input Control_Button b = Some (In_Button
       \<lparr>kb_prefix = km_header_at b, kb_button = b ! 8, kb_pressed = b ! 9, kb_reserved = read_u16 b 10\<rparr>)"
  | "parse_km_input Control_Relative b = Some (In_Relative
       \<lparr>kr_prefix = km_header_at b, kr_x = sint (read_u16 b 8), kr_y = sint (read_u16 b 10),
        kr_wheel = sint (b ! 12), kr_pan = sint (b ! 13), kr_reserved = read_u16 b 14\<rparr>)"
  | "parse_km_input Control_Absolute b = Some (In_Absolute
       \<lparr>ka_prefix = km_header_at b, ka_x = read_u16 b 8, ka_y = read_u16 b 10,
        ka_target_generation = u32_at b 12\<rparr>)"
  | "parse_km_input _ b = None"

fun km_input_size :: "km_control \<Rightarrow> nat"
  where
    "km_input_size Control_Relative = 16"
  | "km_input_size Control_Absolute = 16"
  | "km_input_size Control_Keyboard = 12"
  | "km_input_size Control_Consumer = 12"
  | "km_input_size Control_Button = 12"
  | "km_input_size _ = 8"

fun control_of_input :: "km_input \<Rightarrow> km_control"
  where
    "control_of_input (In_Key _) = Control_Keyboard"
  | "control_of_input (In_Consumer _) = Control_Consumer"
  | "control_of_input (In_Button _) = Control_Button"
  | "control_of_input (In_Relative _) = Control_Relative"
  | "control_of_input (In_Absolute _) = Control_Absolute"

fun input_prefix :: "km_input \<Rightarrow> km_header"
  where
    "input_prefix (In_Key r) = kk_prefix r"
  | "input_prefix (In_Consumer r) = kc_prefix r"
  | "input_prefix (In_Button r) = kb_prefix r"
  | "input_prefix (In_Relative r) = kr_prefix r"
  | "input_prefix (In_Absolute r) = ka_prefix r"

definition submission_bytes :: "submission_response \<Rightarrow> byte list"
  where "submission_bytes r = km_header_bytes (sr_prefix r) @ le32_bytes (sr_acceptance r) @ le32_bytes (sr_reserved r)"

definition parse_submission :: "byte list \<Rightarrow> submission_response"
  where "parse_submission b = \<lparr>sr_prefix = km_header_at b, sr_acceptance = u32_at b 8, sr_reserved = u32_at b 12\<rparr>"

definition km_query_bytes :: "km_query_response \<Rightarrow> byte list"
  where "km_query_bytes q = km_header_bytes (kq_prefix q) @ le32_bytes (kq_capabilities q) @
    le32_bytes (kq_queue_capacity q) @ le32_bytes (kq_absolute_target_generation q) @ le32_bytes (kq_reserved q)"

definition parse_km_query :: "byte list \<Rightarrow> km_query_response"
  where "parse_km_query b = \<lparr>kq_prefix = km_header_at b, kq_capabilities = u32_at b 8,
    kq_queue_capacity = u32_at b 12, kq_absolute_target_generation = u32_at b 16, kq_reserved = u32_at b 20\<rparr>"

lemma km_header_at_bytes [simp]: "km_header_at (km_header_bytes h @ b) = h" "length (km_header_bytes h) = 8"
  by (simp_all add: km_header_at_def km_header_bytes_def layout_bytes u32_at_def read_u16_def)

lemma parse_submission_bytes [simp]:
  "parse_submission (submission_bytes r) = r" "length (submission_bytes r) = 16"
  by (simp_all add: parse_submission_def submission_bytes_def km_header_at_def km_header_bytes_def layout_bytes
      u32_at_def read_u16_def)

lemma parse_km_query_bytes [simp]: "parse_km_query (km_query_bytes q) = q" "length (km_query_bytes q) = 24"
  by (simp_all add: parse_km_query_def km_query_bytes_def km_header_at_def km_header_bytes_def layout_bytes
      u32_at_def read_u16_def)

text \<open>A motion's fields are values of their types.\<close>

fun input_in_type :: "km_input \<Rightarrow> bool"
  where
    "input_in_type (In_Relative r) \<longleftrightarrow> i16_ok (kr_x r) \<and> i16_ok (kr_y r) \<and>
       - 128 \<le> kr_wheel r \<and> kr_wheel r < 128 \<and> - 128 \<le> kr_pan r \<and> kr_pan r < 128"
  | "input_in_type _ \<longleftrightarrow> True"

lemma parse_km_input_bytes:
  "input_in_type i \<Longrightarrow> parse_km_input (control_of_input i) (km_input_bytes i) = Some i \<and>
    length (km_input_bytes i) = km_input_size (control_of_input i) \<and>
    km_header_at (km_input_bytes i) = input_prefix i"
  by (cases i) (auto simp: km_header_bytes_def km_header_at_def i16_bytes_def layout_bytes u32_at_def read_u16_def
      sint_byte_of_int)

section \<open>The driver's side\<close>

text \<open>The rest of the machine as a request meets it: whether Configuration Manager still knows an
  earlier child, what the framework answers to the steps of an open and to each report, and what
  the tokens of the requestor say. The last four are what the calls of
  \<^theory_text>\<open>evt_keyboard_mouse_authorize\<close> return.\<close>

record km_host =
  kv_previous :: bool
  kv_target :: ntstatus
  kv_created :: "ntstatus + handle \<times> nat"
  kv_started :: ntstatus
  kv_submitted :: "handle \<Rightarrow> km_report \<Rightarrow> ntstatus"
  kv_requestor :: u32
  kv_impersonated :: ntstatus
  kv_token :: bool
  kv_system_user :: bool
  kv_admin_checked :: bool
  kv_admin_member :: bool

record km_file =
  kf_opener_process :: bool
  kf_opener_process_id :: u32

record km_device =
  kd_slot :: km_slot
  kd_files :: "handle \<Rightarrow> km_file"

definition evt_keyboard_mouse_authorize :: "km_host \<Rightarrow> bool"
  where "evt_keyboard_mouse_authorize host =
    (if \<not> kv_token host then False
     else kv_system_user host \<or> (kv_admin_checked host \<and> kv_admin_member host))"

definition keyboard_mouse_authorized :: "km_host \<Rightarrow> handle \<Rightarrow> km_device \<Rightarrow> bool"
  where "keyboard_mouse_authorized host owner d =
    (if owner = null_handle then False
     else if \<not> kf_opener_process (kd_files d owner) \<or> kv_requestor host = 0 \<or>
       kv_requestor host \<noteq> kf_opener_process_id (kd_files d owner) then False
     else nt_success (kv_impersonated host) \<and> evt_keyboard_mouse_authorize host)"

text \<open>The creation of a file object: \<open>opens\<close> says whether the opener could be pinned.\<close>

definition km_file_create :: "u32 \<Rightarrow> bool \<Rightarrow> handle \<Rightarrow> km_device \<Rightarrow> km_device"
  where "km_file_create requestor opens owner d =
    (if owner = null_handle then d
     else d\<lparr>kd_slot := (kd_slot d)\<lparr>kn_cleanup := kn_cleanup (kd_slot d) - {owner}\<rparr>,
       kd_files := (kd_files d)(owner :=
         \<lparr>kf_opener_process = (requestor \<noteq> 0 \<and> opens), kf_opener_process_id = requestor\<rparr>)\<rparr>)"

lemma pump_next_credit:
  "(Some hr, s') = pump_next None s \<Longrightarrow> ke_credit (kn_core s) \<and> \<not> ke_credit (kn_core s')"
  by (auto simp: pump_next_def km_take_def Let_def split: if_splits)

lemma pump_submitted_credit:
  "(True, s') = pump_submitted None accepted s \<Longrightarrow> kn_core s' = kn_core s"
  by (auto simp: pump_submitted_def retired_def Let_def split: if_splits)

text \<open>\<^theory_text>\<open>pump_keyboard_mouse\<close> from the caller's thread: a report in flight takes the
  readiness credit with it, so the loop ends after it.\<close>

function pump_loop :: "km_host \<Rightarrow> km_slot \<Rightarrow> ntstatus \<times> km_slot"
  where "pump_loop host s =
    (case pump_next None s of
       (None, s) \<Rightarrow> (Status_Success, s)
     | (Some (h, r), s) \<Rightarrow>
         (case pump_submitted None (nt_success (kv_submitted host h r)) s of (again, s) \<Rightarrow>
           if again then pump_loop host s else (Status_Device_Not_Ready, s)))"
  by pat_completeness auto

termination
  by (relation "measure (\<lambda>(host, s). if ke_credit (kn_core s) then 1 else 0)")
    (auto dest!: pump_next_credit pump_submitted_credit)

declare pump_loop.simps [simp del]

definition pump_keyboard_mouse :: "km_host \<Rightarrow> km_slot \<Rightarrow> ntstatus \<times> km_slot"
  where "pump_keyboard_mouse host s =
    (case pump_begin None s of (mine, s) \<Rightarrow> if mine then pump_loop host s else (Status_Success, s))"

definition delete_stopped_keyboard_mouse :: "bool \<Rightarrow> km_slot \<Rightarrow> km_slot"
  where "delete_stopped_keyboard_mouse retain_lost_owner s =
    (case delete_take retain_lost_owner s of ((h, c, lost), s) \<Rightarrow>
      free_context c (delete_reset lost
        (if h \<noteq> null_handle then s\<lparr>kn_children := (kn_children s)(h := None)\<rparr> else s)))"

definition open_keyboard_mouse :: "km_host \<Rightarrow> handle \<Rightarrow> km_slot \<Rightarrow> ntstatus \<times> km_slot"
  where "open_keyboard_mouse host owner s =
    (if open_check owner s \<noteq> Status_Success then (open_check owner s, s)
     else
       case open_admit owner (kn_generation s) (kv_previous host) s of (admitted, s) \<Rightarrow>
         if \<not> nt_success admitted then (admitted, s)
         else if \<not> nt_success (kv_target host) then (kv_target host, reset_locked s)
         else
           case kv_created host of
             Inl status \<Rightarrow> (status, reset_locked s)
           | Inr (h, c) \<Rightarrow>
               (case open_publish owner h c s of (may_start, s) \<Rightarrow>
                 if \<not> may_start then (Status_Cancelled, delete_stopped_keyboard_mouse False s)
                 else
                   case open_adopt owner c (nt_success (kv_started host)) s of (adopted, s) \<Rightarrow>
                     if adopted then (Status_Success, s)
                     else (if nt_success (kv_started host) then Status_Cancelled else kv_started host,
                           delete_stopped_keyboard_mouse False s)))"

definition submit_keyboard_mouse :: "km_host \<Rightarrow> handle \<Rightarrow> km_input \<Rightarrow> km_slot \<Rightarrow> ntstatus \<times> km_slot"
  where "submit_keyboard_mouse host owner input s =
    (case submit_section owner input s of (status, s) \<Rightarrow>
      if nt_success status then pump_keyboard_mouse host s else (status, s))"

definition close_keyboard_mouse :: "km_host \<Rightarrow> handle \<Rightarrow> km_slot \<Rightarrow> ntstatus \<times> km_slot"
  where "close_keyboard_mouse host owner s =
    (case close_section owner s of
       (Close_Failed status, s) \<Rightarrow> (status, s)
     | (Close_Delete status, s) \<Rightarrow> (status, delete_stopped_keyboard_mouse False s)
     | (Close_Drain, s) \<Rightarrow>
         (case pump_keyboard_mouse host s of (pumped, s) \<Rightarrow>
           (if nt_success pumped then Status_Device_Busy else pumped, s)))"

definition abort_keyboard_mouse :: "handle \<Rightarrow> km_slot \<Rightarrow> ntstatus \<times> km_slot"
  where "abort_keyboard_mouse owner s =
    (case abort_section owner s of
       (Inl status, s) \<Rightarrow> (status, s)
     | (Inr _, s) \<Rightarrow> (Status_Success, delete_stopped_keyboard_mouse False s))"

text \<open>The check of a request's bytes against the struct of its code.\<close>

definition retrieve_keyboard_mouse_request :: "nat \<Rightarrow> byte list \<Rightarrow> ntstatus"
  where "retrieve_keyboard_mouse_request sz b =
    (if length b \<noteq> sz then Status_Invalid_Buffer_Size
     else if km_valid (of_nat sz) (km_header_at b) then Status_Success else Status_Invalid_Parameter)"

definition complete_keyboard_mouse_submission ::
    "km_host \<Rightarrow> handle \<Rightarrow> km_input \<Rightarrow> nat \<Rightarrow> km_slot \<Rightarrow> (ntstatus \<times> byte list) \<times> km_slot"
  where "complete_keyboard_mouse_submission host owner input output_length s =
    (if output_length \<noteq> 16 then ((Status_Invalid_Buffer_Size, []), s)
     else
       case submit_keyboard_mouse host owner input s of (status, s) \<Rightarrow>
         if \<not> nt_success status \<and> status \<noteq> Status_Device_Busy then ((status, []), s)
         else ((Status_Success, submission_bytes \<lparr>sr_prefix = km_request 16,
             sr_acceptance = (if status = Status_Device_Busy then submission_busy else submission_accepted),
             sr_reserved = 0\<rparr>), s))"

definition primary_query :: km_query_response
  where "primary_query = \<lparr>kq_prefix = km_request 24, kq_capabilities = k_primary_capabilities,
    kq_queue_capacity = of_nat k_km_queue_capacity,
    kq_absolute_target_generation = k_primary_absolute_generation, kq_reserved = 0\<rparr>"

definition query_keyboard_mouse :: "handle \<Rightarrow> byte list \<Rightarrow> nat \<Rightarrow> km_slot \<Rightarrow> ntstatus \<times> byte list"
  where "query_keyboard_mouse owner b output_length s =
    (let status = retrieve_keyboard_mouse_request 8 b
     in if \<not> nt_success status then (status, [])
        else if output_length \<noteq> 24 then (Status_Invalid_Buffer_Size, [])
        else if kn_stopping s \<or> \<not> kn_powered s \<or> owner \<in> kn_cleanup s then (Status_Device_Not_Ready, [])
        else (Status_Success, km_query_bytes primary_query))"

text \<open>Opening, closing and aborting take a bare header and answer without data.\<close>

definition bare_control :: "(km_slot \<Rightarrow> ntstatus \<times> km_slot) \<Rightarrow> byte list \<Rightarrow> nat \<Rightarrow> km_slot \<Rightarrow>
    (ntstatus \<times> byte list) \<times> km_slot"
  where "bare_control f b output_length s =
    (let status = retrieve_keyboard_mouse_request 8 b
     in if \<not> nt_success status then ((status, []), s)
        else if output_length \<noteq> 0 then ((Status_Invalid_Buffer_Size, []), s)
        else case f s of (status, s) \<Rightarrow> ((status, []), s))"

fun run_control :: "km_host \<Rightarrow> handle \<Rightarrow> km_control \<Rightarrow> byte list \<Rightarrow> nat \<Rightarrow> km_slot \<Rightarrow>
    (ntstatus \<times> byte list) \<times> km_slot"
  where
    "run_control host owner Control_Query b n s = (query_keyboard_mouse owner b n s, s)"
  | "run_control host owner Control_Open b n s = bare_control (open_keyboard_mouse host owner) b n s"
  | "run_control host owner Control_Abort b n s = bare_control (abort_keyboard_mouse owner) b n s"
  | "run_control host owner Control_Close b n s = bare_control (close_keyboard_mouse host owner) b n s"
  | "run_control host owner c b n s =
      (let status = retrieve_keyboard_mouse_request (km_input_size c) b
       in if \<not> nt_success status then ((status, []), s)
          else case parse_km_input c b of
            None \<Rightarrow> ((status, []), s)
          | Some input \<Rightarrow> complete_keyboard_mouse_submission host owner input n s)"

text \<open>\<^const>\<open>None\<close> leaves the request to the gamepad dispatcher.\<close>

definition dispatch_keyboard_mouse :: "km_host \<Rightarrow> handle \<Rightarrow> u32 \<Rightarrow> byte list \<Rightarrow> nat \<Rightarrow> km_device \<Rightarrow>
    ((ntstatus \<times> byte list) \<times> km_device) option"
  where "dispatch_keyboard_mouse host owner code b output_length d =
    (case km_control_of code of
       None \<Rightarrow> None
     | Some c \<Rightarrow>
         if \<not> keyboard_mouse_authorized host owner d then Some ((Status_Access_Denied, []), d)
         else
           case run_control host owner c b output_length (kd_slot d) of (reply, s) \<Rightarrow>
             Some (reply, d\<lparr>kd_slot := s\<rparr>))"

section \<open>File objects\<close>

definition evt_keyboard_mouse_file_cleanup :: "handle \<Rightarrow> km_slot \<Rightarrow> km_slot"
  where "evt_keyboard_mouse_file_cleanup owner s =
    (if owner = null_handle then s
     else
       let s = s\<lparr>kn_cleanup := insert owner (kn_cleanup s)\<rparr>;
           s = (if kn_owner s = owner then stop_admission s else s)
       in if kn_owner s = owner \<and> kn_state s = Slot_Stopping then delete_stopped_keyboard_mouse False s else s)"

definition km_file_close :: "handle \<Rightarrow> km_device \<Rightarrow> km_device"
  where "km_file_close owner d =
    (if owner = null_handle then d
     else d\<lparr>kd_slot := evt_keyboard_mouse_file_cleanup owner (kd_slot d),
       kd_files := (kd_files d)(owner := \<lparr>kf_opener_process = False, kf_opener_process_id = 0\<rparr>)\<rparr>)"

section \<open>The client's side\<close>

definition error_busy :: win32
  where "error_busy = 170"

definition error_not_ready :: win32
  where "error_not_ready = 21"

datatype submission_outcome = Outcome_Accepted | Outcome_Retry_Without_Acceptance | Outcome_Uncertain

definition classify_submission :: "win32 \<Rightarrow> submission_outcome"
  where "classify_submission e =
    (if e = error_success then Outcome_Accepted
     else if e = error_busy then Outcome_Retry_Without_Acceptance else Outcome_Uncertain)"

definition zero_km_query :: km_query_response
  where "zero_km_query = \<lparr>kq_prefix = \<lparr>kh_size = 0, kh_version = 0, kh_reserved = 0\<rparr>, kq_capabilities = 0,
    kq_queue_capacity = 0, kq_absolute_target_generation = 0, kq_reserved = 0\<rparr>"

definition client_query_keyboard_mouse :: "'d windows \<Rightarrow> client \<Rightarrow> 'd \<Rightarrow> (win32 \<times> km_query_response) \<times> 'd"
  where "client_query_keyboard_mouse w cl d =
    (case issue w cl (km_code Control_Query) (km_header_bytes (km_request 8)) 24 d of
       ((status, out), d) \<Rightarrow>
         if status \<noteq> error_success then ((status, zero_km_query), d)
         else
           let q = parse_km_query out; c = kq_capabilities q
           in if length out \<noteq> 24 \<or> \<not> km_valid 24 (kq_prefix q) \<or> kq_reserved q \<noteq> 0 \<or>
                c AND NOT (k_required_capabilities OR cap_primary_absolute_mouse OR cap_consumer) \<noteq> 0 \<or>
                c AND k_relative_capabilities \<noteq> k_relative_capabilities \<or> kq_queue_capacity q < 2 \<or>
                (c AND cap_primary_absolute_mouse \<noteq> 0 \<and> c AND cap_bound_absolute_mouse = 0) \<or>
                (c AND cap_bound_absolute_mouse \<noteq> 0) \<noteq> (kq_absolute_target_generation q \<noteq> 0)
              then ((error_invalid_data, zero_km_query), d)
              else ((error_success, q), d))"

definition client_bare_control :: "km_control \<Rightarrow> 'd windows \<Rightarrow> client \<Rightarrow> 'd \<Rightarrow> win32 \<times> 'd"
  where "client_bare_control c w cl d = issue_plain w cl (km_code c) (km_header_bytes (km_request 8)) d"

definition client_open_keyboard_mouse :: "'d windows \<Rightarrow> client \<Rightarrow> 'd \<Rightarrow> win32 \<times> 'd"
  where "client_open_keyboard_mouse = client_bare_control Control_Open"

definition client_close_keyboard_mouse :: "'d windows \<Rightarrow> client \<Rightarrow> 'd \<Rightarrow> win32 \<times> 'd"
  where "client_close_keyboard_mouse = client_bare_control Control_Close"

definition client_abort_keyboard_mouse :: "'d windows \<Rightarrow> client \<Rightarrow> 'd \<Rightarrow> win32 \<times> 'd"
  where "client_abort_keyboard_mouse = client_bare_control Control_Abort"

text \<open>What the client itself refuses.\<close>

fun client_accepts :: "km_input \<Rightarrow> bool"
  where
    "client_accepts (In_Key r) \<longleftrightarrow> km_valid 12 (kk_prefix r) \<and> kk_reserved r = 0 \<and> kk_pressed r \<le> 1 \<and>
       4 \<le> kk_usage r \<and> kk_usage r \<le> 0xE7"
  | "client_accepts (In_Button r) \<longleftrightarrow> km_valid 12 (kb_prefix r) \<and> kb_reserved r = 0 \<and> kb_pressed r \<le> 1 \<and>
       1 \<le> kb_button r \<and> kb_button r \<le> 5"
  | "client_accepts (In_Consumer r) \<longleftrightarrow> km_valid 12 (kc_prefix r) \<and> kc_reserved r = 0 \<and> kc_pressed r \<le> 1 \<and>
       kc_usage r \<in> {0x00E2, 0x00E9, 0x00EA, 0x00CD, 0x00B5, 0x00B6, 0x00B7}"
  | "client_accepts (In_Relative r) \<longleftrightarrow> km_valid 16 (kr_prefix r) \<and> kr_reserved r = 0 \<and>
       kr_wheel r \<noteq> - 128 \<and> kr_pan r \<noteq> - 128"
  | "client_accepts (In_Absolute r) \<longleftrightarrow> km_valid 16 (ka_prefix r)"

definition issue_keyboard_mouse_submission :: "'d windows \<Rightarrow> client \<Rightarrow> u32 \<Rightarrow> byte list \<Rightarrow> 'd \<Rightarrow> win32 \<times> 'd"
  where "issue_keyboard_mouse_submission w cl code input d =
    (case issue w cl code input 16 d of
       ((status, out), d) \<Rightarrow>
         if status \<noteq> error_success then (if status = error_busy then error_not_ready else status, d)
         else
           let r = parse_submission out
           in if length out \<noteq> 16 \<or> \<not> km_valid 16 (sr_prefix r) \<or> sr_reserved r \<noteq> 0 then (error_invalid_data, d)
              else if sr_acceptance r = submission_accepted then (error_success, d)
              else if sr_acceptance r = submission_busy then (error_busy, d)
              else (error_invalid_data, d))"

definition client_submit_keyboard_mouse :: "'d windows \<Rightarrow> client \<Rightarrow> km_input \<Rightarrow> 'd \<Rightarrow> win32 \<times> 'd"
  where "client_submit_keyboard_mouse w cl input d =
    (if \<not> client_accepts input then (error_invalid_parameter, d)
     else issue_keyboard_mouse_submission w cl (km_code (control_of_input input)) (km_input_bytes input) d)"

text \<open>The client on this driver. A code of another kind goes on to the gamepad dispatcher, which
  does not know it either.\<close>

definition km_windows :: "km_host \<Rightarrow> (ntstatus \<Rightarrow> win32) \<Rightarrow> km_device windows"
  where "km_windows host conv = \<lparr>
    w_control = (\<lambda>h code b n d. case dispatch_keyboard_mouse host h code b n d of
        None \<Rightarrow> (Inl (conv Status_Invalid_Device_Request), d)
      | Some ((status, out), d) \<Rightarrow> (if nt_success status then Inr out else Inl (conv status), d)),
    w_close = km_file_close\<rparr>"

section \<open>The contract of a submission\<close>

lemma submit_core_busy: "submit_core owner input e = (Km_Busy, e') \<Longrightarrow> e' = e"
  by (cases input) (auto simp: km_submit_key_def km_submit_button_def km_submit_consumer_def km_submit_relative_def
      km_submit_absolute_def admission_def Let_def split: if_splits option.splits)

lemma pump_loop_status: "pump_loop host s = (status, s') \<Longrightarrow> status = Status_Success \<or> status = Status_Device_Not_Ready"
  by (induction host s arbitrary: s' rule: pump_loop.induct)
    (subst (asm) (2) pump_loop.simps, auto split: prod.splits option.splits if_splits)

lemma pump_status:
  "pump_keyboard_mouse host s = (status, s') \<Longrightarrow> status = Status_Success \<or> status = Status_Device_Not_Ready"
  by (auto simp: pump_keyboard_mouse_def dest: pump_loop_status split: prod.splits if_splits)

lemma submit_section_busy:
  assumes "submit_section owner input s = (Status_Device_Busy, s')"
  shows "s' = s \<and> (\<exists>core. submit_core owner input (kn_core s) = (Km_Busy, core))"
proof -
  obtain res core where c: "submit_core owner input (kn_core s) = (res, core)" by force
  from assms c have "keyboard_mouse_status res = Status_Device_Busy" "s' = s\<lparr>kn_core := core\<rparr>"
    by (auto simp: submit_section_def split: if_splits)
  moreover from this have "res = Km_Busy" by (cases res) auto
  ultimately show ?thesis using submit_core_busy c by auto
qed

lemma submit_section_success:
  assumes "submit_section owner input s = (status, s')" "nt_success status"
  shows "\<exists>res core. submit_core owner input (kn_core s) = (res, core) \<and> res \<in> {Km_Accepted, Km_Unchanged} \<and>
    s' = s\<lparr>kn_core := core\<rparr> \<and> kn_owner s = owner \<and> kn_state s = Slot_Active \<and> owner \<notin> kn_cleanup s"
proof -
  obtain res core where c: "submit_core owner input (kn_core s) = (res, core)" by force
  from assms c have "keyboard_mouse_status res = status" "s' = s\<lparr>kn_core := core\<rparr>"
    "kn_owner s = owner \<and> kn_state s = Slot_Active \<and> owner \<notin> kn_cleanup s"
    by (auto simp: submit_section_def nt_success_def split: if_splits)
  moreover from this assms(2) have "res \<in> {Km_Accepted, Km_Unchanged}"
    by (cases res) (auto simp: nt_success_def)
  ultimately show ?thesis using c by auto
qed

text \<open>What the driver's reply to a submission says about the slot.\<close>

definition submission_verdict :: "km_host \<Rightarrow> handle \<Rightarrow> km_input \<Rightarrow> km_slot \<Rightarrow> u32 \<Rightarrow> km_slot \<Rightarrow> bool"
  where "submission_verdict host owner input s acceptance s' \<longleftrightarrow>
    (acceptance = submission_busy \<and> s' = s \<and> (\<exists>core. submit_core owner input (kn_core s) = (Km_Busy, core))) \<or>
    (acceptance = submission_accepted \<and> kn_owner s = owner \<and>
      (\<exists>res core. submit_core owner input (kn_core s) = (res, core) \<and> res \<in> {Km_Accepted, Km_Unchanged} \<and>
        pump_keyboard_mouse host (s\<lparr>kn_core := core\<rparr>) = (Status_Success, s')))"

lemma completion_verdict:
  assumes "complete_keyboard_mouse_submission host owner input n s = ((status, out), s')" "nt_success status"
  shows "\<exists>acceptance. out = submission_bytes \<lparr>sr_prefix = km_request 16, sr_acceptance = acceptance, sr_reserved = 0\<rparr> \<and>
    submission_verdict host owner input s acceptance s'"
proof -
  obtain st s1 where x: "submit_keyboard_mouse host owner input s = (st, s1)" by force
  obtain st0 s0 where y: "submit_section owner input s = (st0, s0)" by force
  have ns: "\<not> nt_success Status_Invalid_Buffer_Size" "\<not> nt_success Status_Device_Busy" "nt_success Status_Success"
    "\<not> nt_success Status_Device_Not_Ready"
    by (simp_all add: nt_success_def)
  have out: "s' = s1" "nt_success st \<or> st = Status_Device_Busy" "out = submission_bytes \<lparr>sr_prefix = km_request 16,
      sr_acceptance = (if st = Status_Device_Busy then submission_busy else submission_accepted), sr_reserved = 0\<rparr>"
    using assms x ns by (auto simp: complete_keyboard_mouse_submission_def split: if_splits)
  show ?thesis
  proof (cases "nt_success st0")
    case True
    with x y have p: "pump_keyboard_mouse host s0 = (st, s1)" by (simp add: submit_keyboard_mouse_def)
    have st: "st = Status_Success" using pump_status [OF p] out(2) ns by auto
    with submit_section_success [OF y True] p out show ?thesis
      by (auto simp: submission_verdict_def)
  next
    case False
    with x y have eq: "st = st0" "s1 = s0" by (simp_all add: submit_keyboard_mouse_def)
    with out(2) False have b: "st0 = Status_Device_Busy" by simp
    with submit_section_busy [OF y [unfolded b]] eq out show ?thesis
      by (auto simp: submission_verdict_def)
  qed
qed

lemma accepted_prefix:
  "client_accepts input \<Longrightarrow> km_valid (of_nat (km_input_size (control_of_input input))) (input_prefix input)"
  by (cases input) auto

lemma run_submission:
  assumes "client_accepts input" "input_in_type input"
  shows "run_control host owner (control_of_input input) (km_input_bytes input) n s =
    complete_keyboard_mouse_submission host owner input n s"
  using parse_km_input_bytes [OF assms(2)] accepted_prefix [OF assms(1)]
  by (cases input) (simp_all del: km_input_bytes.simps parse_km_input.simps add: retrieve_keyboard_mouse_request_def
      nt_success_def)

text \<open>Property C9. A submission means to the client what the driver did, end to end: when the call
  returns success, the driver had authorised the caller, the endpoint was the caller's and
  accepted exactly the request that was passed (or found it already in effect), and the pump ran
  without a failure; when it returns busy, the endpoint's queue was full and nothing at all has
  changed, so that the same request may be sent again; and a busy error of the transport is never
  passed on as that promise. A request the client refuses itself never reaches the driver.\<close>

theorem submission_contract:
  assumes "connected cl" "error_table conv" "input_in_type input"
    "client_submit_keyboard_mouse (km_windows host conv) cl input d = (e, d')"
  shows "(classify_submission e = Outcome_Accepted \<longrightarrow> client_accepts input \<and>
      keyboard_mouse_authorized host (cl_handle cl) d \<and> kn_owner (kd_slot d) = cl_handle cl \<and>
      kd_files d' = kd_files d \<and>
      (\<exists>res core. submit_core (cl_handle cl) input (kn_core (kd_slot d)) = (res, core) \<and>
        res \<in> {Km_Accepted, Km_Unchanged} \<and>
        pump_keyboard_mouse host ((kd_slot d)\<lparr>kn_core := core\<rparr>) = (Status_Success, kd_slot d'))) \<and>
    (classify_submission e = Outcome_Retry_Without_Acceptance \<longrightarrow> d' = d \<and>
      (\<exists>core. submit_core (cl_handle cl) input (kn_core (kd_slot d)) = (Km_Busy, core))) \<and>
    (\<not> client_accepts input \<longrightarrow> e = error_invalid_parameter \<and> d' = d)"
proof (cases "client_accepts input")
  case False
  with assms(4) show ?thesis
    by (auto simp: client_submit_keyboard_mouse_def classify_submission_def error_busy_def win32_errors)
next
  case acc: True
  define c where "c = control_of_input input"
  define b where "b = km_input_bytes input"
  have call: "issue_keyboard_mouse_submission (km_windows host conv) cl (km_code c) b d = (e, d')"
    using assms(4) acc by (simp add: client_submit_keyboard_mouse_def c_def b_def)
  have handle: "cl_handle cl \<noteq> null_handle" using assms(1) by (simp add: connected_def)
  show ?thesis
  proof (cases "keyboard_mouse_authorized host (cl_handle cl) d")
    case False
    then have "w_control (km_windows host conv) (cl_handle cl) (km_code c) b 16 d =
        (Inl (conv Status_Access_Denied), d)"
      by (simp add: km_windows_def dispatch_keyboard_mouse_def nt_success_def)
    with call assms(1,2) have "classify_submission e = Outcome_Uncertain"
      by (auto simp: issue_keyboard_mouse_submission_def issue_def classify_submission_def error_table_def error_busy_def
          error_not_ready_def win32_errors nt_success_def split: if_splits)
    with acc show ?thesis by simp
  next
    case auth: True
    obtain status out s where r: "complete_keyboard_mouse_submission host (cl_handle cl) input 16 (kd_slot d) =
        ((status, out), s)"
      by (metis prod.exhaust)
    have w: "w_control (km_windows host conv) (cl_handle cl) (km_code c) b 16 d =
        (if nt_success status then Inr out else Inl (conv status), d\<lparr>kd_slot := s\<rparr>)"
      using auth r run_submission [OF acc assms(3)]
      by (simp add: km_windows_def dispatch_keyboard_mouse_def c_def b_def)
    show ?thesis
    proof (cases "nt_success status")
      case False
      with w call assms(1,2) have "classify_submission e = Outcome_Uncertain"
        by (auto simp: issue_keyboard_mouse_submission_def issue_def classify_submission_def error_table_def error_busy_def
            error_not_ready_def win32_errors split: if_splits)
      with acc show ?thesis by simp
    next
      case True
      from completion_verdict [OF r True] obtain a where a: "out = submission_bytes
          \<lparr>sr_prefix = km_request 16, sr_acceptance = a, sr_reserved = 0\<rparr>"
        "submission_verdict host (cl_handle cl) input (kd_slot d) a s" by blast
      have "d' = d\<lparr>kd_slot := s\<rparr>" "e = (if a = submission_accepted then error_success else error_busy)"
        using call w True a assms(1)
        by (auto simp: issue_keyboard_mouse_submission_def issue_def km_valid_def km_request_def submission_verdict_def
            split: if_splits)
      with a(2) acc auth show ?thesis
        by (auto simp: submission_verdict_def classify_submission_def submission_accepted_def submission_busy_def
            error_busy_def win32_errors)
    qed
  qed
qed

definition demo_host :: km_host
  where "demo_host = \<lparr>kv_previous = False, kv_target = Status_Success, kv_created = Inr (1, 0),
    kv_started = Status_Success, kv_submitted = (\<lambda>h r. Status_Success), kv_requestor = 77,
    kv_impersonated = Status_Success, kv_token = True, kv_system_user = False, kv_admin_checked = True,
    kv_admin_member = True\<rparr>"

definition demo_device :: km_device
  where "demo_device = km_file_create 77 True 5
    \<lparr>kd_slot = demo_ready, kd_files = (\<lambda>_. \<lparr>kf_opener_process = False, kf_opener_process_id = 0\<rparr>)\<rparr>"

definition demo_client :: client
  where "demo_client = \<lparr>cl_handle = 5, cl_info = zero_query\<rparr>"

lemma demo_submission:
  "fst (client_submit_keyboard_mouse (km_windows demo_host (\<lambda>_. 31)) demo_client demo_input demo_device) = 0"
  by code_simp

lemma submission_contract_witness:
  "\<exists>res core. submit_core 5 demo_input (kn_core (kd_slot demo_device)) = (res, core) \<and> res \<in> {Km_Accepted, Km_Unchanged}"
proof -
  obtain d' where call: "client_submit_keyboard_mouse (km_windows demo_host (\<lambda>_. 31)) demo_client demo_input demo_device =
      (0, d')"
    using demo_submission by (metis prod.collapse)
  have "connected demo_client" "error_table (\<lambda>_. 31)" "input_in_type demo_input"
    by (simp_all add: connected_def demo_client_def error_table_def error_success_def demo_input_def i16_ok_def)
  from submission_contract [OF this call] show ?thesis
    by (simp add: classify_submission_def error_success_def demo_client_def) blast
qed

section \<open>Authority\<close>

text \<open>Any sequence of requests, each from a process of its own.\<close>

fun km_requests :: "(km_host \<times> handle \<times> u32 \<times> byte list \<times> nat) list \<Rightarrow> km_device \<Rightarrow>
    ntstatus option list \<times> km_device"
  where
    "km_requests [] d = ([], d)"
  | "km_requests ((host, owner, code, b, n) # rs) d =
      (case dispatch_keyboard_mouse host owner code b n d of
         None \<Rightarrow> (case km_requests rs d of (sts, d) \<Rightarrow> (None # sts, d))
       | Some ((status, _), d) \<Rightarrow> (case km_requests rs d of (sts, d) \<Rightarrow> (Some status # sts, d)))"

text \<open>The answer of a dispatcher that refuses every request of this channel.\<close>

fun refusal :: "km_host \<times> handle \<times> u32 \<times> byte list \<times> nat \<Rightarrow> ntstatus option"
  where "refusal (host, owner, code, b, n) =
    (if \<exists>c. code = km_code c then Some Status_Access_Denied else None)"

definition has_authority :: "km_host \<Rightarrow> bool"
  where "has_authority host \<longleftrightarrow> kv_token host \<and> (kv_system_user host \<or> kv_admin_checked host \<and> kv_admin_member host)"

text \<open>Property C10. A handle confers no authority: once process \<open>p\<close> has opened a file, any
  sequence of keyboard and mouse requests on it -- whatever their codes and bytes -- by other
  processes, or by processes that are neither the system nor an administrator, or when the opener
  could not be pinned, is refused request by request and leaves the device exactly as it was; a
  request is passed over only if its code is not one of this channel.\<close>

theorem handle_confers_no_authority:
  assumes "\<And>host h code b n. (host, h, code, b, n) \<in> set rs \<Longrightarrow>
    h = owner \<and> (kv_requestor host \<noteq> p \<or> \<not> opens \<or> \<not> has_authority host)"
  shows "snd (km_requests rs (km_file_create p opens owner d)) = km_file_create p opens owner d \<and>
    fst (km_requests rs (km_file_create p opens owner d)) = map refusal rs"
  using assms
proof (induction rs)
  case (Cons r rs)
  obtain host h code b n where r: "r = (host, h, code, b, n)" by (metis prod_cases5)
  have h: "h = owner" "kv_requestor host \<noteq> p \<or> \<not> opens \<or> \<not> has_authority host"
    using Cons.prems [of host h code b n] r by auto
  have "\<not> keyboard_mouse_authorized host owner (km_file_create p opens owner d)"
    using h(2) by (auto simp: keyboard_mouse_authorized_def km_file_create_def has_authority_def
        evt_keyboard_mouse_authorize_def split: if_splits)
  then have "dispatch_keyboard_mouse host h code b n (km_file_create p opens owner d) =
      (if \<exists>c. code = km_code c then Some ((Status_Access_Denied, []), km_file_create p opens owner d) else None)"
    by (cases "km_control_of code") (auto simp: dispatch_keyboard_mouse_def h(1) dest: km_control_of_Some)
  moreover have "snd (km_requests rs (km_file_create p opens owner d)) = km_file_create p opens owner d \<and>
    fst (km_requests rs (km_file_create p opens owner d)) = map refusal rs"
  proof (rule Cons.IH)
    fix host h code b n
    assume "(host, h, code, b, n) \<in> set rs"
    then show "h = owner \<and> (kv_requestor host \<noteq> p \<or> \<not> opens \<or> \<not> has_authority host)"
      using Cons.prems [of host h code b n] by simp
  qed
  ultimately show ?case by (auto simp: r split: prod.splits if_splits)
qed simp

lemma handle_confers_no_authority_witness:
  "snd (km_requests [(demo_host\<lparr>kv_requestor := 78\<rparr>, 5, km_code Control_Open, [], 0)]
    (km_file_create 77 True 5 demo_device)) = km_file_create 77 True 5 demo_device"
  by (rule conjunct1 [OF handle_confers_no_authority [of
    "[(demo_host\<lparr>kv_requestor := 78\<rparr>, 5, km_code Control_Open, [], 0)]" 5 77 True demo_device]])
    (simp add: demo_host_def)

text \<open>With authority the channel is open: what the driver answers to a query the client accepts.\<close>

lemma query_accepted:
  assumes "connected cl" "keyboard_mouse_authorized host (cl_handle cl) d"
    "kn_powered (kd_slot d)" "\<not> kn_stopping (kd_slot d)" "cl_handle cl \<notin> kn_cleanup (kd_slot d)"
  shows "client_query_keyboard_mouse (km_windows host conv) cl d = ((error_success, primary_query), d)"
proof -
  have r: "retrieve_keyboard_mouse_request 8 (km_header_bytes (km_request 8)) = Status_Success"
    using km_header_at_bytes(1) [of "km_request 8" "[]"]
    by (simp add: retrieve_keyboard_mouse_request_def km_valid_def km_request_def)
  have w: "w_control (km_windows host conv) (cl_handle cl) (km_code Control_Query) (km_header_bytes (km_request 8)) 24 d =
      (Inr (km_query_bytes primary_query), d)"
    using assms r
    by (simp add: km_windows_def dispatch_keyboard_mouse_def query_keyboard_mouse_def Let_def nt_success_def
        del: km_code.simps)
  have "km_valid 24 (kq_prefix primary_query)" "kq_reserved primary_query = 0"
    "kq_capabilities primary_query AND NOT (k_required_capabilities OR cap_primary_absolute_mouse OR cap_consumer) = 0"
    "kq_capabilities primary_query AND k_relative_capabilities = k_relative_capabilities"
    "\<not> kq_queue_capacity primary_query < 2" "kq_capabilities primary_query AND cap_bound_absolute_mouse \<noteq> 0"
    "kq_absolute_target_generation primary_query \<noteq> 0"
    by code_simp+
  with w assms(1) show ?thesis
    by (simp add: client_query_keyboard_mouse_def issue_def Let_def del: km_code.simps)
qed

end
