(* ===== verification/Ds5Gadget.thy ===== *)
theory Ds5Gadget
  imports PlayStationUsb HidPath
begin

text \<open>
  The Linux side: the virtual USB DualSense of \<^theory_text>\<open>linux/vibeshine-ds5\<close>. The gadget driver
  (\<^theory_text>\<open>vibeshine_ds5_gadget.c\<close>) with its slots, control requests, completions and file operations,
  and of the controller below it (\<^theory_text>\<open>vibeshine_ds5_udc.c\<close>, the kernel's dummy_hcd renamed) the
  request queues of the endpoints the gadget uses. A queue holds requests with their buffers; what the
  host does with them (which request it serves, with which data, and when the link is up) is a step of
  the environment. A section under \<^theory_text>\<open>slot->lock\<close> or a callback of the USB core is one operation.
\<close>

section \<open>What the device presents\<close>

definition gadget_report_desc :: "byte list"
  where "gadget_report_desc = [
    0x05, 0x01, 0x09, 0x05, 0xa1, 0x01, 0x85, 0x01, 0x09, 0x30, 0x09, 0x31, 0x09, 0x32, 0x09, 0x35,
    0x09, 0x33, 0x09, 0x34, 0x15, 0x00, 0x26, 0xff, 0x00, 0x75, 0x08, 0x95, 0x06, 0x81, 0x02, 0x06,
    0x00, 0xff, 0x09, 0x20, 0x95, 0x01, 0x81, 0x02, 0x05, 0x01, 0x09, 0x39, 0x15, 0x00, 0x25, 0x07,
    0x35, 0x00, 0x46, 0x3b, 0x01, 0x65, 0x14, 0x75, 0x04, 0x95, 0x01, 0x81, 0x42, 0x65, 0x00, 0x05,
    0x09, 0x19, 0x01, 0x29, 0x0f, 0x15, 0x00, 0x25, 0x01, 0x75, 0x01, 0x95, 0x0f, 0x81, 0x02, 0x06,
    0x00, 0xff, 0x09, 0x21, 0x75, 0x01, 0x95, 0x0d, 0x81, 0x02, 0x09, 0x22, 0x15, 0x00, 0x26, 0xff,
    0x00, 0x75, 0x08, 0x95, 0x34, 0x81, 0x02, 0x85, 0x02, 0x09, 0x23, 0x95, 0x2f, 0x91, 0x02, 0x85,
    0x05, 0x09, 0x33, 0x95, 0x28, 0xb1, 0x02, 0x85, 0x08, 0x09, 0x34, 0x95, 0x2f, 0xb1, 0x02, 0x85,
    0x09, 0x09, 0x24, 0x95, 0x13, 0xb1, 0x02, 0x85, 0x0a, 0x09, 0x25, 0x95, 0x1a, 0xb1, 0x02, 0x85,
    0x20, 0x09, 0x26, 0x95, 0x3f, 0xb1, 0x02, 0x85, 0x21, 0x09, 0x27, 0x95, 0x04, 0xb1, 0x02, 0x85,
    0x22, 0x09, 0x40, 0x95, 0x3f, 0xb1, 0x02, 0x85, 0x80, 0x09, 0x28, 0x95, 0x3f, 0xb1, 0x02, 0x85,
    0x81, 0x09, 0x29, 0x95, 0x3f, 0xb1, 0x02, 0x85, 0x82, 0x09, 0x2a, 0x95, 0x09, 0xb1, 0x02, 0x85,
    0x83, 0x09, 0x2b, 0x95, 0x3f, 0xb1, 0x02, 0x85, 0x84, 0x09, 0x2c, 0x95, 0x3f, 0xb1, 0x02, 0x85,
    0x85, 0x09, 0x2d, 0x95, 0x02, 0xb1, 0x02, 0x85, 0xa0, 0x09, 0x2e, 0x95, 0x01, 0xb1, 0x02, 0x85,
    0xe0, 0x09, 0x2f, 0x95, 0x3f, 0xb1, 0x02, 0x85, 0xf0, 0x09, 0x30, 0x95, 0x3f, 0xb1, 0x02, 0x85,
    0xf1, 0x09, 0x31, 0x95, 0x3f, 0xb1, 0x02, 0x85, 0xf2, 0x09, 0x32, 0x95, 0x0f, 0xb1, 0x02, 0x85,
    0xf4, 0x09, 0x35, 0x95, 0x3f, 0xb1, 0x02, 0x85, 0xf5, 0x09, 0x36, 0x95, 0x03, 0xb1, 0x02, 0xc0]"

definition gadget_config_desc :: "byte list"
  where "gadget_config_desc = [
    0x09, 0x02, 0xe3, 0x00, 0x04, 0x01, 0x00, 0xc0, 0xfa, 0x09, 0x04, 0x00, 0x00, 0x00, 0x01, 0x01,
    0x00, 0x00, 0x0a, 0x24, 0x01, 0x00, 0x01, 0x49, 0x00, 0x02, 0x01, 0x02, 0x0c, 0x24, 0x02, 0x01,
    0x01, 0x01, 0x06, 0x04, 0x33, 0x00, 0x00, 0x00, 0x0c, 0x24, 0x06, 0x02, 0x01, 0x01, 0x03, 0x00,
    0x00, 0x00, 0x00, 0x00, 0x09, 0x24, 0x03, 0x03, 0x01, 0x03, 0x04, 0x02, 0x00, 0x0c, 0x24, 0x02,
    0x04, 0x02, 0x04, 0x03, 0x02, 0x03, 0x00, 0x00, 0x00, 0x09, 0x24, 0x06, 0x05, 0x04, 0x01, 0x03,
    0x00, 0x00, 0x09, 0x24, 0x03, 0x06, 0x01, 0x01, 0x01, 0x05, 0x00, 0x09, 0x04, 0x01, 0x00, 0x00,
    0x01, 0x02, 0x00, 0x00, 0x09, 0x04, 0x01, 0x01, 0x01, 0x01, 0x02, 0x00, 0x00, 0x07, 0x24, 0x01,
    0x01, 0x01, 0x01, 0x00, 0x0b, 0x24, 0x02, 0x01, 0x04, 0x02, 0x10, 0x01, 0x80, 0xbb, 0x00, 0x09,
    0x05, 0x01, 0x09, 0x88, 0x01, 0x04, 0x00, 0x00, 0x07, 0x25, 0x01, 0x00, 0x00, 0x00, 0x00, 0x09,
    0x04, 0x02, 0x00, 0x00, 0x01, 0x02, 0x00, 0x00, 0x09, 0x04, 0x02, 0x01, 0x01, 0x01, 0x02, 0x00,
    0x00, 0x07, 0x24, 0x01, 0x06, 0x01, 0x01, 0x00, 0x0b, 0x24, 0x02, 0x01, 0x02, 0x02, 0x10, 0x01,
    0x80, 0xbb, 0x00, 0x09, 0x05, 0x82, 0x05, 0xc4, 0x00, 0x04, 0x00, 0x00, 0x07, 0x25, 0x01, 0x00,
    0x00, 0x00, 0x00, 0x09, 0x04, 0x03, 0x00, 0x02, 0x03, 0x00, 0x00, 0x00, 0x09, 0x21, 0x11, 0x01,
    0x00, 0x01, 0x22, word_of_nat (length gadget_report_desc), word_of_nat (length gadget_report_desc div 256),
    0x07, 0x05, 0x84, 0x03, 0x40, 0x00, 0x06, 0x07, 0x05, 0x03, 0x03, 0x40, 0x00, 0x06]"

definition gadget_calibration :: "byte list"
  where "gadget_calibration = [
    5, 0, 0, 0, 0, 0, 0,
    0, 0x20, 0, 0xe0, 0, 0x20, 0, 0xe0, 0, 0x20, 0, 0xe0,
    0, 2, 0, 2,
    0, 0x20, 0, 0xe0, 0, 0x20, 0, 0xe0, 0, 0x20, 0, 0xe0,
    0, 0, 0, 0, 0, 0]"

definition gadget_firmware :: "byte list"
  where "gadget_firmware = [
    0x20,
    74, 117, 110, 32, 49, 57, 32, 50, 48, 50, 51,
    49, 52, 58, 52, 55, 58, 51, 52,
    0x03, 0x00, 0x44, 0x00, 0x08, 0x02, 0x00, 0x01,
    0x3e, 0x00, 0x00, 0x01,
    0xc1, 0xc8, 0x00, 0x00, 0x00, 0x00, 0x00, 0x00, 0x00, 0x00, 0x00, 0x00,
    0x30, 0x06, 0x00, 0x00, 0x14, 0x00, 0x00, 0x00,
    0x0b, 0x00, 0x01, 0x00, 0x06, 0x00, 0x00, 0x00, 0x00, 0x00, 0x00, 0x00]"

text \<open>\<^theory_text>\<open>ds5_device_desc\<close> as the bytes of the packed struct; the serial number index is not set.\<close>

definition gadget_device_desc :: "byte list"
  where "gadget_device_desc = [18, 0x01] @ le16_bytes 0x0200 @ [0, 0, 0, 64] @ le16_bytes 0x054C @
    le16_bytes 0x0CE6 @ le16_bytes 0x0100 @ [1, 2, 0, 1]"

definition k_iso_out_maxp :: nat where "k_iso_out_maxp = 392"

definition k_iso_in_maxp :: nat where "k_iso_in_maxp = 196"

definition k_int_maxp :: nat where "k_int_maxp = 64"

definition k_iso_out_q :: nat where "k_iso_out_q = 8"

definition k_iso_in_q :: nat where "k_iso_in_q = 4"

definition k_event_fifo :: nat where "k_event_fifo = 16"

definition k_ds5_slots :: nat where "k_ds5_slots = 4"

definition k_ds5_input_size :: nat where "k_ds5_input_size = 64"

lemmas gadget_sizes = k_iso_out_maxp_def k_iso_in_maxp_def k_int_maxp_def k_iso_out_q_def k_iso_in_q_def
  k_event_fifo_def k_ds5_slots_def k_ds5_input_size_def

datatype errno = Enodev | Einval | Ebusy | Eshutdown | Enotty | Efault | Eagain | Eopnotsupp | Enospc | Enomem

text \<open>The endpoints the gadget finds by name, with their descriptors.\<close>

datatype ds5_ep = Ep0 | Ep_Int_In | Ep_Int_Out | Ep_Iso_Out | Ep_Iso_In

datatype transfer_type = Xfer_Control | Xfer_Bulk | Xfer_Int | Xfer_Isoc

record ep_desc =
  ed_address :: byte
  ed_type :: transfer_type
  ed_maxp :: nat
  ed_interval :: byte

fun ep_name :: "ds5_ep \<Rightarrow> string"
  where
    "ep_name Ep0 = ''ep0''"
  | "ep_name Ep_Iso_Out = ''ep1out-iso''"
  | "ep_name Ep_Iso_In = ''ep2in-iso''"
  | "ep_name Ep_Int_In = ''ep5in-int''"
  | "ep_name Ep_Int_Out = ''ep-aout''"

fun gadget_ep_desc :: "ds5_ep \<Rightarrow> ep_desc option"
  where
    "gadget_ep_desc Ep0 = None"
  | "gadget_ep_desc Ep_Int_In = Some \<lparr>ed_address = 0x84, ed_type = Xfer_Int, ed_maxp = k_int_maxp, ed_interval = 6\<rparr>"
  | "gadget_ep_desc Ep_Int_Out = Some \<lparr>ed_address = 0x03, ed_type = Xfer_Int, ed_maxp = k_int_maxp, ed_interval = 6\<rparr>"
  | "gadget_ep_desc Ep_Iso_Out = Some \<lparr>ed_address = 0x01, ed_type = Xfer_Isoc, ed_maxp = k_iso_out_maxp, ed_interval = 4\<rparr>"
  | "gadget_ep_desc Ep_Iso_In = Some \<lparr>ed_address = 0x82, ed_type = Xfer_Isoc, ed_maxp = k_iso_in_maxp, ed_interval = 4\<rparr>"

definition ep_is_in :: "ds5_ep \<Rightarrow> bool"
  where "ep_is_in ep \<longleftrightarrow> (case gadget_ep_desc ep of None \<Rightarrow> False | Some d \<Rightarrow> ed_address d AND 0x80 \<noteq> 0)"

section \<open>A slot and its endpoints\<close>

text \<open>The requests of a slot, and the one-request FIFO of the controller.\<close>

datatype ds5_req = Req_Ep0 | Req_Int_In | Req_Int_Out | Req_Iso_Out nat | Req_Iso_In nat | Req_Fifo

record ds5_event =
  ev_type :: u32
  ev_size :: nat
  ev_data :: "byte list"

datatype usb_speed = Speed_Full | Speed_High | Speed_Super

text \<open>The slot, and of its controller: whether the link is up (\<^theory_text>\<open>is_enabled\<close>, with a driver
  bound) and at which speed, the endpoints that have a descriptor, and their queues.\<close>

record ds5_slot =
  gs_bound :: bool
  gs_created :: bool
  gs_mac :: "byte list"
  gs_input :: "byte list"
  gs_config :: byte
  gs_alt1 :: byte
  gs_alt2 :: byte
  gs_hid :: bool
  gs_iso_out :: bool
  gs_iso_in :: bool
  gs_busy :: bool
  gs_volume :: i16
  gs_mute :: byte
  gs_events :: "ds5_event list"
  gs_up :: bool
  gs_speed :: usb_speed
  gs_enabled :: "ds5_ep \<Rightarrow> bool"
  gs_queue :: "ds5_ep \<Rightarrow> (ds5_req \<times> byte list) list"

definition all_eps :: "ds5_ep list"
  where "all_eps = [Ep0, Ep_Int_In, Ep_Int_Out, Ep_Iso_Out, Ep_Iso_In]"

definition in_flight :: "ds5_req \<Rightarrow> ds5_slot \<Rightarrow> bool"
  where "in_flight r s \<longleftrightarrow> list_ex (\<lambda>ep. r \<in> fst ` set (gs_queue s ep)) all_eps"

definition set_queue :: "ds5_ep \<Rightarrow> (ds5_req \<times> byte list) list \<Rightarrow> ds5_slot \<Rightarrow> ds5_slot"
  where "set_queue ep q s = s\<lparr>gs_queue := (gs_queue s)(ep := q)\<rparr>"

text \<open>\<^theory_text>\<open>ds5_push_event\<close>: a full FIFO refuses the newcomer.\<close>

definition ds5_push_event :: "u32 \<Rightarrow> byte list \<Rightarrow> ds5_slot \<Rightarrow> ds5_slot"
  where "ds5_push_event ty data s =
    (let ev = \<lparr>ev_type = ty, ev_size = min (length data) 512,
               ev_data = take 512 data @ replicate (512 - length data) 0\<rparr>
     in if length (gs_events s) < k_event_fifo then s\<lparr>gs_events := gs_events s @ [ev]\<rparr> else s)"

section \<open>The controller's queues\<close>

definition ds5_int_in_complete :: "ds5_slot \<Rightarrow> ds5_slot"
  where "ds5_int_in_complete s = s\<lparr>gs_busy := False\<rparr>"

text \<open>\<^theory_text>\<open>dummy_queue\<close>: a report of at most 64 bytes for an idle IN endpoint goes to the FIFO and is
  completed on the spot. Only the interrupt endpoint's request is that short
  (lemma \<open>inline_only_int_in\<close>).\<close>

definition complete_inline :: "ds5_req \<Rightarrow> ds5_slot \<Rightarrow> ds5_slot"
  where "complete_inline r s = (case r of Req_Int_In \<Rightarrow> ds5_int_in_complete s | _ \<Rightarrow> s)"

definition dummy_queue :: "ds5_ep \<Rightarrow> ds5_req \<Rightarrow> byte list \<Rightarrow> ds5_slot \<Rightarrow> errno option \<times> ds5_slot"
  where "dummy_queue ep r data s =
    (if in_flight r s then (Some Einval, s)
     else if \<not> gs_enabled s ep \<and> ep \<noteq> Ep0 then (Some Einval, s)
     else if \<not> gs_up s then (Some Eshutdown, s)
     else if gs_enabled s ep \<and> ep_is_in ep \<and> \<not> in_flight Req_Fifo s \<and> gs_queue s ep = [] \<and> length data \<le> 64
     then (None, complete_inline r (set_queue ep [(Req_Fifo, data)] s))
     else (None, set_queue ep (gs_queue s ep @ [(r, data)]) s))"

text \<open>Why a request is given back: served (the data the host sent or took), dequeued
  (\<^theory_text>\<open>-ECONNRESET\<close>), or the endpoint was shut down.\<close>

datatype completion = Served "byte list" | Reset | Shutdown

definition ds5_int_out_complete :: "completion \<Rightarrow> ds5_slot \<Rightarrow> ds5_slot"
  where "ds5_int_out_complete st s =
    (if st = Shutdown then s
     else
       let s = (case st of Served data \<Rightarrow> if data \<noteq> [] then ds5_push_event 1 data s else s | _ \<Rightarrow> s)
       in snd (dummy_queue Ep_Int_Out Req_Int_Out (replicate k_int_maxp 0) s))"

definition ds5_iso_out_complete :: "nat \<Rightarrow> completion \<Rightarrow> ds5_slot \<Rightarrow> ds5_slot"
  where "ds5_iso_out_complete i st s =
    (if st = Shutdown then s
     else
       let s = (case st of Served data \<Rightarrow> if data \<noteq> [] then ds5_push_event 2 data s else s | _ \<Rightarrow> s)
       in snd (dummy_queue Ep_Iso_Out (Req_Iso_Out i) (replicate k_iso_out_maxp 0) s))"

definition ds5_iso_in_complete :: "nat \<Rightarrow> completion \<Rightarrow> ds5_slot \<Rightarrow> ds5_slot"
  where "ds5_iso_in_complete i st s =
    (if st = Shutdown then s
     else snd (dummy_queue Ep_Iso_In (Req_Iso_In i) (replicate k_iso_in_maxp 0) s))"

text \<open>The completion routine of a request, at the endpoint that holds it.\<close>

fun complete :: "ds5_req \<Rightarrow> completion \<Rightarrow> ds5_slot \<Rightarrow> ds5_slot"
  where
    "complete Req_Int_In st s = ds5_int_in_complete s"
  | "complete Req_Int_Out st s = ds5_int_out_complete st s"
  | "complete (Req_Iso_Out i) st s = ds5_iso_out_complete i st s"
  | "complete (Req_Iso_In i) st s = ds5_iso_in_complete i st s"
  | "complete Req_Ep0 st s = s"
  | "complete Req_Fifo st s = s"

definition dummy_dequeue :: "ds5_ep \<Rightarrow> ds5_req \<Rightarrow> ds5_slot \<Rightarrow> ds5_slot"
  where "dummy_dequeue ep r s =
    (if r \<in> fst ` set (gs_queue s ep)
     then complete r Reset (set_queue ep (filter (\<lambda>(r', d). r' \<noteq> r) (gs_queue s ep)) s)
     else s)"

fun nuke :: "ds5_ep \<Rightarrow> (ds5_req \<times> byte list) list \<Rightarrow> ds5_slot \<Rightarrow> ds5_slot"
  where
    "nuke ep [] s = s"
  | "nuke ep ((r, d) # q) s = nuke ep q (complete r Shutdown (set_queue ep q s))"

definition stop_activity :: "ds5_slot \<Rightarrow> ds5_slot"
  where "stop_activity s = foldl (\<lambda>s ep. nuke ep (gs_queue s ep) s) s all_eps"

text \<open>\<^theory_text>\<open>dummy_enable\<close>, with its checks of type and packet size.\<close>

definition packet_ok :: "string \<Rightarrow> usb_speed \<Rightarrow> transfer_type \<Rightarrow> nat \<Rightarrow> bool"
  where "packet_ok name speed ty m =
    (case ty of
       Xfer_Bulk \<Rightarrow> \<not> contains ''-iso'' name \<and> \<not> contains ''-int'' name \<and>
         (case speed of Speed_Super \<Rightarrow> m = 1024 | Speed_High \<Rightarrow> m = 512 | Speed_Full \<Rightarrow> m \<in> {8, 16, 32, 64})
     | Xfer_Int \<Rightarrow> \<not> contains ''-iso'' name \<and>
         (case speed of Speed_Full \<Rightarrow> m \<le> 64 | _ \<Rightarrow> m \<le> 1024)
     | Xfer_Isoc \<Rightarrow> \<not> contains ''-bulk'' name \<and> \<not> contains ''-int'' name \<and>
         (case speed of Speed_Full \<Rightarrow> m \<le> 1023 | _ \<Rightarrow> m \<le> 1024)
     | Xfer_Control \<Rightarrow> False)"

definition dummy_enable :: "ds5_ep \<Rightarrow> ds5_slot \<Rightarrow> errno option \<times> ds5_slot"
  where "dummy_enable ep s =
    (case gadget_ep_desc ep of
       None \<Rightarrow> (Some Einval, s)
     | Some d \<Rightarrow>
         (if gs_enabled s ep then (Some Einval, s)
          else if \<not> gs_up s then (Some Eshutdown, s)
          else if packet_ok (ep_name ep) (gs_speed s) (ed_type d) (ed_maxp d)
          then (None, s\<lparr>gs_enabled := (gs_enabled s)(ep := True)\<rparr>)
          else (Some Einval, s)))"

definition dummy_disable :: "ds5_ep \<Rightarrow> ds5_slot \<Rightarrow> ds5_slot"
  where "dummy_disable ep s =
    (if \<not> gs_enabled s ep then s
     else nuke ep (gs_queue s ep) (s\<lparr>gs_enabled := (gs_enabled s)(ep := False)\<rparr>))"

section \<open>Interfaces of the gadget\<close>

definition ds5_enable_hid :: "ds5_slot \<Rightarrow> errno option \<times> ds5_slot"
  where "ds5_enable_hid s =
    (if gs_hid s then (None, s)
     else case dummy_enable Ep_Int_In s of
       (Some e, s) \<Rightarrow> (Some e, s)
     | (None, s) \<Rightarrow>
         (case dummy_enable Ep_Int_Out s of
            (Some e, s) \<Rightarrow> (Some e, dummy_disable Ep_Int_In s)
          | (None, s) \<Rightarrow>
              (case dummy_queue Ep_Int_Out Req_Int_Out (replicate k_int_maxp 0) s of
                 (Some e, s) \<Rightarrow> (Some e, dummy_disable Ep_Int_In (dummy_disable Ep_Int_Out s))
               | (None, s) \<Rightarrow> (None, s\<lparr>gs_hid := True\<rparr>))))"

definition ds5_disable_hid :: "ds5_slot \<Rightarrow> ds5_slot"
  where "ds5_disable_hid s =
    (if \<not> gs_hid s then s
     else
       let s = s\<lparr>gs_hid := False\<rparr>;
           s = dummy_dequeue Ep_Int_In Req_Int_In s;
           s = dummy_dequeue Ep_Int_Out Req_Int_Out s;
           s = dummy_disable Ep_Int_In s;
           s = dummy_disable Ep_Int_Out s
       in s\<lparr>gs_busy := False\<rparr>)"

text \<open>The loop that queues the playback requests stops at the first failure.\<close>

fun queue_iso_out :: "nat list \<Rightarrow> ds5_slot \<Rightarrow> ds5_slot"
  where
    "queue_iso_out [] s = s"
  | "queue_iso_out (i # is) s =
      (case dummy_queue Ep_Iso_Out (Req_Iso_Out i) (replicate k_iso_out_maxp 0) s of
         (Some e, s) \<Rightarrow> s
       | (None, s) \<Rightarrow> queue_iso_out is s)"

definition ds5_enable_iso_out :: "ds5_slot \<Rightarrow> errno option \<times> ds5_slot"
  where "ds5_enable_iso_out s =
    (if gs_iso_out s then (None, s)
     else case dummy_enable Ep_Iso_Out s of
       (Some e, s) \<Rightarrow> (Some e, s)
     | (None, s) \<Rightarrow> (None, (queue_iso_out [0..<k_iso_out_q] s)\<lparr>gs_iso_out := True\<rparr>))"

definition ds5_disable_iso_out :: "ds5_slot \<Rightarrow> ds5_slot"
  where "ds5_disable_iso_out s =
    (if \<not> gs_iso_out s then s
     else (dummy_disable Ep_Iso_Out
       (foldl (\<lambda>s i. dummy_dequeue Ep_Iso_Out (Req_Iso_Out i) s) s [0..<k_iso_out_q]))\<lparr>gs_iso_out := False\<rparr>)"

definition ds5_enable_iso_in :: "ds5_slot \<Rightarrow> errno option \<times> ds5_slot"
  where "ds5_enable_iso_in s =
    (if gs_iso_in s then (None, s)
     else case dummy_enable Ep_Iso_In s of
       (Some e, s) \<Rightarrow> (Some e, s)
     | (None, s) \<Rightarrow> (None,
         (foldl (\<lambda>s i. snd (dummy_queue Ep_Iso_In (Req_Iso_In i) (replicate k_iso_in_maxp 0) s)) s
            [0..<k_iso_in_q])\<lparr>gs_iso_in := True\<rparr>))"

definition ds5_disable_iso_in :: "ds5_slot \<Rightarrow> ds5_slot"
  where "ds5_disable_iso_in s =
    (if \<not> gs_iso_in s then s
     else (dummy_disable Ep_Iso_In
       (foldl (\<lambda>s i. dummy_dequeue Ep_Iso_In (Req_Iso_In i) s) s [0..<k_iso_in_q]))\<lparr>gs_iso_in := False\<rparr>)"

definition ds5_disconnect :: "ds5_slot \<Rightarrow> ds5_slot"
  where "ds5_disconnect s = (ds5_disable_hid (ds5_disable_iso_in (ds5_disable_iso_out s)))
    \<lparr>gs_config := 0, gs_alt1 := 0, gs_alt2 := 0\<rparr>"

section \<open>Control requests\<close>

record setup_packet =
  su_type :: byte
  su_request :: byte
  su_value :: u16
  su_index :: u16
  su_length :: u16

text \<open>What the control endpoint is told to do: send these bytes (with a short packet behind them or
  not), receive so many, or stall.\<close>

datatype setup_reply = Setup_Send "byte list" bool | Setup_Receive nat | Setup_Stall errno

definition ds5_queue_ep0 :: "byte list \<Rightarrow> u16 \<Rightarrow> ds5_slot \<Rightarrow> setup_reply \<times> ds5_slot"
  where "ds5_queue_ep0 data len s =
    (let data = take (unat len) data
     in case dummy_queue Ep0 Req_Ep0 data s of
       (Some e, s) \<Rightarrow> (Setup_Stall e, s)
     | (None, s) \<Rightarrow> (Setup_Send data (length data < unat len), s))"

definition ds5_receive_ep0 :: "nat \<Rightarrow> ds5_slot \<Rightarrow> setup_reply \<times> ds5_slot"
  where "ds5_receive_ep0 n s =
    (case dummy_queue Ep0 Req_Ep0 (replicate n 0) s of
       (Some e, s) \<Rightarrow> (Setup_Stall e, s)
     | (None, s) \<Rightarrow> (Setup_Receive n, s))"

definition gadget_fill_pairing :: "byte list \<Rightarrow> byte list"
  where "gadget_fill_pairing mac = [0x09] @ rev mac @ [0x08, 0x25, 0x00] @ replicate 10 0"

definition gadget_get_feature :: "byte \<Rightarrow> byte list \<Rightarrow> nat \<Rightarrow> byte list"
  where "gadget_get_feature i mac cap =
    (let report = (if i = 0x05 then gadget_calibration
                   else if i = 0x09 then gadget_fill_pairing mac
                   else if i = 0x20 then gadget_firmware else [])
     in if cap < length report then [] else report)"

definition ascii_bytes :: "string \<Rightarrow> byte list"
  where "ascii_bytes s = map (\<lambda>c. of_char c) s"

fun utf16_units :: "byte list \<Rightarrow> nat \<Rightarrow> nat \<Rightarrow> byte list"
  where
    "utf16_units [] n cap = []"
  | "utf16_units (c # cs) n cap = (if 2 + n + 2 \<le> cap then c # 0 # utf16_units cs (n + 2) cap else [])"

definition ds5_utf16 :: "string \<Rightarrow> nat \<Rightarrow> byte list"
  where "ds5_utf16 s cap =
    (if cap < 2 then []
     else let units = utf16_units (ascii_bytes s) 0 cap
          in [word_of_nat (2 + length units), 0x03] @ units)"

definition get_descriptor :: "setup_packet \<Rightarrow> byte list option"
  where "get_descriptor p =
    (let ty = hi8 (su_value p); i = lo8 (su_value p)
     in if ty = 1 then Some gadget_device_desc
        else if ty = 2 then Some gadget_config_desc
        else if ty = 3 then
          (if i = 0 then Some [4, 3, 0x09, 0x04]
           else if i = 1 then Some (ds5_utf16 ''Sony Interactive Entertainment'' 256)
           else if i = 2 then Some (ds5_utf16 ''DualSense Wireless Controller'' 256)
           else None)
        else if ty = 0x22 then (if lo8 (su_index p) = 3 then Some gadget_report_desc else None)
        else if ty = 0x21 then Some (take 9 (drop 0xD2 gadget_config_desc))
        else None)"

definition set_configuration :: "byte \<Rightarrow> ds5_slot \<Rightarrow> setup_reply \<times> ds5_slot"
  where "set_configuration c s =
    (let s = s\<lparr>gs_config := c\<rparr>
     in if c \<noteq> 0 then
          (case ds5_enable_hid s of
             (Some e, s) \<Rightarrow> (Setup_Stall e, s\<lparr>gs_config := 0\<rparr>)
           | (None, s) \<Rightarrow> ds5_queue_ep0 [] 0 s)
        else ds5_queue_ep0 [] 0
          ((ds5_disable_hid (ds5_disable_iso_in (ds5_disable_iso_out s)))\<lparr>gs_alt1 := 0, gs_alt2 := 0\<rparr>))"

definition set_interface :: "byte \<Rightarrow> byte \<Rightarrow> ds5_slot \<Rightarrow> setup_reply \<times> ds5_slot"
  where "set_interface alt intf s =
    (if intf = 1 then
       (let s = s\<lparr>gs_alt1 := alt\<rparr>
        in ds5_queue_ep0 [] 0 (if alt \<noteq> 0 then snd (ds5_enable_iso_out s) else ds5_disable_iso_out s))
     else if intf = 2 then
       (let s = s\<lparr>gs_alt2 := alt\<rparr>
        in ds5_queue_ep0 [] 0 (if alt \<noteq> 0 then snd (ds5_enable_iso_in s) else ds5_disable_iso_in s))
     else if intf \<noteq> 0 \<and> intf \<noteq> 3 then (Setup_Stall Einval, s)
     else ds5_queue_ep0 [] 0 s)"

definition is_in_type :: "byte \<Rightarrow> bool" where "is_in_type t \<longleftrightarrow> t AND 0x80 \<noteq> 0"

definition is_class_type :: "byte \<Rightarrow> bool" where "is_class_type t \<longleftrightarrow> t AND 0x60 = 0x20"

text \<open>The volume answered to the audio class: current, minimum, maximum, resolution.\<close>

definition volume_answer :: "byte \<Rightarrow> ds5_slot \<Rightarrow> i16"
  where "volume_answer req s = (if req = 0x82 then - 32768 else if req = 0x83 then 0
    else if req = 0x84 then 256 else gs_volume s)"

definition audio_request :: "setup_packet \<Rightarrow> ds5_slot \<Rightarrow> setup_reply \<times> ds5_slot"
  where "audio_request p s =
    (let req = su_request p; cs = hi8 (su_value p)
     in if is_in_type (su_type p) \<and> req \<in> {0x81, 0x82, 0x83, 0x84} \<and> cs = 0x01
        then ds5_queue_ep0 [if req = 0x81 then gs_mute s else 0] (su_length p) s
        else if is_in_type (su_type p) \<and> req \<in> {0x81, 0x82, 0x83, 0x84} \<and> cs = 0x02
        then ds5_queue_ep0 (le16_bytes (u16_of_int (volume_answer req s))) (su_length p) s
        else if req = 0x01 then ds5_receive_ep0 (min (unat (su_length p)) 8) s
        else (Setup_Stall Eopnotsupp, s))"

definition hid_class_request :: "setup_packet \<Rightarrow> bool"
  where "hid_class_request p \<longleftrightarrow> lo8 (su_index p) = 3 \<and> is_class_type (su_type p) \<and>
    (su_request p = 0x01 \<and> is_in_type (su_type p) \<or> su_request p = 0x09 \<or> su_request p = 0x0A)"

definition hid_request :: "setup_packet \<Rightarrow> ds5_slot \<Rightarrow> setup_reply \<times> ds5_slot"
  where "hid_request p s =
    (if su_request p = 0x01 \<and> is_in_type (su_type p) then
       (let report = gadget_get_feature (lo8 (su_value p)) (gs_mac s) 256
        in if report = [] then (Setup_Stall Einval, s) else ds5_queue_ep0 report (su_length p) s)
     else if su_request p = 0x09 then ds5_receive_ep0 (min (unat (su_length p)) 64) s
     else ds5_queue_ep0 [] 0 s)"

definition ds5_setup :: "setup_packet \<Rightarrow> ds5_slot \<Rightarrow> setup_reply \<times> ds5_slot"
  where "ds5_setup p s =
    (let req = su_request p; ty = su_type p
     in if req = 6 \<and> is_in_type ty then
          (case get_descriptor p of
             None \<Rightarrow> (Setup_Stall Einval, s)
           | Some d \<Rightarrow> ds5_queue_ep0 d (su_length p) s)
        else if req = 9 \<and> ty = 0 then set_configuration (lo8 (su_value p)) s
        else if req = 8 \<and> is_in_type ty then ds5_queue_ep0 [gs_config s] (su_length p) s
        else if req = 11 \<and> ty = 1 then set_interface (lo8 (su_value p)) (lo8 (su_index p)) s
        else if req = 10 \<and> is_in_type ty then
          ds5_queue_ep0 [if lo8 (su_index p) = 1 then gs_alt1 s else if lo8 (su_index p) = 2 then gs_alt2 s else 0]
            (su_length p) s
        else if hid_class_request p then hid_request p s
        else if is_class_type ty then audio_request p s
        else (Setup_Stall Eopnotsupp, s))"

section \<open>Binding\<close>

definition new_ds5_slot :: ds5_slot
  where "new_ds5_slot = \<lparr>gs_bound = False, gs_created = False, gs_mac = replicate 6 0,
    gs_input = replicate 64 0, gs_config = 0, gs_alt1 = 0, gs_alt2 = 0, gs_hid = False,
    gs_iso_out = False, gs_iso_in = False, gs_busy = False, gs_volume = 0, gs_mute = 0, gs_events = [],
    gs_up = False, gs_speed = Speed_High, gs_enabled = (\<lambda>_. False), gs_queue = (\<lambda>_. [])\<rparr>"

text \<open>\<open>missing\<close> says what an endpoint not found or a request not allocated fails with; the slot stays
  taken.\<close>

definition ds5_bind :: "errno option \<Rightarrow> ds5_slot \<Rightarrow> errno option \<times> ds5_slot"
  where "ds5_bind missing s =
    (let s = s\<lparr>gs_bound := True\<rparr>
     in if missing \<noteq> None then (missing, s)
        else (None, s\<lparr>gs_input := overwrite 0 [0x01, 0x80, 0x80, 0x80, 0x80] (gs_input s)\<rparr>))"

definition ds5_unbind :: "ds5_slot \<Rightarrow> ds5_slot"
  where "ds5_unbind s = (ds5_disable_hid (ds5_disable_iso_in (ds5_disable_iso_out s)))\<lparr>gs_bound := False\<rparr>"

section \<open>The character device\<close>

text \<open>The slots, and of every open file the slot it created (\<^theory_text>\<open>private_data\<close>).\<close>

record ds5_module =
  dm_slots :: "ds5_slot list"
  dm_files :: "nat \<Rightarrow> nat option"

definition on_ds5 :: "nat \<Rightarrow> (ds5_slot \<Rightarrow> ds5_slot) \<Rightarrow> ds5_module \<Rightarrow> ds5_module"
  where "on_ds5 i f m = m\<lparr>dm_slots := (dm_slots m)[i := f (dm_slots m ! i)]\<rparr>"

definition new_ds5_module :: ds5_module
  where "new_ds5_module = \<lparr>dm_slots = replicate k_ds5_slots new_ds5_slot, dm_files = (\<lambda>_. None)\<rparr>"

definition ds5_open :: "nat \<Rightarrow> ds5_module \<Rightarrow> ds5_module"
  where "ds5_open f m = m\<lparr>dm_files := (dm_files m)(f := None)\<rparr>"

definition ds5_release :: "nat \<Rightarrow> ds5_module \<Rightarrow> ds5_module"
  where "ds5_release f m =
    (case dm_files m f of
       None \<Rightarrow> m
     | Some i \<Rightarrow> (on_ds5 i (\<lambda>s. s\<lparr>gs_created := False\<rparr>) m)\<lparr>dm_files := (dm_files m)(f := None)\<rparr>)"

definition ds5_create :: "nat \<Rightarrow> u32 \<Rightarrow> byte list \<Rightarrow> ds5_module \<Rightarrow> errno option \<times> ds5_module"
  where "ds5_create f slot mac m =
    (let i = unat slot
     in if k_ds5_slots \<le> i then (Some Einval, m)
        else if gs_created (dm_slots m ! i) then (Some Ebusy, m)
        else if \<not> gs_bound (dm_slots m ! i) then (Some Enodev, m)
        else (None, (on_ds5 i (\<lambda>s. s\<lparr>gs_mac := mac, gs_events := [], gs_created := True\<rparr>) m)
          \<lparr>dm_files := (dm_files m)(f := Some i)\<rparr>))"

definition ds5_destroy :: "nat \<Rightarrow> ds5_module \<Rightarrow> errno option \<times> ds5_module"
  where "ds5_destroy f m =
    (case dm_files m f of
       None \<Rightarrow> (Some Enodev, m)
     | Some i \<Rightarrow> (None, (on_ds5 i (\<lambda>s. s\<lparr>gs_created := False\<rparr>) m)\<lparr>dm_files := (dm_files m)(f := None)\<rparr>))"

text \<open>\<^theory_text>\<open>ds5_write\<close> on its slot: the report is kept, and queued unless one is under way.\<close>

definition publish_input :: "byte list \<Rightarrow> ds5_slot \<Rightarrow> errno option \<times> ds5_slot"
  where "publish_input report s =
    (let s = s\<lparr>gs_input := report @ replicate (k_ds5_input_size - length report) 0\<rparr>
     in if gs_hid s \<and> \<not> gs_busy s then
          (case dummy_queue Ep_Int_In Req_Int_In (gs_input s) (s\<lparr>gs_busy := True\<rparr>) of
             (Some e, s) \<Rightarrow> (Some e, s\<lparr>gs_busy := False\<rparr>)
           | (None, s) \<Rightarrow> (None, s))
        else (None, s))"

definition ds5_write :: "nat \<Rightarrow> byte list \<Rightarrow> ds5_module \<Rightarrow> (errno + nat) \<times> ds5_module"
  where "ds5_write f report m =
    (case dm_files m f of
       None \<Rightarrow> (Inl Enodev, m)
     | Some i \<Rightarrow>
         (if \<not> gs_created (dm_slots m ! i) then (Inl Enodev, m)
          else if length report < 1 \<or> k_ds5_input_size < length report then (Inl Einval, m)
          else case publish_input report (dm_slots m ! i) of
              (Some e, s) \<Rightarrow> (Inl e, on_ds5 i (\<lambda>_. s) m)
            | (None, s) \<Rightarrow> (Inr (length report), on_ds5 i (\<lambda>_. s) m)))"

text \<open>A read that does not block; a blocking one is one that happens when an event is there.\<close>

definition k_event_size :: nat where "k_event_size = 520"

definition ds5_read :: "nat \<Rightarrow> nat \<Rightarrow> ds5_module \<Rightarrow> (errno + ds5_event) \<times> ds5_module"
  where "ds5_read f count m =
    (case dm_files m f of
       None \<Rightarrow> (Inl Enodev, m)
     | Some i \<Rightarrow>
         (if count < k_event_size then (Inl Einval, m)
          else case gs_events (dm_slots m ! i) of
              [] \<Rightarrow> (Inl Eagain, m)
            | ev # rest \<Rightarrow> (Inr ev, on_ds5 i (\<lambda>s. s\<lparr>gs_events := rest\<rparr>) m)))"

text \<open>\<^theory_text>\<open>ds5_poll\<close>: whether the file is in error, and whether an event can be read.\<close>

definition ds5_poll :: "nat \<Rightarrow> ds5_module \<Rightarrow> bool \<times> bool"
  where "ds5_poll f m = (case dm_files m f of None \<Rightarrow> (True, False)
    | Some i \<Rightarrow> (False, gs_events (dm_slots m ! i) \<noteq> []))"

section \<open>Runs\<close>

datatype ds5_op = Op_Open nat | Op_Release nat | Op_Create nat u32 "byte list" | Op_Destroy nat
  | Op_Write nat "byte list" | Op_Read nat nat
  | Op_Bind nat "errno option" | Op_Unbind nat | Op_Link nat bool usb_speed | Op_Host_Reset nat
  | Op_Setup nat setup_packet | Op_Disconnect nat | Op_Serve nat ds5_ep "byte list"

text \<open>The host serves the request at the head of a queue: it takes the bytes of an IN request, or
  fills an OUT one.\<close>

definition serve :: "ds5_ep \<Rightarrow> byte list \<Rightarrow> ds5_slot \<Rightarrow> ds5_slot"
  where "serve ep data s =
    (case gs_queue s ep of
       [] \<Rightarrow> s
     | (r, buf) # q \<Rightarrow> complete r (Served (if ep_is_in ep then buf else take (length buf) data)) (set_queue ep q s))"

fun ds5_step :: "ds5_op \<Rightarrow> ds5_module \<Rightarrow> ds5_module"
  where
    "ds5_step (Op_Open f) m = ds5_open f m"
  | "ds5_step (Op_Release f) m = ds5_release f m"
  | "ds5_step (Op_Create f i mac) m = snd (ds5_create f i mac m)"
  | "ds5_step (Op_Destroy f) m = snd (ds5_destroy f m)"
  | "ds5_step (Op_Write f report) m = snd (ds5_write f report m)"
  | "ds5_step (Op_Read f n) m = snd (ds5_read f n m)"
  | "ds5_step (Op_Bind i missing) m = (if gs_bound (dm_slots m ! i) then m else on_ds5 i (\<lambda>s. snd (ds5_bind missing s)) m)"
  | "ds5_step (Op_Unbind i) m = (if gs_bound (dm_slots m ! i) then on_ds5 i ds5_unbind m else m)"
  | "ds5_step (Op_Link i up speed) m = on_ds5 i (\<lambda>s. s\<lparr>gs_up := up, gs_speed := speed\<rparr>) m"
  | "ds5_step (Op_Host_Reset i) m =
      (if gs_bound (dm_slots m ! i) then on_ds5 i (\<lambda>s. ds5_disconnect (stop_activity s)) m else m)"
  | "ds5_step (Op_Setup i p) m = (if gs_bound (dm_slots m ! i) then on_ds5 i (\<lambda>s. snd (ds5_setup p s)) m else m)"
  | "ds5_step (Op_Disconnect i) m = (if gs_bound (dm_slots m ! i) then on_ds5 i ds5_disconnect m else m)"
  | "ds5_step (Op_Serve i ep data) m = on_ds5 i (serve ep data) m"

definition ds5_run :: "ds5_op list \<Rightarrow> ds5_module \<Rightarrow> ds5_module"
  where "ds5_run ops m = foldl (\<lambda>m o'. ds5_step o' m) m ops"

section \<open>The queues are in order\<close>

text \<open>Which request belongs to which endpoint, with a buffer of which length.\<close>

fun belongs :: "ds5_ep \<Rightarrow> ds5_req \<times> byte list \<Rightarrow> bool"
  where
    "belongs ep (Req_Ep0, d) \<longleftrightarrow> ep = Ep0"
  | "belongs ep (Req_Int_In, d) \<longleftrightarrow> ep = Ep_Int_In \<and> length d = 64"
  | "belongs ep (Req_Int_Out, d) \<longleftrightarrow> ep = Ep_Int_Out \<and> length d = 64"
  | "belongs ep (Req_Iso_Out i, d) \<longleftrightarrow> ep = Ep_Iso_Out \<and> i < 8 \<and> length d = 392"
  | "belongs ep (Req_Iso_In i, d) \<longleftrightarrow> ep = Ep_Iso_In \<and> i < 4 \<and> length d = 196"
  | "belongs ep (Req_Fifo, d) \<longleftrightarrow> ep = Ep_Int_In \<and> length d = 64"

definition queues_ok :: "ds5_slot \<Rightarrow> bool"
  where "queues_ok s \<longleftrightarrow> (\<forall>ep. list_all (belongs ep) (gs_queue s ep) \<and> distinct (map fst (gs_queue s ep)) \<and>
    (\<not> gs_enabled s ep \<and> ep \<noteq> Ep0 \<longrightarrow> gs_queue s ep = []))"

definition report_queued :: "ds5_slot \<Rightarrow> bool"
  where "report_queued s \<longleftrightarrow> Req_Int_In \<in> fst ` set (gs_queue s Ep_Int_In)"

lemma set_queue_simps [simp]:
  "gs_queue (set_queue ep q s) = (gs_queue s)(ep := q)" "gs_enabled (set_queue ep q s) = gs_enabled s"
  "gs_busy (set_queue ep q s) = gs_busy s" "gs_up (set_queue ep q s) = gs_up s" "gs_hid (set_queue ep q s) = gs_hid s"
  "gs_events (set_queue ep q s) = gs_events s" "gs_input (set_queue ep q s) = gs_input s"
  "gs_iso_out (set_queue ep q s) = gs_iso_out s" "gs_iso_in (set_queue ep q s) = gs_iso_in s"
  "gs_created (set_queue ep q s) = gs_created s" "gs_bound (set_queue ep q s) = gs_bound s"
  by (simp_all add: set_queue_def)

lemma push_event_simps [simp]:
  "gs_queue (ds5_push_event ty d s) = gs_queue s" "gs_enabled (ds5_push_event ty d s) = gs_enabled s"
  "gs_busy (ds5_push_event ty d s) = gs_busy s" "gs_hid (ds5_push_event ty d s) = gs_hid s"
  "gs_iso_out (ds5_push_event ty d s) = gs_iso_out s" "gs_iso_in (ds5_push_event ty d s) = gs_iso_in s"
  "gs_input (ds5_push_event ty d s) = gs_input s" "gs_created (ds5_push_event ty d s) = gs_created s"
  by (simp_all add: ds5_push_event_def Let_def)

lemma in_flight_iff: "in_flight r s \<longleftrightarrow> (\<exists>ep. r \<in> fst ` set (gs_queue s ep))"
proof -
  have "ep \<in> set all_eps" for ep by (cases ep) (simp_all add: all_eps_def)
  then show ?thesis by (auto simp: in_flight_def list_ex_iff)
qed

text \<open>What an operation on the queues leaves alone: everything but the queues, the events and the
  descriptors of the endpoints; and the report request with its flag.\<close>

definition same_slot :: "ds5_slot \<Rightarrow> ds5_slot \<Rightarrow> bool"
  where "same_slot s s' \<longleftrightarrow> gs_hid s' = gs_hid s \<and> gs_iso_out s' = gs_iso_out s \<and> gs_iso_in s' = gs_iso_in s \<and>
    gs_input s' = gs_input s \<and> gs_created s' = gs_created s"

lemma same_slot_refl [simp]: "same_slot s s"
  by (simp add: same_slot_def)

lemma same_slot_trans: "same_slot s t \<Longrightarrow> same_slot t u \<Longrightarrow> same_slot s u"
  by (simp add: same_slot_def)

definition events_ok :: "ds5_slot \<Rightarrow> bool"
  where "events_ok s \<longleftrightarrow> length (gs_events s) \<le> k_event_fifo \<and>
    (\<forall>ev \<in> set (gs_events s). ev_type ev \<in> {1, 2} \<and> ev_size ev \<le> 512 \<and> length (ev_data ev) = 512)"

lemma events_frame [simp]:
  "events_ok (s\<lparr>gs_hid := a\<rparr>) = events_ok s" "events_ok (s\<lparr>gs_iso_out := a\<rparr>) = events_ok s"
  "events_ok (s\<lparr>gs_iso_in := a\<rparr>) = events_ok s" "events_ok (s\<lparr>gs_config := c\<rparr>) = events_ok s"
  "events_ok (s\<lparr>gs_alt1 := c\<rparr>) = events_ok s" "events_ok (s\<lparr>gs_alt2 := c\<rparr>) = events_ok s"
  "events_ok (s\<lparr>gs_input := d\<rparr>) = events_ok s" "events_ok (s\<lparr>gs_mac := d\<rparr>) = events_ok s"
  "events_ok (s\<lparr>gs_created := a\<rparr>) = events_ok s" "events_ok (s\<lparr>gs_bound := a\<rparr>) = events_ok s"
  "events_ok (s\<lparr>gs_up := a\<rparr>) = events_ok s" "events_ok (s\<lparr>gs_speed := sp\<rparr>) = events_ok s"
  "events_ok (s\<lparr>gs_busy := a\<rparr>) = events_ok s" "events_ok (s\<lparr>gs_enabled := e\<rparr>) = events_ok s"
  "events_ok (s\<lparr>gs_queue := q\<rparr>) = events_ok s" "events_ok (set_queue ep q' s) = events_ok s"
  by (simp_all add: events_ok_def)

lemma dummy_queue_ok:
  assumes "queues_ok s" "belongs ep (r, d)" "r \<noteq> Req_Fifo" "r \<noteq> Req_Int_In" "dummy_queue ep r d s = (res, s')"
  shows "queues_ok s' \<and> same_slot s s' \<and> gs_enabled s' = gs_enabled s \<and> gs_busy s' = gs_busy s \<and>
    report_queued s' = report_queued s \<and> events_ok s' = events_ok s"
proof -
  have "s' = s \<or> (\<not> in_flight r s \<and> (gs_enabled s ep \<or> ep = Ep0) \<and> s' = set_queue ep (gs_queue s ep @ [(r, d)]) s)"
    using assms(2-5) by (cases "(ep, r, d)" rule: belongs.cases)
      (auto simp: dummy_queue_def ep_is_in_def split: if_splits)
  then consider "s' = s" | "\<not> in_flight r s" "gs_enabled s ep \<or> ep = Ep0" "s' = set_queue ep (gs_queue s ep @ [(r, d)]) s"
    by blast
  then show ?thesis
  proof cases
    case 2
    then have "queues_ok s'" using assms(1,2) by (auto simp: queues_ok_def in_flight_iff)
    moreover have "report_queued s' = report_queued s" using 2(3) assms(4) by (auto simp: report_queued_def)
    ultimately show ?thesis using 2(3) by (simp add: same_slot_def)
  qed (use assms(1) in simp)
qed

text \<open>A slot whose queues are in order and whose busy flag tells the truth.\<close>

definition live_ok :: "ds5_slot \<Rightarrow> bool"
  where "live_ok s \<longleftrightarrow> queues_ok s \<and> gs_busy s = report_queued s"

text \<open>What an operation below the gadget keeps.\<close>

definition below :: "ds5_slot \<Rightarrow> ds5_slot \<Rightarrow> bool"
  where "below s s' \<longleftrightarrow> live_ok s' \<and> same_slot s s' \<and> gs_enabled s' = gs_enabled s \<and> (events_ok s \<longrightarrow> events_ok s')"

lemma below_refl: "live_ok s \<Longrightarrow> below s s"
  by (simp add: below_def)

lemma below_trans: "below s t \<Longrightarrow> below t u \<Longrightarrow> below s u"
  by (auto simp: below_def intro: same_slot_trans)

lemma belowD: "below s s' \<Longrightarrow> live_ok s'" "below s s' \<Longrightarrow> gs_enabled s' = gs_enabled s"
  by (simp_all add: below_def)

lemma queue_below:
  assumes "live_ok s" "belongs ep (r, d)" "r \<noteq> Req_Fifo" "r \<noteq> Req_Int_In"
  shows "below s (snd (dummy_queue ep r d s))"
proof -
  obtain res s' where q: "dummy_queue ep r d s = (res, s')" by fastforce
  from dummy_queue_ok [OF _ assms(2-4) q] assms(1) show ?thesis by (simp add: q below_def live_ok_def)
qed

lemma push_below:
  assumes "live_ok s" "ty \<in> {1, 2}"
  shows "below s (ds5_push_event ty d s)"
  using assms by (auto simp: below_def live_ok_def queues_ok_def report_queued_def same_slot_def events_ok_def
      ds5_push_event_def Let_def)

lemma complete_below:
  assumes "live_ok s" "belongs ep (r, d)" "r \<noteq> Req_Int_In"
  shows "below s (complete r st s)"
proof -
  note q = queue_below below_refl below_trans [OF push_below queue_below] belowD(1) [OF push_below]
  show ?thesis using assms
    by (cases "(ep, r, d)" rule: belongs.cases; cases st)
      (auto simp: ds5_int_out_complete_def ds5_iso_out_complete_def ds5_iso_in_complete_def gadget_sizes
        intro!: q)
qed

lemma drop_request_ok:
  assumes "live_ok s" "set q \<subseteq> set (gs_queue s ep)" "distinct (map fst q)"
    "Req_Int_In \<in> fst ` set q \<longleftrightarrow> Req_Int_In \<in> fst ` set (gs_queue s ep)"
  shows "below s (set_queue ep q s)"
proof -
  have "gs_queue s ep = [] \<Longrightarrow> q = []" using assms(2) by simp
  moreover have "list_all (belongs ep) q" using assms(1,2) by (auto simp: live_ok_def queues_ok_def list_all_iff)
  ultimately show ?thesis using assms(1,3,4)
    by (auto simp: below_def live_ok_def queues_ok_def same_slot_def report_queued_def)
qed

lemma drop_report_ok:
  assumes "live_ok s" "set q \<subseteq> set (gs_queue s Ep_Int_In)" "distinct (map fst q)" "Req_Int_In \<notin> fst ` set q"
  shows "below s (ds5_int_in_complete (set_queue Ep_Int_In q s))"
proof -
  have "gs_queue s Ep_Int_In = [] \<Longrightarrow> q = []" using assms(2) by simp
  moreover have "list_all (belongs Ep_Int_In) q" using assms(1,2) by (auto simp: live_ok_def queues_ok_def list_all_iff)
  ultimately show ?thesis using assms(1,3,4)
    by (auto simp: below_def live_ok_def queues_ok_def same_slot_def report_queued_def
        ds5_int_in_complete_def)
qed

lemma give_back_below:
  assumes "live_ok s" "(r, d) \<in> set (gs_queue s ep)" "set q \<subseteq> set (gs_queue s ep)" "distinct (map fst q)"
    "r \<notin> fst ` set q" "\<And>r'. r' \<noteq> r \<Longrightarrow> r' \<in> fst ` set (gs_queue s ep) \<Longrightarrow> r' \<in> fst ` set q"
  shows "below s (complete r st (set_queue ep q s))"
proof -
  have b: "belongs ep (r, d)" using assms(1,2) by (auto simp: live_ok_def queues_ok_def list_all_iff)
  show ?thesis
  proof (cases "r = Req_Int_In")
    case True
    with b have "ep = Ep_Int_In" by simp
    then show ?thesis using drop_report_ok [of s q] assms True by simp
  next
    case False
    have "Req_Int_In \<in> fst ` set q \<longleftrightarrow> Req_Int_In \<in> fst ` set (gs_queue s ep)"
      using assms(3,6) False by (metis image_mono subsetD)
    then have "below s (set_queue ep q s)" using assms(1,3,4) by (intro drop_request_ok)
    from below_trans [OF this complete_below [OF belowD(1) [OF this] b False]] show ?thesis .
  qed
qed

lemma dequeue_below:
  assumes "live_ok s"
  shows "below s (dummy_dequeue ep r s)"
proof (cases "r \<in> fst ` set (gs_queue s ep)")
  case True
  then obtain d where d: "(r, d) \<in> set (gs_queue s ep)" by auto
  let ?q = "filter (\<lambda>(r', d). r' \<noteq> r) (gs_queue s ep)"
  have "distinct (map fst (gs_queue s ep))" using assms by (simp add: live_ok_def queues_ok_def)
  then have dist: "distinct (map fst ?q)" by (rule distinct_map_filter)
  have "below s (complete r Reset (set_queue ep ?q s))"
    by (rule give_back_below [OF assms d _ dist]) (force split: prod.splits)+
  then show ?thesis using True by (simp add: dummy_dequeue_def)
qed (simp add: dummy_dequeue_def below_refl assms)

lemma serve_below:
  assumes "live_ok s"
  shows "below s (serve ep data s)"
proof (cases "gs_queue s ep")
  case (Cons x q)
  obtain r d where x: "x = (r, d)" by fastforce
  have "distinct (map fst (gs_queue s ep))" using assms by (simp add: live_ok_def queues_ok_def)
  then have "distinct (map fst q)" "r \<notin> fst ` set q" using Cons x by simp_all
  then show ?thesis using give_back_below [OF assms, of r d ep q] Cons x by (force simp: serve_def)
qed (simp add: serve_def below_refl assms)

lemma complete_shutdown:
  "complete r Shutdown s = (if r = Req_Int_In then s\<lparr>gs_busy := False\<rparr> else s)"
  by (cases r) (simp_all add: ds5_int_in_complete_def ds5_int_out_complete_def ds5_iso_out_complete_def
      ds5_iso_in_complete_def)

lemma nuke_is:
  "gs_queue s ep = q \<Longrightarrow>
    nuke ep q s = (set_queue ep [] s)\<lparr>gs_busy := gs_busy s \<and> Req_Int_In \<notin> fst ` set q\<rparr>"
proof (induction q arbitrary: s)
  case Nil
  then show ?case by (simp add: set_queue_def fun_upd_idem)
next
  case (Cons x q)
  obtain r d where x: "x = (r, d)" by fastforce
  let ?s = "complete r Shutdown (set_queue ep q s)"
  have "gs_queue ?s ep = q" by (simp add: complete_shutdown)
  from Cons.IH [OF this] show ?case by (auto simp: x complete_shutdown set_queue_def)
qed

lemma busy_gone:
  assumes "live_ok s"
  shows "(gs_busy s \<and> Req_Int_In \<notin> fst ` set (gs_queue s ep)) = (gs_busy s \<and> ep \<noteq> Ep_Int_In)"
proof -
  have "\<forall>x \<in> set (gs_queue s ep). belongs ep x" using assms by (simp add: live_ok_def queues_ok_def list_all_iff)
  then have "Req_Int_In \<in> fst ` set (gs_queue s ep) \<Longrightarrow> ep = Ep_Int_In" by fastforce
  then show ?thesis using assms by (auto simp: live_ok_def report_queued_def)
qed

text \<open>The slot with an endpoint's queue emptied.\<close>

definition emptied :: "ds5_ep \<Rightarrow> ds5_slot \<Rightarrow> ds5_slot"
  where "emptied ep s = s\<lparr>gs_queue := (gs_queue s)(ep := []), gs_busy := gs_busy s \<and> ep \<noteq> Ep_Int_In\<rparr>"

lemma nuke_emptied: "live_ok s \<Longrightarrow> nuke ep (gs_queue s ep) s = emptied ep s"
  by (simp add: nuke_is set_queue_def emptied_def busy_gone)

lemma emptied_ok:
  assumes "live_ok s"
  shows "live_ok (emptied ep s)" "live_ok ((emptied ep s)\<lparr>gs_enabled := (gs_enabled s)(ep := False)\<rparr>)"
  using assms by (auto simp: live_ok_def queues_ok_def report_queued_def emptied_def)

lemma nuke_below: "live_ok s \<Longrightarrow> below s (nuke ep (gs_queue s ep) s)"
  using emptied_ok(1) [of s ep] by (simp add: nuke_emptied below_def) (simp add: emptied_def same_slot_def)

lemma foldl_below:
  assumes "\<And>s i. live_ok s \<Longrightarrow> below s (f s i)" "live_ok s"
  shows "below s (foldl f s is)"
  using assms(2)
proof (induction "is" arbitrary: s)
  case (Cons i "is")
  from below_trans [OF assms(1) [OF Cons.prems] Cons.IH [OF belowD(1) [OF assms(1) [OF Cons.prems]]]]
  show ?case by simp
qed (simp add: below_refl)

lemma stop_activity_below: "live_ok s \<Longrightarrow> below s (stop_activity s)"
  unfolding stop_activity_def by (rule foldl_below) (rule nuke_below)

text \<open>Disabling empties the queue of the endpoint and takes its descriptor; enabling gives it one.\<close>

definition down :: "ds5_ep \<Rightarrow> ds5_slot \<Rightarrow> ds5_slot \<Rightarrow> bool"
  where "down ep s s' \<longleftrightarrow> live_ok s' \<and> same_slot s s' \<and> gs_enabled s' = (gs_enabled s)(ep := False) \<and>
    gs_queue s' = (gs_queue s)(ep := []) \<and> events_ok s' = events_ok s"

lemma disable_down:
  assumes "live_ok s" "ep \<noteq> Ep0"
  shows "down ep s (dummy_disable ep s)"
proof (cases "gs_enabled s ep")
  case True
  have "dummy_disable ep s = (emptied ep s)\<lparr>gs_enabled := (gs_enabled s)(ep := False)\<rparr>"
    using True by (intro ds5_slot.equality)
      (simp_all add: dummy_disable_def nuke_is set_queue_def emptied_def busy_gone [OF assms(1)])
  then show ?thesis using emptied_ok(2) [OF assms(1)]
    by (simp add: down_def) (simp add: emptied_def same_slot_def)
next
  case False
  then have "gs_queue s ep = []" using assms by (simp add: live_ok_def queues_ok_def)
  then show ?thesis using False assms by (simp add: dummy_disable_def down_def fun_upd_idem)
qed

lemma enable_cases:
  assumes "dummy_enable ep s = (res, s')" "live_ok s"
  shows "(res \<noteq> None \<and> s' = s) \<or> (res = None \<and> live_ok s' \<and> ep \<noteq> Ep0 \<and> s' = s\<lparr>gs_enabled := (gs_enabled s)(ep := True)\<rparr>)"
  using assms by (cases ep)
    (auto simp: dummy_enable_def live_ok_def queues_ok_def report_queued_def split: if_splits)

section \<open>The slot's invariant\<close>

text \<open>An interface is enabled exactly when its endpoints have descriptors, every event fits a record
  of the character device, and the kept report is a whole one.\<close>

definition flags_ok :: "ds5_slot \<Rightarrow> bool"
  where "flags_ok s \<longleftrightarrow> gs_enabled s Ep_Int_In = gs_hid s \<and> gs_enabled s Ep_Int_Out = gs_hid s \<and>
    gs_enabled s Ep_Iso_Out = gs_iso_out s \<and> gs_enabled s Ep_Iso_In = gs_iso_in s"

definition slot_ok :: "ds5_slot \<Rightarrow> bool"
  where "slot_ok s \<longleftrightarrow> live_ok s \<and> flags_ok s \<and> events_ok s \<and> length (gs_input s) = 64"

definition keeps :: "ds5_slot \<Rightarrow> ds5_slot \<Rightarrow> bool"
  where "keeps s s' \<longleftrightarrow> slot_ok s' \<and> gs_created s' = gs_created s"

lemma keeps_trans: "keeps s t \<Longrightarrow> keeps t u \<Longrightarrow> keeps s u"
  by (simp add: keeps_def)

lemma keepsD: "keeps s t \<Longrightarrow> slot_ok t"
  by (simp add: keeps_def)

lemma below_keeps: "slot_ok s \<Longrightarrow> below s s' \<Longrightarrow> keeps s s'"
  by (simp add: keeps_def slot_ok_def below_def flags_ok_def same_slot_def)

lemma live_frame [simp]:
  "live_ok (s\<lparr>gs_hid := a\<rparr>) = live_ok s" "live_ok (s\<lparr>gs_iso_out := a\<rparr>) = live_ok s"
  "live_ok (s\<lparr>gs_iso_in := a\<rparr>) = live_ok s" "live_ok (s\<lparr>gs_config := c\<rparr>) = live_ok s"
  "live_ok (s\<lparr>gs_alt1 := c\<rparr>) = live_ok s" "live_ok (s\<lparr>gs_alt2 := c\<rparr>) = live_ok s"
  "live_ok (s\<lparr>gs_input := d\<rparr>) = live_ok s" "live_ok (s\<lparr>gs_mac := d\<rparr>) = live_ok s"
  "live_ok (s\<lparr>gs_events := ev\<rparr>) = live_ok s" "live_ok (s\<lparr>gs_created := a\<rparr>) = live_ok s"
  "live_ok (s\<lparr>gs_bound := a\<rparr>) = live_ok s" "live_ok (s\<lparr>gs_up := a\<rparr>) = live_ok s"
  "live_ok (s\<lparr>gs_speed := sp\<rparr>) = live_ok s"
  by (simp_all add: live_ok_def queues_ok_def report_queued_def)

lemma slot_frame [simp]:
  "slot_ok (s\<lparr>gs_config := c\<rparr>) = slot_ok s" "slot_ok (s\<lparr>gs_alt1 := c\<rparr>) = slot_ok s"
  "slot_ok (s\<lparr>gs_alt2 := c\<rparr>) = slot_ok s" "slot_ok (s\<lparr>gs_mac := d\<rparr>) = slot_ok s"
  "slot_ok (s\<lparr>gs_created := a\<rparr>) = slot_ok s" "slot_ok (s\<lparr>gs_bound := a\<rparr>) = slot_ok s"
  "slot_ok (s\<lparr>gs_up := a\<rparr>) = slot_ok s" "slot_ok (s\<lparr>gs_speed := sp\<rparr>) = slot_ok s"
  by (simp_all add: slot_ok_def flags_ok_def)

lemma keeps_frame [simp]:
  "keeps s (t\<lparr>gs_config := c\<rparr>) = keeps s t" "keeps s (t\<lparr>gs_alt1 := c\<rparr>) = keeps s t"
  "keeps s (t\<lparr>gs_alt2 := c\<rparr>) = keeps s t" "keeps s (t\<lparr>gs_bound := a\<rparr>) = keeps s t"
  "keeps (s\<lparr>gs_config := c\<rparr>) t = keeps s t" "keeps (s\<lparr>gs_alt1 := c\<rparr>) t = keeps s t"
  "keeps (s\<lparr>gs_alt2 := c\<rparr>) t = keeps s t" "keeps (s\<lparr>gs_bound := a\<rparr>) t = keeps s t"
  by (simp_all add: keeps_def)

lemma keeps_refl: "slot_ok s \<Longrightarrow> keeps s s"
  by (simp add: keeps_def)

lemma disable_iso_out_keeps:
  assumes "slot_ok s"
  shows "keeps s (ds5_disable_iso_out s)"
proof -
  let ?t = "foldl (\<lambda>s i. dummy_dequeue Ep_Iso_Out (Req_Iso_Out i) s) s [0..<k_iso_out_q]"
  have t: "below s ?t" using assms by (intro foldl_below dequeue_below) (simp_all add: slot_ok_def)
  have "down Ep_Iso_Out ?t (dummy_disable Ep_Iso_Out ?t)" by (rule disable_down [OF belowD(1) [OF t]]) simp
  then show ?thesis using assms t
    by (auto simp: ds5_disable_iso_out_def keeps_def slot_ok_def down_def below_def flags_ok_def same_slot_def)
qed

lemma disable_iso_in_keeps:
  assumes "slot_ok s"
  shows "keeps s (ds5_disable_iso_in s)"
proof -
  let ?t = "foldl (\<lambda>s i. dummy_dequeue Ep_Iso_In (Req_Iso_In i) s) s [0..<k_iso_in_q]"
  have t: "below s ?t" using assms by (intro foldl_below dequeue_below) (simp_all add: slot_ok_def)
  have "down Ep_Iso_In ?t (dummy_disable Ep_Iso_In ?t)" by (rule disable_down [OF belowD(1) [OF t]]) simp
  then show ?thesis using assms t
    by (auto simp: ds5_disable_iso_in_def keeps_def slot_ok_def down_def below_def flags_ok_def same_slot_def)
qed

text \<open>With the interrupt endpoint down nothing of the report is queued.\<close>

lemma down_not_queued: "live_ok s \<Longrightarrow> \<not> gs_enabled s Ep_Int_In \<Longrightarrow> \<not> report_queued s \<and> \<not> gs_busy s"
  by (auto simp: live_ok_def queues_ok_def report_queued_def)

lemma both_down:
  assumes "live_ok b"
  shows "live_ok (dummy_disable Ep_Int_Out (dummy_disable Ep_Int_In b))"
    "same_slot b (dummy_disable Ep_Int_Out (dummy_disable Ep_Int_In b))"
    "gs_enabled (dummy_disable Ep_Int_Out (dummy_disable Ep_Int_In b)) = (gs_enabled b)(Ep_Int_In := False, Ep_Int_Out := False)"
    "events_ok (dummy_disable Ep_Int_Out (dummy_disable Ep_Int_In b)) = events_ok b"
proof -
  have a: "down Ep_Int_In b (dummy_disable Ep_Int_In b)" by (rule disable_down [OF assms]) simp
  then have "live_ok (dummy_disable Ep_Int_In b)" by (simp add: down_def)
  from disable_down [OF this, of Ep_Int_Out]
  have c: "down Ep_Int_Out (dummy_disable Ep_Int_In b) (dummy_disable Ep_Int_Out (dummy_disable Ep_Int_In b))" by simp
  from a c show "live_ok (dummy_disable Ep_Int_Out (dummy_disable Ep_Int_In b))"
    "same_slot b (dummy_disable Ep_Int_Out (dummy_disable Ep_Int_In b))"
    "gs_enabled (dummy_disable Ep_Int_Out (dummy_disable Ep_Int_In b)) = (gs_enabled b)(Ep_Int_In := False, Ep_Int_Out := False)"
    "events_ok (dummy_disable Ep_Int_Out (dummy_disable Ep_Int_In b)) = events_ok b"
    unfolding down_def by (auto intro: same_slot_trans)
qed

lemma disable_hid_keeps:
  assumes "slot_ok s"
  shows "keeps s (ds5_disable_hid s)"
proof (cases "gs_hid s")
  case True
  define a where "a = s\<lparr>gs_hid := False\<rparr>"
  define b where "b = dummy_dequeue Ep_Int_Out Req_Int_Out (dummy_dequeue Ep_Int_In Req_Int_In a)"
  define c where "c = dummy_disable Ep_Int_Out (dummy_disable Ep_Int_In b)"
  have "live_ok a" using assms by (simp add: slot_ok_def a_def)
  from below_trans [OF dequeue_below [OF this] dequeue_below [OF belowD(1) [OF dequeue_below [OF this]]]]
  have b: "below a b" unfolding b_def .
  note c = both_down [OF belowD(1) [OF b], folded c_def]
  have en: "gs_enabled c = (gs_enabled s)(Ep_Int_In := False, Ep_Int_Out := False)"
    using c(3) belowD(2) [OF b] by (simp add: a_def)
  then have "\<not> gs_busy c" using down_not_queued [OF c(1)] by simp
  then have "ds5_disable_hid s = c" using True by (simp add: ds5_disable_hid_def Let_def a_def b_def c_def)
  moreover have "same_slot a c" by (rule same_slot_trans [OF _ c(2)]) (use b in \<open>simp add: below_def\<close>)
  moreover have "events_ok a \<longrightarrow> events_ok c" using b c(4) by (simp add: below_def)
  ultimately show ?thesis using assms c(1) en
    by (simp add: keeps_def slot_ok_def flags_ok_def same_slot_def a_def)
qed (simp add: ds5_disable_hid_def keeps_refl assms)

lemma all_disabled_keeps:
  assumes "slot_ok s"
  shows "keeps s (ds5_disable_hid (ds5_disable_iso_in (ds5_disable_iso_out s)))"
proof -
  note a = disable_iso_out_keeps [OF assms]
  note b = disable_iso_in_keeps [OF keepsD [OF a]]
  from keeps_trans [OF keeps_trans [OF a b] disable_hid_keeps [OF keepsD [OF b]]] show ?thesis .
qed

lemma enable_hid_keeps:
  assumes "slot_ok s" "ds5_enable_hid s = (res, s')"
  shows "keeps s s'"
proof (cases "gs_hid s")
  case False
  have live: "live_ok s" and en: "\<not> gs_enabled s Ep_Int_In" "\<not> gs_enabled s Ep_Int_Out"
    using assms(1) False by (simp_all add: slot_ok_def flags_ok_def)
  obtain ra a where a: "dummy_enable Ep_Int_In s = (ra, a)" by fastforce
  obtain rb b where b: "dummy_enable Ep_Int_Out a = (rb, b)" by fastforce
  obtain rc c where c: "dummy_queue Ep_Int_Out Req_Int_Out (replicate k_int_maxp 0) b = (rc, c)" by fastforce
  consider (first) "ra \<noteq> None" "s' = s" | (second) "ra = None" "rb \<noteq> None" "s' = dummy_disable Ep_Int_In b"
    | (third) "ra = None" "rb = None" "rc \<noteq> None" "s' = dummy_disable Ep_Int_In (dummy_disable Ep_Int_Out c)"
    | (fine) "ra = None" "rb = None" "rc = None" "s' = c\<lparr>gs_hid := True\<rparr>"
    using assms(2) False a b c enable_cases [OF a live]
    by (auto simp: ds5_enable_hid_def split: option.splits)
  then show ?thesis
  proof cases
    case first
    then show ?thesis using assms(1) by (simp add: keeps_refl)
  next
    case second
    from enable_cases [OF a live] second(1) have a': "live_ok a" "a = s\<lparr>gs_enabled := (gs_enabled s)(Ep_Int_In := True)\<rparr>"
      by blast+
    from enable_cases [OF b a'(1)] second(2) have "b = a" by simp
    with disable_down [OF a'(1), of Ep_Int_In] show ?thesis using assms(1) second(3) en a'(2)
      by (auto simp: keeps_def slot_ok_def down_def same_slot_def flags_ok_def)
  next
    case third
    from enable_cases [OF a live] third(1) have a': "live_ok a" "a = s\<lparr>gs_enabled := (gs_enabled s)(Ep_Int_In := True)\<rparr>"
      by blast+
    from enable_cases [OF b a'(1)] third(2) have b': "live_ok b" "b = a\<lparr>gs_enabled := (gs_enabled a)(Ep_Int_Out := True)\<rparr>"
      by blast+
    have c': "below b c" using queue_below [OF b'(1), of Ep_Int_Out Req_Int_Out "replicate k_int_maxp 0"] c
      by (simp add: gadget_sizes)
    from disable_down [OF belowD(1) [OF c'], of Ep_Int_Out]
    have d: "down Ep_Int_Out c (dummy_disable Ep_Int_Out c)" by simp
    then have e: "down Ep_Int_In (dummy_disable Ep_Int_Out c) s'" unfolding third(4) by (intro disable_down) (simp_all add: down_def)
    have "same_slot s c" "gs_enabled c = (gs_enabled s)(Ep_Int_In := True, Ep_Int_Out := True)"
      "events_ok s \<longrightarrow> events_ok c"
      using c' unfolding b'(2) a'(2) by (simp_all add: below_def same_slot_def)
    then show ?thesis using assms(1) d e en
      by (simp add: keeps_def slot_ok_def down_def same_slot_def flags_ok_def)
  next
    case fine
    from enable_cases [OF a live] fine(1) have a': "live_ok a" "a = s\<lparr>gs_enabled := (gs_enabled s)(Ep_Int_In := True)\<rparr>"
      by blast+
    from enable_cases [OF b a'(1)] fine(2) have b': "live_ok b" "b = a\<lparr>gs_enabled := (gs_enabled a)(Ep_Int_Out := True)\<rparr>"
      by blast+
    have c': "below b c" using queue_below [OF b'(1), of Ep_Int_Out Req_Int_Out "replicate k_int_maxp 0"] c
      by (simp add: gadget_sizes)
    have "same_slot s c" "gs_enabled c = (gs_enabled s)(Ep_Int_In := True, Ep_Int_Out := True)"
      "events_ok s \<longrightarrow> events_ok c"
      using c' unfolding b'(2) a'(2) by (simp_all add: below_def same_slot_def)
    then show ?thesis using assms(1) fine(4) belowD(1) [OF c']
      by (simp add: keeps_def slot_ok_def same_slot_def flags_ok_def)
  qed
qed (use assms in \<open>simp add: ds5_enable_hid_def keeps_refl\<close>)

lemma enable_audio_keeps:
  assumes "slot_ok s"
  shows "keeps s (snd (ds5_enable_iso_out s))" "keeps s (snd (ds5_enable_iso_in s))"
proof -
  have out_queue: "below t (queue_iso_out is t)" if "live_ok t" "set is \<subseteq> {0..<8}" for t "is"
    using that
  proof (induction "is" arbitrary: t)
    case (Cons i "is")
    obtain res u where q: "dummy_queue Ep_Iso_Out (Req_Iso_Out i) (replicate k_iso_out_maxp 0) t = (res, u)" by fastforce
    have "below t u" using queue_below [OF Cons.prems(1), of Ep_Iso_Out "Req_Iso_Out i" "replicate k_iso_out_maxp 0"] q Cons.prems(2)
      by (simp add: gadget_sizes)
    then show ?case using q Cons.IH [OF belowD(1)] Cons.prems(2) below_trans by (fastforce split: option.split)
  qed (simp add: below_refl)
  have in_queue: "below t (foldl (\<lambda>s i. snd (dummy_queue Ep_Iso_In (Req_Iso_In i) (replicate k_iso_in_maxp 0) s)) t is)"
    if "live_ok t" "set is \<subseteq> {0..<4}" for t "is"
    using that
  proof (induction "is" arbitrary: t)
    case (Cons i "is")
    have q: "below t (snd (dummy_queue Ep_Iso_In (Req_Iso_In i) (replicate k_iso_in_maxp 0) t))"
      by (rule queue_below) (use Cons.prems in \<open>simp_all add: gadget_sizes\<close>)
    from below_trans [OF q Cons.IH [OF belowD(1) [OF q]]] Cons.prems(2) show ?case by simp
  qed (simp add: below_refl)
  have live: "live_ok s" using assms by (simp add: slot_ok_def)
  show "keeps s (snd (ds5_enable_iso_out s))"
  proof (cases "gs_iso_out s")
    case False
    obtain res t where t: "dummy_enable Ep_Iso_Out s = (res, t)" by fastforce
    from enable_cases [OF t live] out_queue [of t "[0..<8]"] assms False show ?thesis
      by (auto simp: ds5_enable_iso_out_def t keeps_def slot_ok_def below_def same_slot_def flags_ok_def
          gadget_sizes)
  qed (simp add: ds5_enable_iso_out_def keeps_refl assms)
  show "keeps s (snd (ds5_enable_iso_in s))"
  proof (cases "gs_iso_in s")
    case False
    obtain res t where t: "dummy_enable Ep_Iso_In s = (res, t)" by fastforce
    from enable_cases [OF t live] in_queue [of t "[0..<4]"] assms False show ?thesis
      by (auto simp: ds5_enable_iso_in_def t keeps_def slot_ok_def below_def same_slot_def flags_ok_def
          gadget_sizes)
  qed (simp add: ds5_enable_iso_in_def keeps_refl assms)
qed

lemma ep0_keeps:
  assumes "slot_ok s"
  shows "keeps s (snd (ds5_queue_ep0 data len s))" "keeps s (snd (ds5_receive_ep0 n s))"
proof -
  have "below s (snd (dummy_queue Ep0 Req_Ep0 d s))" for d
    using assms by (intro queue_below) (simp_all add: slot_ok_def)
  then have "keeps s t" if "dummy_queue Ep0 Req_Ep0 d s = (res, t)" for d res t
    using that below_keeps [OF assms] by (metis snd_conv)
  then show "keeps s (snd (ds5_queue_ep0 data len s))" "keeps s (snd (ds5_receive_ep0 n s))"
    by (auto simp: ds5_queue_ep0_def ds5_receive_ep0_def Let_def split: prod.splits option.splits)
qed

lemma queue_ep0_after: "keeps s t \<Longrightarrow> keeps s (snd (ds5_queue_ep0 data len t))"
  by (rule keeps_trans [OF _ ep0_keeps(1)]) (simp_all add: keepsD)

lemma set_configuration_keeps:
  assumes "slot_ok s"
  shows "keeps s (snd (set_configuration c s))"
proof (cases "c = 0")
  case True
  then show ?thesis using all_disabled_keeps [of "s\<lparr>gs_config := 0\<rparr>"] assms
    by (simp add: set_configuration_def queue_ep0_after)
next
  case False
  obtain res t where t: "ds5_enable_hid (s\<lparr>gs_config := c\<rparr>) = (res, t)" by fastforce
  then have "keeps s t" using enable_hid_keeps [OF _ t] assms by simp
  then show ?thesis using False t by (simp add: set_configuration_def queue_ep0_after split: option.split)
qed

lemma set_interface_keeps:
  assumes "slot_ok s"
  shows "keeps s (snd (set_interface alt intf s))"
  using assms disable_iso_out_keeps [of "s\<lparr>gs_alt1 := 0\<rparr>"] disable_iso_in_keeps [of "s\<lparr>gs_alt2 := 0\<rparr>"]
    enable_audio_keeps [of "s\<lparr>gs_alt1 := alt\<rparr>"] enable_audio_keeps [of "s\<lparr>gs_alt2 := alt\<rparr>"]
    disable_iso_out_keeps [of "s\<lparr>gs_alt1 := alt\<rparr>"] disable_iso_in_keeps [of "s\<lparr>gs_alt2 := alt\<rparr>"]
  by (simp add: set_interface_def Let_def queue_ep0_after keeps_refl ep0_keeps(1))

lemma setup_keeps: "slot_ok s \<Longrightarrow> keeps s (snd (ds5_setup p s))"
  by (simp add: ds5_setup_def Let_def hid_request_def audio_request_def set_configuration_keeps
      set_interface_keeps ep0_keeps keeps_refl split: option.split)

lemma disconnect_keeps: "slot_ok s \<Longrightarrow> keeps s (ds5_disconnect s)"
  by (simp add: ds5_disconnect_def all_disabled_keeps)

lemma bind_keeps: "slot_ok s \<Longrightarrow> keeps s (snd (ds5_bind missing s))"
  by (simp add: ds5_bind_def Let_def keeps_refl) (simp add: keeps_def slot_ok_def flags_ok_def)

lemma unbind_keeps: "slot_ok s \<Longrightarrow> keeps s (ds5_unbind s)"
  by (simp add: ds5_unbind_def all_disabled_keeps)

lemma report_queue_cases:
  assumes "dummy_queue Ep_Int_In Req_Int_In d t = (res, u)"
  obtains (refused) "res \<noteq> None" "u = t"
    | (inline) "res = None" "u = ds5_int_in_complete (set_queue Ep_Int_In [(Req_Fifo, d)] t)" "gs_queue t Ep_Int_In = []"
    | (queued) "res = None" "u = set_queue Ep_Int_In (gs_queue t Ep_Int_In @ [(Req_Int_In, d)]) t"
  using assms that unfolding dummy_queue_def complete_inline_def
  by (auto split: if_splits)

lemma queues_update:
  assumes "queues_ok s" "list_all (belongs ep) q" "distinct (map fst q)" "gs_enabled s ep"
  shows "queues_ok (set_queue ep q s)"
  using assms by (simp add: queues_ok_def)

lemma queues_frame [simp]:
  "queues_ok (s\<lparr>gs_input := d\<rparr>) = queues_ok s" "queues_ok (s\<lparr>gs_busy := a\<rparr>) = queues_ok s"
  by (simp_all add: queues_ok_def)

lemma publish_keeps:
  assumes "slot_ok s" "length report \<le> 64" "publish_input report s = (res, s')"
  shows "keeps s s'"
proof -
  let ?t = "s\<lparr>gs_input := report @ replicate (k_ds5_input_size - length report) 0\<rparr>"
  have t: "slot_ok ?t" "keeps s ?t"
    using assms(1,2) by (simp_all add: keeps_def slot_ok_def flags_ok_def gadget_sizes)
  show ?thesis
  proof (cases "gs_hid s \<and> \<not> gs_busy s")
    case True
    then have nq: "\<not> report_queued s" "gs_enabled s Ep_Int_In" using assms(1) by (simp_all add: slot_ok_def live_ok_def flags_ok_def)
    let ?b = "?t\<lparr>gs_busy := True\<rparr>"
    obtain res2 u where u: "dummy_queue Ep_Int_In Req_Int_In (gs_input ?t) ?b = (res2, u)" by fastforce
    have b: "queues_ok ?b" "gs_enabled ?b Ep_Int_In" using t(1) nq(2) by (simp_all add: slot_ok_def live_ok_def)
    have rest: "keeps s v" if "live_ok v" "same_slot ?t v" "gs_enabled v = gs_enabled s" "events_ok v = events_ok s" for v
      using t(1) that by (simp add: keeps_def slot_ok_def same_slot_def flags_ok_def)
    from u show ?thesis
    proof (cases rule: report_queue_cases)
      case refused
      then have "s' = ?t" using assms(1,3) True u by (auto simp: publish_input_def)
      then show ?thesis using t(2) by simp
    next
      case inline
      have "queues_ok (set_queue Ep_Int_In [(Req_Fifo, gs_input ?t)] ?b)"
        by (rule queues_update) (use b t(1) in \<open>simp_all add: slot_ok_def\<close>)
      then have "live_ok u" unfolding inline(2) by (simp add: ds5_int_in_complete_def live_ok_def report_queued_def)
      moreover have "s' = u" using inline(1) assms(3) True u by (simp add: publish_input_def)
      ultimately show ?thesis
        by (intro rest) (simp_all add: inline(2) ds5_int_in_complete_def same_slot_def)
    next
      case queued
      have "Req_Int_In \<notin> fst ` set (gs_queue s Ep_Int_In)" using nq(1) by (simp add: report_queued_def)
      then have "queues_ok (set_queue Ep_Int_In (gs_queue ?b Ep_Int_In @ [(Req_Int_In, gs_input ?t)]) ?b)"
        by (intro queues_update) (use b t(1) in \<open>simp_all add: slot_ok_def live_ok_def queues_ok_def\<close>)
      then have "live_ok u" unfolding queued(2) by (simp add: live_ok_def report_queued_def)
      moreover have "s' = u" using queued(1) assms(3) True u by (simp add: publish_input_def)
      ultimately show ?thesis by (intro rest) (simp_all add: queued(2) same_slot_def)
    qed
  qed (use assms(3) t(2) in \<open>auto simp: publish_input_def\<close>)
qed

section \<open>The module\<close>

text \<open>Every slot is in order; a file refers to a slot that is created, and to its own.\<close>

definition module_ok :: "ds5_module \<Rightarrow> bool"
  where "module_ok m \<longleftrightarrow> length (dm_slots m) = k_ds5_slots \<and> list_all slot_ok (dm_slots m) \<and>
    (\<forall>f i. dm_files m f = Some i \<longrightarrow> i < k_ds5_slots \<and> gs_created (dm_slots m ! i)) \<and>
    (\<forall>f g i. dm_files m f = Some i \<longrightarrow> dm_files m g = Some i \<longrightarrow> f = g)"

lemma module_slot: "module_ok m \<Longrightarrow> i < k_ds5_slots \<Longrightarrow> slot_ok (dm_slots m ! i)"
  by (simp add: module_ok_def list_all_length)

text \<open>A change of one slot that keeps it in order and keeps who created it.\<close>

lemma on_ds5_ok:
  assumes "module_ok m" "i < k_ds5_slots \<Longrightarrow> keeps (dm_slots m ! i) (f (dm_slots m ! i))"
  shows "module_ok (on_ds5 i f m)"
  using assms by (cases "i < k_ds5_slots")
    (auto simp: module_ok_def on_ds5_def list_all_length nth_list_update keeps_def list_update_beyond)

lemma on_ds5_out: "module_ok m \<Longrightarrow> \<not> i < k_ds5_slots \<Longrightarrow> on_ds5 i f m = m"
  by (simp add: on_ds5_def module_ok_def list_update_beyond)

lemma dropped_ok:
  assumes "module_ok m" "dm_files m f = Some i"
  shows "module_ok ((on_ds5 i (\<lambda>s. s\<lparr>gs_created := False\<rparr>) m)\<lparr>dm_files := (dm_files m)(f := None)\<rparr>)"
  using assms by (fastforce simp: module_ok_def on_ds5_def list_all_length nth_list_update)

lemma created_ok:
  assumes "module_ok m" "i < k_ds5_slots" "\<not> gs_created (dm_slots m ! i)"
  shows "module_ok ((on_ds5 i (\<lambda>s. s\<lparr>gs_mac := mac, gs_events := [], gs_created := True\<rparr>) m)
    \<lparr>dm_files := (dm_files m)(f := Some i)\<rparr>)"
proof -
  have "slot_ok (s\<lparr>gs_mac := mac, gs_events := [], gs_created := True\<rparr>)" if "slot_ok s" for s
    using that by (simp add: slot_ok_def flags_ok_def events_ok_def)
  then show ?thesis using assms by (fastforce simp: module_ok_def on_ds5_def list_all_length nth_list_update)
qed

lemma module_step:
  assumes "module_ok m"
  shows "module_ok (ds5_step o' m)"
proof (cases o')
  case (Op_Open f)
  then show ?thesis using assms by (fastforce simp: ds5_open_def module_ok_def)
next
  case (Op_Release f)
  then show ?thesis using assms dropped_ok by (simp add: ds5_release_def split: option.split)
next
  case (Op_Create f i mac)
  then show ?thesis using assms created_ok [of m "unat i"] by (simp add: ds5_create_def Let_def)
next
  case (Op_Destroy f)
  then show ?thesis using assms dropped_ok by (simp add: ds5_destroy_def split: option.split)
next
  case (Op_Write f report)
  have "module_ok (on_ds5 i (\<lambda>_. s) m)"
    if "length report \<le> 64" "publish_input report (dm_slots m ! i) = (res, s)" for i res s
    using on_ds5_ok [OF assms, of i "\<lambda>_. s"] publish_keeps [OF module_slot [OF assms] that] by blast
  then show ?thesis using assms Op_Write
    by (auto simp: ds5_write_def gadget_sizes split: option.split prod.split)
next
  case (Op_Read f n)
  have "keeps s (s\<lparr>gs_events := rest\<rparr>)" if "slot_ok s" "gs_events s = ev # rest" for s ev rest
    using that by (simp add: keeps_def slot_ok_def flags_ok_def events_ok_def)
  then show ?thesis using assms Op_Read module_slot [OF assms]
    by (auto simp: ds5_read_def split: option.split list.split intro!: on_ds5_ok)
next
  case (Op_Serve i ep data)
  show ?thesis unfolding Op_Serve ds5_step.simps
    by (rule on_ds5_ok [OF assms]) (use module_slot [OF assms] serve_below below_keeps in \<open>simp add: slot_ok_def\<close>)
next
  case (Op_Host_Reset i)
  have "keeps s (ds5_disconnect (stop_activity s))" if "slot_ok s" for s
  proof -
    have "keeps s (stop_activity s)" using that by (intro below_keeps stop_activity_below) (simp_all add: slot_ok_def)
    from keeps_trans [OF this disconnect_keeps [OF keepsD [OF this]]] show ?thesis .
  qed
  then show ?thesis using assms Op_Host_Reset module_slot [OF assms] by (auto intro!: on_ds5_ok)
next
  case (Op_Link i up speed)
  then show ?thesis using assms module_slot [OF assms] by (auto intro!: on_ds5_ok simp: keeps_def)
qed (use assms module_slot [OF assms] in \<open>auto intro!: on_ds5_ok bind_keeps unbind_keeps setup_keeps disconnect_keeps\<close>)

lemma new_module_ok: "module_ok new_ds5_module"
  by (simp add: module_ok_def new_ds5_module_def list_all_length new_ds5_slot_def slot_ok_def live_ok_def
      queues_ok_def report_queued_def flags_ok_def events_ok_def gadget_sizes)

lemma module_run: "module_ok m \<Longrightarrow> module_ok (ds5_run ops m)"
  by (induction ops arbitrary: m) (simp_all add: ds5_run_def module_step)


section \<open>Reports reach the host\<close>

lemma int_in_queue:
  assumes "queues_ok s"
  shows "length (gs_queue s Ep_Int_In) \<le> 2"
proof -
  have b: "list_all (belongs Ep_Int_In) (gs_queue s Ep_Int_In)" and d: "distinct (map fst (gs_queue s Ep_Int_In))"
    using assms by (simp_all add: queues_ok_def)
  have "r \<in> {Req_Int_In, Req_Fifo}" if "belongs Ep_Int_In (r, x)" for r x
    using that by (cases r) simp_all
  then have "set (map fst (gs_queue s Ep_Int_In)) \<subseteq> {Req_Int_In, Req_Fifo}" using b by (fastforce simp: list_all_iff)
  from card_mono [OF _ this] distinct_card [OF d] show ?thesis by simp
qed

lemma tl_tl: "length q \<le> 2 \<Longrightarrow> tl (tl q) = []"
  by (cases q; cases "tl q") auto

lemma serve_pops:
  assumes "live_ok s"
  shows "gs_queue (serve Ep_Int_In x s) Ep_Int_In = tl (gs_queue s Ep_Int_In)"
proof (cases "gs_queue s Ep_Int_In")
  case (Cons y q)
  obtain r d where y: "y = (r, d)" by fastforce
  have "belongs Ep_Int_In (r, d)" using assms Cons y by (auto simp: live_ok_def queues_ok_def dest: spec [of _ Ep_Int_In])
  then show ?thesis using Cons y by (cases r) (simp_all add: serve_def ds5_int_in_complete_def)
qed (simp add: serve_def)

lemma report_not_in_flight:
  assumes "live_ok s" "\<not> gs_busy s"
  shows "\<not> in_flight Req_Int_In s"
proof -
  have "ep = Ep_Int_In" if "Req_Int_In \<in> fst ` set (gs_queue s ep)" for ep
  proof -
    have "\<forall>x \<in> set (gs_queue s ep). belongs ep x" using assms(1) by (simp add: live_ok_def queues_ok_def list_all_iff)
    then show ?thesis using that by fastforce
  qed
  then show ?thesis using assms by (auto simp: in_flight_iff live_ok_def report_queued_def)
qed

lemma publish_fields:
  assumes "slot_ok s" "gs_hid s" "gs_up s" "publish_input report s = (res, s')"
  defines "whole \<equiv> report @ replicate (64 - length report) 0"
  shows "res = None \<and> gs_input s' = whole \<and> (if gs_busy s then gs_queue s' Ep_Int_In = gs_queue s Ep_Int_In
    else \<exists>r. gs_queue s' Ep_Int_In = gs_queue s Ep_Int_In @ [(r, whole)])"
proof (cases "gs_busy s")
  case True
  then show ?thesis using assms(4) by (auto simp: publish_input_def whole_def gadget_sizes)
next
  case False
  let ?b = "s\<lparr>gs_input := whole, gs_busy := True\<rparr>"
  obtain r2 u where u: "dummy_queue Ep_Int_In Req_Int_In whole ?b = (r2, u)" by fastforce
  have "\<not> in_flight Req_Int_In ?b"
    using report_not_in_flight [of s] assms(1) False by (simp add: slot_ok_def in_flight_def)
  moreover have "gs_enabled s Ep_Int_In" using assms(1,2) by (simp add: slot_ok_def flags_ok_def)
  ultimately have "r2 = None" using u assms(3) by (simp add: dummy_queue_def split: if_splits)
  then have s': "res = None" "s' = u" using assms(2,4) u False by (simp_all add: publish_input_def whole_def gadget_sizes)
  from u show ?thesis
  proof (cases rule: report_queue_cases)
    case refused
    then show ?thesis using \<open>r2 = None\<close> by simp
  next
    case inline
    then show ?thesis using s' False by (simp add: ds5_int_in_complete_def)
  next
    case queued
    then show ?thesis using s' False by (simp add: ds5_int_in_complete_def)
  qed
qed

text \<open>Property C14. A report written to a configured device is kept padded to 64 bytes and, unless the last one
  is still under way, queued whole behind the reports before it; the write succeeds either way, at most
  two reports ever wait, and after the host has polled twice the next write is queued again.\<close>

theorem input_reaches_host:
  fixes ops report i
  defines "s \<equiv> dm_slots (ds5_run ops new_ds5_module) ! i"
    and "whole \<equiv> report @ replicate (64 - length report) 0"
  assumes "i < 4" "gs_hid s" "gs_up s" "length report \<le> 64"
  shows "case publish_input report s of (res, s') \<Rightarrow> res = None \<and> gs_input s' = whole \<and>
    (if gs_busy s then gs_queue s' Ep_Int_In = gs_queue s Ep_Int_In
     else map snd (gs_queue s' Ep_Int_In) = map snd (gs_queue s Ep_Int_In) @ [whole]) \<and>
    length (gs_queue s' Ep_Int_In) \<le> 2 \<and> \<not> gs_busy (serve Ep_Int_In [] (serve Ep_Int_In [] s'))"
proof -
  have ok: "slot_ok s" using module_slot [OF module_run [OF new_module_ok]] assms(3) by (simp add: s_def gadget_sizes)
  obtain res s' where p: "publish_input report s = (res, s')" by fastforce
  from publish_keeps [OF ok assms(6) p] have live: "live_ok s'" by (simp add: keeps_def slot_ok_def)
  then have two: "length (gs_queue s' Ep_Int_In) \<le> 2" using int_in_queue by (simp add: live_ok_def)
  note l1 = belowD(1) [OF serve_below [OF live, of Ep_Int_In "[]"]]
  note l2 = belowD(1) [OF serve_below [OF l1, of Ep_Int_In "[]"]]
  have "gs_queue (serve Ep_Int_In [] (serve Ep_Int_In [] s')) Ep_Int_In = tl (tl (gs_queue s' Ep_Int_In))"
    by (simp add: serve_pops live l1)
  also have "\<dots> = []" 
using two by (rule tl_tl)
  finally have "\<not> gs_busy (serve Ep_Int_In [] (serve Ep_Int_In [] s'))"
    using l2 by (simp add: live_ok_def report_queued_def)
  then show ?thesis using publish_fields [OF ok assms(4,5) p] two p by (auto simp: whole_def)
qed

definition demo_configured :: "ds5_op list"
  where "demo_configured = [Op_Bind 0 None, Op_Link 0 True Speed_High, Op_Open 7, Op_Create 7 0 [1, 2, 3, 4, 5, 6],
    Op_Setup 0 \<lparr>su_type = 0, su_request = 9, su_value = 1, su_index = 0, su_length = 0\<rparr>]"

lemma demo_configured_slot:
  "gs_hid (dm_slots (ds5_run demo_configured new_ds5_module) ! 0)"
  "gs_up (dm_slots (ds5_run demo_configured new_ds5_module) ! 0)"
  "gs_queue (dm_slots (ds5_run demo_configured new_ds5_module) ! 0) Ep_Int_In = []"
  "\<not> gs_busy (dm_slots (ds5_run demo_configured new_ds5_module) ! 0)"
  by code_simp+

theorem input_reaches_host_witness:
  "case publish_input [0x01, 0x80] (dm_slots (ds5_run demo_configured new_ds5_module) ! 0) of (res, s') \<Rightarrow>
    res = None \<and> map snd (gs_queue s' Ep_Int_In) = [[0x01, 0x80] @ replicate 62 0]"
  using input_reaches_host [of 0 demo_configured "[0x01, 0x80]"] demo_configured_slot by (simp split: prod.splits)

section \<open>A slot nobody can destroy\<close>

definition orphan :: "nat \<Rightarrow> ds5_module \<Rightarrow> bool"
  where "orphan i m \<longleftrightarrow> i < k_ds5_slots \<and> gs_created (dm_slots m ! i) \<and> (\<forall>f. dm_files m f \<noteq> Some i)"

lemma created_on_ds5:
  assumes "module_ok m" "i < k_ds5_slots"
    "j < k_ds5_slots \<Longrightarrow> gs_created (f (dm_slots m ! j)) = gs_created (dm_slots m ! j)"
  shows "gs_created (dm_slots (on_ds5 j f m) ! i) = gs_created (dm_slots m ! i)"
  using assms by (cases "j = i") (simp_all add: on_ds5_def module_ok_def)

lemma orphan_on_ds5:
  assumes "module_ok m" "orphan i m"
    "j < k_ds5_slots \<Longrightarrow> gs_created (f (dm_slots m ! j)) = gs_created (dm_slots m ! j)"
  shows "orphan i (on_ds5 j f m)"
  using created_on_ds5 [OF assms(1), of i j f] assms(2,3) by (simp add: orphan_def) (simp add: on_ds5_def)

lemma orphan_dropped:
  assumes "module_ok m" "orphan i m" "dm_files m f = Some j"
  shows "orphan i ((on_ds5 j (\<lambda>s. s\<lparr>gs_created := False\<rparr>) m)\<lparr>dm_files := (dm_files m)(f := None)\<rparr>)"
proof -
  have "j \<noteq> i" using assms(2,3) by (auto simp: orphan_def)
  then show ?thesis using assms(2) by (simp add: orphan_def on_ds5_def)
qed

lemma orphan_step:
  assumes "module_ok m" "orphan i m"
  shows "orphan i (ds5_step o' m)"
proof (cases o')
  case (Op_Create f slot mac)
  show ?thesis
  proof (cases "fst (ds5_create f slot mac m) = None")
    case True
    then have "unat slot \<noteq> i" using assms(2) by (auto simp: ds5_create_def Let_def orphan_def split: if_splits)
    then show ?thesis using assms(2) Op_Create by (auto simp: ds5_create_def Let_def orphan_def on_ds5_def)
  next
    case False
    then have "snd (ds5_create f slot mac m) = m" by (auto simp: ds5_create_def Let_def split: if_splits)
    then show ?thesis using assms(2) Op_Create by simp
  qed
next
  case (Op_Open f)
  then show ?thesis using assms(2) by (simp add: ds5_open_def orphan_def)
next
  case (Op_Release f)
  then show ?thesis using assms orphan_dropped by (simp add: ds5_release_def split: option.split)
next
  case (Op_Destroy f)
  then show ?thesis using assms orphan_dropped by (simp add: ds5_destroy_def split: option.split)
next
  case (Op_Write f report)
  have "orphan i (on_ds5 j (\<lambda>_. s) m)"
    if "length report \<le> 64" "publish_input report (dm_slots m ! j) = (res, s)" for j res s
    by (rule orphan_on_ds5 [OF assms]) (use publish_keeps [OF module_slot [OF assms(1)] that] in \<open>simp add: keeps_def\<close>)
  then show ?thesis using assms(2) Op_Write
    by (auto simp: ds5_write_def gadget_sizes split: option.split prod.split)
next
  case (Op_Read f n)
  then show ?thesis using assms
    by (auto simp: ds5_read_def split: option.split list.split intro!: orphan_on_ds5)
next
  case (Op_Serve j ep data)
  show ?thesis unfolding Op_Serve ds5_step.simps
    by (rule orphan_on_ds5 [OF assms])
      (use module_slot [OF assms(1), of j] serve_below [of "dm_slots m ! j" ep data] in
        \<open>simp add: slot_ok_def below_def same_slot_def\<close>)
next
  case (Op_Host_Reset j)
  have "keeps s (ds5_disconnect (stop_activity s))" if "slot_ok s" for s
  proof -
    have "keeps s (stop_activity s)" using that by (intro below_keeps stop_activity_below) (simp_all add: slot_ok_def)
    from keeps_trans [OF this disconnect_keeps [OF keepsD [OF this]]] show ?thesis .
  qed
  then show ?thesis using assms Op_Host_Reset module_slot [OF assms(1)] by (auto intro!: orphan_on_ds5 simp: keeps_def)
next
  case (Op_Link j up speed)
  then show ?thesis using assms by (auto intro!: orphan_on_ds5)
next
  case (Op_Bind j missing)
  then show ?thesis using assms module_slot [OF assms(1)] bind_keeps
    by (auto intro!: orphan_on_ds5 simp: keeps_def)
next
  case (Op_Unbind j)
  then show ?thesis using assms module_slot [OF assms(1)] unbind_keeps
    by (auto intro!: orphan_on_ds5 simp: keeps_def)
next
  case (Op_Setup j p)
  then show ?thesis using assms module_slot [OF assms(1)] setup_keeps
    by (auto intro!: orphan_on_ds5 simp: keeps_def)
next
  case (Op_Disconnect j)
  then show ?thesis using assms module_slot [OF assms(1)] disconnect_keeps
    by (auto intro!: orphan_on_ds5 simp: keeps_def)
qed

lemma orphan_run:
  assumes "module_ok m" "orphan i m"
  shows "orphan i (ds5_run ops m)"
  using assms
proof (induction ops arbitrary: m)
  case (Cons x ops)
  from Cons.IH [OF module_step [OF Cons.prems(1)] orphan_step [OF Cons.prems]] show ?case by (simp add: ds5_run_def)
qed (simp add: ds5_run_def)

lemma run_append: "ds5_run (a @ b) m = ds5_run b (ds5_run a m)"
  by (simp add: ds5_run_def)

text \<open>A file that creates a second slot forgets its first: after it is closed the first slot is
  created but belongs to nobody, and whatever anybody does from then on, every attempt to create it is
  answered busy.\<close>

theorem second_create_orphans_first:
  fixes f ops mac mac'
  defines "forget \<equiv> [Op_Bind 0 None, Op_Bind 1 None, Op_Open f, Op_Create f 0 mac, Op_Create f 1 mac', Op_Release f]"
  shows "case ds5_run (forget @ ops) new_ds5_module of m \<Rightarrow> gs_created (dm_slots m ! 0) \<and>
    (\<forall>g. dm_files m g \<noteq> Some 0) \<and> (\<forall>g mac. fst (ds5_create g 0 mac m) = Some Ebusy)"
proof -
  have "orphan 0 (ds5_run forget new_ds5_module)"
    by (simp add: forget_def ds5_run_def new_ds5_module_def ds5_bind_def ds5_open_def ds5_create_def ds5_release_def
        on_ds5_def orphan_def gadget_sizes new_ds5_slot_def numeral_eq_Suc Let_def)
  then have "orphan 0 (ds5_run (forget @ ops) new_ds5_module)"
    unfolding run_append by (rule orphan_run [OF module_run [OF new_module_ok]])
  then show ?thesis by (simp add: orphan_def ds5_create_def gadget_sizes)
qed

section \<open>The USB contract\<close>

text \<open>The descriptors of a configuration, one after the other.\<close>

fun usb_descriptors :: "nat \<Rightarrow> byte list \<Rightarrow> byte list list"
  where
    "usb_descriptors 0 bs = []"
  | "usb_descriptors (Suc n) [] = []"
  | "usb_descriptors (Suc n) (b # bs) = (if b = 0 then [] else
      take (unat b) (b # bs) # usb_descriptors n (drop (unat b) (b # bs)))"

definition endpoint_bytes :: "ep_desc \<Rightarrow> byte list"
  where "endpoint_bytes d = [ed_address d] @ le16_bytes (word_of_nat (ed_maxp d)) @ [ed_interval d]"

text \<open>Address, packet size and interval of every endpoint descriptor.\<close>

definition declared_endpoints :: "byte list \<Rightarrow> byte list list"
  where "declared_endpoints config = map (\<lambda>d. [d ! 2, d ! 4, d ! 5, d ! 6])
    (filter (\<lambda>d. d ! 1 = 0x05) (usb_descriptors (length config) config))"

lemma same_descriptor: "gadget_report_desc = ds5_descriptor"
  by (simp add: gadget_report_desc_def ds5_descriptor_def)

lemma same_calibration: "gadget_calibration = ds5_calibration"
  by (simp add: gadget_calibration_def ds5_calibration_def)

lemma same_firmware: "gadget_firmware = ds5_firmware"
  by (simp add: gadget_firmware_def ds5_firmware_def ds5_ids)

lemma zeros_64: "replicate 64 (0::byte) = [0, 0, 0, 0, 0, 0, 0, 0, 0, 0] @ replicate 54 0"
proof -
  have "replicate 64 (0::byte) = replicate 10 0 @ replicate 54 0" by (simp flip: replicate_add)
  moreover have "replicate 10 (0::byte) = [0, 0, 0, 0, 0, 0, 0, 0, 0, 0]" by (simp add: numeral_eq_Suc)
  ultimately show ?thesis by simp
qed

lemma same_pairing:
  assumes "length mac = 6"
  shows "ds5_fill_pairing (rev mac) (replicate 64 0) = gadget_fill_pairing mac @ replicate 44 0"
proof -
  obtain a b c d e f where mac: "mac = [a, b, c, d, e, f]"
    using assms(1) by (auto simp: length_Suc_conv numeral_eq_Suc)
  have "replicate 54 (0::byte) = replicate 10 0 @ replicate 44 0" by (simp flip: replicate_add)
  then show ?thesis
    by (simp add: mac zeros_64 ds5_fill_pairing_def overwrite_def gadget_fill_pairing_def ds5_ids)
qed

lemma same_features:
  assumes "length mac = 6" "i \<in> {0x05, 0x09, 0x20}"
  shows "ds5_get_feature i (Some (replicate 64 0)) (st\<lparr>ds5_address := rev mac\<rparr>) =
    (case gadget_get_feature i mac 256 of r \<Rightarrow> (length r, Some (r @ replicate (64 - length r) 0)))"
  using assms(2) same_pairing [OF assms(1)] assms(1)
  by (auto simp: gadget_get_feature_def ds5_get_feature_def ds5_feature_length_def same_calibration same_firmware
      ds5_ids overwrite_def gadget_fill_pairing_def)

lemma config_wire:
  "le16_of (gadget_config_desc ! 2) (gadget_config_desc ! 3) = word_of_nat (length gadget_config_desc)"
  "[9, 0x21, 0x11, 0x01, 0, 1, 0x22] @ le16_bytes (word_of_nat (length gadget_report_desc)) \<in>
    set (usb_descriptors (length gadget_config_desc) gadget_config_desc)"
  "declared_endpoints gadget_config_desc = map endpoint_bytes (List.map_filter gadget_ep_desc [Ep_Iso_Out, Ep_Iso_In, Ep_Int_In, Ep_Int_Out])"
  by code_simp+

text \<open>Property C15. The Linux device and the Windows profile are the same controller to a host: the same HID report
  descriptor and, for the address in the other byte order, the same answer to every feature report the
  Linux device answers; its configuration is as long as it says, holds a HID descriptor that gives the
  report descriptor's length, and the endpoints it declares are those the driver enables.\<close>

theorem gadget_is_the_same_pad:
  assumes "length mac = 6"
  shows "gadget_report_desc = ds5_descriptor \<and>
    (\<forall>i \<in> {0x05, 0x09, 0x20}. ds5_get_feature i (Some (replicate 64 0)) (st\<lparr>ds5_address := rev mac\<rparr>) =
      (case gadget_get_feature i mac 256 of r \<Rightarrow> (length r, Some (r @ replicate (64 - length r) 0)))) \<and>
    le16_of (gadget_config_desc ! 2) (gadget_config_desc ! 3) = word_of_nat (length gadget_config_desc) \<and>
    [9, 0x21, 0x11, 0x01, 0, 1, 0x22] @ le16_bytes (word_of_nat (length gadget_report_desc)) \<in>
      set (usb_descriptors (length gadget_config_desc) gadget_config_desc) \<and>
    declared_endpoints gadget_config_desc = map endpoint_bytes (List.map_filter gadget_ep_desc [Ep_Iso_Out, Ep_Iso_In, Ep_Int_In, Ep_Int_Out])"
  by (intro conjI ballI same_descriptor config_wire same_features assms)

theorem gadget_is_the_same_pad_witness:
  "ds5_get_feature 0x09 (Some (replicate 64 0)) (ds5_default_features\<lparr>ds5_address := [6, 5, 4, 3, 2, 1]\<rparr>) =
    (20, Some ([0x09, 6, 5, 4, 3, 2, 1, 0x08, 0x25, 0] @ replicate 54 0))"
proof -
  have "gadget_get_feature 0x09 [1, 2, 3, 4, 5, 6] 256 = [0x09, 6, 5, 4, 3, 2, 1, 0x08, 0x25, 0] @ replicate 10 0"
    by code_simp
  moreover have "replicate 10 (0::byte) @ replicate 44 0 = replicate 54 0" by (simp flip: replicate_add)
  ultimately show ?thesis using gadget_is_the_same_pad [of "[1, 2, 3, 4, 5, 6]" ds5_default_features]
    by simp
qed

text \<open>The HID descriptor asked for on its own is not that one: the code starts six bytes too far into the
  configuration, and answers the end of the HID descriptor and the start of an endpoint descriptor.\<close>

lemma hid_descriptor_served_from_wrong_offset:
  "get_descriptor \<lparr>su_type = 0x81, su_request = 6, su_value = 0x2100, su_index = 3, su_length = 9\<rparr> =
    Some [0x22, 0x10, 0x01, 0x07, 0x05, 0x84, 0x03, 0x40, 0x00]"
  "take 9 (drop 0xCC gadget_config_desc) = [0x09, 0x21, 0x11, 0x01, 0x00, 0x01, 0x22, 0x10, 0x01]"
  "[0x22, 0x10, 0x01, 0x07, 0x05, 0x84, 0x03, 0x40, 0x00] \<notin>
    set (usb_descriptors (length gadget_config_desc) gadget_config_desc)"
  by code_simp+

lemma descriptor_lengths: "get_descriptor p = Some d \<Longrightarrow> length d \<le> 512"
proof -
  have "length gadget_device_desc \<le> 512" "length gadget_config_desc \<le> 512" "length gadget_report_desc \<le> 512"
    "length (ds5_utf16 ''Sony Interactive Entertainment'' 256) \<le> 512"
    "length (ds5_utf16 ''DualSense Wireless Controller'' 256) \<le> 512"
    by code_simp+
  then show "get_descriptor p = Some d \<Longrightarrow> length d \<le> 512"
    by (auto simp: get_descriptor_def Let_def split: if_splits)
qed

lemma feature_length: "length mac = 6 \<Longrightarrow> length (gadget_get_feature i mac 256) \<le> 64"
  by (simp add: gadget_get_feature_def gadget_fill_pairing_def gadget_calibration_def gadget_firmware_def)

text \<open>What a reply to a request may be.\<close>

definition reply_fits :: "setup_packet \<Rightarrow> setup_reply \<Rightarrow> bool"
  where "reply_fits p r \<longleftrightarrow> (case r of
      Setup_Send d short \<Rightarrow> length d \<le> unat (su_length p) \<and> length d \<le> 512 \<and>
        (short \<longrightarrow> length d < unat (su_length p)) \<and> (d \<noteq> [] \<and> \<not> short \<longrightarrow> length d = unat (su_length p))
    | Setup_Receive n \<Rightarrow> n \<le> unat (su_length p) \<and> n \<le> 64
    | Setup_Stall e \<Rightarrow> True)"

lemma replies_fit:
  "length d \<le> 512 \<Longrightarrow> reply_fits p (fst (ds5_queue_ep0 d (su_length p) s))"
  "reply_fits p (fst (ds5_queue_ep0 [] 0 s))"
  "n \<le> unat (su_length p) \<Longrightarrow> n \<le> 64 \<Longrightarrow> reply_fits p (fst (ds5_receive_ep0 n s))"
  "reply_fits p (Setup_Stall e)"
  by (auto simp: reply_fits_def ds5_queue_ep0_def ds5_receive_ep0_def Let_def split: prod.splits option.splits)

lemma requests_fit:
  "reply_fits p (fst (set_configuration c s))" "reply_fits p (fst (set_interface alt intf s))"
  "reply_fits p (fst (audio_request p s))"
  "length (gs_mac s) = 6 \<Longrightarrow> reply_fits p (fst (hid_request p s))"
  by (auto simp: set_configuration_def set_interface_def audio_request_def hid_request_def Let_def
      intro!: replies_fit order_trans [OF feature_length] split: prod.splits option.splits)



end
