(* ===== verification/SetupDevices.thy ===== *)
theory SetupDevices
  imports Protocol HidPath InstallDecision
begin

text \<open>
  The ground floor of the device-setup tool
  (\<^theory_text>\<open>tools/device_setup/VibeshineVhfGamepadDeviceSetup.cpp\<close>): the native calls it makes,
  its exceptions, the predicates by which it recognises a node as its own, the enumeration of
  the owned nodes and the text it prints. The Windows functions are a parameter, the record
  \<open>setup_os\<close>: a query reads the machine, a command may change it, and where the
  code calls \<^theory_text>\<open>GetLastError\<close> the answer carries the error. A device
  information set is the list of its elements together with the error that ends their
  enumeration. Wide strings are character lists.
\<close>

section \<open>Native calls\<close>

datatype state_change = Dics_Prop_Change | Dics_Enable | Dics_Disable

datatype install_function = Dif_Remove | Dif_Register_Device | Dif_Property_Change state_change

datatype registry_type = Reg_Sz | Reg_Multi_Sz | Reg_Other

datatype registry_property = Spdrp_Hardware_Id | Spdrp_Enumerator_Name

datatype io_start = Io_Done query_info_response u32 | Io_Failed u32

text \<open>\<open>'w\<close> is the machine, \<open>'d\<close> an element of a device information
  set, \<open>'i\<close> an element of an interface set and \<open>'h\<close> a file handle.\<close>

record ('w, 'd, 'i, 'h) setup_os =
  os_open_process_token :: "'w \<Rightarrow> u32 option"
  os_token_elevation :: "'w \<Rightarrow> u32 + u32"
  os_full_path_size :: "'w \<Rightarrow> string \<Rightarrow> nat \<times> u32"
  os_full_path :: "'w \<Rightarrow> string \<Rightarrow> nat \<Rightarrow> nat \<times> string \<times> u32"
  os_file_attributes :: "'w \<Rightarrow> string \<Rightarrow> u32"
  os_open_inf :: "'w \<Rightarrow> string \<Rightarrow> u32 option"
  os_find_driver_ver :: "'w \<Rightarrow> string \<Rightarrow> u32 option"
  os_driver_ver_size :: "'w \<Rightarrow> string \<Rightarrow> bool \<times> u32 \<times> nat"
  os_driver_ver :: "'w \<Rightarrow> string \<Rightarrow> nat \<Rightarrow> u32 + string"
  os_registry_size :: "'w \<Rightarrow> 'd \<Rightarrow> registry_property \<Rightarrow> bool \<times> u32 \<times> nat"
  os_registry_value :: "'w \<Rightarrow> 'd \<Rightarrow> registry_property \<Rightarrow> nat \<Rightarrow> bool \<times> registry_type \<times> string"
  os_instance_id_size :: "'w \<Rightarrow> 'd \<Rightarrow> bool \<times> u32 \<times> nat"
  os_instance_id :: "'w \<Rightarrow> 'd \<Rightarrow> nat \<Rightarrow> u32 + string"
  os_version_size :: "'w \<Rightarrow> 'd \<Rightarrow> bool \<times> u32 \<times> nat \<times> bool"
  os_version :: "'w \<Rightarrow> 'd \<Rightarrow> nat \<Rightarrow> bool \<times> u32 \<times> bool \<times> string"
  os_class_devices :: "'w \<Rightarrow> bool \<Rightarrow> u32 + ('d list \<times> u32)"
  os_devnode_status :: "'w \<Rightarrow> 'd \<Rightarrow> u32 \<times> u32 \<times> u32"
  os_interfaces :: "'w \<Rightarrow> u32 + ('i list \<times> u32)"
  os_detail_size :: "'w \<Rightarrow> 'i \<Rightarrow> bool \<times> u32 \<times> nat"
  os_detail :: "'w \<Rightarrow> 'i \<Rightarrow> nat \<Rightarrow> u32 + (string \<times> 'd)"
  os_inf_class :: "'w \<Rightarrow> string \<Rightarrow> u32 option"
  os_create_set :: "'w \<Rightarrow> u32 option"
  os_open_info :: "'w \<Rightarrow> string \<Rightarrow> u32 + 'd"
  os_install_flags :: "'w \<Rightarrow> 'd \<Rightarrow> u32 + u32"
  os_locate :: "'w \<Rightarrow> string \<Rightarrow> u32 + 'd"
  os_create_info :: "'w \<Rightarrow> string \<Rightarrow> string \<Rightarrow> 'w \<times> (u32 + 'd)"
  os_set_hardware_id :: "'w \<Rightarrow> 'd \<Rightarrow> string \<Rightarrow> 'w \<times> u32 option"
  os_set_install_params :: "'w \<Rightarrow> 'd \<Rightarrow> install_function \<Rightarrow> 'w \<times> u32 option"
  os_call_installer :: "'w \<Rightarrow> 'd \<Rightarrow> install_function \<Rightarrow> 'w \<times> u32 option"
  os_update_driver :: "'w \<Rightarrow> string \<Rightarrow> string \<Rightarrow> 'w \<times> bool \<times> u32 \<times> bool"
  os_reenumerate :: "'w \<Rightarrow> 'd \<Rightarrow> 'w \<times> u32"
  os_sleep :: "'w \<Rightarrow> nat \<Rightarrow> 'w"
  os_create_thread :: "'w \<Rightarrow> 'w \<times> bool"
  os_wait_thread :: "'w \<Rightarrow> nat \<Rightarrow> 'w \<times> bool"
  os_cancel_open :: "'w \<Rightarrow> 'w"
  os_create_file :: "'w \<Rightarrow> string \<Rightarrow> 'w \<times> (u32 + 'h)"
  os_close_handle :: "'w \<Rightarrow> 'h \<Rightarrow> 'w"
  os_create_event :: "'w \<Rightarrow> bool"
  os_query_info :: "'w \<Rightarrow> 'h \<Rightarrow> request_header \<Rightarrow> 'w \<times> io_start"
  os_wait_event :: "'w \<Rightarrow> nat \<Rightarrow> 'w \<times> bool"
  os_cancel_io :: "'w \<Rightarrow> 'h \<Rightarrow> 'w"
  os_overlapped_result :: "'w \<Rightarrow> 'h \<Rightarrow> (query_info_response \<times> u32) option"

section \<open>Exceptions and the tool's state\<close>

text \<open>The \<^theory_text>\<open>std::runtime_error\<close>s of the tool: the failure of a Win32 call, the
  failure of a configuration-manager call, and a refusal in words.\<close>

datatype setup_error = Win32_Failed string u32 | Config_Failed string u32 | Refused string

fun decimal :: "nat \<Rightarrow> string"
  where "decimal n = (if n < 10 then [digit_char n] else decimal (n div 10) @ [digit_char (n mod 10)])"

declare decimal.simps [simp del]

fun error_text :: "setup_error \<Rightarrow> string"
  where
    "error_text (Win32_Failed operation e) =
       operation @ '' failed with Win32 error '' @ decimal (unat e)"
  | "error_text (Config_Failed operation r) =
       operation @ '' failed with CONFIGRET '' @ decimal (unat r)"
  | "error_text (Refused message) = message"

text \<open>A probe of the control interface in flight: its open worker has not returned, or its
  query has not completed on a handle.\<close>

datatype 'h protocol_query_probe = Opening string | Querying 'h

text \<open>The calls that act on the machine, with the machine they were made on, and the lines
  printed.\<close>

datatype ('w, 'd) setup_event =
    Installer_Called 'w 'd install_function
  | Reenumerated 'w 'd
  | Driver_Updated 'w string
  | Info_Created 'w
  | Out_Line string
  | Err_Line string

text \<open>\<open>ss_probes\<close> counts the probes allocated and not yet deleted.\<close>

record ('w, 'd, 'h) setup_state =
  ss_world :: 'w
  ss_last_verdict :: probe_verdict
  ss_pending :: "'h protocol_query_probe option"
  ss_probes :: nat
  ss_log :: "('w, 'd) setup_event list"

type_synonym ('w, 'd, 'h, 'a) tool_action =
  "('w, 'd, 'h) setup_state \<Rightarrow> (setup_error + 'a) \<times> ('w, 'd, 'h) setup_state"

definition ok :: "'a \<Rightarrow> ('w, 'd, 'h, 'a) tool_action"
  where "ok a s = (Inr a, s)"

definition throw :: "setup_error \<Rightarrow> ('w, 'd, 'h, 'a) tool_action"
  where "throw e s = (Inl e, s)"

definition andthen :: "('w, 'd, 'h, 'a) tool_action \<Rightarrow> ('a \<Rightarrow> ('w, 'd, 'h, 'b) tool_action) \<Rightarrow> ('w, 'd, 'h, 'b) tool_action"
  where "andthen m f s = (case m s of (Inl e, s') \<Rightarrow> (Inl e, s') | (Inr a, s') \<Rightarrow> f a s')"

definition catching :: "('w, 'd, 'h, 'a) tool_action \<Rightarrow> (setup_error \<Rightarrow> ('w, 'd, 'h, 'a) tool_action) \<Rightarrow> ('w, 'd, 'h, 'a) tool_action"
  where "catching m f s = (case m s of (Inl e, s') \<Rightarrow> f e s' | (Inr a, s') \<Rightarrow> (Inr a, s'))"

definition reading :: "('w \<Rightarrow> setup_error + 'a) \<Rightarrow> ('w, 'd, 'h, 'a) tool_action"
  where "reading f s = (f (ss_world s), s)"

definition logged :: "('w, 'd) setup_event \<Rightarrow> ('w, 'd, 'h) setup_state \<Rightarrow> ('w, 'd, 'h) setup_state"
  where "logged e s = s\<lparr>ss_log := ss_log s @ [e]\<rparr>"

definition print_out :: "string \<Rightarrow> ('w, 'd, 'h, unit) tool_action"
  where "print_out l s = (Inr (), logged (Out_Line l) s)"

definition print_err :: "string \<Rightarrow> ('w, 'd, 'h, unit) tool_action"
  where "print_err l s = (Inr (), logged (Err_Line l) s)"

text \<open>The outcome of a native call in the code's idiom
  \<^theory_text>\<open>if (!call) throw_last_error(operation)\<close>.\<close>

definition or_throw :: "string \<Rightarrow> u32 option \<Rightarrow> setup_error + unit"
  where "or_throw operation e = (case e of None \<Rightarrow> Inr () | Some c \<Rightarrow> Inl (Win32_Failed operation c))"

definition got :: "string \<Rightarrow> u32 + 'a \<Rightarrow> setup_error + 'a"
  where "got operation r = (case r of Inl c \<Rightarrow> Inl (Win32_Failed operation c) | Inr a \<Rightarrow> Inr a)"

section \<open>Strings\<close>

definition wcsicmp_equal :: "string \<Rightarrow> string \<Rightarrow> bool"
  where "wcsicmp_equal a b \<longleftrightarrow> map lower_char a = map lower_char b"

text \<open>What a C string in a buffer is read as: its characters up to the first NUL.\<close>

definition wide_nul :: char
  where "wide_nul = char_of (0 :: nat)"

definition wide_c_string :: "string \<Rightarrow> string"
  where "wide_c_string b = takeWhile (\<lambda>c. c \<noteq> wide_nul) b"

text \<open>A zero-filled buffer of \<open>n\<close> characters after a call wrote into it.\<close>

definition buffer_of :: "nat \<Rightarrow> string \<Rightarrow> string"
  where "buffer_of n written = take n (written @ replicate n wide_nul)"

definition blank :: "char \<Rightarrow> bool"
  where "blank c \<longleftrightarrow> c = CHR '' '' \<or> (of_char c :: nat) \<in> {9, 13, 10}"

definition trim_driver_version :: "string \<Rightarrow> string"
  where "trim_driver_version version =
    (let v = dropWhile blank version
     in if v = [] then []
        else
          let v = rev (dropWhile blank (rev v))
          in if CHR '','' \<in> set v
             then dropWhile blank (tl (dropWhile (\<lambda>c. c \<noteq> CHR '','') v))
             else v)"

definition k_root_device_id :: string
  where "k_root_device_id = ''VIBESHINEVIRTUALGAMEPAD''"

definition k_root_hardware_id :: string
  where "k_root_hardware_id = ''ROOT'' @ [char_of (92 :: nat)] @ k_root_device_id"

definition k_root_instance_prefix :: string
  where "k_root_instance_prefix = k_root_hardware_id @ [char_of (92 :: nat)]"

definition k_device_description :: string
  where "k_device_description = ''Vibeshine Virtual Gamepad''"

section \<open>The owned nodes\<close>

text \<open>The walk over a \<^theory_text>\<open>REG_MULTI_SZ\<close> buffer: a string without its terminator in
  the buffer, like an empty one, ends it.\<close>

function multi_sz_walk :: "string \<Rightarrow> bool"
  where "multi_sz_walk cursor =
    (if cursor = [] \<or> hd cursor = wide_nul then False
     else
       let entry = takeWhile (\<lambda>c. c \<noteq> wide_nul) cursor; terminator = dropWhile (\<lambda>c. c \<noteq> wide_nul) cursor
       in if terminator = [] then False
          else if wcsicmp_equal entry k_root_hardware_id then True
          else multi_sz_walk (tl terminator))"
  by pat_completeness auto

termination
proof (relation "measure length")
  fix cursor entry terminator :: string
  assume t: "terminator = dropWhile (\<lambda>c. c \<noteq> wide_nul) cursor" "terminator \<noteq> []"
  then have "length (tl terminator) < length terminator" by simp
  also have "length terminator \<le> length cursor"
    unfolding t(1) by (rule length_dropWhile_le)
  finally show "(tl terminator, cursor) \<in> measure length" by simp
qed simp

declare multi_sz_walk.simps [simp del]

definition error_insufficient_buffer :: u32
  where "error_insufficient_buffer = 122"

definition error_more_data :: u32
  where "error_more_data = 234"

definition no_more_items :: u32
  where "no_more_items = 259"

definition error_no_such_devinst :: u32
  where "error_no_such_devinst = 0xE000020B"

definition error_file_not_found :: u32
  where "error_file_not_found = 2"

definition device_has_our_hardware_id :: "('w, 'd, 'i, 'h) setup_os \<Rightarrow> 'w \<Rightarrow> 'd \<Rightarrow> bool"
  where "device_has_our_hardware_id os w d =
    (case os_registry_size os w d Spdrp_Hardware_Id of (queried, e, required_bytes) \<Rightarrow>
      if queried then False
      else if (e \<noteq> error_insufficient_buffer \<and> e \<noteq> error_more_data) \<or> required_bytes < 4 then False
      else
        case os_registry_value os w d Spdrp_Hardware_Id required_bytes of (read, t, values) \<Rightarrow>
          if \<not> read \<or> t \<noteq> Reg_Multi_Sz then False
          else multi_sz_walk (buffer_of (required_bytes div 2) values))"

definition device_instance_id :: "('w, 'd, 'i, 'h) setup_os \<Rightarrow> 'w \<Rightarrow> 'd \<Rightarrow> setup_error + string"
  where "device_instance_id os w d =
    (case os_instance_id_size os w d of (queried, e, characters) \<Rightarrow>
      if queried then Inr []
      else if e \<noteq> error_insufficient_buffer \<or> characters = 0
        then Inl (Win32_Failed ''SetupDiGetDeviceInstanceIdW'' e)
      else
        case got ''SetupDiGetDeviceInstanceIdW'' (os_instance_id os w d characters) of
          Inl x \<Rightarrow> Inl x
        | Inr buffer \<Rightarrow> Inr (wide_c_string (buffer_of characters buffer)))"

text \<open>The buffer has one more character than the text, a NUL.\<close>

definition device_is_from_root_enumerator :: "('w, 'd, 'i, 'h) setup_os \<Rightarrow> 'w \<Rightarrow> 'd \<Rightarrow> bool"
  where "device_is_from_root_enumerator os w d =
    (case os_registry_size os w d Spdrp_Enumerator_Name of (queried, e, required_bytes) \<Rightarrow>
      if queried then False
      else if (e \<noteq> error_insufficient_buffer \<and> e \<noteq> error_more_data) \<or> required_bytes < 2 then False
      else
        case os_registry_value os w d Spdrp_Enumerator_Name required_bytes of (read, t, buffer) \<Rightarrow>
          if \<not> read \<or> t \<noteq> Reg_Sz then False
          else wcsicmp_equal (wide_c_string (buffer_of (required_bytes div 2 + 1) buffer)) ''ROOT'')"

definition is_our_root_device :: "('w, 'd, 'i, 'h) setup_os \<Rightarrow> 'w \<Rightarrow> 'd \<Rightarrow> setup_error + bool"
  where "is_our_root_device os w d =
    (if \<not> device_has_our_hardware_id os w d \<or> \<not> device_is_from_root_enumerator os w d then Inr False
     else
       case device_instance_id os w d of
         Inl x \<Rightarrow> Inl x
       | Inr instance_id \<Rightarrow>
           Inr (length k_root_instance_prefix \<le> length instance_id \<and>
             wcsicmp_equal (take (length k_root_instance_prefix) instance_id) k_root_instance_prefix))"

definition device_driver_version :: "('w, 'd, 'i, 'h) setup_os \<Rightarrow> 'w \<Rightarrow> 'd \<Rightarrow> setup_error + string"
  where "device_driver_version os w d =
    (case os_version_size os w d of (queried, e, required_bytes, is_string) \<Rightarrow>
      if queried \<or> e \<noteq> error_insufficient_buffer \<or> required_bytes < 2
        then Inl (Win32_Failed ''SetupDiGetDevicePropertyW(DEVPKEY_Device_DriverVersion size)'' e)
      else if \<not> is_string then Inl (Refused ''DEVPKEY_Device_DriverVersion is not a string'')
      else
        case os_version os w d required_bytes of (read, e, is_string, buffer) \<Rightarrow>
          if \<not> read \<or> \<not> is_string
            then Inl (Win32_Failed ''SetupDiGetDevicePropertyW(DEVPKEY_Device_DriverVersion)'' e)
          else Inr (trim_driver_version (wide_c_string (buffer_of (required_bytes div 2 + 1) buffer))))"

text \<open>An exception of \<^theory_text>\<open>is_our_root_device\<close> leaves the loop; one of
  \<^theory_text>\<open>device_driver_version\<close> is caught and answers false.\<close>

fun match_loop :: "('w, 'd, 'i, 'h) setup_os \<Rightarrow> 'w \<Rightarrow> string \<Rightarrow> u32 \<Rightarrow> bool \<Rightarrow> 'd list \<Rightarrow> setup_error + bool"
  where
    "match_loop os w expected e found [] = Inr (if e = no_more_items then found else False)"
  | "match_loop os w expected e found (d # ds) =
      (case is_our_root_device os w d of
         Inl x \<Rightarrow> Inl x
       | Inr False \<Rightarrow> match_loop os w expected e found ds
       | Inr True \<Rightarrow>
           (case device_driver_version os w d of
              Inl x \<Rightarrow> Inr False
            | Inr actual \<Rightarrow>
                if wcsicmp_equal actual expected then match_loop os w expected e True ds
                else Inr False))"

definition owned_root_devices_match_driver_version ::
    "('w, 'd, 'i, 'h) setup_os \<Rightarrow> string \<Rightarrow> 'w \<Rightarrow> setup_error + bool"
  where "owned_root_devices_match_driver_version os expected w =
    (case os_class_devices os w True of
       Inl e \<Rightarrow> Inr False
     | Inr (ds, e) \<Rightarrow> match_loop os w expected e False ds)"

record root_device_state =
  rd_instance_id :: string
  rd_status :: u32
  rd_problem :: u32

definition root_state :: "('w, 'd, 'i, 'h) setup_os \<Rightarrow> 'w \<Rightarrow> 'd \<Rightarrow> string \<Rightarrow> root_device_state"
  where "root_state os w d instance_id =
    (case os_devnode_status os w d of (result, status, problem) \<Rightarrow>
      if result \<noteq> 0 then \<lparr>rd_instance_id = instance_id, rd_status = 0, rd_problem = result\<rparr>
      else \<lparr>rd_instance_id = instance_id, rd_status = status, rd_problem = problem\<rparr>)"

fun enumerate_loop :: "('w, 'd, 'i, 'h) setup_os \<Rightarrow> 'w \<Rightarrow> u32 \<Rightarrow> 'd list \<Rightarrow> setup_error + root_device_state list"
  where
    "enumerate_loop os w e [] =
      (if e = no_more_items then Inr [] else Inl (Win32_Failed ''SetupDiEnumDeviceInfo'' e))"
  | "enumerate_loop os w e (d # ds) =
      (case is_our_root_device os w d of
         Inl x \<Rightarrow> Inl x
       | Inr False \<Rightarrow> enumerate_loop os w e ds
       | Inr True \<Rightarrow>
           (case device_instance_id os w d of
              Inl x \<Rightarrow> Inl x
            | Inr instance_id \<Rightarrow>
                (case enumerate_loop os w e ds of
                   Inl x \<Rightarrow> Inl x
                 | Inr states \<Rightarrow> Inr (root_state os w d instance_id # states))))"

definition enumerate_root_devices :: "('w, 'd, 'i, 'h) setup_os \<Rightarrow> bool \<Rightarrow> 'w \<Rightarrow> setup_error + root_device_state list"
  where "enumerate_root_devices os present_only w =
    (case got ''SetupDiGetClassDevsW'' (os_class_devices os w present_only) of
       Inl x \<Rightarrow> Inl x
     | Inr (ds, e) \<Rightarrow> enumerate_loop os w e ds)"

section \<open>Elevation and the package\<close>

definition is_elevated :: "('w, 'd, 'i, 'h) setup_os \<Rightarrow> 'w \<Rightarrow> setup_error + bool"
  where "is_elevated os w =
    (case or_throw ''OpenProcessToken'' (os_open_process_token os w) of
       Inl x \<Rightarrow> Inl x
     | Inr _ \<Rightarrow>
         (case got ''GetTokenInformation(TokenElevation)'' (os_token_elevation os w) of
            Inl x \<Rightarrow> Inl x
          | Inr elevation \<Rightarrow> Inr (elevation \<noteq> 0)))"

definition require_elevation :: "('w, 'd, 'i, 'h) setup_os \<Rightarrow> 'w \<Rightarrow> setup_error + unit"
  where "require_elevation os w =
    (case is_elevated os w of
       Inl x \<Rightarrow> Inl x
     | Inr True \<Rightarrow> Inr ()
     | Inr False \<Rightarrow> Inl (Refused ''install and remove require an elevated Administrator session''))"

definition absolute_existing_path :: "('w, 'd, 'i, 'h) setup_os \<Rightarrow> string \<Rightarrow> 'w \<Rightarrow> setup_error + string"
  where "absolute_existing_path os path w =
    (case os_full_path_size os w path of (required, e) \<Rightarrow>
      if required = 0 then Inl (Win32_Failed ''GetFullPathNameW'' e)
      else
        case os_full_path os w path required of (copied, buffer, e) \<Rightarrow>
          if copied = 0 \<or> required \<le> copied then Inl (Win32_Failed ''GetFullPathNameW'' e)
          else
            let absolute_path = take copied (buffer_of required buffer);
                attributes = os_file_attributes os w absolute_path
            in if attributes = 0xFFFFFFFF \<or> attributes AND 0x10 \<noteq> 0
               then Inl (Refused ''INF path is not a regular file'')
               else Inr absolute_path)"

text \<open>The part behind the last separator, the whole path without one.\<close>

fun file_name_of :: "string \<Rightarrow> string"
  where
    "file_name_of [] = []"
  | "file_name_of (c # cs) =
      (if \<exists>x\<in>set cs. x = CHR ''/'' \<or> x = char_of (92 :: nat) then file_name_of cs
       else if c = CHR ''/'' \<or> c = char_of (92 :: nat) then cs else c # cs)"

definition validate_owned_inf_path :: "string \<Rightarrow> setup_error + unit"
  where "validate_owned_inf_path absolute_path =
    (if wcsicmp_equal (file_name_of absolute_path) ''VibeshineVhfGamepad.inf'' then Inr ()
     else Inl (Refused ''refusing an INF that is not named VibeshineVhfGamepad.inf''))"

definition driver_version_from_inf :: "('w, 'd, 'i, 'h) setup_os \<Rightarrow> string \<Rightarrow> 'w \<Rightarrow> setup_error + string"
  where "driver_version_from_inf os inf_path w =
    (case or_throw ''SetupOpenInfFileW'' (os_open_inf os w inf_path) of
       Inl x \<Rightarrow> Inl x
     | Inr _ \<Rightarrow>
    (case or_throw ''SetupFindFirstLineW(DriverVer)'' (os_find_driver_ver os w inf_path) of
       Inl x \<Rightarrow> Inl x
     | Inr _ \<Rightarrow>
    (case os_driver_ver_size os w inf_path of (queried, e, characters) \<Rightarrow>
      if \<not> queried \<and> e \<noteq> error_insufficient_buffer
        then Inl (Win32_Failed ''SetupGetStringFieldW(DriverVer size)'' e)
      else if characters = 0 then Inl (Refused ''VibeshineVhfGamepad.inf has an empty DriverVer field'')
      else
        case got ''SetupGetStringFieldW(DriverVer)'' (os_driver_ver os w inf_path characters) of
          Inl x \<Rightarrow> Inl x
        | Inr buffer \<Rightarrow>
            (let version = trim_driver_version (wide_c_string (buffer_of characters buffer))
             in if version = [] then Inl (Refused ''VibeshineVhfGamepad.inf has an empty DriverVer version'')
                else Inr version))))"

section \<open>Text\<close>

definition backslash :: char
  where "backslash = char_of (92 :: nat)"

definition quote :: char
  where "quote = char_of (34 :: nat)"

definition json_char :: "char \<Rightarrow> string"
  where "json_char c =
    (if c = backslash then [backslash, backslash]
     else if c = quote then [backslash, quote]
     else if c = char_of (8 :: nat) then [backslash, CHR ''b'']
     else if c = char_of (12 :: nat) then [backslash, CHR ''f'']
     else if c = char_of (10 :: nat) then [backslash, CHR ''n'']
     else if c = char_of (13 :: nat) then [backslash, CHR ''r'']
     else if c = char_of (9 :: nat) then [backslash, CHR ''t'']
     else if (of_char c :: nat) < 0x20 then ''?'' else [c])"

definition json_escape :: "string \<Rightarrow> string"
  where "json_escape s = concat (map json_char s)"

definition problem_code_name :: "u32 \<Rightarrow> string"
  where "problem_code_name problem =
    (if problem = 0 then ''none''
     else if problem = 1 then ''CM_PROB_NOT_CONFIGURED''
     else if problem = 10 then ''CM_PROB_FAILED_START''
     else if problem = 18 then ''CM_PROB_REINSTALL''
     else if problem = 19 then ''CM_PROB_REGISTRY''
     else if problem = 22 then ''CM_PROB_DISABLED''
     else if problem = 24 then ''CM_PROB_DEVICE_NOT_THERE''
     else if problem = 28 then ''CM_PROB_FAILED_INSTALL''
     else if problem = 31 then ''CM_PROB_FAILED_ADD''
     else if problem = 37 then ''CM_PROB_FAILED_DRIVER_ENTRY''
     else if problem = 38 then ''CM_PROB_DRIVER_FAILED_PRIOR_UNLOAD''
     else if problem = 39 then ''CM_PROB_DRIVER_FAILED_LOAD''
     else if problem = 41 then ''CM_PROB_FAILED_POST_START''
     else if problem = 51 then ''CM_PROB_WAITING_ON_DEPENDENCY''
     else if problem = 52 then ''CM_PROB_UNSIGNED_DRIVER''
     else ''unknown'')"

text \<open>A quoted JSON key with its colon, and a string in quotes.\<close>

definition json_key :: "string \<Rightarrow> string"
  where "json_key k = [quote] @ k @ [quote] @ '':''"

definition json_text :: "string \<Rightarrow> string"
  where "json_text t = [quote] @ t @ [quote]"

definition json_bool :: "bool \<Rightarrow> string"
  where "json_bool b = (if b then ''true'' else ''false'')"

definition diagnostic_node :: "root_device_state \<Rightarrow> string"
  where "diagnostic_node d =
    ''{'' @ json_key ''instance_id'' @ json_text (json_escape (rd_instance_id d)) @
    '','' @ json_key ''device_status'' @ decimal (unat (rd_status d)) @
    '','' @ json_key ''problem_code'' @ decimal (unat (rd_problem d)) @
    '','' @ json_key ''problem'' @ json_text (problem_code_name (rd_problem d)) @ ''}''"

fun comma_separated :: "string list \<Rightarrow> string"
  where
    "comma_separated [] = []"
  | "comma_separated [x] = x"
  | "comma_separated (x # y # ys) = x @ '','' @ comma_separated (y # ys)"

definition print_device_diagnostics :: "('w, 'd, 'i, 'h) setup_os \<Rightarrow> string \<Rightarrow> ('w, 'd, 'h, unit) tool_action"
  where "print_device_diagnostics os stage s =
    (case enumerate_root_devices os True (ss_world s) of
       Inl x \<Rightarrow> print_err (''Vibeshine VHF gamepad diagnostics unavailable: '' @ error_text x) s
     | Inr devices \<Rightarrow>
         print_out (''{'' @ json_key ''diagnostic'' @ json_text stage @ '','' @ json_key ''devices'' @
           ''['' @ comma_separated (map diagnostic_node devices) @ '']}'') s)"

definition status_line :: "root_device_state list \<Rightarrow> nat \<Rightarrow> bool \<Rightarrow> probe_verdict \<Rightarrow> string"
  where "status_line devices registered ready verdict =
    ''{'' @ json_key ''root_device_count'' @ decimal (length devices) @
    '','' @ json_key ''phantom_root_devices'' @
      decimal (if length devices < registered then registered - length devices else 0) @
    '','' @ json_key ''source_interface_ready'' @ json_bool ready @
    '','' @ json_key ''source_interface_state'' @ json_text (probe_verdict_name verdict) @
    (case devices of
       [] \<Rightarrow> []
     | d # _ \<Rightarrow>
         '','' @ json_key ''instance_id'' @ json_text (json_escape (rd_instance_id d)) @
         '','' @ json_key ''device_status'' @ decimal (unat (rd_status d)) @
         '','' @ json_key ''problem_code'' @ decimal (unat (rd_problem d))) @
    ''}''"

end
