(* ===== verification/SetupProbe.thy ===== *)
theory SetupProbe
  imports SetupDevices
begin

text \<open>
  The probe of the control interface, by which the device-setup tool decides that the source
  device is live: an open on a worker thread and a protocol query, both bounded, of which at
  most one may outlive its call (\<^theory_text>\<open>g_pending_protocol_query_probe\<close>). The
  worker's open takes effect when the worker returns, which is before a wait for it succeeds.
\<close>

definition k_interface_wait_milliseconds :: nat
  where "k_interface_wait_milliseconds = 10000"

definition k_interface_poll_milliseconds :: nat
  where "k_interface_poll_milliseconds = 200"

definition k_protocol_open_timeout_milliseconds :: nat
  where "k_protocol_open_timeout_milliseconds = 1000"

definition k_protocol_query_timeout_milliseconds :: nat
  where "k_protocol_query_timeout_milliseconds = 1000"

definition k_protocol_cancel_timeout_milliseconds :: nat
  where "k_protocol_cancel_timeout_milliseconds = 1000"

definition error_io_pending :: u32
  where "error_io_pending = 997"

abbreviation "query_info_response_size \<equiv> (28 :: nat)"
abbreviation "query_info_request_size \<equiv> (8 :: u32)"

section \<open>Probes\<close>

definition in_world :: "('w \<Rightarrow> 'w \<times> 'a) \<Rightarrow> ('w, 'd, 'h) setup_state \<Rightarrow> 'a \<times> ('w, 'd, 'h) setup_state"
  where "in_world f s = (case f (ss_world s) of (w, a) \<Rightarrow> (a, s\<lparr>ss_world := w\<rparr>))"

definition new_probe :: "('w, 'd, 'h) setup_state \<Rightarrow> ('w, 'd, 'h) setup_state"
  where "new_probe s = s\<lparr>ss_probes := ss_probes s + 1\<rparr>"

text \<open>The destructor closes the device handle the probe holds.\<close>

definition delete_probe :: "('w, 'd, 'i, 'h) setup_os \<Rightarrow> 'h option \<Rightarrow> ('w, 'd, 'h) setup_state \<Rightarrow> ('w, 'd, 'h) setup_state"
  where "delete_probe os handle s =
    s\<lparr>ss_world := (case handle of None \<Rightarrow> ss_world s | Some h \<Rightarrow> os_close_handle os (ss_world s) h),
      ss_probes := ss_probes s - 1\<rparr>"

definition conclude :: "probe_verdict \<Rightarrow> ('w, 'd, 'h) setup_state \<Rightarrow> bool \<times> ('w, 'd, 'h) setup_state"
  where "conclude verdict s = (interface_ready verdict, s\<lparr>ss_last_verdict := verdict\<rparr>)"

definition open_protocol_device_worker ::
    "('w, 'd, 'i, 'h) setup_os \<Rightarrow> string \<Rightarrow> ('w, 'd, 'h) setup_state \<Rightarrow> (u32 + 'h) \<times> ('w, 'd, 'h) setup_state"
  where "open_protocol_device_worker os device_path = in_world (\<lambda>w. os_create_file os w device_path)"

definition reap_completed_protocol_query_probe ::
    "('w, 'd, 'i, 'h) setup_os \<Rightarrow> ('w, 'd, 'h) setup_state \<Rightarrow> ('w, 'd, 'h) setup_state"
  where "reap_completed_protocol_query_probe os s =
    (case ss_pending s of
       None \<Rightarrow> s
     | Some (Opening device_path) \<Rightarrow>
         (case in_world (\<lambda>w. os_wait_thread os w 0) s of (finished, s) \<Rightarrow>
           if \<not> finished then s
           else
             case open_protocol_device_worker os device_path s of (opened, s) \<Rightarrow>
               (delete_probe os (case opened of Inl _ \<Rightarrow> None | Inr h \<Rightarrow> Some h) s)\<lparr>ss_pending := None\<rparr>)
     | Some (Querying h) \<Rightarrow>
         (case in_world (\<lambda>w. os_wait_event os w 0) s of (completed, s) \<Rightarrow>
           if \<not> completed then s else (delete_probe os (Some h) s)\<lparr>ss_pending := None\<rparr>))"

definition protocol_query_response_is_valid :: "query_info_response \<Rightarrow> u32 \<Rightarrow> bool"
  where "protocol_query_response_is_valid response bytes_returned \<longleftrightarrow>
    unat bytes_returned = query_info_response_size \<and>
    valid_request qi_header query_info_response_size (Some response) (unat bytes_returned) \<and>
    qi_minimum_version response \<le> k_protocol_version \<and>
    k_protocol_version \<le> qi_maximum_version response \<and>
    0 < qi_maximum_controllers response \<and>
    unat (qi_maximum_controllers response) \<le> k_max_controllers \<and>
    fc_haptic_evicted (qi_counters response) = 0 \<and> fc_settings_evicted (qi_counters response) = 0 \<and>
    fc_transitions_dropped (qi_counters response) = 0 \<and> fc_unknown_commands (qi_counters response) = 0"

definition answered_if :: "bool \<Rightarrow> probe_verdict"
  where "answered_if valid = (if valid then Probe_Answered else Probe_Absent)"

definition complete_protocol_query_probe ::
    "('w, 'd, 'i, 'h) setup_os \<Rightarrow> 'h \<Rightarrow> ('w, 'd, 'h) setup_state \<Rightarrow> bool \<times> ('w, 'd, 'h) setup_state"
  where "complete_protocol_query_probe os h s =
    (let valid = (case os_overlapped_result os (ss_world s) h of
                    None \<Rightarrow> False
                  | Some (response, bytes_returned) \<Rightarrow> protocol_query_response_is_valid response bytes_returned)
     in conclude (answered_if valid) (delete_probe os (Some h) s))"

text \<open>The second half of a probe: the query on the opened handle.\<close>

definition query_opened :: "('w, 'd, 'i, 'h) setup_os \<Rightarrow> 'h \<Rightarrow> ('w, 'd, 'h) setup_state \<Rightarrow> bool \<times> ('w, 'd, 'h) setup_state"
  where "query_opened os h s =
    (if \<not> os_create_event os (ss_world s) then (False, delete_probe os (Some h) s)
     else
       case in_world (\<lambda>w. os_query_info os w h
         \<lparr>rh_size = query_info_request_size, rh_version = k_protocol_version, rh_reserved = 0\<rparr>) s of
         (Io_Done response bytes_returned, s) \<Rightarrow>
           conclude (answered_if (protocol_query_response_is_valid response bytes_returned))
             (delete_probe os (Some h) s)
       | (Io_Failed e, s) \<Rightarrow>
           if e \<noteq> error_io_pending then (False, delete_probe os (Some h) s)
           else
             case in_world (\<lambda>w. os_wait_event os w k_protocol_query_timeout_milliseconds) s of (completed, s) \<Rightarrow>
               if completed then complete_protocol_query_probe os h s
               else
                 let s = s\<lparr>ss_world := os_cancel_io os (ss_world s) h\<rparr>
                 in case in_world (\<lambda>w. os_wait_event os w k_protocol_cancel_timeout_milliseconds) s of
                      (completed, s) \<Rightarrow>
                        if completed then complete_protocol_query_probe os h s
                        else (False, s\<lparr>ss_pending := Some (Querying h)\<rparr>))"

text \<open>The wait for the open worker: it returns within its timeout, or after its
  cancellation, or not at all.\<close>

definition await_open :: "('w, 'd, 'i, 'h) setup_os \<Rightarrow> ('w, 'd, 'h) setup_state \<Rightarrow> bool \<times> ('w, 'd, 'h) setup_state"
  where "await_open os s =
    (case in_world (\<lambda>w. os_wait_thread os w k_protocol_open_timeout_milliseconds) s of (opened, s) \<Rightarrow>
      if opened then (True, s)
      else in_world (\<lambda>w. os_wait_thread os w k_protocol_cancel_timeout_milliseconds)
        (s\<lparr>ss_world := os_cancel_open os (ss_world s)\<rparr>))"

definition source_interface_accepts_protocol ::
    "('w, 'd, 'i, 'h) setup_os \<Rightarrow> string \<Rightarrow> ('w, 'd, 'h) setup_state \<Rightarrow> bool \<times> ('w, 'd, 'h) setup_state"
  where "source_interface_accepts_protocol os device_path s =
    (let s = reap_completed_protocol_query_probe os (s\<lparr>ss_last_verdict := Probe_Absent\<rparr>)
     in if ss_pending s \<noteq> None then (False, s)
     else
       case in_world (os_create_thread os) (new_probe s) of (created, s) \<Rightarrow>
         if \<not> created then (False, delete_probe os None s)
         else
           case await_open os s of (opened, s) \<Rightarrow>
             if \<not> opened then (False, s\<lparr>ss_pending := Some (Opening device_path)\<rparr>)
             else
               case open_protocol_device_worker os device_path s of
                 (Inl open_error, s) \<Rightarrow> conclude (classify_open open_error) (delete_probe os None s)
               | (Inr h, s) \<Rightarrow> query_opened os h s)"

section \<open>The interface\<close>

text \<open>The error of an interface set that does not exist is no exception.\<close>

fun interface_loop :: "('w, 'd, 'i, 'h) setup_os \<Rightarrow> u32 \<Rightarrow> 'i list \<Rightarrow> ('w, 'd, 'h, bool) tool_action"
  where
    "interface_loop os e [] s =
      (if e = no_more_items then (Inr False, s)
       else (Inl (Win32_Failed ''SetupDiEnumDeviceInterfaces(source interface)'' e), s))"
  | "interface_loop os e (i # is) s =
      (case os_detail_size os (ss_world s) i of (queried, d, detail_size) \<Rightarrow>
        if queried \<or> d \<noteq> error_insufficient_buffer \<or> detail_size < 8
          then (Inl (Win32_Failed ''SetupDiGetDeviceInterfaceDetailW(source interface size)'' d), s)
        else
          case got ''SetupDiGetDeviceInterfaceDetailW(source interface)''
            (os_detail os (ss_world s) i detail_size) of
            Inl x \<Rightarrow> (Inl x, s)
          | Inr (device_path, device) \<Rightarrow>
              (case is_our_root_device os (ss_world s) device of
                 Inl x \<Rightarrow> (Inl x, s)
               | Inr False \<Rightarrow> interface_loop os e is s
               | Inr True \<Rightarrow>
                   (case source_interface_accepts_protocol os device_path s of (accepted, s) \<Rightarrow>
                     if accepted then (Inr True, s) else interface_loop os e is s)))"

definition source_device_interface_ready :: "('w, 'd, 'i, 'h) setup_os \<Rightarrow> ('w, 'd, 'h, bool) tool_action"
  where "source_device_interface_ready os s =
    (case os_interfaces os (ss_world s) of
       Inl e \<Rightarrow>
         if e = error_no_such_devinst \<or> e = error_file_not_found then (Inr False, s)
         else (Inl (Win32_Failed ''SetupDiGetClassDevsW(source interface)'' e), s)
     | Inr (is, e) \<Rightarrow> interface_loop os e is s)"

text \<open>One poll, and at most \<open>attempts\<close> more with a pause before each.\<close>

fun wait_loop :: "('w, 'd, 'i, 'h) setup_os \<Rightarrow> nat \<Rightarrow> ('w, 'd, 'h, bool) tool_action"
  where
    "wait_loop os 0 s = source_device_interface_ready os s"
  | "wait_loop os (Suc attempts) s =
      (case source_device_interface_ready os s of
         (Inl x, s) \<Rightarrow> (Inl x, s)
       | (Inr True, s) \<Rightarrow> (Inr True, s)
       | (Inr False, s) \<Rightarrow>
           wait_loop os attempts (s\<lparr>ss_world := os_sleep os (ss_world s) k_interface_poll_milliseconds\<rparr>))"

definition wait_for_source_device_interface :: "('w, 'd, 'i, 'h) setup_os \<Rightarrow> ('w, 'd, 'h, bool) tool_action"
  where "wait_for_source_device_interface os =
    wait_loop os (k_interface_wait_milliseconds div k_interface_poll_milliseconds)"

end
