(* ===== verification/Installer.thy ===== *)
theory Installer
  imports SetupProbe
begin

text \<open>
  The commands of the device-setup tool: the operations on one owned node (removal, restart,
  disable/enable cycle), the installation with its recovery tiers, attestation and rollback,
  the removal of every node, the status report and the exit codes of \<^theory_text>\<open>wmain\<close>.
\<close>

section \<open>Operations on one node\<close>

definition device_install_requires_reboot :: "('w, 'd, 'i, 'h) setup_os \<Rightarrow> 'd \<Rightarrow> 'w \<Rightarrow> setup_error + bool"
  where "device_install_requires_reboot os d w =
    (case got ''SetupDiGetDeviceInstallParamsW'' (os_install_flags os w d) of
       Inl x \<Rightarrow> Inl x
     | Inr flags \<Rightarrow> Inr (flags AND (0x100 OR 0x80) \<noteq> 0))"

definition set_class_install_params ::
    "('w, 'd, 'i, 'h) setup_os \<Rightarrow> string \<Rightarrow> 'd \<Rightarrow> install_function \<Rightarrow> ('w, 'd, 'h, unit) tool_action"
  where "set_class_install_params os operation d f s =
    (case os_set_install_params os (ss_world s) d f of (w, e) \<Rightarrow>
      (or_throw operation e, s\<lparr>ss_world := w\<rparr>))"

definition call_class_installer ::
    "('w, 'd, 'i, 'h) setup_os \<Rightarrow> string \<Rightarrow> 'd \<Rightarrow> install_function \<Rightarrow> ('w, 'd, 'h, unit) tool_action"
  where "call_class_installer os operation d f s =
    (case os_call_installer os (ss_world s) d f of (w, e) \<Rightarrow>
      (or_throw operation e, (logged (Installer_Called (ss_world s) d f) s)\<lparr>ss_world := w\<rparr>))"

definition remove_open_device :: "('w, 'd, 'i, 'h) setup_os \<Rightarrow> 'd \<Rightarrow> ('w, 'd, 'h, bool) tool_action"
  where "remove_open_device os d =
    andthen (set_class_install_params os ''SetupDiSetClassInstallParamsW(DIF_REMOVE)'' d Dif_Remove) (\<lambda>_.
    andthen (call_class_installer os ''SetupDiCallClassInstaller(DIF_REMOVE)'' d Dif_Remove) (\<lambda>_.
    reading (device_install_requires_reboot os d)))"

record created_root_device =
  cr_instance_id :: string
  cr_reboot_required :: bool

definition create_device_info :: "('w, 'd, 'i, 'h) setup_os \<Rightarrow> ('w, 'd, 'h, 'd) tool_action"
  where "create_device_info os s =
    (case os_create_info os (ss_world s) k_root_device_id k_device_description of (w, r) \<Rightarrow>
      (got ''SetupDiCreateDeviceInfoW'' r, (logged (Info_Created (ss_world s)) s)\<lparr>ss_world := w\<rparr>))"

definition set_hardware_id :: "('w, 'd, 'i, 'h) setup_os \<Rightarrow> 'd \<Rightarrow> ('w, 'd, 'h, unit) tool_action"
  where "set_hardware_id os d s =
    (case os_set_hardware_id os (ss_world s) d (k_root_hardware_id @ [wide_nul, wide_nul]) of (w, e) \<Rightarrow>
      (or_throw ''SetupDiSetDeviceRegistryPropertyW(SPDRP_HARDWAREID)'' e, s\<lparr>ss_world := w\<rparr>))"

definition create_root_device :: "('w, 'd, 'i, 'h) setup_os \<Rightarrow> string \<Rightarrow> ('w, 'd, 'h, created_root_device) tool_action"
  where "create_root_device os inf_path =
    andthen (reading (\<lambda>w. or_throw ''SetupDiGetINFClassW'' (os_inf_class os w inf_path))) (\<lambda>_.
    andthen (reading (\<lambda>w. or_throw ''SetupDiCreateDeviceInfoList'' (os_create_set os w))) (\<lambda>_.
    andthen (create_device_info os) (\<lambda>d.
    andthen (set_hardware_id os d) (\<lambda>_.
    andthen (call_class_installer os ''SetupDiCallClassInstaller(DIF_REGISTERDEVICE)'' d Dif_Register_Device) (\<lambda>_.
    andthen (reading (\<lambda>w. device_instance_id os w d)) (\<lambda>instance_id.
    andthen (reading (device_install_requires_reboot os d)) (\<lambda>reboot.
    ok \<lparr>cr_instance_id = instance_id, cr_reboot_required = reboot\<rparr>)))))))"

record driver_update_result =
  du_updated :: bool
  du_reboot_required :: bool

definition update_api :: string
  where "update_api = ''UpdateDriverForPlugAndPlayDevicesW''"

definition untrusted_publisher_text :: "u32 \<Rightarrow> string"
  where "untrusted_publisher_text e =
    (if e = 0xE0000243 then
       '': the driver package'' @ [CHR 0x27] @ ''s publisher was not established as trusted on this machine '' @
       ''(declined at an earlier prompt or listed under LocalMachine'' @ [backslash] @ ''Disallowed), so the '' @
       ''non-interactive install cannot accept it. Remove it from Disallowed if present and '' @
       ''install the publisher certificate into LocalMachine'' @ [backslash] @ ''TrustedPublisher, then retry.''
     else
       '': the driver package'' @ [CHR 0x27] @ ''s publisher is not trusted on this machine, so the non-interactive '' @
       ''install cannot accept it. Install the publisher certificate into '' @
       ''LocalMachine'' @ [backslash] @ ''TrustedPublisher (tools'' @ [backslash] @
       ''trust-test-certificate.ps1 for a local test package), then retry the setup.'')"

definition update_refusal :: "u32 \<Rightarrow> setup_error"
  where "update_refusal e =
    (case classify_driver_update False e of
       Update_Publisher_Not_Trusted \<Rightarrow>
         Refused (error_text (Win32_Failed update_api e) @ untrusted_publisher_text e)
     | Update_Signature_Os_Mismatch \<Rightarrow>
         Refused (error_text (Win32_Failed update_api e) @
           '': the driver package'' @ [CHR 0x27] @ ''s signature targets a different Windows version. '' @
           ''Use a driver package signed for this version of Windows.'')
     | _ \<Rightarrow>
         if e = 0 then
           Refused (update_api @ '' (non-interactive) returned FALSE without a Win32 error'')
         else Win32_Failed (update_api @ '' (non-interactive)'') e)"

definition update_driver :: "('w, 'd, 'i, 'h) setup_os \<Rightarrow> string \<Rightarrow> ('w, 'd, 'h, driver_update_result) tool_action"
  where "update_driver os inf_path s =
    (case os_update_driver os (ss_world s) k_root_hardware_id inf_path of (w, succeeded, last_error, reboot) \<Rightarrow>
      let s = (logged (Driver_Updated (ss_world s) inf_path) s)\<lparr>ss_world := w\<rparr>;
          e = (if succeeded then 0 else last_error)
      in case classify_driver_update succeeded e of
           Update_Installed \<Rightarrow> (Inr \<lparr>du_updated = True, du_reboot_required = reboot\<rparr>, s)
         | Update_Declined \<Rightarrow> (Inr \<lparr>du_updated = False, du_reboot_required = False\<rparr>, s)
         | _ \<Rightarrow> (Inl (update_refusal e), s))"

record remove_device_result =
  rm_removed :: bool
  rm_reboot_required :: bool

text \<open>The check every operation on an opened node makes before it changes it.\<close>

definition require_owned :: "('w, 'd, 'i, 'h) setup_os \<Rightarrow> string \<Rightarrow> 'd \<Rightarrow> ('w, 'd, 'h, unit) tool_action"
  where "require_owned os refusal d =
    andthen (reading (\<lambda>w. is_our_root_device os w d)) (\<lambda>ours.
      if ours then ok () else throw (Refused refusal))"

definition create_info_list :: "('w, 'd, 'i, 'h) setup_os \<Rightarrow> ('w, 'd, 'h, unit) tool_action"
  where "create_info_list os = reading (\<lambda>w. or_throw ''SetupDiCreateDeviceInfoList'' (os_create_set os w))"

definition remove_opened :: "('w, 'd, 'i, 'h) setup_os \<Rightarrow> string \<Rightarrow> ('w, 'd, 'h, remove_device_result) tool_action"
  where "remove_opened os instance_id s =
    (case os_open_info os (ss_world s) instance_id of
       Inl e \<Rightarrow>
         if e = error_no_such_devinst \<or> e = error_file_not_found
         then (Inr \<lparr>rm_removed = False, rm_reboot_required = False\<rparr>, s)
         else (Inl (Win32_Failed ''SetupDiOpenDeviceInfoW'' e), s)
     | Inr d \<Rightarrow>
         andthen (require_owned os ''refusing to remove a device that is not the Vibeshine root source node'' d) (\<lambda>_.
         andthen (remove_open_device os d) (\<lambda>reboot.
         ok \<lparr>rm_removed = True, rm_reboot_required = reboot\<rparr>)) s)"

definition remove_device_instance :: "('w, 'd, 'i, 'h) setup_os \<Rightarrow> string \<Rightarrow> ('w, 'd, 'h, remove_device_result) tool_action"
  where "remove_device_instance os instance_id =
    andthen (create_info_list os) (\<lambda>_. remove_opened os instance_id)"

record reactivate_device_result =
  ra_reenumerated :: bool
  ra_restarted :: bool
  ra_reboot_required :: bool

definition locate_devnode :: "('w, 'd, 'i, 'h) setup_os \<Rightarrow> string \<Rightarrow> ('w, 'd, 'h, 'd) tool_action"
  where "locate_devnode os instance_id = reading (\<lambda>w.
    case os_locate os w instance_id of
      Inl r \<Rightarrow> Inl (Config_Failed ''CM_Locate_DevNodeW'' r)
    | Inr n \<Rightarrow> Inr n)"

definition reenumerate_devnode :: "('w, 'd, 'i, 'h) setup_os \<Rightarrow> 'd \<Rightarrow> ('w, 'd, 'h, unit) tool_action"
  where "reenumerate_devnode os n s =
    (case os_reenumerate os (ss_world s) n of (w, r) \<Rightarrow>
      (if r \<noteq> 0 then Inl (Config_Failed ''CM_Reenumerate_DevNode'' r) else Inr (),
       (logged (Reenumerated (ss_world s) n) s)\<lparr>ss_world := w\<rparr>))"

definition open_device_info :: "('w, 'd, 'i, 'h) setup_os \<Rightarrow> string \<Rightarrow> ('w, 'd, 'h, 'd) tool_action"
  where "open_device_info os instance_id =
    reading (\<lambda>w. got ''SetupDiOpenDeviceInfoW'' (os_open_info os w instance_id))"

definition set_change_params :: "('w, 'd, 'i, 'h) setup_os \<Rightarrow> 'd \<Rightarrow> state_change \<Rightarrow> ('w, 'd, 'h, unit) tool_action"
  where "set_change_params os d c =
    set_class_install_params os ''SetupDiSetClassInstallParamsW(DIF_PROPERTYCHANGE)'' d (Dif_Property_Change c)"

definition call_change :: "('w, 'd, 'i, 'h) setup_os \<Rightarrow> 'd \<Rightarrow> state_change \<Rightarrow> ('w, 'd, 'h, unit) tool_action"
  where "call_change os d c =
    call_class_installer os ''SetupDiCallClassInstaller(DIF_PROPERTYCHANGE)'' d (Dif_Property_Change c)"

definition reactivate_device_instance ::
    "('w, 'd, 'i, 'h) setup_os \<Rightarrow> string \<Rightarrow> ('w, 'd, 'h, reactivate_device_result) tool_action"
  where "reactivate_device_instance os instance_id =
    andthen (locate_devnode os instance_id) (\<lambda>n.
    andthen (reenumerate_devnode os n) (\<lambda>_.
    andthen (create_info_list os) (\<lambda>_.
    andthen (open_device_info os instance_id) (\<lambda>d.
    andthen (require_owned os ''refusing to restart a device that is not the Vibeshine root source node'' d) (\<lambda>_.
    andthen (set_change_params os d Dics_Prop_Change) (\<lambda>_.
    andthen (call_change os d Dics_Prop_Change) (\<lambda>_.
    andthen (reading (device_install_requires_reboot os d)) (\<lambda>reboot.
    ok \<lparr>ra_reenumerated = True, ra_restarted = True, ra_reboot_required = reboot\<rparr>))))))))"

record reactivate_root_devices_result =
  rr_reenumerated :: u32
  rr_restarted :: u32
  rr_reboot_required :: bool

fun reactivate_loop :: "('w, 'd, 'i, 'h) setup_os \<Rightarrow> reactivate_root_devices_result \<Rightarrow> root_device_state list \<Rightarrow>
    ('w, 'd, 'h, reactivate_root_devices_result) tool_action"
  where
    "reactivate_loop os result [] s = (Inr result, s)"
  | "reactivate_loop os result (n # ns) s =
      (case reactivate_device_instance os (rd_instance_id n) s of
         (Inl x, s) \<Rightarrow> (Inl x, s)
       | (Inr a, s) \<Rightarrow>
           reactivate_loop os
             \<lparr>rr_reenumerated = rr_reenumerated result + (if ra_reenumerated a then 1 else 0),
              rr_restarted = rr_restarted result + (if ra_restarted a then 1 else 0),
              rr_reboot_required = rr_reboot_required result \<or> ra_reboot_required a\<rparr> ns s)"

definition reactivate_owned_root_devices ::
    "('w, 'd, 'i, 'h) setup_os \<Rightarrow> ('w, 'd, 'h, reactivate_root_devices_result) tool_action"
  where "reactivate_owned_root_devices os =
    andthen (reading (enumerate_root_devices os True))
      (reactivate_loop os \<lparr>rr_reenumerated = 0, rr_restarted = 0, rr_reboot_required = False\<rparr>)"

section \<open>The disable/enable cycle\<close>

record cycle_device_result =
  cy_disabled :: bool
  cy_enabled :: bool
  cy_reboot_required :: bool
  cy_recovery_failed :: bool
  cy_failure_detail :: string

text \<open>The flag says whether the change may have run although the call raised.\<close>

definition issue_owned_device_state_change ::
    "('w, 'd, 'i, 'h) setup_os \<Rightarrow> 'd \<Rightarrow> state_change \<Rightarrow> ('w, 'd, 'h) setup_state \<Rightarrow>
      (setup_error + unit) \<times> bool \<times> ('w, 'd, 'h) setup_state"
  where "issue_owned_device_state_change os d c s =
    (case set_change_params os d c s of
       (Inl x, s) \<Rightarrow> (Inl x, False, s)
     | (Inr _, s) \<Rightarrow> (case call_change os d c s of (r, s) \<Rightarrow> (r, True, s)))"

definition reenable_failed :: string
  where "reenable_failed = ''; exact-node re-enable attempt also failed''"

definition restore_after_failure ::
    "('w, 'd, 'i, 'h) setup_os \<Rightarrow> 'd \<Rightarrow> cycle_device_result \<Rightarrow> ('w, 'd, 'h) setup_state \<Rightarrow>
      cycle_device_result \<times> ('w, 'd, 'h) setup_state"
  where "restore_after_failure os d result s =
    (if \<not> cy_disabled result then (result, s)
     else
       case issue_owned_device_state_change os d Dics_Enable s of
         (Inl x, may, s) \<Rightarrow> (result\<lparr>cy_failure_detail := cy_failure_detail result @ reenable_failed\<rparr>, s)
       | (Inr _, may, s) \<Rightarrow>
           let result = result\<lparr>cy_enabled := True\<rparr>
           in case device_install_requires_reboot os d (ss_world s) of
                Inl x \<Rightarrow> (result\<lparr>cy_failure_detail := cy_failure_detail result @ reenable_failed\<rparr>, s)
              | Inr reboot \<Rightarrow> (result\<lparr>cy_reboot_required := reboot \<or> cy_reboot_required result\<rparr>, s))"

definition cycle_failed ::
    "('w, 'd, 'i, 'h) setup_os \<Rightarrow> 'd \<Rightarrow> bool \<Rightarrow> setup_error \<Rightarrow> cycle_device_result \<Rightarrow> ('w, 'd, 'h) setup_state \<Rightarrow>
      cycle_device_result \<times> ('w, 'd, 'h) setup_state"
  where "cycle_failed os d disable_may_have_run x result =
    restore_after_failure os d
      (result\<lparr>cy_disabled := cy_disabled result \<or> disable_may_have_run,
        cy_recovery_failed := True, cy_failure_detail := error_text x\<rparr>)"

definition cycle_opened ::
    "('w, 'd, 'i, 'h) setup_os \<Rightarrow> 'd \<Rightarrow> ('w, 'd, 'h) setup_state \<Rightarrow> cycle_device_result \<times> ('w, 'd, 'h) setup_state"
  where "cycle_opened os d s =
    (let result = \<lparr>cy_disabled = False, cy_enabled = False, cy_reboot_required = False,
                   cy_recovery_failed = False, cy_failure_detail = []\<rparr>
     in case issue_owned_device_state_change os d Dics_Disable s of
          (Inl x, may, s) \<Rightarrow> cycle_failed os d may x result s
        | (Inr _, may, s) \<Rightarrow>
            let result = result\<lparr>cy_disabled := True\<rparr>
            in case device_install_requires_reboot os d (ss_world s) of
                 Inl x \<Rightarrow> cycle_failed os d may x result s
               | Inr reboot \<Rightarrow>
                   let result = result\<lparr>cy_reboot_required := reboot\<rparr>
                   in case issue_owned_device_state_change os d Dics_Enable s of
                        (Inl x, _, s) \<Rightarrow> cycle_failed os d may x result s
                      | (Inr _, _, s) \<Rightarrow>
                          let result = result\<lparr>cy_enabled := True\<rparr>
                          in case device_install_requires_reboot os d (ss_world s) of
                               Inl x \<Rightarrow> cycle_failed os d may x result s
                             | Inr reboot \<Rightarrow>
                                 (result\<lparr>cy_reboot_required := reboot \<or> cy_reboot_required result\<rparr>, s))"

definition cycle_owned_root_device_instance ::
    "('w, 'd, 'i, 'h) setup_os \<Rightarrow> string \<Rightarrow> ('w, 'd, 'h, cycle_device_result) tool_action"
  where "cycle_owned_root_device_instance os instance_id =
    andthen (create_info_list os) (\<lambda>_.
    andthen (open_device_info os instance_id) (\<lambda>d.
    andthen (require_owned os ''refusing to cycle a device that is not the Vibeshine root source node'' d) (\<lambda>_ s.
    case cycle_opened os d s of (result, s) \<Rightarrow> (Inr result, s))))"

record cycle_root_devices_result =
  cyr_disabled :: u32
  cyr_enabled :: u32
  cyr_reboot_required :: bool
  cyr_recovery_failed :: bool
  cyr_failure_detail :: string

fun cycle_loop :: "('w, 'd, 'i, 'h) setup_os \<Rightarrow> cycle_root_devices_result \<Rightarrow> root_device_state list \<Rightarrow>
    ('w, 'd, 'h, cycle_root_devices_result) tool_action"
  where
    "cycle_loop os result [] s = (Inr result, s)"
  | "cycle_loop os result (n # ns) s =
      (case cycle_owned_root_device_instance os (rd_instance_id n) s of
         (Inl x, s) \<Rightarrow> (Inl x, s)
       | (Inr c, s) \<Rightarrow>
           cycle_loop os
             \<lparr>cyr_disabled = cyr_disabled result + (if cy_disabled c then 1 else 0),
              cyr_enabled = cyr_enabled result + (if cy_enabled c then 1 else 0),
              cyr_reboot_required = cyr_reboot_required result \<or> cy_reboot_required c,
              cyr_recovery_failed = cyr_recovery_failed result \<or> cy_recovery_failed c,
              cyr_failure_detail =
                (if cy_recovery_failed c \<and> cyr_failure_detail result = [] then cy_failure_detail c
                 else cyr_failure_detail result)\<rparr> ns s)"

definition cycle_owned_root_devices :: "('w, 'd, 'i, 'h) setup_os \<Rightarrow> ('w, 'd, 'h, cycle_root_devices_result) tool_action"
  where "cycle_owned_root_devices os =
    andthen (reading (enumerate_root_devices os True))
      (cycle_loop os \<lparr>cyr_disabled = 0, cyr_enabled = 0, cyr_reboot_required = False,
        cyr_recovery_failed = False, cyr_failure_detail = []\<rparr>)"

end
