(* ===== verification/SetupCommands.thy ===== *)
theory SetupCommands
  imports Installer
begin

text \<open>
  The commands of the device-setup tool: \<^theory_text>\<open>run_install\<close> with its two
  recovery tiers, its attestation and its rollback, \<^theory_text>\<open>run_remove\<close>, the
  status report and the exit codes of \<^theory_text>\<open>wmain\<close>.
\<close>

section \<open>Installation\<close>

text \<open>The locals of \<^theory_text>\<open>run_install\<close>.\<close>

record install_run =
  ir_created :: bool
  ir_created_instance :: string
  ir_updated :: bool
  ir_reboot_required :: bool
  ir_requires_live_reload :: bool
  ir_ready :: bool
  ir_reactivation_attempted :: bool
  ir_reactivation_reboot_required :: bool
  ir_device_cycle_attempted :: bool
  ir_device_cycle_reboot_required :: bool
  ir_device_cycle_succeeded :: bool
  ir_selected_driver_verified :: bool
  ir_owned_reload_verified :: bool
  ir_rolled_back :: bool
  ir_rollback_reboot_required :: bool

text \<open>What is checked before the machine is touched: the path of the package and the version
  it promises.\<close>

definition check_package :: "('w, 'd, 'i, 'h) setup_os \<Rightarrow> string \<Rightarrow> ('w, 'd, 'h, string \<times> string) tool_action"
  where "check_package os inf_path =
    andthen (reading (require_elevation os)) (\<lambda>_.
    andthen (reading (absolute_existing_path os inf_path)) (\<lambda>absolute_inf.
    andthen (reading (\<lambda>_. validate_owned_inf_path absolute_inf)) (\<lambda>_.
    andthen (reading (driver_version_from_inf os absolute_inf)) (\<lambda>expected.
    ok (absolute_inf, expected)))))"

definition create_if_none :: "('w, 'd, 'i, 'h) setup_os \<Rightarrow> string \<Rightarrow> ('w, 'd, 'h, created_root_device option) tool_action"
  where "create_if_none os absolute_inf =
    andthen (reading (enumerate_root_devices os True)) (\<lambda>devices.
      if devices = [] then andthen (create_root_device os absolute_inf) (\<lambda>created. ok (Some created))
      else ok None)"

text \<open>A failed update takes a node created for it along; what that removal raises is
  dropped.\<close>

definition update_or_roll_back ::
    "('w, 'd, 'i, 'h) setup_os \<Rightarrow> string \<Rightarrow> created_root_device option \<Rightarrow> ('w, 'd, 'h, driver_update_result) tool_action"
  where "update_or_roll_back os absolute_inf created =
    catching (update_driver os absolute_inf) (\<lambda>x s.
      case created of
        None \<Rightarrow> (Inl x, s)
      | Some c \<Rightarrow> (Inl x, snd (remove_device_instance os (cr_instance_id c) s)))"

definition first_run :: "created_root_device option \<Rightarrow> driver_update_result \<Rightarrow> bool \<Rightarrow> install_run"
  where "first_run created update ready =
    (let reboot = (case created of None \<Rightarrow> False | Some c \<Rightarrow> cr_reboot_required c) \<or> du_reboot_required update
     in \<lparr>ir_created = (created \<noteq> None),
         ir_created_instance = (case created of None \<Rightarrow> [] | Some c \<Rightarrow> cr_instance_id c),
         ir_updated = du_updated update, ir_reboot_required = reboot,
         ir_requires_live_reload = (reboot \<or> du_updated update), ir_ready = ready,
         ir_reactivation_attempted = False, ir_reactivation_reboot_required = False,
         ir_device_cycle_attempted = False, ir_device_cycle_reboot_required = False,
         ir_device_cycle_succeeded = False, ir_selected_driver_verified = False,
         ir_owned_reload_verified = False, ir_rolled_back = False, ir_rollback_reboot_required = False\<rparr>)"

definition retry_failed :: "string \<Rightarrow> string \<Rightarrow> ('w, 'd, 'h) setup_state \<Rightarrow> ('w, 'd, 'h) setup_state"
  where "retry_failed what detail =
    logged (Err_Line (''Vibeshine VHF gamepad source-device '' @ what @ '' retry failed: '' @ detail))"

text \<open>The wait that ends a tier: its exception is reported, and the tier keeps what it had
  found so far.\<close>

definition wait_again :: "('w, 'd, 'i, 'h) setup_os \<Rightarrow> string \<Rightarrow> install_run \<Rightarrow> ('w, 'd, 'h) setup_state \<Rightarrow>
    install_run \<times> ('w, 'd, 'h) setup_state"
  where "wait_again os what r s =
    (case wait_for_source_device_interface os s of
       (Inl x, s) \<Rightarrow> (r, retry_failed what (error_text x) s)
     | (Inr ready, s) \<Rightarrow> (r\<lparr>ir_ready := ready\<rparr>, s))"

definition reactivation_tier :: "('w, 'd, 'i, 'h) setup_os \<Rightarrow> install_run \<Rightarrow> ('w, 'd, 'h) setup_state \<Rightarrow>
    install_run \<times> ('w, 'd, 'h) setup_state"
  where "reactivation_tier os r s =
    (if ir_ready r \<and> \<not> ir_requires_live_reload r then (r, s)
     else
       case reactivate_owned_root_devices os s of
         (Inl x, s) \<Rightarrow> (r, retry_failed ''activation'' (error_text x) s)
       | (Inr a, s) \<Rightarrow>
           wait_again os ''activation''
             (r\<lparr>ir_reactivation_attempted := rr_reenumerated a \<noteq> 0 \<or> rr_restarted a \<noteq> 0,
               ir_reactivation_reboot_required := rr_reboot_required a,
               ir_reboot_required := ir_reboot_required r \<or> rr_reboot_required a,
               ir_requires_live_reload := ir_requires_live_reload r \<or> rr_reboot_required a\<rparr>) s)"

definition cycle_tier :: "('w, 'd, 'i, 'h) setup_os \<Rightarrow> install_run \<Rightarrow> ('w, 'd, 'h) setup_state \<Rightarrow>
    install_run \<times> ('w, 'd, 'h) setup_state"
  where "cycle_tier os r s =
    (if ir_ready r \<and> \<not> ir_requires_live_reload r then (r, s)
     else
       case cycle_owned_root_devices os s of
         (Inl x, s) \<Rightarrow> (r, retry_failed ''disable/enable'' (error_text x) s)
       | (Inr c, s) \<Rightarrow>
           let attempted = (cyr_disabled c \<noteq> 0 \<or> cyr_enabled c \<noteq> 0);
               r = r\<lparr>ir_device_cycle_attempted := attempted,
                     ir_device_cycle_reboot_required := cyr_reboot_required c,
                     ir_device_cycle_succeeded := attempted \<and> \<not> cyr_recovery_failed c,
                     ir_reboot_required := ir_reboot_required r \<or> cyr_reboot_required c,
                     ir_requires_live_reload :=
                       ir_requires_live_reload r \<or> cyr_reboot_required c \<or> cyr_recovery_failed c,
                     ir_owned_reload_verified := ir_owned_reload_verified r \<and> \<not> cyr_recovery_failed c\<rparr>;
               s = (if cyr_recovery_failed c then retry_failed ''disable/enable'' (cyr_failure_detail c) s else s)
           in wait_again os ''disable/enable'' r s)"

definition outcome_of :: "install_run \<Rightarrow> install_outcome"
  where "outcome_of r =
    \<lparr>io_ready = ir_ready r, io_updated = ir_updated r, io_reboot_required = ir_reboot_required r,
     io_cycle_succeeded = ir_device_cycle_succeeded r,
     io_cycle_reboot_required = ir_device_cycle_reboot_required r, io_version_matches = False\<rparr>"

definition other_driver_text :: "bool \<Rightarrow> string"
  where "other_driver_text updated =
    ''Vibeshine VHF gamepad: the owned root device does not run the staged package'' @ [CHR 0x27] @
    ''s DriverVer'' @ (if updated then [] else '' (Windows kept an already-selected package)'')"

definition attest :: "('w, 'd, 'i, 'h) setup_os \<Rightarrow> string \<Rightarrow> install_run \<Rightarrow>
    ('w, 'd, 'h, install_run \<times> install_outcome) tool_action"
  where "attest os expected r s =
    (if \<not> attestation_due (outcome_of r) then (Inr (r, outcome_of r), s)
     else
       case owned_root_devices_match_driver_version os expected (ss_world s) of
         Inl x \<Rightarrow> (Inl x, s)
       | Inr verified \<Rightarrow>
           (Inr (r\<lparr>ir_selected_driver_verified := verified\<rparr>, (outcome_of r)\<lparr>io_version_matches := verified\<rparr>),
            if verified then s else logged (Err_Line (other_driver_text (ir_updated r))) s))"

text \<open>A verified reload makes the reboot Windows asked for unnecessary.\<close>

definition settle :: "install_outcome \<Rightarrow> install_run \<Rightarrow> install_run"
  where "settle outcome r =
    (if reload_verified outcome then r\<lparr>ir_owned_reload_verified := True, ir_reboot_required := False\<rparr> else r)"

definition diagnose :: "('w, 'd, 'i, 'h) setup_os \<Rightarrow> install_run \<Rightarrow> ('w, 'd, 'h, unit) tool_action"
  where "diagnose os r =
    (if \<not> ir_ready r then print_device_diagnostics os ''source_interface_not_ready'' else ok ())"

definition roll_back :: "('w, 'd, 'i, 'h) setup_os \<Rightarrow> install_run \<Rightarrow> ('w, 'd, 'h, install_run) tool_action"
  where "roll_back os r =
    (if \<not> ir_ready r \<and> \<not> ir_reboot_required r \<and> ir_created r then
       andthen (remove_device_instance os (ir_created_instance r)) (\<lambda>rollback.
         if \<not> rm_removed rollback then
           throw (Refused
             ''could not roll back the newly created root device after the source interface failed to start'')
         else ok (r\<lparr>ir_rolled_back := True, ir_rollback_reboot_required := rm_reboot_required rollback,
           ir_reboot_required := ir_reboot_required r \<or> rm_reboot_required rollback\<rparr>))
     else ok r)"

definition print_status :: "('w, 'd, 'i, 'h) setup_os \<Rightarrow> ('w, 'd, 'h, unit) tool_action"
  where "print_status os =
    andthen (reading (enumerate_root_devices os True)) (\<lambda>devices.
    andthen (reading (enumerate_root_devices os False)) (\<lambda>registered.
    andthen (source_device_interface_ready os) (\<lambda>ready s.
      print_out (status_line devices (length registered) ready (ss_last_verdict s)) s)))"

definition install_line :: "install_run \<Rightarrow> string"
  where "install_line r =
    ''{'' @ json_key ''created_root_device'' @ json_bool (ir_created r) @
    '','' @ json_key ''driver_updated'' @ json_bool (ir_updated r) @
    '','' @ json_key ''reboot_required'' @ json_bool (ir_reboot_required r) @
    '','' @ json_key ''reactivation_attempted'' @ json_bool (ir_reactivation_attempted r) @
    '','' @ json_key ''reactivation_reboot_required'' @ json_bool (ir_reactivation_reboot_required r) @
    '','' @ json_key ''device_cycle_attempted'' @ json_bool (ir_device_cycle_attempted r) @
    '','' @ json_key ''device_cycle_reboot_required'' @ json_bool (ir_device_cycle_reboot_required r) @
    '','' @ json_key ''device_cycle_succeeded'' @ json_bool (ir_device_cycle_succeeded r) @
    '','' @ json_key ''selected_driver_verified'' @ json_bool (ir_selected_driver_verified r) @
    '','' @ json_key ''owned_reload_verified'' @ json_bool (ir_owned_reload_verified r) @
    '','' @ json_key ''rolled_back'' @ json_bool (ir_rolled_back r) @
    '','' @ json_key ''rollback_reboot_required'' @ json_bool (ir_rollback_reboot_required r) @
    '','' @ json_key ''ready'' @ json_bool (ir_ready r) @ ''}''"

text \<open>Everything up to the attestation.\<close>

definition install_attempt :: "('w, 'd, 'i, 'h) setup_os \<Rightarrow> string \<Rightarrow> ('w, 'd, 'h, string \<times> install_run) tool_action"
  where "install_attempt os inf_path =
    andthen (check_package os inf_path) (\<lambda>(absolute_inf, expected).
    andthen (create_if_none os absolute_inf) (\<lambda>created.
    andthen (update_or_roll_back os absolute_inf created) (\<lambda>update.
    andthen (wait_for_source_device_interface os) (\<lambda>ready s.
    case reactivation_tier os (first_run created update ready) s of (r, s) \<Rightarrow>
    case cycle_tier os r s of (r, s) \<Rightarrow> (Inr (expected, r), s)))))"

definition install_report :: "('w, 'd, 'i, 'h) setup_os \<Rightarrow> install_outcome \<Rightarrow> install_run \<Rightarrow> ('w, 'd, 'h, int) tool_action"
  where "install_report os outcome r =
    andthen (diagnose os r) (\<lambda>_.
    andthen (roll_back os r) (\<lambda>r.
    andthen (print_status os) (\<lambda>_.
    andthen (print_out (install_line r)) (\<lambda>_.
    ok (install_exit_code (outcome\<lparr>io_reboot_required := ir_reboot_required r\<rparr>))))))"

definition run_install :: "('w, 'd, 'i, 'h) setup_os \<Rightarrow> string \<Rightarrow> ('w, 'd, 'h, int) tool_action"
  where "run_install os inf_path =
    andthen (install_attempt os inf_path) (\<lambda>(expected, r).
    andthen (attest os expected r) (\<lambda>(r, outcome).
    install_report os outcome (settle outcome r)))"

section \<open>Removal, status and the command line\<close>

record remove_run =
  re_removed :: u32
  re_failed :: u32
  re_reboot_required :: bool

fun remove_loop :: "('w, 'd, 'i, 'h) setup_os \<Rightarrow> remove_run \<Rightarrow> root_device_state list \<Rightarrow>
    ('w, 'd, 'h) setup_state \<Rightarrow> remove_run \<times> ('w, 'd, 'h) setup_state"
  where
    "remove_loop os r [] s = (r, s)"
  | "remove_loop os r (n # ns) s =
      (case remove_device_instance os (rd_instance_id n) s of
         (Inl x, s) \<Rightarrow>
           remove_loop os (r\<lparr>re_failed := re_failed r + 1\<rparr>) ns
             (logged (Err_Line (''remove: '' @ rd_instance_id n @ '': '' @ error_text x)) s)
       | (Inr result, s) \<Rightarrow>
           remove_loop os
             (r\<lparr>re_removed := re_removed r + (if rm_removed result then 1 else 0),
               re_reboot_required := re_reboot_required r \<or> rm_reboot_required result\<rparr>) ns s)"

definition remove_line :: "remove_run \<Rightarrow> string"
  where "remove_line r =
    ''{'' @ json_key ''removed_root_devices'' @ decimal (unat (re_removed r)) @
    '','' @ json_key ''failed_root_devices'' @ decimal (unat (re_failed r)) @
    '','' @ json_key ''reboot_required'' @ json_bool (re_reboot_required r) @ ''}''"

definition remove_all :: "('w, 'd, 'i, 'h) setup_os \<Rightarrow> root_device_state list \<Rightarrow> ('w, 'd, 'h, int) tool_action"
  where "remove_all os devices s =
    (case remove_loop os \<lparr>re_removed = 0, re_failed = 0, re_reboot_required = False\<rparr> devices s of (r, s) \<Rightarrow>
      (Inr (if re_failed r \<noteq> 0 then 1 else if re_reboot_required r then k_exit_reboot else 0),
       logged (Out_Line (remove_line r)) s))"

definition run_remove :: "('w, 'd, 'i, 'h) setup_os \<Rightarrow> ('w, 'd, 'h, int) tool_action"
  where "run_remove os =
    andthen (reading (require_elevation os)) (\<lambda>_.
    andthen (reading (enumerate_root_devices os False)) (remove_all os))"

definition run_status :: "('w, 'd, 'i, 'h) setup_os \<Rightarrow> ('w, 'd, 'h, int) tool_action"
  where "run_status os =
    andthen (print_status os) (\<lambda>_.
    andthen (reading (enumerate_root_devices os True)) (\<lambda>devices.
    andthen (source_device_interface_ready os) (\<lambda>ready.
    ok (if ready then 0 else if devices = [] then 2 else 3))))"

definition print_usage :: "('w, 'd, 'h) setup_state \<Rightarrow> ('w, 'd, 'h) setup_state"
  where "print_usage s =
    logged (Err_Line ''  VibeshineVhfGamepadDeviceSetup.exe remove'')
    (logged (Err_Line ''  VibeshineVhfGamepadDeviceSetup.exe status'')
    (logged (Err_Line ''  VibeshineVhfGamepadDeviceSetup.exe install --inf <path>'')
    (logged (Err_Line ''Usage:'') s)))"

text \<open>The arguments behind the program's name.\<close>

definition dispatch :: "('w, 'd, 'i, 'h) setup_os \<Rightarrow> string list \<Rightarrow> ('w, 'd, 'h, int) tool_action"
  where "dispatch os args s =
    (if args = [''status''] then run_status os s
     else if args = [''remove''] then run_remove os s
     else
       case args of
         [command, option, path] \<Rightarrow>
           if command = ''install'' \<and> option = ''--inf'' then run_install os path s
           else (Inr 64, print_usage s)
       | _ \<Rightarrow> (Inr 64, print_usage s))"

definition wmain :: "('w, 'd, 'i, 'h) setup_os \<Rightarrow> string list \<Rightarrow> ('w, 'd, 'h) setup_state \<Rightarrow> int \<times> ('w, 'd, 'h) setup_state"
  where "wmain os args s =
    (case dispatch os args s of
       (Inl x, s) \<Rightarrow>
         (1, logged (Err_Line (''Vibeshine VHF gamepad device setup failed: '' @ error_text x)) s)
     | (Inr code, s) \<Rightarrow> (code, s))"

end
