(* ===== verification/SetupDemo.thy ===== *)
theory SetupDemo
  imports SetupCommands
begin

text \<open>
  A small machine for the device-setup tool: one foreign device, and the tool's node when it is
  registered. The node's interface answers while the node is enabled, and the machine can refuse
  to disable or to enable it. The witnesses of the tool's properties run on it.
\<close>

record demo_machine =
  dm_present :: bool
  dm_enabled :: bool
  dm_version :: string
  dm_refuses :: "state_change list"

definition demo_response :: query_info_response
  where "demo_response =
    \<lparr>qi_header = \<lparr>rh_size = 28, rh_version = 2, rh_reserved = 0\<rparr>, qi_minimum_version = 2,
     qi_maximum_version = 2, qi_available_profiles = 0, qi_available_features = 0,
     qi_maximum_controllers = 16,
     qi_counters = \<lparr>fc_haptic_evicted = 0, fc_settings_evicted = 0, fc_transitions_dropped = 0,
       fc_unknown_commands = 0\<rparr>\<rparr>"

fun demo_installer :: "demo_machine \<Rightarrow> install_function \<Rightarrow> demo_machine \<times> u32 option"
  where
    "demo_installer m Dif_Register_Device = (m\<lparr>dm_present := True, dm_enabled := True\<rparr>, None)"
  | "demo_installer m Dif_Remove = (m\<lparr>dm_present := False\<rparr>, None)"
  | "demo_installer m (Dif_Property_Change c) =
      (if c \<in> set (dm_refuses m) then (m, Some 5)
       else (m\<lparr>dm_enabled := (c \<noteq> Dics_Disable)\<rparr>, None))"

text \<open>Device 0 is the tool's node.\<close>

definition setup_demo_os :: "(demo_machine, nat, unit, unit) setup_os"
  where "setup_demo_os =
    \<lparr>os_open_process_token = (\<lambda>m. None),
     os_token_elevation = (\<lambda>m. Inr 1),
     os_full_path_size = (\<lambda>m p. (length p + 1, 0)),
     os_full_path = (\<lambda>m p n. (length p, p, 0)),
     os_file_attributes = (\<lambda>m p. 0x20),
     os_open_inf = (\<lambda>m p. None),
     os_find_driver_ver = (\<lambda>m p. None),
     os_driver_ver_size = (\<lambda>m p. (False, 122, 8)),
     os_driver_ver = (\<lambda>m p n. Inr ''1.2.3.4''),
     os_registry_size = (\<lambda>m d p. (False, 122, 60)),
     os_registry_value = (\<lambda>m d p n. case p of
        Spdrp_Hardware_Id \<Rightarrow> (True, Reg_Multi_Sz, if d = 0 then k_root_hardware_id else ''USB'')
      | Spdrp_Enumerator_Name \<Rightarrow> (True, Reg_Sz, ''ROOT'')),
     os_instance_id_size = (\<lambda>m d. (False, 122, 34)),
     os_instance_id = (\<lambda>m d n. Inr (k_root_instance_prefix @ ''0000'')),
     os_version_size = (\<lambda>m d. (False, 122, 16, True)),
     os_version = (\<lambda>m d n. (True, 0, True, dm_version m)),
     os_class_devices = (\<lambda>m present. Inr (if dm_present m then [1, 0] else [1], 259)),
     os_devnode_status = (\<lambda>m d. (0, 0x180200A, 0)),
     os_interfaces = (\<lambda>m. Inr (if dm_present m \<and> dm_enabled m then [()] else [], 259)),
     os_detail_size = (\<lambda>m i. (False, 122, 60)),
     os_detail = (\<lambda>m i n. Inr (''interface'', 0)),
     os_inf_class = (\<lambda>m p. None),
     os_create_set = (\<lambda>m. None),
     os_open_info = (\<lambda>m i. if dm_present m then Inr 0 else Inl 0xE000020B),
     os_install_flags = (\<lambda>m d. Inr 0),
     os_locate = (\<lambda>m i. Inr 0),
     os_create_info = (\<lambda>m i t. (m, Inr 0)),
     os_set_hardware_id = (\<lambda>m d t. (m, None)),
     os_set_install_params = (\<lambda>m d f. (m, None)),
     os_call_installer = (\<lambda>m d f. demo_installer m f),
     os_update_driver = (\<lambda>m i p. (m\<lparr>dm_version := ''1.2.3.4''\<rparr>, True, 0, False)),
     os_reenumerate = (\<lambda>m d. (m, 0)),
     os_sleep = (\<lambda>m n. m),
     os_create_thread = (\<lambda>m. (m, True)),
     os_wait_thread = (\<lambda>m n. (m, True)),
     os_cancel_open = (\<lambda>m. m),
     os_create_file = (\<lambda>m p. (m, Inr ())),
     os_close_handle = (\<lambda>m h. m),
     os_create_event = (\<lambda>m. True),
     os_query_info = (\<lambda>m h r. (m, Io_Done demo_response 28)),
     os_wait_event = (\<lambda>m n. (m, True)),
     os_cancel_io = (\<lambda>m h. m),
     os_overlapped_result = (\<lambda>m h. Some (demo_response, 28))\<rparr>"

definition demo_start :: "demo_machine \<Rightarrow> (demo_machine, nat, unit) setup_state"
  where "demo_start m =
    \<lparr>ss_world = m, ss_last_verdict = Probe_Absent, ss_pending = None, ss_probes = 0, ss_log = []\<rparr>"

definition demo_empty :: demo_machine
  where "demo_empty = \<lparr>dm_present = False, dm_enabled = False, dm_version = ''0.9'', dm_refuses = []\<rparr>"

definition demo_node :: "state_change list \<Rightarrow> demo_machine"
  where "demo_node refused = \<lparr>dm_present = True, dm_enabled = True, dm_version = ''0.9'', dm_refuses = refused\<rparr>"

text \<open>The kinds of the events, without the machines and the lines.\<close>

fun event_kind :: "('w, 'd) setup_event \<Rightarrow> install_function option"
  where
    "event_kind (Installer_Called w d f) = Some f"
  | "event_kind _ = None"

lemma demo_owned: "is_our_root_device setup_demo_os m 0 = Inr True"
  by code_simp

lemma setup_demo_foreign: "is_our_root_device setup_demo_os m 1 = Inr False"
  by code_simp

lemma demo_identity: "is_our_root_device setup_demo_os m d = Inr (d = 0)"
proof (cases "d = 0")
  case False
  have "device_has_our_hardware_id setup_demo_os m d = device_has_our_hardware_id setup_demo_os m 1"
    using False by (simp add: device_has_our_hardware_id_def setup_demo_os_def)
  also have "\<dots> = False" by code_simp
  finally show ?thesis using False by (simp add: is_our_root_device_def)
qed (simp add: demo_owned)

lemma demo_fields [simp]:
  "os_open_process_token setup_demo_os = (\<lambda>m. None)"
  "os_token_elevation setup_demo_os = (\<lambda>m. Inr 1)"
  "os_full_path_size setup_demo_os = (\<lambda>m p. (length p + 1, 0))"
  "os_full_path setup_demo_os = (\<lambda>m p n. (length p, p, 0))"
  "os_file_attributes setup_demo_os = (\<lambda>m p. 0x20)"
  "os_open_inf setup_demo_os = (\<lambda>m p. None)"
  "os_find_driver_ver setup_demo_os = (\<lambda>m p. None)"
  "os_driver_ver_size setup_demo_os = (\<lambda>m p. (False, 122, 8))"
  "os_driver_ver setup_demo_os = (\<lambda>m p n. Inr ''1.2.3.4'')"
  "os_version_size setup_demo_os = (\<lambda>m d. (False, 122, 16, True))"
  "os_version setup_demo_os = (\<lambda>m d n. (True, 0, True, dm_version m))"
  "os_class_devices setup_demo_os = (\<lambda>m present. Inr (if dm_present m then [1, 0] else [1], 259))"
  "os_devnode_status setup_demo_os = (\<lambda>m d. (0, 0x180200A, 0))"
  "os_interfaces setup_demo_os = (\<lambda>m. Inr (if dm_present m \<and> dm_enabled m then [()] else [], 259))"
  "os_detail_size setup_demo_os = (\<lambda>m i. (False, 122, 60))"
  "os_detail setup_demo_os = (\<lambda>m i n. Inr (''interface'', 0))"
  "os_inf_class setup_demo_os = (\<lambda>m p. None)"
  "os_create_set setup_demo_os = (\<lambda>m. None)"
  "os_open_info setup_demo_os = (\<lambda>m i. if dm_present m then Inr 0 else Inl 0xE000020B)"
  "os_install_flags setup_demo_os = (\<lambda>m d. Inr 0)"
  "os_locate setup_demo_os = (\<lambda>m i. Inr 0)"
  "os_create_info setup_demo_os = (\<lambda>m i t. (m, Inr 0))"
  "os_set_hardware_id setup_demo_os = (\<lambda>m d t. (m, None))"
  "os_set_install_params setup_demo_os = (\<lambda>m d f. (m, None))"
  "os_call_installer setup_demo_os = (\<lambda>m d f. demo_installer m f)"
  "os_update_driver setup_demo_os = (\<lambda>m i p. (m\<lparr>dm_version := ''1.2.3.4''\<rparr>, True, 0, False))"
  "os_reenumerate setup_demo_os = (\<lambda>m d. (m, 0))"
  "os_sleep setup_demo_os = (\<lambda>m n. m)"
  "os_create_thread setup_demo_os = (\<lambda>m. (m, True))"
  "os_wait_thread setup_demo_os = (\<lambda>m n. (m, True))"
  "os_cancel_open setup_demo_os = (\<lambda>m. m)"
  "os_create_file setup_demo_os = (\<lambda>m p. (m, Inr ()))"
  "os_close_handle setup_demo_os = (\<lambda>m h. m)"
  "os_create_event setup_demo_os = (\<lambda>m. True)"
  "os_query_info setup_demo_os = (\<lambda>m h r. (m, Io_Done demo_response 28))"
  "os_wait_event setup_demo_os = (\<lambda>m n. (m, True))"
  "os_cancel_io setup_demo_os = (\<lambda>m h. m)"
  "os_overlapped_result setup_demo_os = (\<lambda>m h. Some (demo_response, 28))"
  by (simp_all add: setup_demo_os_def)

lemma demo_instance: "device_instance_id setup_demo_os m d = Inr (k_root_instance_prefix @ ''0000'')"
  by code_simp

lemma demo_enumerates:
  "enumerate_root_devices setup_demo_os present m =
    Inr (if dm_present m
         then [\<lparr>rd_instance_id = k_root_instance_prefix @ ''0000'', rd_status = 0x180200A, rd_problem = 0\<rparr>] else [])"
  by (simp add: enumerate_root_devices_def got_def demo_owned setup_demo_foreign demo_instance root_state_def
      no_more_items_def del: One_nat_def)

lemmas setup_demo_run = andthen_def reading_def ok_def throw_def require_elevation_def is_elevated_def or_throw_def got_def
  demo_owned setup_demo_foreign demo_instance demo_enumerates

lemma demo_answers [simp]:
  "protocol_query_response_is_valid demo_response 28"
  by code_simp

lemma setup_demo_ready:
  "source_device_interface_ready setup_demo_os s =
    (if dm_present (ss_world s) \<and> dm_enabled (ss_world s)
     then if ss_pending s = None
       then (Inr True, s\<lparr>ss_last_verdict := Probe_Answered\<rparr>)
       else (Inr True, s\<lparr>ss_last_verdict := Probe_Answered, ss_pending := None, ss_probes := ss_probes s - 1\<rparr>)
     else (Inr False, s))"
  by (auto simp: source_device_interface_ready_def no_more_items_def error_insufficient_buffer_def got_def demo_owned
      source_interface_accepts_protocol_def reap_completed_protocol_query_probe_def Let_def in_world_def new_probe_def
      delete_probe_def await_open_def open_protocol_device_worker_def query_opened_def conclude_def answered_if_def
      interface_ready_def split: option.split protocol_query_probe.split)

definition demo_removed :: "(demo_machine, nat, unit) setup_state"
  where "demo_removed = (demo_start (demo_node []))\<lparr>ss_world := (demo_node [])\<lparr>dm_present := False\<rparr>,
    ss_log := [Installer_Called (demo_node []) 0 Dif_Remove,
      Out_Line (remove_line \<lparr>re_removed = 1, re_failed = 0, re_reboot_required = False\<rparr>)]\<rparr>"

lemma demo_removal: "wmain setup_demo_os [''remove''] (demo_start (demo_node [])) = (0, demo_removed)"
  by (simp add: wmain_def dispatch_def run_remove_def remove_all_def setup_demo_run demo_start_def demo_node_def demo_removed_def
      remove_device_instance_def create_info_list_def remove_opened_def require_owned_def remove_open_device_def
      set_class_install_params_def call_class_installer_def device_install_requires_reboot_def logged_def)

lemma demo_attempts: "k_interface_wait_milliseconds div k_interface_poll_milliseconds = Suc 49"
  by (simp add: k_interface_wait_milliseconds_def k_interface_poll_milliseconds_def)

lemma demo_waits:
  "dm_present (ss_world s) \<Longrightarrow> dm_enabled (ss_world s) \<Longrightarrow> ss_pending s = None \<Longrightarrow>
    wait_for_source_device_interface setup_demo_os s = (Inr True, s\<lparr>ss_last_verdict := Probe_Answered\<rparr>)"
  by (simp only: wait_for_source_device_interface_def demo_attempts wait_loop.simps setup_demo_ready if_True simp_thms
      prod.case sum.case bool.case)

end
