(* ===== verification/SetupSafety.thy ===== *)
theory SetupSafety
  imports SetupDemo
begin

text \<open>
  What the device-setup tool may do to the machine: every event a command logs satisfies a
  predicate when each step's events do, and the step that removes or changes a node runs behind
  the check that the node is the tool's own.
\<close>

section \<open>Events of an action\<close>

definition appends :: "(('w, 'd) setup_event \<Rightarrow> bool) \<Rightarrow> ('w, 'd, 'h) setup_state \<Rightarrow> ('w, 'd, 'h) setup_state \<Rightarrow> bool"
  where "appends P s s' \<longleftrightarrow> (\<exists>es. ss_log s' = ss_log s @ es \<and> list_all P es)"

definition emits :: "(('w, 'd) setup_event \<Rightarrow> bool) \<Rightarrow> ('w, 'd, 'h, 'a) tool_action \<Rightarrow> bool"
  where "emits P m \<longleftrightarrow> (\<forall>s. appends P s (snd (m s)))"

named_theorems emit_intros "the events of an action from those of its parts"

lemma appends_refl [simp]: "appends P s s"
  by (simp add: appends_def)

lemma appends_trans: "appends P a b \<Longrightarrow> appends P b c \<Longrightarrow> appends P a c"
  by (auto simp: appends_def)

lemma appends_logged [simp]: "P e \<Longrightarrow> appends P s (logged e s)"
  by (simp add: appends_def logged_def)

lemma appends_same_log: "ss_log s' = ss_log s \<Longrightarrow> appends P s s'"
  by (simp add: appends_def)

lemma appends_mono: "appends P s s' \<Longrightarrow> (\<And>e. P e \<Longrightarrow> Q e) \<Longrightarrow> appends Q s s'"
  by (auto simp: appends_def list_all_iff)

lemma appends_new: "appends P s s' \<Longrightarrow> e \<in> set (drop (length (ss_log s)) (ss_log s')) \<Longrightarrow> P e"
  by (auto simp: appends_def list_all_iff)

lemma emitsD: "emits P m \<Longrightarrow> m s = (r, s') \<Longrightarrow> appends P s s'"
  unfolding emits_def by (metis snd_conv)

lemma emits_ok [emit_intros]: "emits P (ok a)"
  by (simp add: emits_def ok_def)

lemma emits_throw [emit_intros]: "emits P (throw x)"
  by (simp add: emits_def throw_def)

lemma emits_reading [emit_intros]: "emits P (reading f)"
  by (simp add: emits_def reading_def)

lemma emits_andthen [emit_intros]:
  "emits P m \<Longrightarrow> (\<And>a. emits P (f a)) \<Longrightarrow> emits P (andthen m f)"
  unfolding emits_def andthen_def by (fastforce split: prod.split sum.split intro: appends_trans)

lemma emits_if [emit_intros]: "emits P m \<Longrightarrow> emits P n \<Longrightarrow> emits P (if b then m else n)"
  by simp

lemma emits_print [emit_intros]: "P (Out_Line l) \<Longrightarrow> emits P (print_out l)"
  by (simp add: emits_def print_out_def)

lemma emits_print_err [emit_intros]: "P (Err_Line l) \<Longrightarrow> emits P (print_err l)"
  by (simp add: emits_def print_err_def)

section \<open>Only owned nodes\<close>

text \<open>Windows keeps a node's hardware ids, enumerator and instance id while install parameters
  are set for it or its state is changed.\<close>

definition identity_stable :: "('w, 'd, 'i, 'h) setup_os \<Rightarrow> bool"
  where "identity_stable os \<longleftrightarrow>
    (\<forall>w d f e. is_our_root_device os (fst (os_set_install_params os w d f)) e = is_our_root_device os w e) \<and>
    (\<forall>w d c e. is_our_root_device os (fst (os_call_installer os w d (Dif_Property_Change c))) e =
      is_our_root_device os w e)"

fun touches_owned :: "('w, 'd, 'i, 'h) setup_os \<Rightarrow> ('w, 'd) setup_event \<Rightarrow> bool"
  where
    "touches_owned os (Installer_Called w d f) =
       (f = Dif_Register_Device \<or> is_our_root_device os w d = Inr True)"
  | "touches_owned os _ = True"

definition owned_in :: "('w, 'd, 'i, 'h) setup_os \<Rightarrow> 'd \<Rightarrow> ('w, 'd, 'h) setup_state \<Rightarrow> bool"
  where "owned_in os d s \<longleftrightarrow> is_our_root_device os (ss_world s) d = Inr True"

text \<open>An action on a node known to be owned.\<close>

definition emits_on :: "('w, 'd, 'i, 'h) setup_os \<Rightarrow> 'd \<Rightarrow> ('w, 'd, 'h, 'a) tool_action \<Rightarrow> bool"
  where "emits_on os d m \<longleftrightarrow>
    (\<forall>s. owned_in os d s \<longrightarrow> appends (touches_owned os) s (snd (m s)))"

lemma set_params_owned:
  assumes "identity_stable os" "owned_in os d s" "set_class_install_params os x d f s = (r, s')"
  shows "owned_in os d s' \<and> ss_log s' = ss_log s"
  using assms unfolding identity_stable_def owned_in_def set_class_install_params_def
  by (auto split: prod.splits) (metis fst_conv)

lemma call_installer_emits:
  assumes "call_class_installer os x d f s = (r, s')" "owned_in os d s \<or> f = Dif_Register_Device"
  shows "appends (touches_owned os) s s'"
  using assms by (auto simp: call_class_installer_def owned_in_def appends_def logged_def split: prod.splits)

lemma call_change_owned:
  assumes "identity_stable os" "owned_in os d s" "call_change os d c s = (r, s')"
  shows "owned_in os d s'"
  using assms unfolding identity_stable_def owned_in_def call_change_def call_class_installer_def logged_def
  by (auto split: prod.splits) (metis fst_conv)

lemma issue_owned:
  assumes "identity_stable os" "owned_in os d s" "issue_owned_device_state_change os d c s = (r, may, s')"
  shows "owned_in os d s' \<and> appends (touches_owned os) s s'"
proof -
  obtain r1 s1 where p: "set_change_params os d c s = (r1, s1)" by force
  have o1: "owned_in os d s1" "ss_log s1 = ss_log s"
    using set_params_owned [OF assms(1,2)] p unfolding set_change_params_def by blast+
  show ?thesis
  proof (cases r1)
    case (Inl x)
    with assms(3) p o1 show ?thesis
      by (auto simp: issue_owned_device_state_change_def intro: appends_same_log)
  next
    case (Inr u)
    obtain r2 s2 where c: "call_change os d c s1 = (r2, s2)" by force
    from assms(3) p Inr c have "s' = s2" by (simp add: issue_owned_device_state_change_def)
    moreover have "appends (touches_owned os) s1 s2"
      using call_installer_emits [OF c [unfolded call_change_def]] o1(1) by simp
    then have "appends (touches_owned os) s s2"
      by (rule appends_trans [OF appends_same_log [OF o1(2)]])
    ultimately show ?thesis using call_change_owned [OF assms(1) o1(1) c] by simp
  qed
qed

lemma require_owned_then:
  assumes "\<And>s. owned_in os d s \<Longrightarrow> appends (touches_owned os) s (snd (m s))"
  shows "emits (touches_owned os) (andthen (require_owned os refusal d) (\<lambda>_. m))"
  using assms
  by (auto simp: emits_def andthen_def require_owned_def reading_def ok_def throw_def owned_in_def split: sum.split)

lemma remove_open_emits:
  assumes "identity_stable os" "owned_in os d s"
  shows "appends (touches_owned os) s (snd (remove_open_device os d s))"
proof -
  obtain r1 s1 where p: "set_class_install_params os ''SetupDiSetClassInstallParamsW(DIF_REMOVE)'' d Dif_Remove s = (r1, s1)"
    by force
  have o1: "owned_in os d s1" "ss_log s1 = ss_log s" using set_params_owned [OF assms p] by auto
  obtain r2 s2 where c: "call_class_installer os ''SetupDiCallClassInstaller(DIF_REMOVE)'' d Dif_Remove s1 = (r2, s2)"
    by force
  have "appends (touches_owned os) s s2"
    by (rule appends_trans [OF appends_same_log [OF o1(2)] call_installer_emits [OF c]]) (simp add: o1(1))
  then show ?thesis
    by (cases r1; cases r2) (simp_all add: remove_open_device_def andthen_def p c reading_def o1(2) appends_same_log)
qed

lemma emits_remove [emit_intros]:
  assumes "identity_stable os"
  shows "emits (touches_owned os) (remove_device_instance os instance_id)"
proof -
  have "appends (touches_owned os) s (snd (remove_opened os instance_id s))" for s
  proof (cases "os_open_info os (ss_world s) instance_id")
    case (Inr d)
    have rest: "appends (touches_owned os) t
        (snd (andthen (remove_open_device os d) (\<lambda>reboot. ok \<lparr>rm_removed = True, rm_reboot_required = reboot\<rparr>) t))"
      if "owned_in os d t" for t
      using remove_open_emits [OF assms that] by (auto simp: andthen_def ok_def split: prod.split sum.split)
    show ?thesis
      using require_owned_then [OF rest] by (simp add: remove_opened_def Inr emits_def)
  qed (simp add: remove_opened_def)
  then show ?thesis
    unfolding remove_device_instance_def create_info_list_def
    by (intro emit_intros) (simp add: emits_def)
qed

lemma emits_create [emit_intros]: "emits (touches_owned os) (create_root_device os inf_path)"
proof -
  have "emits (touches_owned os) (create_device_info os)"
    by (auto simp: emits_def create_device_info_def appends_def logged_def split: prod.split)
  moreover have "emits (touches_owned os) (set_hardware_id os d)" for d
    by (auto simp: emits_def set_hardware_id_def appends_def split: prod.split)
  moreover have "emits (touches_owned os) (call_class_installer os x d Dif_Register_Device)" for x d
    unfolding emits_def by (rule allI, rule call_installer_emits [OF prod.collapse [symmetric]]) simp
  ultimately show ?thesis unfolding create_root_device_def by (intro emit_intros)
qed

lemma emits_update [emit_intros]: "emits (touches_owned os) (update_driver os inf_path)"
  by (auto simp: emits_def update_driver_def Let_def appends_def logged_def
      split: prod.split driver_update_verdict.split)

lemma change_then:
  assumes "identity_stable os" "owned_in os d s"
  shows "appends (touches_owned os) s
    (snd (andthen (set_change_params os d c) (\<lambda>_. andthen (call_change os d c) (\<lambda>_. andthen (reading f) (\<lambda>a. ok (g a)))) s))"
proof -
  obtain r1 s1 where p: "set_change_params os d c s = (r1, s1)" by force
  have o1: "owned_in os d s1" "ss_log s1 = ss_log s"
    using set_params_owned [OF assms] p unfolding set_change_params_def by blast+
  obtain r2 s2 where c: "call_change os d c s1 = (r2, s2)" by force
  have "appends (touches_owned os) s s2"
    by (rule appends_trans [OF appends_same_log [OF o1(2)] call_installer_emits [OF c [unfolded call_change_def]]])
      (simp add: o1(1))
  then show ?thesis
    by (cases r1; cases r2)
      (auto simp: andthen_def p c reading_def ok_def o1(2) appends_same_log split: sum.split)
qed

lemma emits_reactivate: 
  assumes "identity_stable os"
  shows "emits (touches_owned os) (reactivate_device_instance os instance_id)"
proof -
  have "emits (touches_owned os) (reenumerate_devnode os n)" for n
    by (auto simp: emits_def reenumerate_devnode_def appends_def logged_def split: prod.split)
  then show ?thesis
    unfolding reactivate_device_instance_def locate_devnode_def create_info_list_def open_device_info_def
    by (intro emit_intros require_owned_then change_then [OF assms])
qed

lemma emits_reactivate_loop:
  assumes "identity_stable os"
  shows "emits (touches_owned os) (reactivate_loop os result ns)"
proof -
  have "appends (touches_owned os) s (snd (reactivate_loop os result ns s))" for s
    using emitsD [OF emits_reactivate [OF assms]]
    by (induction os result ns s rule: reactivate_loop.induct)
      (fastforce split: prod.split sum.split intro: appends_trans)+
  then show ?thesis by (simp add: emits_def)
qed

lemma emits_reactivate_all: "identity_stable os \<Longrightarrow> emits (touches_owned os) (reactivate_owned_root_devices os)"
  unfolding reactivate_owned_root_devices_def by (intro emit_intros emits_reactivate_loop)

lemma restore_emits:
  assumes "identity_stable os" "owned_in os d s"
  shows "appends (touches_owned os) s (snd (restore_after_failure os d result s))"
  using issue_owned [OF assms]
  by (auto simp: restore_after_failure_def Let_def split: prod.split sum.split)

lemma cycle_failed_emits:
  "identity_stable os \<Longrightarrow> owned_in os d s \<Longrightarrow> appends (touches_owned os) s (snd (cycle_failed os d may x result s))"
  unfolding cycle_failed_def by (rule restore_emits)

lemma cycle_opened_emits:
  assumes i: "identity_stable os" and own: "owned_in os d s"
  shows "appends (touches_owned os) s (snd (cycle_opened os d s))"
proof -
  obtain r1 m1 s1 where d1: "issue_owned_device_state_change os d Dics_Disable s = (r1, m1, s1)"
    by (metis prod_cases3)
  note o1 = issue_owned [OF i own d1]
  obtain r2 m2 s2 where d2: "issue_owned_device_state_change os d Dics_Enable s1 = (r2, m2, s2)"
    by (metis prod_cases3)
  note o2 = issue_owned [OF i conjunct1 [OF o1] d2]
  have two: "appends (touches_owned os) s s2" using o1 o2 appends_trans by blast
  have f1: "appends (touches_owned os) s (snd (cycle_failed os d may x result s1))" for may x result
    using appends_trans o1 cycle_failed_emits [OF i] by blast
  have f2: "appends (touches_owned os) s (snd (cycle_failed os d may x result s2))" for may x result
    using appends_trans two o2 cycle_failed_emits [OF i] by blast
  show ?thesis
    by (auto simp: cycle_opened_def Let_def d1 d2 f1 f2 two split: sum.split)
qed

lemma emits_cycle:
  assumes "identity_stable os"
  shows "emits (touches_owned os) (cycle_owned_root_device_instance os instance_id)"
proof -
  have cycle: "emits (touches_owned os) (andthen (require_owned os refusal d)
      (\<lambda>_ s. case cycle_opened os d s of (result, s) \<Rightarrow> (Inr result, s)))" for refusal d
  proof (rule require_owned_then)
    fix s assume "owned_in os d s"
    from cycle_opened_emits [OF assms this]
    show "appends (touches_owned os) s (snd (case cycle_opened os d s of (result, s) \<Rightarrow> (Inr result, s)))"
      by (auto split: prod.split)
  qed
  show ?thesis
    unfolding cycle_owned_root_device_instance_def create_info_list_def open_device_info_def
    by (rule emits_andthen [OF emits_reading])+ (rule cycle)
qed

lemma emits_cycle_loop:
  assumes "identity_stable os"
  shows "emits (touches_owned os) (cycle_loop os result ns)"
proof -
  have "appends (touches_owned os) s (snd (cycle_loop os result ns s))" for s
    using emitsD [OF emits_cycle [OF assms]]
    by (induction os result ns s rule: cycle_loop.induct)
      (fastforce split: prod.split sum.split intro: appends_trans)+
  then show ?thesis by (simp add: emits_def)
qed

lemma emits_cycle_all: "identity_stable os \<Longrightarrow> emits (touches_owned os) (cycle_owned_root_devices os)"
  unfolding cycle_owned_root_devices_def by (intro emit_intros emits_cycle_loop)

section \<open>Probing changes no node\<close>

lemma reap_log [simp]: "ss_log (reap_completed_protocol_query_probe os s) = ss_log s"
  by (simp add: reap_completed_protocol_query_probe_def open_protocol_device_worker_def in_world_def delete_probe_def
      split: option.split protocol_query_probe.split prod.split)

lemma query_opened_log: "ss_log (snd (query_opened os h s)) = ss_log s"
  by (auto simp: query_opened_def in_world_def delete_probe_def conclude_def complete_protocol_query_probe_def Let_def
      split: prod.split io_start.split)

lemma await_open_log: "ss_log (snd (await_open os s)) = ss_log s"
  by (auto simp: await_open_def in_world_def split: prod.split)

lemma accepts_log: "ss_log (snd (source_interface_accepts_protocol os path s)) = ss_log s"
proof -
  have a: "await_open os t = (b, t') \<Longrightarrow> ss_log t' = ss_log t" for b t t'
    using await_open_log [of os t] by simp
  show ?thesis
    by (auto simp: source_interface_accepts_protocol_def Let_def in_world_def new_probe_def delete_probe_def
        conclude_def open_protocol_device_worker_def query_opened_log dest!: a split: prod.splits sum.splits)
qed

lemma interface_loop_log: "ss_log (snd (interface_loop os e is s)) = ss_log s"
proof (induction os e "is" s rule: interface_loop.induct)
  case (2 os e i "is" s)
  have a: "source_interface_accepts_protocol os p s = (b, t) \<Longrightarrow> ss_log t = ss_log s" for p b t
    using accepts_log [of os p s] by simp
  from 2 show ?case
    by (auto dest: a split: prod.splits sum.splits bool.splits)
qed simp

lemma ready_log: "ss_log (snd (source_device_interface_ready os s)) = ss_log s"
  by (simp add: source_device_interface_ready_def interface_loop_log split: sum.split prod.split)

lemma wait_loop_log: "ss_log (snd (wait_loop os n s)) = ss_log s"
proof (induction n arbitrary: s)
  case (Suc n)
  have a: "source_device_interface_ready os s = (b, t) \<Longrightarrow> ss_log t = ss_log s" for b t
    using ready_log [of os s] by simp
  from Suc show ?case by (auto dest: a split: prod.splits sum.splits bool.splits)
qed (simp add: ready_log)

lemma wait_log: "ss_log (snd (wait_for_source_device_interface os s)) = ss_log s"
  by (simp add: wait_for_source_device_interface_def wait_loop_log)

lemma emits_ready [emit_intros]: "emits P (source_device_interface_ready os)"
  by (simp add: emits_def appends_same_log ready_log)

lemma emits_wait [emit_intros]: "emits P (wait_for_source_device_interface os)"
  by (simp add: emits_def appends_same_log wait_log)

section \<open>The commands\<close>


lemma retry_appends [simp]: "appends (touches_owned os) s (retry_failed what e s)"
  by (simp add: retry_failed_def)

lemma wait_again_appends: "appends (touches_owned os) s (snd (wait_again os what r s))"
proof -
  have "appends (touches_owned os) s t" if "wait_for_source_device_interface os s = (b, t)" for b t
    using emitsD [OF emits_wait that] .
  then show ?thesis
    by (auto simp: wait_again_def split: prod.split sum.split intro: appends_trans [OF _ retry_appends])
qed

lemma reactivation_tier_appends:
  assumes "identity_stable os"
  shows "appends (touches_owned os) s (snd (reactivation_tier os r s))"
proof -
  have "appends (touches_owned os) s t" if "reactivate_owned_root_devices os s = (a, t)" for a t
    using emitsD [OF emits_reactivate_all [OF assms] that] .
  then show ?thesis
    by (auto simp: reactivation_tier_def split: prod.split sum.split
        intro: appends_trans [OF _ retry_appends] appends_trans [OF _ wait_again_appends])
qed

lemma cycle_tier_appends:
  assumes "identity_stable os"
  shows "appends (touches_owned os) s (snd (cycle_tier os r s))"
proof -
  have a: "appends (touches_owned os) s t" if "cycle_owned_root_devices os s = (c, t)" for c t
    using emitsD [OF emits_cycle_all [OF assms] that] .
  then have "appends (touches_owned os) s (if b then retry_failed what e t else t)"
    if "cycle_owned_root_devices os s = (c, t)" for b what e c t
    using that by (auto intro: appends_trans [OF _ retry_appends])
  with a show ?thesis
    by (auto simp: cycle_tier_def Let_def split: prod.split sum.split
        intro: appends_trans [OF _ retry_appends] appends_trans [OF _ wait_again_appends])
qed

lemma emits_create_if_none: "emits (touches_owned os) (create_if_none os absolute_inf)"
  unfolding create_if_none_def by (intro emit_intros)

lemma emits_update_or_roll_back:
  assumes "identity_stable os"
  shows "emits (touches_owned os) (update_or_roll_back os absolute_inf created)"
proof -
  have u: "appends (touches_owned os) s t" if "update_driver os absolute_inf s = (a, t)" for s a t
    using emitsD [OF emits_update that] .
  have r: "appends (touches_owned os) t (snd (remove_device_instance os i t))" for t i
    using emits_remove [OF assms] by (simp add: emits_def)
  show ?thesis
    by (auto simp: emits_def update_or_roll_back_def catching_def dest: u
        split: prod.split sum.split option.split intro: appends_trans [OF _ r])
qed

lemma emits_install_attempt:
  assumes "identity_stable os"
  shows "emits (touches_owned os) (install_attempt os inf_path)"
proof -
  have "emits (touches_owned os) (\<lambda>s. case reactivation_tier os r s of (r, s) \<Rightarrow>
      case cycle_tier os r s of (r, s) \<Rightarrow> (Inr (expected, r), s))" for r and expected :: string
  proof (unfold emits_def, rule allI)
    fix s
    obtain r1 s1 where 1: "reactivation_tier os r s = (r1, s1)" by force
    obtain r2 s2 where 2: "cycle_tier os r1 s1 = (r2, s2)" by force
    show "appends (touches_owned os) s (snd (case reactivation_tier os r s of (r, s) \<Rightarrow>
        case cycle_tier os r s of (r, s) \<Rightarrow> (Inr (expected, r), s)))"
      using reactivation_tier_appends [OF assms, of s r] cycle_tier_appends [OF assms, of s1 r1] appends_trans
      by (simp add: 1 2) blast
  qed
  then show ?thesis
    unfolding install_attempt_def check_package_def
    by (auto intro!: emits_andthen emits_reading emits_ok emits_create_if_none emits_wait
        emits_update_or_roll_back [OF assms] split: prod.split)
qed

lemma emits_print_status: "(\<And>l. P (Out_Line l)) \<Longrightarrow> emits P (print_status os)"
  unfolding print_status_def print_out_def
  by (intro emit_intros) (simp add: emits_def)

lemma emits_report:
  assumes "identity_stable os"
  shows "emits (touches_owned os) (install_report os outcome r)"
proof -
  have "emits (touches_owned os) (diagnose os r)"
    by (auto simp: diagnose_def emits_def print_device_diagnostics_def print_err_def print_out_def ok_def
        split: sum.split)
  moreover have "emits (touches_owned os) (roll_back os r)"
    unfolding roll_back_def by (intro emit_intros assms)
  ultimately show ?thesis
    unfolding install_report_def by (intro emit_intros emits_print_status) auto
qed

lemma emits_install:
  assumes "identity_stable os"
  shows "emits (touches_owned os) (run_install os inf_path)"
proof -
  have "emits (touches_owned os) (attest os expected r)" for expected r
    by (auto simp: emits_def attest_def split: sum.split)
  then show ?thesis
    unfolding run_install_def
    by (auto intro!: emits_andthen emits_install_attempt [OF assms] emits_report [OF assms] split: prod.split)
qed

lemma emits_remove_all:
  assumes "identity_stable os"
  shows "emits (touches_owned os) (run_remove os)"
proof -
  have a: "appends (touches_owned os) s t" if "remove_device_instance os i s = (r, t)" for s i r t
    using emitsD [OF emits_remove [OF assms] that] .
  have e: "appends (touches_owned os) s (logged x t)" if "appends (touches_owned os) s t" "touches_owned os x" for s t x
    by (rule appends_trans [OF that(1)]) (simp add: that(2))
  have "appends (touches_owned os) s (snd (remove_loop os r ns s))" for r ns s
  proof (induction ns arbitrary: r s)
    case (Cons n ns)
    obtain res t where r: "remove_device_instance os (rd_instance_id n) s = (res, t)" by force
    show ?case
    proof (cases res)
      case (Inl x)
      then show ?thesis by (simp add: r) (rule appends_trans [OF e [OF a [OF r]] Cons.IH], simp)
    next
      case (Inr x)
      then show ?thesis by (simp add: r) (intro conjI impI appends_trans [OF a [OF r] Cons.IH])
    qed
  qed simp
  then have "emits (touches_owned os) (remove_all os ds)" for ds
    by (simp add: emits_def remove_all_def split_beta e)
  then show ?thesis unfolding run_remove_def by (intro emit_intros)
qed

fun printed :: "('w, 'd) setup_event \<Rightarrow> bool"
  where
    "printed (Out_Line l) = True"
  | "printed (Err_Line l) = True"
  | "printed _ = False"

lemma emits_status: "emits printed (run_status os)"
  unfolding run_status_def by (intro emit_intros emits_print_status) auto

lemma emits_usage: "appends printed s (print_usage s)"
  by (simp add: print_usage_def appends_def logged_def)

lemma printed_touches: "printed e \<Longrightarrow> touches_owned os e"
  by (cases e) auto

lemma emits_dispatch:
  assumes "identity_stable os"
  shows "emits (touches_owned os) (dispatch os args)"
proof -
  have st: "appends (touches_owned os) s (snd (run_status os s))" for s
    using emits_status [of os] by (intro appends_mono [OF _ printed_touches]) (auto simp: emits_def)
  have us: "appends (touches_owned os) s (print_usage s)" for s
    by (rule appends_mono [OF emits_usage printed_touches])
  show ?thesis
    using emits_install [OF assms] emits_remove_all [OF assms]
    by (auto simp: dispatch_def emits_def st us split: list.split)
qed

lemma dispatch_no_command:
  assumes "args \<noteq> [''remove'']" "\<not> (\<exists>p. args = [''install'', ''--inf'', p])"
  shows "appends printed s (snd (dispatch os args s))"
proof (cases "args = [''status'']")
  case True
  then show ?thesis using emits_status [of os] by (simp add: dispatch_def emits_def)
next
  case False
  with assms have "dispatch os args s = (Inr 64, print_usage s)"
    by (auto simp: dispatch_def split: list.split)
  then show ?thesis by (simp add: emits_usage)
qed

lemma wmain_appends:
  assumes "\<And>s. appends P s (snd (dispatch os args s))" "\<And>l. P (Err_Line l)" "wmain os args s = (code, s')"
  shows "appends P s s'"
proof -
  obtain r t where d: "dispatch os args s = (r, t)" by force
  with assms(1) [of s] have "appends P s t" by simp
  then show ?thesis
    using assms(2,3) d appends_trans appends_logged
    by (fastforce simp: wmain_def split: sum.splits)
qed

text \<open>Property C20. The tool changes only its own node: whatever the command line and however
  the calls fail, each removal and each state change it makes is of a device that, on the machine
  it is made on, carries the tool's hardware id, comes from the root enumerator and has the
  tool's instance prefix; and a command line that is neither an installation nor a removal makes
  no change at all.\<close>

theorem only_owned_nodes_changed:
  assumes "identity_stable os" "wmain os args s = (code, s')"
    "e \<in> set (drop (length (ss_log s)) (ss_log s'))"
  shows "(e = Installer_Called w d f \<longrightarrow> f = Dif_Register_Device \<or> is_our_root_device os w d = Inr True) \<and>
    (args \<noteq> [''remove''] \<and> \<not> (\<exists>p. args = [''install'', ''--inf'', p]) \<longrightarrow>
      (\<exists>l. e = Out_Line l \<or> e = Err_Line l))"
proof -
  have "touches_owned os e"
  proof (rule appends_new [OF wmain_appends [OF _ _ assms(2)] assms(3)])
    show "appends (touches_owned os) s (snd (dispatch os args s))" for s
      using emits_dispatch [OF assms(1)] by (simp add: emits_def)
  qed simp
  moreover have "printed e" if "args \<noteq> [''remove'']" "\<not> (\<exists>p. args = [''install'', ''--inf'', p])"
    by (rule appends_new [OF wmain_appends [OF dispatch_no_command [OF that] _ assms(2)] assms(3)]) simp
  ultimately show ?thesis by (cases e) auto
qed

lemma demo_identity_stable: "identity_stable setup_demo_os"
  by (simp add: identity_stable_def demo_identity)

lemma only_owned_nodes_changed_witness:
  "\<exists>w. Installer_Called w 0 Dif_Remove \<in> set (ss_log demo_removed) \<and> is_our_root_device setup_demo_os w 0 = Inr True"
proof -
  have "Installer_Called (demo_node []) 0 Dif_Remove \<in>
      set (drop (length (ss_log (demo_start (demo_node [])))) (ss_log demo_removed))"
    by (simp add: demo_removed_def demo_start_def)
  with only_owned_nodes_changed [OF demo_identity_stable demo_removal this, of "demo_node []" 0 Dif_Remove]
  show ?thesis by (auto simp: demo_start_def)
qed

end
