(* ===== verification/SetupCycle.thy ===== *)
theory SetupCycle
  imports SetupSafety
begin

text \<open>
  The disable/enable cycle of an owned node: which state changes it makes, in which order, and
  what its result says about them.
\<close>

fun changes_of :: "('w, 'd) setup_event list \<Rightarrow> ('d \<times> state_change) list"
  where
    "changes_of [] = []"
  | "changes_of (e # es) =
      (case e of Installer_Called w d (Dif_Property_Change c) \<Rightarrow> [(d, c)] | _ \<Rightarrow> []) @ changes_of es"

lemma changes_of_append [simp]: "changes_of (es @ fs) = changes_of es @ changes_of fs"
  by (induction es) auto

definition changes_since :: "('w, 'd, 'h) setup_state \<Rightarrow> ('w, 'd, 'h) setup_state \<Rightarrow> ('d \<times> state_change) list"
  where "changes_since s s' = changes_of (drop (length (ss_log s)) (ss_log s'))"

lemma issue_changes:
  assumes "issue_owned_device_state_change os d c s = (r, may, s')"
  shows "(\<exists>w. ss_log s' = ss_log s @ (if may then [Installer_Called w d (Dif_Property_Change c)] else [])) \<and>
    (\<forall>u. r = Inr u \<longrightarrow> may)"
proof -
  obtain r1 s1 where p: "set_change_params os d c s = (r1, s1)" by force
  have l1: "ss_log s1 = ss_log s"
    using p by (auto simp: set_change_params_def set_class_install_params_def split: prod.splits)
  show ?thesis
    using assms p l1
    by (auto simp: issue_owned_device_state_change_def call_change_def call_class_installer_def logged_def
        split: sum.splits prod.splits)
qed

text \<open>The changes made by an issued change: one if it may have run, none otherwise.\<close>

definition made :: "bool \<Rightarrow> 'd \<Rightarrow> state_change \<Rightarrow> ('d \<times> state_change) list"
  where "made may d c = (if may then [(d, c)] else [])"

definition log_grows :: "('w, 'd, 'h) setup_state \<Rightarrow> ('d \<times> state_change) list \<Rightarrow> ('w, 'd, 'h) setup_state \<Rightarrow> bool"
  where "log_grows s ch s' \<longleftrightarrow> (\<exists>es. ss_log s' = ss_log s @ es \<and> changes_of es = ch)"

lemma log_grows_refl [simp]: "log_grows s [] s"
  by (simp add: log_grows_def)

lemma log_grows_trans: "log_grows a x b \<Longrightarrow> log_grows b y c \<Longrightarrow> log_grows a (x @ y) c"
  by (auto simp: log_grows_def)

lemma log_grows_since: "log_grows s ch s' \<Longrightarrow> changes_since s s' = ch"
  by (auto simp: log_grows_def changes_since_def)

lemma issue_grows:
  assumes "issue_owned_device_state_change os d c s = (r, may, s')"
  shows "log_grows s (made may d c) s'"
  using issue_changes [OF assms] by (auto simp: log_grows_def made_def)

lemma issue_ran: "issue_owned_device_state_change os d c s = (Inr u, may, s') \<Longrightarrow> may"
  using issue_changes [of os d c s "Inr u" may s'] by simp

text \<open>What the result of a cycle promises about the changes \<open>ch\<close> made to the node
  \<open>d\<close>.\<close>

definition cycle_contract :: "'d \<Rightarrow> ('d \<times> state_change) list \<Rightarrow> cycle_device_result \<Rightarrow> bool"
  where "cycle_contract d ch c \<longleftrightarrow>
    (\<exists>n \<le> 2. ch = [] \<or> ch = (d, Dics_Disable) # replicate n (d, Dics_Enable)) \<and>
    (cy_disabled c \<longleftrightarrow> ch \<noteq> []) \<and>
    (ch = [(d, Dics_Disable)] \<longrightarrow>
      cy_recovery_failed c \<and> \<not> cy_enabled c \<and> suffix reenable_failed (cy_failure_detail c)) \<and>
    (\<not> cy_recovery_failed c \<longrightarrow> ch = [(d, Dics_Disable), (d, Dics_Enable)] \<and> cy_enabled c)"

lemma restore_changes:
  assumes "restore_after_failure os d result s = (result', s')"
  shows "\<exists>m. log_grows s (made m d Dics_Enable) s' \<and> (m \<longrightarrow> cy_disabled result) \<and>
    cy_disabled result' = cy_disabled result \<and> cy_recovery_failed result' = cy_recovery_failed result \<and>
    (cy_disabled result \<and> \<not> m \<longrightarrow>
      cy_enabled result' = cy_enabled result \<and> suffix reenable_failed (cy_failure_detail result'))"
proof (cases "cy_disabled result")
  case False
  with assms show ?thesis by (auto simp: restore_after_failure_def made_def intro: exI [of _ False])
next
  case True
  obtain r m t where i: "issue_owned_device_state_change os d Dics_Enable s = (r, m, t)"
    by (metis prod_cases3)
  have g: "log_grows s (made m d Dics_Enable) t" by (rule issue_grows [OF i])
  show ?thesis
  proof (cases r)
    case (Inl x)
    with assms True i g show ?thesis
      by (auto simp: restore_after_failure_def suffix_def intro!: exI [of _ m])
  next
    case (Inr u)
    with i have m by (auto dest: issue_ran)
    with assms True i g Inr show ?thesis
      by (auto simp: restore_after_failure_def Let_def intro!: exI [of _ True] split: sum.splits)
  qed
qed

text \<open>A failure after the changes \<open>ch\<close>.\<close>

lemma cycle_failed_contract:
  assumes "cycle_failed os d may x result s1 = (c, s')" "log_grows s ch s1"
    "ch = [] \<and> \<not> may \<and> \<not> cy_disabled result \<or>
     (\<exists>n \<le> 1. ch = (d, Dics_Disable) # replicate n (d, Dics_Enable)) \<and> (may \<or> cy_disabled result)"
    "cy_enabled result \<longrightarrow> length ch = 2"
  shows "\<exists>ch'. log_grows s ch' s' \<and> cycle_contract d ch' c"
proof -
  obtain m where m: "log_grows s1 (made m d Dics_Enable) s'" "m \<longrightarrow> cy_disabled result \<or> may"
    "cy_disabled c = (cy_disabled result \<or> may)" "cy_recovery_failed c"
    "(cy_disabled result \<or> may) \<and> \<not> m \<longrightarrow> cy_enabled c = cy_enabled result \<and> suffix reenable_failed (cy_failure_detail c)"
    using restore_changes [OF assms(1) [unfolded cycle_failed_def]] by auto
  have "log_grows s (ch @ made m d Dics_Enable) s'" by (rule log_grows_trans [OF assms(2) m(1)])
  moreover have "cycle_contract d (ch @ made m d Dics_Enable) c"
  proof -
    from assms(3) consider "ch = []" "\<not> may" "\<not> cy_disabled result"
      | n :: nat where "n \<le> 1" "ch = (d, Dics_Disable) # replicate n (d, Dics_Enable)" "may \<or> cy_disabled result"
      by blast
    then show ?thesis
    proof cases
      case 1
      with m show ?thesis by (auto simp: cycle_contract_def made_def)
    next
      case n: 2
    have l: "ch @ made m d Dics_Enable = (d, Dics_Disable) # replicate (if m then Suc n else n) (d, Dics_Enable)"
      by (simp add: n(2) made_def replicate_append_same)
    have "n = 0 \<and> \<not> m \<longrightarrow> \<not> cy_enabled c" using m(5) n assms(4) by auto
      with l n m show ?thesis
        by (auto simp: cycle_contract_def Cons_replicate_eq intro!: exI [of _ "if m then Suc n else n"])
    qed
  qed
  ultimately show ?thesis by blast
qed

lemma cycle_opened_contract:
  assumes "cycle_opened os d s = (c, s')"
  shows "\<exists>ch. log_grows s ch s' \<and> cycle_contract d ch c"
proof -
  obtain r1 m1 s1 where 1: "issue_owned_device_state_change os d Dics_Disable s = (r1, m1, s1)"
    by (metis prod_cases3)
  obtain r2 m2 s2 where 2: "issue_owned_device_state_change os d Dics_Enable s1 = (r2, m2, s2)"
    by (metis prod_cases3)
  note g1 = issue_grows [OF 1] and g2 = log_grows_trans [OF issue_grows [OF 1] issue_grows [OF 2]]
  show ?thesis
  proof (cases r1)
    case (Inl x)
    with assms 1 have "cycle_failed os d m1 x \<lparr>cy_disabled = False, cy_enabled = False,
        cy_reboot_required = False, cy_recovery_failed = False, cy_failure_detail = []\<rparr> s1 = (c, s')"
      by (simp add: cycle_opened_def)
    from cycle_failed_contract [OF this g1] show ?thesis by (auto simp: made_def)
  next
    case r1: (Inr u)
    with 1 have m1: m1 by (auto dest: issue_ran)
    show ?thesis
    proof (cases "device_install_requires_reboot os d (ss_world s1)")
      case (Inl x)
      with assms 1 r1 have "cycle_failed os d m1 x \<lparr>cy_disabled = True, cy_enabled = False,
          cy_reboot_required = False, cy_recovery_failed = False, cy_failure_detail = []\<rparr> s1 = (c, s')"
        by (simp add: cycle_opened_def)
      from cycle_failed_contract [OF this g1] m1 show ?thesis by (auto simp: made_def)
    next
      case b1: (Inr b)
      show ?thesis
      proof (cases r2)
        case (Inl x)
        with assms 1 r1 b1 2 have failed: "cycle_failed os d m1 x \<lparr>cy_disabled = True, cy_enabled = False,
            cy_reboot_required = b, cy_recovery_failed = False, cy_failure_detail = []\<rparr> s2 = (c, s')"
          by (simp add: cycle_opened_def)
        have "\<exists>n \<le> 1. made m2 d Dics_Enable = replicate n (d, Dics_Enable)"
          by (cases m2) (auto simp: made_def intro: exI [of _ 1])
        with cycle_failed_contract [OF failed g2] m1 show ?thesis by (simp add: made_def)
      next
        case r2: (Inr v)
        with 2 have m2: m2 by (auto dest: issue_ran)
        show ?thesis
        proof (cases "device_install_requires_reboot os d (ss_world s2)")
          case (Inl x)
          with assms 1 r1 b1 2 r2 have "cycle_failed os d m1 x \<lparr>cy_disabled = True, cy_enabled = True,
              cy_reboot_required = b, cy_recovery_failed = False, cy_failure_detail = []\<rparr> s2 = (c, s')"
            by (simp add: cycle_opened_def)
          moreover have "\<exists>n \<le> Suc 0. [(d, Dics_Enable)] = replicate n (d, Dics_Enable)"
            by (rule exI [of _ 1]) simp
          ultimately have "\<exists>ch. log_grows s ch s' \<and> cycle_contract d ch c"
            using m1 m2 cycle_failed_contract [OF _ g2, of os d m1 x] by (simp add: made_def)
          then show ?thesis .
        next
          case (Inr e)
          with assms 1 r1 b1 2 r2 m1 m2 g2 show ?thesis
            by (auto simp: cycle_opened_def cycle_contract_def made_def eval_nat_numeral
                intro!: exI [of _ "[(d, Dics_Disable), (d, Dics_Enable)]"] exI [of _ 1])
        qed
      qed
    qed
  qed
qed



end
