(* ===== verification/SetupReadiness.thy ===== *)
theory SetupReadiness
  imports SetupDemo
begin

text \<open>
  What the readiness of the source interface rests on: the accounting of the probes and the
  evidence behind a verdict.
\<close>

definition probes_accounted :: "('w, 'd, 'h) setup_state \<Rightarrow> bool"
  where "probes_accounted s \<longleftrightarrow> ss_probes s = (if ss_pending s = None then 0 else 1)"

definition opened_as :: "('w, 'd, 'i, 'h) setup_os \<Rightarrow> string \<Rightarrow> u32 + 'h \<Rightarrow> bool"
  where "opened_as os path r \<longleftrightarrow> (\<exists>w. snd (os_create_file os w path) = r)"

definition answer_of :: "('w, 'd, 'i, 'h) setup_os \<Rightarrow> 'h \<Rightarrow> query_info_response \<Rightarrow> u32 \<Rightarrow> bool"
  where "answer_of os h response n \<longleftrightarrow>
    (\<exists>w request. snd (os_query_info os w h request) = Io_Done response n) \<or>
    (\<exists>w. os_overlapped_result os w h = Some (response, n))"

text \<open>The evidence for a verdict that counts as ready: a valid answer to a query on a handle
  the open returned, or an open refused because another handle holds the interface.\<close>

fun evidence :: "('w, 'd, 'i, 'h) setup_os \<Rightarrow> string \<Rightarrow> probe_verdict \<Rightarrow> bool"
  where
    "evidence os path Probe_Answered =
       (\<exists>h response n. opened_as os path (Inr h) \<and> answer_of os h response n \<and>
         protocol_query_response_is_valid response n)"
  | "evidence os path Probe_In_Use = opened_as os path (Inl 32)"
  | "evidence os path _ = False"

text \<open>What a probe leaves behind.\<close>

definition probe_done :: "('w, 'd, 'i, 'h) setup_os \<Rightarrow> string \<Rightarrow> bool \<Rightarrow> ('w, 'd, 'h) setup_state \<Rightarrow> bool"
  where "probe_done os path accepted s \<longleftrightarrow> probes_accounted s \<and>
    accepted = interface_ready (ss_last_verdict s) \<and>
    (accepted \<longrightarrow> ss_pending s = None \<and> evidence os path (ss_last_verdict s))"

lemma reap_accounted:
  "probes_accounted s \<Longrightarrow> probes_accounted (reap_completed_protocol_query_probe os s) \<and>
    ss_last_verdict (reap_completed_protocol_query_probe os s) = ss_last_verdict s"
  by (auto simp: reap_completed_protocol_query_probe_def probes_accounted_def in_world_def delete_probe_def
      open_protocol_device_worker_def split: option.split protocol_query_probe.split prod.split)

lemma not_ready_absent [simp]: "\<not> interface_ready Probe_Absent"
  by (simp add: interface_ready_def)

text \<open>A fresh probe: one allocated, none pending, the verdict absent.\<close>

definition probing :: "('w, 'd, 'h) setup_state \<Rightarrow> bool"
  where "probing s \<longleftrightarrow> ss_probes s = 1 \<and> ss_pending s = None \<and> ss_last_verdict s = Probe_Absent"

lemma probing_world [simp]: "probing (s\<lparr>ss_world := w\<rparr>) = probing s"
  by (simp add: probing_def)

lemma in_world_probing: "in_world f s = (a, s') \<Longrightarrow> probing s' = probing s \<and> snd (f (ss_world s)) = a"
  by (auto simp: in_world_def split: prod.splits)

lemma give_up: "probing s \<Longrightarrow> probe_done os path False (delete_probe os handle s)"
  by (simp add: probing_def probe_done_def probes_accounted_def delete_probe_def)

lemma keep_pending: "probing s \<Longrightarrow> probe_done os path False (s\<lparr>ss_pending := Some p\<rparr>)"
  by (simp add: probing_def probe_done_def probes_accounted_def)

lemma conclude_done:
  "probing s \<Longrightarrow> (interface_ready verdict \<Longrightarrow> evidence os path verdict) \<Longrightarrow>
    conclude verdict (delete_probe os handle s) = (b, s') \<Longrightarrow> probe_done os path b s'"
  by (auto simp: probing_def probe_done_def probes_accounted_def delete_probe_def conclude_def)

lemma answered_evidence:
  "opened_as os path (Inr h) \<Longrightarrow> answer_of os h response n \<Longrightarrow>
    interface_ready (answered_if (protocol_query_response_is_valid response n)) \<Longrightarrow>
    evidence os path (answered_if (protocol_query_response_is_valid response n))"
  by (auto simp: answered_if_def split: if_splits)

lemma complete_done:
  assumes "probing s" "opened_as os path (Inr h)" "complete_protocol_query_probe os h s = (b, s')"
  shows "probe_done os path b s'"
proof (cases "os_overlapped_result os (ss_world s) h")
  case None
  with assms(3) have "conclude Probe_Absent (delete_probe os (Some h) s) = (b, s')"
    by (simp add: complete_protocol_query_probe_def answered_if_def)
  then show ?thesis by (rule conclude_done [OF assms(1), rotated]) simp
next
  case (Some p)
  obtain response n where p: "p = (response, n)" by force
  have "answer_of os h response n" using Some p by (auto simp: answer_of_def)
  note e = answered_evidence [OF assms(2) this]
  have "conclude (answered_if (protocol_query_response_is_valid response n)) (delete_probe os (Some h) s) = (b, s')"
    using assms(3) by (simp add: complete_protocol_query_probe_def Some p)
  then show ?thesis by (rule conclude_done [OF assms(1), rotated]) (rule e)
qed

lemma query_done:
  assumes "probing s" "opened_as os path (Inr h)" "query_opened os h s = (b, s')"
  shows "probe_done os path b s'"
proof (cases "os_create_event os (ss_world s)")
  case False
  with assms(1,3) show ?thesis by (auto simp: query_opened_def give_up)
next
  case True
  define header where "header = \<lparr>rh_size = query_info_request_size, rh_version = k_protocol_version, rh_reserved = 0\<rparr>"
  obtain started s1 where q: "in_world (\<lambda>w. os_query_info os w h header) s = (started, s1)" by force
  note p1 = in_world_probing [OF q]
  show ?thesis
  proof (cases started)
    case (Io_Done response n)
    have "answer_of os h response n" using p1 Io_Done by (auto simp: answer_of_def)
    note e = answered_evidence [OF assms(2) this]
    have "conclude (answered_if (protocol_query_response_is_valid response n)) (delete_probe os (Some h) s1) = (b, s')"
      using assms(3) q by (simp add: query_opened_def True Io_Done header_def)
    then show ?thesis by (rule conclude_done [rotated 2]) (use p1 assms(1) e in auto)
  next
    case (Io_Failed e)
    obtain c2 s2 where w2: "in_world (\<lambda>w. os_wait_event os w k_protocol_query_timeout_milliseconds) s1 = (c2, s2)"
      by force
    obtain c3 s3 where w3: "in_world (\<lambda>w. os_wait_event os w k_protocol_cancel_timeout_milliseconds)
        (s2\<lparr>ss_world := os_cancel_io os (ss_world s2) h\<rparr>) = (c3, s3)"
      by force
    from p1 assms(1) in_world_probing [OF w2] in_world_probing [OF w3]
    have "probing s1" "probing s2" "probing s3" by auto
    with assms(2,3) True Io_Failed q w2 w3 show ?thesis
      by (auto simp: query_opened_def header_def Let_def give_up keep_pending split: if_splits
          intro: complete_done)
  qed
qed

lemma accepts_done:
  assumes "probes_accounted s" "source_interface_accepts_protocol os path s = (b, s')"
  shows "probe_done os path b s'"
proof -
  define s0 where "s0 = reap_completed_protocol_query_probe os (s\<lparr>ss_last_verdict := Probe_Absent\<rparr>)"
  have a0: "probes_accounted s0" "ss_last_verdict s0 = Probe_Absent"
    using reap_accounted [of "s\<lparr>ss_last_verdict := Probe_Absent\<rparr>" os] assms(1)
    by (auto simp: s0_def probes_accounted_def)
  show ?thesis
  proof (cases "ss_pending s0")
    case (Some p)
    with assms(2) a0 show ?thesis
      by (auto simp: source_interface_accepts_protocol_def s0_def [symmetric] probe_done_def)
  next
    case None
    obtain created s1 where c: "in_world (os_create_thread os) (new_probe s0) = (created, s1)" by force
    have "probing (new_probe s0)" using a0 None by (simp add: probing_def new_probe_def probes_accounted_def)
    with in_world_probing [OF c] have p1: "probing s1" by simp
    obtain opened s2 where o': "await_open os s1 = (opened, s2)" by force
    have p2: "probing s2"
      using o' p1 by (auto simp: await_open_def dest!: in_world_probing split: prod.splits if_splits)
    obtain r s3 where w: "open_protocol_device_worker os path s2 = (r, s3)" by force
    note p3 = in_world_probing [OF w [unfolded open_protocol_device_worker_def]]
    have r: "opened_as os path r" using p3 by (auto simp: opened_as_def)
    show ?thesis
    proof (cases "created \<and> opened")
      case False
      with assms(2) None c o' p1 p2 show ?thesis
        by (auto simp: source_interface_accepts_protocol_def s0_def [symmetric] Let_def give_up keep_pending split: if_splits)
    next
      case True
      show ?thesis
      proof (cases r)
        case (Inl e)
        have "evidence os path (classify_open e)" if "interface_ready (classify_open e)"
          using that r Inl by (auto simp: classify_open_def interface_ready_def split: if_splits)
        moreover have "conclude (classify_open e) (delete_probe os None s3) = (b, s')"
          using assms(2) None c o' True w Inl
          by (simp add: source_interface_accepts_protocol_def s0_def [symmetric] Let_def)
        ultimately show ?thesis by (intro conclude_done [of s3]) (use p2 p3 in auto)
      next
        case (Inr h)
        from query_done [of s3 os path h] r assms(2) None c o' True w p2 p3 Inr show ?thesis
          by (simp add: source_interface_accepts_protocol_def s0_def [symmetric] Let_def)
      qed
    qed
  qed
qed

text \<open>A verdict of readiness about the interface of an owned node.\<close>

definition ready_evidence :: "('w, 'd, 'i, 'h) setup_os \<Rightarrow> probe_verdict \<Rightarrow> bool"
  where "ready_evidence os verdict \<longleftrightarrow>
    (\<exists>w i n path d. os_detail os w i n = Inr (path, d) \<and> is_our_root_device os w d = Inr True \<and>
      evidence os path verdict)"

lemma ready_evidenceI:
  "os_detail os w i n = Inr (path, d) \<Longrightarrow> is_our_root_device os w d = Inr True \<Longrightarrow>
    evidence os path verdict \<Longrightarrow> ready_evidence os verdict"
  unfolding ready_evidence_def by blast

definition readiness :: "('w, 'd, 'i, 'h) setup_os \<Rightarrow> setup_error + bool \<Rightarrow> ('w, 'd, 'h) setup_state \<Rightarrow> bool"
  where "readiness os r s \<longleftrightarrow> probes_accounted s \<and>
    (r = Inr True \<longrightarrow> ss_pending s = None \<and> interface_ready (ss_last_verdict s) \<and>
      ready_evidence os (ss_last_verdict s))"

lemma interface_loop_readiness:
  "probes_accounted s \<Longrightarrow> interface_loop os e is s = (r, s') \<Longrightarrow> readiness os r s'"
proof (induction os e "is" s arbitrary: r s' rule: interface_loop.induct)
  case (2 os e i "is" s)
  obtain queried d n where size: "os_detail_size os (ss_world s) i = (queried, d, n)" by (metis prod_cases3)
  show ?case
  proof (cases "queried \<or> d \<noteq> error_insufficient_buffer \<or> n < 8")
    case True
    with 2(3,4) size show ?thesis by (auto simp: readiness_def)
  next
    case ok: False
    show ?thesis
    proof (cases "os_detail os (ss_world s) i n")
      case (Inl x)
      with 2(3,4) size ok show ?thesis by (auto simp: readiness_def got_def)
    next
      case (Inr p)
      obtain path dev where p: "p = (path, dev)" by force
      show ?thesis
      proof (cases "is_our_root_device os (ss_world s) dev")
        case (Inl x)
        with 2(3,4) size ok Inr p show ?thesis by (auto simp: readiness_def got_def)
      next
        case ours: (Inr b)
        obtain accepted s1 where a: "source_interface_accepts_protocol os path s = (accepted, s1)" by force
        note fin = accepts_done [OF 2(3) a]
        show ?thesis
        proof (cases "b \<and> accepted")
          case True
          with 2(4) size ok Inr p ours a have "r = Inr True" "s' = s1" by (auto simp: got_def)
          with fin True Inr p ours show ?thesis
            by (auto simp: readiness_def probe_done_def intro: ready_evidenceI)
        next
          case False
          then consider "\<not> b" | "b" "\<not> accepted" by blast
          then show ?thesis
          proof cases
            case 1
            with 2(4) size ok Inr p ours have "interface_loop os e is s = (r, s')" by (simp add: got_def)
            then show ?thesis using 2(2,3) size ok Inr p ours 1 by (auto simp: got_def)
          next
            case b: 2
            with 2(4) size ok Inr p ours a have "interface_loop os e is s1 = (r, s')" by (simp add: got_def)
            moreover have "probes_accounted s1" using fin by (simp add: probe_done_def)
            ultimately show ?thesis
              using 2(1) size ok Inr p ours a b by (auto simp: got_def)
          qed
        qed
      qed
    qed
  qed
qed (auto simp: readiness_def split: if_splits)

lemma ready_readiness:
  "probes_accounted s \<Longrightarrow> source_device_interface_ready os s = (r, s') \<Longrightarrow> readiness os r s'"
  by (auto simp: source_device_interface_ready_def readiness_def split: sum.splits prod.splits if_splits
      dest: interface_loop_readiness)

lemma wait_loop_readiness:
  "probes_accounted s \<Longrightarrow> wait_loop os n s = (r, s') \<Longrightarrow> readiness os r s'"
proof (induction n arbitrary: s)
  case 0
  then show ?case by (auto intro: ready_readiness)
next
  case (Suc n)
  obtain r1 s1 where 1: "source_device_interface_ready os s = (r1, s1)" by force
  note ready = ready_readiness [OF Suc.prems(1) 1]
  then have "probes_accounted (s1\<lparr>ss_world := w\<rparr>)" for w by (simp add: readiness_def probes_accounted_def)
  with Suc.IH Suc.prems(2) 1 ready show ?case by (auto split: sum.splits bool.splits)
qed

text \<open>Property C23. The tool calls its source interface ready only on evidence, and leaks no
  probe on the way: whatever the machine answers, at most one probe outlives a wait and every
  other one is deleted; and when the wait says ready, no probe is outstanding, the recorded
  verdict is a ready one, and it stems from the interface of an owned node that either answered
  the protocol query validly on a handle the tool opened, or refused the open with a sharing
  violation because another client holds it.\<close>

theorem readiness_is_proven:
  assumes "ss_probes s = (if ss_pending s = None then 0 else 1)"
    "wait_for_source_device_interface os s = (r, s')"
  shows "ss_probes s' = (if ss_pending s' = None then 0 else 1) \<and>
    (r = Inr True \<longrightarrow> ss_pending s' = None \<and>
      (\<exists>w i n path d. os_detail os w i n = Inr (path, d) \<and> is_our_root_device os w d = Inr True \<and>
        (ss_last_verdict s' = Probe_Answered \<and>
          (\<exists>w h response n. snd (os_create_file os w path) = Inr h \<and> answer_of os h response n \<and>
            protocol_query_response_is_valid response n) \<or>
         ss_last_verdict s' = Probe_In_Use \<and> (\<exists>w. snd (os_create_file os w path) = Inl 32))))"
proof -
  have r: "readiness os r s'"
    using wait_loop_readiness [of s os _ r s'] assms
    by (simp add: wait_for_source_device_interface_def probes_accounted_def)
  have e: "evidence os path v \<Longrightarrow>
      v = Probe_Answered \<and> (\<exists>w h response n. snd (os_create_file os w path) = Inr h \<and> answer_of os h response n \<and>
        protocol_query_response_is_valid response n) \<or>
      v = Probe_In_Use \<and> (\<exists>w. snd (os_create_file os w path) = Inl 32)" for path v
    by (cases v) (auto simp: opened_as_def)
  show ?thesis
  proof (intro conjI impI)
    show "ss_probes s' = (if ss_pending s' = None then 0 else 1)"
      using r by (simp add: readiness_def probes_accounted_def)
  next
    assume "r = Inr True"
    with r have v: "ss_pending s' = None" "ready_evidence os (ss_last_verdict s')" by (auto simp: readiness_def)
    show "ss_pending s' = None" by (rule v)
    from v(2) obtain w i n path d where x: "os_detail os w i n = Inr (path, d)" "is_our_root_device os w d = Inr True"
      "evidence os path (ss_last_verdict s')"
      unfolding ready_evidence_def by blast
    from e [OF x(3)] x(1,2)
    show "\<exists>w i n path d. os_detail os w i n = Inr (path, d) \<and> is_our_root_device os w d = Inr True \<and>
        (ss_last_verdict s' = Probe_Answered \<and>
          (\<exists>w h response n. snd (os_create_file os w path) = Inr h \<and> answer_of os h response n \<and>
            protocol_query_response_is_valid response n) \<or>
         ss_last_verdict s' = Probe_In_Use \<and> (\<exists>w. snd (os_create_file os w path) = Inl 32))"
      by (intro exI conjI) assumption+
  qed
qed

lemma readiness_is_proven_witness:
  "\<exists>s'. wait_for_source_device_interface setup_demo_os (demo_start (demo_node [])) = (Inr True, s') \<and> ss_probes s' = 0"
proof -
  obtain s' where w: "wait_for_source_device_interface setup_demo_os (demo_start (demo_node [])) = (Inr True, s')"
    by (simp add: demo_waits demo_start_def demo_node_def)
  have "ss_probes (demo_start (demo_node [])) = (if ss_pending (demo_start (demo_node [])) = None then 0 else 1)"
    by (simp add: demo_start_def)
  from readiness_is_proven [OF this w] w show ?thesis by auto
qed

text \<open>The recorded verdict is that of the last probe, not of the last poll: a poll that finds
  no interface leaves an earlier verdict in place, so a status can say that the interface is not
  ready and in the same line that it answered.\<close>

lemma stale_verdict_reported:
  assumes "os_interfaces os (ss_world s) = Inr ([], no_more_items)"
    "enumerate_root_devices os True (ss_world s) = Inr []" "enumerate_root_devices os False (ss_world s) = Inr []"
  shows "print_status os s = (Inr (), logged (Out_Line (status_line [] 0 False (ss_last_verdict s))) s)"
  using assms by (simp add: print_status_def source_device_interface_ready_def andthen_def reading_def print_out_def)

end
