(* ===== verification/SetupVerdict.thy ===== *)
theory SetupVerdict
  imports SetupSafety
begin

text \<open>
  What the exit codes of the device-setup tool mean, and the text it prints.
\<close>

section \<open>The verdict of an installation\<close>

lemma match_loop_true:
  "match_loop os w expected e found ds = Inr True \<Longrightarrow>
    e = no_more_items \<and> (found \<or> (\<exists>d\<in>set ds. is_our_root_device os w d = Inr True)) \<and>
    (\<forall>d\<in>set ds. is_our_root_device os w d = Inr True \<longrightarrow>
      (\<exists>v. device_driver_version os w d = Inr v \<and> wcsicmp_equal v expected))"
  by (induction os w expected e found ds rule: match_loop.induct)
    (auto split: if_splits sum.splits bool.splits)

lemma owned_match_true:
  assumes "owned_root_devices_match_driver_version os expected w = Inr True"
  shows "\<exists>ds. os_class_devices os w True = Inr (ds, no_more_items) \<and>
    (\<exists>d\<in>set ds. is_our_root_device os w d = Inr True) \<and>
    (\<forall>d\<in>set ds. is_our_root_device os w d = Inr True \<longrightarrow>
      (\<exists>v. device_driver_version os w d = Inr v \<and> wcsicmp_equal v expected))"
  using assms
  by (auto simp: owned_root_devices_match_driver_version_def split: sum.splits dest!: match_loop_true)

lemma removed_calls:
  assumes "remove_device_instance os i s = (Inr result, s')"
  shows "if rm_removed result then
      (\<exists>w d es. os_open_info os (ss_world s) i = Inr d \<and> is_our_root_device os (ss_world s) d = Inr True \<and>
        ss_log s' = ss_log s @ [Installer_Called w d Dif_Remove])
    else os_open_info os (ss_world s) i \<in> {Inl error_no_such_devinst, Inl error_file_not_found} \<and> ss_log s' = ss_log s"
  using assms
  by (auto simp: remove_device_instance_def create_info_list_def remove_opened_def require_owned_def
      remove_open_device_def set_class_install_params_def call_class_installer_def logged_def andthen_def reading_def
      ok_def throw_def split: sum.splits prod.splits if_splits)

lemma remove_log:
  assumes "remove_device_instance os i s = (r, s')"
  shows "\<exists>es. ss_log s' = ss_log s @ es \<and> (\<forall>l. Err_Line l \<notin> set es)"
  using assms
  by (auto simp: remove_device_instance_def create_info_list_def remove_opened_def require_owned_def
      remove_open_device_def set_class_install_params_def call_class_installer_def logged_def andthen_def reading_def
      ok_def throw_def split: sum.splits prod.splits if_splits)

lemma report_code:
  assumes "install_report os outcome r s = (Inr code, s')"
  shows "\<exists>r' s1 s2. roll_back os r s1 = (Inr r', s2) \<and> appends printed s s1 \<and> appends printed s2 s' \<and>
    code = install_exit_code (outcome\<lparr>io_reboot_required := ir_reboot_required r'\<rparr>)"
proof -
  obtain x1 s1 where d: "diagnose os r s = (x1, s1)" by force
  have a1: "appends printed s s1"
    using d by (auto simp: diagnose_def print_device_diagnostics_def print_err_def print_out_def ok_def
        split: if_splits sum.splits)
  obtain x2 s2 where b: "roll_back os r s1 = (x2, s2)" by force
  from assms d b obtain u r' where x: "x1 = Inr u" "x2 = Inr r'"
    by (auto simp: install_report_def andthen_def split: sum.splits)
  obtain x3 s3 where p: "print_status os s2 = (x3, s3)" by force
  have "appends printed s2 s3" by (rule emitsD [OF emits_print_status p]) simp
  then have "appends printed s2 (logged (Out_Line (install_line r')) s3)"
    by (rule appends_trans) simp
  with assms d b x p a1 show ?thesis
    by (auto simp: install_report_def andthen_def print_out_def ok_def split: sum.splits)
qed

lemma roll_back_keeps:
  "roll_back os r s = (Inr r', s') \<Longrightarrow> ir_ready r \<or> \<not> ir_created r \<or> ir_reboot_required r \<Longrightarrow> r' = r \<and> s' = s"
  by (auto simp: roll_back_def ok_def split: if_splits)

lemma roll_back_removes:
  assumes "roll_back os r s = (Inr r', s')" "\<not> ir_ready r" "ir_created r" "\<not> ir_reboot_required r"
  shows "\<exists>w d. ss_log s' = ss_log s @ [Installer_Called w d Dif_Remove]"
proof -
  obtain x t where x: "remove_device_instance os (ir_created_instance r) s = (x, t)" by force
  from assms x obtain result where "x = Inr result" "rm_removed result" "s' = t"
    by (auto simp: roll_back_def andthen_def ok_def throw_def split: sum.splits if_splits)
  with removed_calls x show ?thesis by fastforce
qed

lemma verified_stays:
  "attestation_due oc \<Longrightarrow> reload_verified (oc\<lparr>io_version_matches := v, io_reboot_required := False\<rparr>) = v"
  by (auto simp: reload_verified_def attestation_due_def live_reload_required_def split: if_splits)

lemma settled_verdict:
  assumes "attest os expected r s = (Inr (r1, oc), s1)" 
  shows "\<exists>v. oc = (outcome_of r)\<lparr>io_version_matches := v\<rparr> \<and>
    (v \<longleftrightarrow> attestation_due (outcome_of r) \<and> owned_root_devices_match_driver_version os expected (ss_world s) = Inr True) \<and>
    ir_ready r1 = ir_ready r \<and> ir_created r1 = ir_created r \<and> ir_reboot_required r1 = ir_reboot_required r \<and>
    appends printed s s1"
  using assms by (auto simp: attest_def outcome_of_def split: if_splits sum.splits)


lemma demo_check:
  "check_package setup_demo_os ''VibeshineVhfGamepad.inf'' s = (Inr (''VibeshineVhfGamepad.inf'', ''1.2.3.4''), s)"
proof -
  have "absolute_existing_path setup_demo_os ''VibeshineVhfGamepad.inf'' w = Inr ''VibeshineVhfGamepad.inf''"
    "driver_version_from_inf setup_demo_os ''VibeshineVhfGamepad.inf'' w = Inr ''1.2.3.4''"
    "require_elevation setup_demo_os w = Inr ()" for w
    by code_simp+
  moreover have "validate_owned_inf_path ''VibeshineVhfGamepad.inf'' = Inr ()" by code_simp
  ultimately show ?thesis by (simp add: check_package_def andthen_def reading_def ok_def)
qed

lemma demo_matches:
  "dm_present m \<Longrightarrow> dm_version m = ''1.2.3.4'' \<Longrightarrow>
    owned_root_devices_match_driver_version setup_demo_os ''1.2.3.4'' m = Inr True"
proof -
  assume m: "dm_present m" "dm_version m = ''1.2.3.4''"
  have "trim_driver_version (wide_c_string (buffer_of 9 ''1.2.3.4'')) = ''1.2.3.4''" "wcsicmp_equal ''1.2.3.4'' ''1.2.3.4''"
    by code_simp+
  with m show ?thesis
    by (simp add: owned_root_devices_match_driver_version_def demo_identity device_driver_version_def
        error_insufficient_buffer_def no_more_items_def del: One_nat_def)
qed

lemma demo_installation: "\<exists>s'. run_install setup_demo_os ''VibeshineVhfGamepad.inf'' (demo_start demo_empty) = (Inr 0, s')"
proof -
  have "\<exists>s1 r. install_attempt setup_demo_os ''VibeshineVhfGamepad.inf'' (demo_start demo_empty) =
      (Inr (''1.2.3.4'', r), s1) \<and> dm_present (ss_world s1) \<and> dm_enabled (ss_world s1) \<and>
      dm_version (ss_world s1) = ''1.2.3.4'' \<and> ss_pending s1 = None \<and> ir_ready r \<and> ir_device_cycle_succeeded r \<and>
      \<not> ir_device_cycle_reboot_required r"
    by (simp add: install_attempt_def demo_check andthen_def demo_start_def demo_empty_def create_if_none_def reading_def demo_enumerates
        create_root_device_def or_throw_def create_device_info_def got_def logged_def set_hardware_id_def
        call_class_installer_def demo_instance device_install_requires_reboot_def ok_def
        update_or_roll_back_def catching_def update_driver_def classify_driver_update_def demo_waits
        first_run_def reactivation_tier_def reactivate_owned_root_devices_def reactivate_device_instance_def
        locate_devnode_def reenumerate_devnode_def create_info_list_def open_device_info_def require_owned_def demo_owned
        set_change_params_def set_class_install_params_def call_change_def wait_again_def Let_def
        cycle_tier_def cycle_owned_root_devices_def cycle_owned_root_device_instance_def cycle_opened_def
        issue_owned_device_state_change_def)
  then show ?thesis
    by (auto simp: run_install_def andthen_def attest_def attestation_due_def outcome_of_def live_reload_required_def demo_matches
        settle_def reload_verified_def install_report_def diagnose_def ok_def roll_back_def print_status_def reading_def
        demo_enumerates setup_demo_ready print_out_def install_exit_code_def exit_codes)
qed


text \<open>The wait that ends a recovery tier may itself fail: its exception is caught, and the tier
  keeps the readiness found before it. So a run in which the interface was ready before the
  disable/enable cycle, and could not be queried after it, still counts as ready, with a cycle
  that succeeded.\<close>

lemma stale_readiness_survives:
  assumes "ir_requires_live_reload r" "cycle_owned_root_devices os s = (Inr c, s1)" "\<not> cyr_recovery_failed c"
    "cyr_disabled c \<noteq> 0" "wait_for_source_device_interface os s1 = (Inl x, s2)"
  shows "ir_ready (fst (cycle_tier os r s)) = ir_ready r \<and> ir_device_cycle_succeeded (fst (cycle_tier os r s))"
  using assms by (simp add: cycle_tier_def wait_again_def Let_def)

section \<open>Removal\<close>

text \<open>What happened to a node of the list: it was opened, found to be owned and its removal
  called; or it was gone; or a line reports why it could not be removed.\<close>

definition node_handled :: "('w, 'd, 'i, 'h) setup_os \<Rightarrow> ('w, 'd) setup_event list \<Rightarrow> root_device_state \<Rightarrow> bool"
  where "node_handled os es n \<longleftrightarrow>
    (\<exists>w w' d. os_open_info os w (rd_instance_id n) = Inr d \<and> is_our_root_device os w d = Inr True \<and>
      Installer_Called w' d Dif_Remove \<in> set es) \<or>
    (\<exists>w. os_open_info os w (rd_instance_id n) \<in> {Inl error_no_such_devinst, Inl error_file_not_found}) \<or>
    (\<exists>x. Err_Line (''remove: '' @ rd_instance_id n @ '': '' @ error_text x) \<in> set es)"

lemma node_handled_mono: "node_handled os es n \<Longrightarrow> set es \<subseteq> set fs \<Longrightarrow> node_handled os fs n"
  unfolding node_handled_def by blast

lemma remove_loop_spec:
  "remove_loop os r ns s = (r', s') \<Longrightarrow>
    \<exists>es k. ss_log s' = ss_log s @ es \<and> k \<le> length ns \<and> re_failed r' = re_failed r + of_nat k \<and>
      (0 < k \<longleftrightarrow> (\<exists>l. Err_Line l \<in> set es)) \<and> (\<forall>n\<in>set ns. node_handled os es n)"
proof (induction ns arbitrary: r s)
  case Nil
  then show ?case by (auto intro: exI [of _ 0])
next
  case (Cons n ns)
  obtain x t where x: "remove_device_instance os (rd_instance_id n) s = (x, t)" by force
  obtain fs where fs: "ss_log t = ss_log s @ fs" "\<forall>l. Err_Line l \<notin> set fs" using remove_log [OF x] by blast
  show ?case
  proof (cases x)
    case (Inl e)
    from Cons.prems x Inl have "remove_loop os (r\<lparr>re_failed := re_failed r + 1\<rparr>) ns
        (logged (Err_Line (''remove: '' @ rd_instance_id n @ '': '' @ error_text e)) t) = (r', s')" by simp
    from Cons.IH [OF this] obtain es k where es: "ss_log s' = ss_log t @
        [Err_Line (''remove: '' @ rd_instance_id n @ '': '' @ error_text e)] @ es" "k \<le> length ns"
      "re_failed r' = re_failed r + 1 + of_nat k" "\<forall>m\<in>set ns. node_handled os es m"
      by (auto simp: logged_def)
    have "node_handled os (fs @ [Err_Line (''remove: '' @ rd_instance_id n @ '': '' @ error_text e)] @ es) m"
      if "m \<in> set (n # ns)" for m
      using that es(4) by (auto simp: node_handled_def)
    with es fs show ?thesis
      by (intro exI [of _ "fs @ [Err_Line (''remove: '' @ rd_instance_id n @ '': '' @ error_text e)] @ es"] exI [of _ "Suc k"])
        auto
  next
    case (Inr result)
    have n: "node_handled os fs n"
      using removed_calls [OF x [unfolded Inr]] fs(1) unfolding node_handled_def by (fastforce split: if_splits)
    from Cons.prems x Inr obtain r1 where "remove_loop os r1 ns t = (r', s')" "re_failed r1 = re_failed r"
      by simp
    with Cons.IH [of r1 t] obtain es k where es: "ss_log s' = ss_log t @ es" "k \<le> length ns"
      "re_failed r' = re_failed r + of_nat k" "0 < k \<longleftrightarrow> (\<exists>l. Err_Line l \<in> set es)"
      "\<forall>m\<in>set ns. node_handled os es m" by auto
    have "node_handled os (fs @ es) m" if "m \<in> set (n # ns)" for m
      using that n es(5) node_handled_mono [of os _ m "fs @ es"] by auto
    with es fs show ?thesis by (intro exI [of _ "fs @ es"] exI [of _ k]) auto
  qed
qed


lemma demo_remove_run: "run_remove setup_demo_os (demo_start (demo_node [])) = (Inr 0, demo_removed)"
  using demo_removal
  by (auto simp: wmain_def dispatch_def run_remove_def remove_all_def andthen_def reading_def
      split: sum.splits prod.splits)


section \<open>Printed text\<close>

text \<open>What a JSON reader makes of a text in quotes: it ends at the first quote that is not
  escaped.\<close>

fun unescaped :: "char \<Rightarrow> char option"
  where "unescaped c =
    (if c = backslash \<or> c = quote then Some c
     else if c = CHR ''b'' then Some (char_of (8 :: nat))
     else if c = CHR ''f'' then Some (char_of (12 :: nat))
     else if c = CHR ''n'' then Some (char_of (10 :: nat))
     else if c = CHR ''r'' then Some (char_of (13 :: nat))
     else if c = CHR ''t'' then Some (char_of (9 :: nat)) else None)"

fun json_read :: "string \<Rightarrow> (string \<times> string) option"
  where
    "json_read [] = None"
  | "json_read (c # cs) =
      (if c = quote then Some ([], cs)
       else if c = backslash then
         (case cs of
            [] \<Rightarrow> None
          | e # es \<Rightarrow>
              (case (unescaped e, json_read es) of
                 (Some x, Some (t, rest)) \<Rightarrow> Some (x # t, rest)
               | _ \<Rightarrow> None))
       else if (of_char c :: nat) < 0x20 then None
       else (case json_read cs of Some (t, rest) \<Rightarrow> Some (c # t, rest) | None \<Rightarrow> None))"

definition shown :: "char \<Rightarrow> char"
  where "shown c =
    (if (of_char c :: nat) < 0x20 \<and> (of_char c :: nat) \<notin> {8, 9, 10, 12, 13} then CHR ''?'' else c)"

lemma quote_not_backslash [simp]: "quote \<noteq> backslash" "backslash \<noteq> quote"
  by code_simp+

text \<open>Each of the 256 characters is written as itself, or as a backslash and a letter that
  stands for it.\<close>

definition json_char_ok :: "char \<Rightarrow> bool"
  where "json_char_ok c =
    (case json_char c of
       [x] \<Rightarrow> x = shown c \<and> x \<noteq> quote \<and> x \<noteq> backslash \<and> 0x20 \<le> (of_char x :: nat)
     | [b, e] \<Rightarrow> b = backslash \<and> unescaped e = Some c \<and> shown c = c
     | _ \<Rightarrow> False)"

abbreviation "escaped_chars \<equiv> [backslash, quote, char_of (8 :: nat), char_of (12 :: nat), char_of (10 :: nat),
  char_of (13 :: nat), char_of (9 :: nat)]"

lemma escaped_chars_ok: "list_all json_char_ok escaped_chars"
  by code_simp

lemma plain_char_ok:
  assumes "c \<notin> set escaped_chars"
  shows "json_char_ok c"
proof -
  have c: "c \<noteq> backslash" "c \<noteq> quote" "c \<noteq> char_of (8 :: nat)" "c \<noteq> char_of (12 :: nat)" "c \<noteq> char_of (10 :: nat)"
    "c \<noteq> char_of (13 :: nat)" "c \<noteq> char_of (9 :: nat)"
    using assms by auto
  then have n: "(of_char c :: nat) \<notin> {8, 9, 10, 12, 13}"
    by (metis char_of_char insert_iff empty_iff)
  have j: "json_char c = (if (of_char c :: nat) < 0x20 then ''?'' else [c])"
    unfolding json_char_def by (simp only: c if_False)
  have s: "shown c = (if (of_char c :: nat) < 0x20 then CHR ''?'' else c)"
    unfolding shown_def by (simp only: n simp_thms)
  have q: "CHR ''?'' \<noteq> quote" "CHR ''?'' \<noteq> backslash" "0x20 \<le> (of_char (CHR ''?'') :: nat)" by code_simp+
  show ?thesis
    unfolding json_char_ok_def j s using c q by (cases "(of_char c :: nat) < 0x20") simp_all
qed

lemma every_char_ok: "json_char_ok c"
  using escaped_chars_ok plain_char_ok by (cases "c \<in> set escaped_chars") (auto simp only: list_all_iff)

lemma json_char_read:
  "json_read (json_char c @ cs) = (case json_read cs of Some (t, rest) \<Rightarrow> Some (shown c # t, rest) | None \<Rightarrow> None)"
proof -
  from every_char_ok [of c] consider "json_char c = [shown c]" "shown c \<noteq> quote" "shown c \<noteq> backslash" "0x20 \<le> (of_char (shown c) :: nat)"
    | e where "json_char c = [backslash, e]" "unescaped e = Some c" "shown c = c"
    by (auto simp: json_char_ok_def simp del: unescaped.simps split: list.splits)
  then show ?thesis
    by cases (auto simp del: unescaped.simps split: option.split)
qed

text \<open>What the tool prints for an instance id is valid JSON text that reads back as
  the id: a reader that starts behind the opening quote stops at the closing one and gets every
  character, a control character without an escape of its own as a question mark.\<close>

theorem json_text_reads_back:
  "json_read (json_escape t @ [quote] @ rest) = Some (map shown t, rest)"
  by (induction t) (simp_all add: json_escape_def json_char_read)

end
