(* ===== verification/Spec2Isabelle.thy ===== *)
theory Spec2Isabelle
  imports ReportPump HapticQueue PidEngine DescriptorLayout Profile HidPath PlayStationUsb SwitchPro SteamController DriverLife DriverTypes DriverSlots KeyboardMouse Client InstallDecision DriverAdd KeyboardMouseNative KeyboardMouseControl Ds5Gadget SetupCycle SetupReadiness SetupVerdict
begin

text \<open>
  \<^bold>\<open>A verification library of libvirtualgamepad.\<close>

  libvirtualgamepad is a Windows UMDF driver that publishes up to 16 virtual game controllers through
  the Virtual HID Framework (VHF), the C++ client library that drives it through IOCTLs on a control
  device, an endpoint that injects keyboard and mouse input, a setup tool, and a Linux kernel driver
  that publishes a virtual USB DualSense. The library models this code definition by definition; every
  definition that stands for code is listed with its lines in the manifest.

  \<^bold>\<open>How the parts fit together.\<close> A client opens the control device, and every request is a packed
  struct with a header. \<^theory_text>\<open>evt_io_device_control\<close> checks and dispatches it. A creation claims one of
  16 slots, asks VHF for a child with the descriptor and the identity of the profile, and starts it.
  An input request is encoded by the slot's profile into HID reports, which wait in the slot's report
  pump until VHF says the host is ready for one. The other way, the host's output and feature reports
  reach the slot through VHF callbacks, are answered by the profile, and leave events (rumble, lights,
  haptics, settings) that the client polls. Destroying a controller, a client's death, a power-down and
  the removal of the device all take children down again.

  \<^bold>\<open>Which theory models what.\<close> All paths are under \<^theory_text>\<open>src/\<close>.

  \<^item> Prelude: machine types, little-endian bytes, C conversions, ring arithmetic. BoundedQueue: the
    interface of a bounded queue as the locale \<open>bounded_queue\<close>, interpreted by the pump's transition
    ring, both feedback rings and the keyboard and mouse queue.
  \<^item> Protocol: \<^theory_text>\<open>include/libvirtualgamepad/protocol.h\<close>.
  \<^item> ReportPump: \<^theory_text>\<open>driver/src/report_pump.*\<close>, the class member for member, with the abstract pump it
    refines. HapticQueue: \<^theory_text>\<open>driver/src/steam_haptic_queue.h\<close>.
  \<^item> Profiles: Xbox (\<^theory_text>\<open>xbox_series.*\<close>, \<^theory_text>\<open>xbox_one.*\<close>), PlayStation, DualShock4 and DualSense
    (\<^theory_text>\<open>dualshock4.*\<close>, \<^theory_text>\<open>dualsense.*\<close>, \<^theory_text>\<open>ds4_usb.h\<close>, \<^theory_text>\<open>ds5_usb.h\<close>), SwitchPro
    (\<^theory_text>\<open>switch_pro.*\<close>), Sc26Control and SteamController (\<^theory_text>\<open>sc26_usb.h\<close>,
    \<^theory_text>\<open>steam_controller.*\<close>), PidEngine (\<^theory_text>\<open>pid_ff.*\<close>, the force-feedback engine). What the two
    PlayStation pads promise of their touchpads is the locale \<open>touch_surface\<close>. Profile is the table
    of \<^theory_text>\<open>profile.*\<close>, HidPath the instance ids and their recognition.
  \<^item> Descriptors: every HID report descriptor byte for byte, with a reader of HID items;
    DescriptorLayout and PlayStationUsb compare what a host reads in them with the packed structs and
    the size tables of the code.
  \<^item> The driver, \<^theory_text>\<open>driver/src/driver.cpp\<close>: DriverState (slots, device context), DriverSubmit and
    DriverStream (how a report reaches VHF, the encoders, the 4 ms keep-alive), DriverLifecycle
    (creation, destruction, power, start and stop), DriverControl (the IOCTL dispatch from request
    bytes and the feedback poll), DriverHost (the VHF callbacks and the force-feedback timer),
    DriverAdd (the birth of the device).
  \<^item> Its proofs: DriverFrame (what each operation leaves alone), DriverHistory and DriverLife (the
    handles over the driver's life), DriverData (the locales \<open>slot_stream\<close> and \<open>slot_data\<close>: what the
    operations of a slot promise of a predicate on slots), interpreted in DriverData and DriverSlots
    on the trivial predicate and in DriverTypes on well-formed slots.
  \<^item> KeyboardMouse: \<^theory_text>\<open>driver/src/keyboard_mouse.*\<close>, the producer core; KeyboardMouseNative:
    \<^theory_text>\<open>driver/src/keyboard_mouse_native.inc\<close>, its concurrent transport as a step relation;
    KeyboardMouseControl: the authorisation and the dispatch of a request in the same file, the wire
    structs of \<^theory_text>\<open>include/libvirtualgamepad/keyboard_mouse_control.h\<close> and the client's keyboard
    and mouse calls, with the transport run by one thread at a time.
  \<^item> Client: \<^theory_text>\<open>client/client.cpp\<close>, composed with the driver's control interface.
  \<^item> Ds5Gadget: \<^theory_text>\<open>linux/vibeshine-ds5/vibeshine_ds5_gadget.c\<close> (descriptors, endpoint 0, the HID, audio
    and feature requests, input, the character device), with the endpoint queues of
    \<^theory_text>\<open>vibeshine_ds5_udc.c\<close> that carry its reports.
  \<^item> The setup tool, \<^theory_text>\<open>tools/device_setup/VibeshineVhfGamepadDeviceSetup.cpp\<close>:
    InstallDecision is \<^theory_text>\<open>install_decision.h\<close>; SetupDevices recognises and enumerates the owned
    nodes and prints; SetupProbe is the bounded probe of the control interface; Installer the
    operations on one node; SetupCommands the commands and exit codes. SetupDemo is a machine to
    run it on; SetupSafety, SetupCycle, SetupReadiness and SetupVerdict prove its properties.

  \<^bold>\<open>How the code is read.\<close> A struct is a record with one field per member, an enumeration a datatype or
  the word the wire carries, an unsigned integer a word of its width, a signed one an integer in its
  range with the wrap or the clamp of the code written out, a byte buffer a list of bytes, a pointer
  that may be null an option, an array a list of its declared length. A function that may fail returns
  its status beside the new state. A section under a lock is one definition; the sections of an
  operation are composed in the code's order. What Windows does is a parameter: the record
  \<open>os_env\<close> holds the status of each framework call, the readings of the clock, and what other threads
  may do while one waits inside \<^theory_text>\<open>VhfStart\<close>; the record \<open>windows\<close> holds what stands behind a
  client's handle; \<open>km_host\<close> the answers of the framework and of the tokens to one keyboard and mouse
  request; \<open>setup_os\<close> the functions of Windows the setup tool calls, on a machine of any type. The
  setup tool's exceptions are the left side of a sum; its log, like \<open>dc_log\<close>, is a ghost. The theorems hold for every value of these parameters unless they name a hypothesis.
  \<open>dc_log\<close> is a ghost: the calls the driver made to VHF.

  \<^bold>\<open>What the lemmas show.\<close> Of each profile: the report a host receives carries the state the client
  set, at the offsets and in the sizes of the descriptor, and what the host sends is decoded as the
  code documents. Of the queues: order, capacity, what is dropped and that it is counted; the pump
  refines an abstract pump. Of the force-feedback engine: finite effects stop, rumble is bounded by the
  gain, a refused report changes nothing. Of the driver, over every reachable context: the handles it
  holds are exactly those VHF has given and not taken back, every slot and every queued report is well
  typed for its profile, a client reaches no slot but its own, a stop leaves nothing behind, a slot
  lost to a power-down comes back only to its owner. Of the keyboard and mouse: the reports taken are
  the client's intent, closing drains to neutral, and over every interleaving of threads nothing is
  submitted to a deleted child or from storage that changed and a teardown can always end. Of the
  client: what it packs the driver reads, what the driver answers it accepts, and it believes nothing
  that is not an event of the protocol; a submission's result is what the driver did, and a handle
  confers no authority. Of the Linux driver: the gadget stays consistent over every run, an input
  report reaches the host, replies are bounded, and the host meets the same pad as on Windows. Of the
  setup tool: it changes only nodes it has just recognised as its own, a cycle never leaves a node
  disabled without saying so, readiness rests on an answer of an owned node, an exit code of 0 means
  that every owned node runs the package's version, a removal visits every node, and what it prints
  reads back.

  \<^bold>\<open>Bounds and fuel.\<close> No definition of the model runs on fuel: a loop of the code recurses
  over a list, an index bounded by the code's own limit, or a proved measure (\<open>allocate_id\<close>,
  \<open>pump_loop\<close>, \<open>multi_sz_walk\<close>), and a
  thread that waits or runs for ever is a sequence of steps, one per wake-up. Capacities (16 slots, 64
  keyboard and mouse reports, 16 force-feedback blocks, the rings of a Steam Controller) are the constants of the code.

  \<^bold>\<open>Not modelled.\<close> the configuration structs of WDF objects, tracing and request completion around the operations; the
  device interface GUID; null output pointers of the client's calls; the release of device information
  sets and INF handles in the setup tool; the virtual host controller and root hub of
  \<^theory_text>\<open>vibeshine_ds5_udc.c\<close>, which is the Linux kernel's dummy_hcd under another
  name; the module's entry points; build files, scripts, tests and captures.
\<close>

end
